(* ===== verification/Prelude.thy ===== *)
theory Prelude
  imports
    "HOL-Library.Finite_Map"
    "HOL-Library.List_Lexorder"
    "HOL-Library.Char_ord"
    "HOL-Library.Multiset"
begin

text \<open>
  Shared vocabulary of the swarm-deploy development.

  Go values are read as follows. A Go map is a finite map (type \<open>fmap\<close>); a missing key of a
  \<open>map[string]bool\<close> reads as \<open>False\<close> and a missing key of a \<open>map[string]string\<close> as the empty
  string. A Go string is a byte list, and its order is the bytewise lexicographic order. A
  \<open>time.Time\<close> is the number of nanoseconds since Go's zero time, so \<open>IsZero\<close> is \<open>t = 0\<close>, and a
  \<open>time.Duration\<close> is a number of nanoseconds. An \<open>error\<close> result is an option, \<open>None\<close> being
  \<open>nil\<close>; a value or an error is a sum with the error on the left. A database transaction is
  \<open>within_tx\<close>: a failing body, statement or commit leaves the state as it was.

  The theory also holds the string functions of Go's standard library that the sources call, the
  stable sort, reachability of a step relation, and the interfaces (locales) that several
  components implement.
\<close>

named_theorems queue_defs \<open>unfolding rules of the stack queue's operations\<close>
named_theorems outbox_defs \<open>unfolding rules of the outbox statements\<close>
named_theorems store_defs \<open>unfolding rules of the deployment store's statements\<close>

type_synonym gotime = int
type_synonym duration = int
type_synonym ('k, 'v) gomap = "('k, 'v) fmap"
type_synonym labels = "(string, string) fmap"

definition second :: duration where
  "second = 1000000000"

definition minute :: duration where
  "minute = 60 * second"

definition hour :: duration where
  "hour = 60 * minute"

definition IsZero :: "gotime \<Rightarrow> bool" where
  "IsZero t \<longleftrightarrow> t = 0"

subsection \<open>Reading Go maps\<close>

definition map_true :: "('k, bool) gomap \<Rightarrow> 'k \<Rightarrow> bool" where
  "map_true m k \<longleftrightarrow> fmlookup m k = Some True"

definition map_str :: "('k, string) gomap \<Rightarrow> 'k \<Rightarrow> string" where
  "map_str m k = (case fmlookup m k of None \<Rightarrow> '''' | Some v \<Rightarrow> v)"

definition has_key :: "('k, 'v) gomap \<Rightarrow> 'k \<Rightarrow> bool" where
  "has_key m k \<longleftrightarrow> k |\<in>| fmdom m"

definition sorted_keys :: "(string, 'v) gomap \<Rightarrow> string list" where
  "sorted_keys m = sorted_list_of_fset (fmdom m)"

lemma map_true_simps [simp]:
  "\<not> map_true fmempty k"
  "map_true (fmupd k v m) k' \<longleftrightarrow> (if k' = k then v else map_true m k')"
  by (auto simp: map_true_def)

lemma has_key_iff: "has_key m k \<longleftrightarrow> (\<exists>v. fmlookup m k = Some v)"
  by (auto simp: has_key_def fmlookup_dom_iff)

lemma has_key_simps [simp]:
  "\<not> has_key fmempty k"
  "has_key (fmupd k v m) k' \<longleftrightarrow> k' = k \<or> has_key m k'"
  "has_key (fmdrop k m) k' \<longleftrightarrow> k' \<noteq> k \<and> has_key m k'"
  "has_key (fmfilter P m) k' \<longleftrightarrow> P k' \<and> has_key m k'"
  by (auto simp: has_key_iff)

lemma has_key_lookup [simp]: "fmlookup m k = Some v \<Longrightarrow> has_key m k"
  by (auto simp: has_key_iff)

lemma not_has_key_lookup: "\<not> has_key m k \<longleftrightarrow> fmlookup m k = None"
  by (auto simp: has_key_iff)

lemma fmap_empty_iff: "m = fmempty \<longleftrightarrow> (\<forall>k. \<not> has_key m k)"
  by (auto simp: not_has_key_lookup intro: fmap_ext)

lemma set_sorted_keys [simp]: "set (sorted_keys m) = {k. has_key m k}"
  by (auto simp: sorted_keys_def has_key_def sorted_list_of_fset_def)

lemma sorted_sorted_keys [simp]: "sorted (sorted_keys m)" "distinct (sorted_keys m)"
  by (simp_all add: sorted_keys_def sorted_list_of_fset_def)

subsection \<open>The database transaction\<close>

text \<open>
  \<open>within_tx\<close> runs a body and commits; the first argument is the failure of a statement or of the
  commit, if there is one.
\<close>

definition within_tx :: "'e option \<Rightarrow> ('s \<Rightarrow> 'e option \<times> 's) \<Rightarrow> 's \<Rightarrow> 'e option \<times> 's" where
  "within_tx fault body s =
     (case body s of
        (Some e, _) \<Rightarrow> (Some e, s)
      | (None, s') \<Rightarrow> (case fault of None \<Rightarrow> (None, s') | Some e \<Rightarrow> (Some e, s)))"

text \<open>A unit of work is atomic when an error means that nothing was written.\<close>

locale atomic_unit =
  fixes run :: "'s \<Rightarrow> 'e option \<times> 's"
  assumes rollback: "run s = (Some e, s') \<Longrightarrow> s' = s"
begin

lemma changed_only_on_success: "snd (run s) \<noteq> s \<Longrightarrow> fst (run s) = None"
  using rollback by (cases "run s", cases "fst (run s)") auto

lemma invariant_by_success:
  assumes "I s" and "\<And>s'. run s = (None, s') \<Longrightarrow> I s'"
  shows "I (snd (run s))"
proof (cases "run s")
  case (Pair err s')
  with assms rollback show ?thesis by (cases err) auto
qed

end

interpretation tx: atomic_unit "within_tx fault body" for fault body
  by unfold_locales (auto simp: within_tx_def split: prod.splits option.splits)

lemma within_tx_None: "within_tx fault body s = (None, s') \<longleftrightarrow> fault = None \<and> body s = (None, s')"
  by (auto simp: within_tx_def split: prod.splits option.splits)

subsection \<open>Strings of the Go standard library\<close>

text \<open>
  \<open>strings.TrimSpace\<close> removes the Unicode white space at both ends; a Go string is UTF-8, so the
  white space characters are these byte sequences.
\<close>

definition space_seqs :: "string list" where
  "space_seqs =
     [[CHR 0x09], [CHR 0x0A], [CHR 0x0B], [CHR 0x0C], [CHR 0x0D], [CHR 0x20], [CHR 0xC2, CHR 0x85],
      [CHR 0xC2, CHR 0xA0], [CHR 0xE1, CHR 0x9A, CHR 0x80], [CHR 0xE2, CHR 0x80, CHR 0x80],
      [CHR 0xE2, CHR 0x80, CHR 0x81], [CHR 0xE2, CHR 0x80, CHR 0x82],
      [CHR 0xE2, CHR 0x80, CHR 0x83], [CHR 0xE2, CHR 0x80, CHR 0x84],
      [CHR 0xE2, CHR 0x80, CHR 0x85], [CHR 0xE2, CHR 0x80, CHR 0x86],
      [CHR 0xE2, CHR 0x80, CHR 0x87], [CHR 0xE2, CHR 0x80, CHR 0x88],
      [CHR 0xE2, CHR 0x80, CHR 0x89], [CHR 0xE2, CHR 0x80, CHR 0x8A],
      [CHR 0xE2, CHR 0x80, CHR 0xA8], [CHR 0xE2, CHR 0x80, CHR 0xA9],
      [CHR 0xE2, CHR 0x80, CHR 0xAF], [CHR 0xE2, CHR 0x81, CHR 0x9F],
      [CHR 0xE3, CHR 0x80, CHR 0x80]]"

fun strip_prefix :: "string \<Rightarrow> string \<Rightarrow> string option" where
  "strip_prefix [] s = Some s"
| "strip_prefix (p # ps) [] = None"
| "strip_prefix (p # ps) (c # cs) = (if p = c then strip_prefix ps cs else None)"

fun first_strip :: "string list \<Rightarrow> string \<Rightarrow> string option" where
  "first_strip [] s = None"
| "first_strip (p # ps) s =
     (case strip_prefix p s of Some r \<Rightarrow> Some r | None \<Rightarrow> first_strip ps s)"

lemma strip_prefix_Some: "strip_prefix p s = Some r \<longleftrightarrow> s = p @ r"
  by (induction p s rule: strip_prefix.induct) auto

lemma first_strip_Some: "first_strip ps s = Some r \<Longrightarrow> \<exists>p \<in> set ps. s = p @ r"
  by (induction ps) (auto simp: strip_prefix_Some split: option.splits)

fun trim_seqs :: "nat \<Rightarrow> string list \<Rightarrow> string \<Rightarrow> string" where
  "trim_seqs 0 ps s = s"
| "trim_seqs (Suc n) ps s =
     (case first_strip ps s of None \<Rightarrow> s | Some r \<Rightarrow> trim_seqs n ps r)"

text \<open>Every stripped sequence has at least one byte, so the length bounds the number of rounds.\<close>

definition TrimSpace :: "string \<Rightarrow> string" where
  "TrimSpace s =
     (let l = trim_seqs (length s) space_seqs s
      in rev (trim_seqs (length l) (map rev space_seqs) (rev l)))"

lemma trim_seqs_done:
  assumes "[] \<notin> set ps" and "length s \<le> n"
  shows "first_strip ps (trim_seqs n ps s) = None"
  using assms
proof (induction n arbitrary: s)
  case 0
  then have "s = []" by simp
  then show ?case using 0 first_strip_Some [of ps "[]"] by (cases "first_strip ps []") auto
next
  case (Suc n)
  show ?case
  proof (cases "first_strip ps s")
    case (Some r)
    then obtain p where "p \<in> set ps" "s = p @ r" using first_strip_Some by blast
    with Suc.prems have "length r \<le> n" by (cases p) auto
    with Some Suc show ?thesis by simp
  qed simp
qed

definition TrimPrefix :: "string \<Rightarrow> string \<Rightarrow> string" where
  "TrimPrefix s p = (case strip_prefix p s of None \<Rightarrow> s | Some r \<Rightarrow> r)"

definition HasPrefix :: "string \<Rightarrow> string \<Rightarrow> bool" where
  "HasPrefix s p \<longleftrightarrow> strip_prefix p s \<noteq> None"

definition lower_char :: "char \<Rightarrow> char" where
  "lower_char c =
     (if 65 \<le> (of_char c :: nat) \<and> (of_char c :: nat) \<le> 90 then char_of ((of_char c :: nat) + 32)
      else c)"

text \<open>
  \<open>strings.ToLower\<close> as far as its ASCII output goes: besides A to Z, the Kelvin sign (U+212A) becomes k
  and the dotted capital I (U+0130) becomes i. All other characters have no ASCII lower case and are
  left as they are here; the sources only compare the result with ASCII words.
\<close>

definition lower_step :: "char \<Rightarrow> string \<Rightarrow> char \<times> string" where
  "lower_step c s =
     (case strip_prefix [CHR 0xE2, CHR 0x84, CHR 0xAA] (c # s) of
        Some r \<Rightarrow> (CHR ''k'', r)
      | None \<Rightarrow>
          (case strip_prefix [CHR 0xC4, CHR 0xB0] (c # s) of
             Some r \<Rightarrow> (CHR ''i'', r) | None \<Rightarrow> (lower_char c, s)))"

lemma lower_step_shorter: "length (snd (lower_step c s)) \<le> length s"
  by (auto simp: lower_step_def strip_prefix_Some split: option.splits)

function ToLower :: "string \<Rightarrow> string" where
  "ToLower [] = []"
| "ToLower (c # s) = fst (lower_step c s) # ToLower (snd (lower_step c s))"
  by pat_completeness auto
termination
  by (relation "measure length") (auto simp: less_Suc_eq_le lower_step_shorter)

subsection \<open>Stable sorting\<close>

text \<open>\<open>slices.SortStableFunc\<close>: \<open>cmp x y\<close> is negative, zero or positive.\<close>

fun insert_stable :: "('a \<Rightarrow> 'a \<Rightarrow> int) \<Rightarrow> 'a \<Rightarrow> 'a list \<Rightarrow> 'a list" where
  "insert_stable cmp x [] = [x]"
| "insert_stable cmp x (y # ys) =
     (if cmp x y \<le> 0 then x # y # ys else y # insert_stable cmp x ys)"

definition SortStableFunc :: "('a \<Rightarrow> 'a \<Rightarrow> int) \<Rightarrow> 'a list \<Rightarrow> 'a list" where
  "SortStableFunc cmp xs = foldr (insert_stable cmp) xs []"

lemma mset_insert_stable [simp]: "mset (insert_stable cmp x xs) = add_mset x (mset xs)"
  by (induction xs) auto

lemma mset_SortStableFunc [simp]: "mset (SortStableFunc cmp xs) = mset xs"
  by (induction xs) (auto simp: SortStableFunc_def)

lemma set_SortStableFunc [simp]: "set (SortStableFunc cmp xs) = set xs"
  by (metis mset_SortStableFunc set_mset_mset)

lemma length_SortStableFunc [simp]: "length (SortStableFunc cmp xs) = length xs"
  by (metis mset_SortStableFunc size_mset)

lemma insert_stable_insort:
  assumes "\<And>x y. cmp x y \<le> 0 \<longleftrightarrow> f x \<le> f y"
  shows "insert_stable cmp x xs = insort_key f x xs"
  by (induction xs) (auto simp: assms)

text \<open>A comparator that compares keys sorts as the library's stable \<open>sort_key\<close> does.\<close>

lemma SortStableFunc_sort_key:
  fixes f :: "'a \<Rightarrow> 'b :: linorder"
  assumes "\<And>x y. cmp x y \<le> 0 \<longleftrightarrow> f x \<le> f y"
  shows "SortStableFunc cmp xs = sort_key f xs"
  by (induction xs) (simp_all add: SortStableFunc_def insert_stable_insort [OF assms])

definition cmp_of_less :: "('a \<Rightarrow> 'a \<Rightarrow> bool) \<Rightarrow> 'a \<Rightarrow> 'a \<Rightarrow> int" where
  "cmp_of_less lt x y = (if lt x y then -1 else if lt y x then 1 else 0)"

subsection \<open>First occurrences\<close>

fun nub_onto :: "'a list \<Rightarrow> 'a list \<Rightarrow> 'a list" where
  "nub_onto acc [] = acc"
| "nub_onto acc (x # xs) = nub_onto (if x \<in> set acc then acc else acc @ [x]) xs"

lemma set_nub_onto [simp]: "set (nub_onto acc xs) = set acc \<union> set xs"
  by (induction acc xs rule: nub_onto.induct) auto

lemma distinct_nub_onto: "distinct acc \<Longrightarrow> distinct (nub_onto acc xs)"
  by (induction acc xs rule: nub_onto.induct) auto

lemma nub_onto_append: "nub_onto acc (xs @ ys) = nub_onto (nub_onto acc xs) ys"
  by (induction acc xs rule: nub_onto.induct) auto

lemma nub_onto_distinct:
  "distinct xs \<Longrightarrow> nub_onto acc xs = acc @ filter (\<lambda>x. x \<notin> set acc) xs"
proof (induction acc xs rule: nub_onto.induct)
  case (2 acc x xs)
  then show ?case by (auto intro!: filter_cong)
qed simp

definition precedes :: "'a list \<Rightarrow> 'a \<Rightarrow> 'a \<Rightarrow> bool" where
  "precedes xs a b \<longleftrightarrow> (\<exists>us vs. xs = us @ a # vs \<and> b \<in> set vs)"

lemma precedesI: "b \<in> set vs \<Longrightarrow> precedes (us @ a # vs) a b"
  by (auto simp: precedes_def)

lemma precedes_appendL: "precedes xs a b \<Longrightarrow> precedes (xs @ ys) a b"
  unfolding precedes_def by fastforce

lemma precedes_appendR: "precedes ys a b \<Longrightarrow> precedes (xs @ ys) a b"
  unfolding precedes_def by (metis append.assoc)

lemma precedes_across:
  assumes "a \<in> set xs" and "b \<in> set ys"
  shows "precedes (xs @ ys) a b"
proof -
  from assms(1) obtain us vs where "xs = us @ a # vs" by (meson split_list)
  with assms(2) have "xs @ ys = us @ a # (vs @ ys) \<and> b \<in> set (vs @ ys)" by simp
  then show ?thesis unfolding precedes_def by blast
qed

lemma precedes_filter:
  assumes "precedes xs a b" and "P a" and "P b"
  shows "precedes (filter P xs) a b"
proof -
  from assms(1) obtain us vs where "xs = us @ a # vs" "b \<in> set vs"
    by (auto simp: precedes_def)
  with assms(2,3) show ?thesis by (auto intro: precedesI)
qed

lemma precedes_set: "precedes xs a b \<Longrightarrow> a \<in> set xs \<and> b \<in> set xs"
  by (auto simp: precedes_def)

subsection \<open>Reachable states and inductive invariants\<close>

inductive reachable :: "('s \<Rightarrow> bool) \<Rightarrow> ('s \<Rightarrow> 's \<Rightarrow> bool) \<Rightarrow> 's \<Rightarrow> bool"
  for init :: "'s \<Rightarrow> bool" and step :: "'s \<Rightarrow> 's \<Rightarrow> bool" where
  reachable_init: "init s \<Longrightarrow> reachable init step s"
| reachable_step: "reachable init step s \<Longrightarrow> step s t \<Longrightarrow> reachable init step t"

locale inductive_invariant =
  fixes init :: "'s \<Rightarrow> bool" and step :: "'s \<Rightarrow> 's \<Rightarrow> bool" and inv :: "'s \<Rightarrow> bool"
  assumes inv_init: "init s \<Longrightarrow> inv s"
    and inv_step: "inv s \<Longrightarrow> step s t \<Longrightarrow> inv t"
begin

lemma inv_reachable: "reachable init step s \<Longrightarrow> inv s"
  by (induction rule: reachable.induct) (auto intro: inv_init inv_step)

lemma inv_steps: "step\<^sup>*\<^sup>* s t \<Longrightarrow> inv s \<Longrightarrow> inv t"
  by (induction rule: rtranclp_induct) (auto intro: inv_step)

end

end
