(* ===== verification/GitOpsConfig.thy ===== *)
theory GitOpsConfig
  imports Prelude
begin

text \<open>
  The configuration and request types shared by the GitOps components
  (\<open>internal/config/config.go\<close>, \<open>internal/modules/gitops/git/git.go\<close> and
  \<open>controller/stackloop/reconciliation.go\<close>). A Go pointer to a bool is an option. Spans, loggers
  and contexts carry no behaviour of their own and are left out.
\<close>

record stack_spec =
  stack_Name :: string
  stack_ComposeFile :: string
  stack_Prune :: "bool option"
  stack_SelfHeal :: "bool option"

record sync_policy_spec =
  policy_Prune :: bool
  policy_SelfHeal :: bool

record reconciliation_request =
  req_Stack :: stack_spec
  req_Commit :: string
  req_IsManual :: bool

record pull_result =
  pull_OldRevision :: string
  pull_NewRevision :: string
  pull_Updated :: bool

record commit_file_diff =
  diff_OldPath :: string
  diff_NewPath :: string

definition request_name :: "reconciliation_request \<Rightarrow> string" where
  "request_name r = stack_Name (req_Stack r)"

end
