(* ===== verification/StackQueue.thy ===== *)
theory StackQueue
  imports GitOpsConfig
begin

text \<open>
  The stack queue (\<open>internal/modules/gitops/controller/stackqueue/queue.go\<close>): stack operations on a
  fixed number of workers, at most one operation per stack.

  One definition per method; each method body runs under the queue's mutex, so it is one atomic
  function on the record \<open>queue\<close>. The idle channel is a channel number together with the set of
  channels closed so far. The workers of \<open>work\<close> are the list of a system state, and \<open>qstep\<close> is
  one critical section by any goroutine: it interleaves the workers with the callers freely.
\<close>

section \<open>Model\<close>

datatype op_kind = OperationReconcile | OperationCleanup

record operation =
  op_kind :: op_kind
  op_request :: reconciliation_request
  op_changed :: bool

record queue =
  q_workers :: nat
  q_ready :: "string list"
  q_pending :: "(string, operation) gomap"
  q_running :: "(string, operation) gomap"
  q_changedAfterFailure :: "(string, bool) gomap"
  q_paused :: bool
  q_started :: bool
  q_stopped :: bool
  q_idle :: nat
  q_closed :: "nat list"
  q_gauge :: "nat \<times> nat"

definition queue_new :: "int \<Rightarrow> queue" where
  "queue_new parallelism =
     \<lparr>q_workers = nat (max parallelism 1), q_ready = [], q_pending = fmempty, q_running = fmempty,
      q_changedAfterFailure = fmempty, q_paused = False, q_started = False, q_stopped = False,
      q_idle = 0, q_closed = [0], q_gauge = (0, 0)\<rparr>"

definition isRunning :: "queue \<Rightarrow> string \<Rightarrow> bool" where
  [queue_defs]: "isRunning q name \<longleftrightarrow> has_key (q_running q) name"

text \<open>
  \<open>updateStateLocked\<close>: the gauges, then the idle channel. A new channel gets the next number; a
  receive from a closed channel succeeds, which selects the first case of the \<open>select\<close>.
\<close>

definition q_busy :: "queue \<Rightarrow> bool" where
  [queue_defs]: "q_busy q \<longleftrightarrow> q_pending q \<noteq> fmempty \<or> q_running q \<noteq> fmempty"

definition updateState :: "queue \<Rightarrow> queue" where
  [queue_defs]: "updateState q =
     (let q = q\<lparr>q_gauge := (fcard (fmdom (q_pending q)), fcard (fmdom (q_running q)))\<rparr>
      in if q_idle q \<in> set (q_closed q)
         then (if q_busy q then q\<lparr>q_idle := Suc (q_idle q)\<rparr> else q)
         else (if \<not> q_busy q then q\<lparr>q_closed := q_idle q # q_closed q\<rparr> else q))"

definition q_start :: "queue \<Rightarrow> queue \<times> nat" where
  "q_start q =
     (if q_started q \<or> q_stopped q then (q, 0) else (q\<lparr>q_started := True\<rparr>, q_workers q))"

text \<open>The critical section of \<open>Stop\<close>; the wait for the workers follows it.\<close>

definition q_stop :: "queue \<Rightarrow> queue" where
  "q_stop q =
     updateState (q\<lparr>q_stopped := True, q_ready := [], q_pending := fmempty,
                    q_changedAfterFailure := fmempty\<rparr>)"

definition q_pause :: "queue \<Rightarrow> queue \<times> bool" where
  "q_pause q = (if q_stopped q then (q, False) else (q\<lparr>q_paused := True\<rparr>, True))"

definition q_resume :: "queue \<Rightarrow> queue" where
  "q_resume q = q\<lparr>q_paused := False\<rparr>"

text \<open>
  \<open>dropLocked\<close>: the keys of the pending map are collected in map order and sorted, so the result is
  their sorted list; the ready list is filtered only when something was dropped.
\<close>

definition dropLocked :: "(string \<Rightarrow> bool) \<Rightarrow> queue \<Rightarrow> queue \<times> string list" where
  [queue_defs]: "dropLocked matches q =
     (let dropped = filter matches (sorted_keys (q_pending q));
          q' = q\<lparr>q_pending := fmfilter (\<lambda>n. \<not> matches n) (q_pending q)\<rparr>
      in if dropped = [] then (q', [])
         else (q'\<lparr>q_ready := filter (\<lambda>n. \<not> matches n) (q_ready q)\<rparr>, dropped))"

definition pending_changed :: "queue \<Rightarrow> string \<Rightarrow> bool" where
  [queue_defs]: "pending_changed q name =
     (case fmlookup (q_pending q) name of None \<Rightarrow> False | Some op \<Rightarrow> op_changed op)"

definition enqueueLocked :: "string \<Rightarrow> queue \<Rightarrow> queue" where
  [queue_defs]: "enqueueLocked name q =
     (if pending_changed q name
      then q\<lparr>q_ready := takeWhile (pending_changed q) (q_ready q) @ [name] @
                        dropWhile (pending_changed q) (q_ready q)\<rparr>
      else q\<lparr>q_ready := q_ready q @ [name]\<rparr>)"

text \<open>The closure \<open>add\<close> of \<open>rebuildReadyLocked\<close>; its \<open>seen\<close> set is the set of the list built so far.\<close>

definition rebuild_add :: "queue \<Rightarrow> bool \<Rightarrow> string \<Rightarrow> string list \<Rightarrow> string list" where
  [queue_defs]: "rebuild_add q changedPass name ready =
     (if name \<in> set ready \<or> isRunning q name then ready
      else case fmlookup (q_pending q) name of
             None \<Rightarrow> ready
           | Some op \<Rightarrow> if op_changed op \<noteq> changedPass then ready else ready @ [name])"

definition rebuildReady :: "reconciliation_request list \<Rightarrow> queue \<Rightarrow> queue" where
  [queue_defs]: "rebuildReady requests q =
     (let pass = (\<lambda>changedPass ready.
            fold (rebuild_add q changedPass) (map request_name requests)
              (fold (rebuild_add q changedPass) (q_ready q) ready))
      in q\<lparr>q_ready := pass False (pass True [])\<rparr>)"

definition replace_operation ::
    "(string, bool) gomap \<Rightarrow> reconciliation_request \<Rightarrow> queue \<Rightarrow> operation" where
  [queue_defs]: "replace_operation changed req q =
     (let name = request_name req;
          op = \<lparr>op_kind = OperationReconcile, op_request = req,
                op_changed = map_true changed name \<or> map_true (q_changedAfterFailure q) name\<rparr>
      in case fmlookup (q_pending q) name of
           None \<Rightarrow> op
         | Some previous \<Rightarrow>
             op\<lparr>op_changed := op_changed op \<or> op_changed previous,
                op_request := (if op_kind previous = OperationReconcile
                  then req\<lparr>req_IsManual := req_IsManual req \<or> req_IsManual (op_request previous)\<rparr>
                  else req)\<rparr>)"

text \<open>The running operation already applies the requested revision and specification.\<close>

definition already_running :: "reconciliation_request \<Rightarrow> queue \<Rightarrow> bool" where
  [queue_defs]: "already_running req q =
     (case fmlookup (q_running q) (request_name req) of
        None \<Rightarrow> False
      | Some running \<Rightarrow>
          op_kind running = OperationReconcile \<and>
          req_Commit (op_request running) = req_Commit req \<and>
          req_Stack (op_request running) = req_Stack req)"

definition replace_one ::
    "(string, bool) gomap \<Rightarrow> reconciliation_request \<Rightarrow> queue \<Rightarrow> queue" where
  [queue_defs]: "replace_one changed req q =
     (let op = replace_operation changed req q
      in if already_running req q \<and> \<not> req_IsManual (op_request op)
         then q\<lparr>q_pending := fmdrop (request_name req) (q_pending q)\<rparr>
         else q\<lparr>q_pending := fmupd (request_name req) op (q_pending q)\<rparr>)"

definition q_replace ::
    "reconciliation_request list \<Rightarrow> (string, bool) gomap \<Rightarrow> queue \<Rightarrow> queue \<times> string list \<times> bool" where
  "q_replace requests changed q =
     (if q_stopped q then (q, [], False)
      else
        let (q1, dropped) = dropLocked (\<lambda>n. n \<notin> request_name ` set requests) q;
            q2 = fold (replace_one changed) requests q1;
            q3 = q2\<lparr>q_changedAfterFailure := fmempty\<rparr>
        in (updateState (rebuildReady requests q3), dropped, True))"

text \<open>\<open>Clear\<close>: the changed marks of the waiting reconciliations and of the failed run are kept.\<close>

definition clear_marks :: "(string, bool) gomap \<Rightarrow> queue \<Rightarrow> (string, bool) gomap" where
  [queue_defs]: "clear_marks changed q =
     fold (\<lambda>n m. fmupd n True m)
       (filter (\<lambda>n. case fmlookup (q_pending q) n of
                      None \<Rightarrow> False
                    | Some op \<Rightarrow> op_kind op = OperationReconcile \<and> op_changed op)
          (sorted_keys (q_pending q)) @
        filter (map_true changed) (sorted_keys changed))
       (q_changedAfterFailure q)"

definition q_clear :: "(string, bool) gomap \<Rightarrow> queue \<Rightarrow> queue \<times> string list" where
  "q_clear changed q =
     (let (q1, dropped) = dropLocked (\<lambda>_. True) (q\<lparr>q_changedAfterFailure := clear_marks changed q\<rparr>)
      in (updateState q1, dropped))"

definition submitCleanup :: "stack_spec \<Rightarrow> string \<Rightarrow> queue \<Rightarrow> queue \<times> bool" where
  "submitCleanup stack commit q =
     (let name = stack_Name stack
      in if q_stopped q \<or> q_paused q \<or> isRunning q name then (q, False)
         else if has_key (q_pending q) name then (q, False)
         else
           let op = \<lparr>op_kind = OperationCleanup,
                     op_request = \<lparr>req_Stack = stack, req_Commit = commit, req_IsManual = False\<rparr>,
                     op_changed = False\<rparr>
           in (updateState (enqueueLocked name (q\<lparr>q_pending := fmupd name op (q_pending q)\<rparr>)), True))"

text \<open>\<open>WaitIdle\<close> returns when the channel it captured is closed.\<close>

definition waitIdle_channel :: "queue \<Rightarrow> nat" where
  "waitIdle_channel q = q_idle q"

definition waitIdle_returns :: "nat \<Rightarrow> queue \<Rightarrow> bool" where
  "waitIdle_returns channel q \<longleftrightarrow> channel \<in> set (q_closed q)"

text \<open>
  \<open>next\<close>: the worker waits on the condition variable, finds the queue stopped, or takes the first
  ready stack. A ready stack always has waiting work, so the lookup of a missing key, which in Go
  gives the zero operation, does not occur (see the invariant below).
\<close>

datatype next_result = Blocked | Stopped | Taken string operation queue

definition zero_operation :: operation where
  "zero_operation =
     \<lparr>op_kind = OperationReconcile,
      op_request = \<lparr>req_Stack = \<lparr>stack_Name = '''', stack_ComposeFile = '''', stack_Prune = None,
                                 stack_SelfHeal = None\<rparr>,
                    req_Commit = '''', req_IsManual = False\<rparr>,
      op_changed = False\<rparr>"

definition next_operation :: "queue \<Rightarrow> next_result" where
  "next_operation q =
     (if q_stopped q then Stopped
      else if q_paused q then Blocked
      else case q_ready q of
             [] \<Rightarrow> Blocked
           | name # rest \<Rightarrow>
               let op = (case fmlookup (q_pending q) name of
                           None \<Rightarrow> zero_operation | Some op \<Rightarrow> op)
               in Taken name op
                    (updateState (q\<lparr>q_ready := rest, q_pending := fmdrop name (q_pending q),
                                    q_running := fmupd name op (q_running q)\<rparr>)))"

definition finish :: "string \<Rightarrow> queue \<Rightarrow> queue" where
  "finish name q =
     (let q1 = q\<lparr>q_running := fmdrop name (q_running q)\<rparr>;
          q2 = (if has_key (q_pending q1) name then enqueueLocked name q1 else q1)
      in updateState q2)"

text \<open>
  \<open>execute\<close>: the reconciler is the interface \<open>stackloop.StackReconciler\<close>; the result is the
  operation recorded in the metrics.
\<close>

definition execute ::
    "(reconciliation_request \<Rightarrow> 'e option) \<Rightarrow> (stack_spec \<Rightarrow> string \<Rightarrow> 'e option) \<Rightarrow> operation \<Rightarrow>
     string \<times> op_kind \<times> string" where
  "execute reconcile cleanup op =
     (let err = (case op_kind op of
                   OperationCleanup \<Rightarrow> cleanup (req_Stack (op_request op)) (req_Commit (op_request op))
                 | OperationReconcile \<Rightarrow> reconcile (op_request op))
      in (request_name (op_request op), op_kind op, if err = None then ''success'' else ''error''))"

text \<open>
  \<open>work\<close>: the loop of one worker, with fuel for the number of operations it may take. The second
  component lists the operations it executed, in order.
\<close>

fun work :: "nat \<Rightarrow> queue \<Rightarrow> (string \<times> operation) list \<times> queue" where
  "work 0 q = ([], q)"
| "work (Suc n) q =
     (case next_operation q of
        Taken name op q' \<Rightarrow> (case work n (finish name q') of (ops, q'') \<Rightarrow> ((name, op) # ops, q''))
      | _ \<Rightarrow> ([], q))"

section \<open>The queue and its workers as a transition system\<close>

datatype worker = Waiting | Executing string operation | Exited

record queue_system =
  sys_queue :: queue
  sys_workers :: "worker list"

fun executing :: "worker list \<Rightarrow> string list" where
  "executing [] = []"
| "executing (Executing name op # ws) = name # executing ws"
| "executing (w # ws) = executing ws"

inductive qstep :: "queue_system \<Rightarrow> queue_system \<Rightarrow> bool" where
  start: "q_start (sys_queue s) = (q, n) \<Longrightarrow>
     qstep s (s\<lparr>sys_queue := q, sys_workers := sys_workers s @ replicate n Waiting\<rparr>)"
| stop: "qstep s (s\<lparr>sys_queue := q_stop (sys_queue s)\<rparr>)"
| pause: "qstep s (s\<lparr>sys_queue := fst (q_pause (sys_queue s))\<rparr>)"
| resume: "qstep s (s\<lparr>sys_queue := q_resume (sys_queue s)\<rparr>)"
| replace: "qstep s (s\<lparr>sys_queue := fst (q_replace requests changed (sys_queue s))\<rparr>)"
| clear: "qstep s (s\<lparr>sys_queue := fst (q_clear changed (sys_queue s))\<rparr>)"
| cleanup: "qstep s (s\<lparr>sys_queue := fst (submitCleanup stack commit (sys_queue s))\<rparr>)"
| take: "i < length (sys_workers s) \<Longrightarrow> sys_workers s ! i = Waiting \<Longrightarrow>
     next_operation (sys_queue s) = Taken name op q \<Longrightarrow>
     qstep s (s\<lparr>sys_queue := q, sys_workers := (sys_workers s)[i := Executing name op]\<rparr>)"
| leave: "i < length (sys_workers s) \<Longrightarrow> sys_workers s ! i = Waiting \<Longrightarrow>
     next_operation (sys_queue s) = Stopped \<Longrightarrow>
     qstep s (s\<lparr>sys_workers := (sys_workers s)[i := Exited]\<rparr>)"
| finished: "i < length (sys_workers s) \<Longrightarrow> sys_workers s ! i = Executing name op \<Longrightarrow>
     qstep s (s\<lparr>sys_queue := finish name (sys_queue s), sys_workers := (sys_workers s)[i := Waiting]\<rparr>)"

definition queue_init :: "int \<Rightarrow> queue_system \<Rightarrow> bool" where
  "queue_init parallelism s \<longleftrightarrow> s = \<lparr>sys_queue = queue_new parallelism, sys_workers = []\<rparr>"


section \<open>The invariant\<close>

definition keyed :: "(string, operation) gomap \<Rightarrow> bool" where
  "keyed m \<longleftrightarrow> (\<forall>n op. fmlookup m n = Some op \<longrightarrow> request_name (op_request op) = n)"

text \<open>
  \<open>work_inv\<close>: the ready list holds exactly the stacks with waiting work that are not running, each
  once, those changed in Git first; every entry is filed under its own stack; a stopped queue has
  nothing waiting. \<open>chan_inv\<close>: every channel before the current one is closed, none twice.
\<close>

definition work_inv :: "queue \<Rightarrow> bool" where
  "work_inv q \<longleftrightarrow>
     distinct (q_ready q) \<and>
     set (q_ready q) = {n. has_key (q_pending q) n \<and> \<not> has_key (q_running q) n} \<and>
     sorted (map (\<lambda>n. \<not> pending_changed q n) (q_ready q)) \<and>
     keyed (q_pending q) \<and> keyed (q_running q) \<and>
     (q_stopped q \<longrightarrow> q_pending q = fmempty) \<and> 1 \<le> q_workers q"

definition chan_inv :: "queue \<Rightarrow> bool" where
  "chan_inv q \<longleftrightarrow> distinct (q_closed q) \<and> (\<forall>c < q_idle q. c \<in> set (q_closed q)) \<and>
     (\<forall>c \<in> set (q_closed q). c \<le> q_idle q)"

definition state_inv :: "queue \<Rightarrow> bool" where
  "state_inv q \<longleftrightarrow> (waitIdle_returns (waitIdle_channel q) q \<longleftrightarrow> \<not> q_busy q) \<and>
     q_gauge q = (fcard (fmdom (q_pending q)), fcard (fmdom (q_running q)))"

definition queue_inv :: "queue \<Rightarrow> bool" where
  "queue_inv q \<longleftrightarrow> work_inv q \<and> chan_inv q \<and> state_inv q"

definition system_inv :: "queue_system \<Rightarrow> bool" where
  "system_inv s \<longleftrightarrow>
     queue_inv (sys_queue s) \<and> distinct (executing (sys_workers s)) \<and>
     set (executing (sys_workers s)) = {n. has_key (q_running (sys_queue s)) n} \<and>
     length (sys_workers s) = (if q_started (sys_queue s) then q_workers (sys_queue s) else 0)"

lemma updateState_fields [simp]:
  "q_workers (updateState q) = q_workers q" "q_ready (updateState q) = q_ready q"
  "q_pending (updateState q) = q_pending q" "q_running (updateState q) = q_running q"
  "q_changedAfterFailure (updateState q) = q_changedAfterFailure q"
  "q_paused (updateState q) = q_paused q" "q_started (updateState q) = q_started q"
  "q_stopped (updateState q) = q_stopped q"
  by (simp_all add: updateState_def Let_def)

lemma pending_changed_cong:
  "q_pending q = q_pending q' \<Longrightarrow> pending_changed q n = pending_changed q' n"
  by (simp add: pending_changed_def)

lemma pending_changed_updateState [simp]: "pending_changed (updateState q) = pending_changed q"
  by (rule ext) (simp add: pending_changed_def)

lemma work_inv_cong:
  assumes "q_ready q' = q_ready q" "q_pending q' = q_pending q" "q_running q' = q_running q"
    "q_stopped q' = q_stopped q" "q_workers q' = q_workers q"
  shows "work_inv q' = work_inv q"
  using assms pending_changed_cong [of q' q] by (simp add: work_inv_def)

lemma chan_inv_cong:
  "q_idle q' = q_idle q \<Longrightarrow> q_closed q' = q_closed q \<Longrightarrow> chan_inv q' = chan_inv q"
  by (simp add: chan_inv_def)

text \<open>\<open>updateStateLocked\<close> re-establishes the whole invariant from the part about the work.\<close>

lemma updateState_queue_inv: "work_inv q \<Longrightarrow> chan_inv q \<Longrightarrow> queue_inv (updateState q)"
proof -
  assume w: "work_inv q" and c: "chan_inv q"
  have "work_inv (updateState q)"
    using w by (subst work_inv_cong [where q = q]) simp_all
  moreover have "chan_inv (updateState q)"
    using c by (auto simp: chan_inv_def updateState_def Let_def less_Suc_eq le_Suc_eq q_busy_def)
  moreover have "state_inv (updateState q)"
    using c by (auto simp: state_inv_def waitIdle_returns_def waitIdle_channel_def updateState_def
        Let_def q_busy_def chan_inv_def)
  ultimately show ?thesis by (simp add: queue_inv_def)
qed

lemma queue_inv_parts: "queue_inv q \<Longrightarrow> work_inv q" "queue_inv q \<Longrightarrow> chan_inv q"
  by (simp_all add: queue_inv_def)

lemma queue_inv_cong:
  assumes "q_ready q' = q_ready q" "q_pending q' = q_pending q" "q_running q' = q_running q"
    "q_stopped q' = q_stopped q" "q_workers q' = q_workers q" "q_idle q' = q_idle q"
    "q_closed q' = q_closed q" "q_gauge q' = q_gauge q"
  shows "queue_inv q' = queue_inv q"
  using assms work_inv_cong [of q' q] chan_inv_cong [of q' q]
  by (simp add: queue_inv_def state_inv_def q_busy_def waitIdle_returns_def waitIdle_channel_def)

subsection \<open>Dropping and enqueueing\<close>

lemma dropLocked_eq:
  assumes "work_inv q"
  shows "dropLocked matches q =
    (q\<lparr>q_pending := fmfilter (\<lambda>n. \<not> matches n) (q_pending q),
       q_ready := filter (\<lambda>n. \<not> matches n) (q_ready q)\<rparr>,
     filter matches (sorted_keys (q_pending q)))"
proof (cases "filter matches (sorted_keys (q_pending q)) = []")
  case True
  then have "filter (\<lambda>n. \<not> matches n) (q_ready q) = q_ready q"
    using assms by (auto simp: work_inv_def filter_empty_conv filter_id_conv)
  with True show ?thesis by (simp add: dropLocked_def)
qed (simp add: dropLocked_def)

lemma keyed_filter [simp]: "keyed m \<Longrightarrow> keyed (fmfilter P m)"
  by (simp add: keyed_def)

lemma keyed_drop [simp]: "keyed m \<Longrightarrow> keyed (fmdrop n m)"
  by (simp add: keyed_def)

lemma keyed_upd [simp]: "keyed m \<Longrightarrow> request_name (op_request op) = n \<Longrightarrow> keyed (fmupd n op m)"
  by (simp add: keyed_def)

lemma keyed_empty [simp]: "keyed fmempty"
  by (simp add: keyed_def)

lemma enqueueLocked_fields [simp]:
  "q_workers (enqueueLocked n q) = q_workers q" "q_pending (enqueueLocked n q) = q_pending q"
  "q_running (enqueueLocked n q) = q_running q" "q_stopped (enqueueLocked n q) = q_stopped q"
  "q_started (enqueueLocked n q) = q_started q" "q_paused (enqueueLocked n q) = q_paused q"
  "q_idle (enqueueLocked n q) = q_idle q" "q_closed (enqueueLocked n q) = q_closed q"
  by (simp_all add: enqueueLocked_def)

lemma set_enqueueLocked: "set (q_ready (enqueueLocked n q)) = insert n (set (q_ready q))"
proof -
  have "set (q_ready q) =
      set (takeWhile (pending_changed q) (q_ready q)) \<union> set (dropWhile (pending_changed q) (q_ready q))"
    by (metis set_append takeWhile_dropWhile_id)
  then show ?thesis by (auto simp: enqueueLocked_def)
qed

lemma distinct_insert_at:
  "distinct (takeWhile P xs @ n # dropWhile P xs) \<longleftrightarrow> distinct xs \<and> n \<notin> set xs"
proof -
  have "distinct (us @ n # vs) \<longleftrightarrow> distinct (us @ vs) \<and> n \<notin> set (us @ vs)" for us vs :: "'a list"
    by auto
  from this [of "takeWhile P xs" "dropWhile P xs"] show ?thesis by (simp only: takeWhile_dropWhile_id)
qed

lemma distinct_enqueueLocked:
  "distinct (q_ready (enqueueLocked n q)) \<longleftrightarrow> distinct (q_ready q) \<and> n \<notin> set (q_ready q)"
  using distinct_insert_at [of "pending_changed q" "q_ready q" n] by (auto simp: enqueueLocked_def)

lemma sorted_insert_at:
  assumes "sorted (map (\<lambda>x. \<not> P x) xs)" and "P n"
  shows "sorted (map (\<lambda>x. \<not> P x) (takeWhile P xs @ n # dropWhile P xs))"
proof -
  have *: "sorted (map (\<lambda>x. \<not> P x) (us @ n # vs))"
    if "sorted (map (\<lambda>x. \<not> P x) (us @ vs))" "\<forall>u \<in> set us. P u" for us vs
    using that \<open>P n\<close> by (simp add: sorted_append)
  show ?thesis
    by (rule *) (simp_all add: assms del: map_append, auto dest: set_takeWhileD)
qed

lemma sorted_enqueueLocked:
  assumes "sorted (map (\<lambda>x. \<not> pending_changed q x) (q_ready q))"
  shows "sorted (map (\<lambda>x. \<not> pending_changed q x) (q_ready (enqueueLocked n q)))"
proof (cases "pending_changed q n")
  case True
  with sorted_insert_at [OF assms True] show ?thesis by (simp add: enqueueLocked_def)
next
  case False
  with assms show ?thesis by (simp add: enqueueLocked_def sorted_append)
qed

lemma enqueueLocked_work_inv:
  assumes "distinct (q_ready q)" and "n \<notin> set (q_ready q)"
    and "insert n (set (q_ready q)) = {n. has_key (q_pending q) n \<and> \<not> has_key (q_running q) n}"
    and "sorted (map (\<lambda>x. \<not> pending_changed q x) (q_ready q))"
    and "keyed (q_pending q)" "keyed (q_running q)" "\<not> q_stopped q" "1 \<le> q_workers q"
  shows "work_inv (enqueueLocked n q)"
proof -
  have "pending_changed (enqueueLocked n q) = pending_changed q"
    by (rule ext) (simp add: pending_changed_def)
  with assms show ?thesis
    by (simp add: work_inv_def set_enqueueLocked distinct_enqueueLocked sorted_enqueueLocked)
qed

subsection \<open>Rebuilding the ready list\<close>

definition eligible :: "queue \<Rightarrow> bool \<Rightarrow> string \<Rightarrow> bool" where
  "eligible q changedPass n \<longleftrightarrow>
     has_key (q_pending q) n \<and> \<not> has_key (q_running q) n \<and> pending_changed q n = changedPass"

lemma fold_rebuild_add:
  "fold (rebuild_add q pass) xs acc = nub_onto acc (filter (eligible q pass) xs)"
  by (induction xs arbitrary: acc)
    (auto simp: rebuild_add_def eligible_def isRunning_def pending_changed_def not_has_key_lookup
      has_key_iff split: option.splits)

lemma rebuildReady_ready:
  "q_ready (rebuildReady requests q) =
     nub_onto (nub_onto [] (filter (eligible q True) (q_ready q @ map request_name requests)))
       (filter (eligible q False) (q_ready q @ map request_name requests))"
  by (simp add: rebuildReady_def fold_rebuild_add nub_onto_append)

lemma nub_onto_disjoint:
  "set acc \<inter> set xs = {} \<Longrightarrow> nub_onto (acc @ bs) xs = acc @ nub_onto bs xs"
proof (induction xs arbitrary: bs)
  case (Cons x xs)
  then have "x \<in> set (acc @ bs) \<longleftrightarrow> x \<in> set bs" by auto
  moreover have "set acc \<inter> set xs = {}" using Cons.prems by auto
  ultimately show ?case using Cons.IH [of bs] Cons.IH [of "bs @ [x]"] by simp
qed simp

text \<open>The changed stacks come first, and each group keeps the order of its first occurrences.\<close>

lemma rebuildReady_groups:
  "q_ready (rebuildReady requests q) =
     nub_onto [] (filter (eligible q True) (q_ready q @ map request_name requests)) @
     nub_onto [] (filter (eligible q False) (q_ready q @ map request_name requests))"
proof -
  let ?a = "nub_onto [] (filter (eligible q True) (q_ready q @ map request_name requests))"
  let ?b = "filter (eligible q False) (q_ready q @ map request_name requests)"
  have "set ?a \<inter> set ?b = {}" by (auto simp: eligible_def)
  from nub_onto_disjoint [OF this, of "[]"] show ?thesis by (simp only: rebuildReady_ready append_Nil2)
qed

lemma rebuildReady_fields [simp]:
  "q_workers (rebuildReady r q) = q_workers q" "q_pending (rebuildReady r q) = q_pending q"
  "q_running (rebuildReady r q) = q_running q" "q_stopped (rebuildReady r q) = q_stopped q"
  "q_started (rebuildReady r q) = q_started q" "q_paused (rebuildReady r q) = q_paused q"
  "q_changedAfterFailure (rebuildReady r q) = q_changedAfterFailure q"
  "q_idle (rebuildReady r q) = q_idle q" "q_closed (rebuildReady r q) = q_closed q"
  by (simp_all add: rebuildReady_def)

lemma sorted_const: "(\<And>x. x \<in> set xs \<Longrightarrow> f x = c) \<Longrightarrow> sorted (map f xs)"
  by (induction xs) auto

lemma rebuildReady_work_inv:
  assumes "{n. has_key (q_pending q) n} \<subseteq> request_name ` set requests"
    and "keyed (q_pending q)" "keyed (q_running q)" "\<not> q_stopped q" "1 \<le> q_workers q"
  shows "work_inv (rebuildReady requests q)"
proof -
  let ?q = "rebuildReady requests q"
  let ?xs = "q_ready q @ map request_name requests"
  have pc: "pending_changed ?q = pending_changed q" by (rule ext) (simp add: pending_changed_def)
  have "set (q_ready ?q) = {n. has_key (q_pending q) n \<and> \<not> has_key (q_running q) n}"
    using assms(1) by (auto simp: rebuildReady_groups eligible_def)
  moreover have "distinct (q_ready ?q)"
    by (auto simp: rebuildReady_groups distinct_nub_onto eligible_def)
  moreover have "sorted (map (\<lambda>n. \<not> pending_changed q n) (q_ready ?q))"
  proof -
    have "sorted (map (\<lambda>n. \<not> pending_changed q n) (nub_onto [] (filter (eligible q c) ?xs)))" for c
      by (rule sorted_const [where c = "\<not> c"]) (auto simp: eligible_def)
    moreover have "\<not> \<not> pending_changed q x"
      if "x \<in> set (nub_onto [] (filter (eligible q True) ?xs))" for x
      using that by (auto simp: eligible_def)
    ultimately show ?thesis
      unfolding rebuildReady_groups map_append sorted_append by fastforce
  qed
  ultimately show ?thesis using assms by (simp add: work_inv_def pc)
qed


subsection \<open>Every method keeps the invariant\<close>

lemma queue_new_inv: "queue_inv (queue_new n)"
  by (simp add: queue_inv_def work_inv_def chan_inv_def state_inv_def queue_new_def q_busy_def
      waitIdle_returns_def waitIdle_channel_def)

lemma q_start_inv: "queue_inv q \<Longrightarrow> queue_inv (fst (q_start q))"
  by (subst queue_inv_cong [where q = q]) (simp_all add: q_start_def)

lemma q_pause_inv: "queue_inv q \<Longrightarrow> queue_inv (fst (q_pause q))"
  by (subst queue_inv_cong [where q = q]) (simp_all add: q_pause_def)

lemma q_resume_inv: "queue_inv q \<Longrightarrow> queue_inv (q_resume q)"
  by (subst queue_inv_cong [where q = q]) (simp_all add: q_resume_def)

lemma q_stop_inv: "queue_inv q \<Longrightarrow> queue_inv (q_stop q)"
  unfolding q_stop_def
  by (rule updateState_queue_inv) (auto simp: queue_inv_def work_inv_def chan_inv_def)

lemma replace_one_fields [simp]:
  "q_workers (replace_one c r q) = q_workers q" "q_ready (replace_one c r q) = q_ready q"
  "q_running (replace_one c r q) = q_running q" "q_stopped (replace_one c r q) = q_stopped q"
  "q_started (replace_one c r q) = q_started q" "q_paused (replace_one c r q) = q_paused q"
  "q_changedAfterFailure (replace_one c r q) = q_changedAfterFailure q"
  "q_idle (replace_one c r q) = q_idle q" "q_closed (replace_one c r q) = q_closed q"
  by (simp_all add: replace_one_def Let_def)

lemma fold_replace_one_fields [simp]:
  "q_workers (fold (replace_one c) rs q) = q_workers q" "q_ready (fold (replace_one c) rs q) = q_ready q"
  "q_running (fold (replace_one c) rs q) = q_running q" "q_stopped (fold (replace_one c) rs q) = q_stopped q"
  "q_started (fold (replace_one c) rs q) = q_started q" "q_paused (fold (replace_one c) rs q) = q_paused q"
  "q_changedAfterFailure (fold (replace_one c) rs q) = q_changedAfterFailure q"
  "q_idle (fold (replace_one c) rs q) = q_idle q" "q_closed (fold (replace_one c) rs q) = q_closed q"
  by (induction rs arbitrary: q) simp_all

lemma replace_operation_request:
  "op_kind (replace_operation c r q) = OperationReconcile"
  "req_Stack (op_request (replace_operation c r q)) = req_Stack r"
  "req_Commit (op_request (replace_operation c r q)) = req_Commit r"
  "req_IsManual r \<Longrightarrow> req_IsManual (op_request (replace_operation c r q))"
  by (auto simp: replace_operation_def Let_def split: option.splits)

lemma replace_operation_name [simp]:
  "request_name (op_request (replace_operation c r q)) = request_name r"
  by (simp add: request_name_def replace_operation_request)

lemma replace_one_keyed: "keyed (q_pending q) \<Longrightarrow> keyed (q_pending (replace_one c r q))"
  by (simp add: replace_one_def Let_def)

lemma fold_replace_one_keyed: "keyed (q_pending q) \<Longrightarrow> keyed (q_pending (fold (replace_one c) rs q))"
  by (induction rs arbitrary: q) (simp_all add: replace_one_keyed)

lemma fold_replace_one_keys:
  "has_key (q_pending (fold (replace_one c) rs q)) n \<Longrightarrow>
   has_key (q_pending q) n \<or> n \<in> request_name ` set rs"
proof (induction rs arbitrary: q)
  case (Cons r rs)
  then have "has_key (q_pending (replace_one c r q)) n \<or> n \<in> request_name ` set rs" by simp
  then show ?case by (auto simp: replace_one_def Let_def split: if_splits)
qed simp

lemma q_replace_inv: "queue_inv q \<Longrightarrow> queue_inv (fst (q_replace rs c q))"
proof (cases "q_stopped q")
  case False
  assume inv: "queue_inv q"
  let ?drop = "\<lambda>n. n \<notin> request_name ` set rs"
  let ?q1 = "fst (dropLocked ?drop q)"
  let ?q3 = "(fold (replace_one c) rs ?q1)\<lparr>q_changedAfterFailure := fmempty\<rparr>"
  note drop = dropLocked_eq [OF queue_inv_parts(1) [OF inv], of ?drop]
  have "work_inv (rebuildReady rs ?q3)"
  proof (rule rebuildReady_work_inv)
    show "{n. has_key (q_pending ?q3) n} \<subseteq> request_name ` set rs"
      using fold_replace_one_keys [of c rs ?q1] by (auto simp: drop)
    show "keyed (q_pending ?q3)"
      using inv by (simp add: fold_replace_one_keyed drop queue_inv_def work_inv_def)
  qed (use False inv in \<open>simp_all add: drop queue_inv_def work_inv_def\<close>)
  moreover have "chan_inv (rebuildReady rs ?q3)"
    using inv by (simp add: drop queue_inv_def chan_inv_def)
  ultimately have "queue_inv (updateState (rebuildReady rs ?q3))" by (rule updateState_queue_inv)
  with False show ?thesis by (simp add: q_replace_def drop Let_def)
qed (simp add: q_replace_def)

lemma q_clear_inv: "queue_inv q \<Longrightarrow> queue_inv (fst (q_clear c q))"
proof -
  assume inv: "queue_inv q"
  let ?q0 = "q\<lparr>q_changedAfterFailure := clear_marks c q\<rparr>"
  have w: "work_inv ?q0"
    using inv by (subst work_inv_cong [where q = q]) (simp_all add: queue_inv_def)
  have "work_inv (fst (dropLocked (\<lambda>_. True) ?q0))" "chan_inv (fst (dropLocked (\<lambda>_. True) ?q0))"
    using inv w by (auto simp: dropLocked_eq [OF w] work_inv_def queue_inv_def chan_inv_def fmap_empty_iff)
  from updateState_queue_inv [OF this] show ?thesis
    by (simp add: q_clear_def dropLocked_eq [OF w])
qed

lemma sorted_pending_cong:
  assumes "\<And>n. n \<in> set xs \<Longrightarrow> fmlookup (q_pending q') n = fmlookup (q_pending q) n"
    and "sorted (map (\<lambda>n. \<not> pending_changed q n) xs)"
  shows "sorted (map (\<lambda>n. \<not> pending_changed q' n) xs)"
proof -
  have "map (\<lambda>n. \<not> pending_changed q' n) xs = map (\<lambda>n. \<not> pending_changed q n) xs"
    by (rule map_cong) (simp_all add: pending_changed_def assms(1))
  with assms(2) show ?thesis by (simp only:)
qed

lemma submitCleanup_inv: "queue_inv q \<Longrightarrow> queue_inv (fst (submitCleanup stack commit q))"
proof (cases "q_stopped q \<or> q_paused q \<or> isRunning q (stack_Name stack) \<or> has_key (q_pending q) (stack_Name stack)")
  case False
  assume inv: "queue_inv q"
  define op where "op = \<lparr>op_kind = OperationCleanup,
     op_request = \<lparr>req_Stack = stack, req_Commit = commit, req_IsManual = False\<rparr>, op_changed = False\<rparr>"
  let ?q = "q\<lparr>q_pending := fmupd (stack_Name stack) op (q_pending q)\<rparr>"
  have fresh: "stack_Name stack \<notin> set (q_ready q)"
    using False inv by (auto simp: queue_inv_def work_inv_def)
  have srt: "sorted (map (\<lambda>x. \<not> pending_changed ?q x) (q_ready q))"
    by (rule sorted_pending_cong [where q = q]) (use fresh inv in \<open>auto simp: queue_inv_def work_inv_def\<close>)
  have "work_inv (enqueueLocked (stack_Name stack) ?q)"
    by (rule enqueueLocked_work_inv)
      (use False inv fresh srt in \<open>auto simp: queue_inv_def work_inv_def op_def request_name_def isRunning_def\<close>)
  moreover have "chan_inv (enqueueLocked (stack_Name stack) ?q)"
    using inv by (simp add: queue_inv_def chan_inv_def)
  ultimately have "queue_inv (updateState (enqueueLocked (stack_Name stack) ?q))"
    by (rule updateState_queue_inv)
  with False show ?thesis by (simp add: submitCleanup_def op_def Let_def)
qed (auto simp: submitCleanup_def Let_def)

text \<open>A worker takes the waiting operation of the first ready stack.\<close>

lemma next_operation_Taken:
  assumes "queue_inv q" and "next_operation q = Taken name op q'"
  shows "\<exists>rest. q_ready q = name # rest" "fmlookup (q_pending q) name = Some op"
    "\<not> has_key (q_running q) name" "\<not> q_stopped q" "\<not> q_paused q"
    "q' = updateState (q\<lparr>q_ready := tl (q_ready q), q_pending := fmdrop name (q_pending q),
       q_running := fmupd name op (q_running q)\<rparr>)"
proof -
  from assms(2) obtain rest where r: "q_ready q = name # rest" and st: "\<not> q_stopped q" "\<not> q_paused q"
    by (auto simp: next_operation_def Let_def split: if_splits list.splits)
  with assms(1) have k: "has_key (q_pending q) name" "\<not> has_key (q_running q) name"
    by (auto simp: queue_inv_def work_inv_def)
  from r st k assms(2) show "\<exists>rest. q_ready q = name # rest" "fmlookup (q_pending q) name = Some op"
    "\<not> has_key (q_running q) name" "\<not> q_stopped q" "\<not> q_paused q"
    "q' = updateState (q\<lparr>q_ready := tl (q_ready q), q_pending := fmdrop name (q_pending q),
       q_running := fmupd name op (q_running q)\<rparr>)"
    by (auto simp: next_operation_def Let_def has_key_iff)
qed

lemma next_operation_inv: "queue_inv q \<Longrightarrow> next_operation q = Taken name op q' \<Longrightarrow> queue_inv q'"
proof -
  assume inv: "queue_inv q" and tk: "next_operation q = Taken name op q'"
  note t = next_operation_Taken [OF inv tk]
  obtain rest where r: "q_ready q = name # rest" using t(1) by blast
  let ?q = "q\<lparr>q_ready := rest, q_pending := fmdrop name (q_pending q),
     q_running := fmupd name op (q_running q)\<rparr>"
  have srt: "sorted (map (\<lambda>x. \<not> pending_changed ?q x) rest)"
    by (rule sorted_pending_cong [where q = q]) (use r inv in \<open>auto simp: queue_inv_def work_inv_def\<close>)
  have key: "request_name (op_request op) = name"
    using t(2) inv by (simp add: queue_inv_def work_inv_def keyed_def)
  have "set rest = {n. has_key (q_pending ?q) n \<and> \<not> has_key (q_running ?q) n}"
    using r inv by (auto simp: queue_inv_def work_inv_def)
  then have "work_inv ?q"
    using r srt key t(4) inv by (simp add: queue_inv_def work_inv_def)
  moreover have "chan_inv ?q" using inv by (simp add: queue_inv_def chan_inv_def)
  ultimately have "queue_inv (updateState ?q)" by (rule updateState_queue_inv)
  with r show ?thesis by (simp add: t(6))
qed

lemma finish_inv: "queue_inv q \<Longrightarrow> has_key (q_running q) name \<Longrightarrow> queue_inv (finish name q)"
proof -
  assume inv: "queue_inv q" and run: "has_key (q_running q) name"
  let ?q = "q\<lparr>q_running := fmdrop name (q_running q)\<rparr>"
  have notready: "name \<notin> set (q_ready q)" using inv run by (simp add: queue_inv_def work_inv_def)
  have pc: "pending_changed ?q = pending_changed q" by (rule ext) (simp add: pending_changed_def)
  have "work_inv (if has_key (q_pending q) name then enqueueLocked name ?q else ?q)"
  proof (cases "has_key (q_pending q) name")
    case True
    with inv have "\<not> q_stopped q" by (auto simp: queue_inv_def work_inv_def)
    then have "work_inv (enqueueLocked name ?q)"
      by (intro enqueueLocked_work_inv)
        (use True inv run notready in \<open>auto simp: queue_inv_def work_inv_def pc\<close>)
    with True show ?thesis by simp
  next
    case False
    then show ?thesis using inv by (auto simp: queue_inv_def work_inv_def pc)
  qed
  moreover have "chan_inv (if has_key (q_pending q) name then enqueueLocked name ?q else ?q)"
    using inv by (simp add: queue_inv_def chan_inv_def)
  ultimately show ?thesis by (simp add: finish_def Let_def updateState_queue_inv)
qed


subsection \<open>The system of the queue and its workers\<close>

inductive_cases qstep_elim: "qstep s t"

lemma executing_append [simp]: "executing (xs @ ys) = executing xs @ executing ys"
  by (induction xs rule: executing.induct) auto

lemma executing_replicate [simp]: "executing (replicate n Waiting) = []"
  by (induction n) auto

lemma executing_update:
  assumes "i < length ws"
  shows "executing (ws[i := w]) = executing (take i ws) @ executing [w] @ executing (drop (Suc i) ws)"
    and "executing ws = executing (take i ws) @ executing [ws ! i] @ executing (drop (Suc i) ws)"
proof -
  have "ws[i := w] = take i ws @ [w] @ drop (Suc i) ws"
    using assms by (simp add: upd_conv_take_nth_drop)
  then show "executing (ws[i := w]) = executing (take i ws) @ executing [w] @ executing (drop (Suc i) ws)"
    by (simp only: executing_append)
  have "ws = take i ws @ [ws ! i] @ drop (Suc i) ws"
    using assms by (simp add: Cons_nth_drop_Suc)
  then show "executing ws = executing (take i ws) @ executing [ws ! i] @ executing (drop (Suc i) ws)"
    by (metis executing_append)
qed

lemma executing_start:
  assumes "i < length ws" "ws ! i = Waiting"
  shows "mset (executing (ws[i := Executing name op])) = add_mset name (mset (executing ws))"
  by (simp only: executing_update(1) [OF assms(1)] executing_update(2) [OF assms(1)] assms(2)) simp

lemma executing_leave:
  assumes "i < length ws" "ws ! i = Waiting" "executing [w] = []"
  shows "executing (ws[i := w]) = executing ws"
  by (simp only: executing_update(1) [OF assms(1)] executing_update(2) [OF assms(1)] assms(2,3)) simp

lemma executing_finish:
  assumes "i < length ws" "ws ! i = Executing name op"
  shows "add_mset name (mset (executing (ws[i := Waiting]))) = mset (executing ws)"
  by (simp only: executing_update(1) [OF assms(1)] executing_update(2) [OF assms(1)] assms(2)) simp

lemma executing_start_facts:
  assumes "i < length ws" "ws ! i = Waiting"
  shows "set (executing (ws[i := Executing name op])) = insert name (set (executing ws))"
    and "distinct (executing (ws[i := Executing name op])) \<longleftrightarrow>
         name \<notin> set (executing ws) \<and> distinct (executing ws)"
proof -
  have m: "mset (executing (ws[i := Executing name op])) = mset (name # executing ws)"
    using executing_start [OF assms] by simp
  then show "set (executing (ws[i := Executing name op])) = insert name (set (executing ws))"
    by (metis list.simps(15) mset_eq_setD)
  show "distinct (executing (ws[i := Executing name op])) \<longleftrightarrow>
         name \<notin> set (executing ws) \<and> distinct (executing ws)"
    using mset_eq_imp_distinct_iff [OF m] by simp
qed

lemma executing_finish_facts:
  assumes "i < length ws" "ws ! i = Executing name op"
  shows "set (executing ws) = insert name (set (executing (ws[i := Waiting])))"
    and "distinct (executing ws) \<longleftrightarrow>
         name \<notin> set (executing (ws[i := Waiting])) \<and> distinct (executing (ws[i := Waiting]))"
proof -
  have m: "mset (name # executing (ws[i := Waiting])) = mset (executing ws)"
    using executing_finish [OF assms] by simp
  then show "set (executing ws) = insert name (set (executing (ws[i := Waiting])))"
    by (metis list.simps(15) mset_eq_setD)
  show "distinct (executing ws) \<longleftrightarrow>
         name \<notin> set (executing (ws[i := Waiting])) \<and> distinct (executing (ws[i := Waiting]))"
    using mset_eq_imp_distinct_iff [OF m] by simp
qed

text \<open>The callers' methods change neither the running operations nor the number of workers.\<close>

lemma dropLocked_fields [simp]:
  "q_running (fst (dropLocked m q)) = q_running q" "q_started (fst (dropLocked m q)) = q_started q"
  "q_workers (fst (dropLocked m q)) = q_workers q" "q_stopped (fst (dropLocked m q)) = q_stopped q"
  "q_paused (fst (dropLocked m q)) = q_paused q"
  "q_changedAfterFailure (fst (dropLocked m q)) = q_changedAfterFailure q"
  by (simp_all add: dropLocked_def Let_def)

lemma q_replace_fields [simp]:
  "q_running (fst (q_replace rs c q)) = q_running q" "q_started (fst (q_replace rs c q)) = q_started q"
  "q_workers (fst (q_replace rs c q)) = q_workers q" "q_stopped (fst (q_replace rs c q)) = q_stopped q"
  "q_paused (fst (q_replace rs c q)) = q_paused q"
  by (simp_all add: q_replace_def Let_def case_prod_unfold)

lemma q_clear_fields [simp]:
  "q_running (fst (q_clear c q)) = q_running q" "q_started (fst (q_clear c q)) = q_started q"
  "q_workers (fst (q_clear c q)) = q_workers q" "q_stopped (fst (q_clear c q)) = q_stopped q"
  "q_paused (fst (q_clear c q)) = q_paused q"
  by (simp_all add: q_clear_def Let_def case_prod_unfold)

lemma submitCleanup_fields [simp]:
  "q_running (fst (submitCleanup st c q)) = q_running q"
  "q_started (fst (submitCleanup st c q)) = q_started q"
  "q_workers (fst (submitCleanup st c q)) = q_workers q"
  "q_stopped (fst (submitCleanup st c q)) = q_stopped q"
  "q_paused (fst (submitCleanup st c q)) = q_paused q"
  by (simp_all add: submitCleanup_def Let_def)

lemma q_stop_fields [simp]:
  "q_running (q_stop q) = q_running q" "q_started (q_stop q) = q_started q"
  "q_workers (q_stop q) = q_workers q" "q_stopped (q_stop q)" "q_paused (q_stop q) = q_paused q"
  by (simp_all add: q_stop_def)

lemma q_pause_fields [simp]:
  "q_running (fst (q_pause q)) = q_running q" "q_started (fst (q_pause q)) = q_started q"
  "q_workers (fst (q_pause q)) = q_workers q" "q_stopped (fst (q_pause q)) = q_stopped q"
  by (simp_all add: q_pause_def)

lemma q_resume_fields [simp]:
  "q_running (q_resume q) = q_running q" "q_started (q_resume q) = q_started q"
  "q_workers (q_resume q) = q_workers q" "q_stopped (q_resume q) = q_stopped q"
  "\<not> q_paused (q_resume q)"
  by (simp_all add: q_resume_def)

lemma finish_fields [simp]:
  "q_running (finish n q) = fmdrop n (q_running q)" "q_started (finish n q) = q_started q"
  "q_workers (finish n q) = q_workers q" "q_stopped (finish n q) = q_stopped q"
  "q_paused (finish n q) = q_paused q" "q_pending (finish n q) = q_pending q"
  by (simp_all add: finish_def Let_def)

lemma q_start_facts:
  "q_start q = (q', n) \<Longrightarrow> queue_inv q \<Longrightarrow> queue_inv q'"
  "q_start q = (q', n) \<Longrightarrow> q_running q' = q_running q \<and> q_workers q' = q_workers q \<and>
     q_stopped q' = q_stopped q \<and> q_paused q' = q_paused q \<and>
     ((q_started q' = q_started q \<and> n = 0) \<or> (\<not> q_started q \<and> q_started q' \<and> n = q_workers q))"
  using q_start_inv [of q] by (auto simp: q_start_def split: if_splits)

lemma qstep_system_inv: "qstep s t \<Longrightarrow> system_inv s \<Longrightarrow> system_inv t"
proof (induction rule: qstep.induct)
  case (start s q n)
  from q_start_facts [OF start(1)] start(2) show ?case by (auto simp: system_inv_def)
next
  case (take i s name op q)
  then have inv: "queue_inv (sys_queue s)" by (simp add: system_inv_def)
  note t = next_operation_Taken [OF inv take(3)]
  from take t(3) have "name \<notin> set (executing (sys_workers s))" by (simp add: system_inv_def)
  moreover have "queue_inv q" by (rule next_operation_inv [OF inv take(3)])
  ultimately show ?case
    using take executing_start_facts [OF take(1,2)] t(6) by (auto simp: system_inv_def)
next
  case (finished i s name op)
  note f = executing_finish_facts [OF finished(1,2)]
  have "has_key (q_running (sys_queue s)) name" using finished f(1) by (auto simp: system_inv_def)
  moreover have "name \<notin> set (executing ((sys_workers s)[i := Waiting]))"
    using finished f(2) by (auto simp: system_inv_def)
  ultimately show ?case using finished f by (auto simp: system_inv_def finish_inv)
next
  case (leave i s)
  then show ?case by (simp add: system_inv_def executing_leave)
qed (simp_all add: system_inv_def q_stop_inv q_pause_inv q_resume_inv q_replace_inv q_clear_inv
    submitCleanup_inv)

lemma queue_init_system_inv: "queue_init n s \<Longrightarrow> system_inv s"
  by (simp add: queue_init_def system_inv_def queue_new_inv, simp add: queue_new_def)

interpretation stackq: inductive_invariant "queue_init n" qstep system_inv for n
  by unfold_locales (auto intro: queue_init_system_inv qstep_system_inv)

lemma reachable_workers:
  "reachable (queue_init n) qstep s \<Longrightarrow> q_workers (sys_queue s) = nat (max n 1)"
proof (induction rule: reachable.induct)
  case (reachable_init s)
  then show ?case by (simp add: queue_init_def queue_new_def)
next
  case (reachable_step s t)
  have "q_workers (sys_queue t) = q_workers (sys_queue s)"
    using reachable_step(2) stackq.inv_reachable [OF reachable_step(1)]
    by (induction rule: qstep.induct)
      (auto dest: q_start_facts(2) next_operation_Taken(6) simp: system_inv_def)
  with reachable_step show ?case by simp
qed

lemma length_executing: "length (executing ws) \<le> length ws"
  by (induction ws rule: executing.induct) auto


subsection \<open>What Replace makes the waiting work\<close>

text \<open>The operation that a request leaves waiting, from the state before the call.\<close>

definition replaced :: "(string, bool) gomap \<Rightarrow> queue \<Rightarrow> reconciliation_request \<Rightarrow> operation option" where
  "replaced changed q r =
     (let op = replace_operation changed r q
      in if already_running r q \<and> \<not> req_IsManual (op_request op) then None else Some op)"

lemma replaced_cong:
  assumes "fmlookup (q_pending q') (request_name r) = fmlookup (q_pending q) (request_name r)"
    "q_running q' = q_running q" "q_changedAfterFailure q' = q_changedAfterFailure q"
  shows "replaced c q' r = replaced c q r"
  using assms by (simp add: replaced_def replace_operation_def already_running_def Let_def)

lemma replace_one_lookup:
  "fmlookup (q_pending (replace_one c r q)) n =
     (if n = request_name r then replaced c q r else fmlookup (q_pending q) n)"
  by (simp add: replace_one_def replaced_def Let_def)

lemma fold_replace_one_lookup:
  assumes "distinct (map request_name rs)"
  shows "fmlookup (q_pending (fold (replace_one c) rs q)) n =
    (case find (\<lambda>r. request_name r = n) rs of
       None \<Rightarrow> fmlookup (q_pending q) n | Some r \<Rightarrow> replaced c q r)"
  using assms
proof (induction rs arbitrary: q)
  case (Cons r rs)
  have other: "replaced c (replace_one c r q) r' = replaced c q r'" if "r' \<in> set rs" for r'
  proof (rule replaced_cong)
    from that have "request_name r' \<in> request_name ` set rs" by (rule imageI)
    with Cons.prems have "request_name r' \<noteq> request_name r" by auto
    then show "fmlookup (q_pending (replace_one c r q)) (request_name r') =
        fmlookup (q_pending q) (request_name r')"
      by (simp add: replace_one_lookup)
  qed simp_all
  show ?case
  proof (cases "find (\<lambda>r. request_name r = n) rs")
    case None
    with Cons show ?thesis by (simp add: replace_one_lookup)
  next
    case (Some r')
    then have r': "r' \<in> set rs" "request_name r' = n" by (auto simp: find_Some_iff)
    then have "n \<in> request_name ` set rs" by blast
    then have "request_name r \<noteq> n" using Cons.prems by auto
    with Cons Some other [OF r'(1)] show ?thesis by simp
  qed
qed simp

lemma replaced_explicit:
  "replaced changed q r =
    (let previous = fmlookup (q_pending q) (request_name r);
         manual = (req_IsManual r \<or>
           (\<exists>p. previous = Some p \<and> op_kind p = OperationReconcile \<and> req_IsManual (op_request p)));
         marked = (map_true changed (request_name r) \<or> map_true (q_changedAfterFailure q) (request_name r) \<or>
           (\<exists>p. previous = Some p \<and> op_changed p))
     in if already_running r q \<and> \<not> manual then None
        else Some \<lparr>op_kind = OperationReconcile, op_request = r\<lparr>req_IsManual := manual\<rparr>,
                   op_changed = marked\<rparr>)"
proof (cases "fmlookup (q_pending q) (request_name r)")
  case None
  then show ?thesis by (simp add: replaced_def replace_operation_def Let_def)
next
  case (Some p)
  then show ?thesis
    by (cases "op_kind p") (simp_all add: replaced_def replace_operation_def Let_def)
qed

lemma find_distinct:
  "distinct (map f xs) \<Longrightarrow> x \<in> set xs \<Longrightarrow> find (\<lambda>y. f y = f x) xs = Some x"
  by (induction xs) (auto simp: image_iff)

lemma fold_mark: "map_true (fold (\<lambda>n m. fmupd n True m) ns m) k \<longleftrightarrow> k \<in> set ns \<or> map_true m k"
  by (induction ns arbitrary: m) auto

lemma clear_marks_true:
  "map_true (clear_marks failed q) n \<longleftrightarrow>
     (\<exists>op. fmlookup (q_pending q) n = Some op \<and> op_kind op = OperationReconcile \<and> op_changed op) \<or>
     map_true failed n \<or> map_true (q_changedAfterFailure q) n"
  unfolding clear_marks_def fold_mark
  by (auto simp: has_key_def map_true_def fmlookup_dom_iff split: option.splits)

lemma q_replace_eq:
  assumes "queue_inv q" and "\<not> q_stopped q"
  shows "q_replace rs c q =
    (let q1 = q\<lparr>q_pending := fmfilter (\<lambda>n. n \<in> request_name ` set rs) (q_pending q),
                q_ready := filter (\<lambda>n. n \<in> request_name ` set rs) (q_ready q)\<rparr>
     in (updateState (rebuildReady rs ((fold (replace_one c) rs q1)\<lparr>q_changedAfterFailure := fmempty\<rparr>)),
         filter (\<lambda>n. n \<notin> request_name ` set rs) (sorted_keys (q_pending q)), True))"
  using assms(2) by (simp add: q_replace_def Let_def dropLocked_eq [OF queue_inv_parts(1) [OF assms(1)]])

lemma q_replace_lookup:
  assumes "queue_inv q" "\<not> q_stopped q" "distinct (map request_name rs)"
  shows "fmlookup (q_pending (fst (q_replace rs c q))) n =
    (case find (\<lambda>r. request_name r = n) rs of None \<Rightarrow> None | Some r \<Rightarrow> replaced c q r)"
proof -
  let ?q1 = "q\<lparr>q_pending := fmfilter (\<lambda>n. n \<in> request_name ` set rs) (q_pending q),
     q_ready := filter (\<lambda>n. n \<in> request_name ` set rs) (q_ready q)\<rparr>"
  have same: "replaced c ?q1 r = replaced c q r" if "r \<in> set rs" for r
    by (rule replaced_cong) (use that in auto)
  have "fmlookup (q_pending (fst (q_replace rs c q))) n =
      (case find (\<lambda>r. request_name r = n) rs of
         None \<Rightarrow> fmlookup (q_pending ?q1) n | Some r \<Rightarrow> replaced c ?q1 r)"
    by (simp add: q_replace_eq [OF assms(1,2)] Let_def fold_replace_one_lookup [OF assms(3)])
  also have "\<dots> = (case find (\<lambda>r. request_name r = n) rs of None \<Rightarrow> None | Some r \<Rightarrow> replaced c q r)"
  proof (cases "find (\<lambda>r. request_name r = n) rs")
    case None
    then have "n \<notin> request_name ` set rs" by (auto simp: find_None_iff)
    with None show ?thesis by simp
  next
    case (Some r)
    then have "r \<in> set rs" by (auto simp: find_Some_iff)
    with Some same show ?thesis by simp
  qed
  finally show ?thesis .
qed

lemma q_replace_ready:
  fixes q rs c
  assumes "queue_inv q" "\<not> q_stopped q" "distinct (map request_name rs)"
  defines "q' \<equiv> fst (q_replace rs c q)"
  shows "q_ready q' =
    filter (eligible q' True) (q_ready q) @
    filter (\<lambda>n. eligible q' True n \<and> n \<notin> set (q_ready q)) (map request_name rs) @
    filter (eligible q' False) (q_ready q) @
    filter (\<lambda>n. eligible q' False n \<and> n \<notin> set (q_ready q)) (map request_name rs)"
proof -
  let ?in = "\<lambda>n. n \<in> request_name ` set rs"
  let ?q3 = "(fold (replace_one c) rs (q\<lparr>q_pending := fmfilter ?in (q_pending q),
     q_ready := filter ?in (q_ready q)\<rparr>))\<lparr>q_changedAfterFailure := fmempty\<rparr>"
  have q': "q' = updateState (rebuildReady rs ?q3)"
    by (simp add: q'_def q_replace_eq [OF assms(1,2)] Let_def)
  have el: "eligible ?q3 = eligible q'"
    by (intro ext) (simp add: eligible_def q' pending_changed_def)
  have inq: "eligible q' b n \<Longrightarrow> ?in n" for b n
    using q_replace_lookup [OF assms(1-3), of c n]
    by (auto simp: eligible_def q'_def has_key_iff find_Some_iff split: option.splits)
  have dist: "distinct (q_ready q)" using assms(1) by (simp add: queue_inv_def work_inv_def)
  have grp: "nub_onto [] (filter (eligible q' b) (filter ?in (q_ready q) @ map request_name rs)) =
     filter (eligible q' b) (q_ready q) @
     filter (\<lambda>n. eligible q' b n \<and> n \<notin> set (q_ready q)) (map request_name rs)" for b
  proof -
    have "filter (eligible q' b) (filter ?in (q_ready q)) = filter (eligible q' b) (q_ready q)"
      using inq by (auto intro!: filter_cong)
    moreover have "distinct (filter (eligible q' b) (map request_name rs))"
      using assms(3) by simp
    ultimately show ?thesis
      using dist by (simp only: filter_append nub_onto_append)
        (auto simp: nub_onto_distinct intro!: filter_cong)
  qed
  have "q_ready q' = q_ready (rebuildReady rs ?q3)" by (simp add: q')
  also have "\<dots> = nub_onto [] (filter (eligible q' True) (filter ?in (q_ready q) @ map request_name rs)) @
     nub_onto [] (filter (eligible q' False) (filter ?in (q_ready q) @ map request_name rs))"
    unfolding rebuildReady_groups el by simp
  finally show ?thesis unfolding grp by simp
qed

subsection \<open>Draining the queue\<close>

lemma next_operation_ready:
  assumes "queue_inv q" "\<not> q_stopped q" "\<not> q_paused q" "q_ready q = name # rest"
  shows "\<exists>op q'. next_operation q = Taken name op q' \<and> fmlookup (q_pending q) name = Some op \<and>
    q_ready q' = rest"
proof -
  have "has_key (q_pending q) name" using assms by (auto simp: queue_inv_def work_inv_def)
  with assms show ?thesis by (auto simp: next_operation_def has_key_iff Let_def)
qed

lemma next_finish:
  assumes inv: "queue_inv q" and idle: "q_running q = fmempty" and tk: "next_operation q = Taken name op q'"
  shows "queue_inv (finish name q')" "q_running (finish name q') = fmempty"
    "q_ready (finish name q') = q_ready q'" "q_pending (finish name q') = fmdrop name (q_pending q)"
    "q_stopped (finish name q') = q_stopped q" "q_paused (finish name q') = q_paused q"
proof -
  note t = next_operation_Taken [OF inv tk]
  show "queue_inv (finish name q')"
    by (rule finish_inv [OF next_operation_inv [OF inv tk]]) (simp add: t(6))
  show "q_running (finish name q') = fmempty" by (rule fmap_ext) (simp add: t(6) idle)
  show "q_pending (finish name q') = fmdrop name (q_pending q)" by (simp add: t(6))
  show "q_ready (finish name q') = q_ready q'" by (simp add: t(6) finish_def Let_def)
  show "q_stopped (finish name q') = q_stopped q" "q_paused (finish name q') = q_paused q"
    by (simp_all add: t(6))
qed

text \<open>A channel captured while the queue is busy is closed when the queue becomes idle again.\<close>

lemma idle_channel_advance:
  assumes "queue_inv q'" "\<not> q_busy q'" "c \<le> q_idle q'"
  shows "c \<in> set (q_closed q')"
  using assms by (auto simp: queue_inv_def chan_inv_def state_inv_def waitIdle_returns_def
      waitIdle_channel_def le_less)

lemma updateState_idle: "q_idle q \<le> q_idle (updateState q)"
  by (simp add: updateState_def Let_def)

lemma next_finish_idle:
  assumes "queue_inv q" "next_operation q = Taken name op q'"
  shows "q_idle q \<le> q_idle (finish name q')"
proof -
  let ?q = "q\<lparr>q_ready := tl (q_ready q), q_pending := fmdrop name (q_pending q),
       q_running := fmupd name op (q_running q)\<rparr>"
  have "q_idle q \<le> q_idle q'"
    using updateState_idle [of ?q] by (simp add: next_operation_Taken(6) [OF assms])
  also have "q_idle q' \<le> q_idle (finish name q')"
    using updateState_idle [of "q'\<lparr>q_running := fmdrop name (q_running q')\<rparr>"]
      updateState_idle [of "enqueueLocked name (q'\<lparr>q_running := fmdrop name (q_running q')\<rparr>)"]
    by (auto simp: finish_def Let_def)
  finally show ?thesis .
qed

lemma work_drains:
  assumes "queue_inv q" "q_running q = fmempty" "\<not> q_stopped q" "\<not> q_paused q" "q_ready q = ready"
  shows "\<exists>ops q'. work (length ready) q = (ops, q') \<and> map fst ops = ready \<and>
    (\<forall>(n, op) \<in> set ops. fmlookup (q_pending q) n = Some op) \<and>
    queue_inv q' \<and> \<not> q_busy q' \<and> q_idle q \<le> q_idle q'"
  using assms
proof (induction ready arbitrary: q)
  case Nil
  then have "q_pending q = fmempty" by (auto simp: queue_inv_def work_inv_def fmap_empty_iff)
  with Nil show ?case by (simp add: q_busy_def)
next
  case (Cons name rest)
  obtain op q1 where tk: "next_operation q = Taken name op q1"
    and op: "fmlookup (q_pending q) name = Some op" and r1: "q_ready q1 = rest"
    using next_operation_ready [OF Cons.prems(1,3,4,5)] by blast
  note nf = next_finish [OF Cons.prems(1,2) tk]
  from Cons.IH [OF nf(1,2)] obtain ops q' where w: "work (length rest) (finish name q1) = (ops, q')"
    "map fst ops = rest" "queue_inv q'" "\<not> q_busy q'" "q_idle (finish name q1) \<le> q_idle q'"
    and look: "\<forall>(n, op) \<in> set ops. fmlookup (q_pending (finish name q1)) n = Some op"
    using nf(3,5,6) Cons.prems r1 by auto
  have "\<forall>(n, op) \<in> set ops. fmlookup (q_pending q) n = Some op"
    using look unfolding nf(4) by (auto split: if_splits)
  moreover have "q_idle q \<le> q_idle q'" using next_finish_idle [OF Cons.prems(1) tk] w(5) by simp
  ultimately show ?case using tk op w by simp
qed


section \<open>Properties\<close>

text \<open>Concrete requests for the witnesses.\<close>

definition sample_stack :: "string \<Rightarrow> stack_spec" where
  "sample_stack n = \<lparr>stack_Name = n, stack_ComposeFile = n @ ''.yaml'', stack_Prune = None,
     stack_SelfHeal = None\<rparr>"

definition sample_request :: "string \<Rightarrow> string \<Rightarrow> reconciliation_request" where
  "sample_request n commit = \<lparr>req_Stack = sample_stack n, req_Commit = commit, req_IsManual = False\<rparr>"

definition sample_queue :: "string list \<Rightarrow> queue" where
  "sample_queue ns = fst (q_replace (map (\<lambda>n. sample_request n ''c1'') ns) fmempty (queue_new 2))"

lemma sample_request_name [simp]: "request_name (sample_request n c) = n"
  by (simp add: request_name_def sample_request_def sample_stack_def)

lemma sample_queue_inv: "queue_inv (sample_queue ns)"
  by (simp add: sample_queue_def q_replace_inv queue_new_inv)

lemma sample_queue_fields [simp]:
  "q_running (sample_queue ns) = fmempty" "\<not> q_stopped (sample_queue ns)" "\<not> q_paused (sample_queue ns)"
  by (simp_all add: sample_queue_def queue_new_def)

lemma sample_queue_two: "q_ready (sample_queue [''web'', ''db'']) = [''web'', ''db'']"
  by code_simp

text \<open>A reachable system in which a worker of two executes a stack.\<close>

lemma sample_run: "\<exists>s. reachable (queue_init 2) qstep s \<and> executing (sys_workers s) = [''web'']"
proof -
  let ?s0 = "\<lparr>sys_queue = queue_new 2, sys_workers = []\<rparr>"
  let ?s1 = "\<lparr>sys_queue = sample_queue [''web'', ''db''], sys_workers = []\<rparr>"
  have "reachable (queue_init 2) qstep ?s0"
    by (rule reachable_init) (simp add: queue_init_def)
  moreover have "qstep ?s0 ?s1"
    using qstep.replace [of ?s0 "map (\<lambda>n. sample_request n ''c1'') [''web'', ''db'']" fmempty]
    unfolding sample_queue_def by simp
  ultimately have r1: "reachable (queue_init 2) qstep ?s1" by (rule reachable_step)
  obtain q2 where st: "q_start (sample_queue [''web'', ''db'']) = (q2, 2)"
    and q2: "q2 = (sample_queue [''web'', ''db''])\<lparr>q_started := True\<rparr>"
    by (simp add: q_start_def sample_queue_def queue_new_def)
  let ?s2 = "\<lparr>sys_queue = q2, sys_workers = replicate 2 Waiting\<rparr>"
  have "qstep ?s1 (?s1\<lparr>sys_queue := q2, sys_workers := sys_workers ?s1 @ replicate 2 Waiting\<rparr>)"
    by (rule qstep.start) (simp add: st)
  then have "qstep ?s1 ?s2" by simp
  with r1 have r2: "reachable (queue_init 2) qstep ?s2" by (rule reachable_step)
  have inv: "queue_inv q2" using q_start_facts(1) [OF st] sample_queue_inv by blast
  obtain op q3 where tk: "next_operation q2 = Taken ''web'' op q3"
    using next_operation_ready [OF inv, of "''web''" "[''db'']"] sample_queue_two by (auto simp: q2)
  let ?s3 = "?s2\<lparr>sys_queue := q3, sys_workers := (sys_workers ?s2)[0 := Executing ''web'' op]\<rparr>"
  have "reachable (queue_init 2) qstep ?s3"
    by (rule reachable_step [OF r2], rule qstep.take) (use tk in auto)
  moreover have "executing (sys_workers ?s3) = [''web'']" by (simp add: numeral_2_eq_2)
  ultimately show ?thesis by blast
qed

text \<open>
  C1. In every interleaving of the queue's methods and workers, no two workers execute operations of
  the same stack, the executed stacks are those marked running, at most \<open>max(parallelism, 1)\<close>
  operations run, and no running stack is in the ready list.
\<close>

theorem stack_mutual_exclusion:
  assumes "reachable (queue_init parallelism) qstep s"
  shows "distinct (executing (sys_workers s)) \<and>
    set (executing (sys_workers s)) = {n. has_key (q_running (sys_queue s)) n} \<and>
    length (executing (sys_workers s)) \<le> nat (max parallelism 1) \<and>
    set (executing (sys_workers s)) \<inter> set (q_ready (sys_queue s)) = {}"
proof -
  have inv: "system_inv s" by (rule stackq.inv_reachable [OF assms])
  have "length (executing (sys_workers s)) \<le> q_workers (sys_queue s)"
    using length_executing [of "sys_workers s"] inv by (auto simp: system_inv_def split: if_splits)
  with inv reachable_workers [OF assms] show ?thesis
    by (auto simp: system_inv_def queue_inv_def work_inv_def)
qed

theorem stack_mutual_exclusion_witness:
  "\<exists>s. reachable (queue_init 2) qstep s \<and> executing (sys_workers s) = [''web''] \<and>
     set (executing (sys_workers s)) \<inter> set (q_ready (sys_queue s)) = {}"
  using sample_run stack_mutual_exclusion [of 2] by blast

text \<open>
  C2. In every reachable state the ready list holds exactly the waiting stacks that are not running,
  once each, with the stacks changed in Git before the others; \<open>WaitIdle\<close> returns at once exactly
  when nothing waits or runs; and no idle channel was closed twice.
\<close>

theorem queue_consistent:
  assumes "reachable (queue_init parallelism) qstep s"
  defines "q \<equiv> sys_queue s"
  shows "distinct (q_ready q) \<and>
    set (q_ready q) = {n. has_key (q_pending q) n \<and> \<not> has_key (q_running q) n} \<and>
    sorted (map (\<lambda>n. \<not> pending_changed q n) (q_ready q)) \<and>
    (waitIdle_returns (waitIdle_channel q) q \<longleftrightarrow> q_pending q = fmempty \<and> q_running q = fmempty) \<and>
    distinct (q_closed q)"
proof -
  have "queue_inv q" using stackq.inv_reachable [OF assms(1)] by (simp add: q_def system_inv_def)
  then show ?thesis
    by (simp add: queue_inv_def work_inv_def state_inv_def chan_inv_def q_busy_def)
qed

theorem queue_consistent_witness:
  "\<exists>s. reachable (queue_init 2) qstep s \<and> executing (sys_workers s) = [''web''] \<and>
     distinct (q_ready (sys_queue s)) \<and> distinct (q_closed (sys_queue s))"
  using sample_run queue_consistent [of 2] by blast


text \<open>
  C3. \<open>Replace\<close> makes the requests the complete set of waiting work. For distinct stacks: a waiting
  stack without a request is dropped and reported, in sorted order; a request waits unless the same
  revision and specification is already running and it is not manual; a request inherits the manual
  mark of the waiting reconciliation it supersedes and the changed mark of any waiting work, of the
  Git diff and of an earlier failed run; running operations are untouched. After \<open>Stop\<close> nothing
  changes.
\<close>

theorem replace_waiting_work:
  assumes "queue_inv q" and "distinct (map request_name requests)"
    and "q_replace requests changed q = (q', dropped, accepted)"
  shows "accepted = (\<not> q_stopped q) \<and> q_running q' = q_running q \<and>
    (q_stopped q \<longrightarrow> q' = q \<and> dropped = []) \<and>
    (\<not> q_stopped q \<longrightarrow>
       q_changedAfterFailure q' = fmempty \<and>
       sorted dropped \<and> distinct dropped \<and>
       set dropped = {n. has_key (q_pending q) n} - request_name ` set requests \<and>
       (\<forall>n. fmlookup (q_pending q') n =
          (case find (\<lambda>r. request_name r = n) requests of
             None \<Rightarrow> None
           | Some r \<Rightarrow>
               let previous = fmlookup (q_pending q) n;
                   manual = (req_IsManual r \<or>
                     (\<exists>p. previous = Some p \<and> op_kind p = OperationReconcile \<and> req_IsManual (op_request p)));
                   marked = (map_true changed n \<or> map_true (q_changedAfterFailure q) n \<or>
                     (\<exists>p. previous = Some p \<and> op_changed p))
               in if already_running r q \<and> \<not> manual then None
                  else Some \<lparr>op_kind = OperationReconcile, op_request = r\<lparr>req_IsManual := manual\<rparr>,
                             op_changed = marked\<rparr>)))"
proof (cases "q_stopped q")
  case False
  have q': "q' = fst (q_replace requests changed q)" using assms(3) by simp
  have flags: "dropped = filter (\<lambda>n. n \<notin> request_name ` set requests) (sorted_keys (q_pending q)) \<and> accepted"
    using assms(3) by (simp add: q_replace_eq [OF assms(1) False] Let_def)
  have caf: "q_changedAfterFailure q' = fmempty"
    by (simp add: q' q_replace_eq [OF assms(1) False] Let_def)
  have look: "fmlookup (q_pending q') n =
      (case find (\<lambda>r. request_name r = n) requests of None \<Rightarrow> None | Some r \<Rightarrow> replaced changed q r)" for n
    unfolding q' by (rule q_replace_lookup [OF assms(1) False assms(2)])
  have named: "request_name r = n" if "find (\<lambda>r. request_name r = n) requests = Some r" for r n
    using that by (auto simp: find_Some_iff)
  have dropped: "sorted dropped \<and> distinct dropped \<and>
      set dropped = {n. has_key (q_pending q) n} - request_name ` set requests"
    using flags by (auto simp: sorted_wrt_filter)
  have running: "q_running q' = q_running q" unfolding q' by simp
  show ?thesis
    unfolding look
    by (intro conjI allI impI) (use flags caf dropped running False in \<open>auto simp: replaced_explicit
        dest!: named split: option.split simp del: fun_upd_apply\<close>)
qed (use assms(3) in \<open>simp add: q_replace_def\<close>)

theorem replace_waiting_work_witness:
  "fmlookup (q_pending (fst (q_replace [sample_request ''db'' ''c2''] fmempty (sample_queue [''web'', ''db''])))) ''db''
     = Some \<lparr>op_kind = OperationReconcile, op_request = sample_request ''db'' ''c2'', op_changed = False\<rparr> \<and>
   fst (snd (q_replace [sample_request ''db'' ''c2''] fmempty (sample_queue [''web'', ''db'']))) = [''web'']"
proof -
  let ?q = "sample_queue [''web'', ''db'']" and ?r = "sample_request ''db'' ''c2''"
  obtain q' d a where r: "q_replace [?r] fmempty ?q = (q', d, a)" by (metis prod_cases3)
  have look: "fmlookup (q_pending ?q) ''db'' =
      Some \<lparr>op_kind = OperationReconcile, op_request = sample_request ''db'' ''c1'', op_changed = False\<rparr>"
    by code_simp
  have caf: "q_changedAfterFailure ?q = fmempty" by code_simp
  have keys: "sorted_keys (q_pending ?q) = [''db'', ''web'']" by code_simp
  have "{n. has_key (q_pending ?q) n} = set (sorted_keys (q_pending ?q))" by simp
  then have "{n. has_key (q_pending ?q) n} - request_name ` set [?r] = set [''web'']"
    unfolding keys by auto
  moreover have "sorted d \<and> distinct d \<and> set d = {n. has_key (q_pending ?q) n} - request_name ` set [?r]"
    using replace_waiting_work [OF sample_queue_inv _ r] by simp
  ultimately have d: "d = [''web'']"
    using sorted_distinct_set_unique [of d "[''web'']"] by simp
  have manual: "\<not> req_IsManual (sample_request n c)" "(sample_request n c)\<lparr>req_IsManual := False\<rparr> = sample_request n c"
    for n c by (simp_all add: sample_request_def)
  have "fmlookup (q_pending q') ''db'' =
      Some \<lparr>op_kind = OperationReconcile, op_request = ?r, op_changed = False\<rparr>"
    using replace_waiting_work [OF sample_queue_inv _ r]
    by (simp add: look caf already_running_def Let_def manual)
  then show ?thesis using r d by simp
qed

text \<open>
  \<open>Replace\<close> orders the waiting stacks as documented: the changed stacks first; within each group
  the stacks that were already ready keep their order and the newly queued ones follow in request
  order.
\<close>

lemma replace_order:
  assumes "queue_inv q" "\<not> q_stopped q" "distinct (map request_name requests)"
    and "q_replace requests changed q = (q', dropped, accepted)"
  shows "q_ready q' =
    filter (eligible q' True) (q_ready q) @
    filter (\<lambda>n. eligible q' True n \<and> n \<notin> set (q_ready q)) (map request_name requests) @
    filter (eligible q' False) (q_ready q) @
    filter (\<lambda>n. eligible q' False n \<and> n \<notin> set (q_ready q)) (map request_name requests)"
  using q_replace_ready [OF assms(1-3), of changed] assms(4) by simp

lemma replace_order_witness:
  "q_ready (fst (q_replace (map (\<lambda>n. sample_request n ''c2'') [''api'', ''db'', ''web'']) (fmupd ''api'' True fmempty)
      (sample_queue [''web'', ''db'']))) = [''api'', ''web'', ''db'']"
proof -
  let ?q = "sample_queue [''web'', ''db'']"
  let ?rs = "map (\<lambda>n. sample_request n ''c2'') [''api'', ''db'', ''web'']"
  obtain q' d a where r: "q_replace ?rs (fmupd ''api'' True fmempty) ?q = (q', d, a)" by (metis prod_cases3)
  then have q': "q' = fst (q_replace ?rs (fmupd ''api'' True fmempty) ?q)" by simp
  have el: "eligible q' True ''api''" "eligible q' False ''web''" "eligible q' False ''db''"
    unfolding q' by code_simp+
  then have "\<not> eligible q' False ''api''" "\<not> eligible q' True ''web''" "\<not> eligible q' True ''db''"
    by (auto simp: eligible_def)
  with el show ?thesis
    using replace_order [OF sample_queue_inv _ _ r] r by (simp add: sample_queue_two)
qed

text \<open>
  No starvation by later runs: a stack that is ready before another stays before it after any
  \<open>Replace\<close>, unless only the other one is now marked as changed.
\<close>

lemma replace_keeps_order:
  assumes "queue_inv q" "\<not> q_stopped q" "distinct (map request_name requests)"
    and "q_replace requests changed q = (q', dropped, accepted)"
    and "precedes (q_ready q) a b" "a \<in> set (q_ready q')" "b \<in> set (q_ready q')"
    and "pending_changed q' b \<longrightarrow> pending_changed q' a"
  shows "precedes (q_ready q') a b"
proof -
  note r = q_replace_ready [OF assms(1-3), of changed, unfolded assms(4) fst_conv]
  have in_q: "a \<in> set (q_ready q)" "b \<in> set (q_ready q)" using precedes_set [OF assms(5)] by auto
  have el: "eligible q' (pending_changed q' a) a" "eligible q' (pending_changed q' b) b"
    using assms(6,7) r by (auto simp: eligible_def)
  have keep: "precedes (filter (eligible q' c) (q_ready q)) a b"
    if "eligible q' c a" "eligible q' c b" for c
    using precedes_filter [OF assms(5)] that by simp
  show ?thesis
  proof (cases "pending_changed q' a = pending_changed q' b")
    case True
    then show ?thesis
      using el keep by (cases "pending_changed q' b") (auto simp: r intro: precedes_appendL precedes_appendR)
  next
    case False
    with assms(8) have "pending_changed q' a" "\<not> pending_changed q' b" by auto
    with el in_q show ?thesis unfolding r by (intro precedes_across) auto
  qed
qed

lemma replace_keeps_order_sample:
  "precedes (q_ready (fst (q_replace (map (\<lambda>n. sample_request n ''c2'') [''db'', ''web'']) fmempty
      (sample_queue [''web'', ''db''])))) ''web'' ''db''"
proof -
  let ?q = "sample_queue [''web'', ''db'']"
  let ?rs = "map (\<lambda>n. sample_request n ''c2'') [''db'', ''web'']"
  obtain q' d a where r: "q_replace ?rs fmempty ?q = (q', d, a)" by (metis prod_cases3)
  then have q': "q' = fst (q_replace ?rs fmempty ?q)" by simp
  have "q_ready q' = [''web'', ''db'']" "\<not> pending_changed q' ''db''" unfolding q' by code_simp+
  moreover have "precedes (q_ready ?q) ''web'' ''db''"
    unfolding sample_queue_two using precedesI [of "''db''" "[''db'']" "[]" "''web''"] by simp
  ultimately have "precedes (q_ready q') ''web'' ''db''"
    using replace_keeps_order [OF sample_queue_inv _ _ r, of "''web''" "''db''"] by simp
  then show ?thesis by (simp add: q')
qed

text \<open>
  C6. After \<open>Stop\<close> no operation ever starts: whatever the methods and workers do, the queue stays
  stopped with nothing waiting and the executing operations only finish. The same holds for a paused
  queue until \<open>Resume\<close>.
\<close>

theorem halted_queue_starts_nothing:
  assumes "system_inv s" "qstep s s'"
  shows "(q_stopped (sys_queue s) \<longrightarrow>
      q_stopped (sys_queue s') \<and> q_pending (sys_queue s') = fmempty \<and>
      set (executing (sys_workers s')) \<subseteq> set (executing (sys_workers s))) \<and>
    (q_paused (sys_queue s) \<longrightarrow> set (executing (sys_workers s')) \<subseteq> set (executing (sys_workers s))) \<and>
    (q_paused (sys_queue s) \<and> \<not> q_paused (sys_queue s') \<longrightarrow> sys_queue s' = q_resume (sys_queue s))"
proof -
  have inv': "system_inv s'" by (rule qstep_system_inv [OF assms(2,1)])
  have stopped: "q_stopped (sys_queue s) \<longrightarrow> q_stopped (sys_queue s')"
    using assms(2) by cases (auto simp: q_start_def next_operation_def Let_def split: if_splits list.splits)
  have shrink: "q_stopped (sys_queue s) \<or> q_paused (sys_queue s) \<longrightarrow>
      set (executing (sys_workers s')) \<subseteq> set (executing (sys_workers s))"
    using assms(2)
  proof cases
    case (finished i name op)
    then show ?thesis using executing_finish_facts(1) [of i "sys_workers s" name op] by auto
  next
    case (leave i)
    then show ?thesis using executing_leave [of i "sys_workers s" Exited] by simp
  qed (auto simp: next_operation_def q_start_def split: if_splits)
  have paused: "q_paused (sys_queue s) \<and> \<not> q_paused (sys_queue s') \<longrightarrow> sys_queue s' = q_resume (sys_queue s)"
    using assms(2) by cases (auto simp: q_start_def q_pause_def next_operation_def Let_def split: if_splits list.splits)
  have "q_stopped (sys_queue s') \<longrightarrow> q_pending (sys_queue s') = fmempty"
    using inv' by (simp add: system_inv_def queue_inv_def work_inv_def)
  with stopped shrink paused show ?thesis by blast
qed

theorem halted_queue_starts_nothing_witness:
  "\<exists>s. reachable (queue_init 2) qstep s \<and>
     q_stopped (q_stop (sys_queue s)) \<and> q_pending (q_stop (q_stop (sys_queue s))) = fmempty"
proof -
  obtain s where r: "reachable (queue_init 2) qstep s" using sample_run by blast
  let ?t = "s\<lparr>sys_queue := q_stop (sys_queue s)\<rparr>"
  have "system_inv ?t"
    using qstep_system_inv [OF qstep.stop stackq.inv_reachable [OF r]] .
  then have "q_pending (sys_queue (?t\<lparr>sys_queue := q_stop (sys_queue ?t)\<rparr>)) = fmempty"
    using halted_queue_starts_nothing [OF _ qstep.stop, of ?t] by (simp add: q_stop_def)
  then show ?thesis using r by (auto simp: q_stop_def)
qed

text \<open>
  A failed preparation does not lose the changes of the queued stacks: after \<open>Clear\<close> nothing
  waits, all dropped stacks are reported, and a reconciliation of the next \<open>Replace\<close> is marked as
  changed when its stack had a changed reconciliation waiting, was changed in the failed run or was
  already remembered.
\<close>

lemma clear_keeps_changes:
  assumes "queue_inv q" "\<not> q_stopped q" "distinct (map request_name requests)"
    and "q_clear failed q = (q1, dropped)"
    and "r \<in> set requests" "\<not> already_running r q"
  shows "q_pending q1 = fmempty \<and> q_ready q1 = [] \<and> dropped = sorted_keys (q_pending q) \<and>
    fmlookup (q_pending (fst (q_replace requests changed q1))) (request_name r) =
      Some \<lparr>op_kind = OperationReconcile, op_request = r,
            op_changed = (map_true changed (request_name r) \<or> map_true failed (request_name r) \<or>
              map_true (q_changedAfterFailure q) (request_name r) \<or>
              (\<exists>op. fmlookup (q_pending q) (request_name r) = Some op \<and>
                 op_kind op = OperationReconcile \<and> op_changed op))\<rparr>"
proof -
  have w: "work_inv (q\<lparr>q_changedAfterFailure := clear_marks failed q\<rparr>)"
    using assms(1) by (subst work_inv_cong [where q = q]) (simp_all add: queue_inv_def)
  have q1: "q1 = updateState (q\<lparr>q_changedAfterFailure := clear_marks failed q, q_pending := fmempty, q_ready := []\<rparr>)"
    and d: "dropped = sorted_keys (q_pending q)"
    using assms(4) by (simp_all add: q_clear_def dropLocked_eq [OF w] Let_def)
  have inv1: "queue_inv q1" using q_clear_inv [OF assms(1), of failed] assms(4) by simp
  have find: "find (\<lambda>r'. request_name r' = request_name r) requests = Some r"
    using find_distinct [OF assms(3,5)] .
  have run: "already_running r q1 = already_running r q" by (simp add: q1 already_running_def)
  have "fmlookup (q_pending (fst (q_replace requests changed q1))) (request_name r) = replaced changed q1 r"
    using q_replace_lookup [OF inv1 _ assms(3), of changed "request_name r"] assms(2)
    by (simp add: find q1)
  also have "\<dots> = Some \<lparr>op_kind = OperationReconcile, op_request = r,
      op_changed = (map_true changed (request_name r) \<or> map_true (clear_marks failed q) (request_name r))\<rparr>"
    using run assms(6) by (simp add: replaced_def replace_operation_def Let_def q1)
  finally show ?thesis using d by (auto simp: q1 clear_marks_true)
qed

lemma clear_keeps_changes_sample:
  "op_changed (the (fmlookup (q_pending (fst (q_replace [sample_request ''db'' ''c2''] fmempty
     (fst (q_clear (fmupd ''db'' True fmempty) (sample_queue [''web'', ''db''])))))) ''db''))"
proof -
  let ?q = "sample_queue [''web'', ''db'']"
  obtain q1 d where c: "q_clear (fmupd ''db'' True fmempty) ?q = (q1, d)" by (metis prod.exhaust)
  show ?thesis
    using clear_keeps_changes [OF sample_queue_inv _ _ c, of "[sample_request ''db'' ''c2'']"
        "sample_request ''db'' ''c2''" fmempty] c
    by (simp add: already_running_def)
qed

text \<open>
  C8. A worker drains the queue: from an idle, running queue with nothing executing, the worker loop
  executes exactly the waiting operations, one per stack and in ready order, then nothing waits or
  runs, and every caller of \<open>WaitIdle\<close> that had captured the idle channel returns.
\<close>

theorem worker_drains_queue:
  assumes "queue_inv q" "q_running q = fmempty" "\<not> q_stopped q" "\<not> q_paused q"
  shows "\<exists>ops q'. work (length (q_ready q)) q = (ops, q') \<and> map fst ops = q_ready q \<and>
    (\<forall>(n, op) \<in> set ops. fmlookup (q_pending q) n = Some op) \<and>
    q_pending q' = fmempty \<and> q_running q' = fmempty \<and>
    waitIdle_returns (waitIdle_channel q) q'"
proof -
  obtain ops q' where w: "work (length (q_ready q)) q = (ops, q')" "map fst ops = q_ready q"
    "\<forall>(n, op) \<in> set ops. fmlookup (q_pending q) n = Some op"
    "queue_inv q'" "\<not> q_busy q'" "q_idle q \<le> q_idle q'"
    using work_drains [OF assms refl] by blast
  then show ?thesis
    using idle_channel_advance [OF w(4,5,6)]
    by (auto simp: waitIdle_returns_def waitIdle_channel_def q_busy_def)
qed

theorem worker_drains_queue_witness:
  "\<exists>ops q'. work 2 (sample_queue [''web'', ''db'']) = (ops, q') \<and> map fst ops = [''web'', ''db''] \<and>
     q_pending q' = fmempty \<and> q_running q' = fmempty"
  using worker_drains_queue [OF sample_queue_inv [of "[''web'', ''db'']"]]
  by (auto simp: sample_queue_two numeral_2_eq_2)

end
