(* ===== verification/StackPlan.thy ===== *)
theory StackPlan
  imports GitOpsConfig
begin

text \<open>
  The stack planner (\<open>internal/modules/gitops/controller/stackplan/planner.go\<close>): which stacks a
  sync run deploys and in what order. The Git diff is a parameter of \<open>plan\<close>, a failing or
  successful result for two revisions.
\<close>

section \<open>Model\<close>

text \<open>A nil map of changed stacks is \<open>None\<close>.\<close>

record 'e stack_plan =
  plan_Stacks :: "stack_spec list"
  plan_Changed :: "(string, bool) gomap option"
  plan_DiffErr :: "'e option"

definition normalizePath :: "string \<Rightarrow> string" where
  "normalizePath path = TrimPrefix (TrimSpace path) ''./''"

definition add_compose_path :: "stack_spec \<Rightarrow> (string, string list) gomap \<Rightarrow> (string, string list) gomap" where
  "add_compose_path stack m =
     (let composePath = normalizePath (stack_ComposeFile stack)
      in if composePath = '''' then m
         else fmupd composePath
                ((case fmlookup m composePath of None \<Rightarrow> [] | Some ns \<Rightarrow> ns) @ [stack_Name stack]) m)"

definition stacksByComposePath :: "stack_spec list \<Rightarrow> (string, string list) gomap" where
  "stacksByComposePath stacks = fold add_compose_path stacks fmempty"

definition changedPath :: "commit_file_diff \<Rightarrow> string" where
  "changedPath fileDiff =
     (let p = normalizePath (diff_NewPath fileDiff)
      in if p = '''' then normalizePath (diff_OldPath fileDiff) else p)"

definition mark_change :: "nat \<Rightarrow> string \<Rightarrow> (string, nat) gomap \<Rightarrow> (string, nat) gomap" where
  "mark_change diffIndex name order = (if has_key order name then order else fmupd name diffIndex order)"

definition change_step ::
    "(string, string list) gomap \<Rightarrow> nat \<times> commit_file_diff \<Rightarrow> (string, nat) gomap \<Rightarrow> (string, nat) gomap" where
  "change_step byPath d order =
     (let path = changedPath (snd d)
      in if path = '''' then order
         else fold (mark_change (fst d))
                (case fmlookup byPath path of None \<Rightarrow> [] | Some ns \<Rightarrow> ns) order)"

definition changeOrder :: "stack_spec list \<Rightarrow> commit_file_diff list \<Rightarrow> (string, nat) gomap" where
  "changeOrder stacks fileDiffs =
     fold (change_step (stacksByComposePath stacks)) (enumerate 0 fileDiffs) fmempty"

definition compare_change :: "(string, nat) gomap \<Rightarrow> stack_spec \<Rightarrow> stack_spec \<Rightarrow> int" where
  "compare_change order left right =
     (case (fmlookup order (stack_Name left), fmlookup order (stack_Name right)) of
        (Some l, Some r) \<Rightarrow> (if l < r then -1 else if r < l then 1 else 0)
      | (Some _, None) \<Rightarrow> -1
      | (None, Some _) \<Rightarrow> 1
      | (None, None) \<Rightarrow> 0)"

definition sortByChange :: "stack_spec list \<Rightarrow> (string, nat) gomap \<Rightarrow> stack_spec list" where
  "sortByChange stacks order = SortStableFunc (compare_change order) stacks"

definition plan ::
    "(string \<Rightarrow> string \<Rightarrow> 'e + commit_file_diff list) \<Rightarrow> stack_spec list \<Rightarrow> pull_result \<Rightarrow> 'e stack_plan" where
  "plan diff stacks git =
     (let p = \<lparr>plan_Stacks = stacks, plan_Changed = None, plan_DiffErr = None\<rparr>
      in if \<not> pull_Updated git \<or> stacks = [] then p
         else case diff (pull_OldRevision git) (pull_NewRevision git) of
                Inl err \<Rightarrow> p\<lparr>plan_DiffErr := Some err\<rparr>
              | Inr fileDiffs \<Rightarrow>
                  let order = changeOrder stacks fileDiffs
                  in if order = fmempty then p
                     else p\<lparr>plan_Stacks := sortByChange stacks order,
                            plan_Changed := Some (fmmap (\<lambda>_. True) order)\<rparr>)"

section \<open>Specification\<close>

text \<open>The position of the first diff entry whose path is the compose file of the stack.\<close>

definition touches :: "commit_file_diff \<Rightarrow> stack_spec \<Rightarrow> bool" where
  "touches d s \<longleftrightarrow> changedPath d \<noteq> '''' \<and> changedPath d = normalizePath (stack_ComposeFile s)"

definition first_touched_by :: "commit_file_diff list \<Rightarrow> nat \<Rightarrow> stack_spec \<Rightarrow> bool" where
  "first_touched_by ds i s \<longleftrightarrow> touches (ds ! i) s \<and> (\<forall>j < i. \<not> touches (ds ! j) s)"

definition untouched :: "commit_file_diff list \<Rightarrow> stack_spec \<Rightarrow> bool" where
  "untouched ds s \<longleftrightarrow> (\<forall>d \<in> set ds. \<not> touches d s)"

section \<open>The change order\<close>

lemma stacksByComposePath_lookup:
  "(case fmlookup (stacksByComposePath stacks) p of None \<Rightarrow> [] | Some ns \<Rightarrow> ns) =
    (if p = '''' then [] else
       map stack_Name (filter (\<lambda>s. normalizePath (stack_ComposeFile s) = p) stacks))"
proof -
  have "(case fmlookup (fold add_compose_path stacks m) p of None \<Rightarrow> [] | Some ns \<Rightarrow> ns) =
      (case fmlookup m p of None \<Rightarrow> [] | Some ns \<Rightarrow> ns) @
      (if p = '''' then [] else
         map stack_Name (filter (\<lambda>s. normalizePath (stack_ComposeFile s) = p) stacks))" for m
    by (induction stacks arbitrary: m) (auto simp: add_compose_path_def Let_def)
  then show ?thesis by (simp add: stacksByComposePath_def)
qed

definition touches_name :: "stack_spec list \<Rightarrow> commit_file_diff \<Rightarrow> string \<Rightarrow> bool" where
  "touches_name stacks d n \<longleftrightarrow> (\<exists>s \<in> set stacks. stack_Name s = n \<and> touches d s)"

lemma mark_fold: "fmlookup (fold (mark_change i) ns m) n =
    (if fmlookup m n = None \<and> n \<in> set ns then Some i else fmlookup m n)"
  by (induction ns arbitrary: m) (auto simp: mark_change_def has_key_iff)

lemma change_step_lookup:
  "fmlookup (change_step (stacksByComposePath stacks) (i, d) m) n =
    (if fmlookup m n = None \<and> touches_name stacks d n then Some i else fmlookup m n)"
  by (auto simp: change_step_def Let_def mark_fold stacksByComposePath_lookup touches_name_def
      touches_def image_iff split: if_splits)

lemma change_fold_lookup:
  "fmlookup (fold (change_step (stacksByComposePath stacks)) (enumerate k ds) m) n = Some i \<longleftrightarrow>
    fmlookup m n = Some i \<or>
    (fmlookup m n = None \<and> k \<le> i \<and> i < k + length ds \<and> touches_name stacks (ds ! (i - k)) n \<and>
     (\<forall>j < i - k. \<not> touches_name stacks (ds ! j) n))"
proof (induction ds arbitrary: k m)
  case (Cons d ds)
  show ?case
  proof (cases "fmlookup m n = None \<and> touches_name stacks d n")
    case True
    then have "i = k \<longleftrightarrow> k \<le> i \<and> i < k + length (d # ds) \<and> touches_name stacks ((d # ds) ! (i - k)) n \<and>
        (\<forall>j < i - k. \<not> touches_name stacks ((d # ds) ! j) n)"
      by (cases "i \<le> k") (auto intro!: exI [of _ 0])
    with True show ?thesis by (simp add: Cons.IH change_step_lookup eq_commute [of k] del: nth_Cons' length_Cons)
  next
    case False
    have shift: "Suc k \<le> i \<and> i < Suc k + length ds \<and> touches_name stacks (ds ! (i - Suc k)) n \<and>
          (\<forall>j < i - Suc k. \<not> touches_name stacks (ds ! j) n) \<longleftrightarrow>
        k \<le> i \<and> i < k + length (d # ds) \<and> touches_name stacks ((d # ds) ! (i - k)) n \<and>
          (\<forall>j < i - k. \<not> touches_name stacks ((d # ds) ! j) n)" if "\<not> touches_name stacks d n"
    proof (cases "i \<le> k")
      case True
      with that show ?thesis by auto
    next
      case False
      then obtain l where "i = Suc k + l" using le_Suc_ex not_less_eq_eq by blast
      with that show ?thesis by (auto simp: All_less_Suc2)
    qed
    show ?thesis
    proof (cases "fmlookup m n")
      case None
      with False have "\<not> touches_name stacks d n" by simp
      from shift [OF this] None this show ?thesis by (simp add: Cons.IH change_step_lookup)
    next
      case (Some l)
      then show ?thesis by (simp add: Cons.IH change_step_lookup)
    qed
  qed
qed auto

lemma changeOrder_Some:
  "fmlookup (changeOrder stacks ds) n = Some i \<longleftrightarrow>
    i < length ds \<and> touches_name stacks (ds ! i) n \<and> (\<forall>j < i. \<not> touches_name stacks (ds ! j) n)"
  by (simp add: changeOrder_def change_fold_lookup)

lemma changeOrder_None:
  "fmlookup (changeOrder stacks ds) n = None \<longleftrightarrow> (\<forall>d \<in> set ds. \<not> touches_name stacks d n)"
proof
  assume none: "fmlookup (changeOrder stacks ds) n = None"
  show "\<forall>d \<in> set ds. \<not> touches_name stacks d n"
  proof (rule ccontr)
    assume "\<not> ?thesis"
    then have ex: "\<exists>i. i < length ds \<and> touches_name stacks (ds ! i) n" by (auto simp: in_set_conv_nth)
    define i where "i = (LEAST i. i < length ds \<and> touches_name stacks (ds ! i) n)"
    have "i < length ds \<and> touches_name stacks (ds ! i) n" unfolding i_def by (rule LeastI_ex [OF ex])
    moreover from this have "\<forall>j < i. \<not> touches_name stacks (ds ! j) n"
      unfolding i_def using not_less_Least by fastforce
    ultimately show False using none changeOrder_Some [of stacks ds n i] by simp
  qed
next
  assume "\<forall>d \<in> set ds. \<not> touches_name stacks d n"
  then show "fmlookup (changeOrder stacks ds) n = None"
    using changeOrder_Some [of stacks ds n] by (meson not_None_eq nth_mem)
qed

lemma touches_name_distinct:
  "distinct (map stack_Name stacks) \<Longrightarrow> s \<in> set stacks \<Longrightarrow>
    touches_name stacks d (stack_Name s) \<longleftrightarrow> touches d s"
  unfolding touches_name_def by (metis distinct_map inj_onD)

section \<open>Sorting by change\<close>

definition change_rank :: "nat \<Rightarrow> (string, nat) gomap \<Rightarrow> stack_spec \<Rightarrow> nat" where
  "change_rank n order s = (case fmlookup order (stack_Name s) of None \<Rightarrow> n | Some i \<Rightarrow> i)"

lemma sortByChange_sort_key:
  assumes "\<And>k i. fmlookup order k = Some i \<Longrightarrow> i < n"
  shows "sortByChange stacks order = sort_key (change_rank n order) stacks"
  unfolding sortByChange_def
proof (rule SortStableFunc_sort_key)
  fix x y
  show "compare_change order x y \<le> 0 \<longleftrightarrow> change_rank n order x \<le> change_rank n order y"
    using assms by (force simp: compare_change_def change_rank_def split: option.splits)
qed

lemma sort_key_buckets:
  fixes f :: "'a \<Rightarrow> nat"
  assumes "\<And>x. x \<in> set xs \<Longrightarrow> f x < n"
  shows "sort_key f xs = concat (map (\<lambda>v. filter (\<lambda>x. f x = v) xs) [0 ..< n])"
proof -
  let ?b = "\<lambda>m. concat (map (\<lambda>v. filter (\<lambda>x. f x = v) xs) [0 ..< m])"
  have bucket: "filter (\<lambda>x. f x = v) (?b m) = (if v < m then filter (\<lambda>x. f x = v) xs else [])" for v m
    by (induction m) (auto simp: filter_empty_conv less_Suc_eq)
  have sorted: "sorted (map f (?b m))" for m
  proof (induction m)
    case (Suc m)
    have "map f (filter (\<lambda>x. f x = m) xs) = replicate (length (filter (\<lambda>x. f x = m) xs)) m"
      by (induction xs) auto
    with Suc show ?case by (auto simp: sorted_append)
  qed simp
  have keys: "f x < n" if "x \<in> set (?b n)" for x using that assms by auto
  have "mset (?b m) = filter_mset (\<lambda>x. f x < m) (mset xs)" for m
  proof (induction m)
    case (Suc m)
    have "{#x \<in># mset xs. f x < m#} + {#x \<in># mset xs. f x = m#} = {#x \<in># mset xs. f x < Suc m#}"
      by (induction xs) (auto simp: less_Suc_eq)
    with Suc show ?case by simp
  qed simp
  then have "mset (?b n) = mset xs" using assms by (simp add: filter_mset_eq_conv)
  then have "sort_key f xs = ?b n"
  proof (rule properties_for_sort_key)
    fix k assume "k \<in> set (?b n)"
    then show "filter (\<lambda>x. f k = f x) (?b n) = filter (\<lambda>x. f k = f x) xs"
      using bucket [of "f k" n] keys by (simp add: eq_commute [of "f k"])
  qed (rule sorted)
  then show ?thesis .
qed

lemma change_rank_touched:
  assumes "distinct (map stack_Name stacks)" "s \<in> set stacks"
  shows "change_rank (length ds) (changeOrder stacks ds) s = i \<longleftrightarrow>
    (if i < length ds then first_touched_by ds i s else i = length ds \<and> untouched ds s)"
proof (cases "fmlookup (changeOrder stacks ds) (stack_Name s)")
  case None
  then have "untouched ds s"
    using changeOrder_None touches_name_distinct [OF assms] by (simp add: untouched_def)
  with None show ?thesis by (auto simp: change_rank_def first_touched_by_def untouched_def)
next
  case (Some k)
  then have k: "k < length ds" "first_touched_by ds k s"
    using changeOrder_Some touches_name_distinct [OF assms] by (auto simp: first_touched_by_def)
  then have "\<not> untouched ds s" by (auto simp: first_touched_by_def untouched_def)
  moreover have "first_touched_by ds i s \<Longrightarrow> i = k"
    using k(2) by (metis first_touched_by_def linorder_neqE_nat)
  ultimately show ?thesis using Some k by (auto simp: change_rank_def)
qed

lemma sortByChange_touched:
  assumes "distinct (map stack_Name stacks)"
  shows "sortByChange stacks (changeOrder stacks ds) =
    concat (map (\<lambda>i. filter (first_touched_by ds i) stacks) [0 ..< length ds]) @ filter (untouched ds) stacks"
proof -
  let ?f = "change_rank (length ds) (changeOrder stacks ds)"
  have bound: "?f s < Suc (length ds)" for s
    by (auto simp: change_rank_def changeOrder_Some split: option.split)
  have bucket: "filter (\<lambda>s. ?f s = i) stacks =
      (if i < length ds then filter (first_touched_by ds i) stacks else filter (untouched ds) stacks)"
    if "i \<le> length ds" for i
    using that by (cases "i < length ds")
      (simp_all add: change_rank_touched [OF assms] cong: filter_cong)
  have "sortByChange stacks (changeOrder stacks ds) = sort_key ?f stacks"
    by (rule sortByChange_sort_key) (simp add: changeOrder_Some)
  also have "\<dots> = concat (map (\<lambda>i. filter (\<lambda>s. ?f s = i) stacks) [0 ..< Suc (length ds)])"
    by (rule sort_key_buckets) (rule bound)
  also have "\<dots> = concat (map (\<lambda>i. filter (first_touched_by ds i) stacks) [0 ..< length ds]) @
      filter (untouched ds) stacks"
    using bucket by (simp, intro arg_cong [where f = concat] map_cong) auto
  finally show ?thesis .
qed

lemma changeOrder_empty:
  assumes "distinct (map stack_Name stacks)"
  shows "changeOrder stacks ds = fmempty \<longleftrightarrow> (\<forall>s \<in> set stacks. untouched ds s)"
proof -
  have "changeOrder stacks ds = fmempty \<longleftrightarrow> (\<forall>n. \<forall>d \<in> set ds. \<not> touches_name stacks d n)"
    unfolding changeOrder_None [symmetric] by (metis fmap_ext fmempty_lookup)
  also have "\<dots> \<longleftrightarrow> (\<forall>s \<in> set stacks. untouched ds s)"
    by (auto simp: untouched_def touches_name_def)
  finally show ?thesis .
qed

section \<open>Properties\<close>

text \<open>
  C9. The deployment order: the stacks whose compose file the diff touches come first, by the first
  diff entry that touches them and in configured order within one entry, then the untouched stacks in
  configured order; the changed set names exactly the touched stacks.
\<close>

theorem plan_order:
  assumes "pull_Updated git" "distinct (map stack_Name stacks)"
    and "diff (pull_OldRevision git) (pull_NewRevision git) = Inr ds"
  shows "plan_Stacks (plan diff stacks git) =
      concat (map (\<lambda>i. filter (first_touched_by ds i) stacks) [0 ..< length ds]) @
      filter (untouched ds) stacks \<and>
    plan_DiffErr (plan diff stacks git) = None \<and>
    (\<forall>n. (\<exists>m. plan_Changed (plan diff stacks git) = Some m \<and> map_true m n) \<longleftrightarrow>
      (\<exists>s \<in> set stacks. stack_Name s = n \<and> \<not> untouched ds s))"
proof (cases "stacks = [] \<or> changeOrder stacks ds = fmempty")
  case True
  then have un: "\<forall>s \<in> set stacks. untouched ds s" using changeOrder_empty [OF assms(2), of ds] by auto
  then have "filter (first_touched_by ds i) stacks = []" if "i < length ds" for i
    using that by (auto simp: filter_empty_conv untouched_def first_touched_by_def)
  moreover have "plan diff stacks git = \<lparr>plan_Stacks = stacks, plan_Changed = None, plan_DiffErr = None\<rparr>"
    using True assms by (auto simp: plan_def Let_def)
  ultimately show ?thesis using un by (simp add: concat_eq_Nil_conv)
next
  case False
  let ?o = "changeOrder stacks ds"
  have p: "plan diff stacks git =
      \<lparr>plan_Stacks = sortByChange stacks ?o, plan_Changed = Some (fmmap (\<lambda>_. True) ?o), plan_DiffErr = None\<rparr>"
    using False assms by (simp add: plan_def Let_def)
  have "map_true (fmmap (\<lambda>_. True) ?o) n \<longleftrightarrow> fmlookup ?o n \<noteq> None" for n
    by (cases "fmlookup ?o n") (simp_all add: map_true_def)
  then show ?thesis
    unfolding p using sortByChange_touched [OF assms(2), of ds]
    by (auto simp: changeOrder_None untouched_def touches_name_def)
qed

definition sample_plan_stacks :: "stack_spec list" where
  "sample_plan_stacks = map (\<lambda>n. \<lparr>stack_Name = n, stack_ComposeFile = ''./'' @ n @ ''.yaml'',
     stack_Prune = None, stack_SelfHeal = None\<rparr>) [''a'', ''b'', ''c'']"

definition sample_pull :: pull_result where
  "sample_pull = \<lparr>pull_OldRevision = ''r1'', pull_NewRevision = ''r2'', pull_Updated = True\<rparr>"

definition sample_diffs :: "commit_file_diff list" where
  "sample_diffs = [\<lparr>diff_OldPath = ''c.yaml'', diff_NewPath = ''''\<rparr>,
     \<lparr>diff_OldPath = '''', diff_NewPath = ''a.yaml''\<rparr>]"

theorem plan_order_witness:
  "map stack_Name (plan_Stacks (plan (\<lambda>_ _. Inr sample_diffs :: string + commit_file_diff list)
     sample_plan_stacks sample_pull)) = [''c'', ''a'', ''b'']"
proof -
  let ?diff = "\<lambda>_ _. Inr sample_diffs :: string + commit_file_diff list"
  have "plan_Stacks (plan ?diff sample_plan_stacks sample_pull) =
      concat (map (\<lambda>i. filter (first_touched_by sample_diffs i) sample_plan_stacks) [0 ..< length sample_diffs]) @
      filter (untouched sample_diffs) sample_plan_stacks"
    by (rule plan_order [THEN conjunct1]) (simp_all add: sample_pull_def sample_plan_stacks_def)
  moreover have "map stack_Name (concat (map (\<lambda>i. filter (first_touched_by sample_diffs i) sample_plan_stacks)
      [0 ..< length sample_diffs]) @ filter (untouched sample_diffs) sample_plan_stacks) = [''c'', ''a'', ''b'']"
    by code_simp
  ultimately show ?thesis by simp
qed

text \<open>
  Planning never loses or duplicates a stack, whatever the names and the diff; without an updated
  revision the diff is not asked for, and then, as after a failed diff, the configured order is kept
  and no stack counts as changed.
\<close>

lemma plan_permutation:
  "mset (plan_Stacks (plan diff stacks git)) = mset stacks \<and>
   (plan_DiffErr (plan diff stacks git) = Some e \<longleftrightarrow>
      pull_Updated git \<and> stacks \<noteq> [] \<and> diff (pull_OldRevision git) (pull_NewRevision git) = Inl e) \<and>
   (\<not> pull_Updated git \<or> plan_DiffErr (plan diff stacks git) \<noteq> None \<longrightarrow>
      plan_Stacks (plan diff stacks git) = stacks \<and> plan_Changed (plan diff stacks git) = None) \<and>
   (\<not> pull_Updated git \<longrightarrow> plan diff stacks git = plan diff' stacks git)"
  by (auto simp: plan_def Let_def sortByChange_def split: sum.split)

lemma plan_mset: "mset (plan_Stacks (plan diff stacks git)) = mset stacks"
  by (rule plan_permutation [THEN conjunct1])

lemma failed_diff_keeps_order:
  "plan_Stacks (plan (\<lambda>_ _. Inl ''no diff'') sample_plan_stacks sample_pull) = sample_plan_stacks"
proof -
  have "plan_DiffErr (plan (\<lambda>_ _. Inl ''no diff'') sample_plan_stacks sample_pull) = Some ''no diff''"
    by code_simp
  then show ?thesis
    using plan_permutation [of "\<lambda>_ _. Inl ''no diff''" sample_plan_stacks sample_pull "''no diff''"] by simp
qed

end
