(* ===== verification/Outbox.thy ===== *)
theory Outbox
  imports Prelude "HOL-Library.Product_Lexorder"
begin

text \<open>
  The durable event outbox (\<open>internal/modules/event/outbox\<close>): \<open>repository.go\<close>, \<open>worker.go\<close>,
  \<open>delivery_worker.go\<close> and \<open>inspect.go\<close>.

  The tables \<open>outbox_events\<close> and \<open>outbox_deliveries\<close> are lists of row records, and every SQL
  statement is the list operation it denotes; uniqueness and the foreign key of the schema
  (\<open>migrations/sqlite/0001_initial.sql\<close>) are checks of the inserts. The rest of the database, which
  the subscribers write, is the type parameter \<open>'a\<close>. Transactions take the write lock at their
  start, so they are atomic steps; a failing statement or commit is the argument \<open>fault\<close>. The
  event codec, the clock and the UUID generator are parameters.
\<close>

section \<open>Tables and errors\<close>

datatype delivery_status = Pending | Processing | Delivered | Failed

record outbox_event =
  ev_sequence :: nat
  ev_id :: string
  ev_type :: string
  ev_schema_version :: int
  ev_occurred_at :: gotime
  ev_causation_id :: string
  ev_payload :: string
  ev_traceparent :: "string option"

record delivery_row =
  row_event_id :: string
  row_subscription_id :: string
  row_status :: delivery_status
  row_attempts :: nat
  row_available_at :: gotime
  row_lease_until :: "gotime option"
  row_lease_token :: "string option"
  row_last_error :: "string option"
  row_updated_at :: gotime

record 'a outbox_db =
  db_events :: "outbox_event list"
  db_deliveries :: "delivery_row list"
  db_sequence :: nat
  db_app :: 'a

datatype outbox_error =
    NilEvent | EncodeError | IDError | TimeRequired | ConstraintError | DatabaseError
  | ErrNoRows | ErrLeaseLost | ErrInvalidPayload
  | InvalidDelivery string | HandlerFailed string | HandlerPanicked
  | JoinedError outbox_error outbox_error

text \<open>The claim ticket (\<open>Delivery\<close>) as \<open>Claim\<close> fills it.\<close>

record delivery =
  d_EventID :: string
  d_SubscriptionID :: string
  d_Token :: string
  d_Attempts :: nat

record 'ev envelope =
  env_ID :: string
  env_OccurredAt :: gotime
  env_PublicationSequence :: nat
  env_Event :: 'ev

record 'ev publication =
  pub_Type :: string
  pub_Envelope :: "'ev envelope"
  pub_Traceparent :: string

definition maxRetryBackoff :: duration where
  "maxRetryBackoff = 5 * minute"

definition maxBackoffExponent :: nat where
  "maxBackoffExponent = 9"

definition defaultMaxAttempts :: nat where
  "defaultMaxAttempts = 12"

definition defaultLease :: duration where
  "defaultLease = 5 * minute"

text \<open>\<open>WithinTransaction\<close> joins an active transaction or opens one of its own.\<close>

definition joined_tx ::
    "bool \<Rightarrow> 'e option \<Rightarrow> ('s \<Rightarrow> 'e option \<times> 's) \<Rightarrow> 's \<Rightarrow> 'e option \<times> 's" where
  "joined_tx active fault body s =
     (if active then (case fault of None \<Rightarrow> body s | Some e \<Rightarrow> (Some e, s)) else within_tx fault body s)"

section \<open>Publishing\<close>

definition insert_event ::
    "string \<Rightarrow> string \<Rightarrow> int \<Rightarrow> gotime \<Rightarrow> string \<Rightarrow> string \<Rightarrow> string option \<Rightarrow> 'a outbox_db \<Rightarrow>
     outbox_error option \<times> 'a outbox_db" where
  "insert_event eid typ version now cause payload traceparent db =
     (if eid \<in> ev_id ` set (db_events db) then (Some ConstraintError, db)
      else (None, db\<lparr>db_sequence := Suc (db_sequence db),
             db_events := db_events db @
               [\<lparr>ev_sequence = Suc (db_sequence db), ev_id = eid, ev_type = typ,
                 ev_schema_version = version, ev_occurred_at = now, ev_causation_id = cause,
                 ev_payload = payload, ev_traceparent = traceparent\<rparr>]\<rparr>))"

definition new_delivery :: "string \<Rightarrow> gotime \<Rightarrow> string \<Rightarrow> delivery_row" where
  "new_delivery eid now subscriber =
     \<lparr>row_event_id = eid, row_subscription_id = subscriber, row_status = Pending, row_attempts = 0,
      row_available_at = now, row_lease_until = None, row_lease_token = None,
      row_last_error = None, row_updated_at = now\<rparr>"

fun insert_deliveries ::
    "string \<Rightarrow> gotime \<Rightarrow> string list \<Rightarrow> 'a outbox_db \<Rightarrow> outbox_error option \<times> 'a outbox_db" where
  "insert_deliveries eid now [] db = (None, db)"
| "insert_deliveries eid now (subscriber # rest) db =
     (if (\<exists>r \<in> set (db_deliveries db). row_event_id r = eid \<and> row_subscription_id r = subscriber)
       \<or> eid \<notin> ev_id ` set (db_events db)
      then (Some ConstraintError, db)
      else insert_deliveries eid now rest
             (db\<lparr>db_deliveries := db_deliveries db @ [new_delivery eid now subscriber]\<rparr>))"

text \<open>The closure \<open>insert\<close> of \<open>Publish\<close>.\<close>

definition insert_publication ::
    "string \<Rightarrow> string \<Rightarrow> int \<Rightarrow> gotime \<Rightarrow> string \<Rightarrow> string \<Rightarrow> string option \<Rightarrow> string list \<Rightarrow> 'a outbox_db \<Rightarrow>
     outbox_error option \<times> 'a outbox_db" where
  "insert_publication eid typ version now cause payload traceparent subscriptionIDs db =
     (case insert_event eid typ version now cause payload traceparent db of
        (Some e, db) \<Rightarrow> (Some e, db)
      | (None, db) \<Rightarrow> insert_deliveries eid now subscriptionIDs db)"

text \<open>
  \<open>Publish\<close>: \<open>encode\<close> and \<open>typ_of\<close> are the codec and the type of the event, \<open>newID\<close> the result of the
  UUID generator, \<open>cause\<close> the causation of the context.
\<close>

definition publish ::
    "('ev \<Rightarrow> string option) \<Rightarrow> ('ev \<Rightarrow> string) \<Rightarrow> int \<Rightarrow> string option \<Rightarrow> bool \<Rightarrow> outbox_error option \<Rightarrow>
     string \<Rightarrow> string option \<Rightarrow> 'ev option \<Rightarrow> string list \<Rightarrow> gotime \<Rightarrow> 'a outbox_db \<Rightarrow>
     outbox_error option \<times> 'a outbox_db" where
  "publish encode typ_of version newID joins fault cause traceparent event subscriptionIDs now db =
     (case event of
        None \<Rightarrow> (Some NilEvent, db)
      | Some ev \<Rightarrow>
          if subscriptionIDs = [] then (None, db)
          else case encode ev of
                 None \<Rightarrow> (Some EncodeError, db)
               | Some payload \<Rightarrow>
                   case newID of
                     None \<Rightarrow> (Some IDError, db)
                   | Some eid \<Rightarrow>
                       if IsZero now then (Some TimeRequired, db)
                       else joined_tx joins fault
                              (insert_publication eid (typ_of ev) version now cause payload traceparent
                                subscriptionIDs) db)"

section \<open>Claiming\<close>

definition event_of :: "'a outbox_db \<Rightarrow> delivery_row \<Rightarrow> outbox_event option" where
  [outbox_defs]: "event_of db r = find (\<lambda>e. ev_id e = row_event_id r) (db_events db)"

definition active :: "delivery_row \<Rightarrow> bool" where
  [outbox_defs]: "active r \<longleftrightarrow> row_status r = Pending \<or> row_status r = Processing"

text \<open>The join of deliveries and events, with the pairs in table order.\<close>

definition joined :: "'a outbox_db \<Rightarrow> (delivery_row \<times> outbox_event) list" where
  [outbox_defs]: "joined db =
     concat (map (\<lambda>r. map (Pair r) (filter (\<lambda>e. ev_id e = row_event_id r) (db_events db))) (db_deliveries db))"

definition due_now :: "gotime \<Rightarrow> delivery_row \<Rightarrow> bool" where
  [outbox_defs]: "due_now now r \<longleftrightarrow>
     (row_status r = Pending \<and> row_available_at r \<le> now) \<or>
     (row_status r = Processing \<and> (case row_lease_until r of None \<Rightarrow> False | Some until \<Rightarrow> until \<le> now))"

definition earlier_active :: "'a outbox_db \<Rightarrow> delivery_row \<times> outbox_event \<Rightarrow> bool" where
  [outbox_defs]: "earlier_active db c \<longleftrightarrow>
     (\<exists>(r, e) \<in> set (joined db). row_subscription_id r = row_subscription_id (fst c) \<and> active r \<and>
        ev_sequence e < ev_sequence (snd c))"

definition candidates :: "gotime \<Rightarrow> 'a outbox_db \<Rightarrow> (delivery_row \<times> outbox_event) list" where
  [outbox_defs]: "candidates now db =
     filter (\<lambda>c. due_now now (fst c) \<and> \<not> earlier_active db c) (joined db)"

definition candidate_key :: "delivery_row \<times> outbox_event \<Rightarrow> gotime \<times> nat \<times> string" where
  "candidate_key c = (row_available_at (fst c), ev_sequence (snd c), row_subscription_id (fst c))"

text \<open>\<open>ORDER BY available_at, sequence, subscription_id LIMIT 1\<close>\<close>

fun first_candidate :: "(delivery_row \<times> outbox_event) list \<Rightarrow> (delivery_row \<times> outbox_event) option" where
  "first_candidate [] = None"
| "first_candidate (c # cs) =
     (case first_candidate cs of
        None \<Rightarrow> Some c
      | Some c' \<Rightarrow> Some (if candidate_key c' < candidate_key c then c' else c))"

definition same_row :: "string \<Rightarrow> string \<Rightarrow> delivery_row \<Rightarrow> bool" where
  [outbox_defs]: "same_row eid sid r \<longleftrightarrow> row_event_id r = eid \<and> row_subscription_id r = sid"

definition update_rows ::
    "(delivery_row \<Rightarrow> bool) \<Rightarrow> (delivery_row \<Rightarrow> delivery_row) \<Rightarrow> 'a outbox_db \<Rightarrow> nat \<times> 'a outbox_db" where
  "update_rows matches f db =
     (length (filter matches (db_deliveries db)),
      db\<lparr>db_deliveries := map (\<lambda>r. if matches r then f r else r) (db_deliveries db)\<rparr>)"

definition lease_row :: "string \<Rightarrow> gotime \<Rightarrow> duration \<Rightarrow> delivery_row \<Rightarrow> delivery_row" where
  [outbox_defs]: "lease_row token now lease r =
     r\<lparr>row_status := Processing, row_attempts := row_attempts r + 1, row_lease_token := Some token,
       row_lease_until := Some (now + lease), row_updated_at := now\<rparr>"

definition claim_due :: "string \<Rightarrow> gotime \<Rightarrow> duration \<Rightarrow> 'a outbox_db \<Rightarrow> nat \<times> 'a outbox_db" where
  "claim_due token now lease db =
     (case first_candidate (candidates now db) of
        None \<Rightarrow> (0, db)
      | Some (r, _) \<Rightarrow>
          update_rows (same_row (row_event_id r) (row_subscription_id r)) (lease_row token now lease) db)"

text \<open>\<open>Claim\<close>: the result is the ticket or the error of the transaction.\<close>

definition claim ::
    "outbox_error option \<Rightarrow> string \<Rightarrow> gotime \<Rightarrow> duration \<Rightarrow> 'a outbox_db \<Rightarrow>
     (outbox_error + delivery) \<times> 'a outbox_db" where
  "claim fault token now lease db =
     (let (n, db') = claim_due token now lease db
      in if n = 0 then (Inl (case fault of None \<Rightarrow> ErrNoRows | Some e \<Rightarrow> e), db)
         else case find (\<lambda>r. row_lease_token r = Some token) (db_deliveries db') of
                None \<Rightarrow> (Inl ErrNoRows, db)
              | Some r \<Rightarrow>
                  (case fault of
                     Some e \<Rightarrow> (Inl e, db)
                   | None \<Rightarrow> (Inr \<lparr>d_EventID = row_event_id r, d_SubscriptionID = row_subscription_id r,
                                   d_Token = token, d_Attempts = row_attempts r\<rparr>, db')))"

section \<open>Processing\<close>

definition publication_of :: "(string \<Rightarrow> int \<Rightarrow> string \<Rightarrow> 'ev option) \<Rightarrow> outbox_event \<Rightarrow> outbox_error + 'ev publication" where
  "publication_of decode row =
     (case decode (ev_type row) (ev_schema_version row) (ev_payload row) of
        None \<Rightarrow> Inl ErrInvalidPayload
      | Some ev \<Rightarrow>
          Inr \<lparr>pub_Type = ev_type row,
               pub_Envelope = \<lparr>env_ID = ev_id row, env_OccurredAt = ev_occurred_at row,
                               env_PublicationSequence = ev_sequence row, env_Event = ev\<rparr>,
               pub_Traceparent = (case ev_traceparent row of None \<Rightarrow> '''' | Some t \<Rightarrow> t)\<rparr>)"

definition load ::
    "(string \<Rightarrow> int \<Rightarrow> string \<Rightarrow> 'ev option) \<Rightarrow> delivery \<Rightarrow> 'a outbox_db \<Rightarrow> outbox_error + 'ev publication" where
  "load decode d db =
     (case find (\<lambda>e. ev_id e = d_EventID d) (db_events db) of
        None \<Rightarrow> Inl ErrNoRows
      | Some row \<Rightarrow> publication_of decode row)"

text \<open>The row a ticket holds at \<open>now\<close>.\<close>

definition holds_lease :: "delivery \<Rightarrow> delivery_row \<Rightarrow> bool" where
  [outbox_defs]: "holds_lease d r \<longleftrightarrow>
     same_row (d_EventID d) (d_SubscriptionID d) r \<and> row_status r = Processing \<and>
     row_lease_token r = Some (d_Token d)"

definition lease_current :: "delivery \<Rightarrow> gotime \<Rightarrow> delivery_row \<Rightarrow> bool" where
  [outbox_defs]: "lease_current d now r \<longleftrightarrow>
     holds_lease d r \<and> (case row_lease_until r of None \<Rightarrow> False | Some until \<Rightarrow> now < until)"

definition checkLease :: "delivery \<Rightarrow> gotime \<Rightarrow> 'a outbox_db \<Rightarrow> outbox_error option" where
  "checkLease d now db =
     (if length (filter (lease_current d now) (db_deliveries db)) \<noteq> 1 then Some ErrLeaseLost else None)"

text \<open>\<open>deleteCompleted\<close>; the deliveries of a deleted event go with it.\<close>

definition deleteCompleted :: "string \<Rightarrow> 'a outbox_db \<Rightarrow> 'a outbox_db" where
  "deleteCompleted eid db =
     (let gone = (\<lambda>e. ev_id e = eid \<and>
            \<not> (\<exists>r \<in> set (db_deliveries db). row_event_id r = ev_id e \<and> row_status r \<noteq> Delivered));
          ids = ev_id ` set (filter gone (db_events db))
      in db\<lparr>db_events := filter (\<lambda>e. \<not> gone e) (db_events db),
            db_deliveries := filter (\<lambda>r. row_event_id r \<notin> ids) (db_deliveries db)\<rparr>)"

definition requireChanged :: "nat \<Rightarrow> outbox_error option" where
  "requireChanged n = (if n \<noteq> 1 then Some ErrLeaseLost else None)"

definition deliver_row :: "gotime \<Rightarrow> delivery_row \<Rightarrow> delivery_row" where
  [outbox_defs]: "deliver_row now r =
     r\<lparr>row_status := Delivered, row_lease_token := None, row_lease_until := None,
       row_last_error := None, row_updated_at := now\<rparr>"

text \<open>\<open>Acknowledge\<close>, in the transaction of its caller.\<close>

definition acknowledge :: "delivery \<Rightarrow> gotime \<Rightarrow> 'a outbox_db \<Rightarrow> outbox_error option \<times> 'a outbox_db" where
  "acknowledge d now db =
     (let (n, db') = update_rows (lease_current d now) (deliver_row now) db
      in case requireChanged n of
           Some e \<Rightarrow> (Some e, db')
         | None \<Rightarrow> (None, deleteCompleted (d_EventID d) db'))"

definition backoff :: "nat \<Rightarrow> duration" where
  "backoff attempts = min (second * 2 ^ min attempts maxBackoffExponent) maxRetryBackoff"

definition release_row :: "delivery_status \<Rightarrow> string \<Rightarrow> gotime \<Rightarrow> duration \<Rightarrow> delivery_row \<Rightarrow> delivery_row" where
  [outbox_defs]: "release_row status code now delay r =
     r\<lparr>row_status := status, row_lease_token := None, row_lease_until := None,
       row_last_error := Some code, row_available_at := now + delay, row_updated_at := now\<rparr>"

definition fail ::
    "outbox_error option \<Rightarrow> delivery \<Rightarrow> string \<Rightarrow> bool \<Rightarrow> nat \<Rightarrow> gotime \<Rightarrow> 'a outbox_db \<Rightarrow>
     outbox_error option \<times> 'a outbox_db" where
  "fail fault d code terminal maxAttempts now =
     within_tx fault (\<lambda>db.
       let status = (if terminal \<or> d_Attempts d \<ge> maxAttempts then Failed else Pending);
           (n, db') = update_rows (holds_lease d) (release_row status code now (backoff (d_Attempts d))) db
       in (requireChanged n, db'))"

definition failed_row :: "string \<Rightarrow> string \<Rightarrow> delivery_row \<Rightarrow> bool" where
  [outbox_defs]: "failed_row eid sid r \<longleftrightarrow> same_row eid sid r \<and> row_status r = Failed"

definition replay_row :: "gotime \<Rightarrow> delivery_row \<Rightarrow> delivery_row" where
  [outbox_defs]: "replay_row now r =
     r\<lparr>row_status := Pending, row_attempts := 0, row_last_error := None,
       row_available_at := now, row_updated_at := now\<rparr>"

definition discard_row :: "gotime \<Rightarrow> delivery_row \<Rightarrow> delivery_row" where
  [outbox_defs]: "discard_row now r = r\<lparr>row_status := Delivered, row_updated_at := now\<rparr>"

definition replay ::
    "outbox_error option \<Rightarrow> string \<Rightarrow> string \<Rightarrow> gotime \<Rightarrow> 'a outbox_db \<Rightarrow> outbox_error option \<times> 'a outbox_db" where
  "replay fault eid sid now db =
     (case fault of
        Some e \<Rightarrow> (Some e, db)
      | None \<Rightarrow>
          let (n, db') = update_rows (failed_row eid sid) (replay_row now) db
          in (requireChanged n, db'))"

definition discard ::
    "outbox_error option \<Rightarrow> string \<Rightarrow> string \<Rightarrow> gotime \<Rightarrow> 'a outbox_db \<Rightarrow> outbox_error option \<times> 'a outbox_db" where
  "discard fault eid sid now =
     within_tx fault (\<lambda>db.
       let (n, db') = update_rows (failed_row eid sid) (discard_row now) db
       in case requireChanged n of
            Some e \<Rightarrow> (Some e, db')
          | None \<Rightarrow> (None, deleteCompleted eid db'))"

subsection \<open>The delivery worker\<close>

text \<open>
  A registered destination: its handler sees the envelope and the database and may fail or panic;
  an external one runs outside a transaction.
\<close>

datatype handler_result = HandlerOk | HandlerError string | HandlerPanic

record ('ev, 'a) delivery_handler =
  h_Handle :: "'ev envelope \<Rightarrow> 'a outbox_db \<Rightarrow> handler_result \<times> 'a outbox_db"
  h_External :: bool

definition invoke ::
    "('ev, 'a) delivery_handler \<Rightarrow> 'ev envelope \<Rightarrow> 'a outbox_db \<Rightarrow> outbox_error option \<times> 'a outbox_db" where
  "invoke handler env db =
     (case h_Handle handler env db of
        (HandlerOk, db') \<Rightarrow> (None, db')
      | (HandlerError m, db') \<Rightarrow> (Some (HandlerFailed m), db')
      | (HandlerPanic, db') \<Rightarrow> (Some HandlerPanicked, db'))"

text \<open>The transaction of an internal handler: lease check, handler and acknowledgement.\<close>

definition process_internal ::
    "outbox_error option \<Rightarrow> gotime \<Rightarrow> gotime \<Rightarrow> ('ev, 'a) delivery_handler \<Rightarrow> 'ev envelope \<Rightarrow> delivery \<Rightarrow>
     'a outbox_db \<Rightarrow> outbox_error option \<times> 'a outbox_db" where
  "process_internal fault now1 now2 handler env d =
     within_tx fault (\<lambda>db.
       case checkLease d now1 db of
         Some e \<Rightarrow> (Some e, db)
       | None \<Rightarrow>
           (case invoke handler env db of
              (Some e, db') \<Rightarrow> (Some e, db')
            | (None, db') \<Rightarrow> acknowledge d now2 db'))"

definition process_external ::
    "outbox_error option \<Rightarrow> gotime \<Rightarrow> gotime \<Rightarrow> ('ev, 'a) delivery_handler \<Rightarrow> 'ev envelope \<Rightarrow> delivery \<Rightarrow>
     'a outbox_db \<Rightarrow> outbox_error option \<times> 'a outbox_db" where
  "process_external fault now1 now2 handler env d db =
     (case checkLease d now1 db of
        Some e \<Rightarrow> (Some e, db)
      | None \<Rightarrow>
          (case invoke handler env db of
             (Some e, db') \<Rightarrow> (Some e, db')
           | (None, db') \<Rightarrow> within_tx fault (acknowledge d now2) db'))"

definition process ::
    "(string \<Rightarrow> int \<Rightarrow> string \<Rightarrow> 'ev option) \<Rightarrow> (string \<Rightarrow> string \<Rightarrow> ('ev, 'a) delivery_handler option) \<Rightarrow>
     outbox_error option \<Rightarrow> gotime \<Rightarrow> gotime \<Rightarrow> delivery \<Rightarrow> 'a outbox_db \<Rightarrow>
     outbox_error option \<times> 'a outbox_db" where
  "process decode resolve fault now1 now2 d db =
     (case load decode d db of
        Inl e \<Rightarrow>
          if e \<noteq> ErrInvalidPayload then (Some e, db)
          else (Some (InvalidDelivery ''unsupported_or_invalid_payload''), db)
      | Inr pub \<Rightarrow>
          (case resolve (pub_Type pub) (d_SubscriptionID d) of
             None \<Rightarrow> (Some (InvalidDelivery ''subscription_missing''), db)
           | Some handler \<Rightarrow>
               if h_External handler
               then process_external fault now1 now2 handler (pub_Envelope pub) d db
               else process_internal fault now1 now2 handler (pub_Envelope pub) d db))"

definition failure_code :: "outbox_error \<Rightarrow> string \<times> bool" where
  "failure_code err =
     (case err of InvalidDelivery code \<Rightarrow> (code, True) | _ \<Rightarrow> (''handler_failed'', False))"

text \<open>
  \<open>ProcessNext\<close>: claim, process, and release after a failure. The clock readings and the faults of
  the three transactions are arguments.
\<close>

definition processNext ::
    "(string \<Rightarrow> int \<Rightarrow> string \<Rightarrow> 'ev option) \<Rightarrow> (string \<Rightarrow> string \<Rightarrow> ('ev, 'a) delivery_handler option) \<Rightarrow>
     duration \<Rightarrow> nat \<Rightarrow> string \<Rightarrow> gotime \<times> gotime \<times> gotime \<times> gotime \<Rightarrow>
     outbox_error option \<times> outbox_error option \<times> outbox_error option \<Rightarrow> 'a outbox_db \<Rightarrow>
     (bool \<times> outbox_error option) \<times> 'a outbox_db" where
  "processNext decode resolve lease maxAttempts token clock faults db =
     (case (clock, faults) of
        ((t0, t1, t2, t3), (f0, f1, f2)) \<Rightarrow>
          (case claim f0 token t0 lease db of
             (Inl ErrNoRows, db1) \<Rightarrow> ((False, None), db1)
           | (Inl e, db1) \<Rightarrow> ((False, Some e), db1)
           | (Inr d, db1) \<Rightarrow>
               (case process decode resolve f1 t1 t2 d db1 of
                  (None, db2) \<Rightarrow> ((True, None), db2)
                | (Some err, db2) \<Rightarrow>
                    (case fail f2 d (fst (failure_code err)) (snd (failure_code err)) maxAttempts t3 db2 of
                       (None, db3) \<Rightarrow> ((True, None), db3)
                     | (Some retryErr, db3) \<Rightarrow> ((True, Some (JoinedError err retryErr)), db3)))))"

section \<open>The outbox as a transition system\<close>

text \<open>
  What publishers and subscribers do to the database: writes to other tables, and the insertions of
  \<open>Publish\<close>.
\<close>

inductive writes :: "'a outbox_db \<Rightarrow> 'a outbox_db \<Rightarrow> bool" where
  app: "writes db (db\<lparr>db_app := x\<rparr>)"
| publish: "ids \<noteq> [] \<Longrightarrow>
    writes db (snd (insert_publication eid typ version now cause payload traceparent ids db))"

definition benign :: "('ev, 'a) delivery_handler \<Rightarrow> bool" where
  "benign h \<longleftrightarrow> (\<forall>env db. writes\<^sup>*\<^sup>* db (snd (h_Handle h env db)))"

text \<open>
  One committed transaction by any goroutine or process. Tickets are arbitrary, so they include stale
  ones; a claim has a fresh token. The flag says whether an operator may replay parked deliveries.
  \<open>process\<close> is the transaction of an internal handler that writes as above (see
  \<open>process_internal_step\<close>).
\<close>

inductive outbox_step :: "bool \<Rightarrow> 'a outbox_db \<Rightarrow> 'a outbox_db \<Rightarrow> bool" for replays :: bool where
  app_write: "writes db db' \<Longrightarrow> outbox_step replays db db'"
| claim: "Some token \<notin> row_lease_token ` set (db_deliveries db) \<Longrightarrow>
    outbox_step replays db (snd (claim fault token now lease db))"
| process: "checkLease d now1 db = None \<Longrightarrow> writes\<^sup>*\<^sup>* db db' \<Longrightarrow> acknowledge d now2 db' = (None, db'') \<Longrightarrow>
    outbox_step replays db db''"
| acknowledge: "outbox_step replays db (snd (within_tx fault (acknowledge d now) db))"
| fail: "outbox_step replays db (snd (fail fault d code terminal maxAttempts now db))"
| discard: "outbox_step replays db (snd (discard fault eid sid now db))"
| replay: "replays \<Longrightarrow> outbox_step replays db (snd (replay fault eid sid now db))"

definition outbox_init :: "'a outbox_db \<Rightarrow> bool" where
  "outbox_init db \<longleftrightarrow> db_events db = [] \<and> db_deliveries db = []"

section \<open>The schema invariant\<close>

definition row_key :: "delivery_row \<Rightarrow> string \<times> string" where
  [outbox_defs]: "row_key r = (row_event_id r, row_subscription_id r)"

text \<open>The \<open>CHECK\<close> of the deliveries table.\<close>

definition lease_ok :: "delivery_row \<Rightarrow> bool" where
  "lease_ok r \<longleftrightarrow> (row_lease_until r \<noteq> None \<longleftrightarrow> row_status r = Processing) \<and>
     (row_lease_token r \<noteq> None \<longleftrightarrow> row_status r = Processing)"

definition events_ok :: "'a outbox_db \<Rightarrow> bool" where
  "events_ok db \<longleftrightarrow> distinct (map ev_id (db_events db)) \<and>
     sorted_wrt (<) (map ev_sequence (db_events db)) \<and>
     (\<forall>e \<in> set (db_events db). ev_sequence e \<le> db_sequence db)"

definition rows_ok :: "'a outbox_db \<Rightarrow> bool" where
  "rows_ok db \<longleftrightarrow> distinct (map row_key (db_deliveries db)) \<and>
     row_event_id ` set (db_deliveries db) \<subseteq> ev_id ` set (db_events db) \<and>
     (\<forall>r \<in> set (db_deliveries db). lease_ok r)"

text \<open>No two rows share a lease token.\<close>

definition tokens_ok :: "'a outbox_db \<Rightarrow> bool" where
  "tokens_ok db \<longleftrightarrow> (\<forall>r \<in> set (db_deliveries db). \<forall>r' \<in> set (db_deliveries db).
     row_lease_token r \<noteq> None \<and> row_lease_token r = row_lease_token r' \<longrightarrow> row_key r = row_key r')"

text \<open>A retained event still has a delivery to make.\<close>

definition events_live :: "'a outbox_db \<Rightarrow> bool" where
  "events_live db \<longleftrightarrow> (\<forall>e \<in> set (db_events db).
     \<exists>r \<in> set (db_deliveries db). row_event_id r = ev_id e \<and> row_status r \<noteq> Delivered)"

definition outbox_inv :: "'a outbox_db \<Rightarrow> bool" where
  "outbox_inv db \<longleftrightarrow> events_ok db \<and> rows_ok db \<and> tokens_ok db \<and> events_live db"

lemma row_unique:
  "rows_ok db \<Longrightarrow> r \<in> set (db_deliveries db) \<Longrightarrow> r' \<in> set (db_deliveries db) \<Longrightarrow>
    row_key r = row_key r' \<Longrightarrow> r = r'"
  unfolding rows_ok_def by (metis distinct_map inj_onD)

subsection \<open>Updates\<close>

lemma update_rows_fields [simp]:
  "db_events (snd (update_rows P f db)) = db_events db"
  "db_sequence (snd (update_rows P f db)) = db_sequence db"
  "db_app (snd (update_rows P f db)) = db_app db"
  "db_deliveries (snd (update_rows P f db)) = map (\<lambda>r. if P r then f r else r) (db_deliveries db)"
  by (simp_all add: update_rows_def)

lemma update_rows_inv:
  assumes "events_ok db" "rows_ok db"
    and "\<And>r. P r \<Longrightarrow> row_key (f r) = row_key r" "\<And>r. P r \<Longrightarrow> lease_ok r \<Longrightarrow> lease_ok (f r)"
  shows "events_ok (snd (update_rows P f db))" "rows_ok (snd (update_rows P f db))"
proof -
  have key: "row_key (if P r then f r else r) = row_key r" for r using assms(3) by simp
  have eid: "row_event_id (if P r then f r else r) = row_event_id r" for r
    using key [of r] by (simp add: row_key_def)
  show "events_ok (snd (update_rows P f db))" using assms(1) by (simp add: events_ok_def)
  have "map row_key (map (\<lambda>r. if P r then f r else r) (db_deliveries db)) = map row_key (db_deliveries db)"
    by (simp add: key)
  moreover have "row_event_id ` set (map (\<lambda>r. if P r then f r else r) (db_deliveries db)) =
      row_event_id ` set (db_deliveries db)"
    unfolding set_map image_image by (simp only: eid)
  moreover have "lease_ok x" if x: "x \<in> set (map (\<lambda>r. if P r then f r else r) (db_deliveries db))" for x
    using x assms(2,4) by (auto simp: rows_ok_def)
  ultimately show "rows_ok (snd (update_rows P f db))"
    using assms(2) unfolding rows_ok_def update_rows_fields by metis
qed

lemma update_rows_tokens:
  assumes "tokens_ok db"
    and "\<And>r. P r \<Longrightarrow> row_key (f r) = row_key r"
    and "\<And>r. P r \<Longrightarrow> row_lease_token (f r) = None"
  shows "tokens_ok (snd (update_rows P f db))"
  unfolding tokens_ok_def
proof (intro ballI impI)
  fix x x' assume x: "x \<in> set (db_deliveries (snd (update_rows P f db)))"
    "x' \<in> set (db_deliveries (snd (update_rows P f db)))"
    "row_lease_token x \<noteq> None \<and> row_lease_token x = row_lease_token x'"
  then have "x \<in> set (db_deliveries db)" "x' \<in> set (db_deliveries db)"
    using assms(3) by (fastforce simp: set_map split: if_splits)+
  with x(3) assms(1) show "row_key x = row_key x'" unfolding tokens_ok_def by blast
qed

lemma update_rows_live:
  assumes "events_live db" "\<And>r. P r \<Longrightarrow> row_key (f r) = row_key r"
    and "\<And>r. P r \<Longrightarrow> row_status (f r) \<noteq> Delivered"
  shows "events_live (snd (update_rows P f db))"
  unfolding events_live_def
proof
  fix e assume "e \<in> set (db_events (snd (update_rows P f db)))"
  then obtain r where r: "r \<in> set (db_deliveries db)" "row_event_id r = ev_id e" "row_status r \<noteq> Delivered"
    using assms(1) by (auto simp: events_live_def)
  then show "\<exists>r \<in> set (db_deliveries (snd (update_rows P f db))). row_event_id r = ev_id e \<and> row_status r \<noteq> Delivered"
    using assms(2,3) [of r] by (intro bexI [of _ "if P r then f r else r"]) (auto simp: row_key_def)
qed

subsection \<open>Deleting completed events\<close>

lemma deleteCompleted_fields [simp]:
  "db_sequence (deleteCompleted eid db) = db_sequence db" "db_app (deleteCompleted eid db) = db_app db"
  by (simp_all add: deleteCompleted_def Let_def)

definition completed :: "string \<Rightarrow> 'a outbox_db \<Rightarrow> bool" where
  "completed eid db \<longleftrightarrow> (\<forall>r \<in> set (db_deliveries db). row_event_id r = eid \<longrightarrow> row_status r = Delivered)"

lemma completedD:
  "completed eid db \<Longrightarrow> r \<in> set (db_deliveries db) \<Longrightarrow> row_event_id r = eid \<Longrightarrow> row_status r = Delivered"
  by (simp add: completed_def)

lemma deleteCompleted_eq:
  assumes "row_event_id ` set (db_deliveries db) \<subseteq> ev_id ` set (db_events db)"
  shows "deleteCompleted eid db =
    (if completed eid db
     then db\<lparr>db_events := filter (\<lambda>e. ev_id e \<noteq> eid) (db_events db),
             db_deliveries := filter (\<lambda>r. row_event_id r \<noteq> eid) (db_deliveries db)\<rparr>
     else db)"
proof (cases "completed eid db")
  case True
  then have gone: "(ev_id e = eid \<and> \<not> (\<exists>r \<in> set (db_deliveries db). row_event_id r = ev_id e \<and> row_status r \<noteq> Delivered)) =
      (ev_id e = eid)" for e by (auto simp: completed_def)
  have "filter (\<lambda>r. row_event_id r \<notin> ev_id ` set (filter (\<lambda>e. ev_id e = eid) (db_events db))) (db_deliveries db) =
      filter (\<lambda>r. row_event_id r \<noteq> eid) (db_deliveries db)"
    using assms by (intro filter_cong) auto
  with True show ?thesis unfolding deleteCompleted_def Let_def gone by simp
next
  case False
  then have gone: "(ev_id e = eid \<and> \<not> (\<exists>r \<in> set (db_deliveries db). row_event_id r = ev_id e \<and> row_status r \<noteq> Delivered)) =
      False" for e by (auto simp: completed_def)
  from False show ?thesis unfolding deleteCompleted_def Let_def gone by simp
qed

lemma deleteCompleted_inv:
  assumes "events_ok db" "rows_ok db" "tokens_ok db"
    and "\<forall>e \<in> set (db_events db). ev_id e \<noteq> eid \<longrightarrow>
      (\<exists>r \<in> set (db_deliveries db). row_event_id r = ev_id e \<and> row_status r \<noteq> Delivered)"
  shows "outbox_inv (deleteCompleted eid db)"
proof (cases "completed eid db")
  case True
  have fk: "row_event_id ` set (db_deliveries db) \<subseteq> ev_id ` set (db_events db)"
    using assms(2) by (simp add: rows_ok_def)
  let ?db = "db\<lparr>db_events := filter (\<lambda>e. ev_id e \<noteq> eid) (db_events db),
             db_deliveries := filter (\<lambda>r. row_event_id r \<noteq> eid) (db_deliveries db)\<rparr>"
  have "events_ok ?db"
    using assms(1) by (auto simp: events_ok_def distinct_map_filter sorted_wrt_map sorted_wrt_filter)
  moreover have "rows_ok ?db"
    using assms(2) fk by (auto simp: rows_ok_def distinct_map_filter)
  moreover have "tokens_ok ?db" using assms(3) unfolding tokens_ok_def by auto
  moreover have "events_live ?db"
    unfolding events_live_def using assms(4) by (simp, metis)
  ultimately show ?thesis using True by (simp add: outbox_inv_def deleteCompleted_eq [OF fk])
next
  case False
  then have "events_live db"
    unfolding events_live_def completed_def using assms(4) by metis
  with False assms show ?thesis
    by (simp add: outbox_inv_def deleteCompleted_eq rows_ok_def)
qed

subsection \<open>Publishing\<close>

lemma insert_deliveries_events [simp]:
  "db_events (snd (insert_deliveries eid now ids db)) = db_events db"
  "db_sequence (snd (insert_deliveries eid now ids db)) = db_sequence db"
  "db_app (snd (insert_deliveries eid now ids db)) = db_app db"
  by (induction eid now ids db rule: insert_deliveries.induct) auto

lemma insert_deliveries_rows:
  "\<exists>n. db_deliveries (snd (insert_deliveries eid now ids db)) =
     db_deliveries db @ map (new_delivery eid now) (take n ids)"
proof (induction eid now ids db rule: insert_deliveries.induct)
  case (2 eid now s rest db)
  show ?case
  proof (cases "(\<exists>r \<in> set (db_deliveries db). row_event_id r = eid \<and> row_subscription_id r = s)
       \<or> eid \<notin> ev_id ` set (db_events db)")
    case True
    then show ?thesis by (intro exI [of _ 0]) simp
  next
    case False
    from 2 [OF False] obtain n where
      "db_deliveries (snd (insert_deliveries eid now (s # rest) db)) =
        db_deliveries db @ map (new_delivery eid now) (take (Suc n) (s # rest))"
      using False by auto
    then show ?thesis by blast
  qed
qed simp

lemma insert_deliveries_ok: "rows_ok db \<Longrightarrow> rows_ok (snd (insert_deliveries eid now ids db))"
proof (induction eid now ids db rule: insert_deliveries.induct)
  case (2 eid now s rest db)
  have "rows_ok (db\<lparr>db_deliveries := db_deliveries db @ [new_delivery eid now s]\<rparr>)"
    if "\<not> ((\<exists>r \<in> set (db_deliveries db). row_event_id r = eid \<and> row_subscription_id r = s)
       \<or> eid \<notin> ev_id ` set (db_events db))"
    using 2(2) that by (auto simp: rows_ok_def row_key_def new_delivery_def lease_ok_def)
  with 2 show ?case by auto
qed simp

lemma tokens_ok_append:
  assumes "tokens_ok db" "db_deliveries db' = db_deliveries db @ rs" "\<And>r. r \<in> set rs \<Longrightarrow> row_lease_token r = None"
  shows "tokens_ok db'"
  unfolding tokens_ok_def
proof (intro ballI impI)
  fix r r' assume r: "r \<in> set (db_deliveries db')" "r' \<in> set (db_deliveries db')"
    "row_lease_token r \<noteq> None \<and> row_lease_token r = row_lease_token r'"
  then have "r \<in> set (db_deliveries db)" "r' \<in> set (db_deliveries db)"
    using assms(2,3) by auto
  with assms(1) r(3) show "row_key r = row_key r'" unfolding tokens_ok_def by blast
qed

lemma insert_publication_inv:
  assumes "outbox_inv db" "ids \<noteq> []"
  shows "outbox_inv (snd (insert_publication eid typ version now cause payload traceparent ids db))"
proof (cases "eid \<in> ev_id ` set (db_events db)")
  case True
  then show ?thesis using assms by (simp add: insert_publication_def insert_event_def)
next
  case False
  let ?db1 = "snd (insert_event eid typ version now cause payload traceparent db)"
  let ?db2 = "snd (insert_deliveries eid now ids ?db1)"
  have res: "snd (insert_publication eid typ version now cause payload traceparent ids db) = ?db2"
    using False by (simp add: insert_publication_def insert_event_def)
  have d1: "db_deliveries ?db1 = db_deliveries db" using False by (simp add: insert_event_def)
  have fresh: "row_event_id r \<noteq> eid" if "r \<in> set (db_deliveries db)" for r
    using that False assms(1) by (auto simp: outbox_inv_def rows_ok_def)
  have "events_ok ?db1"
    using assms(1) False unfolding outbox_inv_def events_ok_def insert_event_def
    by (fastforce simp: sorted_wrt_append)
  then have "events_ok ?db2" by (simp add: events_ok_def)
  moreover have "rows_ok ?db2"
    using assms(1) False by (intro insert_deliveries_ok) (auto simp: outbox_inv_def rows_ok_def insert_event_def)
  moreover obtain n where n: "db_deliveries ?db2 = db_deliveries db @ map (new_delivery eid now) (take n ids)"
    using insert_deliveries_rows [of eid now ids ?db1] d1 by auto
  have "tokens_ok ?db2"
    using assms(1) by (intro tokens_ok_append [OF _ n]) (auto simp: outbox_inv_def new_delivery_def)
  moreover have "events_live ?db2"
    unfolding events_live_def
  proof
    fix e assume "e \<in> set (db_events ?db2)"
    then consider "ev_id e = eid" | "e \<in> set (db_events db)"
      using False by (auto simp: insert_event_def)
    then show "\<exists>r \<in> set (db_deliveries ?db2). row_event_id r = ev_id e \<and> row_status r \<noteq> Delivered"
    proof cases
      case 1
      obtain s rest where ids: "ids = s # rest" using assms(2) by (cases ids) auto
      have "\<not> ((\<exists>r \<in> set (db_deliveries ?db1). row_event_id r = eid \<and> row_subscription_id r = s)
          \<or> eid \<notin> ev_id ` set (db_events ?db1))"
        using fresh d1 False by (auto simp: insert_event_def)
      then obtain m where "db_deliveries ?db2 =
          (db_deliveries ?db1 @ [new_delivery eid now s]) @ map (new_delivery eid now) (take m rest)"
        using insert_deliveries_rows [of eid now rest "?db1\<lparr>db_deliveries := db_deliveries ?db1 @ [new_delivery eid now s]\<rparr>"]
        unfolding ids by auto
      then show ?thesis using 1 by (auto simp: new_delivery_def)
    next
      case 2
      then show ?thesis using assms(1) unfolding outbox_inv_def events_live_def n by fastforce
    qed
  qed
  ultimately show ?thesis unfolding res by (simp add: outbox_inv_def)
qed

lemma outbox_inv_app [simp]: "outbox_inv (db\<lparr>db_app := x\<rparr>) = outbox_inv db"
  by (simp add: outbox_inv_def events_ok_def rows_ok_def tokens_ok_def events_live_def)

lemma writes_inv: "writes db db' \<Longrightarrow> outbox_inv db \<Longrightarrow> outbox_inv db'"
  by (induction rule: writes.induct) (simp_all add: insert_publication_inv)

lemma writes_star_inv: "writes\<^sup>*\<^sup>* db db' \<Longrightarrow> outbox_inv db \<Longrightarrow> outbox_inv db'"
  by (induction rule: rtranclp_induct) (auto intro: writes_inv)

subsection \<open>Claiming\<close>

lemma joined_iff: "(r, e) \<in> set (joined db) \<longleftrightarrow>
    r \<in> set (db_deliveries db) \<and> e \<in> set (db_events db) \<and> ev_id e = row_event_id r"
  by (auto simp: joined_def)

lemma joined_event:
  "outbox_inv db \<Longrightarrow> r \<in> set (db_deliveries db) \<Longrightarrow> \<exists>e. (r, e) \<in> set (joined db)"
  unfolding joined_iff outbox_inv_def rows_ok_def by (auto simp: subset_iff image_iff) metis

lemma event_unique:
  "events_ok db \<Longrightarrow> e \<in> set (db_events db) \<Longrightarrow> e' \<in> set (db_events db) \<Longrightarrow> ev_id e = ev_id e' \<Longrightarrow> e = e'"
  unfolding events_ok_def by (metis distinct_map inj_onD)

lemma first_candidate_None [simp]: "first_candidate cs = None \<longleftrightarrow> cs = []"
  by (cases cs) (auto split: option.split)

lemma first_candidate_Some:
  "first_candidate cs = Some c \<Longrightarrow> c \<in> set cs \<and> (\<forall>c' \<in> set cs. candidate_key c \<le> candidate_key c')"
proof (induction cs arbitrary: c)
  case (Cons a cs)
  show ?case
  proof (cases "first_candidate cs")
    case None
    with Cons.prems show ?thesis by simp
  next
    case (Some b)
    note b = Cons.IH [OF Some]
    show ?thesis
    proof (cases "candidate_key b < candidate_key a")
      case True
      with Cons.prems Some b show ?thesis by simp
    next
      case False
      then have "\<forall>c' \<in> set cs. candidate_key a \<le> candidate_key c'" using b by (meson not_le_imp_less order_trans)
      with False Cons.prems Some show ?thesis by simp
    qed
  qed
qed simp

lemma claim_due_fresh:
  fixes now :: gotime and lease :: duration
  assumes "rows_ok db" "Some token \<notin> row_lease_token ` set (db_deliveries db)"
    and "r \<in> set (db_deliveries db)"
  defines "db' \<equiv> snd (update_rows (same_row (row_event_id r) (row_subscription_id r)) (lease_row token now lease) db)"
  shows "find (\<lambda>x. row_lease_token x = Some token) (db_deliveries db') = Some (lease_row token now lease r)"
proof -
  have only: "x = lease_row token now lease r"
    if "x \<in> set (db_deliveries db')" "row_lease_token x = Some token" for x
  proof -
    from that obtain y where y: "y \<in> set (db_deliveries db)"
      "x = (if same_row (row_event_id r) (row_subscription_id r) y then lease_row token now lease y else y)"
      by (auto simp: db'_def)
    have "row_lease_token y \<noteq> Some token" using y(1) assms(2) by (metis image_eqI)
    with y(2) that(2) have "same_row (row_event_id r) (row_subscription_id r) y" by metis
    moreover from this have "y = r"
      using row_unique [OF assms(1) y(1) assms(3)] by (simp add: same_row_def row_key_def)
    ultimately show ?thesis using y(2) by simp
  qed
  have "lease_row token now lease r \<in> set (db_deliveries db')"
    using assms(3) by (auto simp: db'_def same_row_def)
  then have "find (\<lambda>x. row_lease_token x = Some token) (db_deliveries db') \<noteq> None"
    by (auto simp: find_None_iff lease_row_def)
  then obtain x where x: "find (\<lambda>x. row_lease_token x = Some token) (db_deliveries db') = Some x" by auto
  then have "x \<in> set (db_deliveries db')" "row_lease_token x = Some token"
    by (auto simp: find_Some_iff)
  with only x show ?thesis by blast
qed

lemma update_row_count:
  assumes "rows_ok db" "r \<in> set (db_deliveries db)" "P r"
    and "\<And>x. P x \<Longrightarrow> row_key x = row_key r"
  shows "fst (update_rows P f db) = 1"
proof -
  have "P x = (x = r)" if "x \<in> set (db_deliveries db)" for x
    using assms(3,4) row_unique [OF assms(1) that assms(2)] by blast
  then have "filter P (db_deliveries db) = filter (\<lambda>x. x = r) (db_deliveries db)"
    by (intro filter_cong) simp_all
  moreover have "distinct (db_deliveries db)" using assms(1) by (auto simp: rows_ok_def distinct_map)
  moreover have "{x. x = r \<and> x \<in> set (db_deliveries db)} = {r}" using assms(2) by auto
  ultimately show ?thesis
    by (simp add: update_rows_def distinct_length_filter Int_def)
qed

lemma claim_cases:
  assumes "outbox_inv db" "Some token \<notin> row_lease_token ` set (db_deliveries db)"
  shows "claim fault token now lease db =
    (case first_candidate (candidates now db) of
       None \<Rightarrow> (Inl (case fault of None \<Rightarrow> ErrNoRows | Some e \<Rightarrow> e), db)
     | Some (r, e) \<Rightarrow>
         (case fault of
            Some e \<Rightarrow> (Inl e, db)
          | None \<Rightarrow> (Inr \<lparr>d_EventID = row_event_id r, d_SubscriptionID = row_subscription_id r,
                        d_Token = token, d_Attempts = row_attempts r + 1\<rparr>,
                   snd (update_rows (same_row (row_event_id r) (row_subscription_id r))
                     (lease_row token now lease) db))))"
proof (cases "first_candidate (candidates now db)")
  case None
  then show ?thesis by (simp add: claim_def claim_due_def)
next
  case (Some c)
  obtain r e where c: "c = (r, e)" by (cases c)
  have r: "r \<in> set (db_deliveries db)"
    using first_candidate_Some [OF Some] c by (auto simp: candidates_def joined_iff)
  have rows: "rows_ok db" using assms(1) by (simp add: outbox_inv_def)
  let ?P = "same_row (row_event_id r) (row_subscription_id r)"
  have "fst (update_rows ?P (lease_row token now lease) db) = 1"
    by (rule update_row_count [OF rows r]) (auto simp: same_row_def row_key_def)
  moreover note claim_due_fresh [OF rows assms(2) r, of now lease]
  ultimately show ?thesis
    using Some c by (simp add: claim_def claim_due_def Let_def split_beta lease_row_def split: option.split)
qed

lemma claim_inv:
  assumes "outbox_inv db" "Some token \<notin> row_lease_token ` set (db_deliveries db)"
  shows "outbox_inv (snd (claim fault token now lease db))"
proof -
  have "outbox_inv (snd (update_rows (same_row (row_event_id r) (row_subscription_id r))
      (lease_row token now lease) db))" (is "outbox_inv (snd (update_rows ?P ?f db))")
    if r: "r \<in> set (db_deliveries db)" for r
  proof -
    have key: "row_key (?f x) = row_key x" for x by (simp add: lease_row_def row_key_def)
    have "tokens_ok (snd (update_rows ?P ?f db))"
      unfolding tokens_ok_def
    proof (intro ballI impI)
      fix x x' assume "x \<in> set (db_deliveries (snd (update_rows ?P ?f db)))"
        "x' \<in> set (db_deliveries (snd (update_rows ?P ?f db)))"
      then obtain y y' where y: "y \<in> set (db_deliveries db)" "x = (if ?P y then ?f y else y)"
        and y': "y' \<in> set (db_deliveries db)" "x' = (if ?P y' then ?f y' else y')"
        by (auto simp: image_iff)
      assume t: "row_lease_token x \<noteq> None \<and> row_lease_token x = row_lease_token x'"
      have new: "row_lease_token (?f y) = Some token" for y by (simp add: lease_row_def)
      have old: "row_lease_token y \<noteq> Some token" if "y \<in> set (db_deliveries db)" for y
        using assms(2) that by (metis image_eqI)
      consider "?P y" "?P y'" | "\<not> ?P y" "\<not> ?P y'" | "?P y \<noteq> ?P y'" by blast
      then show "row_key x = row_key x'"
      proof cases
        case 1
        then show ?thesis using y y' key by (simp add: same_row_def row_key_def lease_row_def)
      next
        case 2
        then show ?thesis using y y' t assms(1) by (auto simp: outbox_inv_def tokens_ok_def)
      next
        case 3
        then show ?thesis using y y' t new old [OF y(1)] old [OF y'(1)] by (auto split: if_splits)
      qed
    qed
    moreover have "events_live (snd (update_rows ?P ?f db))"
      using assms(1) by (intro update_rows_live) (auto simp: outbox_inv_def lease_row_def row_key_def)
    ultimately show ?thesis
      using assms(1) update_rows_inv [of db ?P ?f]
      by (simp add: outbox_inv_def lease_row_def row_key_def lease_ok_def)
  qed
  then show ?thesis
    unfolding claim_cases [OF assms]
    by (auto simp: assms(1) candidates_def joined_iff split: option.split dest!: first_candidate_Some)
qed

subsection \<open>Acknowledging, failing, replaying and discarding\<close>

lemma count_rows:
  assumes "rows_ok db" "\<And>x y. P x \<Longrightarrow> P y \<Longrightarrow> row_key x = row_key y"
  shows "length (filter P (db_deliveries db)) = (if \<exists>r \<in> set (db_deliveries db). P r then 1 else 0)"
proof (cases "\<exists>r \<in> set (db_deliveries db). P r")
  case True
  then obtain r where r: "r \<in> set (db_deliveries db)" "P r" by blast
  have "fst (update_rows P (\<lambda>r. r) db) = 1"
    by (rule update_row_count [where P = P, OF assms(1) r]) (rule assms(2) [OF _ r(2)])
  with True show ?thesis by (simp add: update_rows_def)
qed (simp add: filter_empty_conv)

lemma update_rows_cases:
  assumes "rows_ok db" "\<And>x y. P x \<Longrightarrow> P y \<Longrightarrow> row_key x = row_key y"
  shows "update_rows P f db =
    (if \<exists>r \<in> set (db_deliveries db). P r then (1, snd (update_rows P f db)) else (0, db))"
proof (cases "\<exists>r \<in> set (db_deliveries db). P r")
  case True
  then show ?thesis using count_rows [of db P, OF assms] by (simp add: update_rows_def)
next
  case False
  then have "map (\<lambda>r. if P r then f r else r) (db_deliveries db) = db_deliveries db"
    by (intro map_idI) simp
  with False show ?thesis by (simp add: update_rows_def)
qed

lemma lease_keys:
  "holds_lease d x \<Longrightarrow> holds_lease d y \<Longrightarrow> row_key x = row_key y"
  "lease_current d now x \<Longrightarrow> lease_current d now y \<Longrightarrow> row_key x = row_key y"
  "failed_row eid sid x \<Longrightarrow> failed_row eid sid y \<Longrightarrow> row_key x = row_key y"
  by (simp_all add: failed_row_def lease_current_def holds_lease_def same_row_def row_key_def)

lemma checkLease_None:
  "rows_ok db \<Longrightarrow> checkLease d now db = None \<longleftrightarrow> (\<exists>r \<in> set (db_deliveries db). lease_current d now r)"
  unfolding checkLease_def by (subst count_rows [OF _ lease_keys(2)]) simp_all

lemma checkLease_Some: "checkLease d now db = Some e \<Longrightarrow> e = ErrLeaseLost"
  by (simp add: checkLease_def split: if_splits)

lemma acknowledge_cases:
  assumes "rows_ok db"
  shows "acknowledge d now db =
    (if \<exists>r \<in> set (db_deliveries db). lease_current d now r
     then (None, deleteCompleted (d_EventID d) (snd (update_rows (lease_current d now) (deliver_row now) db)))
     else (Some ErrLeaseLost, db))"
  unfolding acknowledge_def
  by (subst update_rows_cases [OF assms lease_keys(2)]) (simp_all add: requireChanged_def)

text \<open>The status and the change that \<open>Fail\<close> applies.\<close>

definition fail_status :: "delivery \<Rightarrow> bool \<Rightarrow> nat \<Rightarrow> delivery_status" where
  [outbox_defs]: "fail_status d terminal maxAttempts =
     (if terminal \<or> d_Attempts d \<ge> maxAttempts then Failed else Pending)"

abbreviation fail_row :: "delivery \<Rightarrow> string \<Rightarrow> bool \<Rightarrow> nat \<Rightarrow> gotime \<Rightarrow> delivery_row \<Rightarrow> delivery_row" where
  "fail_row d code terminal maxAttempts now \<equiv>
     release_row (fail_status d terminal maxAttempts) code now (backoff (d_Attempts d))"

lemma fail_cases:
  assumes "rows_ok db"
  shows "fail fault d code terminal maxAttempts now db =
    (if \<exists>r \<in> set (db_deliveries db). holds_lease d r
     then (case fault of
             None \<Rightarrow> (None, snd (update_rows (holds_lease d) (fail_row d code terminal maxAttempts now) db))
           | Some e \<Rightarrow> (Some e, db))
     else (Some ErrLeaseLost, db))"
  unfolding fail_def within_tx_def Let_def fail_status_def [symmetric]
  by (subst update_rows_cases [OF assms lease_keys(1)]) (simp_all add: requireChanged_def)

lemma replay_cases:
  assumes "rows_ok db"
  shows "replay fault eid sid now db =
    (case fault of
       Some e \<Rightarrow> (Some e, db)
     | None \<Rightarrow>
         if \<exists>r \<in> set (db_deliveries db). failed_row eid sid r
         then (None, snd (update_rows (failed_row eid sid) (replay_row now) db))
         else (Some ErrLeaseLost, db))"
  unfolding replay_def
  by (subst update_rows_cases [OF assms lease_keys(3)]) (simp_all add: requireChanged_def split: option.split)

lemma discard_cases:
  assumes "rows_ok db"
  shows "discard fault eid sid now db =
    (if \<exists>r \<in> set (db_deliveries db). failed_row eid sid r
     then (case fault of
             None \<Rightarrow> (None, deleteCompleted eid (snd (update_rows (failed_row eid sid) (discard_row now) db)))
           | Some e \<Rightarrow> (Some e, db))
     else (Some ErrLeaseLost, db))"
  unfolding discard_def within_tx_def
  by (subst update_rows_cases [OF assms lease_keys(3)]) (simp_all add: requireChanged_def)

lemma complete_row_inv:
  assumes "outbox_inv db" "\<And>r. P r \<Longrightarrow> row_event_id r = eid"
    and "\<And>r. P r \<Longrightarrow> row_key (f r) = row_key r" "\<And>r. P r \<Longrightarrow> lease_ok r \<Longrightarrow> lease_ok (f r)"
    and "\<And>r. P r \<Longrightarrow> r \<in> set (db_deliveries db) \<Longrightarrow> row_lease_token (f r) = None"
  shows "outbox_inv (deleteCompleted eid (snd (update_rows P f db)))"
proof (rule deleteCompleted_inv)
  let ?P = "\<lambda>r. P r \<and> r \<in> set (db_deliveries db)"
  have eq: "update_rows P f db = update_rows ?P f db"
    by (simp add: update_rows_def cong: filter_cong)
  show "events_ok (snd (update_rows P f db))" "rows_ok (snd (update_rows P f db))"
    using assms by (simp_all add: update_rows_inv outbox_inv_def)
  show "tokens_ok (snd (update_rows P f db))"
    unfolding eq using assms by (intro update_rows_tokens) (auto simp: outbox_inv_def)
  show "\<forall>e \<in> set (db_events (snd (update_rows P f db))). ev_id e \<noteq> eid \<longrightarrow>
      (\<exists>r \<in> set (db_deliveries (snd (update_rows P f db))). row_event_id r = ev_id e \<and> row_status r \<noteq> Delivered)"
  proof (intro ballI impI)
    fix e assume e: "e \<in> set (db_events (snd (update_rows P f db)))" "ev_id e \<noteq> eid"
    then obtain r where r: "r \<in> set (db_deliveries db)" "row_event_id r = ev_id e" "row_status r \<noteq> Delivered"
      using assms(1) by (auto simp: outbox_inv_def events_live_def)
    moreover from r(2) e(2) assms(2) have "\<not> P r" by metis
    ultimately show "\<exists>r \<in> set (db_deliveries (snd (update_rows P f db))). row_event_id r = ev_id e \<and> row_status r \<noteq> Delivered"
      by (intro bexI [of _ r]) (auto simp: image_iff intro: bexI [of _ r])
  qed
qed

lemma acknowledge_inv: "outbox_inv db \<Longrightarrow> outbox_inv (snd (acknowledge d now db))"
proof -
  assume inv: "outbox_inv db"
  have "outbox_inv (deleteCompleted (d_EventID d) (snd (update_rows (lease_current d now) (deliver_row now) db)))"
    by (rule complete_row_inv [OF inv])
      (auto simp: lease_current_def holds_lease_def same_row_def deliver_row_def row_key_def lease_ok_def)
  with inv show ?thesis by (simp add: acknowledge_cases outbox_inv_def)
qed

lemma failed_no_token:
  "outbox_inv db \<Longrightarrow> r \<in> set (db_deliveries db) \<Longrightarrow> row_status r = Failed \<Longrightarrow> row_lease_token r = None"
  by (auto simp: outbox_inv_def rows_ok_def lease_ok_def)

lemma discard_inv: "outbox_inv db \<Longrightarrow> outbox_inv (snd (discard fault eid sid now db))"
proof -
  assume inv: "outbox_inv db"
  have "outbox_inv (deleteCompleted eid (snd (update_rows (failed_row eid sid) (discard_row now) db)))"
    by (rule complete_row_inv [OF inv])
      (use failed_no_token [OF inv] in \<open>auto simp: failed_row_def discard_row_def same_row_def row_key_def lease_ok_def\<close>)
  with inv show ?thesis by (simp add: discard_cases outbox_inv_def split: option.split)
qed

lemma fail_inv: "outbox_inv db \<Longrightarrow> outbox_inv (snd (fail fault d code terminal maxAttempts now db))"
proof -
  assume inv: "outbox_inv db"
  let ?f = "fail_row d code terminal maxAttempts now"
  have "events_ok (snd (update_rows (holds_lease d) ?f db))" "rows_ok (snd (update_rows (holds_lease d) ?f db))"
    using inv by (auto intro!: update_rows_inv simp: outbox_inv_def release_row_def row_key_def lease_ok_def fail_status_def)
  moreover have "tokens_ok (snd (update_rows (holds_lease d) ?f db))"
    using inv by (intro update_rows_tokens) (auto simp: outbox_inv_def release_row_def row_key_def)
  moreover have "events_live (snd (update_rows (holds_lease d) ?f db))"
    using inv by (intro update_rows_live) (auto simp: outbox_inv_def release_row_def row_key_def fail_status_def)
  ultimately show ?thesis using inv by (simp add: fail_cases outbox_inv_def split: option.split)
qed

lemma replay_inv: "outbox_inv db \<Longrightarrow> outbox_inv (snd (replay fault eid sid now db))"
proof -
  assume inv: "outbox_inv db"
  let ?P = "\<lambda>r. failed_row eid sid r \<and> r \<in> set (db_deliveries db)" and ?f = "replay_row now"
  have eq: "update_rows (failed_row eid sid) ?f db = update_rows ?P ?f db"
    by (simp add: update_rows_def cong: filter_cong)
  have "events_ok (snd (update_rows ?P ?f db))" "rows_ok (snd (update_rows ?P ?f db))"
    using inv by (auto intro!: update_rows_inv simp: outbox_inv_def failed_row_def replay_row_def row_key_def lease_ok_def)
  moreover have "tokens_ok (snd (update_rows ?P ?f db))"
    using inv failed_no_token [OF inv]
    by (intro update_rows_tokens) (auto simp: outbox_inv_def failed_row_def replay_row_def row_key_def)
  moreover have "events_live (snd (update_rows ?P ?f db))"
    using inv by (intro update_rows_live) (auto simp: outbox_inv_def replay_row_def row_key_def)
  ultimately show ?thesis using inv by (simp add: replay_cases eq outbox_inv_def split: option.split)
qed

lemma outbox_step_inv: "outbox_step replays db db' \<Longrightarrow> outbox_inv db \<Longrightarrow> outbox_inv db'"
proof (induction rule: outbox_step.induct)
  case (process d now1 db db' now2 db'')
  have "outbox_inv db'" using writes_star_inv process by blast
  then show ?case using acknowledge_inv [of db' d now2] process by simp
next
  case (acknowledge db fault d now)
  show ?case
    by (rule tx.invariant_by_success [where I = outbox_inv, OF acknowledge])
      (use acknowledge acknowledge_inv [of db d now] in \<open>simp add: within_tx_None\<close>)
qed (auto intro: writes_inv claim_inv fail_inv discard_inv replay_inv)

lemma outbox_init_inv: "outbox_init db \<Longrightarrow> outbox_inv db"
  by (simp add: outbox_init_def outbox_inv_def events_ok_def rows_ok_def tokens_ok_def events_live_def)

interpretation outbox: inductive_invariant outbox_init "outbox_step replays" outbox_inv for replays
  by unfold_locales (auto intro: outbox_step_inv outbox_init_inv)

section \<open>Order of deliveries\<close>

text \<open>A delivery in processing is the first active one of its subscription.\<close>

definition fifo :: "'a outbox_db \<Rightarrow> bool" where
  "fifo db \<longleftrightarrow> (\<forall>(r, e) \<in> set (joined db). \<forall>(r', e') \<in> set (joined db).
     row_subscription_id r = row_subscription_id r' \<and> row_status r = Processing \<and> active r' \<longrightarrow>
     ev_sequence e \<le> ev_sequence e')"

lemma fifoD:
  "fifo db \<Longrightarrow> (r, e) \<in> set (joined db) \<Longrightarrow> (r', e') \<in> set (joined db) \<Longrightarrow>
    row_subscription_id r = row_subscription_id r' \<Longrightarrow> row_status r = Processing \<Longrightarrow> active r' \<Longrightarrow>
    ev_sequence e \<le> ev_sequence e'"
  unfolding fifo_def by fast

lemma fifoI:
  assumes "\<And>r e r' e'. (r, e) \<in> set (joined db) \<Longrightarrow> (r', e') \<in> set (joined db) \<Longrightarrow>
    row_subscription_id r = row_subscription_id r' \<Longrightarrow> row_status r = Processing \<Longrightarrow> active r' \<Longrightarrow>
    ev_sequence e \<le> ev_sequence e'"
  shows "fifo db"
  unfolding fifo_def using assms by fast

lemma fifo_weaken:
  assumes "fifo db"
    and "\<And>x e. (x, e) \<in> set (joined db') \<Longrightarrow> \<exists>r. (r, e) \<in> set (joined db) \<and>
      row_subscription_id r = row_subscription_id x \<and>
      (row_status x = Processing \<longrightarrow> row_status r = Processing) \<and> (active x \<longrightarrow> active r)"
  shows "fifo db'"
proof (rule fifoI)
  fix x e x' e' assume a: "(x, e) \<in> set (joined db')" "(x', e') \<in> set (joined db')"
    "row_subscription_id x = row_subscription_id x'" "row_status x = Processing" "active x'"
  obtain r r' where "(r, e) \<in> set (joined db)" "row_subscription_id r = row_subscription_id x" "row_status r = Processing"
    "(r', e') \<in> set (joined db)" "row_subscription_id r' = row_subscription_id x'" "active r'"
    using assms(2) [OF a(1)] assms(2) [OF a(2)] a(4,5) by blast
  then show "ev_sequence e \<le> ev_sequence e'" using fifoD [OF assms(1)] a(3) by metis
qed

lemma joined_update:
  assumes "(x, e) \<in> set (joined (snd (update_rows P f db)))" "\<And>r. P r \<Longrightarrow> row_key (f r) = row_key r"
  obtains r where "(r, e) \<in> set (joined db)" "x = (if P r then f r else r)"
    "row_subscription_id x = row_subscription_id r"
proof -
  from assms(1) obtain r where r: "r \<in> set (db_deliveries db)" "x = (if P r then f r else r)"
    "e \<in> set (db_events db)" "ev_id e = row_event_id x"
    by (auto simp: joined_iff image_iff)
  then have "row_event_id x = row_event_id r" "row_subscription_id x = row_subscription_id r"
    using assms(2) [of r] by (auto simp: row_key_def)
  with r that [of r] show ?thesis by (simp add: joined_iff)
qed

lemma fifo_update:
  assumes "fifo db" "\<And>r. P r \<Longrightarrow> row_key (f r) = row_key r"
    and "\<And>r. P r \<Longrightarrow> row_status (f r) \<noteq> Processing" "\<And>r. P r \<Longrightarrow> active (f r) \<Longrightarrow> active r"
  shows "fifo (snd (update_rows P f db))"
proof (rule fifo_weaken [OF assms(1)])
  fix x e assume "(x, e) \<in> set (joined (snd (update_rows P f db)))"
  then obtain r where "(r, e) \<in> set (joined db)" "x = (if P r then f r else r)"
    "row_subscription_id x = row_subscription_id r"
    using assms(2) by (rule joined_update)
  with assms(3,4) [of r] show "\<exists>r. (r, e) \<in> set (joined db) \<and> row_subscription_id r = row_subscription_id x \<and>
      (row_status x = Processing \<longrightarrow> row_status r = Processing) \<and> (active x \<longrightarrow> active r)"
    by (auto split: if_splits)
qed

lemma fifo_delete: "fifo db \<Longrightarrow> fifo (deleteCompleted eid db)"
  by (rule fifo_weaken) (auto simp: joined_iff deleteCompleted_def Let_def)

lemma fifo_publication:
  assumes "outbox_inv db" "fifo db"
  shows "fifo (snd (insert_publication eid typ version now cause payload traceparent ids db))"
proof (cases "eid \<in> ev_id ` set (db_events db)")
  case True
  then show ?thesis using assms by (simp add: insert_publication_def insert_event_def)
next
  case False
  let ?db1 = "snd (insert_event eid typ version now cause payload traceparent db)"
  let ?db2 = "snd (insert_deliveries eid now ids ?db1)"
  have res: "snd (insert_publication eid typ version now cause payload traceparent ids db) = ?db2"
    using False by (simp add: insert_publication_def insert_event_def)
  obtain n where n: "db_deliveries ?db2 = db_deliveries db @ map (new_delivery eid now) (take n ids)"
    using insert_deliveries_rows [of eid now ids ?db1] False by (auto simp: insert_event_def)
  obtain ev where ev: "db_events ?db2 = db_events db @ [ev]" "ev_id ev = eid" "ev_sequence ev = Suc (db_sequence db)"
    using False by (simp add: insert_event_def)
  have old: "(r, e) \<in> set (joined db) \<or> (row_status r = Pending \<and> db_sequence db < ev_sequence e)"
    if "(r, e) \<in> set (joined ?db2)" for r e
  proof -
    have fk: "row_event_id r \<noteq> eid" if "r \<in> set (db_deliveries db)"
      using that False assms(1) by (auto simp: outbox_inv_def rows_ok_def)
    from that have "r \<in> set (db_deliveries db) \<or> (row_status r = Pending \<and> row_event_id r = eid)"
      "e \<in> set (db_events db) \<or> e = ev" "ev_id e = row_event_id r"
      unfolding joined_iff n ev by (auto simp: new_delivery_def)
    moreover have "e \<in> set (db_events db) \<Longrightarrow> ev_id e \<noteq> eid" using False by auto
    ultimately show ?thesis using fk ev(2,3) by (auto simp: joined_iff)
  qed
  have low: "ev_sequence e \<le> db_sequence db" if "(r, e) \<in> set (joined db)" for r e
    using that assms(1) by (auto simp: joined_iff outbox_inv_def events_ok_def)
  show ?thesis unfolding res
  proof (rule fifoI)
    fix r e r' e' assume a: "(r, e) \<in> set (joined ?db2)" "(r', e') \<in> set (joined ?db2)"
      "row_subscription_id r = row_subscription_id r'" "row_status r = Processing" "active r'"
    have r: "(r, e) \<in> set (joined db)" using old [OF a(1)] a(4) by simp
    show "ev_sequence e \<le> ev_sequence e'"
      using old [OF a(2)] fifoD [OF assms(2) r _ a(3,4,5)] low [OF r] by (meson le_less_trans less_imp_le)
  qed
qed

lemma fifo_app [simp]: "fifo (db\<lparr>db_app := x\<rparr>) = fifo db"
  by (simp add: fifo_def joined_def)

lemma writes_fifo: "writes db db' \<Longrightarrow> outbox_inv db \<Longrightarrow> fifo db \<Longrightarrow> fifo db'"
  by (induction rule: writes.induct) (simp_all add: fifo_publication)

lemma writes_star_fifo: "writes\<^sup>*\<^sup>* db db' \<Longrightarrow> outbox_inv db \<Longrightarrow> fifo db \<Longrightarrow> fifo db'"
  by (induction rule: rtranclp_induct) (auto intro: writes_fifo writes_star_inv)

lemma acknowledge_fifo: "outbox_inv db \<Longrightarrow> fifo db \<Longrightarrow> fifo (snd (acknowledge d now db))"
  by (auto simp: acknowledge_cases outbox_inv_def deliver_row_def row_key_def active_def intro!: fifo_delete fifo_update)

lemma claim_fifo:
  assumes "outbox_inv db" "Some token \<notin> row_lease_token ` set (db_deliveries db)" "fifo db"
  shows "fifo (snd (claim fault token now lease db))"
proof -
  have "fifo (snd (update_rows (same_row (row_event_id c) (row_subscription_id c)) (lease_row token now lease) db))"
    (is "fifo (snd (update_rows ?P ?f db))")
    if c: "(c, ce) \<in> set (candidates now db)" for c ce
  proof (rule fifoI)
    have cj: "(c, ce) \<in> set (joined db)" "active c" "\<not> earlier_active db (c, ce)"
      using c by (auto simp: candidates_def due_now_def active_def)
    have first: "ev_sequence ce \<le> ev_sequence e'"
      if "(r', e') \<in> set (joined db)" "row_subscription_id c = row_subscription_id r'" "active r'" for r' e'
      using cj(3) that unfolding earlier_active_def by (auto simp: not_less split: prod.splits)
    have key: "row_key (?f r) = row_key r" for r by (simp add: lease_row_def row_key_def)
    have same: "r = c \<and> e = ce" if "?P r" "(r, e) \<in> set (joined db)" for r e
    proof -
      have "r = c" using that cj(1) assms(1)
        by (intro row_unique [of db]) (auto simp: outbox_inv_def joined_iff same_row_def row_key_def)
      moreover have "e = ce" using that cj(1) assms(1) \<open>r = c\<close>
        by (intro event_unique [of db]) (auto simp: outbox_inv_def joined_iff)
      ultimately show ?thesis by simp
    qed
    fix x e x' e' assume a: "(x, e) \<in> set (joined (snd (update_rows ?P ?f db)))"
      "(x', e') \<in> set (joined (snd (update_rows ?P ?f db)))"
      "row_subscription_id x = row_subscription_id x'" "row_status x = Processing" "active x'"
    obtain r where r: "(r, e) \<in> set (joined db)" "x = (if ?P r then ?f r else r)"
      "row_subscription_id x = row_subscription_id r"
      by (rule joined_update [OF a(1) key])
    obtain r' where r': "(r', e') \<in> set (joined db)" "x' = (if ?P r' then ?f r' else r')"
      "row_subscription_id x' = row_subscription_id r'"
      by (rule joined_update [OF a(2) key])
    have act: "active r'" using same [OF _ r'(1)] cj(2) a(5) r'(2) by (cases "?P r'") auto
    have sub: "row_subscription_id r = row_subscription_id r'" using a(3) r(3) r'(3) by simp
    show "ev_sequence e \<le> ev_sequence e'"
    proof (cases "?P r")
      case True
      then show ?thesis using same [OF True r(1)] first [OF r'(1) _ act] sub by simp
    next
      case False
      then show ?thesis using fifoD [OF assms(3) r(1) r'(1) sub _ act] r(2) a(4) by simp
    qed
  qed
  then show ?thesis
    unfolding claim_cases [OF assms(1,2)]
    by (auto simp: assms(3) split: option.split dest!: first_candidate_Some)
qed

lemma outbox_step_fifo: "outbox_step False db db' \<Longrightarrow> outbox_inv db \<Longrightarrow> fifo db \<Longrightarrow> fifo db'"
proof (induction rule: outbox_step.induct)
  case (process d now1 db db' now2 db'')
  then show ?case
    using acknowledge_fifo [of db' d now2] writes_star_inv writes_star_fifo by (metis snd_conv)
next
  case (acknowledge db fault d now)
  show ?case
    by (rule tx.invariant_by_success [where I = fifo, OF acknowledge(2)])
      (use acknowledge acknowledge_fifo [of db d now] in \<open>simp add: within_tx_None\<close>)
next
  case (fail db fault d code terminal maxAttempts now)
  then show ?case
    by (auto simp: fail_cases outbox_inv_def release_row_def row_key_def active_def fail_status_def holds_lease_def
        split: option.split intro!: fifo_update)
next
  case (discard db fault eid sid now)
  then show ?case
    by (auto simp: discard_cases outbox_inv_def discard_row_def row_key_def active_def
        split: option.split intro!: fifo_delete fifo_update)
qed (auto intro: writes_fifo claim_fifo)

lemma outbox_init_fifo: "outbox_init db \<Longrightarrow> fifo db"
  by (simp add: outbox_init_def fifo_def joined_def)

interpretation outbox_fifo: inductive_invariant outbox_init "outbox_step False" "\<lambda>db. outbox_inv db \<and> fifo db"
  by unfold_locales (blast intro: outbox_step_inv outbox_step_fifo outbox_init_inv outbox_init_fifo)+

lemma processing_unique:
  assumes "outbox_inv db" "fifo db" "r \<in> set (db_deliveries db)" "r' \<in> set (db_deliveries db)"
    "row_subscription_id r = row_subscription_id r'" "row_status r = Processing" "row_status r' = Processing"
  shows "r = r'"
proof -
  obtain e e' where j: "(r, e) \<in> set (joined db)" "(r', e') \<in> set (joined db)"
    using joined_event [OF assms(1)] assms(3,4) by blast
  then have "ev_sequence e = ev_sequence e'"
    using fifoD [OF assms(2) j] fifoD [OF assms(2) j(2,1)] assms(5-7) by (simp add: active_def)
  moreover have "distinct (map ev_sequence (db_events db))"
    using assms(1) by (simp add: outbox_inv_def events_ok_def strict_sorted_iff)
  ultimately have "e = e'" using j by (auto simp: joined_iff distinct_map dest: inj_onD)
  then show ?thesis
    using row_unique [of db r r'] assms j by (simp add: outbox_inv_def joined_iff row_key_def)
qed

section \<open>Nothing is lost\<close>

text \<open>
  What a transition may do to a delivery that is not yet delivered: keep it, or remove it together
  with its event when it was in processing or parked and every other delivery of the event is done.
  A delivered one stays delivered until it is removed.
\<close>

definition keeps_row :: "'a outbox_db \<Rightarrow> 'a outbox_db \<Rightarrow> delivery_row \<Rightarrow> bool" where
  "keeps_row db db' r \<longleftrightarrow>
     (\<exists>r' \<in> set (db_deliveries db'). row_key r' = row_key r \<and>
        (row_status r = Delivered \<longrightarrow> row_status r' = Delivered)) \<or>
     (row_status r \<noteq> Pending \<and> row_event_id r \<notin> ev_id ` set (db_events db') \<and>
      (\<forall>s \<in> set (db_deliveries db). row_event_id s = row_event_id r \<and> row_key s \<noteq> row_key r \<longrightarrow>
         row_status s = Delivered \<or> row_status r = Delivered))"

lemma keeps_row_subset:
  "set (db_deliveries db) \<subseteq> set (db_deliveries db') \<Longrightarrow> r \<in> set (db_deliveries db) \<Longrightarrow> keeps_row db db' r"
  unfolding keeps_row_def by blast

lemma keeps_row_update:
  assumes "r \<in> set (db_deliveries db)" "\<And>r. P r \<Longrightarrow> row_key (f r) = row_key r"
    and "\<And>r. P r \<Longrightarrow> row_status r \<noteq> Delivered"
  shows "keeps_row db (snd (update_rows P f db)) r"
proof -
  have "(if P r then f r else r) \<in> set (db_deliveries (snd (update_rows P f db)))"
    using assms(1) by auto
  then show ?thesis unfolding keeps_row_def using assms(2,3) by (metis (full_types))
qed

lemma keeps_row_complete:
  assumes "outbox_inv db" "r \<in> set (db_deliveries db)" "\<And>r. P r \<Longrightarrow> row_key (f r) = row_key r"
    and "\<And>r. P r \<Longrightarrow> row_status r \<noteq> Delivered \<and> row_status r \<noteq> Pending \<and> row_status (f r) = Delivered"
    and "\<And>x y. P x \<Longrightarrow> P y \<Longrightarrow> row_key x = row_key y" "\<And>x. P x \<Longrightarrow> row_event_id x = eid"
  shows "keeps_row db (deleteCompleted eid (snd (update_rows P f db))) r"
proof -
  let ?db = "snd (update_rows P f db)" and ?g = "\<lambda>r. if P r then f r else r"
  have rows: "rows_ok ?db" if "\<And>r. P r \<Longrightarrow> lease_ok r \<Longrightarrow> lease_ok (f r)"
    using update_rows_inv(2) [of db P f] assms(1,3) that by (simp add: outbox_inv_def)
  have key: "row_key (?g x) = row_key x" for x using assms(3) by simp
  have eid: "row_event_id (?g x) = row_event_id x" for x using key [of x] by (simp add: row_key_def)
  have fk: "row_event_id ` set (db_deliveries ?db) \<subseteq> ev_id ` set (db_events ?db)"
  proof -
    have "row_event_id ` set (db_deliveries ?db) = row_event_id ` set (db_deliveries db)"
      unfolding update_rows_fields set_map image_image by (simp only: eid)
    then show ?thesis using assms(1) by (simp add: outbox_inv_def rows_ok_def)
  qed
  have upd: "keeps_row db ?db r"
    by (rule keeps_row_update [where P = P, OF assms(2,3)]) (auto dest: assms(4))
  show ?thesis
  proof (cases "completed eid ?db \<and> row_event_id r = eid")
    case True
    have dlv: "row_status (?g s) = Delivered" if "s \<in> set (db_deliveries db)" "row_event_id s = eid" for s
    proof -
      have "?g s \<in> set (db_deliveries ?db)" using that(1) by auto
      moreover have "row_event_id (?g s) = eid" using that(2) eid [of s] by simp
      ultimately show ?thesis by (rule completedD [OF conjunct1 [OF True]])
    qed
    have "row_event_id r \<notin> ev_id ` set (db_events (deleteCompleted eid ?db))"
      using True by (auto simp: deleteCompleted_eq [OF fk])
    moreover have "row_status r \<noteq> Pending" using dlv [OF assms(2)] True assms(4) [of r] by (cases "P r") auto
    moreover have "row_status s = Delivered \<or> row_status r = Delivered"
      if s: "s \<in> set (db_deliveries db)" "row_event_id s = row_event_id r" "row_key s \<noteq> row_key r" for s
    proof (cases "P r")
      case P: True
      then have "\<not> P s" using assms(5) s(3) by blast
      then show ?thesis using dlv [OF s(1)] s(2) True by simp
    next
      case False
      then show ?thesis using dlv [OF assms(2)] True by simp
    qed
    ultimately show ?thesis unfolding keeps_row_def by blast
  next
    case False
    then have "r' \<in> set (db_deliveries (deleteCompleted eid ?db))"
      if "r' \<in> set (db_deliveries ?db)" "row_key r' = row_key r" for r'
      using that by (auto simp: deleteCompleted_eq [OF fk] row_key_def)
    moreover have "\<exists>r' \<in> set (db_deliveries ?db). row_key r' = row_key r \<and>
        (row_status r = Delivered \<longrightarrow> row_status r' = Delivered)"
    proof (intro bexI conjI impI)
      show "?g r \<in> set (db_deliveries ?db)" using assms(2) by auto
      show "row_key (?g r) = row_key r" by (rule key)
      show "row_status (?g r) = Delivered" if "row_status r = Delivered" using that assms(4) [of r] by auto
    qed
    ultimately show ?thesis unfolding keeps_row_def by blast
  qed
qed

lemma writes_rows: "writes db db' \<Longrightarrow> set (db_deliveries db) \<subseteq> set (db_deliveries db')"
proof (induction rule: writes.induct)
  case (publish ids db eid ty version now cause payload traceparent)
  show ?case
  proof (cases "eid \<in> ev_id ` set (db_events db)")
    case False
    then show ?thesis
      using insert_deliveries_rows [of eid now ids "snd (insert_event eid ty version now cause payload traceparent db)"]
      by (auto simp: insert_publication_def insert_event_def)
  qed (simp add: insert_publication_def insert_event_def)
qed simp

lemma writes_star_rows: "writes\<^sup>*\<^sup>* db db' \<Longrightarrow> set (db_deliveries db) \<subseteq> set (db_deliveries db')"
  by (induction rule: rtranclp_induct) (blast dest: writes_rows)+

lemma acknowledge_keeps:
  assumes "outbox_inv db" "r \<in> set (db_deliveries db)"
  shows "keeps_row db (snd (acknowledge d now db)) r"
proof -
  have "keeps_row db (deleteCompleted (d_EventID d) (snd (update_rows (lease_current d now) (deliver_row now) db))) r"
    by (rule keeps_row_complete [OF assms])
      (auto simp: lease_current_def holds_lease_def same_row_def deliver_row_def row_key_def)
  then show ?thesis
    using assms by (auto simp: acknowledge_cases outbox_inv_def intro: keeps_row_subset)
qed

lemma update_rows_cong:
  "(\<And>x. x \<in> set (db_deliveries db) \<Longrightarrow> P x = Q x) \<Longrightarrow> update_rows P f db = update_rows Q f db"
  by (simp add: update_rows_def cong: filter_cong map_cong)

text \<open>The claimed row is the only one with its key.\<close>

lemma claim_row:
  assumes "outbox_inv db" "(c, e) \<in> set (candidates now db)"
  shows "update_rows (same_row (row_event_id c) (row_subscription_id c)) f db = update_rows (\<lambda>x. x = c) f db"
  using assms row_unique [of db] by (intro update_rows_cong)
    (auto simp: candidates_def joined_iff outbox_inv_def same_row_def row_key_def)

lemma outbox_step_keeps:
  "outbox_step replays db db' \<Longrightarrow> outbox_inv db \<Longrightarrow> r \<in> set (db_deliveries db) \<Longrightarrow> keeps_row db db' r"
proof (induction rule: outbox_step.induct)
  case (app_write db db')
  then show ?case using writes_rows keeps_row_subset by blast
next
  case (claim token db fault now lease)
  have upd: "keeps_row db (snd (update_rows (same_row (row_event_id c) (row_subscription_id c))
      (lease_row token now lease) db)) r" if "(c, e) \<in> set (candidates now db)" for c e
    unfolding claim_row [OF claim(2) that]
    by (rule keeps_row_update [OF claim(3)])
      (use that in \<open>auto simp: lease_row_def row_key_def candidates_def due_now_def\<close>)
  show ?case
    unfolding claim_cases [OF claim(2,1)]
    by (auto intro: upd keeps_row_subset [OF _ claim(3)] dest!: first_candidate_Some split: option.split)
next
  case (process d now1 db db' now2 db'')
  have sub: "set (db_deliveries db) \<subseteq> set (db_deliveries db')" using writes_star_rows process(2) .
  then have "keeps_row db' db'' r"
    using acknowledge_keeps [of db' r d now2] writes_star_inv process by auto
  then show ?case using sub unfolding keeps_row_def by blast
next
  case (acknowledge db fault d now)
  then show ?case
    using acknowledge_keeps [of db r d now] keeps_row_subset [of db db r]
    by (auto simp: within_tx_def split: prod.split option.split)
next
  case (fail db fault d code terminal maxAttempts now)
  have "keeps_row db (snd (update_rows (holds_lease d) (fail_row d code terminal maxAttempts now) db)) r"
    by (rule keeps_row_update [OF fail(2)]) (auto simp: release_row_def row_key_def holds_lease_def)
  then show ?case
    using fail keeps_row_subset [of db db r] by (auto simp: fail_cases outbox_inv_def split: option.split)
next
  case (discard db fault eid sid now)
  have "keeps_row db (deleteCompleted eid (snd (update_rows (failed_row eid sid) (discard_row now) db))) r"
    by (rule keeps_row_complete [OF discard])
      (auto simp: failed_row_def same_row_def discard_row_def row_key_def)
  then show ?case
    using discard keeps_row_subset [of db db r] by (auto simp: discard_cases outbox_inv_def split: option.split)
next
  case (replay db fault eid sid now)
  have "keeps_row db (snd (update_rows (failed_row eid sid) (replay_row now) db)) r"
    by (rule keeps_row_update [OF replay(3)]) (auto simp: replay_row_def row_key_def failed_row_def)
  then show ?case
    using replay keeps_row_subset [of db db r] by (auto simp: replay_cases outbox_inv_def split: option.split)
qed

section \<open>The worker\<close>

lemma process_internal_rollback:
  "process_internal fault now1 now2 handler env d db = (Some e, db') \<Longrightarrow> db' = db"
  unfolding process_internal_def by (rule tx.rollback)

lemma process_internal_step:
  assumes "outbox_inv db" "benign handler"
    and "process_internal fault now1 now2 handler env d db = (None, db')"
  shows "\<exists>db1. h_Handle handler env db = (HandlerOk, db1) \<and> checkLease d now1 db = None \<and>
    writes\<^sup>*\<^sup>* db db1 \<and> acknowledge d now2 db1 = (None, db') \<and> fault = None"
proof -
  obtain res db1 where h: "h_Handle handler env db = (res, db1)" by (cases "h_Handle handler env db")
  have "writes\<^sup>*\<^sup>* db db1" using assms(2) h by (metis benign_def snd_conv)
  then show ?thesis
    using assms(3) h unfolding process_internal_def within_tx_None
    by (auto simp: invoke_def split: option.splits handler_result.splits)
qed

lemma acknowledge_gone:
  assumes "outbox_inv db" "acknowledge d now db = (None, db')" "r \<in> set (db_deliveries db')"
    "row_key r = (d_EventID d, d_SubscriptionID d)"
  shows "row_status r = Delivered"
proof -
  have ex: "\<exists>r \<in> set (db_deliveries db). lease_current d now r" and
    db': "db' = deleteCompleted (d_EventID d) (snd (update_rows (lease_current d now) (deliver_row now) db))"
    using assms(1,2) by (auto simp: acknowledge_cases outbox_inv_def split: if_splits)
  from ex obtain c where c: "c \<in> set (db_deliveries db)" "lease_current d now c" by blast
  have "r \<in> set (db_deliveries (snd (update_rows (lease_current d now) (deliver_row now) db)))"
    using assms(3) unfolding db' deleteCompleted_def Let_def by auto
  then obtain x where x: "x \<in> set (db_deliveries db)" "r = (if lease_current d now x then deliver_row now x else x)"
    by (auto simp: image_iff)
  then have "row_key x = row_key r" by (simp add: deliver_row_def row_key_def)
  then have "row_key x = row_key c"
    using assms(4) c(2) by (simp add: lease_current_def holds_lease_def same_row_def row_key_def)
  then have "x = c" using row_unique [of db x c] assms(1) c(1) x(1) by (simp add: outbox_inv_def)
  with c(2) x(2) show ?thesis by (simp add: deliver_row_def)
qed

lemma acknowledge_app: "acknowledge d now db = (None, db') \<Longrightarrow> db_app db' = db_app db"
  by (auto simp: acknowledge_def requireChanged_def update_rows_def Let_def split: if_splits prod.splits)

lemma lease_holds: "lease_current d now r \<Longrightarrow> holds_lease d r"
  by (simp add: lease_current_def)

text \<open>A ticket without a current lease changes nothing.\<close>

lemma fenced:
  assumes "rows_ok db" "\<not> (\<exists>r \<in> set (db_deliveries db). lease_current d now r)"
  shows "checkLease d now db = Some ErrLeaseLost"
    and "within_tx fault (acknowledge d now) db = (Some ErrLeaseLost, db)"
    and "process_internal fault now now2 handler env d db = (Some ErrLeaseLost, db)"
    and "process_external fault now now2 handler env d db = (Some ErrLeaseLost, db)"
proof -
  have "checkLease d now db \<noteq> None" using assms by (simp add: checkLease_None)
  then show check: "checkLease d now db = Some ErrLeaseLost" using checkLease_Some [of d now db] by auto
  show "within_tx fault (acknowledge d now) db = (Some ErrLeaseLost, db)"
    using assms by (simp add: within_tx_def acknowledge_cases)
  show "process_internal fault now now2 handler env d db = (Some ErrLeaseLost, db)"
    "process_external fault now now2 handler env d db = (Some ErrLeaseLost, db)"
    by (simp_all add: process_internal_def process_external_def within_tx_def check)
qed

lemma claim_other_token:
  assumes "outbox_inv db" "Some token \<notin> row_lease_token ` set (db_deliveries db)"
    and "claim None token now lease db = (Inr d', db')"
    and "d_EventID d = d_EventID d'" "d_SubscriptionID d = d_SubscriptionID d'" "d_Token d \<noteq> token"
  shows "\<not> (\<exists>r \<in> set (db_deliveries db'). holds_lease d r)"
proof -
  obtain c e where c: "first_candidate (candidates now db) = Some (c, e)"
    using assms(3) by (cases "first_candidate (candidates now db)") (auto simp: claim_cases [OF assms(1,2)])
  have cand: "(c, e) \<in> set (candidates now db)" using first_candidate_Some [OF c] by simp
  have key: "d_EventID d = row_event_id c" "d_SubscriptionID d = row_subscription_id c"
    and db': "db' = snd (update_rows (\<lambda>x. x = c) (lease_row token now lease) db)"
    using assms(3-5) by (auto simp: claim_cases [OF assms(1,2)] c claim_row [OF assms(1) cand])
  have "\<not> holds_lease d x" if "x \<in> set (db_deliveries db)" "x \<noteq> c" for x
    using that cand row_unique [of db x c] assms(1) key
    by (auto simp: holds_lease_def same_row_def row_key_def outbox_inv_def candidates_def joined_iff)
  moreover have "\<not> holds_lease d (lease_row token now lease c)"
    using assms(6) by (auto simp: holds_lease_def lease_row_def)
  ultimately show ?thesis by (auto simp: db')
qed

lemma token_unique:
  assumes "outbox_inv db" "c \<in> set (db_deliveries db)" "x \<in> set (db_deliveries db)"
    "row_lease_token c = Some t" "row_lease_token x = Some t"
  shows "c = x"
proof -
  have "row_key c = row_key x"
    using assms unfolding outbox_inv_def tokens_ok_def by (metis option.distinct(1))
  then show ?thesis using row_unique [OF _ assms(2,3)] assms(1) by (simp add: outbox_inv_def)
qed

lemma acknowledge_token:
  assumes "outbox_inv db" "acknowledge d now db = (None, db')"
  shows "Some (d_Token d) \<notin> row_lease_token ` set (db_deliveries db')"
proof
  assume "Some (d_Token d) \<in> row_lease_token ` set (db_deliveries db')"
  then obtain x where x: "x \<in> set (db_deliveries db')" "row_lease_token x = Some (d_Token d)" by auto
  obtain c where c: "c \<in> set (db_deliveries db)" "lease_current d now c"
    and db': "db' = deleteCompleted (d_EventID d) (snd (update_rows (lease_current d now) (deliver_row now) db))"
    using assms by (auto simp: acknowledge_cases outbox_inv_def split: if_splits)
  have "x \<in> set (db_deliveries (snd (update_rows (lease_current d now) (deliver_row now) db)))"
    using x(1) unfolding db' deleteCompleted_def Let_def by auto
  then have y: "x \<in> set (db_deliveries db)" "\<not> lease_current d now x"
    using x(2) by (auto simp: deliver_row_def split: if_splits)
  have "row_lease_token c = Some (d_Token d)" using c(2) by (simp add: lease_current_def holds_lease_def)
  then have "c = x" using token_unique [OF assms(1) c(1) y(1)] x(2) by simp
  with c y show False by simp
qed

lemma fail_token:
  assumes "outbox_inv db" "fail fault d code terminal maxAttempts now db = (None, db')"
  shows "Some (d_Token d) \<notin> row_lease_token ` set (db_deliveries db')"
proof
  assume "Some (d_Token d) \<in> row_lease_token ` set (db_deliveries db')"
  then obtain x where x: "x \<in> set (db_deliveries db')" "row_lease_token x = Some (d_Token d)" by auto
  obtain c where c: "c \<in> set (db_deliveries db)" "holds_lease d c"
    and db': "db' = snd (update_rows (holds_lease d) (fail_row d code terminal maxAttempts now) db)"
    using assms by (auto simp: fail_cases outbox_inv_def split: if_splits option.splits)
  have y: "x \<in> set (db_deliveries db)" "\<not> holds_lease d x"
    using x unfolding db' by (auto simp: release_row_def split: if_splits)
  have "row_lease_token c = Some (d_Token d)" using c(2) by (simp add: holds_lease_def)
  then have "c = x" using token_unique [OF assms(1) c(1) y(1)] x(2) by simp
  with c y show False by simp
qed

lemma invoke_writes: "benign handler \<Longrightarrow> writes\<^sup>*\<^sup>* db (snd (invoke handler env db))"
proof -
  assume "benign handler"
  then have "writes\<^sup>*\<^sup>* db (snd (h_Handle handler env db))" by (simp add: benign_def)
  moreover obtain r db' where "h_Handle handler env db = (r, db')" by (cases "h_Handle handler env db")
  ultimately show ?thesis by (cases r) (simp_all add: invoke_def)
qed

lemma process_outcome:
  assumes "outbox_inv db" "\<And>ty sid handler. resolve ty sid = Some handler \<Longrightarrow> benign handler"
    and "process decode resolve fault now1 now2 d db = (res, db')"
  shows "outbox_inv db'" "res = None \<Longrightarrow> Some (d_Token d) \<notin> row_lease_token ` set (db_deliveries db')"
proof -
  have ext: "outbox_inv db' \<and> (res = None \<longrightarrow> Some (d_Token d) \<notin> row_lease_token ` set (db_deliveries db'))"
    if h: "benign handler" "process_external fault now1 now2 handler env d db = (res, db')" for handler env
  proof (cases "checkLease d now1 db")
    case (Some e)
    then show ?thesis using h(2) assms(1) by (auto simp: process_external_def)
  next
    case None
    obtain r db1 where i: "invoke handler env db = (r, db1)" by (cases "invoke handler env db")
    have inv1: "outbox_inv db1" using writes_star_inv [OF invoke_writes [OF h(1)] assms(1)] i by (metis snd_conv)
    show ?thesis
    proof (cases r)
      case (Some e)
      then show ?thesis using h(2) i None inv1 by (auto simp: process_external_def)
    next
      case r: None
      have "within_tx fault (acknowledge d now2) db1 = (res, db')"
        using h(2) i None r by (simp add: process_external_def)
      then have "(res = None \<and> acknowledge d now2 db1 = (None, db')) \<or> (res \<noteq> None \<and> db' = db1)"
        using tx.rollback [of fault "acknowledge d now2" db1] by (cases res) (auto simp: within_tx_None)
      then show ?thesis
        using inv1 acknowledge_inv [OF inv1, of d now2] acknowledge_token [OF inv1, of d now2 db'] by auto
    qed
  qed
  have int: "outbox_inv db' \<and> (res = None \<longrightarrow> Some (d_Token d) \<notin> row_lease_token ` set (db_deliveries db'))"
    if h: "benign handler" "process_internal fault now1 now2 handler env d db = (res, db')" for handler env
  proof (cases res)
    case (Some e)
    with h(2) have "db' = db" by (simp add: process_internal_rollback)
    with Some assms(1) show ?thesis by simp
  next
    case None
    with process_internal_step [OF assms(1) h(1)] h(2) obtain db1 where
      w: "writes\<^sup>*\<^sup>* db db1" "acknowledge d now2 db1 = (None, db')" by blast
    have inv1: "outbox_inv db1" by (rule writes_star_inv [OF w(1) assms(1)])
    show ?thesis
      using acknowledge_inv [OF inv1, of d now2] acknowledge_token [OF inv1 w(2)] w(2) by simp
  qed
  have "outbox_inv db' \<and> (res = None \<longrightarrow> Some (d_Token d) \<notin> row_lease_token ` set (db_deliveries db'))"
  proof (cases "load decode d db")
    case (Inl e)
    then show ?thesis using assms(1,3) by (auto simp: process_def split: if_splits)
  next
    case load: (Inr pub)
    show ?thesis
    proof (cases "resolve (pub_Type pub) (d_SubscriptionID d)")
      case None
      then show ?thesis using assms(1,3) load by (auto simp: process_def)
    next
      case (Some handler)
      with assms(3) load have "(if h_External handler
          then process_external fault now1 now2 handler (pub_Envelope pub) d db
          else process_internal fault now1 now2 handler (pub_Envelope pub) d db) = (res, db')"
        by (simp add: process_def)
      then show ?thesis using ext int assms(2) [OF Some] by (cases "h_External handler") auto
    qed
  qed
  then show "outbox_inv db'" "res = None \<Longrightarrow> Some (d_Token d) \<notin> row_lease_token ` set (db_deliveries db')" by auto
qed

lemma backoff_bounds: "second \<le> backoff n" "backoff n \<le> maxRetryBackoff"
  by (simp_all add: backoff_def second_def maxRetryBackoff_def minute_def)

lemma backoff_mono: "m \<le> n \<Longrightarrow> backoff m \<le> backoff n"
proof -
  assume "m \<le> n"
  then have "(2 :: int) ^ min m maxBackoffExponent \<le> 2 ^ min n maxBackoffExponent"
    by (intro power_increasing) auto
  then have "second * 2 ^ min m maxBackoffExponent \<le> second * 2 ^ min n maxBackoffExponent"
    by (simp add: second_def)
  then show ?thesis unfolding backoff_def by (rule min.mono) simp
qed

section \<open>Sample runs\<close>

definition sample_db :: "nat outbox_db" where
  "sample_db =
     (let empty = \<lparr>db_events = [], db_deliveries = [], db_sequence = 0, db_app = 0\<rparr>;
          put = (\<lambda>eid ids. snd \<circ> insert_publication eid ''SyncCompleted'' 1 5 '''' ''{}'' None ids)
      in put ''e2'' [''s1'', ''s2''] (put ''e1'' [''s1''] empty))"

definition sample_claimed :: "nat outbox_db" where
  "sample_claimed = snd (claim None ''t1'' 10 defaultLease sample_db)"

definition sample_ticket :: delivery where
  "sample_ticket = \<lparr>d_EventID = ''e1'', d_SubscriptionID = ''s1'', d_Token = ''t1'', d_Attempts = 1\<rparr>"

lemma sample_db_reachable: "reachable outbox_init (outbox_step replays) sample_db"
proof -
  let ?e = "\<lparr>db_events = [], db_deliveries = [], db_sequence = 0, db_app = 0\<rparr> :: nat outbox_db"
  let ?p = "\<lambda>eid ids. snd \<circ> insert_publication eid ''SyncCompleted'' 1 5 '''' ''{}'' None ids"
  have "reachable outbox_init (outbox_step replays) ?e"
    by (rule reachable_init) (simp add: outbox_init_def)
  moreover have "outbox_step replays db (?p eid (i # ids) db)" for db :: "nat outbox_db" and eid i ids
    by (simp add: outbox_step.app_write writes.publish)
  ultimately have "reachable outbox_init (outbox_step replays) (?p ''e2'' [''s1'', ''s2''] (?p ''e1'' [''s1''] ?e))"
    by (blast intro: reachable_step)
  then show ?thesis by (simp add: sample_db_def Let_def)
qed

lemma sample_db_inv: "outbox_inv sample_db"
  by (rule outbox.inv_reachable [OF sample_db_reachable])

lemma sample_tokens: "row_lease_token ` set (db_deliveries sample_db) = {None}"
  by code_simp

lemma sample_claim: "claim None ''t1'' 10 defaultLease sample_db = (Inr sample_ticket, sample_claimed)"
  unfolding prod_eq_iff by (simp add: sample_claimed_def) code_simp

lemma sample_claimed_reachable: "reachable outbox_init (outbox_step replays) sample_claimed"
  unfolding sample_claimed_def
  by (rule reachable_step [OF sample_db_reachable outbox_step.claim]) (simp add: sample_tokens)

lemma sample_claimed_inv: "outbox_inv sample_claimed"
  by (rule outbox.inv_reachable [OF sample_claimed_reachable])

lemma sample_claimed_rows:
  "map (\<lambda>r. (row_event_id r, row_subscription_id r, row_status r, row_lease_token r)) (db_deliveries sample_claimed) =
     [(''e1'', ''s1'', Processing, Some ''t1''), (''e2'', ''s1'', Pending, None), (''e2'', ''s2'', Pending, None)]"
  by code_simp

section \<open>Properties\<close>

text \<open>
  C11. Whatever publishers, workers with stale tickets and operators do, the tables keep their schema:
  event IDs and sequence numbers are unique, a delivery is filed once per event and subscription under
  an existing event, exactly the deliveries in processing carry a lease and a token, no two carry the
  same token, and every retained event still has a delivery that is not delivered.
\<close>

theorem outbox_consistent:
  assumes "reachable outbox_init (outbox_step True) db"
  shows "distinct (map ev_id (db_events db)) \<and> distinct (map ev_sequence (db_events db)) \<and>
    distinct (map row_key (db_deliveries db)) \<and>
    (\<forall>r \<in> set (db_deliveries db).
       row_event_id r \<in> ev_id ` set (db_events db) \<and>
       (row_status r = Processing \<longleftrightarrow> row_lease_token r \<noteq> None) \<and>
       (row_status r = Processing \<longleftrightarrow> row_lease_until r \<noteq> None)) \<and>
    (\<forall>r \<in> set (db_deliveries db). \<forall>r' \<in> set (db_deliveries db).
       row_lease_token r \<noteq> None \<and> row_lease_token r = row_lease_token r' \<longrightarrow> r = r') \<and>
    (\<forall>e \<in> set (db_events db).
       \<exists>r \<in> set (db_deliveries db). row_event_id r = ev_id e \<and> row_status r \<noteq> Delivered)"
proof -
  have inv: "outbox_inv db" by (rule outbox.inv_reachable [OF assms])
  have seq: "distinct (map ev_sequence (db_events db))"
    using inv by (simp add: outbox_inv_def events_ok_def strict_sorted_iff)
  have lease: "row_event_id r \<in> ev_id ` set (db_events db) \<and>
       (row_status r = Processing \<longleftrightarrow> row_lease_token r \<noteq> None) \<and>
       (row_status r = Processing \<longleftrightarrow> row_lease_until r \<noteq> None)" if "r \<in> set (db_deliveries db)" for r
    using inv that unfolding outbox_inv_def rows_ok_def lease_ok_def by (meson image_subset_iff)
  have tokens: "r = r'" if "r \<in> set (db_deliveries db)" "r' \<in> set (db_deliveries db)"
    "row_lease_token r \<noteq> None" "row_lease_token r = row_lease_token r'" for r r'
    using inv that row_unique [of db r r'] unfolding outbox_inv_def tokens_ok_def by blast
  have "distinct (map ev_id (db_events db))" "distinct (map row_key (db_deliveries db))" "events_live db"
    using inv by (simp_all add: outbox_inv_def events_ok_def rows_ok_def)
  with seq lease tokens show ?thesis unfolding events_live_def by blast
qed

theorem outbox_consistent_witness:
  "distinct (map row_key (db_deliveries sample_claimed)) \<and>
   (\<exists>r \<in> set (db_deliveries sample_claimed). row_event_id r = ''e2'' \<and> row_status r \<noteq> Delivered)"
proof -
  have "''e2'' \<in> ev_id ` set (db_events sample_claimed)" by code_simp
  then show ?thesis using outbox_consistent [OF sample_claimed_reachable] by auto
qed

text \<open>
  C12. Ordered delivery: as long as no parked delivery is replayed, at most one delivery of each
  subscription is in processing, and no pending or processing delivery of the subscription belongs to
  an event published earlier.
\<close>

theorem deliveries_in_order:
  assumes "reachable outbox_init (outbox_step False) db"
    and "(r, e) \<in> set (joined db)" "(r', e') \<in> set (joined db)"
    and "row_subscription_id r = row_subscription_id r'" "row_status r = Processing"
  shows "(row_status r' = Processing \<longrightarrow> r' = r) \<and> (active r' \<longrightarrow> ev_sequence e \<le> ev_sequence e')"
proof -
  have inv: "outbox_inv db" "fifo db" using outbox_fifo.inv_reachable [OF assms(1)] by auto
  show ?thesis
    using processing_unique [OF inv, of r r'] fifoD [OF inv(2) assms(2,3,4,5)] assms(2-5)
    by (auto simp: joined_iff)
qed

theorem deliveries_in_order_witness:
  "\<exists>r e r' e'. (r, e) \<in> set (joined sample_claimed) \<and> row_status r = Processing \<and>
     (r', e') \<in> set (joined sample_claimed) \<and> row_key r' = (''e2'', ''s1'') \<and>
     row_subscription_id r = row_subscription_id r' \<and> active r' \<and> ev_sequence e \<le> ev_sequence e'"
proof -
  let ?view = "\<lambda>r. (row_event_id r, row_subscription_id r, row_status r, row_lease_token r)"
  have "(''e1'', ''s1'', Processing, Some ''t1'') \<in> ?view ` set (db_deliveries sample_claimed)"
    "(''e2'', ''s1'', Pending, None) \<in> ?view ` set (db_deliveries sample_claimed)"
    unfolding set_map [symmetric] sample_claimed_rows by simp_all
  then obtain r r' where r: "r \<in> set (db_deliveries sample_claimed)" "row_subscription_id r = ''s1''" "row_status r = Processing"
    and r': "r' \<in> set (db_deliveries sample_claimed)" "row_key r' = (''e2'', ''s1'')" "row_status r' = Pending"
    by (auto simp: row_key_def)
  obtain e e' where e: "(r, e) \<in> set (joined sample_claimed)" "(r', e') \<in> set (joined sample_claimed)"
    using joined_event [OF sample_claimed_inv] r(1) r'(1) by blast
  have act: "active r'" and sub: "row_subscription_id r = row_subscription_id r'"
    using r r' by (simp_all add: active_def row_key_def)
  then have "ev_sequence e \<le> ev_sequence e'"
    using deliveries_in_order [OF sample_claimed_reachable e sub r(3)] by simp
  then show ?thesis using e r(3) r'(2) act sub by blast
qed

text \<open>
  \<open>Claim\<close> leases the due delivery that is first by availability, publication order and
  subscription among those with no earlier active delivery of their subscription: it becomes
  processing under the new token until \<open>now + lease\<close> with one more attempt, and nothing else changes.
  It reports no rows exactly when there is no such delivery.
\<close>

lemma claim_first_due:
  assumes "outbox_inv db" "Some token \<notin> row_lease_token ` set (db_deliveries db)"
  shows "(candidates now db = [] \<longrightarrow> claim None token now lease db = (Inl ErrNoRows, db)) \<and>
    (candidates now db \<noteq> [] \<longrightarrow>
      (\<exists>r e. (r, e) \<in> set (joined db) \<and> due_now now r \<and>
        (\<forall>(r', e') \<in> set (joined db). row_subscription_id r' = row_subscription_id r \<and> active r' \<longrightarrow>
           ev_sequence e \<le> ev_sequence e') \<and>
        (\<forall>c \<in> set (candidates now db). candidate_key (r, e) \<le> candidate_key c) \<and>
        claim None token now lease db =
          (Inr \<lparr>d_EventID = row_event_id r, d_SubscriptionID = row_subscription_id r, d_Token = token,
                d_Attempts = row_attempts r + 1\<rparr>,
           db\<lparr>db_deliveries := map (\<lambda>x. if x = r then r\<lparr>row_status := Processing,
               row_attempts := row_attempts r + 1, row_lease_token := Some token,
               row_lease_until := Some (now + lease), row_updated_at := now\<rparr> else x) (db_deliveries db)\<rparr>)))"
proof (cases "first_candidate (candidates now db)")
  case None
  then show ?thesis by (simp add: claim_cases [OF assms])
next
  case (Some c)
  obtain r e where c: "c = (r, e)" by (cases c)
  have r: "(r, e) \<in> set (candidates now db)" "\<forall>c \<in> set (candidates now db). candidate_key (r, e) \<le> candidate_key c"
    using first_candidate_Some [OF Some] c by auto
  have j: "(r, e) \<in> set (joined db)" "due_now now r" "\<not> earlier_active db (r, e)"
    using r(1) by (auto simp: candidates_def)
  have "claim None token now lease db =
      (Inr \<lparr>d_EventID = row_event_id r, d_SubscriptionID = row_subscription_id r, d_Token = token,
            d_Attempts = row_attempts r + 1\<rparr>, snd (update_rows (\<lambda>x. x = r) (lease_row token now lease) db))"
    unfolding claim_cases [OF assms] Some c by (simp add: claim_row [OF assms(1) r(1)])
  moreover have "snd (update_rows (\<lambda>x. x = r) (lease_row token now lease) db) =
      db\<lparr>db_deliveries := map (\<lambda>x. if x = r then r\<lparr>row_status := Processing,
               row_attempts := row_attempts r + 1, row_lease_token := Some token,
               row_lease_until := Some (now + lease), row_updated_at := now\<rparr> else x) (db_deliveries db)\<rparr>"
    by (simp add: update_rows_def lease_row_def cong: if_cong)
  moreover have "\<forall>(r', e') \<in> set (joined db). row_subscription_id r' = row_subscription_id r \<and> active r' \<longrightarrow>
           ev_sequence e \<le> ev_sequence e'"
    using j(3) by (auto simp: earlier_active_def not_less)
  ultimately show ?thesis using r j by auto
qed

lemma claim_first_due_witness:
  "\<exists>r e. (r, e) \<in> set (joined sample_db) \<and> due_now 10 r \<and>
     fst (claim None ''t1'' 10 defaultLease sample_db) = Inr sample_ticket"
proof -
  have "candidates 10 sample_db \<noteq> []" by code_simp
  then show ?thesis
    using claim_first_due [OF sample_db_inv, of "''t1''" 10 defaultLease] sample_claim sample_tokens by auto
qed

text \<open>
  A worker whose delivery was claimed again is fenced: with its old ticket every lease check,
  acknowledgement, processing (of an internal or an external handler, which is then not invoked) and
  release reports a lost lease and changes nothing, at any time.
\<close>

theorem stale_ticket_fenced:
  assumes "outbox_inv db" "Some token \<notin> row_lease_token ` set (db_deliveries db)"
    and "claim None token now lease db = (Inr d', db')"
    and "d_EventID d = d_EventID d'" "d_SubscriptionID d = d_SubscriptionID d'" "d_Token d \<noteq> token"
  shows "checkLease d t db' = Some ErrLeaseLost \<and>
    within_tx fault (acknowledge d t) db' = (Some ErrLeaseLost, db') \<and>
    process_internal fault t t2 handler env d db' = (Some ErrLeaseLost, db') \<and>
    process_external fault t t2 handler env d db' = (Some ErrLeaseLost, db') \<and>
    fail fault d code terminal maxAttempts t db' = (Some ErrLeaseLost, db')"
proof -
  have rows: "rows_ok db'"
    using claim_inv [OF assms(1,2), of None now lease] assms(3) by (simp add: outbox_inv_def)
  have none: "\<not> (\<exists>r \<in> set (db_deliveries db'). holds_lease d r)" by (rule claim_other_token [OF assms])
  then have "\<not> (\<exists>r \<in> set (db_deliveries db'). lease_current d t r)" using lease_holds by blast
  note f = fenced [OF rows this]
  show ?thesis using none by (simp add: f fail_cases [OF rows])
qed

theorem stale_ticket_fenced_witness:
  "let again = 10 + defaultLease; db = snd (claim None ''t2'' again defaultLease sample_claimed)
   in within_tx None (acknowledge sample_ticket again) db = (Some ErrLeaseLost, db)"
proof -
  let ?t = "10 + defaultLease" and ?db = "snd (claim None ''t2'' (10 + defaultLease) defaultLease sample_claimed)"
  have d: "fst (claim None ''t2'' ?t defaultLease sample_claimed) = Inr (sample_ticket\<lparr>d_Token := ''t2'', d_Attempts := 2\<rparr>)"
    by code_simp
  then have c: "claim None ''t2'' ?t defaultLease sample_claimed = (Inr (sample_ticket\<lparr>d_Token := ''t2'', d_Attempts := 2\<rparr>), ?db)"
    by (metis prod.collapse)
  have fresh: "Some ''t2'' \<notin> row_lease_token ` set (db_deliveries sample_claimed)" by code_simp
  have "within_tx None (acknowledge sample_ticket ?t) ?db = (Some ErrLeaseLost, ?db)"
    by (rule stale_ticket_fenced [OF sample_claimed_inv fresh c, THEN conjunct2, THEN conjunct1])
      (simp_all add: sample_ticket_def)
  then show ?thesis by (simp add: Let_def)
qed

text \<open>
  The transaction of an internal handler is atomic: on any error (lost lease, failing or
  panicking handler, failing statement or commit) the database is as before; on success the handler
  succeeded under a current lease, its writes are kept, and its delivery is delivered or gone.
\<close>

lemma process_internal_atomic:
  assumes "outbox_inv db" "benign handler"
    and "process_internal fault now1 now2 handler env d db = (res, db')"
  shows "(res \<noteq> None \<longrightarrow> db' = db) \<and>
    (res = None \<longrightarrow>
      (\<exists>db1. h_Handle handler env db = (HandlerOk, db1) \<and> checkLease d now1 db = None \<and>
        db_app db' = db_app db1 \<and>
        (\<forall>r \<in> set (db_deliveries db'). row_key r = (d_EventID d, d_SubscriptionID d) \<longrightarrow> row_status r = Delivered)))"
proof (cases res)
  case (Some e)
  with assms(3) have "db' = db" by (simp add: process_internal_rollback)
  with Some show ?thesis by simp
next
  case None
  from process_internal_step [OF assms(1,2)] assms(3) None
  obtain db1 where w: "h_Handle handler env db = (HandlerOk, db1)" "checkLease d now1 db = None"
    "writes\<^sup>*\<^sup>* db db1" "acknowledge d now2 db1 = (None, db')" by blast
  have "outbox_inv db1" using writes_star_inv [OF w(3) assms(1)] .
  with w None acknowledge_gone [of db1 d now2 db'] acknowledge_app [OF w(4)] show ?thesis by blast
qed

definition sample_handler :: "(string, nat) delivery_handler" where
  "sample_handler = \<lparr>h_Handle = (\<lambda>env db. (HandlerOk, db\<lparr>db_app := Suc (db_app db)\<rparr>)), h_External = False\<rparr>"

definition sample_envelope :: "string envelope" where
  "sample_envelope = \<lparr>env_ID = ''e1'', env_OccurredAt = 5, env_PublicationSequence = 1, env_Event = ''ev''\<rparr>"

lemma sample_handler_benign: "benign sample_handler"
  by (auto simp: benign_def sample_handler_def intro: writes.app)

lemma process_internal_atomic_witness:
  "db_app (snd (process_internal None 11 12 sample_handler sample_envelope sample_ticket sample_claimed)) = 1"
proof -
  have "fst (process_internal None 11 12 sample_handler sample_envelope sample_ticket sample_claimed) = None"
    and app: "db_app sample_claimed = 0" by code_simp+
  then obtain db' where p: "process_internal None 11 12 sample_handler sample_envelope sample_ticket sample_claimed = (None, db')"
    by (metis prod.collapse)
  show ?thesis
    using process_internal_atomic [OF sample_claimed_inv sample_handler_benign p] p app
    by (auto simp: sample_handler_def)
qed

text \<open>
  C16. No delivery is lost: no transaction removes a pending delivery, a delivery leaves the table only
  with its whole event, when it was in processing (acknowledged) or parked (discarded) and every other
  delivery of the event is delivered, and a delivered one never becomes active again.
\<close>

theorem no_delivery_lost:
  assumes "outbox_inv db" "outbox_step replays db db'" "r \<in> set (db_deliveries db)"
  shows "(\<exists>r' \<in> set (db_deliveries db'). row_key r' = row_key r \<and>
      (row_status r = Delivered \<longrightarrow> row_status r' = Delivered)) \<or>
    (row_status r \<noteq> Pending \<and> row_event_id r \<notin> ev_id ` set (db_events db') \<and>
     (\<forall>s \<in> set (db_deliveries db). row_event_id s = row_event_id r \<and> row_key s \<noteq> row_key r \<longrightarrow>
        row_status s = Delivered \<or> row_status r = Delivered))"
  using outbox_step_keeps [OF assms(2,1,3)] by (simp add: keeps_row_def)

theorem no_delivery_lost_witness:
  "\<exists>r' \<in> set (db_deliveries sample_claimed). row_key r' = (''e2'', ''s2'')"
proof -
  have step: "outbox_step False sample_db sample_claimed"
    unfolding sample_claimed_def by (rule outbox_step.claim) (simp add: sample_tokens)
  have "((''e2'', ''s2''), Pending) \<in> set (map (\<lambda>r. (row_key r, row_status r)) (db_deliveries sample_db))"
    by code_simp
  then obtain r where r: "r \<in> set (db_deliveries sample_db)" "row_key r = (''e2'', ''s2'')" "row_status r = Pending"
    by auto
  then show ?thesis using no_delivery_lost [OF sample_db_inv step r(1)] by auto
qed

text \<open>
  A failed delivery is released: it is parked as failed when the failure is terminal or the
  attempts are used up, and otherwise becomes pending again after a delay that doubles with the
  attempts, between one second and five minutes; no other row changes.
\<close>

lemma fail_releases:
  assumes "outbox_inv db" "r \<in> set (db_deliveries db)" "holds_lease d r"
  shows "fail None d code terminal maxAttempts now db =
      (None, db\<lparr>db_deliveries := map (\<lambda>x. if x = r then r\<lparr>
         row_status := (if terminal \<or> d_Attempts d \<ge> maxAttempts then Failed else Pending),
         row_lease_token := None, row_lease_until := None, row_last_error := Some code,
         row_available_at := now + backoff (d_Attempts d), row_updated_at := now\<rparr> else x) (db_deliveries db)\<rparr>) \<and>
    second \<le> backoff (d_Attempts d) \<and> backoff (d_Attempts d) \<le> 5 * minute \<and>
    (d_Attempts d \<le> 8 \<longrightarrow> backoff (d_Attempts d) = second * 2 ^ d_Attempts d) \<and>
    (\<forall>n \<le> d_Attempts d. backoff n \<le> backoff (d_Attempts d))"
proof -
  have "holds_lease d x = (x = r)" if "x \<in> set (db_deliveries db)" for x
    using assms row_unique [of db x r] that lease_keys(1) [of d x r] by (auto simp: outbox_inv_def)
  then have "snd (update_rows (holds_lease d) (fail_row d code terminal maxAttempts now) db) =
      snd (update_rows (\<lambda>x. x = r) (fail_row d code terminal maxAttempts now) db)"
    by (simp cong: update_rows_cong)
  then have "fail None d code terminal maxAttempts now db =
      (None, snd (update_rows (\<lambda>x. x = r) (fail_row d code terminal maxAttempts now) db))"
    using assms by (auto simp: fail_cases outbox_inv_def)
  moreover have "backoff (d_Attempts d) = second * 2 ^ d_Attempts d" if "d_Attempts d \<le> 8"
  proof -
    have "(2 :: int) ^ d_Attempts d \<le> 2 ^ 8" using that by (intro power_increasing) auto
    then show ?thesis
      using that by (simp add: backoff_def maxBackoffExponent_def maxRetryBackoff_def second_def minute_def min_def)
  qed
  ultimately show ?thesis
    using backoff_bounds [of "d_Attempts d"] backoff_mono
    by (simp add: update_rows_def release_row_def fail_status_def maxRetryBackoff_def cong: if_cong)
qed

lemma fail_releases_witness:
  "\<exists>r \<in> set (db_deliveries sample_claimed). holds_lease sample_ticket r \<and>
     fst (fail None sample_ticket ''handler_failed'' False defaultMaxAttempts 20 sample_claimed) = None \<and>
     backoff (d_Attempts sample_ticket) = second * 2"
proof -
  have "list_ex (holds_lease sample_ticket) (db_deliveries sample_claimed)" by code_simp
  then obtain r where r: "r \<in> set (db_deliveries sample_claimed)" "holds_lease sample_ticket r"
    by (auto simp: list_ex_iff)
  with fail_releases [OF sample_claimed_inv r, of "''handler_failed''" False defaultMaxAttempts 20]
  show ?thesis by (auto simp: sample_ticket_def)
qed

text \<open>
  \<open>ProcessNext\<close> never keeps a lease it took: when it reports a handled delivery without an error,
  whatever the handler did (succeeded, failed, panicked, was missing or had an undecodable event), no
  row carries its token any more, so the delivery is delivered, parked or pending for a retry; the
  tables stay consistent.
\<close>

lemma processNext_releases_lease:
  assumes "outbox_inv db" "Some token \<notin> row_lease_token ` set (db_deliveries db)"
    and "\<And>ty sid handler. resolve ty sid = Some handler \<Longrightarrow> benign handler"
    and "processNext decode resolve lease maxAttempts token clock faults db = ((True, None), db')"
  shows "outbox_inv db' \<and> Some token \<notin> row_lease_token ` set (db_deliveries db')"
proof -
  obtain t0 t1 t2 t3 f0 f1 f2 where c: "clock = (t0, t1, t2, t3)" "faults = (f0, f1, f2)"
    by (metis prod_cases4 prod_cases3)
  obtain d db1 where cl: "claim f0 token t0 lease db = (Inr d, db1)" and tok: "d_Token d = token"
    using assms(4) unfolding processNext_def c
    by (auto simp: claim_def Let_def split: prod.splits sum.splits outbox_error.splits option.splits if_splits)
  have inv1: "outbox_inv db1" using claim_inv [OF assms(1,2), of f0 t0 lease] cl by simp
  obtain res db2 where p: "process decode resolve f1 t1 t2 d db1 = (res, db2)"
    by (cases "process decode resolve f1 t1 t2 d db1")
  have o: "outbox_inv db2" "res = None \<Longrightarrow> Some (d_Token d) \<notin> row_lease_token ` set (db_deliveries db2)"
    using process_outcome [OF inv1 _ p] assms(3) by blast+
  show ?thesis
  proof (cases res)
    case None
    then have "db' = db2" using assms(4) by (simp add: processNext_def c cl p)
    with o None tok show ?thesis by simp
  next
    case (Some err)
    then have f: "fail f2 d (fst (failure_code err)) (snd (failure_code err)) maxAttempts t3 db2 = (None, db')"
      using assms(4) by (auto simp: processNext_def c cl p split: prod.splits option.splits)
    have "outbox_inv db'"
      using fail_inv [OF o(1)] f by (metis snd_conv)
    with fail_token [OF o(1) f] tok show ?thesis by simp
  qed
qed

lemma processNext_releases_lease_witness:
  "Some ''t1'' \<notin> row_lease_token ` set (db_deliveries (snd (processNext (\<lambda>ty v s. Some s)
     (\<lambda>ty sid. Some sample_handler) defaultLease defaultMaxAttempts ''t1'' (10, 11, 12, 13) (None, None, None) sample_db)))"
proof -
  let ?p = "processNext (\<lambda>ty v s. Some s) (\<lambda>ty sid. Some sample_handler) defaultLease defaultMaxAttempts ''t1''
    (10, 11, 12, 13) (None, None, None) sample_db"
  have "fst ?p = (True, None)" by code_simp
  then have "?p = ((True, None), snd ?p)" by (metis prod.collapse)
  then show ?thesis
    using processNext_releases_lease [OF sample_db_inv _ _ \<open>?p = ((True, None), snd ?p)\<close>] sample_tokens sample_handler_benign
    by simp
qed

end
