(* ===== verification/EventTypes.thy ===== *)
theory EventTypes
  imports Prelude
begin

text \<open>
  The registry of event types (\<open>internal/modules/event/events/types.go\<close>): names, severities,
  categories, deduplication windows and whether users may configure notifications for them.
\<close>

datatype severity = SeverityInfo | SeverityWarn | SeverityError | SeverityAlert

datatype category = CategorySync | CategorySecurity | CategorySwarm

record event_type =
  ty_name :: string
  ty_severity :: severity
  ty_category :: category
  ty_window :: duration
  ty_isPublic :: bool

definition event_type_of :: "string \<Rightarrow> severity \<Rightarrow> category \<Rightarrow> duration \<Rightarrow> bool \<Rightarrow> event_type" where
  "event_type_of name severity category window isPublic =
     \<lparr>ty_name = name, ty_severity = severity, ty_category = category, ty_window = window,
      ty_isPublic = isPublic\<rparr>"

definition defaultSyncDedupWindow :: duration where
  "defaultSyncDedupWindow = 5 * second"

definition nodeDedupWindow :: duration where
  "nodeDedupWindow = 15 * second"

definition serviceDedupWindow :: duration where
  "serviceDedupWindow = 15 * second"

definition securityAlertDedupWindow :: duration where
  "securityAlertDedupWindow = 30 * second"

text \<open>\<open>Types\<close>, in its order; a type without a window has the zero duration.\<close>

definition Types :: "event_type list" where
  "Types =
    [event_type_of ''AlertOpened'' SeverityAlert CategorySync 0 False,
     event_type_of ''AlertResolved'' SeverityInfo CategorySync 0 False,
     event_type_of ''GitPullFailed'' SeverityAlert CategorySync 0 False,
     event_type_of ''GitPullSucceeded'' SeverityInfo CategorySync 0 False,
     event_type_of ''ConfigurationChanged'' SeverityInfo CategorySync 0 False,
     event_type_of ''DeployFailed'' SeverityAlert CategorySync minute False,
     event_type_of ''DeployPreparationFailed'' SeverityAlert CategorySync 0 False,
     event_type_of ''DeployInterrupted'' SeverityAlert CategorySync 0 False,
     event_type_of ''ServiceCatalogUpdated'' SeverityInfo CategorySync 0 True,
     event_type_of ''DeploySuccess'' SeverityInfo CategorySync minute True,
     event_type_of ''SendNotificationFailed'' SeverityError CategorySync hour True,
     event_type_of ''SyncManualStarted'' SeverityInfo CategorySync defaultSyncDedupWindow True,
     event_type_of ''WebhookReceived'' SeverityInfo CategorySync 0 True,
     event_type_of ''NodeJoined'' SeverityInfo CategorySwarm 0 True,
     event_type_of ''NodeConnected'' SeverityInfo CategorySwarm nodeDedupWindow True,
     event_type_of ''NodeDisconnected'' SeverityAlert CategorySwarm nodeDedupWindow True,
     event_type_of ''ServiceMissed'' SeverityAlert CategorySync serviceDedupWindow True,
     event_type_of ''ServiceDrifted'' SeverityWarn CategorySync serviceDedupWindow True,
     event_type_of ''ServiceDriftFixed'' SeverityInfo CategorySync serviceDedupWindow True,
     event_type_of ''ServiceRemovedFromDesired'' SeverityInfo CategorySync 0 False,
     event_type_of ''ServiceReplicasIncreased'' SeverityInfo CategorySync serviceDedupWindow True,
     event_type_of ''ServiceReplicasDecreased'' SeverityInfo CategorySync serviceDedupWindow True,
     event_type_of ''ServiceRestarted'' SeverityInfo CategorySync serviceDedupWindow True,
     event_type_of ''ServicePruned'' SeverityInfo CategorySync serviceDedupWindow True,
     event_type_of ''NetworkCreated'' SeverityInfo CategorySync defaultSyncDedupWindow True,
     event_type_of ''UserAuthenticated'' SeverityInfo CategorySecurity minute True,
     event_type_of ''AssistantPromptInjectionDetected'' SeverityWarn CategorySecurity securityAlertDedupWindow True]"

definition ParseType :: "string \<Rightarrow> event_type option" where
  "ParseType name = find (\<lambda>t. ty_name t = name) Types"

definition type_valid :: "string \<Rightarrow> bool" where
  "type_valid name = (case ParseType name of None \<Rightarrow> False | Some t \<Rightarrow> ty_isPublic t)"

fun severity_text :: "severity \<Rightarrow> string" where
  "severity_text SeverityInfo = ''info''"
| "severity_text SeverityWarn = ''warn''"
| "severity_text SeverityError = ''error''"
| "severity_text SeverityAlert = ''alert''"

definition ParseSeverity :: "string \<Rightarrow> severity option" where
  "ParseSeverity raw =
     (if raw = ''info'' then Some SeverityInfo
      else if raw = ''warn'' then Some SeverityWarn
      else if raw = ''error'' then Some SeverityError
      else if raw = ''alert'' then Some SeverityAlert
      else None)"

fun category_text :: "category \<Rightarrow> string" where
  "category_text CategorySync = ''sync''"
| "category_text CategorySecurity = ''security''"
| "category_text CategorySwarm = ''swarm''"

definition ParseCategory :: "string \<Rightarrow> category option" where
  "ParseCategory raw =
     (if raw = ''sync'' then Some CategorySync
      else if raw = ''security'' then Some CategorySecurity
      else if raw = ''swarm'' then Some CategorySwarm
      else None)"

lemma type_names_distinct: "distinct (map ty_name Types)"
  by code_simp

lemma ParseType_Some: "ParseType name = Some t \<longleftrightarrow> t \<in> set Types \<and> ty_name t = name"
proof
  assume "t \<in> set Types \<and> ty_name t = name"
  moreover have "ParseType name \<noteq> None" using calculation by (auto simp: ParseType_def find_None_iff)
  then obtain u where "ParseType name = Some u" by blast
  moreover from this have "u \<in> set Types \<and> ty_name u = name"
    by (auto simp: ParseType_def find_Some_iff)
  ultimately show "ParseType name = Some t"
    using type_names_distinct by (metis distinct_map inj_onD)
qed (auto simp: ParseType_def find_Some_iff)

lemma severity_roundtrip: "ParseSeverity raw = Some s \<longleftrightarrow> raw = severity_text s"
  by (cases s) (auto simp: ParseSeverity_def)

lemma category_roundtrip: "ParseCategory raw = Some c \<longleftrightarrow> raw = category_text c"
  by (cases c) (auto simp: ParseCategory_def)

end
