(* ===== verification/Dispatcher.thy ===== *)
theory Dispatcher
  imports Outbox EventTypes
begin

text \<open>
  The event dispatcher (\<open>internal/modules/event/dispatcher\<close>): the subscription registry of
  \<open>outbox_dispatcher.go\<close>, the adapter of external subscribers (\<open>subscriber.go\<close>), \<open>SubscribeMany\<close>
  (\<open>dispatcher.go\<close>) and the composed enrichers (\<open>enricher.go\<close>). Subscriber identities are collected
  from a Go map, whose iteration order is a parameter (\<open>enum\<close>).
\<close>

section \<open>Model\<close>

datatype ('ev, 'a) subscriber =
    Subscriber "'ev envelope \<Rightarrow> 'a outbox_db \<Rightarrow> handler_result \<times> 'a outbox_db"
  | ExternalSubscriber "'ev envelope \<Rightarrow> 'a outbox_db \<Rightarrow> handler_result \<times> 'a outbox_db"

record ('ev, 'a) dispatcher =
  disp_registry :: "(string, (string, ('ev, 'a) subscriber) gomap) gomap"
  disp_started :: bool

datatype subscribe_error = AlreadyStarted | UnknownType | IncompleteSubscription | DuplicateSubscription

definition new_dispatcher :: "('ev, 'a) dispatcher" where
  "new_dispatcher = \<lparr>disp_registry = fmempty, disp_started = False\<rparr>"

definition subscribers :: "('ev, 'a) dispatcher \<Rightarrow> string \<Rightarrow> (string, ('ev, 'a) subscriber) gomap" where
  "subscribers b ty = (case fmlookup (disp_registry b) ty of None \<Rightarrow> fmempty | Some m \<Rightarrow> m)"

definition subscribe ::
    "string \<Rightarrow> string \<Rightarrow> ('ev, 'a) subscriber option \<Rightarrow> ('ev, 'a) dispatcher \<Rightarrow>
     subscribe_error option \<times> ('ev, 'a) dispatcher" where
  "subscribe ty sid handler b =
     (if disp_started b then (Some AlreadyStarted, b)
      else if ParseType ty = None then (Some UnknownType, b)
      else case handler of
             None \<Rightarrow> (Some IncompleteSubscription, b)
           | Some h \<Rightarrow>
               if sid = '''' then (Some IncompleteSubscription, b)
               else if has_key (subscribers b ty) sid
               then (Some DuplicateSubscription, b\<lparr>disp_registry := fmupd ty (subscribers b ty) (disp_registry b)\<rparr>)
               else (None, b\<lparr>disp_registry := fmupd ty (fmupd sid h (subscribers b ty)) (disp_registry b)\<rparr>))"

fun subscribeMany ::
    "string list \<Rightarrow> string \<Rightarrow> ('ev, 'a) subscriber option \<Rightarrow> ('ev, 'a) dispatcher \<Rightarrow>
     subscribe_error option \<times> ('ev, 'a) dispatcher" where
  "subscribeMany [] sid handler b = (None, b)"
| "subscribeMany (ty # types) sid handler b =
     (case subscribe ty sid handler b of
        (Some e, b') \<Rightarrow> (Some e, b')
      | (None, b') \<Rightarrow> subscribeMany types sid handler b')"

definition markStarted :: "('ev, 'a) dispatcher \<Rightarrow> ('ev, 'a) dispatcher" where
  "markStarted b = b\<lparr>disp_started := True\<rparr>"

definition resolve :: "('ev, 'a) dispatcher \<Rightarrow> string \<Rightarrow> string \<Rightarrow> ('ev, 'a) delivery_handler option" where
  "resolve b ty sid =
     (case fmlookup (subscribers b ty) sid of
        None \<Rightarrow> None
      | Some (Subscriber handle) \<Rightarrow> Some \<lparr>h_Handle = handle, h_External = False\<rparr>
      | Some (ExternalSubscriber handle) \<Rightarrow> Some \<lparr>h_Handle = handle, h_External = True\<rparr>)"

text \<open>\<open>Publish\<close>: the event is stored for every subscriber of its type.\<close>

definition dispatch ::
    "(string fset \<Rightarrow> string list) \<Rightarrow> ('ev \<Rightarrow> string option) \<Rightarrow> ('ev \<Rightarrow> string) \<Rightarrow> int \<Rightarrow> string option \<Rightarrow> bool \<Rightarrow>
     outbox_error option \<Rightarrow> string \<Rightarrow> string option \<Rightarrow> ('ev, 'a) dispatcher \<Rightarrow> 'ev option \<Rightarrow> gotime \<Rightarrow>
     'a outbox_db \<Rightarrow> outbox_error option \<times> 'a outbox_db" where
  "dispatch enum encode typ_of version newID joins fault cause traceparent b event now db =
     (case event of
        None \<Rightarrow> (Some NilEvent, db)
      | Some ev \<Rightarrow>
          publish encode typ_of version newID joins fault cause traceparent event
            (enum (fmdom (subscribers b (typ_of ev)))) now db)"

definition dispatcher_processNext where
  "dispatcher_processNext decode lease maxAttempts token clock faults b db =
     (let b' = markStarted b
      in (processNext decode (resolve b') lease maxAttempts token clock faults db, b'))"

definition enrich :: "('ev \<Rightarrow> 'ev) list \<Rightarrow> 'ev \<Rightarrow> 'ev" where
  "enrich propagators event = fold (\<lambda>propagator event. propagator event) propagators event"

section \<open>Lemmas\<close>

lemma insert_deliveries_fresh:
  assumes "eid \<in> ev_id ` set (db_events db)" "distinct ids"
    and "\<forall>r \<in> set (db_deliveries db). row_event_id r = eid \<longrightarrow> row_subscription_id r \<notin> set ids"
  shows "insert_deliveries eid now ids db =
    (None, db\<lparr>db_deliveries := db_deliveries db @ map (new_delivery eid now) ids\<rparr>)"
  using assms
proof (induction ids arbitrary: db)
  case (Cons s ids)
  let ?db = "db\<lparr>db_deliveries := db_deliveries db @ [new_delivery eid now s]\<rparr>"
  have "insert_deliveries eid now ids ?db =
      (None, ?db\<lparr>db_deliveries := db_deliveries ?db @ map (new_delivery eid now) ids\<rparr>)"
    using Cons.prems by (intro Cons.IH) (auto simp: new_delivery_def)
  moreover have "\<not> (\<exists>r \<in> set (db_deliveries db). row_event_id r = eid \<and> row_subscription_id r = s)"
    using Cons.prems(3) by auto
  ultimately show ?case using Cons.prems(1) by simp
qed simp

lemma subscribe_None:
  "subscribe ty sid handler b = (None, b') \<longleftrightarrow>
    \<not> disp_started b \<and> ParseType ty \<noteq> None \<and> sid \<noteq> '''' \<and> \<not> has_key (subscribers b ty) sid \<and>
    (\<exists>h. handler = Some h \<and>
      b' = b\<lparr>disp_registry := fmupd ty (fmupd sid h (subscribers b ty)) (disp_registry b)\<rparr>)"
  by (auto simp: subscribe_def split: option.splits)

lemma subscribers_error: "subscribe ty sid handler b = (Some e, b') \<Longrightarrow> subscribers b' = subscribers b"
  by (rule ext) (auto simp: subscribe_def subscribers_def split: option.splits if_splits)

section \<open>Properties\<close>

text \<open>
  Publishing reaches every subscriber: for an encodable event the outbox gets one event with the
  next sequence number and exactly one pending delivery, available at once, for each subscriber of
  the event's type, whatever the iteration order of the registry; without subscribers nothing is
  written. The delivery worker resolves each of these deliveries to a handler.
\<close>

lemma publish_reaches_subscribers:
  assumes "outbox_inv db" "encode ev = Some payload" "eid \<notin> ev_id ` set (db_events db)" "\<not> IsZero now"
    and "distinct (enum (fmdom (subscribers b (typ_of ev))))"
    and "set (enum (fmdom (subscribers b (typ_of ev)))) = fset (fmdom (subscribers b (typ_of ev)))"
  shows "dispatch enum encode typ_of version (Some eid) joins None cause traceparent b (Some ev) now db =
      (None,
       if subscribers b (typ_of ev) = fmempty then db
       else db\<lparr>db_sequence := Suc (db_sequence db),
         db_events := db_events db @
           [\<lparr>ev_sequence = Suc (db_sequence db), ev_id = eid, ev_type = typ_of ev, ev_schema_version = version,
             ev_occurred_at = now, ev_causation_id = cause, ev_payload = payload, ev_traceparent = traceparent\<rparr>],
         db_deliveries := db_deliveries db @
           map (new_delivery eid now) (enum (fmdom (subscribers b (typ_of ev))))\<rparr>) \<and>
    (\<forall>sid \<in> set (enum (fmdom (subscribers b (typ_of ev)))). resolve b (typ_of ev) sid \<noteq> None)"
proof -
  let ?ids = "enum (fmdom (subscribers b (typ_of ev)))"
  have empty: "?ids = [] \<longleftrightarrow> subscribers b (typ_of ev) = fmempty"
  proof -
    have "?ids = [] \<longleftrightarrow> fmdom (subscribers b (typ_of ev)) = {||}"
      using assms(6) by (metis bot_fset.rep_eq fset_inject set_empty)
    also have "\<dots> \<longleftrightarrow> subscribers b (typ_of ev) = fmempty"
      by (auto simp: fmap_empty_iff has_key_def)
    finally show ?thesis .
  qed
  have fresh: "row_event_id r \<noteq> eid" if "r \<in> set (db_deliveries db)" for r
    using that assms(1,3) by (auto simp: outbox_inv_def rows_ok_def)
  define db1 where "db1 = snd (insert_event eid (typ_of ev) version now cause payload traceparent db)"
  have ie: "insert_event eid (typ_of ev) version now cause payload traceparent db = (None, db1)"
    using assms(3) by (simp add: insert_event_def db1_def)
  have "insert_deliveries eid now ?ids db1 =
      (None, db1\<lparr>db_deliveries := db_deliveries db1 @ map (new_delivery eid now) ?ids\<rparr>)"
    using assms(3,5) fresh by (intro insert_deliveries_fresh) (auto simp: insert_event_def db1_def)
  then have "insert_publication eid (typ_of ev) version now cause payload traceparent ?ids db =
      (None, db1\<lparr>db_deliveries := db_deliveries db1 @ map (new_delivery eid now) ?ids\<rparr>)"
    using ie by (simp add: insert_publication_def)
  then have "dispatch enum encode typ_of version (Some eid) joins None cause traceparent b (Some ev) now db =
      (None, if ?ids = [] then db else db1\<lparr>db_deliveries := db_deliveries db1 @ map (new_delivery eid now) ?ids\<rparr>)"
    using assms(2,4) by (simp add: dispatch_def publish_def joined_tx_def within_tx_def)
  moreover have "resolve b (typ_of ev) sid \<noteq> None" if "sid \<in> set ?ids" for sid
    using that assms(6) by (auto simp: resolve_def fmlookup_dom_iff split: option.split subscriber.split)
  ultimately show ?thesis using assms(3) by (simp add: empty insert_event_def db1_def)
qed

definition sample_dispatcher :: "(string, nat) dispatcher" where
  "sample_dispatcher = snd (subscribe ''NodeJoined'' ''history''
     (Some (Subscriber (\<lambda>env db. (HandlerOk, db)))) new_dispatcher)"

lemma publish_reaches_subscribers_witness:
  "map row_key (db_deliveries (snd (dispatch sorted_list_of_fset (\<lambda>ev. Some ev) (\<lambda>ev. ''NodeJoined'') 1 (Some ''e3'')
     False None '''' None sample_dispatcher (Some ''n1'') 7 sample_db))) =
   map row_key (db_deliveries sample_db) @ [(''e3'', ''history'')]"
proof -
  have ids: "''e3'' \<notin> ev_id ` set (db_events sample_db)"
    and order: "sorted_list_of_fset (fmdom (subscribers sample_dispatcher ''NodeJoined'')) = [''history'']"
    by code_simp+
  have subs: "subscribers sample_dispatcher ''NodeJoined'' \<noteq> fmempty"
    using order by (auto simp: sorted_list_of_fset_def)
  have set: "fset (fmdom (subscribers sample_dispatcher ''NodeJoined'')) = {''history''}"
    using order by (metis list.simps(15) list.set(1) sorted_list_of_fset_simps(1))
  show ?thesis
    using publish_reaches_subscribers [OF sample_db_inv, of "\<lambda>ev. Some ev" "''n1''" "''n1''" "''e3''" 7
        sorted_list_of_fset sample_dispatcher "\<lambda>ev. ''NodeJoined''" 1 False "''''" None] ids subs set
    by (simp add: order [unfolded sorted_list_of_fset.rep_eq] IsZero_def sorted_list_of_fset.rep_eq
        new_delivery_def row_key_def)
qed

text \<open>
  Subscriptions: \<open>Subscribe\<close> succeeds exactly for a registered event type, a nonempty identity
  not yet taken for the type and a handler, before the workers start; it then changes this one
  subscription, and an error changes none. Once the workers have started the registry is fixed.
\<close>

lemma subscribe_once:
  assumes "subscribe ty sid handler b = (res, b')"
  shows "(res = None \<longleftrightarrow> \<not> disp_started b \<and> ty \<in> ty_name ` set Types \<and> sid \<noteq> '''' \<and> handler \<noteq> None \<and>
      fmlookup (subscribers b ty) sid = None) \<and>
    fmlookup (subscribers b' ty') sid' =
      (if res = None \<and> ty' = ty \<and> sid' = sid then handler else fmlookup (subscribers b ty') sid') \<and>
    (disp_started b \<longrightarrow> res = Some AlreadyStarted \<and> b' = b)"
proof -
  have known: "ParseType ty \<noteq> None \<longleftrightarrow> ty \<in> ty_name ` set Types"
    using ParseType_Some [of ty] by auto
  have res: "res = None \<longleftrightarrow> \<not> disp_started b \<and> ty \<in> ty_name ` set Types \<and> sid \<noteq> '''' \<and> handler \<noteq> None \<and>
      fmlookup (subscribers b ty) sid = None"
    using assms known by (auto simp: subscribe_def has_key_iff split: option.splits if_splits)
  have "fmlookup (subscribers b' ty') sid' =
      (if res = None \<and> ty' = ty \<and> sid' = sid then handler else fmlookup (subscribers b ty') sid')"
  proof (cases res)
    case None
    with assms have "\<exists>h. handler = Some h \<and>
        b' = b\<lparr>disp_registry := fmupd ty (fmupd sid h (subscribers b ty)) (disp_registry b)\<rparr>"
      by (simp add: subscribe_None)
    with None show ?thesis by (auto simp: subscribers_def)
  next
    case (Some e)
    with assms subscribers_error [of ty sid handler b e b'] show ?thesis by simp
  qed
  moreover have "disp_started b \<longrightarrow> res = Some AlreadyStarted \<and> b' = b"
    using assms by (auto simp: subscribe_def)
  ultimately show ?thesis using res by blast
qed

lemma subscribe_once_sample:
  "fst (subscribe ''NodeJoined'' ''history'' (Some (Subscriber (\<lambda>env db. (HandlerOk, db)))) sample_dispatcher) \<noteq> None"
proof -
  obtain res b' where s: "subscribe ''NodeJoined'' ''history'' (Some (Subscriber (\<lambda>env db. (HandlerOk, db)))) sample_dispatcher = (res, b')"
    by (metis prod.exhaust)
  have "sorted_list_of_fset (fmdom (subscribers sample_dispatcher ''NodeJoined'')) = [''history'']"
    by code_simp
  then have "''history'' \<in> fset (fmdom (subscribers sample_dispatcher ''NodeJoined''))"
    by (metis list.set_intros(1) sorted_list_of_fset_simps(1))
  then show ?thesis using subscribe_once [OF s] s by (auto simp: fmlookup_dom_iff)
qed

end
