(* ===== verification/DeploymentStore.thy ===== *)
theory DeploymentStore
  imports Prelude
begin

text \<open>
  Deployments and their attempts (\<open>internal/modules/deployments/model/model.go\<close>,
  \<open>model/verification.go\<close>) and their SQLite repository (\<open>modelstore/sqlite.go\<close>).

  The tables \<open>deployments\<close>, \<open>deployment_attempts\<close> and \<open>desired_snapshots\<close> are lists of row records
  in rowid order and a finite map; unique indexes, foreign keys and CHECKs of the schema
  (\<open>migrations/sqlite/0001_initial.sql\<close>, \<open>0002_deployment_attempts.sql\<close>) are checks of the
  statements. The JSON payloads are records. The outbox in which the completion events are stored is
  the list \<open>db_published\<close>. Left out are the columns that no decision reads: the display diff
  (changes, summary, resources), and the Init Job log table.
\<close>

section \<open>Data\<close>

datatype status = Running | Succeeded | Failed | Interrupted | Superseded

datatype comparison_basis = BasisNone | BasisSuccessfulBaseline | BasisLastAttempt | BasisObservedState

datatype phase = PhaseApply | PhaseVerification | PhaseCleanup | PhaseCompleted

datatype stage_status =
  StagePending | StageRunning | StageSucceeded | StageFailed | StageUnknown | StageSkipped

datatype actual_state = ActualStateObserved | ActualStateUnknown

datatype verification_mode =
  VerifyUnspecified | VerifyExistingTasks | VerifyPlacementCompatibleTasks | VerifyNewGeneration

record update_generation =
  gen_ServiceID :: string
  gen_ForceUpdate :: nat
  gen_After :: gotime
  gen_Mode :: verification_mode
  gen_BeforeSpecDigest :: string
  gen_TasksAfter :: gotime

record verification =
  ver_Known :: bool
  ver_UnresolvedServices :: "string list"
  ver_Generations :: "(string, update_generation) gomap"

text \<open>
  The compose file as far as deployments read it: the names and images of its services in order, and
  the digest of its content.
\<close>

record compose_file =
  file_Path :: string
  file_Services :: "(string \<times> string) list"
  file_Digest :: string

definition file_ServiceNames :: "compose_file \<Rightarrow> string list" where
  "file_ServiceNames f = map fst (file_Services f)"

lemma file_ServiceNames_make [simp]:
  "file_ServiceNames \<lparr>file_Path = p, file_Services = ss, file_Digest = g\<rparr> = map fst ss"
  by (simp add: file_ServiceNames_def)

record prepared =
  prep_Definition :: compose_file
  prep_Digest :: string

record attempt =
  a_ID :: string
  a_DeploymentID :: string
  a_Number :: nat
  a_Status :: status
  a_StartedAt :: gotime
  a_FinishedAt :: "gotime option"
  a_ErrorCode :: string
  a_ErrorDiagnostic :: string
  a_Retryable :: bool
  a_Phase :: phase
  a_ApplyStatus :: stage_status
  a_VerificationStatus :: stage_status
  a_CleanupStatus :: stage_status
  a_ActualStateStatus :: actual_state
  a_ObservedAt :: "gotime option"

record deployment =
  d_Verification :: verification
  d_ID :: string
  d_Stack :: string
  d_Commit :: string
  d_Status :: status
  d_StartedAt :: gotime
  d_FinishedAt :: "gotime option"
  d_ErrorCode :: string
  d_ErrorDiagnostic :: string
  d_Retryable :: bool
  d_Phase :: phase
  d_ApplyStatus :: stage_status
  d_VerificationStatus :: stage_status
  d_CleanupStatus :: stage_status
  d_ActualStateStatus :: actual_state
  d_ObservedAt :: "gotime option"
  d_ComparisonBasis :: comparison_basis
  d_BasisDeploymentID :: string
  d_LatestAttemptID :: string
  d_AttemptCount :: nat
  d_Attempts :: "attempt list"

text \<open>The JSON column \<open>details_payload\<close>; a null list of services is \<open>None\<close>.\<close>

record details =
  det_UpdateGenerations :: "(string, update_generation) gomap"
  det_UnresolvedServices :: "string list option"
  det_ErrorDiagnostic :: string
  det_Retryable :: bool
  det_ApplyStatus :: stage_status
  det_VerificationStatus :: stage_status
  det_CleanupStatus :: stage_status
  det_ActualStateStatus :: actual_state
  det_ObservedAt :: "gotime option"
  det_ComparisonBasis :: comparison_basis
  det_BasisDeploymentID :: string

record deployment_row =
  dr_id :: string
  dr_stack :: string
  dr_commit :: string
  dr_status :: status
  dr_error_code :: string
  dr_phase :: phase
  dr_started_at :: gotime
  dr_finished_at :: "gotime option"
  dr_desired :: prepared
  dr_details :: details

record attempt_row =
  ar_id :: string
  ar_deployment_id :: string
  ar_number :: nat
  ar_status :: status
  ar_error_code :: string
  ar_phase :: phase
  ar_started_at :: gotime
  ar_finished_at :: "gotime option"
  ar_details :: details

datatype deployment_event =
    DeploySuccess string string string string
  | DeployFailed string string string string string string
  | DeployInterrupted string string string string string string
  | ServiceRemovedFromDesired string string string

record deployment_db =
  db_deployments :: "deployment_row list"
  db_attempts :: "attempt_row list"
  db_snapshots :: "(string, string) gomap"
  db_published :: "deployment_event list"

datatype store_error =
    ErrNotFound | ErrNotRunning | ErrInconsistentDeployment | StartTimeRequired | FinishTimeRequired
  | ConstraintViolation | InvalidCompletion | PrepareError | StoreFault

section \<open>Rows and models\<close>

definition persistedUnresolvedServices :: "verification \<Rightarrow> string list option" where
  "persistedUnresolvedServices v = (if \<not> ver_Known v then None else Some (ver_UnresolvedServices v))"

definition detailsFromDeployment :: "deployment \<Rightarrow> details" where
  "detailsFromDeployment d =
     \<lparr>det_UpdateGenerations = ver_Generations (d_Verification d),
      det_UnresolvedServices = persistedUnresolvedServices (d_Verification d),
      det_ErrorDiagnostic = d_ErrorDiagnostic d, det_Retryable = d_Retryable d,
      det_ApplyStatus = d_ApplyStatus d, det_VerificationStatus = d_VerificationStatus d,
      det_CleanupStatus = d_CleanupStatus d, det_ActualStateStatus = d_ActualStateStatus d,
      det_ObservedAt = d_ObservedAt d, det_ComparisonBasis = d_ComparisonBasis d,
      det_BasisDeploymentID = d_BasisDeploymentID d\<rparr>"

definition projectedStatus :: "status \<Rightarrow> bool \<Rightarrow> status" where
  "projectedStatus s isSuperseded = (if isSuperseded then Superseded else s)"

definition attempt_of :: "attempt_row \<Rightarrow> attempt" where
  "attempt_of row =
     \<lparr>a_ID = ar_id row, a_DeploymentID = ar_deployment_id row, a_Number = ar_number row,
      a_Status = ar_status row, a_StartedAt = ar_started_at row, a_FinishedAt = ar_finished_at row,
      a_ErrorCode = ar_error_code row, a_ErrorDiagnostic = det_ErrorDiagnostic (ar_details row),
      a_Retryable = det_Retryable (ar_details row), a_Phase = ar_phase row,
      a_ApplyStatus = det_ApplyStatus (ar_details row),
      a_VerificationStatus = det_VerificationStatus (ar_details row),
      a_CleanupStatus = det_CleanupStatus (ar_details row),
      a_ActualStateStatus = det_ActualStateStatus (ar_details row),
      a_ObservedAt = det_ObservedAt (ar_details row)\<rparr>"

text \<open>The attempts of a deployment, newest number first.\<close>

definition attempt_rows :: "string \<Rightarrow> deployment_db \<Rightarrow> attempt_row list" where
  "attempt_rows did db =
     SortStableFunc (cmp_of_less (\<lambda>x y. ar_number y < ar_number x))
       (filter (\<lambda>r. ar_deployment_id r = did) (db_attempts db))"

text \<open>Is there a row of the same stack with a greater rowid?\<close>

fun newer_exists :: "deployment_row list \<Rightarrow> string \<Rightarrow> string \<Rightarrow> bool" where
  "newer_exists [] did stack = False"
| "newer_exists (r # rs) did stack =
     (if dr_id r = did then (\<exists>n \<in> set rs. dr_stack n = stack) else newer_exists rs did stack)"

definition is_superseded :: "deployment_row \<Rightarrow> deployment_db \<Rightarrow> bool" where
  "is_superseded r db \<longleftrightarrow> (dr_status r = Failed \<or> dr_status r = Interrupted) \<and>
     newer_exists (db_deployments db) (dr_id r) (dr_stack r)"

definition deployment_of :: "deployment_row \<Rightarrow> deployment_db \<Rightarrow> deployment" where
  "deployment_of r db =
     \<lparr>d_Verification =
        \<lparr>ver_Known = (det_UnresolvedServices (dr_details r) \<noteq> None),
         ver_UnresolvedServices =
           (case det_UnresolvedServices (dr_details r) of None \<Rightarrow> [] | Some ns \<Rightarrow> ns),
         ver_Generations = det_UpdateGenerations (dr_details r)\<rparr>,
      d_ID = dr_id r, d_Stack = dr_stack r, d_Commit = dr_commit r,
      d_Status = projectedStatus (dr_status r) (is_superseded r db),
      d_StartedAt = dr_started_at r, d_FinishedAt = dr_finished_at r, d_ErrorCode = dr_error_code r,
      d_ErrorDiagnostic = det_ErrorDiagnostic (dr_details r), d_Retryable = det_Retryable (dr_details r),
      d_Phase = dr_phase r, d_ApplyStatus = det_ApplyStatus (dr_details r),
      d_VerificationStatus = det_VerificationStatus (dr_details r),
      d_CleanupStatus = det_CleanupStatus (dr_details r),
      d_ActualStateStatus = det_ActualStateStatus (dr_details r), d_ObservedAt = det_ObservedAt (dr_details r),
      d_ComparisonBasis = det_ComparisonBasis (dr_details r),
      d_BasisDeploymentID = det_BasisDeploymentID (dr_details r),
      d_LatestAttemptID = (case attempt_rows (dr_id r) db of [] \<Rightarrow> '''' | a # _ \<Rightarrow> ar_id a),
      d_AttemptCount = length (attempt_rows (dr_id r) db),
      d_Attempts = map attempt_of (attempt_rows (dr_id r) db)\<rparr>"

section \<open>Queries\<close>

definition find_deployment :: "string \<Rightarrow> deployment_db \<Rightarrow> deployment_row option" where
  "find_deployment did db = find (\<lambda>r. dr_id r = did) (db_deployments db)"

definition get_deployment :: "string \<Rightarrow> deployment_db \<Rightarrow> store_error + deployment" where
  "get_deployment did db =
     (case find_deployment did db of None \<Rightarrow> Inl ErrNotFound | Some r \<Rightarrow> Inr (deployment_of r db))"

definition getAttempt :: "string \<Rightarrow> deployment_db \<Rightarrow> store_error + attempt" where
  "getAttempt aid db =
     (case find (\<lambda>r. ar_id r = aid) (db_attempts db) of
        None \<Rightarrow> Inl ErrNotFound | Some r \<Rightarrow> Inr (attempt_of r))"

definition desired_of :: "string \<Rightarrow> deployment_db \<Rightarrow> store_error + compose_file" where
  "desired_of did db =
     (case find_deployment did db of
        None \<Rightarrow> Inl ErrNotFound | Some r \<Rightarrow> Inr (prep_Definition (dr_desired r)))"

text \<open>The newest deployment of a stack: the last row of the table.\<close>

definition latest_row :: "string \<Rightarrow> deployment_db \<Rightarrow> deployment_row option" where
  "latest_row stack db =
     (case filter (\<lambda>r. dr_stack r = stack) (db_deployments db) of [] \<Rightarrow> None | rs \<Rightarrow> Some (last rs))"

definition latest :: "string \<Rightarrow> deployment_db \<Rightarrow> store_error + deployment \<times> prepared" where
  "latest stack db =
     (case latest_row stack db of
        None \<Rightarrow> Inl ErrNotFound
      | Some r \<Rightarrow>
          (case get_deployment (dr_id r) db of
             Inl e \<Rightarrow> Inl e
           | Inr d \<Rightarrow>
               (case find_deployment (dr_id r) db of
                  None \<Rightarrow> Inl ErrNotFound | Some r \<Rightarrow> Inr (d, dr_desired r))))"

definition baseline :: "string \<Rightarrow> deployment_db \<Rightarrow> store_error + prepared" where
  "baseline stack db =
     (case fmlookup (db_snapshots db) stack of
        None \<Rightarrow> Inl ErrNotFound
      | Some did \<Rightarrow>
          (case find (\<lambda>r. dr_id r = did \<and> dr_status r = Succeeded) (db_deployments db) of
             None \<Rightarrow> Inl ErrNotFound | Some r \<Rightarrow> Inr (dr_desired r)))"

definition baselineDeploymentID :: "string \<Rightarrow> deployment_db \<Rightarrow> store_error + string" where
  "baselineDeploymentID stack db =
     (case fmlookup (db_snapshots db) stack of None \<Rightarrow> Inl ErrNotFound | Some did \<Rightarrow> Inr did)"

text \<open>An empty stack name means all stacks.\<close>

definition runningAttempts :: "string \<Rightarrow> deployment_db \<Rightarrow> attempt list" where
  "runningAttempts stack db =
     map attempt_of (filter (\<lambda>a. ar_status a = Running \<and>
       (\<exists>r \<in> set (db_deployments db). dr_id r = ar_deployment_id a \<and> (stack = '''' \<or> dr_stack r = stack)))
       (db_attempts db))"

definition legacyRunning :: "string \<Rightarrow> deployment_db \<Rightarrow> deployment list" where
  "legacyRunning stack db =
     map (\<lambda>r. deployment_of r db) (filter (\<lambda>r. dr_status r = Running \<and>
       \<not> (\<exists>a \<in> set (db_attempts db). ar_deployment_id a = dr_id r) \<and> (stack = '''' \<or> dr_stack r = stack))
       (db_deployments db))"

section \<open>Statements\<close>

definition row_of_attempt :: "attempt \<Rightarrow> attempt_row" where
  "row_of_attempt a =
     \<lparr>ar_id = a_ID a, ar_deployment_id = a_DeploymentID a, ar_number = a_Number a, ar_status = a_Status a,
      ar_error_code = a_ErrorCode a, ar_phase = a_Phase a, ar_started_at = a_StartedAt a,
      ar_finished_at = None,
      ar_details =
        \<lparr>det_UpdateGenerations = fmempty, det_UnresolvedServices = None, det_ErrorDiagnostic = '''',
         det_Retryable = False, det_ApplyStatus = a_ApplyStatus a,
         det_VerificationStatus = a_VerificationStatus a, det_CleanupStatus = a_CleanupStatus a,
         det_ActualStateStatus = a_ActualStateStatus a, det_ObservedAt = None,
         det_ComparisonBasis = BasisNone, det_BasisDeploymentID = ''''\<rparr>\<rparr>"

text \<open>
  \<open>insertAttemptRow\<close>: primary key, foreign key, the unique indexes on the number and on the running
  attempt of a deployment, and the CHECKs on the number and on the missing finish time.
\<close>

definition insertAttemptRow :: "attempt \<Rightarrow> deployment_db \<Rightarrow> store_error option \<times> deployment_db" where
  "insertAttemptRow a db =
     (if IsZero (a_StartedAt a) then (Some StartTimeRequired, db)
      else if a_ID a \<in> ar_id ` set (db_attempts db) \<or>
        a_DeploymentID a \<notin> dr_id ` set (db_deployments db) \<or>
        (\<exists>r \<in> set (db_attempts db). ar_deployment_id r = a_DeploymentID a \<and>
           (ar_number r = a_Number a \<or> ar_status r = Running)) \<or>
        a_Number a = 0 \<or> a_Status a \<noteq> Running
      then (Some ConstraintViolation, db)
      else (None, db\<lparr>db_attempts := db_attempts db @ [row_of_attempt a]\<rparr>))"

definition row_of_deployment :: "deployment \<Rightarrow> prepared \<Rightarrow> deployment_row" where
  "row_of_deployment d desired =
     \<lparr>dr_id = d_ID d, dr_stack = d_Stack d, dr_commit = d_Commit d, dr_status = d_Status d,
      dr_error_code = d_ErrorCode d, dr_phase = d_Phase d, dr_started_at = d_StartedAt d,
      dr_finished_at = None, dr_desired = desired, dr_details = detailsFromDeployment d\<rparr>"

definition store_createDeployment ::
    "deployment \<Rightarrow> prepared \<Rightarrow> attempt \<Rightarrow> deployment_db \<Rightarrow> store_error option \<times> deployment_db" where
  "store_createDeployment d desired a db =
     (if IsZero (d_StartedAt d) then (Some StartTimeRequired, db)
      else if d_ID d \<in> dr_id ` set (db_deployments db) \<or>
        (\<exists>r \<in> set (db_deployments db). dr_stack r = d_Stack d \<and> dr_status r = Running) \<or>
        d_Status d \<noteq> Running
      then (Some ConstraintViolation, db)
      else insertAttemptRow a
             (db\<lparr>db_deployments := db_deployments db @ [row_of_deployment d desired]\<rparr>))"

definition update_deployments ::
    "(deployment_row \<Rightarrow> bool) \<Rightarrow> (deployment_row \<Rightarrow> deployment_row) \<Rightarrow> deployment_db \<Rightarrow> nat \<times> deployment_db" where
  "update_deployments P f db =
     (length (filter P (db_deployments db)),
      db\<lparr>db_deployments := map (\<lambda>r. if P r then f r else r) (db_deployments db)\<rparr>)"

definition update_attempts ::
    "(attempt_row \<Rightarrow> bool) \<Rightarrow> (attempt_row \<Rightarrow> attempt_row) \<Rightarrow> deployment_db \<Rightarrow> nat \<times> deployment_db" where
  "update_attempts P f db =
     (length (filter P (db_attempts db)),
      db\<lparr>db_attempts := map (\<lambda>r. if P r then f r else r) (db_attempts db)\<rparr>)"

definition requireOneRunning :: "nat \<Rightarrow> store_error option" where
  "requireOneRunning n = (if n \<noteq> 1 then Some ErrNotRunning else None)"

definition restart_row :: "deployment \<Rightarrow> deployment_row \<Rightarrow> deployment_row" where
  "restart_row d r =
     r\<lparr>dr_status := Running, dr_error_code := '''', dr_phase := PhaseApply, dr_finished_at := None,
       dr_details := detailsFromDeployment
         (d\<lparr>d_ErrorDiagnostic := '''', d_ApplyStatus := StageRunning, d_Retryable := False,
            d_VerificationStatus := StagePending, d_CleanupStatus := StagePending,
            d_ActualStateStatus := ActualStateUnknown, d_ObservedAt := None\<rparr>)\<rparr>"

text \<open>\<open>StartAttempt\<close>; the update may violate the unique index on the running deployment of a stack.\<close>

definition startAttempt :: "deployment \<Rightarrow> attempt \<Rightarrow> deployment_db \<Rightarrow> store_error option \<times> deployment_db" where
  "startAttempt d a db =
     (case insertAttemptRow a db of
        (Some e, db1) \<Rightarrow> (Some e, db1)
      | (None, db1) \<Rightarrow>
          let P = (\<lambda>r. dr_id r = d_ID d \<and> (dr_status r = Failed \<or> dr_status r = Interrupted));
              (n, db2) = update_deployments P (restart_row d) db1
          in if (\<exists>r \<in> set (db_deployments db1). P r \<and>
                   (\<exists>q \<in> set (db_deployments db1). dr_stack q = dr_stack r \<and> dr_status q = Running))
             then (Some ConstraintViolation, db1)
             else (requireOneRunning n, db2))"

definition finish_row :: "attempt \<Rightarrow> attempt_row \<Rightarrow> attempt_row" where
  "finish_row a r =
     r\<lparr>ar_status := a_Status a, ar_error_code := a_ErrorCode a, ar_phase := a_Phase a,
       ar_finished_at := a_FinishedAt a,
       ar_details :=
         \<lparr>det_UpdateGenerations = fmempty, det_UnresolvedServices = None,
          det_ErrorDiagnostic = a_ErrorDiagnostic a, det_Retryable = a_Retryable a,
          det_ApplyStatus = a_ApplyStatus a, det_VerificationStatus = a_VerificationStatus a,
          det_CleanupStatus = a_CleanupStatus a, det_ActualStateStatus = a_ActualStateStatus a,
          det_ObservedAt = a_ObservedAt a, det_ComparisonBasis = BasisNone, det_BasisDeploymentID = ''''\<rparr>\<rparr>"

text \<open>The deployment with the outcome of an attempt, and its updated row.\<close>

definition with_outcome :: "attempt \<Rightarrow> deployment \<Rightarrow> deployment" where
  "with_outcome a d =
     d\<lparr>d_ErrorDiagnostic := a_ErrorDiagnostic a, d_ApplyStatus := a_ApplyStatus a,
       d_Retryable := a_Retryable a, d_VerificationStatus := a_VerificationStatus a,
       d_CleanupStatus := a_CleanupStatus a, d_ActualStateStatus := a_ActualStateStatus a,
       d_ObservedAt := a_ObservedAt a\<rparr>"

definition outcome_row :: "deployment \<Rightarrow> attempt \<Rightarrow> gotime \<Rightarrow> deployment_row \<Rightarrow> deployment_row" where
  "outcome_row d a finished r =
     r\<lparr>dr_status := a_Status a, dr_error_code := a_ErrorCode a, dr_phase := a_Phase a,
       dr_finished_at := Some finished, dr_details := detailsFromDeployment (with_outcome a d)\<rparr>"

definition finishAttempt :: "deployment \<Rightarrow> attempt \<Rightarrow> deployment_db \<Rightarrow> store_error option \<times> deployment_db" where
  "finishAttempt d a db =
     (case a_FinishedAt a of
        None \<Rightarrow> (Some FinishTimeRequired, db)
      | Some finished \<Rightarrow>
          if IsZero finished then (Some FinishTimeRequired, db)
          else
            let (n, db1) = update_attempts
                  (\<lambda>r. ar_id r = a_ID a \<and> ar_deployment_id r = d_ID d \<and> ar_status r = Running)
                  (finish_row a) db
            in case requireOneRunning n of
                 Some e \<Rightarrow> (Some e, db1)
               | None \<Rightarrow>
                   let (m, db2) = update_deployments
                         (\<lambda>r. dr_id r = d_ID d \<and> dr_status r = Running \<and>
                            \<not> (\<exists>q \<in> set (db_attempts db1). ar_deployment_id q = dr_id r \<and> a_Number a < ar_number q))
                         (outcome_row d a finished) db1
                   in (requireOneRunning m, db2))"

definition synchronizeRunningAttempt :: "attempt \<Rightarrow> deployment_db \<Rightarrow> bool \<times> deployment_db" where
  "synchronizeRunningAttempt a db =
     (case find (\<lambda>r. dr_id r = a_DeploymentID a) (db_deployments db) of
        None \<Rightarrow> (False, db)
      | Some d \<Rightarrow>
          if dr_status d = Succeeded \<or> dr_status d = Failed \<or> dr_status d = Interrupted
          then let (n, db') = update_attempts
                     (\<lambda>r. ar_id r = a_ID a \<and> ar_deployment_id r = a_DeploymentID a \<and> ar_status r = Running)
                     (\<lambda>r. r\<lparr>ar_status := dr_status d, ar_error_code := dr_error_code d, ar_phase := dr_phase d,
                            ar_finished_at := dr_finished_at d, ar_details := dr_details d\<rparr>) db
               in (n = 1, db')
          else (False, db))"

definition saveBaseline :: "string \<Rightarrow> deployment_db \<Rightarrow> deployment_db" where
  "saveBaseline did db =
     (case find (\<lambda>r. dr_id r = did \<and> dr_status r = Succeeded) (db_deployments db) of
        None \<Rightarrow> db
      | Some r \<Rightarrow> db\<lparr>db_snapshots := fmupd (dr_stack r) did (db_snapshots db)\<rparr>)"

definition saveVerification :: "deployment \<Rightarrow> deployment_db \<Rightarrow> store_error option \<times> deployment_db" where
  "saveVerification d db =
     (let (n, db') = update_deployments (\<lambda>r. dr_id r = d_ID d \<and> dr_status r = Running)
            (\<lambda>r. r\<lparr>dr_details := detailsFromDeployment d\<rparr>) db
      in (requireOneRunning n, db'))"

end
