(* ===== verification/DeploymentService.thy ===== *)
theory DeploymentService
  imports DeploymentStore
begin

text \<open>
  The deployment lifecycle (\<open>internal/modules/deployments\<close>): \<open>service.go\<close> (starting, retrying and
  recovering attempts), \<open>completion.go\<close> (terminal transitions) and \<open>verification.go\<close> (rollout
  obligations).

  Generated IDs and clock readings are arguments. \<open>Prepare\<close> (\<open>model/snapshot.go\<close>) has run before:
  the desired state arrives prepared. A diagnostic is its sanitized text with the classifications
  that \<open>errors.Is\<close> and \<open>errors.As\<close> read from the error.
\<close>

section \<open>Completion\<close>

datatype completion_outcome =
    CompletionSucceeded | CompletionApplyFailed | CompletionPolicyRejected | CompletionInitJobFailed
  | CompletionConvergenceFailed | CompletionVerificationInterrupted | CompletionCleanupFailed
  | CompletionProcessInterrupted

record diagnostic =
  diag_Text :: string
  diag_DeadlineExceeded :: bool
  diag_UpdateDeferred :: bool
  diag_Temporary :: bool

record completion =
  comp_Verification :: verification
  comp_Outcome :: completion_outcome
  comp_Diagnostic :: "diagnostic option"
  comp_Retryable :: bool
  comp_ObservedAt :: "gotime option"

record completion_state =
  st_rolloutVerification :: verification
  st_status :: status
  st_errorCode :: string
  st_diagnostic :: "diagnostic option"
  st_retryable :: bool
  st_phase :: phase
  st_apply :: stage_status
  st_verification :: stage_status
  st_cleanup :: stage_status
  st_actual :: actual_state
  st_observedAt :: "gotime option"
  st_eventStage :: string

abbreviation unknown_verification :: verification where
  "unknown_verification \<equiv> \<lparr>ver_Known = False, ver_UnresolvedServices = [], ver_Generations = fmempty\<rparr>"

abbreviation settled_verification :: verification where
  "settled_verification \<equiv> \<lparr>ver_Known = True, ver_UnresolvedServices = [], ver_Generations = fmempty\<rparr>"

fun errorCode :: "completion_outcome \<Rightarrow> string" where
  "errorCode CompletionSucceeded = ''''"
| "errorCode CompletionApplyFailed = ''apply_failed''"
| "errorCode CompletionPolicyRejected = ''policy_rejected''"
| "errorCode CompletionInitJobFailed = ''init_failed''"
| "errorCode CompletionConvergenceFailed = ''convergence_failed''"
| "errorCode CompletionVerificationInterrupted = ''verification_unknown''"
| "errorCode CompletionCleanupFailed = ''prune_failed''"
| "errorCode CompletionProcessInterrupted = ''process_interrupted''"

definition rolloutObligations :: "completion \<Rightarrow> verification" where
  "rolloutObligations c =
     (if \<not> ver_Known (comp_Verification c) \<and>
        (comp_Outcome c = CompletionInitJobFailed \<or> comp_Outcome c = CompletionPolicyRejected)
      then settled_verification else comp_Verification c)"

definition completion_retryable :: "completion \<Rightarrow> bool" where
  "completion_retryable c =
     (case comp_Outcome c of
        CompletionVerificationInterrupted \<Rightarrow> True
      | CompletionProcessInterrupted \<Rightarrow> True
      | CompletionSucceeded \<Rightarrow> False
      | CompletionPolicyRejected \<Rightarrow> False
      | CompletionConvergenceFailed \<Rightarrow> False
      | _ \<Rightarrow>
          (comp_Outcome c = CompletionApplyFailed \<and> comp_Retryable c) \<or>
          (case comp_Diagnostic c of
             None \<Rightarrow> False
           | Some e \<Rightarrow> diag_DeadlineExceeded e \<or> diag_UpdateDeferred e \<or> diag_Temporary e))"

definition phase_text :: "phase \<Rightarrow> string" where
  "phase_text p =
     (case p of PhaseApply \<Rightarrow> ''apply'' | PhaseVerification \<Rightarrow> ''verification''
      | PhaseCleanup \<Rightarrow> ''cleanup'' | PhaseCompleted \<Rightarrow> ''completed'')"

text \<open>\<open>Completion.state\<close>: \<open>None\<close> is an inconsistent completion.\<close>

definition completion_state :: "completion \<Rightarrow> completion_state option" where
  "completion_state c =
     (let st = (\<lambda>status phase apply verification cleanup actual eventStage.
            \<lparr>st_rolloutVerification = rolloutObligations c, st_status = status,
             st_errorCode = errorCode (comp_Outcome c), st_diagnostic = comp_Diagnostic c,
             st_retryable = completion_retryable c, st_phase = phase, st_apply = apply,
             st_verification = verification, st_cleanup = cleanup, st_actual = actual,
             st_observedAt = comp_ObservedAt c, st_eventStage = eventStage\<rparr>);
          observed = (comp_ObservedAt c \<noteq> None)
      in case comp_Outcome c of
           CompletionSucceeded \<Rightarrow>
             if comp_Diagnostic c \<noteq> None then None
             else Some (st Succeeded PhaseCompleted StageSucceeded StageSkipped StageSucceeded
                         (if observed then ActualStateObserved else ActualStateUnknown) '''')
         | CompletionConvergenceFailed \<Rightarrow>
             if observed then None
             else Some (st Failed PhaseVerification StageSucceeded StageFailed StageSkipped ActualStateUnknown
                         (phase_text PhaseVerification))
         | CompletionVerificationInterrupted \<Rightarrow>
             if observed then None
             else Some (st Interrupted PhaseVerification StageSucceeded StageUnknown StageSkipped ActualStateUnknown
                         (phase_text PhaseVerification))
         | CompletionCleanupFailed \<Rightarrow>
             if \<not> observed then None
             else Some (st Failed PhaseCleanup StageSucceeded StageSkipped StageFailed ActualStateObserved
                         (phase_text PhaseCleanup))
         | CompletionProcessInterrupted \<Rightarrow>
             if observed then None
             else Some (st Interrupted PhaseApply StageUnknown StageSkipped StageSkipped ActualStateUnknown '''')
         | _ \<Rightarrow>
             if observed then None
             else Some (st Failed PhaseApply StageFailed StageSkipped StageSkipped ActualStateUnknown
                         (phase_text PhaseApply)))"

definition unresolvedGenerations :: "verification \<Rightarrow> string list \<Rightarrow> (string, update_generation) gomap" where
  "unresolvedGenerations v names = fmfilter (\<lambda>n. n \<in> set names) (ver_Generations v)"

text \<open>The rollout obligations after a completion; \<open>desired\<close> are the names of the desired services.\<close>

definition completed_verification :: "completion_state \<Rightarrow> verification \<Rightarrow> string list \<Rightarrow> verification" where
  "completed_verification st v desired =
     (if st_status st = Succeeded then settled_verification
      else
        let unresolved = (if ver_Known (st_rolloutVerification st)
              then ver_UnresolvedServices (st_rolloutVerification st) else desired);
            names = remdups_adj (sort (unresolved @
              (if st_phase st = PhaseApply then ver_UnresolvedServices v else [])))
        in \<lparr>ver_Known = True, ver_UnresolvedServices = names,
            ver_Generations = unresolvedGenerations v names\<rparr>)"

definition diagnostic_text :: "diagnostic option \<Rightarrow> string" where
  "diagnostic_text e = (case e of None \<Rightarrow> '''' | Some e \<Rightarrow> diag_Text e)"

definition completion_event :: "deployment \<Rightarrow> attempt \<Rightarrow> completion_state \<Rightarrow> deployment_event option" where
  "completion_event d a st =
     (case st_status st of
        Succeeded \<Rightarrow> Some (DeploySuccess (d_ID d) (a_ID a) (d_Stack d) (d_Commit d))
      | Failed \<Rightarrow> Some (DeployFailed (d_ID d) (a_ID a) (d_Stack d) (d_Commit d) (st_errorCode st) (st_eventStage st))
      | Interrupted \<Rightarrow>
          Some (DeployInterrupted (d_ID d) (a_ID a) (d_Stack d) (d_Commit d) (st_errorCode st) (st_eventStage st))
      | _ \<Rightarrow> None)"

definition publish_event :: "deployment_event option \<Rightarrow> deployment_db \<Rightarrow> store_error option \<times> deployment_db" where
  "publish_event ev db =
     (case ev of None \<Rightarrow> (Some InvalidCompletion, db) | Some ev \<Rightarrow> (None, db\<lparr>db_published := db_published db @ [ev]\<rparr>))"

definition finished_attempt :: "completion_state \<Rightarrow> gotime \<Rightarrow> attempt \<Rightarrow> attempt" where
  "finished_attempt st now a =
     a\<lparr>a_Status := st_status st, a_FinishedAt := Some now, a_ErrorCode := st_errorCode st,
       a_ErrorDiagnostic := diagnostic_text (st_diagnostic st), a_Retryable := st_retryable st,
       a_Phase := st_phase st, a_ApplyStatus := st_apply st, a_VerificationStatus := st_verification st,
       a_CleanupStatus := st_cleanup st, a_ActualStateStatus := st_actual st,
       a_ObservedAt := st_observedAt st\<rparr>"

text \<open>\<open>complete\<close>, in the transaction of its caller.\<close>

definition complete_body ::
    "string \<Rightarrow> completion_state \<Rightarrow> gotime \<Rightarrow> deployment_db \<Rightarrow> store_error option \<times> deployment_db" where
  "complete_body aid st now db =
     (case getAttempt aid db of
        Inl e \<Rightarrow> (Some e, db)
      | Inr a \<Rightarrow>
          (case get_deployment (a_DeploymentID a) db of
             Inl e \<Rightarrow> (Some e, db)
           | Inr d \<Rightarrow>
               if a_Status a \<noteq> Running \<or> d_Status d \<noteq> Running \<or> d_LatestAttemptID d \<noteq> a_ID a
               then (Some ErrNotRunning, db)
               else
                 (case desired_of (d_ID d) db of
                    Inl e \<Rightarrow> (Some e, db)
                  | Inr desired \<Rightarrow>
                      let a' = finished_attempt st now a;
                          d' = d\<lparr>d_Verification :=
                                 completed_verification st (d_Verification d) (file_ServiceNames desired)\<rparr>
                      in case finishAttempt d' a' db of
                           (Some e, db1) \<Rightarrow> (Some e, db1)
                         | (None, db1) \<Rightarrow>
                             let db2 = (if st_status st = Succeeded then saveBaseline (d_ID d) db1 else db1)
                             in publish_event (completion_event d' a' st) db2)))"

definition complete ::
    "store_error option \<Rightarrow> string \<Rightarrow> completion \<Rightarrow> gotime \<Rightarrow> deployment_db \<Rightarrow> store_error option \<times> deployment_db" where
  "complete fault aid c now db =
     (case completion_state c of
        None \<Rightarrow> (Some InvalidCompletion, db)
      | Some st \<Rightarrow> within_tx fault (complete_body aid st now) db)"

definition process_interrupted :: completion where
  "process_interrupted =
     \<lparr>comp_Verification = unknown_verification, comp_Outcome = CompletionProcessInterrupted,
      comp_Diagnostic = None, comp_Retryable = False, comp_ObservedAt = None\<rparr>"

section \<open>Starting attempts\<close>

definition automaticRetryDelay :: duration where
  "automaticRetryDelay = minute"

definition maximumRetryDelay :: duration where
  "maximumRetryDelay = hour"

definition newAttempt :: "string \<Rightarrow> string \<Rightarrow> nat \<Rightarrow> gotime \<Rightarrow> attempt" where
  "newAttempt aid did number now =
     \<lparr>a_ID = aid, a_DeploymentID = did, a_Number = number, a_Status = Running, a_StartedAt = now,
      a_FinishedAt = None, a_ErrorCode = '''', a_ErrorDiagnostic = '''', a_Retryable = False,
      a_Phase = PhaseApply, a_ApplyStatus = StageRunning, a_VerificationStatus = StagePending,
      a_CleanupStatus = StagePending, a_ActualStateStatus = ActualStateUnknown, a_ObservedAt = None\<rparr>"

text \<open>The loop of \<open>automaticRetryAllowed\<close>: \<open>n\<close> rounds are left.\<close>

fun retry_delay :: "nat \<Rightarrow> duration \<Rightarrow> duration" where
  "retry_delay 0 delay = delay"
| "retry_delay (Suc n) delay =
     (if delay < maximumRetryDelay then retry_delay n (min (delay * 2) maximumRetryDelay) else delay)"

definition automaticRetryAllowed :: "gotime \<Rightarrow> deployment \<Rightarrow> bool" where
  "automaticRetryAllowed now d =
     (if \<not> d_Retryable d then False
      else case d_FinishedAt d of
             None \<Rightarrow> False
           | Some finished \<Rightarrow> \<not> now < finished + retry_delay (d_AttemptCount d - 1) automaticRetryDelay)"

definition desiredServiceRemovals :: "compose_file \<Rightarrow> compose_file \<Rightarrow> string list" where
  "desiredServiceRemovals previous current =
     sort (filter (\<lambda>n. n \<notin> set (file_ServiceNames current)) (file_ServiceNames previous))"

definition unresolvedServices :: "deployment \<Rightarrow> compose_file \<Rightarrow> string list" where
  "unresolvedServices previous desired =
     (let failed = (d_Status previous = Failed \<or> d_Status previous = Interrupted)
      in if \<not> ver_Known (d_Verification previous) \<and> failed then file_ServiceNames desired
         else filter (\<lambda>n. n \<in> set (ver_UnresolvedServices (d_Verification previous))) (file_ServiceNames desired))"

text \<open>The basis of the display diff of a new deployment.\<close>

definition comparisonBasis :: "string \<Rightarrow> deployment_db \<Rightarrow> store_error + comparison_basis \<times> string" where
  "comparisonBasis stack db =
     (case baseline stack db of
        Inl e \<Rightarrow> if e = ErrNotFound then Inr (BasisNone, '''') else Inl e
      | Inr _ \<Rightarrow>
          (case baselineDeploymentID stack db of
             Inl e \<Rightarrow> Inl e | Inr did \<Rightarrow> Inr (BasisSuccessfulBaseline, did)))"

definition newDeployment ::
    "string \<Rightarrow> attempt \<Rightarrow> string \<Rightarrow> string \<Rightarrow> comparison_basis \<Rightarrow> string \<Rightarrow> deployment" where
  "newDeployment did a stack commit basis basisID =
     \<lparr>d_Verification = unknown_verification, d_ID = did, d_Stack = stack, d_Commit = commit,
      d_Status = Running, d_StartedAt = a_StartedAt a, d_FinishedAt = None, d_ErrorCode = '''',
      d_ErrorDiagnostic = '''', d_Retryable = False, d_Phase = PhaseApply, d_ApplyStatus = StageRunning,
      d_VerificationStatus = StagePending, d_CleanupStatus = StagePending,
      d_ActualStateStatus = ActualStateUnknown, d_ObservedAt = None, d_ComparisonBasis = basis,
      d_BasisDeploymentID = basisID, d_LatestAttemptID = a_ID a, d_AttemptCount = 1, d_Attempts = []\<rparr>"

text \<open>The result of a start: an error, or the new attempt if there is one.\<close>

definition createDeployment ::
    "string \<times> string \<Rightarrow> gotime \<Rightarrow> string \<Rightarrow> string \<Rightarrow> prepared \<Rightarrow> verification option \<Rightarrow> deployment_db \<Rightarrow>
     (store_error + attempt option) \<times> deployment_db" where
  "createDeployment ids now stack commit desired inherited db =
     (case comparisonBasis stack db of
        Inl e \<Rightarrow> (Inl e, db)
      | Inr (basis, basisID) \<Rightarrow>
          let a = newAttempt (snd ids) (fst ids) 1 now;
              d = newDeployment (fst ids) a stack commit basis basisID;
              d' = (case inherited of None \<Rightarrow> d | Some v \<Rightarrow> d\<lparr>d_Verification := v\<rparr>)
          in case store_createDeployment d' desired a db of
               (Some e, db1) \<Rightarrow> (Inl e, db1)
             | (None, db1) \<Rightarrow> (Inr (Some a), db1))"

definition startExisting ::
    "string \<Rightarrow> gotime \<Rightarrow> gotime \<Rightarrow> deployment \<Rightarrow> bool \<Rightarrow> deployment_db \<Rightarrow>
     (store_error + attempt option) \<times> deployment_db" where
  "startExisting aid now1 now2 d manualRetry db =
     (case d_Status d of
        Succeeded \<Rightarrow> (Inr None, db)
      | Running \<Rightarrow> (Inr None, db)
      | Superseded \<Rightarrow> (Inl ErrInconsistentDeployment, db)
      | _ \<Rightarrow>
          if \<not> manualRetry \<and> \<not> automaticRetryAllowed now1 d then (Inr None, db)
          else
            let a = newAttempt aid (d_ID d) (d_AttemptCount d + 1) now2
            in case startAttempt d a db of
                 (Some e, db1) \<Rightarrow> (Inl e, db1)
               | (None, db1) \<Rightarrow> (Inr (Some a), db1))"

text \<open>\<open>runningAttempt\<close>: an attempt is created for a deployment that predates attempts.\<close>

definition runningAttempt ::
    "string \<Rightarrow> deployment \<Rightarrow> deployment_db \<Rightarrow> (store_error + attempt) \<times> deployment_db" where
  "runningAttempt legacyID d db =
     (case d_Attempts d of
        a # _ \<Rightarrow> (Inr a, db)
      | [] \<Rightarrow>
          let a = newAttempt legacyID (d_ID d) 1 (d_StartedAt d)
          in case insertAttemptRow a db of
               (Some e, db1) \<Rightarrow> (Inl e, db1)
             | (None, db1) \<Rightarrow> (Inr a, db1))"

definition supersedePrevious ::
    "string \<Rightarrow> gotime \<Rightarrow> deployment \<Rightarrow> deployment_db \<Rightarrow> store_error option \<times> deployment_db" where
  "supersedePrevious legacyID now d db =
     (if d_Status d \<noteq> Running then (None, db)
      else case runningAttempt legacyID d db of
             (Inl e, db1) \<Rightarrow> (Some e, db1)
           | (Inr a, db1) \<Rightarrow>
               (case completion_state process_interrupted of
                  None \<Rightarrow> (Some InvalidCompletion, db1)
                | Some st \<Rightarrow> complete_body (a_ID a) st now db1))"

definition publish_removals ::
    "string \<Rightarrow> string \<Rightarrow> string list \<Rightarrow> deployment_db \<Rightarrow> deployment_db" where
  "publish_removals stack commit names db =
     db\<lparr>db_published := db_published db @ map (\<lambda>n. ServiceRemovedFromDesired stack n commit) names\<rparr>"

definition startPrepared ::
    "string \<times> string \<times> string \<Rightarrow> gotime \<Rightarrow> gotime \<Rightarrow> string \<Rightarrow> string \<Rightarrow> prepared \<Rightarrow> bool \<Rightarrow> bool \<Rightarrow>
     deployment_db \<Rightarrow> (store_error + attempt option) \<times> deployment_db" where
  "startPrepared ids now1 now2 stack commit desired sourceChanged manualRetry db =
     (case ids of
        (legacyID, did, aid) \<Rightarrow>
          (case latest stack db of
             Inl e \<Rightarrow>
               if e = ErrNotFound
               then (if \<not> sourceChanged then (Inr None, db)
                     else createDeployment (did, aid) now2 stack commit desired None db)
               else (Inl e, db)
           | Inr (prev, prevDesired) \<Rightarrow>
               if prep_Digest prevDesired = prep_Digest desired
               then startExisting aid now1 now2 prev manualRetry db
               else
                 let removed = desiredServiceRemovals (prep_Definition prevDesired) (prep_Definition desired)
                 in case supersedePrevious legacyID now1 prev db of
                      (Some e, db1) \<Rightarrow> (Inl e, db1)
                    | (None, db1) \<Rightarrow>
                        (case (if d_Status prev = Running then get_deployment (d_ID prev) db1 else Inr prev) of
                           Inl e \<Rightarrow> (Inl e, db1)
                         | Inr prev' \<Rightarrow>
                             let names = unresolvedServices prev' (prep_Definition desired);
                                 v = \<lparr>ver_Known = True, ver_UnresolvedServices = names,
                                      ver_Generations = unresolvedGenerations (d_Verification prev') names\<rparr>
                             in case createDeployment (did, aid) now2 stack commit desired (Some v) db1 of
                                  (Inl e, db2) \<Rightarrow> (Inl e, db2)
                                | (Inr a, db2) \<Rightarrow> (Inr a, publish_removals stack commit removed db2))))"

text \<open>\<open>StartIfChanged\<close>: a transaction; on an error nothing is kept and there is no attempt.\<close>

definition startIfChanged ::
    "store_error option \<Rightarrow> string \<times> string \<times> string \<Rightarrow> gotime \<Rightarrow> gotime \<Rightarrow> string \<Rightarrow> string \<Rightarrow> prepared \<Rightarrow>
     bool \<Rightarrow> bool \<Rightarrow> deployment_db \<Rightarrow> (store_error + attempt option) \<times> deployment_db" where
  "startIfChanged fault ids now1 now2 stack commit desired sourceChanged manualRetry db =
     (case startPrepared ids now1 now2 stack commit desired sourceChanged manualRetry db of
        (Inl e, _) \<Rightarrow> (Inl e, db)
      | (Inr a, db') \<Rightarrow> (case fault of None \<Rightarrow> (Inr a, db') | Some e \<Rightarrow> (Inl e, db)))"

section \<open>Recovery\<close>

text \<open>\<open>interruptAttempts\<close>; every attempt is synchronized with its deployment or interrupted.\<close>

fun interruptAttempts :: "gotime \<Rightarrow> attempt list \<Rightarrow> deployment_db \<Rightarrow> store_error option \<times> deployment_db" where
  "interruptAttempts now [] db = (None, db)"
| "interruptAttempts now (a # rest) db =
     (case completion_state process_interrupted of
        None \<Rightarrow> (Some InvalidCompletion, db)
      | Some st \<Rightarrow>
          (case synchronizeRunningAttempt a db of
             (True, db1) \<Rightarrow> interruptAttempts now rest db1
           | (False, db1) \<Rightarrow>
               (case complete_body (a_ID a) st now db1 of
                  (Some e, db2) \<Rightarrow> (Some e, db2)
                | (None, db2) \<Rightarrow> interruptAttempts now rest db2)))"

text \<open>The attempts of the deployments without one, with one generated ID for each.\<close>

fun materialize ::
    "(deployment \<times> string) list \<Rightarrow> deployment_db \<Rightarrow> (store_error + attempt list) \<times> deployment_db" where
  "materialize [] db = (Inr [], db)"
| "materialize ((d, legacyID) # rest) db =
     (case runningAttempt legacyID d db of
        (Inl e, db1) \<Rightarrow> (Inl e, db1)
      | (Inr a, db1) \<Rightarrow>
          (case materialize rest db1 of
             (Inl e, db2) \<Rightarrow> (Inl e, db2)
           | (Inr as, db2) \<Rightarrow> (Inr (a # as), db2)))"

definition interruptRunning ::
    "store_error option \<Rightarrow> (nat \<Rightarrow> string) \<Rightarrow> gotime \<Rightarrow> deployment_db \<Rightarrow> store_error option \<times> deployment_db" where
  "interruptRunning fault legacyIDs now =
     within_tx fault (\<lambda>db.
       let running = runningAttempts '''' db;
           legacy = legacyRunning '''' db
       in case materialize (zip legacy (map legacyIDs [0 ..< length legacy])) db of
            (Inl e, db1) \<Rightarrow> (Some e, db1)
          | (Inr as, db1) \<Rightarrow> interruptAttempts now (running @ as) db1)"

section \<open>Rollout obligations of a running attempt\<close>

definition verificationDeployment :: "string \<Rightarrow> deployment_db \<Rightarrow> store_error + deployment" where
  "verificationDeployment aid db =
     (case getAttempt aid db of
        Inl e \<Rightarrow> Inl e
      | Inr a \<Rightarrow>
          (case get_deployment (a_DeploymentID a) db of
             Inl e \<Rightarrow> Inl e
           | Inr d \<Rightarrow> if a_Status a \<noteq> Running \<or> d_LatestAttemptID d \<noteq> aid then Inl ErrNotRunning else Inr d))"

text \<open>
  \<open>RecordUpdateGeneration\<close>: the result carries what the returned callback captures, the previous
  generation and whether the service was already unresolved.
\<close>

definition recorded_verification :: "string \<Rightarrow> update_generation \<Rightarrow> verification \<Rightarrow> verification" where
  "recorded_verification name generation v =
     v\<lparr>ver_Generations := fmupd name generation (ver_Generations v),
       ver_UnresolvedServices :=
         ver_UnresolvedServices v @ (if name \<in> set (ver_UnresolvedServices v) then [] else [name])\<rparr>"

definition recordUpdateGeneration ::
    "store_error option \<Rightarrow> string \<Rightarrow> string \<Rightarrow> update_generation \<Rightarrow> deployment_db \<Rightarrow>
     (store_error + update_generation option \<times> bool) \<times> deployment_db" where
  "recordUpdateGeneration fault aid name generation db =
     (case verificationDeployment aid db of
        Inl e \<Rightarrow> (Inl e, db)
      | Inr d \<Rightarrow>
          let v = d_Verification d;
              previous = fmlookup (ver_Generations v) name;
              unresolved = (name \<in> set (ver_UnresolvedServices v))
          in case within_tx fault
                    (saveVerification (d\<lparr>d_Verification := recorded_verification name generation v\<rparr>)) db of
               (Some e, db1) \<Rightarrow> (Inl e, db1)
             | (None, db1) \<Rightarrow> (Inr (previous, unresolved), db1))"

text \<open>The callback after a definite rejection; a missing generation reads as the zero value.\<close>

definition zero_generation :: update_generation where
  "zero_generation =
     \<lparr>gen_ServiceID = '''', gen_ForceUpdate = 0, gen_After = 0, gen_Mode = VerifyUnspecified,
      gen_BeforeSpecDigest = '''', gen_TasksAfter = 0\<rparr>"

definition rejected_verification ::
    "string \<Rightarrow> update_generation option \<times> bool \<Rightarrow> verification \<Rightarrow> verification" where
  "rejected_verification name captured v =
     (let gens = fmdrop name (ver_Generations v)
      in v\<lparr>ver_Generations :=
             (case fst captured of
                Some p \<Rightarrow> if gen_ServiceID p \<noteq> '''' then fmupd name p gens else gens
              | None \<Rightarrow> gens),
           ver_UnresolvedServices :=
             (if snd captured then ver_UnresolvedServices v
              else filter (\<lambda>n. n \<noteq> name) (ver_UnresolvedServices v))\<rparr>)"

definition rejectUpdateGeneration ::
    "store_error option \<Rightarrow> string \<Rightarrow> string \<Rightarrow> update_generation \<Rightarrow> update_generation option \<times> bool \<Rightarrow>
     deployment_db \<Rightarrow> store_error option \<times> deployment_db" where
  "rejectUpdateGeneration fault aid name generation captured db =
     (case verificationDeployment aid db of
        Inl e \<Rightarrow> (Some e, db)
      | Inr d \<Rightarrow>
          let v = d_Verification d
          in if (case fmlookup (ver_Generations v) name of None \<Rightarrow> zero_generation | Some g \<Rightarrow> g) \<noteq> generation
             then (Some ErrNotRunning, db)
             else within_tx fault
                    (saveVerification (d\<lparr>d_Verification := rejected_verification name captured v\<rparr>)) db)"

end
