(* ===== verification/DeploymentLifecycle.thy ===== *)
theory DeploymentLifecycle
  imports DeploymentService
begin

text \<open>
  The invariant of the deployment tables, its preservation by every lifecycle operation, and the
  properties of the deployment lifecycle.
\<close>

section \<open>Reading the tables\<close>

definition attempts_of :: "string \<Rightarrow> deployment_db \<Rightarrow> attempt_row list" where
  "attempts_of did db = filter (\<lambda>a. ar_deployment_id a = did) (db_attempts db)"

lemma last_filter_find:
  "(case filter P xs of [] \<Rightarrow> None | ys \<Rightarrow> Some (last ys)) = find P (rev xs)"
proof (induction xs rule: rev_induct)
  case (snoc x xs)
  then show ?case by (cases "P x") (auto split: list.splits)
qed simp

lemma latest_row_find: "latest_row stack db = find (\<lambda>r. dr_stack r = stack) (rev (db_deployments db))"
  by (simp add: latest_row_def last_filter_find)

lemma find_map: "find P (map f xs) = map_option f (find (\<lambda>x. P (f x)) xs)"
  by (induction xs) auto

lemma find_append: "find P (xs @ ys) = (case find P xs of None \<Rightarrow> find P ys | Some x \<Rightarrow> Some x)"
  by (induction xs) auto

lemma find_cong_set: "(\<And>x. x \<in> set xs \<Longrightarrow> P x = Q x) \<Longrightarrow> find P xs = find Q xs"
  by (induction xs) auto

lemma find_refine: "find P xs = Some r \<Longrightarrow> Q r \<Longrightarrow> (\<And>x. Q x \<Longrightarrow> P x) \<Longrightarrow> find Q xs = Some r"
  by (induction xs) (auto split: if_splits)

lemma find_key: "distinct (map f xs) \<Longrightarrow> x \<in> set xs \<Longrightarrow> find (\<lambda>y. f y = f x) xs = Some x"
  by (induction xs) (auto simp: image_iff)

lemma find_in: "find P xs = Some x \<Longrightarrow> x \<in> set xs \<and> P x"
  by (auto simp: find_Some_iff)

text \<open>With attempts numbered upwards, newest first is the reverse of the insertion order.\<close>

lemma attempt_rows_rev:
  assumes "map ar_number (attempts_of did db) = [1 ..< Suc n]"
  shows "attempt_rows did db = rev (attempts_of did db)"
proof -
  let ?as = "attempts_of did db" and ?k = "\<lambda>a. - int (ar_number a)"
  have "attempt_rows did db = sort_key ?k ?as"
    unfolding attempt_rows_def attempts_of_def
    by (rule SortStableFunc_sort_key) (auto simp: cmp_of_less_def)
  also have "\<dots> = rev ?as"
  proof (rule sort_key_inj_key_eq)
    have "distinct (map ar_number ?as)" unfolding assms by simp
    then show "inj_on ?k (set ?as)" by (auto simp: distinct_map inj_on_def)
    have "sorted_wrt (<) (map ar_number ?as)" unfolding assms by (rule sorted_wrt_upt)
    then have "sorted_wrt (\<lambda>x y. ar_number y < ar_number x) (rev ?as)"
      by (simp add: sorted_wrt_rev sorted_wrt_map)
    then show "sorted (map ?k (rev ?as))"
      unfolding sorted_wrt_map by (rule sorted_wrt_mono_rel [rotated]) simp
  qed simp
  finally show ?thesis .
qed

section \<open>The invariant\<close>

text \<open>
  A deployment row and its attempts: they are numbered from one, only the newest may be running, and
  the row repeats the outcome of the newest one. A running deployment is the newest of its stack.
\<close>

definition finished_ok :: "status \<Rightarrow> gotime option \<Rightarrow> bool" where
  "finished_ok s t \<longleftrightarrow> s \<noteq> Superseded \<and> (s = Running \<longleftrightarrow> t = None)"

definition attempts_ok :: "attempt_row list \<Rightarrow> bool" where
  "attempts_ok as \<longleftrightarrow> as \<noteq> [] \<and> map ar_number as = [1 ..< Suc (length as)] \<and>
     (\<forall>a \<in> set (butlast as). ar_status a \<noteq> Running) \<and>
     (\<forall>a \<in> set as. finished_ok (ar_status a) (ar_finished_at a))"

definition projects :: "deployment_row \<Rightarrow> attempt_row \<Rightarrow> bool" where
  "projects r a \<longleftrightarrow> dr_status r = ar_status a \<and> dr_error_code r = ar_error_code a \<and>
     dr_phase r = ar_phase a \<and> dr_finished_at r = ar_finished_at a"

definition row_inv :: "deployment_db \<Rightarrow> deployment_row \<Rightarrow> bool" where
  "row_inv db r \<longleftrightarrow> attempts_ok (attempts_of (dr_id r) db) \<and>
     projects r (last (attempts_of (dr_id r) db)) \<and>
     (dr_status r = Running \<longrightarrow> latest_row (dr_stack r) db = Some r)"

definition last_succeeded :: "string \<Rightarrow> deployment_row list \<Rightarrow> string option" where
  "last_succeeded stack rs =
     map_option dr_id (find (\<lambda>r. dr_stack r = stack \<and> dr_status r = Succeeded) (rev rs))"

definition dep_inv :: "deployment_db \<Rightarrow> bool" where
  "dep_inv db \<longleftrightarrow> distinct (map dr_id (db_deployments db)) \<and> distinct (map ar_id (db_attempts db)) \<and>
     ar_deployment_id ` set (db_attempts db) \<subseteq> dr_id ` set (db_deployments db) \<and>
     (\<forall>r \<in> set (db_deployments db). row_inv db r) \<and>
     (\<forall>stack. fmlookup (db_snapshots db) stack = last_succeeded stack (db_deployments db))"

lemma dep_inv_published [simp]: "dep_inv (db\<lparr>db_published := es\<rparr>) = dep_inv db"
  by (simp add: dep_inv_def row_inv_def attempts_of_def latest_row_def)

lemma dep_row_unique:
  "dep_inv db \<Longrightarrow> r \<in> set (db_deployments db) \<Longrightarrow> r' \<in> set (db_deployments db) \<Longrightarrow> dr_id r = dr_id r' \<Longrightarrow> r = r'"
  unfolding dep_inv_def by (metis distinct_map inj_onD)

lemma attempt_row_unique:
  "dep_inv db \<Longrightarrow> a \<in> set (db_attempts db) \<Longrightarrow> a' \<in> set (db_attempts db) \<Longrightarrow> ar_id a = ar_id a' \<Longrightarrow> a = a'"
  unfolding dep_inv_def by (metis distinct_map inj_onD)

lemma attempt_fk: "dep_inv db \<Longrightarrow> a \<in> set (db_attempts db) \<Longrightarrow> \<exists>r \<in> set (db_deployments db). dr_id r = ar_deployment_id a"
  unfolding dep_inv_def by (metis (no_types, lifting) image_iff image_subset_iff)

lemma find_deployment_Some:
  "dep_inv db \<Longrightarrow> find_deployment did db = Some r \<longleftrightarrow> r \<in> set (db_deployments db) \<and> dr_id r = did"
  unfolding find_deployment_def using find_key [of dr_id "db_deployments db" r]
  by (auto simp: dep_inv_def dest: find_in)

lemma find_attempt_Some:
  "dep_inv db \<Longrightarrow> find (\<lambda>r. ar_id r = aid) (db_attempts db) = Some a \<longleftrightarrow> a \<in> set (db_attempts db) \<and> ar_id a = aid"
  using find_key [of ar_id "db_attempts db" a] by (auto simp: dep_inv_def dest: find_in)

lemma row_inv_of: "dep_inv db \<Longrightarrow> r \<in> set (db_deployments db) \<Longrightarrow> row_inv db r"
  by (simp add: dep_inv_def)

text \<open>What the model of a row says about its attempts.\<close>

lemma deployment_of_attempts:
  assumes "row_inv db r"
  shows "d_LatestAttemptID (deployment_of r db) = ar_id (last (attempts_of (dr_id r) db))"
    and "d_AttemptCount (deployment_of r db) = length (attempts_of (dr_id r) db)"
    and "d_Attempts (deployment_of r db) = map attempt_of (rev (attempts_of (dr_id r) db))"
proof -
  let ?as = "attempts_of (dr_id r) db"
  have ne: "?as \<noteq> []" and rev: "attempt_rows (dr_id r) db = rev ?as"
    using assms attempt_rows_rev [of "dr_id r" db "length ?as"] by (simp_all add: row_inv_def attempts_ok_def)
  obtain a rest where "rev ?as = a # rest" using ne by (cases "rev ?as") auto
  moreover from this have "last ?as = a" using hd_rev [of ?as] by simp
  ultimately show "d_LatestAttemptID (deployment_of r db) = ar_id (last ?as)"
    by (simp add: deployment_of_def rev)
  show "d_AttemptCount (deployment_of r db) = length ?as"
    "d_Attempts (deployment_of r db) = map attempt_of (rev ?as)"
    by (simp_all add: deployment_of_def rev)
qed

lemma deployment_of_simps [simp]:
  "d_ID (deployment_of r db) = dr_id r" "d_Stack (deployment_of r db) = dr_stack r"
  "d_Commit (deployment_of r db) = dr_commit r" "d_FinishedAt (deployment_of r db) = dr_finished_at r"
  "d_Retryable (deployment_of r db) = det_Retryable (dr_details r)"
  "d_Phase (deployment_of r db) = dr_phase r" "d_ErrorCode (deployment_of r db) = dr_error_code r"
  "d_StartedAt (deployment_of r db) = dr_started_at r"
  by (simp_all add: deployment_of_def)

lemma attempt_of_simps [simp]:
  "a_ID (attempt_of a) = ar_id a" "a_DeploymentID (attempt_of a) = ar_deployment_id a"
  "a_Number (attempt_of a) = ar_number a" "a_Status (attempt_of a) = ar_status a"
  by (simp_all add: attempt_of_def)

text \<open>The newest row of a stack is never superseded.\<close>

lemma newer_exists_latest:
  assumes "distinct (map dr_id rs)" "find (\<lambda>r. dr_stack r = stack) (rev rs) = Some r"
  shows "\<not> newer_exists rs (dr_id r) stack"
  using assms
proof (induction rs)
  case (Cons x rs)
  show ?case
  proof (cases "find (\<lambda>r. dr_stack r = stack) (rev rs)")
    case None
    then have none: "\<forall>n \<in> set rs. dr_stack n \<noteq> stack" by (simp add: find_None_iff)
    then have "newer_exists rs did stack = False" for did
      by (induction rs did stack rule: newer_exists.induct) auto
    with none show ?thesis by simp
  next
    case (Some y)
    with Cons.prems(2) have "y = r" by (simp add: find_append)
    with Some Cons have "\<not> newer_exists rs (dr_id r) stack" by simp
    moreover have "r \<in> set rs" using Some \<open>y = r\<close> by (auto dest: find_in)
    then have "dr_id x \<noteq> dr_id r" using Cons.prems(1) by auto
    ultimately show ?thesis by simp
  qed
qed simp

lemma latest_not_superseded:
  "dep_inv db \<Longrightarrow> latest_row stack db = Some r \<Longrightarrow> d_Status (deployment_of r db) = dr_status r"
  using newer_exists_latest [of "db_deployments db" stack r]
  by (auto simp: deployment_of_def projectedStatus_def is_superseded_def latest_row_find dep_inv_def dest: find_in)

lemma running_projection:
  "d_Status (deployment_of r db) = Running \<longleftrightarrow> dr_status r = Running"
  by (auto simp: deployment_of_def projectedStatus_def is_superseded_def)

section \<open>Preservation\<close>

lemma latest_row_change:
  assumes "\<And>x. dr_stack (f x) = dr_stack x" "db_deployments db' = map f (db_deployments db)"
  shows "latest_row stack db' = map_option f (latest_row stack db)"
  unfolding latest_row_find assms(2) rev_map find_map by (simp add: assms(1))

text \<open>A transition that changes one deployment row and its attempts only.\<close>

lemma dep_inv_change:
  assumes inv: "dep_inv db" and r: "r \<in> set (db_deployments db)"
    and keys: "dr_id r' = dr_id r" "dr_stack r' = dr_stack r"
    and deps: "db_deployments db' = map (\<lambda>x. if dr_id x = dr_id r then r' else x) (db_deployments db)"
    and others: "\<And>did. did \<noteq> dr_id r \<Longrightarrow> attempts_of did db' = attempts_of did db"
    and ids: "distinct (map ar_id (db_attempts db'))"
    and fk: "ar_deployment_id ` set (db_attempts db') \<subseteq> dr_id ` set (db_deployments db)"
    and ok: "attempts_ok (attempts_of (dr_id r) db')" "projects r' (last (attempts_of (dr_id r) db'))"
    and newest: "dr_status r' = Running \<Longrightarrow> latest_row (dr_stack r) db = Some r"
    and snaps: "\<And>stack. fmlookup (db_snapshots db') stack = last_succeeded stack (db_deployments db')"
  shows "dep_inv db'"
proof -
  let ?f = "\<lambda>x. if dr_id x = dr_id r then r' else x"
  have same: "x = r" if "x \<in> set (db_deployments db)" "dr_id x = dr_id r" for x
    using dep_row_unique [OF inv that(1) r that(2)] .
  have ident: "dr_id (?f x) = dr_id x" for x using keys(1) by simp
  have stacks: "x \<in> set (db_deployments db) \<Longrightarrow> dr_stack (?f x) = dr_stack x" for x
    using same [of x] keys(2) by auto
  have latest: "latest_row stack db' = map_option ?f (latest_row stack db)" for stack
    unfolding latest_row_find deps rev_map find_map
    by (rule arg_cong [where f = "map_option ?f"]) (rule find_cong_set, use stacks in auto)
  have rows: "row_inv db' y" if y: "y \<in> set (db_deployments db')" for y
  proof -
    from y obtain x where x: "x \<in> set (db_deployments db)" "y = ?f x" unfolding deps by auto
    show ?thesis
    proof (cases "dr_id x = dr_id r")
      case True
      then have "y = r'" using x by simp
      moreover have "latest_row (dr_stack r') db' = Some r'" if "dr_status r' = Running"
        using newest [OF that] by (simp add: latest keys(2))
      ultimately show ?thesis using ok by (simp add: row_inv_def keys)
    next
      case False
      then have "y = x" using x by simp
      moreover have "row_inv db x" using row_inv_of [OF inv x(1)] .
      ultimately show ?thesis using False by (auto simp: row_inv_def others latest)
    qed
  qed
  have "map dr_id (db_deployments db') = map dr_id (db_deployments db)"
    unfolding deps by (simp add: ident)
  then have "distinct (map dr_id (db_deployments db'))" "dr_id ` set (db_deployments db') = dr_id ` set (db_deployments db)"
    using inv by (simp add: dep_inv_def, metis list.set_map)
  then show ?thesis using rows ids fk snaps by (simp add: dep_inv_def)
qed

lemma last_succeeded_neutral:
  assumes "dep_inv db" "r \<in> set (db_deployments db)" "dr_status r \<noteq> Succeeded" "dr_status r' \<noteq> Succeeded"
  shows "last_succeeded stack (map (\<lambda>x. if dr_id x = dr_id r then r' else x) (db_deployments db)) =
    last_succeeded stack (db_deployments db)"
proof -
  let ?f = "\<lambda>x. if dr_id x = dr_id r then r' else x"
  let ?P = "\<lambda>r. dr_stack r = stack \<and> dr_status r = Succeeded"
  have same: "x = r" if "x \<in> set (db_deployments db)" "dr_id x = dr_id r" for x
    using dep_row_unique [OF assms(1) that(1) assms(2) that(2)] .
  have "find (\<lambda>x. ?P (?f x)) (rev (db_deployments db)) = find ?P (rev (db_deployments db))"
    using same assms(3,4) by (intro find_cong_set) auto
  moreover have "map_option dr_id (map_option ?f (find ?P (rev (db_deployments db)))) =
      map_option dr_id (find ?P (rev (db_deployments db)))"
    using assms(3) by (cases "find ?P (rev (db_deployments db))") (auto dest!: find_in dest: same)
  ultimately show ?thesis unfolding last_succeeded_def rev_map find_map by simp
qed

lemma last_succeeded_newest:
  assumes "dep_inv db" "latest_row (dr_stack r) db = Some r"
    and "dr_status r' = Succeeded" "dr_stack r' = dr_stack r" "dr_id r' = dr_id r" "dr_status r \<noteq> Succeeded"
  shows "last_succeeded stack (map (\<lambda>x. if dr_id x = dr_id r then r' else x) (db_deployments db)) =
    (if stack = dr_stack r then Some (dr_id r) else last_succeeded stack (db_deployments db))"
proof -
  let ?f = "\<lambda>x. if dr_id x = dr_id r then r' else x"
  let ?P = "\<lambda>r. dr_stack r = stack \<and> dr_status r = Succeeded"
  let ?rs = "rev (db_deployments db)"
  have r: "r \<in> set (db_deployments db)" using assms(2) by (auto simp: latest_row_find dest: find_in)
  have same: "x = r" if "x \<in> set (db_deployments db)" "dr_id x = dr_id r" for x
    using dep_row_unique [OF assms(1) that(1) r that(2)] .
  show ?thesis
  proof (cases "stack = dr_stack r")
    case True
    have "find (\<lambda>x. ?P (?f x)) ?rs = find (\<lambda>x. dr_stack x = dr_stack r \<and> (x = r \<or> dr_status x = Succeeded)) ?rs"
      using same assms(3,4) True by (intro find_cong_set) auto
    also have "\<dots> = Some r"
      by (rule find_refine [where P = "\<lambda>x. dr_stack x = dr_stack r"]) (use assms(2) latest_row_find in auto)
    finally show ?thesis using True assms(5) unfolding last_succeeded_def rev_map find_map by simp
  next
    case False
    have "find (\<lambda>x. ?P (?f x)) ?rs = find ?P ?rs"
      using same assms(4) False by (intro find_cong_set) auto
    moreover have "map_option dr_id (map_option ?f (find ?P ?rs)) = map_option dr_id (find ?P ?rs)"
      using assms(6) by (cases "find ?P ?rs") (auto dest!: find_in dest: same)
    ultimately show ?thesis using False unfolding last_succeeded_def rev_map find_map by simp
  qed
qed

text \<open>A new deployment of a stack without a running one.\<close>

lemma dep_inv_create:
  assumes inv: "dep_inv db"
    and fresh: "dr_id r \<notin> dr_id ` set (db_deployments db)" "ar_id a \<notin> ar_id ` set (db_attempts db)"
    and idle: "\<And>x. x \<in> set (db_deployments db) \<Longrightarrow> dr_stack x = dr_stack r \<Longrightarrow> dr_status x \<noteq> Running"
    and a: "ar_deployment_id a = dr_id r" "ar_number a = 1" "ar_status a = Running" "ar_finished_at a = None"
    and r: "projects r a"
  shows "dep_inv (db\<lparr>db_deployments := db_deployments db @ [r], db_attempts := db_attempts db @ [a]\<rparr>)" (is "dep_inv ?db")
proof -
  have none: "attempts_of (dr_id r) db = []"
  proof -
    have "ar_deployment_id x \<noteq> dr_id r" if "x \<in> set (db_attempts db)" for x
      using attempt_fk [OF inv that] fresh(1) by (metis image_eqI)
    then show ?thesis by (simp add: attempts_of_def filter_empty_conv)
  qed
  have new: "attempts_of (dr_id r) ?db = [a]" using none a(1) by (simp add: attempts_of_def)
  have old: "attempts_of did ?db = attempts_of did db" if "did \<noteq> dr_id r" for did
    using that a(1) by (simp add: attempts_of_def)
  have latest: "latest_row stack ?db = (if stack = dr_stack r then Some r else latest_row stack db)" for stack
    by (simp add: latest_row_find)
  have "row_inv ?db r" using new a r latest by (simp add: row_inv_def attempts_ok_def finished_ok_def)
  moreover have "row_inv ?db x" if x: "x \<in> set (db_deployments db)" for x
  proof -
    have "dr_id x \<noteq> dr_id r" using fresh(1) x by (metis image_eqI)
    with row_inv_of [OF inv x] idle [OF x] show ?thesis by (auto simp: row_inv_def old latest)
  qed
  moreover have "last_succeeded stack (db_deployments ?db) = last_succeeded stack (db_deployments db)" for stack
    using r a(3) by (simp add: last_succeeded_def projects_def)
  ultimately show ?thesis using inv fresh a(1) by (auto simp: dep_inv_def)
qed

section \<open>Updates of one row\<close>

lemma count_one:
  assumes "distinct (map f xs)" "x \<in> set xs" "P x" "\<And>y. y \<in> set xs \<Longrightarrow> P y \<Longrightarrow> f y = f x"
  shows "length (filter P xs) = 1"
proof -
  have "y = x" if "y \<in> set xs" "P y" for y
    using assms(1,2) assms(4) [OF that] that(1) by (metis distinct_map inj_onD)
  then have "set (filter P xs) = {x}" using assms(2,3) unfolding set_filter by blast
  moreover have "distinct (filter P xs)" using assms(1) by (simp add: distinct_map)
  ultimately have "length (filter P xs) = card {x}" by (metis distinct_card)
  then show ?thesis by simp
qed

lemma update_deployments_one:
  assumes "dep_inv db" "r \<in> set (db_deployments db)" "P r" "\<And>y. y \<in> set (db_deployments db) \<Longrightarrow> P y \<Longrightarrow> dr_id y = dr_id r"
  shows "update_deployments P f db =
    (1, db\<lparr>db_deployments := map (\<lambda>x. if dr_id x = dr_id r then f r else x) (db_deployments db)\<rparr>)"
proof -
  have "length (filter P (db_deployments db)) = 1"
    using assms(1) by (intro count_one [where f = dr_id and P = P, OF _ assms(2,3,4)]) (simp add: dep_inv_def)
  moreover have "(if P y then f y else y) = (if dr_id y = dr_id r then f r else y)"
    if "y \<in> set (db_deployments db)" for y
    using assms(3) assms(4) [OF that] dep_row_unique [OF assms(1) that assms(2)] by (cases "P y") auto
  ultimately show ?thesis by (simp add: update_deployments_def cong: map_cong)
qed

lemma update_attempts_one:
  assumes "dep_inv db" "a \<in> set (db_attempts db)" "P a" "\<And>y. y \<in> set (db_attempts db) \<Longrightarrow> P y \<Longrightarrow> ar_id y = ar_id a"
  shows "update_attempts P f db =
    (1, db\<lparr>db_attempts := map (\<lambda>x. if ar_id x = ar_id a then f a else x) (db_attempts db)\<rparr>)"
proof -
  have "length (filter P (db_attempts db)) = 1"
    using assms(1) by (intro count_one [where f = ar_id and P = P, OF _ assms(2,3,4)]) (simp add: dep_inv_def)
  moreover have "(if P y then f y else y) = (if ar_id y = ar_id a then f a else y)"
    if "y \<in> set (db_attempts db)" for y
    using assms(3) assms(4) [OF that] attempt_row_unique [OF assms(1) that assms(2)] by (cases "P y") auto
  ultimately show ?thesis by (simp add: update_attempts_def cong: map_cong)
qed

text \<open>The newest attempt of a deployment, and the attempts after it was replaced.\<close>

lemma newest_attempt:
  assumes "dep_inv db" "r \<in> set (db_deployments db)" "a = last (attempts_of (dr_id r) db)"
  shows "a \<in> set (db_attempts db)" "ar_deployment_id a = dr_id r" "projects r a"
    "attempts_of (dr_id r) db = butlast (attempts_of (dr_id r) db) @ [a]"
    "ar_number a = length (attempts_of (dr_id r) db)"
proof -
  let ?as = "attempts_of (dr_id r) db"
  have ok: "attempts_ok ?as" "projects r (last ?as)" using row_inv_of [OF assms(1,2)] by (auto simp: row_inv_def)
  then have ne: "?as \<noteq> []" by (simp add: attempts_ok_def)
  then have "a \<in> set ?as" using assms(3) by simp
  then show "a \<in> set (db_attempts db)" "ar_deployment_id a = dr_id r" by (auto simp: attempts_of_def)
  show "projects r a" using ok(2) assms(3) by simp
  show "?as = butlast ?as @ [a]" using ne assms(3) by simp
  have "map ar_number ?as = [1 ..< Suc (length ?as)]" using ok(1) by (simp add: attempts_ok_def)
  then have "last (map ar_number ?as) = last [1 ..< Suc (length ?as)]" by (rule arg_cong)
  then show "ar_number a = length ?as" using ne assms(3) by (simp add: last_map last_upt del: upt_Suc)
qed

lemma attempts_of_replace:
  assumes "dep_inv db" "r \<in> set (db_deployments db)" "a = last (attempts_of (dr_id r) db)"
    and "ar_id a' = ar_id a" "ar_deployment_id a' = ar_deployment_id a"
    and "db_attempts db' = map (\<lambda>x. if ar_id x = ar_id a then a' else x) (db_attempts db)"
  shows "attempts_of (dr_id r) db' = butlast (attempts_of (dr_id r) db) @ [a']"
    and "did \<noteq> dr_id r \<Longrightarrow> attempts_of did db' = attempts_of did db"
    and "map ar_id (db_attempts db') = map ar_id (db_attempts db)"
    and "ar_deployment_id ` set (db_attempts db') = ar_deployment_id ` set (db_attempts db)"
proof -
  let ?f = "\<lambda>x. if ar_id x = ar_id a then a' else x"
  note new = newest_attempt [OF assms(1,2,3)]
  have same: "x = a" if "x \<in> set (db_attempts db)" "ar_id x = ar_id a" for x
    using attempt_row_unique [OF assms(1) that(1) new(1) that(2)] .
  have dep: "ar_deployment_id (?f x) = ar_deployment_id x" if "x \<in> set (db_attempts db)" for x
    using same [OF that] assms(5) by auto
  have att: "attempts_of did db' = map ?f (attempts_of did db)" for did
    unfolding attempts_of_def assms(6) filter_map using dep by (intro arg_cong [where f = "map ?f"] filter_cong) auto
  have "distinct (map ar_id (attempts_of (dr_id r) db))"
    using assms(1) by (simp add: attempts_of_def dep_inv_def distinct_map_filter)
  then have "distinct (map ar_id (butlast (attempts_of (dr_id r) db) @ [a]))" using new(4) by simp
  then have "ar_id a \<notin> ar_id ` set (butlast (attempts_of (dr_id r) db))" by simp
  then have "ar_id x \<noteq> ar_id a" if "x \<in> set (butlast (attempts_of (dr_id r) db))" for x
    using that by (metis image_eqI)
  then have "map ?f (butlast (attempts_of (dr_id r) db)) = butlast (attempts_of (dr_id r) db)"
    by (intro map_idI) simp
  then show "attempts_of (dr_id r) db' = butlast (attempts_of (dr_id r) db) @ [a']"
    unfolding att by (subst new(4)) simp
  show "attempts_of did db' = attempts_of did db" if "did \<noteq> dr_id r"
    unfolding att using that same new(2) by (intro map_idI) (auto simp: attempts_of_def)
  show "map ar_id (db_attempts db') = map ar_id (db_attempts db)"
    unfolding assms(6) using assms(4) by simp
  show "ar_deployment_id ` set (db_attempts db') = ar_deployment_id ` set (db_attempts db)"
    unfolding assms(6) set_map image_image using dep by (intro image_cong) auto
qed

section \<open>Finishing an attempt\<close>

lemma finishAttempt_effect:
  assumes "dep_inv db" "r \<in> set (db_deployments db)" "dr_status r = Running" "a = last (attempts_of (dr_id r) db)"
    and "d_ID d = dr_id r" "a_ID a' = ar_id a" "a_Number a' = ar_number a" "a_FinishedAt a' = Some t" "\<not> IsZero t"
  shows "finishAttempt d a' db =
    (None, db\<lparr>db_attempts := map (\<lambda>x. if ar_id x = ar_id a then finish_row a' a else x) (db_attempts db),
             db_deployments := map (\<lambda>x. if dr_id x = dr_id r then outcome_row d a' t r else x) (db_deployments db)\<rparr>)"
proof -
  note new = newest_attempt [OF assms(1,2,4)]
  let ?db1 = "db\<lparr>db_attempts := map (\<lambda>x. if ar_id x = ar_id a then finish_row a' a else x) (db_attempts db)\<rparr>"
  have run: "ar_status a = Running" using new(3) assms(3) by (simp add: projects_def)
  have ua: "update_attempts (\<lambda>x. ar_id x = a_ID a' \<and> ar_deployment_id x = d_ID d \<and> ar_status x = Running)
      (finish_row a') db = (1, ?db1)"
    by (rule update_attempts_one [OF assms(1) new(1)]) (simp_all add: assms(5,6) new(2) run)
  have fin: "ar_id (finish_row a' a) = ar_id a" "ar_deployment_id (finish_row a' a) = ar_deployment_id a"
    "ar_number (finish_row a' a) = ar_number a"
    by (simp_all add: finish_row_def)
  have "attempts_of (dr_id r) ?db1 = butlast (attempts_of (dr_id r) db) @ [finish_row a' a]"
    by (rule attempts_of_replace(1) [OF assms(1,2,4) fin(1,2)]) simp
  then have "map ar_number (attempts_of (dr_id r) ?db1) = map ar_number (attempts_of (dr_id r) db)"
    using new(4) fin(3) by (metis (no_types, lifting) list.simps(8,9) map_append)
  also have "\<dots> = [1 ..< Suc (length (attempts_of (dr_id r) db))]"
    using row_inv_of [OF assms(1,2)] by (simp add: row_inv_def attempts_ok_def)
  finally have nums: "set (map ar_number (attempts_of (dr_id r) ?db1)) = {1 ..< Suc (ar_number a)}"
    using new(5) by (metis set_upt)
  have upper: "ar_number q \<le> a_Number a'" if "q \<in> set (db_attempts ?db1)" "ar_deployment_id q = dr_id r" for q
  proof -
    have "q \<in> set (attempts_of (dr_id r) ?db1)" unfolding attempts_of_def set_filter using that by blast
    then have "ar_number q \<in> set (map ar_number (attempts_of (dr_id r) ?db1))" unfolding set_map by (rule imageI)
    then show ?thesis unfolding nums assms(7) by simp
  qed
  have newer: "\<not> (\<exists>q \<in> set (db_attempts ?db1). ar_deployment_id q = dr_id r \<and> a_Number a' < ar_number q)"
  proof (intro notI, elim bexE conjE)
    fix q assume q: "q \<in> set (db_attempts ?db1)" "ar_deployment_id q = dr_id r" "a_Number a' < ar_number q"
    show False using upper [OF q(1,2)] q(3) by linarith
  qed
  let ?Q = "\<lambda>x. dr_id x = d_ID d \<and> dr_status x = Running \<and>
      \<not> (\<exists>q \<in> set (db_attempts ?db1). ar_deployment_id q = dr_id x \<and> a_Number a' < ar_number q)"
  have "length (filter ?Q (db_deployments db)) = 1"
    using assms(1) by (intro count_one [where f = dr_id, OF _ assms(2)])
      (use newer assms(3,5) in \<open>simp_all add: dep_inv_def\<close>)
  moreover have "(if ?Q x then outcome_row d a' t x else x) = (if dr_id x = dr_id r then outcome_row d a' t r else x)"
    if "x \<in> set (db_deployments db)" for x
    using newer assms(3,5) dep_row_unique [OF assms(1) that assms(2)] by auto
  ultimately have "update_deployments ?Q (outcome_row d a' t) ?db1 =
      (1, ?db1\<lparr>db_deployments := map (\<lambda>x. if dr_id x = dr_id r then outcome_row d a' t r else x) (db_deployments db)\<rparr>)"
    unfolding update_deployments_def by (simp cong: map_cong)
  then show ?thesis
    using assms(8,9) by (simp add: finishAttempt_def ua requireOneRunning_def)
qed

definition current :: "deployment_db \<Rightarrow> string \<Rightarrow> deployment_row \<Rightarrow> attempt_row \<Rightarrow> bool" where
  "current db aid r a \<longleftrightarrow> r \<in> set (db_deployments db) \<and> dr_status r = Running \<and>
     a = last (attempts_of (dr_id r) db) \<and> ar_id a = aid"

text \<open>The tables after the running attempt \<open>a\<close> of \<open>r\<close> was completed.\<close>

definition completed_deployment :: "completion_state \<Rightarrow> deployment_row \<Rightarrow> deployment_db \<Rightarrow> deployment" where
  "completed_deployment st r db =
     (deployment_of r db)\<lparr>d_Verification := completed_verification st (d_Verification (deployment_of r db))
        (file_ServiceNames (prep_Definition (dr_desired r)))\<rparr>"

definition completed_db ::
    "completion_state \<Rightarrow> gotime \<Rightarrow> deployment_row \<Rightarrow> attempt_row \<Rightarrow> deployment_db \<Rightarrow> deployment_db" where
  "completed_db st now r a db =
     (let a' = finished_attempt st now (attempt_of a); d' = completed_deployment st r db
      in db\<lparr>db_attempts := map (\<lambda>x. if ar_id x = ar_id a then finish_row a' a else x) (db_attempts db),
            db_deployments := map (\<lambda>x. if dr_id x = dr_id r then outcome_row d' a' now r else x) (db_deployments db),
            db_snapshots := (if st_status st = Succeeded then fmupd (dr_stack r) (dr_id r) (db_snapshots db)
                             else db_snapshots db),
            db_published := db_published db @ [the (completion_event d' a' st)]\<rparr>)"

definition terminal :: "completion_state \<Rightarrow> bool" where
  "terminal st \<longleftrightarrow> st_status st = Succeeded \<or> st_status st = Failed \<or> st_status st = Interrupted"

lemma completion_state_terminal: "completion_state c = Some st \<Longrightarrow> terminal st"
  by (auto simp: completion_state_def terminal_def Let_def split: completion_outcome.splits if_splits)

lemma complete_current:
  assumes "dep_inv db" "current db aid r a" "terminal st" "\<not> IsZero now"
  shows "complete_body aid st now db = (None, completed_db st now r a db)"
proof -
  have r: "r \<in> set (db_deployments db)" "dr_status r = Running" "a = last (attempts_of (dr_id r) db)" "ar_id a = aid"
    using assms(2) by (auto simp: current_def)
  note new = newest_attempt [OF assms(1) r(1,3)]
  let ?a' = "finished_attempt st now (attempt_of a)" and ?d = "deployment_of r db"
  let ?d' = "completed_deployment st r db"
  have fa: "find (\<lambda>x. ar_id x = aid) (db_attempts db) = Some a"
    using find_attempt_Some [OF assms(1)] new(1) r(4) by blast
  have fd: "find_deployment (dr_id r) db = Some r" using find_deployment_Some [OF assms(1)] r(1) by blast
  have guard: "a_Status (attempt_of a) = Running" "d_Status ?d = Running" "d_LatestAttemptID ?d = aid"
    using new(3) r deployment_of_attempts(1) [OF row_inv_of [OF assms(1) r(1)]]
    by (auto simp: projects_def running_projection)
  have fin: "finishAttempt ?d' ?a' db =
      (None, db\<lparr>db_attempts := map (\<lambda>x. if ar_id x = ar_id a then finish_row ?a' a else x) (db_attempts db),
             db_deployments := map (\<lambda>x. if dr_id x = dr_id r then outcome_row ?d' ?a' now r else x) (db_deployments db)\<rparr>)"
    by (rule finishAttempt_effect [OF assms(1) r(1,2,3)])
      (simp_all add: completed_deployment_def finished_attempt_def assms(4))
  have base: "find (\<lambda>x. dr_id x = dr_id r \<and> dr_status x = Succeeded)
      (map (\<lambda>x. if dr_id x = dr_id r then outcome_row ?d' ?a' now r else x) (db_deployments db)) =
      Some (outcome_row ?d' ?a' now r)" if "st_status st = Succeeded"
  proof -
    have "find (\<lambda>x. dr_id (if dr_id x = dr_id r then outcome_row ?d' ?a' now r else x) = dr_id r \<and>
        dr_status (if dr_id x = dr_id r then outcome_row ?d' ?a' now r else x) = Succeeded) (db_deployments db) =
        find (\<lambda>x. dr_id x = dr_id r) (db_deployments db)"
      using that by (intro find_cong_set) (auto simp: outcome_row_def finished_attempt_def)
    also have "\<dots> = Some r" using fd by (simp add: find_deployment_def)
    finally show ?thesis by (simp add: find_map)
  qed
  have ev: "completion_event ?d' ?a' st \<noteq> None"
    using assms(3) by (auto simp: completion_event_def terminal_def)
  have body: "complete_body aid st now db =
      (let db1 = db\<lparr>db_attempts := map (\<lambda>x. if ar_id x = ar_id a then finish_row ?a' a else x) (db_attempts db),
             db_deployments := map (\<lambda>x. if dr_id x = dr_id r then outcome_row ?d' ?a' now r else x) (db_deployments db)\<rparr>;
           db2 = (if st_status st = Succeeded then saveBaseline (dr_id r) db1 else db1)
       in publish_event (completion_event ?d' ?a' st) db2)"
    using fin guard r(4) new(2)
    by (simp add: complete_body_def getAttempt_def fa get_deployment_def fd desired_of_def completed_deployment_def Let_def)
  show ?thesis
  proof (cases "st_status st = Succeeded")
    case True
    then show ?thesis
      using ev base [OF True]
      by (auto simp: body saveBaseline_def publish_event_def completed_db_def Let_def outcome_row_def)
  next
    case False
    then show ?thesis using ev by (auto simp: body publish_event_def completed_db_def Let_def)
  qed
qed

lemma complete_not_current:
  assumes "dep_inv db" "\<not> (\<exists>r a. current db aid r a)"
  shows "\<exists>e. complete_body aid st now db = (Some e, db) \<and> (e = ErrNotFound \<or> e = ErrNotRunning)"
proof (cases "find (\<lambda>x. ar_id x = aid) (db_attempts db)")
  case None
  then show ?thesis by (simp add: complete_body_def getAttempt_def)
next
  case (Some a)
  then have a: "a \<in> set (db_attempts db)" "ar_id a = aid" by (auto dest: find_in)
  obtain r where r: "r \<in> set (db_deployments db)" "dr_id r = ar_deployment_id a"
    using attempt_fk [OF assms(1) a(1)] by blast
  have fd: "find_deployment (ar_deployment_id a) db = Some r"
    using find_deployment_Some [OF assms(1)] r by metis
  have "\<not> (ar_status a = Running \<and> dr_status r = Running \<and> ar_id (last (attempts_of (dr_id r) db)) = aid)"
    using assms(2) r(1) by (auto simp: current_def)
  then show ?thesis
    using deployment_of_attempts(1) [OF row_inv_of [OF assms(1) r(1)]] a(2)
    by (auto simp: complete_body_def getAttempt_def Some get_deployment_def fd running_projection)
qed

end
