(* ===== verification/DeploymentSafety.thy ===== *)
theory DeploymentSafety
  imports DeploymentLifecycle
begin

text \<open>
  Every operation of the deployment lifecycle keeps the invariant of its tables, the step relation
  of the module, and the properties of the lifecycle.
\<close>

section \<open>Completion keeps the invariant\<close>

lemma attempts_ok_replace_last:
  assumes "attempts_ok as" "a = last as" "ar_number a' = ar_number a" "finished_ok (ar_status a') (ar_finished_at a')"
  shows "attempts_ok (butlast as @ [a'])"
proof -
  have ne: "as \<noteq> []" using assms(1) by (simp add: attempts_ok_def)
  then have "as = butlast as @ [a]" using assms(2) by simp
  then have "map ar_number (butlast as @ [a']) = map ar_number as" using assms(3)
    by (metis (no_types, lifting) list.simps(8,9) map_append)
  moreover have "length (butlast as @ [a']) = length as" using ne by simp
  moreover have "\<forall>x \<in> set (butlast as). finished_ok (ar_status x) (ar_finished_at x)"
    using assms(1) by (auto simp: attempts_ok_def dest: in_set_butlastD)
  ultimately show ?thesis using assms(1,4) ne by (simp add: attempts_ok_def Suc_le_eq del: upt_Suc)
qed

lemma set_butlast_last: "xs \<noteq> [] \<Longrightarrow> set xs = insert (last xs) (set (butlast xs))"
  using append_butlast_last_id [of xs] by (metis list.simps(15) rotate1.simps(2) set_rotate1)

lemma current_latest: "dep_inv db \<Longrightarrow> current db aid r a \<Longrightarrow> latest_row (dr_stack r) db = Some r"
  using row_inv_of by (auto simp: current_def row_inv_def)

lemma completed_dep_inv:
  assumes inv: "dep_inv db" and cur: "current db aid r a" and st: "terminal st"
  shows "dep_inv (completed_db st now r a db)" (is "dep_inv ?db")
proof -
  have r: "r \<in> set (db_deployments db)" "dr_status r = Running" "a = last (attempts_of (dr_id r) db)"
    using cur by (auto simp: current_def)
  let ?a' = "finished_attempt st now (attempt_of a)" and ?d' = "completed_deployment st r db"
  let ?row = "finish_row ?a' a" and ?r' = "outcome_row ?d' ?a' now r"
  have keep: "ar_id ?row = ar_id a" "ar_deployment_id ?row = ar_deployment_id a" "ar_number ?row = ar_number a"
    by (simp_all add: finish_row_def)
  have key: "dr_id ?r' = dr_id r" "dr_stack ?r' = dr_stack r" "dr_status ?r' = st_status st"
    by (simp_all add: outcome_row_def finished_attempt_def)
  have atts: "db_attempts ?db = map (\<lambda>x. if ar_id x = ar_id a then ?row else x) (db_attempts db)"
    by (simp add: completed_db_def Let_def)
  have deps: "db_deployments ?db = map (\<lambda>x. if dr_id x = dr_id r then ?r' else x) (db_deployments db)"
    by (simp add: completed_db_def Let_def)
  note rep = attempts_of_replace [OF inv r(1,3) keep(1,2) atts]
  have fin: "finished_ok (ar_status ?row) (ar_finished_at ?row)"
    using st by (auto simp: finished_ok_def finish_row_def finished_attempt_def terminal_def)
  have ok: "attempts_ok (attempts_of (dr_id r) ?db)"
    unfolding rep(1) using row_inv_of [OF inv r(1)] fin keep(3) r(3)
    by (intro attempts_ok_replace_last) (simp_all add: row_inv_def)
  have proj: "projects ?r' (last (attempts_of (dr_id r) ?db))"
    unfolding rep(1) by (simp add: projects_def outcome_row_def finish_row_def finished_attempt_def)
  have notrun: "st_status st \<noteq> Running" using st by (auto simp: terminal_def)
  have snaps: "fmlookup (db_snapshots ?db) stack = last_succeeded stack (db_deployments ?db)" for stack
  proof (cases "st_status st = Succeeded")
    case True
    have "last_succeeded stack (db_deployments ?db) = (if stack = dr_stack r then Some (dr_id r)
        else last_succeeded stack (db_deployments db))"
      unfolding deps using last_succeeded_newest [OF inv current_latest [OF inv cur], of ?r' stack] True key r(2) by simp
    then show ?thesis using True inv by (simp add: completed_db_def Let_def dep_inv_def)
  next
    case False
    have "last_succeeded stack (db_deployments ?db) = last_succeeded stack (db_deployments db)"
      unfolding deps by (rule last_succeeded_neutral [OF inv r(1)]) (simp_all add: r(2) key False)
    then show ?thesis using False inv by (simp add: completed_db_def Let_def dep_inv_def)
  qed
  show ?thesis
  proof (rule dep_inv_change [OF inv r(1) key(1,2) deps])
    show "distinct (map ar_id (db_attempts ?db))" unfolding rep(3) using inv by (simp add: dep_inv_def)
    show "ar_deployment_id ` set (db_attempts ?db) \<subseteq> dr_id ` set (db_deployments db)"
      unfolding rep(4) using inv by (simp add: dep_inv_def)
  qed (use rep(2) ok proj notrun key(3) snaps in simp_all)
qed

lemma complete_zero_time: "IsZero now \<Longrightarrow> fst (complete_body aid st now db) \<noteq> None"
  by (auto simp: complete_body_def finishAttempt_def finished_attempt_def split: sum.splits)

text \<open>A completion that succeeds finished the newest attempt of a running deployment.\<close>

lemma complete_body_None:
  assumes "dep_inv db" "terminal st" "complete_body aid st now db = (None, db')"
  obtains r a where "current db aid r a" "\<not> IsZero now" "db' = completed_db st now r a db"
proof -
  have now: "\<not> IsZero now" using complete_zero_time [of now aid st db] assms(3) by auto
  obtain r a where cur: "current db aid r a"
    using complete_not_current [OF assms(1), of aid st now] assms(3) by fastforce
  show ?thesis using that [OF cur now] complete_current [OF assms(1) cur assms(2) now] assms(3) by simp
qed

lemma complete_body_inv:
  "dep_inv db \<Longrightarrow> terminal st \<Longrightarrow> complete_body aid st now db = (None, db') \<Longrightarrow> dep_inv db'"
  using completed_dep_inv by (metis complete_body_None)

lemma complete_cases:
  assumes "dep_inv db" "complete fault aid c now db = (e, db')"
  obtains "e \<noteq> None" "db' = db"
  | st r a where "completion_state c = Some st" "fault = None" "e = None" "\<not> IsZero now"
      "current db aid r a" "db' = completed_db st now r a db"
proof (cases e)
  case (Some err)
  then have "db' = db"
    using assms(2) tx.rollback by (auto simp: complete_def split: option.splits)
  then show ?thesis using that(1) Some by simp
next
  case None
  then obtain st where st: "completion_state c = Some st" "fault = None" "complete_body aid st now db = (None, db')"
    using assms(2) by (auto simp: complete_def within_tx_None split: option.splits)
  then show ?thesis
    using complete_body_None [OF assms(1) completion_state_terminal [OF st(1)] st(3)] that(2) None by metis
qed

section \<open>Starts keep the invariant\<close>

lemma latest_Inr:
  assumes "dep_inv db"
  shows "latest stack db = (case latest_row stack db of
    None \<Rightarrow> Inl ErrNotFound | Some r \<Rightarrow> Inr (deployment_of r db, dr_desired r))"
proof (cases "latest_row stack db")
  case (Some r)
  then have "r \<in> set (db_deployments db)" by (auto simp: latest_row_find dest: find_in)
  then have "find_deployment (dr_id r) db = Some r" using find_deployment_Some [OF assms] by blast
  then show ?thesis by (simp add: latest_def Some get_deployment_def)
qed (simp add: latest_def)

definition restarted_db :: "attempt \<Rightarrow> deployment_row \<Rightarrow> deployment_db \<Rightarrow> deployment_db" where
  "restarted_db a r db = db\<lparr>db_attempts := db_attempts db @ [row_of_attempt a],
     db_deployments := map (\<lambda>x. if dr_id x = dr_id r then restart_row (deployment_of r db) r else x) (db_deployments db)\<rparr>"

lemma startAttempt_effect:
  assumes "dep_inv db" "latest_row stack db = Some r" "dr_status r = Failed \<or> dr_status r = Interrupted"
    and "a_DeploymentID a = dr_id r" "startAttempt (deployment_of r db) a db = (None, db')"
  shows "db' = restarted_db a r db" "a_ID a \<notin> ar_id ` set (db_attempts db)"
proof -
  have r: "r \<in> set (db_deployments db)" using assms(2) by (auto simp: latest_row_find dest: find_in)
  let ?db1 = "db\<lparr>db_attempts := db_attempts db @ [row_of_attempt a]\<rparr>"
  let ?P = "\<lambda>x. dr_id x = dr_id r \<and> (dr_status x = Failed \<or> dr_status x = Interrupted)"
  have ins: "insertAttemptRow a db = (None, ?db1)" "a_ID a \<notin> ar_id ` set (db_attempts db)"
    using assms(5) by (auto simp: startAttempt_def insertAttemptRow_def split: if_splits)
  then show "a_ID a \<notin> ar_id ` set (db_attempts db)" by blast
  have upd: "update_deployments ?P (restart_row (deployment_of r db)) db =
      (1, db\<lparr>db_deployments := map (\<lambda>x. if dr_id x = dr_id r then restart_row (deployment_of r db) r else x) (db_deployments db)\<rparr>)"
    by (rule update_deployments_one [OF assms(1) r]) (use assms(3) in auto)
  have "fst (update_deployments ?P (restart_row (deployment_of r db)) db) = 1"
    "db_deployments (snd (update_deployments ?P (restart_row (deployment_of r db)) db)) = db_deployments (restarted_db a r db)"
    unfolding upd by (simp_all add: restarted_db_def)
  then have "update_deployments ?P (restart_row (deployment_of r db)) ?db1 = (1, restarted_db a r db)"
    by (simp add: update_deployments_def restarted_db_def)
  then show "db' = restarted_db a r db"
    using assms(5) by (simp add: startAttempt_def ins(1) split: if_splits)
qed

lemma restarted_dep_inv:
  assumes inv: "dep_inv db" and new: "latest_row stack db = Some r" and st: "dr_status r = Failed \<or> dr_status r = Interrupted"
    and fresh: "a_ID a \<notin> ar_id ` set (db_attempts db)"
    and a: "a_DeploymentID a = dr_id r" "a_Number a = Suc (length (attempts_of (dr_id r) db))" "a_Status a = Running"
      "a_ErrorCode a = ''''" "a_Phase a = PhaseApply"
  shows "dep_inv (restarted_db a r db)" (is "dep_inv ?db")
proof -
  have r: "r \<in> set (db_deployments db)" "dr_stack r = stack" using new by (auto simp: latest_row_find dest: find_in)
  let ?r' = "restart_row (deployment_of r db) r" and ?as = "attempts_of (dr_id r) db"
  have deps: "db_deployments ?db = map (\<lambda>x. if dr_id x = dr_id r then ?r' else x) (db_deployments db)"
    by (simp add: restarted_db_def)
  have atts: "attempts_of (dr_id r) ?db = ?as @ [row_of_attempt a]"
    using a(1) by (simp add: attempts_of_def restarted_db_def row_of_attempt_def)
  have others: "attempts_of did ?db = attempts_of did db" if "did \<noteq> dr_id r" for did
    using that a(1) by (simp add: attempts_of_def restarted_db_def row_of_attempt_def)
  have old: "attempts_ok ?as" "projects r (last ?as)" "?as \<noteq> []" using row_inv_of [OF inv r(1)]
    by (auto simp: row_inv_def attempts_ok_def)
  then have "\<forall>x \<in> set ?as. ar_status x \<noteq> Running"
    using st by (auto simp: set_butlast_last [OF old(3)] attempts_ok_def projects_def)
  then have ok: "attempts_ok (attempts_of (dr_id r) ?db)"
    using old a unfolding atts by (simp add: attempts_ok_def row_of_attempt_def finished_ok_def)
  have snaps: "last_succeeded s (db_deployments ?db) = last_succeeded s (db_deployments db)" for s
    unfolding deps by (rule last_succeeded_neutral [OF inv r(1)]) (use st in \<open>auto simp: restart_row_def\<close>)
  show ?thesis
  proof (rule dep_inv_change [OF inv r(1) _ _ deps others])
    show "projects ?r' (last (attempts_of (dr_id r) ?db))"
      using a unfolding atts by (simp add: projects_def restart_row_def row_of_attempt_def)
    show "distinct (map ar_id (db_attempts ?db))"
      using inv fresh by (simp add: restarted_db_def dep_inv_def row_of_attempt_def)
    show "ar_deployment_id ` set (db_attempts ?db) \<subseteq> dr_id ` set (db_deployments db)"
      using inv a(1) r(1) by (simp add: restarted_db_def dep_inv_def row_of_attempt_def)
    show "fmlookup (db_snapshots ?db) s = last_succeeded s (db_deployments ?db)" for s
      using inv unfolding snaps by (simp add: restarted_db_def dep_inv_def)
  qed (use ok new r(2) in \<open>simp_all add: restart_row_def\<close>)
qed

lemma newAttempt_simps [simp]:
  "a_ID (newAttempt aid did n now) = aid" "a_DeploymentID (newAttempt aid did n now) = did"
  "a_Number (newAttempt aid did n now) = n" "a_Status (newAttempt aid did n now) = Running"
  "a_ErrorCode (newAttempt aid did n now) = ''''" "a_Phase (newAttempt aid did n now) = PhaseApply"
  "a_StartedAt (newAttempt aid did n now) = now"
  by (simp_all add: newAttempt_def)

text \<open>The outcome of a start on the newest deployment of the stack.\<close>

lemma startExisting_cases:
  assumes "dep_inv db" "latest_row stack db = Some r"
    and "startExisting aid now1 now2 (deployment_of r db) manual db = (Inr res, db')"
  obtains "res = None" "db' = db"
  | a where "res = Some a" "dr_status r = Failed \<or> dr_status r = Interrupted"
      "manual \<or> automaticRetryAllowed now1 (deployment_of r db)"
      "a = newAttempt aid (dr_id r) (Suc (length (attempts_of (dr_id r) db))) now2"
      "db' = restarted_db a r db" "aid \<notin> ar_id ` set (db_attempts db)"
proof -
  let ?d = "deployment_of r db" and ?a = "newAttempt aid (dr_id r) (Suc (length (attempts_of (dr_id r) db))) now2"
  have r: "r \<in> set (db_deployments db)" using assms(2) by (auto simp: latest_row_find dest: find_in)
  have d: "d_Status ?d = dr_status r" "d_AttemptCount ?d = length (attempts_of (dr_id r) db)"
    using latest_not_superseded [OF assms(1,2)] deployment_of_attempts(2) [OF row_inv_of [OF assms(1) r]] by simp_all
  consider "res = None" "db' = db" | "res = Some ?a" "startAttempt ?d ?a db = (None, db')"
      "dr_status r = Failed \<or> dr_status r = Interrupted" "manual \<or> automaticRetryAllowed now1 ?d"
    using assms(3) by (auto simp: startExisting_def d Let_def split: status.splits if_splits prod.splits option.splits)
  then show ?thesis
  proof cases
    case 2
    then show ?thesis using startAttempt_effect [OF assms(1,2) 2(3) _ 2(2)] that(2) by simp
  qed (rule that(1))
qed

lemma startExisting_inv:
  assumes "dep_inv db" "latest_row stack db = Some r"
    and "startExisting aid now1 now2 (deployment_of r db) manual db = (Inr res, db')"
  shows "dep_inv db'"
  using assms(3)
proof (rule startExisting_cases [OF assms(1,2)])
  fix a
  assume "dr_status r = Failed \<or> dr_status r = Interrupted" "aid \<notin> ar_id ` set (db_attempts db)"
    "a = newAttempt aid (dr_id r) (Suc (length (attempts_of (dr_id r) db))) now2" "db' = restarted_db a r db"
  then show "dep_inv db'" using restarted_dep_inv [OF assms(1,2), of a] by simp
qed (use assms(1) in simp)

definition created_db :: "deployment \<Rightarrow> prepared \<Rightarrow> attempt \<Rightarrow> deployment_db \<Rightarrow> deployment_db" where
  "created_db d desired a db = db\<lparr>db_deployments := db_deployments db @ [row_of_deployment d desired],
     db_attempts := db_attempts db @ [row_of_attempt a]\<rparr>"

lemma createDeployment_Inr:
  assumes "createDeployment (did, aid) now stack commit desired inherited db = (Inr res, db')"
  obtains d a where "res = Some a" "a = newAttempt aid did 1 now" "db' = created_db d desired a db"
    "d_ID d = did" "d_Stack d = stack" "d_Commit d = commit" "d_Status d = Running" "d_ErrorCode d = ''''"
    "d_Phase d = PhaseApply" "d_StartedAt d = now" "\<not> IsZero now"
    "d_Verification d = (case inherited of None \<Rightarrow> unknown_verification | Some v \<Rightarrow> v)"
    "did \<notin> dr_id ` set (db_deployments db)" "aid \<notin> ar_id ` set (db_attempts db)"
    "\<not> (\<exists>r \<in> set (db_deployments db). dr_stack r = stack \<and> dr_status r = Running)"
proof -
  obtain basis basisID where "comparisonBasis stack db = Inr (basis, basisID)"
    using assms by (cases "comparisonBasis stack db") (auto simp: createDeployment_def)
  moreover define a where "a = newAttempt aid did 1 now"
  moreover define d where "d = (case inherited of None \<Rightarrow> newDeployment did a stack commit basis basisID
      | Some v \<Rightarrow> (newDeployment did a stack commit basis basisID)\<lparr>d_Verification := v\<rparr>)"
  ultimately have st: "store_createDeployment d desired a db = (None, db')" "res = Some a"
    using assms by (auto simp: createDeployment_def Let_def split: prod.splits option.splits)
  have fields: "d_ID d = did" "d_Stack d = stack" "d_Commit d = commit" "d_Status d = Running" "d_ErrorCode d = ''''"
    "d_Phase d = PhaseApply" "d_StartedAt d = now" "d_Verification d = (case inherited of None \<Rightarrow> unknown_verification | Some v \<Rightarrow> v)"
    by (simp_all add: d_def a_def newDeployment_def split: option.splits)
  have made: "db' = created_db d desired a db" "did \<notin> dr_id ` set (db_deployments db)" "aid \<notin> ar_id ` set (db_attempts db)"
    "\<not> (\<exists>r \<in> set (db_deployments db). dr_stack r = stack \<and> dr_status r = Running)" "\<not> IsZero now"
    using st(1) fields by (auto simp: store_createDeployment_def insertAttemptRow_def created_db_def a_def split: if_splits)
  show ?thesis by (rule that [OF st(2) a_def made(1) fields(1-7) made(5) fields(8) made(2,3,4)])
qed

lemma created_dep_inv:
  assumes "dep_inv db" "a = newAttempt aid did 1 now" "d_ID d = did" "d_Stack d = stack" "d_Status d = Running"
    "d_ErrorCode d = ''''" "d_Phase d = PhaseApply" "did \<notin> dr_id ` set (db_deployments db)" "aid \<notin> ar_id ` set (db_attempts db)"
    "\<not> (\<exists>r \<in> set (db_deployments db). dr_stack r = stack \<and> dr_status r = Running)"
  shows "dep_inv (created_db d desired a db)"
proof -
  have "dr_status x \<noteq> Running" if "x \<in> set (db_deployments db)" "dr_stack x = dr_stack (row_of_deployment d desired)" for x
    using assms(4,10) that by (auto simp: row_of_deployment_def)
  then show ?thesis unfolding created_db_def
    by (intro dep_inv_create) (use assms in \<open>simp_all add: row_of_deployment_def row_of_attempt_def projects_def\<close>)
qed

definition interrupted_state :: completion_state where
  "interrupted_state = the (completion_state process_interrupted)"

lemma completion_state_interrupted: "completion_state process_interrupted = Some interrupted_state"
  by (simp add: interrupted_state_def completion_state_def process_interrupted_def)

lemma terminal_interrupted [simp]: "terminal interrupted_state"
  using completion_state_terminal [OF completion_state_interrupted] .

lemma status_interrupted: "st_status interrupted_state = Interrupted"
  by (simp add: interrupted_state_def completion_state_def process_interrupted_def)

lemma runningAttempt_newest:
  assumes "dep_inv db" "r \<in> set (db_deployments db)"
  shows "runningAttempt legacyID (deployment_of r db) db = (Inr (attempt_of (last (attempts_of (dr_id r) db))), db)"
proof -
  have "attempts_of (dr_id r) db \<noteq> []" using row_inv_of [OF assms] by (simp add: row_inv_def attempts_ok_def)
  then obtain rest where "rev (attempts_of (dr_id r) db) = last (attempts_of (dr_id r) db) # rest"
    by (metis append_butlast_last_id rev_eq_Cons_iff rev_rev_ident)
  then show ?thesis
    unfolding runningAttempt_def deployment_of_attempts(3) [OF row_inv_of [OF assms]] by (simp only: list.map list.case)
qed

lemma supersedePrevious_cases:
  assumes "dep_inv db" "latest_row stack db = Some r"
    and "supersedePrevious legacyID now (deployment_of r db) db = (None, db1)"
  obtains "dr_status r \<noteq> Running" "db1 = db"
  | a where "current db (ar_id a) r a" "db1 = completed_db interrupted_state now r a db"
proof (cases "dr_status r = Running")
  case False
  then show ?thesis using assms(3) that(1) by (simp add: supersedePrevious_def running_projection)
next
  case True
  have r: "r \<in> set (db_deployments db)" using assms(2) by (auto simp: latest_row_find dest: find_in)
  let ?a = "last (attempts_of (dr_id r) db)"
  have "complete_body (ar_id ?a) interrupted_state now db = (None, db1)"
    using assms(3) True
    by (simp add: supersedePrevious_def running_projection runningAttempt_newest [OF assms(1) r] completion_state_interrupted)
  moreover have "current db (ar_id ?a) r ?a" using r True by (simp add: current_def)
  moreover have "\<not> IsZero now" using complete_zero_time calculation(1) by (metis fst_conv)
  ultimately show ?thesis using that(2) complete_current [OF assms(1)] by (metis Pair_inject terminal_interrupted)
qed

lemma supersedePrevious_inv:
  assumes "dep_inv db" "latest_row stack db = Some r"
    and "supersedePrevious legacyID now (deployment_of r db) db = (None, db1)"
  shows "dep_inv db1"
  using assms(3) by (rule supersedePrevious_cases [OF assms(1,2)]) (simp_all add: assms(1) completed_dep_inv)

text \<open>What a start leaves behind: nothing, a retried deployment, or a new one (maybe after an interruption).\<close>

definition finished_kept :: "deployment_db \<Rightarrow> deployment_db \<Rightarrow> bool" where
  "finished_kept db db' \<longleftrightarrow> {a \<in> set (db_attempts db). ar_status a \<noteq> Running} \<subseteq> set (db_attempts db')"

lemma finished_kept_refl [simp]: "finished_kept db db"
  by (simp add: finished_kept_def)

lemma finished_kept_trans: "finished_kept db db1 \<Longrightarrow> finished_kept db1 db2 \<Longrightarrow> finished_kept db db2"
  unfolding finished_kept_def by blast

lemma finished_kept_append [simp]: "db_attempts db' = db_attempts db @ as \<Longrightarrow> finished_kept db db'"
  by (auto simp: finished_kept_def)

lemma finished_kept_completed:
  assumes "dep_inv db" "current db aid r a"
  shows "finished_kept db (completed_db st now r a db)"
proof -
  have new: "a \<in> set (db_attempts db)" "ar_status a = Running"
    using assms newest_attempt [OF assms(1), of r a] by (auto simp: current_def projects_def)
  have "x \<in> set (db_attempts (completed_db st now r a db))" if x: "x \<in> set (db_attempts db)" "ar_status x \<noteq> Running" for x
  proof -
    have "ar_id x \<noteq> ar_id a" using attempt_row_unique [OF assms(1) x(1) new(1)] x(2) new(2) by auto
    with x(1) show ?thesis by (auto simp: completed_db_def Let_def image_iff intro: bexI [of _ x])
  qed
  then show ?thesis by (auto simp: finished_kept_def)
qed

lemma startPrepared_keeps:
  assumes inv: "dep_inv db"
    and run: "startPrepared ids now1 now2 stack commit desired changed manual db = (Inr res, db')"
  shows "dep_inv db' \<and> finished_kept db db'"
proof -
  obtain legacyID did aid where ids: "ids = (legacyID, did, aid)" by (cases ids) auto
  have create: "dep_inv db2 \<and> finished_kept db1 db2"
    if "dep_inv db1" "createDeployment (did, aid) now2 stack commit desired inh db1 = (Inr res', db2)" for inh db1 db2 res'
    using that(2)
  proof (rule createDeployment_Inr)
    fix d a assume c: "a = newAttempt aid did 1 now2" "db2 = created_db d desired a db1" "d_ID d = did" "d_Stack d = stack"
      "d_Status d = Running" "d_ErrorCode d = ''''" "d_Phase d = PhaseApply"
      "did \<notin> dr_id ` set (db_deployments db1)" "aid \<notin> ar_id ` set (db_attempts db1)"
      "\<not> (\<exists>r \<in> set (db_deployments db1). dr_stack r = stack \<and> dr_status r = Running)"
    show ?thesis
      unfolding c(2) using created_dep_inv [OF that(1) c(1,3-10)] by (simp add: created_db_def)
  qed
  show ?thesis
  proof (cases "latest_row stack db")
    case None
    then show ?thesis
      using run inv create [OF inv] by (auto simp: startPrepared_def ids latest_Inr [OF inv] split: if_splits)
  next
    case (Some r)
    let ?d = "deployment_of r db"
    show ?thesis
    proof (cases "prep_Digest (dr_desired r) = prep_Digest desired")
      case True
      then have ex: "startExisting aid now1 now2 ?d manual db = (Inr res, db')"
        using run by (simp add: startPrepared_def ids latest_Inr [OF inv] Some)
      have "finished_kept db db'"
        using ex by (rule startExisting_cases [OF inv Some]) (simp_all add: restarted_db_def)
      then show ?thesis using startExisting_inv [OF inv Some ex] by simp
    next
      case False
      then obtain db1 inh db2 res' where
        sup: "supersedePrevious legacyID now1 ?d db = (None, db1)" and
        mk: "createDeployment (did, aid) now2 stack commit desired (Some inh) db1 = (Inr res', db2)" and
        pub: "\<exists>names. db' = publish_removals stack commit names db2"
        using run by (auto simp: startPrepared_def ids latest_Inr [OF inv] Some Let_def
            split: prod.splits option.splits sum.splits)
      have inv1: "dep_inv db1" using supersedePrevious_inv [OF inv Some sup] .
      have kept1: "finished_kept db db1"
        using sup by (rule supersedePrevious_cases [OF inv Some]) (simp_all add: finished_kept_completed [OF inv])
      have "dep_inv db2" "finished_kept db1 db2" using create [OF inv1 mk] by simp_all
      then show ?thesis
        using pub finished_kept_trans [OF kept1, of db'] by (auto simp: publish_removals_def finished_kept_def)
    qed
  qed
qed

lemma startIfChanged_keeps:
  assumes "dep_inv db" "startIfChanged fault ids now1 now2 stack commit desired changed manual db = (res, db')"
  shows "dep_inv db' \<and> finished_kept db db'"
proof -
  obtain pres pdb where p: "startPrepared ids now1 now2 stack commit desired changed manual db = (pres, pdb)"
    by fastforce
  show ?thesis
    using assms startPrepared_keeps [OF assms(1), of ids now1 now2 stack commit desired changed manual] p
    by (cases pres) (auto simp: startIfChanged_def split: option.splits)
qed

section \<open>Rollout obligations keep the invariant\<close>

lemma dep_inv_details:
  assumes inv: "dep_inv db" and r: "r \<in> set (db_deployments db)"
  shows "dep_inv (db\<lparr>db_deployments := map (\<lambda>x. if dr_id x = dr_id r then r\<lparr>dr_details := ds\<rparr> else x) (db_deployments db)\<rparr>)"
    (is "dep_inv ?db")
proof -
  let ?r' = "r\<lparr>dr_details := ds\<rparr>"
  have same: "x = r" if "x \<in> set (db_deployments db)" "dr_id x = dr_id r" for x
    using dep_row_unique [OF inv that(1) r that(2)] .
  have at: "attempts_of did ?db = attempts_of did db" for did by (simp add: attempts_of_def)
  let ?f = "\<lambda>x. if dr_id x = dr_id r then ?r' else x" and ?P = "\<lambda>stack x. dr_stack x = stack \<and> dr_status x = Succeeded"
  have "find (\<lambda>x. ?P stack (?f x)) (rev (db_deployments db)) = find (?P stack) (rev (db_deployments db))" for stack
    by (rule find_cong_set) (auto dest!: same)
  then have snaps: "last_succeeded stack (map ?f (db_deployments db)) = last_succeeded stack (db_deployments db)" for stack
    unfolding last_succeeded_def rev_map find_map by (auto simp: option.map_comp o_def intro!: option.map_cong)
  have row: "attempts_ok (attempts_of (dr_id r) db)" "projects r (last (attempts_of (dr_id r) db))"
    "dr_status r = Running \<Longrightarrow> latest_row (dr_stack r) db = Some r"
    using row_inv_of [OF inv r] by (simp_all add: row_inv_def)
  show ?thesis
    by (rule dep_inv_change [OF inv r, where r' = ?r'])
      (use row inv in \<open>simp_all add: at snaps projects_def dep_inv_def\<close>)
qed

lemma verificationDeployment_Inr:
  assumes "dep_inv db" "verificationDeployment aid db = Inr d"
  obtains r a where "current db aid r a" "d = deployment_of r db"
proof -
  obtain a where a: "find (\<lambda>x. ar_id x = aid) (db_attempts db) = Some a"
      "get_deployment (ar_deployment_id a) db = Inr d" "ar_status a = Running" "d_LatestAttemptID d = aid"
    using assms(2)
    by (auto simp: verificationDeployment_def getAttempt_def split: option.splits sum.splits if_splits)
  have at: "a \<in> set (db_attempts db)" "ar_id a = aid" using find_in [OF a(1)] by auto
  obtain r where r: "find_deployment (ar_deployment_id a) db = Some r" "d = deployment_of r db"
    using a(2) by (auto simp: get_deployment_def split: option.splits)
  have r': "r \<in> set (db_deployments db)" "dr_id r = ar_deployment_id a"
    using r(1) find_deployment_Some [OF assms(1)] by blast+
  let ?l = "last (attempts_of (dr_id r) db)"
  note new = newest_attempt [OF assms(1) r'(1) refl]
  have "ar_id ?l = aid" using a(4) r(2) deployment_of_attempts(1) [OF row_inv_of [OF assms(1) r'(1)]] by simp
  then have "a = ?l" using attempt_row_unique [OF assms(1) at(1) new(1)] at(2) by simp
  then have "current db aid r a" using r'(1) new(3) a(3) at(2) by (simp add: current_def projects_def)
  then show ?thesis using that r(2) by blast
qed

lemma verificationDeployment_current:
  assumes "dep_inv db" "current db aid r a"
  shows "verificationDeployment aid db = Inr (deployment_of r db)"
proof -
  have r: "r \<in> set (db_deployments db)" "dr_status r = Running" "a = last (attempts_of (dr_id r) db)" "ar_id a = aid"
    using assms(2) by (auto simp: current_def)
  note new = newest_attempt [OF assms(1) r(1,3)]
  have "find (\<lambda>x. ar_id x = aid) (db_attempts db) = Some a" "find_deployment (dr_id r) db = Some r"
    using find_attempt_Some [OF assms(1)] find_deployment_Some [OF assms(1)] new(1) r by blast+
  then show ?thesis
    using new r deployment_of_attempts(1) [OF row_inv_of [OF assms(1) r(1)]]
    by (simp add: verificationDeployment_def getAttempt_def get_deployment_def projects_def)
qed

definition with_details :: "details \<Rightarrow> deployment_row \<Rightarrow> deployment_db \<Rightarrow> deployment_db" where
  "with_details ds r db =
     db\<lparr>db_deployments := map (\<lambda>x. if dr_id x = dr_id r then r\<lparr>dr_details := ds\<rparr> else x) (db_deployments db)\<rparr>"

lemma saveVerification_effect:
  assumes "dep_inv db" "current db aid r a" "d_ID d = dr_id r"
  shows "saveVerification d db = (None, with_details (detailsFromDeployment d) r db)"
proof -
  have r: "r \<in> set (db_deployments db)" "dr_status r = Running" using assms(2) by (auto simp: current_def)
  have "update_deployments (\<lambda>x. dr_id x = d_ID d \<and> dr_status x = Running) (\<lambda>x. x\<lparr>dr_details := detailsFromDeployment d\<rparr>) db =
      (1, with_details (detailsFromDeployment d) r db)"
    unfolding with_details_def by (rule update_deployments_one [OF assms(1) r(1)]) (use r assms(3) in auto)
  then show ?thesis by (simp add: saveVerification_def requireOneRunning_def)
qed

lemma with_details_keeps:
  "dep_inv db \<Longrightarrow> r \<in> set (db_deployments db) \<Longrightarrow> dep_inv (with_details ds r db) \<and> finished_kept db (with_details ds r db)"
  using dep_inv_details by (simp add: with_details_def finished_kept_def)

lemma save_tx_keeps:
  assumes "dep_inv db" "verificationDeployment aid db = Inr d" "d_ID d' = d_ID d"
    "within_tx fault (saveVerification d') db = (e, db')"
  shows "dep_inv db' \<and> finished_kept db db'"
proof (cases e)
  case None
  then have run: "saveVerification d' db = (None, db')" using assms(4) by (simp add: within_tx_None)
  obtain r a where cur: "current db aid r a" "d = deployment_of r db"
    using verificationDeployment_Inr [OF assms(1,2)] .
  then have "r \<in> set (db_deployments db)" by (simp add: current_def)
  moreover have "db' = with_details (detailsFromDeployment d') r db"
    using saveVerification_effect [OF assms(1) cur(1), of d'] run cur(2) assms(3) by simp
  ultimately show ?thesis using with_details_keeps [OF assms(1)] by simp
next
  case (Some err)
  then have "db' = db" using assms(4) tx.rollback [of fault "saveVerification d'" db] by simp
  with assms(1) show ?thesis by simp
qed

lemma recordUpdateGeneration_keeps:
  assumes "dep_inv db" "recordUpdateGeneration fault aid name g db = (res, db')"
  shows "dep_inv db' \<and> finished_kept db db'"
proof (cases "verificationDeployment aid db")
  case (Inr d)
  let ?d = "d\<lparr>d_Verification := recorded_verification name g (d_Verification d)\<rparr>"
  obtain e db1 where tx: "within_tx fault (saveVerification ?d) db = (e, db1)" by fastforce
  then have "db' = db1" using assms(2) by (auto simp: recordUpdateGeneration_def Inr Let_def split: option.splits)
  then show ?thesis using save_tx_keeps [OF assms(1) Inr _ tx] by simp
qed (use assms in \<open>simp add: recordUpdateGeneration_def\<close>)

lemma rejectUpdateGeneration_keeps:
  assumes "dep_inv db" "rejectUpdateGeneration fault aid name g captured db = (res, db')"
  shows "dep_inv db' \<and> finished_kept db db'"
proof (cases "verificationDeployment aid db")
  case (Inr d)
  let ?d = "d\<lparr>d_Verification := rejected_verification name captured (d_Verification d)\<rparr>"
  consider "db' = db" | "within_tx fault (saveVerification ?d) db = (res, db')"
    using assms(2) by (auto simp: rejectUpdateGeneration_def Inr Let_def split: if_splits)
  then show ?thesis using assms(1) save_tx_keeps [OF assms(1) Inr, of ?d] by cases simp_all
qed (use assms in \<open>simp add: rejectUpdateGeneration_def\<close>)

section \<open>Recovery keeps the invariant\<close>

definition running_rows :: "deployment_db \<Rightarrow> attempt_row list" where
  "running_rows db = filter (\<lambda>a. ar_status a = Running) (db_attempts db)"

text \<open>The event that reports the interruption of an attempt.\<close>

definition interrupted_event :: "deployment_db \<Rightarrow> attempt_row \<Rightarrow> deployment_event" where
  "interrupted_event db a =
     (case find_deployment (ar_deployment_id a) db of
        None \<Rightarrow> DeployInterrupted (ar_deployment_id a) (ar_id a) '''' '''' ''process_interrupted'' ''''
      | Some r \<Rightarrow> DeployInterrupted (dr_id r) (ar_id a) (dr_stack r) (dr_commit r) ''process_interrupted'' '''')"

lemma running_current:
  assumes "dep_inv db" "a \<in> set (running_rows db)"
  obtains r where "current db (ar_id a) r a"
proof -
  have a: "a \<in> set (db_attempts db)" "ar_status a = Running" using assms(2) by (auto simp: running_rows_def)
  obtain r where r: "r \<in> set (db_deployments db)" "dr_id r = ar_deployment_id a" using attempt_fk [OF assms(1) a(1)] by blast
  let ?as = "attempts_of (dr_id r) db"
  have in_as: "a \<in> set ?as" using a(1) r(2) by (simp add: attempts_of_def)
  have ok: "attempts_ok ?as" "projects r (last ?as)" using row_inv_of [OF assms(1) r(1)] by (simp_all add: row_inv_def)
  have "a \<notin> set (butlast ?as)" using ok(1) a(2) by (auto simp: attempts_ok_def)
  then have "a = last ?as" using set_butlast_last [of ?as] in_as ok(1) by (auto simp: attempts_ok_def)
  then show ?thesis using that [of r] r(1) ok(2) a(2) by (simp add: current_def projects_def)
qed

lemma legacyRunning_none:
  assumes "dep_inv db" shows "legacyRunning stack db = []"
proof -
  have "\<exists>a \<in> set (db_attempts db). ar_deployment_id a = dr_id r" if "r \<in> set (db_deployments db)" for r
    using newest_attempt(1,2) [OF assms that refl] by blast
  then show ?thesis by (simp add: legacyRunning_def filter_empty_conv)
qed

lemma runningAttempts_all:
  assumes "dep_inv db" shows "runningAttempts '''' db = map attempt_of (running_rows db)"
proof -
  have "\<exists>r \<in> set (db_deployments db). dr_id r = ar_deployment_id a" if "a \<in> set (db_attempts db)" for a
    using attempt_fk [OF assms that] .
  then show ?thesis unfolding runningAttempts_def running_rows_def
    by (intro arg_cong [where f = "map attempt_of"] filter_cong) auto
qed

lemma completed_running:
  assumes "dep_inv db" "current db aid r a" "terminal st"
  shows "running_rows (completed_db st now r a db) = filter (\<lambda>x. ar_id x \<noteq> ar_id a) (running_rows db)"
proof -
  let ?row = "finish_row (finished_attempt st now (attempt_of a)) a"
  have fin: "ar_status ?row \<noteq> Running" using assms(3) by (auto simp: finish_row_def finished_attempt_def terminal_def)
  have "filter (\<lambda>x. ar_status x = Running) (map (\<lambda>x. if ar_id x = ar_id a then ?row else x) xs) =
      filter (\<lambda>x. ar_id x \<noteq> ar_id a) (filter (\<lambda>x. ar_status x = Running) xs)" for xs
    using fin by (induction xs) auto
  then show ?thesis by (simp add: running_rows_def completed_db_def Let_def)
qed

text \<open>The interruption of one running attempt leaves the others, and their events, as they were.\<close>

lemma current_other:
  assumes "dep_inv db" "current db (ar_id a) r a" "current db (ar_id b) q b" "ar_id a \<noteq> ar_id b"
  shows "current (completed_db st now r a db) (ar_id b) q b"
proof -
  have a: "a = last (attempts_of (dr_id r) db)" "r \<in> set (db_deployments db)" using assms(2) by (auto simp: current_def)
  have b: "b = last (attempts_of (dr_id q) db)" "q \<in> set (db_deployments db)" using assms(3) by (auto simp: current_def)
  have ne: "dr_id q \<noteq> dr_id r" using a b assms(4) by auto
  let ?db = "completed_db st now r a db" and ?row = "finish_row (finished_attempt st now (attempt_of a)) a"
  have "db_attempts ?db = map (\<lambda>x. if ar_id x = ar_id a then ?row else x) (db_attempts db)"
    by (simp add: completed_db_def Let_def)
  then have "attempts_of (dr_id q) ?db = attempts_of (dr_id q) db"
    by (rule attempts_of_replace(2) [OF assms(1) a(2,1), of ?row, rotated 2]) (simp_all add: finish_row_def ne)
  moreover have "q \<in> set (db_deployments ?db)"
    using b(2) ne by (auto simp: completed_db_def Let_def image_iff intro: bexI [of _ q])
  ultimately show ?thesis using assms(3) by (simp add: current_def)
qed

lemma interrupted_event_completed:
  assumes "dep_inv db" "current db aid r a"
  shows "interrupted_event (completed_db st now r a db) b = interrupted_event db b"
proof -
  have r: "r \<in> set (db_deployments db)" using assms(2) by (simp add: current_def)
  let ?r' = "outcome_row (completed_deployment st r db) (finished_attempt st now (attempt_of a)) now r"
  have "find_deployment did (completed_db st now r a db) =
      map_option (\<lambda>x. if dr_id x = dr_id r then ?r' else x) (find_deployment did db)" for did
    unfolding find_deployment_def completed_db_def Let_def
    by (simp add: find_map) (rule arg_cong [where f = "map_option _"], rule find_cong_set, auto simp: outcome_row_def)
  moreover have "dr_id x = dr_id r \<Longrightarrow> x = r" if "find_deployment did db = Some x" for did x
    using that dep_row_unique [OF assms(1) _ r] by (auto simp: find_deployment_def dest: find_in)
  ultimately show ?thesis
    by (auto simp: interrupted_event_def outcome_row_def split: option.splits)
qed

lemma completed_published:
  assumes "dep_inv db" "current db (ar_id a) r a"
  shows "db_published (completed_db interrupted_state now r a db) = db_published db @ [interrupted_event db a]"
proof -
  have r: "r \<in> set (db_deployments db)" "a = last (attempts_of (dr_id r) db)" using assms(2) by (auto simp: current_def)
  have "find_deployment (ar_deployment_id a) db = Some r"
    using find_deployment_Some [OF assms(1)] newest_attempt(2) [OF assms(1) r] r(1) by simp
  moreover have "st_errorCode interrupted_state = ''process_interrupted''" "st_eventStage interrupted_state = ''''"
    by (simp_all add: interrupted_state_def completion_state_def process_interrupted_def)
  ultimately show ?thesis
    by (simp add: completed_db_def Let_def completion_event_def status_interrupted interrupted_event_def
        completed_deployment_def finished_attempt_def)
qed

lemma synchronize_running:
  assumes "dep_inv db" "current db (ar_id a) r a"
  shows "synchronizeRunningAttempt (attempt_of a) db = (False, db)"
proof -
  have r: "r \<in> set (db_deployments db)" "a = last (attempts_of (dr_id r) db)" "dr_status r = Running"
    using assms(2) by (auto simp: current_def)
  have "find (\<lambda>x. dr_id x = ar_deployment_id a) (db_deployments db) = Some r"
    using find_deployment_Some [OF assms(1), unfolded find_deployment_def] newest_attempt(2) [OF assms(1) r(1,2)] r(1) by simp
  then show ?thesis using r(3) by (simp add: synchronizeRunningAttempt_def)
qed

lemma interruptAttempts_effect:
  assumes "dep_inv db" "\<not> IsZero now" "distinct (map ar_id rows)" "\<forall>a \<in> set rows. \<exists>r. current db (ar_id a) r a"
  shows "\<exists>db'. interruptAttempts now (map attempt_of rows) db = (None, db') \<and> dep_inv db' \<and> finished_kept db db' \<and>
    running_rows db' = filter (\<lambda>x. ar_id x \<notin> ar_id ` set rows) (running_rows db) \<and>
    db_published db' = db_published db @ map (interrupted_event db) rows"
  using assms
proof (induction rows arbitrary: db)
  case (Cons a rows)
  obtain r where cur: "current db (ar_id a) r a" using Cons.prems(4) by auto
  let ?db = "completed_db interrupted_state now r a db"
  have inv: "dep_inv ?db" using completed_dep_inv [OF Cons.prems(1) cur] by simp
  have "\<exists>q. current ?db (ar_id b) q b" if b: "b \<in> set rows" for b
  proof -
    have "ar_id a \<noteq> ar_id b" using Cons.prems(3) b by auto
    moreover obtain q where "current db (ar_id b) q b" using Cons.prems(4) b by auto
    ultimately show ?thesis using current_other [OF Cons.prems(1) cur] by blast
  qed
  then obtain db' where ih: "interruptAttempts now (map attempt_of rows) ?db = (None, db')" "dep_inv db'"
      "finished_kept ?db db'" "running_rows db' = filter (\<lambda>x. ar_id x \<notin> ar_id ` set rows) (running_rows ?db)"
      "db_published db' = db_published ?db @ map (interrupted_event ?db) rows"
    using Cons.IH [OF inv Cons.prems(2)] Cons.prems(3) by auto
  have "complete_body (ar_id a) interrupted_state now db = (None, ?db)"
    using complete_current [OF Cons.prems(1) cur terminal_interrupted Cons.prems(2)] .
  then have "interruptAttempts now (map attempt_of (a # rows)) db = (None, db')"
    using ih(1) synchronize_running [OF Cons.prems(1) cur] by (simp add: completion_state_interrupted)
  moreover have "running_rows db' = filter (\<lambda>x. ar_id x \<notin> ar_id ` set (a # rows)) (running_rows db)"
    unfolding ih(4) completed_running [OF Cons.prems(1) cur terminal_interrupted] filter_filter
    by (rule filter_cong) auto
  moreover have "db_published db' = db_published db @ map (interrupted_event db) (a # rows)"
    unfolding ih(5) completed_published [OF Cons.prems(1) cur]
    using interrupted_event_completed [OF Cons.prems(1) cur] by simp
  ultimately show ?case
    using ih(2) finished_kept_trans [OF finished_kept_completed [OF Cons.prems(1) cur] ih(3)] by blast
qed simp

lemma running_rows_distinct: "dep_inv db \<Longrightarrow> distinct (map ar_id (running_rows db))"
  by (simp add: dep_inv_def running_rows_def distinct_map_filter)

lemma interruptRunning_effect:
  assumes "dep_inv db" "\<not> IsZero now"
  shows "\<exists>db'. interruptRunning None ids now db = (None, db') \<and> dep_inv db' \<and> finished_kept db db' \<and>
    running_rows db' = [] \<and> db_published db' = db_published db @ map (interrupted_event db) (running_rows db)"
proof -
  have "\<forall>a \<in> set (running_rows db). \<exists>r. current db (ar_id a) r a" using running_current [OF assms(1)] by blast
  then obtain db' where "interruptAttempts now (map attempt_of (running_rows db)) db = (None, db')" "dep_inv db'"
      "finished_kept db db'" "running_rows db' = filter (\<lambda>x. ar_id x \<notin> ar_id ` set (running_rows db)) (running_rows db)"
      "db_published db' = db_published db @ map (interrupted_event db) (running_rows db)"
    using interruptAttempts_effect [OF assms running_rows_distinct [OF assms(1)]] by blast
  moreover have "filter (\<lambda>x. ar_id x \<notin> ar_id ` set (running_rows db)) (running_rows db) = []"
    by (simp add: filter_empty_conv)
  ultimately show ?thesis
    by (simp add: interruptRunning_def within_tx_def Let_def legacyRunning_none [OF assms(1)] runningAttempts_all [OF assms(1)])
qed

lemma interruptRunning_keeps:
  assumes "dep_inv db" "interruptRunning fault ids now db = (e, db')"
  shows "dep_inv db' \<and> finished_kept db db'"
proof (cases e)
  case (Some err)
  then have "interruptRunning fault ids now db = (Some err, db')" using assms(2) by simp
  then have "db' = db" unfolding interruptRunning_def by (rule tx.rollback)
  with assms(1) show ?thesis by simp
next
  case None
  then have ran: "fault = None" "interruptAttempts now (map attempt_of (running_rows db)) db = (None, db')"
    using assms(2) by (simp_all add: interruptRunning_def within_tx_None Let_def
        legacyRunning_none [OF assms(1)] runningAttempts_all [OF assms(1)])
  show ?thesis
  proof (cases "IsZero now")
    case True
    show ?thesis
    proof (cases "running_rows db")
      case (Cons a rows)
      obtain r where cur: "current db (ar_id a) r a" using running_current [OF assms(1), of a] Cons by auto
      obtain e' db2 where "complete_body (ar_id a) interrupted_state now db = (Some e', db2)"
        using complete_zero_time [OF True] by (metis not_Some_eq prod.collapse)
      then show ?thesis
        using ran(2) Cons synchronize_running [OF assms(1) cur] by (simp add: completion_state_interrupted)
    qed (use ran(2) assms(1) in simp)
  next
    case False
    then show ?thesis using interruptRunning_effect [OF assms(1) False, of ids] assms(2) ran(1) None by auto
  qed
qed

section \<open>The deployment tables over time\<close>

definition empty_db :: deployment_db where
  "empty_db = \<lparr>db_deployments = [], db_attempts = [], db_snapshots = fmempty, db_published = []\<rparr>"

text \<open>The operations of the module, in any order, with any arguments, failures included.\<close>

inductive dep_step :: "deployment_db \<Rightarrow> deployment_db \<Rightarrow> bool" where
  dep_start: "startIfChanged fault ids now1 now2 stack commit desired changed manual db = (res, db') \<Longrightarrow> dep_step db db'"
| dep_complete: "complete fault aid c now db = (e, db') \<Longrightarrow> dep_step db db'"
| dep_interrupt: "interruptRunning fault legacyIDs now db = (e, db') \<Longrightarrow> dep_step db db'"
| dep_record: "recordUpdateGeneration fault aid name g db = (r, db') \<Longrightarrow> dep_step db db'"
| dep_reject: "rejectUpdateGeneration fault aid name g captured db = (e, db') \<Longrightarrow> dep_step db db'"

lemma dep_step_keeps:
  assumes "dep_step db db'" "dep_inv db"
  shows "dep_inv db' \<and> finished_kept db db'"
  using assms(1)
proof cases
  case dep_start
  then show ?thesis by (rule startIfChanged_keeps [OF assms(2)])
next
  case dep_interrupt
  then show ?thesis by (rule interruptRunning_keeps [OF assms(2)])
next
  case dep_record
  then show ?thesis by (rule recordUpdateGeneration_keeps [OF assms(2)])
next
  case dep_reject
  then show ?thesis by (rule rejectUpdateGeneration_keeps [OF assms(2)])
next
  case (dep_complete fault aid c now e)
  show ?thesis
  proof (rule complete_cases [OF assms(2) dep_complete])
    fix st r a assume "completion_state c = Some st" "current db aid r a" "db' = completed_db st now r a db"
    then show ?thesis
      using completed_dep_inv [OF assms(2)] finished_kept_completed [OF assms(2)] completion_state_terminal by simp
  qed (use assms(2) in simp)
qed

interpretation deps: inductive_invariant "(=) empty_db" dep_step dep_inv
proof unfold_locales
  show "dep_inv db" if "empty_db = db" for db
    using that by (auto simp: dep_inv_def empty_db_def last_succeeded_def)
  show "dep_inv db'" if "dep_inv db" "dep_step db db'" for db db'
    using dep_step_keeps [OF that(2,1)] by simp
qed

abbreviation deployments_reachable :: "deployment_db \<Rightarrow> bool" where
  "deployments_reachable \<equiv> reachable ((=) empty_db) dep_step"

lemma finished_kept_steps: "dep_step\<^sup>*\<^sup>* db db' \<Longrightarrow> dep_inv db \<Longrightarrow> dep_inv db' \<and> finished_kept db db'"
proof (induction rule: rtranclp_induct)
  case (step db1 db2)
  then have "dep_inv db1" "finished_kept db db1" by simp_all
  then show ?case using dep_step_keeps [OF step(2)] finished_kept_trans by blast
qed simp

section \<open>A concrete history\<close>

text \<open>A stack is deployed, the deployment fails to apply, and a new desired state replaces it.\<close>

definition sample_desired :: "string \<Rightarrow> string list \<Rightarrow> prepared" where
  "sample_desired digest names =
     \<lparr>prep_Definition = \<lparr>file_Path = ''app.yaml'', file_Services = map (\<lambda>n. (n, ''registry/app'')) names, file_Digest = digest\<rparr>, prep_Digest = digest\<rparr>"

definition sample_failure :: completion where
  "sample_failure =
     \<lparr>comp_Verification = \<lparr>ver_Known = True, ver_UnresolvedServices = [''web''], ver_Generations = fmempty\<rparr>,
      comp_Outcome = CompletionApplyFailed, comp_Diagnostic = None, comp_Retryable = True, comp_ObservedAt = None\<rparr>"

definition sample_success :: completion where
  "sample_success =
     \<lparr>comp_Verification = settled_verification, comp_Outcome = CompletionSucceeded, comp_Diagnostic = None,
      comp_Retryable = False, comp_ObservedAt = Some 9\<rparr>"

definition sample_start :: deployment_db where
  "sample_start = snd (startIfChanged None (''l1'', ''d1'', ''a1'') 5 6 ''app'' ''c1''
     (sample_desired ''x'' [''db'', ''web'']) True False empty_db)"

definition sample_failed :: deployment_db where
  "sample_failed = snd (complete None ''a1'' sample_failure 8 sample_start)"

definition sample_second :: deployment_db where
  "sample_second = snd (startIfChanged None (''l2'', ''d2'', ''a2'') 10 11 ''app'' ''c2''
     (sample_desired ''y'' [''web'']) True False sample_failed)"

lemma sample_reachable: "deployments_reachable sample_start" "deployments_reachable sample_failed"
  "deployments_reachable sample_second"
proof -
  have start: "dep_step db (snd (startIfChanged f ids n1 n2 stack commit desired ch man db))" for f ids n1 n2 stack commit desired ch man db
    by (metis dep_start prod.collapse)
  have compl: "dep_step db (snd (complete f aid c now db))" for f aid c now db
    by (metis dep_complete prod.collapse)
  have 0: "deployments_reachable empty_db" by (rule reachable_init) simp
  show 1: "deployments_reachable sample_start"
    unfolding sample_start_def by (rule reachable_step [OF 0 start])
  show 2: "deployments_reachable sample_failed"
    unfolding sample_failed_def by (rule reachable_step [OF 1 compl])
  show "deployments_reachable sample_second"
    unfolding sample_second_def by (rule reachable_step [OF 2 start])
qed

section \<open>Properties\<close>

text \<open>
  C21. Whatever operations run, with whatever failures: every deployment has attempts numbered from
  one without gaps, its row carries the outcome of the newest attempt, an attempt is running exactly
  when the deployment is and then it is the newest, and a running deployment is the newest of its
  stack (so a stack never has two).
\<close>

theorem deployments_consistent:
  assumes "deployments_reachable db" and "r \<in> set (db_deployments db)"
  shows "attempts_of (dr_id r) db \<noteq> [] \<and>
    map ar_number (attempts_of (dr_id r) db) = [1 ..< Suc (length (attempts_of (dr_id r) db))] \<and>
    projects r (last (attempts_of (dr_id r) db)) \<and>
    filter (\<lambda>a. ar_status a = Running) (attempts_of (dr_id r) db) =
      (if dr_status r = Running then [last (attempts_of (dr_id r) db)] else []) \<and>
    (if dr_status r = Running then latest_row (dr_stack r) db = Some r else True)"
proof -
  let ?as = "attempts_of (dr_id r) db"
  have inv: "row_inv db r" using row_inv_of [OF deps.inv_reachable [OF assms(1)] assms(2)] .
  then have ne: "?as \<noteq> []" and rest: "\<forall>a \<in> set (butlast ?as). ar_status a \<noteq> Running" and pr: "projects r (last ?as)"
    by (simp_all add: row_inv_def attempts_ok_def)
  have "filter (\<lambda>a. ar_status a = Running) (butlast ?as @ [last ?as]) =
      (if dr_status r = Running then [last ?as] else [])"
    using rest pr by (simp add: filter_empty_conv projects_def)
  then show ?thesis using inv ne by (auto simp: row_inv_def attempts_ok_def simp del: upt_Suc)
qed

theorem deployments_consistent_witness:
  "length (db_deployments sample_second) = 2 \<and> map dr_status (db_deployments sample_second) = [Failed, Running] \<and>
   projects (db_deployments sample_second ! 1) (last (attempts_of ''d2'' sample_second)) \<and>
   latest_row ''app'' sample_second = Some (db_deployments sample_second ! 1)"
proof -
  have len: "length (db_deployments sample_second) = 2" "map dr_status (db_deployments sample_second) = [Failed, Running]"
    "map dr_id (db_deployments sample_second) = [''d1'', ''d2'']" "map dr_stack (db_deployments sample_second) = [''app'', ''app'']"
    by code_simp+
  then have row: "db_deployments sample_second ! 1 \<in> set (db_deployments sample_second)"
    "dr_id (db_deployments sample_second ! 1) = ''d2''" "dr_stack (db_deployments sample_second ! 1) = ''app''"
    "dr_status (db_deployments sample_second ! 1) = Running"
    by (auto simp: numeral_2_eq_2 length_Suc_conv)
  show ?thesis using deployments_consistent [OF sample_reachable(3) row(1)] len row by simp
qed

text \<open>
  C22. The baseline of a stack, the state that a new deployment is compared with, is always the
  desired state of its newest succeeded deployment.
\<close>

theorem baseline_newest_succeeded:
  assumes "deployments_reachable db"
  shows "baseline stack db =
    (case find (\<lambda>r. dr_stack r = stack \<and> dr_status r = Succeeded) (rev (db_deployments db)) of
       None \<Rightarrow> Inl ErrNotFound | Some r \<Rightarrow> Inr (dr_desired r))"
proof -
  have inv: "dep_inv db" using deps.inv_reachable [OF assms] .
  then have snap: "fmlookup (db_snapshots db) stack = last_succeeded stack (db_deployments db)" by (simp add: dep_inv_def)
  show ?thesis
  proof (cases "find (\<lambda>r. dr_stack r = stack \<and> dr_status r = Succeeded) (rev (db_deployments db))")
    case (Some r)
    have r: "r \<in> set (db_deployments db)" "dr_status r = Succeeded" using find_in [OF Some] by auto
    have "find (\<lambda>x. dr_id x = dr_id r) (db_deployments db) = Some r"
      using find_deployment_Some [OF inv] r(1) unfolding find_deployment_def by blast
    then have "find (\<lambda>x. dr_id x = dr_id r \<and> dr_status x = Succeeded) (db_deployments db) = Some r"
      by (rule find_refine) (use r(2) in auto)
    then show ?thesis using snap Some by (simp add: baseline_def last_succeeded_def)
  qed (use snap in \<open>simp add: baseline_def last_succeeded_def\<close>)
qed

theorem baseline_newest_succeeded_witness:
  "baseline ''app'' (snd (complete None ''a2'' sample_success 12 sample_second)) = Inr (sample_desired ''y'' [''web''])"
proof -
  let ?db = "snd (complete None ''a2'' sample_success 12 sample_second)"
  have "deployments_reachable ?db"
    by (rule reachable_step [OF sample_reachable(3)]) (rule dep_complete, rule prod.collapse [symmetric])
  moreover have "find (\<lambda>r. dr_stack r = ''app'' \<and> dr_status r = Succeeded) (rev (db_deployments ?db)) =
      Some (last (db_deployments ?db))" "dr_desired (last (db_deployments ?db)) = sample_desired ''y'' [''web'']"
    by code_simp+
  ultimately show ?thesis using baseline_newest_succeeded [of ?db "''app''"] by simp
qed

text \<open>
  A recorded outcome is final: the row of a finished attempt is still there, unchanged, after any
  further operations, in particular after a late completion of the same attempt, a retry, a newer
  deployment or a recovery.
\<close>

theorem attempt_outcome_final:
  assumes "deployments_reachable db" and "dep_step\<^sup>*\<^sup>* db db'"
    and "a \<in> set (db_attempts db)" and "ar_status a \<noteq> Running"
  shows "a \<in> set (db_attempts db')"
  using finished_kept_steps [OF assms(2) deps.inv_reachable [OF assms(1)]] assms(3,4)
  by (auto simp: finished_kept_def)

theorem attempt_outcome_final_witness:
  "hd (db_attempts sample_failed) \<in> set (db_attempts (snd (complete None ''a1'' sample_success 9 sample_failed)))"
proof -
  let ?a = "hd (db_attempts sample_failed)"
  have "dep_step\<^sup>*\<^sup>* sample_failed (snd (complete None ''a1'' sample_success 9 sample_failed))"
    by (rule r_into_rtranclp, rule dep_complete, rule prod.collapse [symmetric])
  moreover have "?a \<in> set (db_attempts sample_failed)" "ar_status ?a \<noteq> Running" by code_simp+
  ultimately show ?thesis by (rule attempt_outcome_final [OF sample_reachable(2)])
qed

text \<open>
  C24. Completing the running attempt of a deployment commits one atomic change: the attempt and the
  deployment get the completion's status, error code, phase and finish time, no other row changes, the
  baseline of the stack moves exactly on success, and exactly one event reports the outcome.
\<close>

theorem complete_commits:
  assumes "deployments_reachable db" and "r \<in> set (db_deployments db)" and "dr_status r = Running"
    and "a = last (attempts_of (dr_id r) db)" and "completion_state c = Some st" and "\<not> IsZero now"
  shows "\<exists>db' a' r' ev. complete None (ar_id a) c now db = (None, db') \<and>
    db_attempts db' = map (\<lambda>x. if ar_id x = ar_id a then a' else x) (db_attempts db) \<and>
    db_deployments db' = map (\<lambda>x. if dr_id x = dr_id r then r' else x) (db_deployments db) \<and>
    ar_id a' = ar_id a \<and> dr_id r' = dr_id r \<and> dr_desired r' = dr_desired r \<and>
    projects r' a' \<and> ar_status a' = st_status st \<and> ar_error_code a' = errorCode (comp_Outcome c) \<and>
    ar_phase a' = st_phase st \<and> ar_finished_at a' = Some now \<and>
    db_snapshots db' = (if st_status st = Succeeded then fmupd (dr_stack r) (dr_id r) (db_snapshots db) else db_snapshots db) \<and>
    completion_event (deployment_of r db) (attempt_of a) st = Some ev \<and> db_published db' = db_published db @ [ev]"
proof -
  have inv: "dep_inv db" using deps.inv_reachable [OF assms(1)] .
  have fin: "terminal st" using completion_state_terminal [OF assms(5)] .
  have code: "st_errorCode st = errorCode (comp_Outcome c)"
    using assms(5) by (auto simp: completion_state_def Let_def split: completion_outcome.splits if_splits)
  have "current db (ar_id a) r a" using assms(2-4) by (simp add: current_def)
  then have run: "complete None (ar_id a) c now db = (None, completed_db st now r a db)"
    using complete_current [OF inv _ fin assms(6)] by (simp add: complete_def assms(5) within_tx_def)
  have "completion_event (completed_deployment st r db) (finished_attempt st now (attempt_of a)) st =
      completion_event (deployment_of r db) (attempt_of a) st"
    by (simp add: completion_event_def completed_deployment_def finished_attempt_def split: status.splits)
  moreover obtain ev where "completion_event (deployment_of r db) (attempt_of a) st = Some ev"
    using fin by (auto simp: completion_event_def terminal_def)
  ultimately show ?thesis unfolding run
    by (intro exI [of _ "completed_db st now r a db"] exI [of _ "finish_row (finished_attempt st now (attempt_of a)) a"]
        exI [of _ "outcome_row (completed_deployment st r db) (finished_attempt st now (attempt_of a)) now r"] exI [of _ ev])
      (simp add: completed_db_def Let_def finish_row_def outcome_row_def finished_attempt_def projects_def code)
qed

theorem complete_commits_witness:
  "fst (complete None ''a2'' sample_success 12 sample_second) = None \<and>
   db_published (snd (complete None ''a2'' sample_success 12 sample_second)) =
     db_published sample_second @ [DeploySuccess ''d2'' ''a2'' ''app'' ''c2'']"
proof -
  let ?r = "last (db_deployments sample_second)" and ?a = "last (attempts_of ''d2'' sample_second)"
  have r: "?r \<in> set (db_deployments sample_second)" "dr_status ?r = Running" "dr_id ?r = ''d2''" "ar_id ?a = ''a2''"
    "completion_state sample_success \<noteq> None" "\<not> IsZero 12"
    "completion_event (deployment_of ?r sample_second) (attempt_of ?a) (the (completion_state sample_success)) =
       Some (DeploySuccess ''d2'' ''a2'' ''app'' ''c2'')"
    by code_simp+
  show ?thesis
    using complete_commits [OF sample_reachable(3) r(1,2), of ?a sample_success "the (completion_state sample_success)" 12] r(3-7)
    by auto
qed

text \<open>
  A completion of anything but a running attempt is rejected and changes nothing: a finished or
  unknown attempt cannot be completed again, also not by a worker that comes late.
\<close>

lemma complete_fenced:
  assumes "deployments_reachable db" and "\<not> (\<exists>a \<in> set (db_attempts db). ar_id a = aid \<and> ar_status a = Running)"
    and "completion_state c \<noteq> None"
  shows "\<exists>e. complete fault aid c now db = (Some e, db) \<and> (e = ErrNotFound \<or> e = ErrNotRunning)"
proof -
  have inv: "dep_inv db" using deps.inv_reachable [OF assms(1)] .
  have "\<not> current db aid r a" for r a
    using assms(2) newest_attempt(1,3) [OF inv, of r a] by (auto simp: current_def projects_def)
  moreover obtain st where "completion_state c = Some st" using assms(3) by blast
  ultimately show ?thesis
    using complete_not_current [OF inv, of aid st now] by (auto simp: complete_def within_tx_def)
qed

lemma complete_fenced_witness:
  "snd (complete None ''a1'' sample_success 20 sample_failed) = sample_failed \<and>
   fst (complete None ''a1'' sample_success 20 sample_failed) \<noteq> None"
proof -
  have "\<not> (\<exists>a \<in> set (db_attempts sample_failed). ar_id a = ''a1'' \<and> ar_status a = Running)"
    "completion_state sample_success \<noteq> None"
    by code_simp+
  then show ?thesis using complete_fenced [OF sample_reachable(2), of "''a1''" sample_success None 20] by auto
qed

text \<open>
  Recovery after a restart succeeds, leaves nothing running, and publishes exactly one
  interruption event for each attempt that was running, in the order of the attempts.
\<close>

lemma interruptRunning_recovers:
  assumes "deployments_reachable db" and "\<not> IsZero now"
  shows "\<exists>db'. interruptRunning None legacyIDs now db = (None, db') \<and>
    filter (\<lambda>a. ar_status a = Running) (db_attempts db') = [] \<and>
    filter (\<lambda>r. dr_status r = Running) (db_deployments db') = [] \<and>
    db_published db' =
      db_published db @ map (interrupted_event db) (filter (\<lambda>a. ar_status a = Running) (db_attempts db))"
proof -
  obtain db' where db': "interruptRunning None legacyIDs now db = (None, db')" "dep_inv db'" "running_rows db' = []"
      "db_published db' = db_published db @ map (interrupted_event db) (running_rows db)"
    using interruptRunning_effect [OF deps.inv_reachable [OF assms(1)] assms(2)] by blast
  have "dr_status r \<noteq> Running" if "r \<in> set (db_deployments db')" for r
    using newest_attempt(1,3) [OF db'(2) that refl] db'(3) by (auto simp: running_rows_def filter_empty_conv projects_def)
  then have "filter (\<lambda>r. dr_status r = Running) (db_deployments db') = []" by (simp add: filter_empty_conv)
  then show ?thesis using db' by (auto simp: running_rows_def)
qed

lemma interruptRunning_recovers_witness:
  "db_published (snd (interruptRunning None (\<lambda>_. ''x'') 30 sample_second)) =
     db_published sample_second @ [DeployInterrupted ''d2'' ''a2'' ''app'' ''c2'' ''process_interrupted'' '''']"
proof -
  have "map (interrupted_event sample_second) (filter (\<lambda>a. ar_status a = Running) (db_attempts sample_second)) =
      [DeployInterrupted ''d2'' ''a2'' ''app'' ''c2'' ''process_interrupted'' '''']" "\<not> IsZero 30"
    by code_simp+
  then show ?thesis using interruptRunning_recovers [OF sample_reachable(3), of 30 "\<lambda>_. ''x''"] by auto
qed

section \<open>Starting a deployment\<close>

lemma latest_only_running:
  assumes "dep_inv db" "latest_row stack db = Some r" "q \<in> set (db_deployments db)" "dr_stack q = stack" "dr_status q = Running"
  shows "dr_status r = Running"
  using row_inv_of [OF assms(1,3)] assms(2,4,5) by (simp add: row_inv_def)

lemma startAttempt_total:
  assumes "dep_inv db" "latest_row stack db = Some r" "dr_status r = Failed \<or> dr_status r = Interrupted"
    and "aid \<notin> ar_id ` set (db_attempts db)" "\<not> IsZero now"
    and "a = newAttempt aid (dr_id r) (Suc (length (attempts_of (dr_id r) db))) now"
  shows "startAttempt (deployment_of r db) a db = (None, restarted_db a r db)"
proof -
  have r: "r \<in> set (db_deployments db)" "dr_stack r = stack" using assms(2) by (auto simp: latest_row_find dest: find_in)
  let ?as = "attempts_of (dr_id r) db"
  have old: "attempts_ok ?as" "projects r (last ?as)" "?as \<noteq> []" using row_inv_of [OF assms(1) r(1)]
    by (auto simp: row_inv_def attempts_ok_def)
  then have idle: "\<forall>x \<in> set ?as. ar_status x \<noteq> Running"
    using assms(3) by (auto simp: set_butlast_last [OF old(3)] attempts_ok_def projects_def)
  have "ar_number ` set ?as = {1 ..< Suc (length ?as)}"
    using old(1) by (metis attempts_ok_def list.set_map set_upt)
  then have "Suc (length ?as) \<notin> ar_number ` set ?as" by simp
  then have "\<not> (\<exists>x \<in> set ?as. ar_number x = Suc (length ?as))" by (metis image_eqI)
  then have free: "\<not> (\<exists>x \<in> set (db_attempts db). ar_deployment_id x = dr_id r \<and>
      (ar_number x = Suc (length ?as) \<or> ar_status x = Running))"
    using idle by (auto simp: attempts_of_def)
  then have ins: "insertAttemptRow a db = (None, db\<lparr>db_attempts := db_attempts db @ [row_of_attempt a]\<rparr>)"
    using assms(4-6) r(1) by (simp add: insertAttemptRow_def)
  have one: "\<not> (\<exists>q \<in> set (db_deployments db). dr_stack q = dr_stack r \<and> dr_status q = Running)"
  proof (intro notI, elim bexE conjE)
    fix q assume "q \<in> set (db_deployments db)" "dr_stack q = dr_stack r" "dr_status q = Running"
    then have "dr_status r = Running" using latest_only_running [OF assms(1,2)] r(2) by simp
    then show False using assms(3) by auto
  qed
  obtain e db' where run: "startAttempt (deployment_of r db) a db = (e, db')" by fastforce
  let ?P = "\<lambda>x. dr_id x = dr_id r \<and> (dr_status x = Failed \<or> dr_status x = Interrupted)"
  have "length (filter ?P (db_deployments db)) = 1"
    using assms(1) by (intro count_one [where f = dr_id, OF _ r(1)]) (use assms(3) in \<open>auto simp: dep_inv_def\<close>)
  moreover have "dr_stack x = dr_stack r" if "x \<in> set (db_deployments db)" "?P x" for x
    using dep_row_unique [OF assms(1) that(1) r(1)] that(2) by simp
  ultimately have "e = None"
    using run one by (auto simp: startAttempt_def ins update_deployments_def requireOneRunning_def split: if_splits)
  then show ?thesis using run startAttempt_effect(1) [OF assms(1-3), of a db'] assms(6) by simp
qed

lemma createDeployment_total:
  assumes "dep_inv db" "did \<notin> dr_id ` set (db_deployments db)" "aid \<notin> ar_id ` set (db_attempts db)" "\<not> IsZero now"
    and "\<not> (\<exists>r \<in> set (db_deployments db). dr_stack r = stack \<and> dr_status r = Running)"
  shows "\<exists>res db'. createDeployment (did, aid) now stack commit desired inherited db = (Inr res, db')"
proof -
  have "\<exists>b. comparisonBasis stack db = Inr b"
    unfolding comparisonBasis_def baseline_def baselineDeploymentID_def
    by (cases "fmlookup (db_snapshots db) stack") (auto split: option.split)
  then obtain b where "comparisonBasis stack db = Inr b" by blast
  moreover have "a \<in> set (db_attempts db) \<Longrightarrow> ar_deployment_id a \<noteq> did" for a
    using attempt_fk [OF assms(1)] assms(2) by (metis image_eqI)
  ultimately show ?thesis
    using assms(2-5)
    by (cases b, cases inherited) (auto simp: createDeployment_def Let_def store_createDeployment_def insertAttemptRow_def newDeployment_def
        row_of_deployment_def newAttempt_def split: prod.splits option.splits)
qed

definition superseded_db :: "gotime \<Rightarrow> deployment_row \<Rightarrow> deployment_db \<Rightarrow> deployment_db" where
  "superseded_db now r db =
     (if dr_status r = Running then completed_db interrupted_state now r (last (attempts_of (dr_id r) db)) db else db)"

definition superseded_row :: "gotime \<Rightarrow> deployment_row \<Rightarrow> deployment_db \<Rightarrow> deployment_row" where
  "superseded_row now r db =
     (if dr_status r = Running
      then outcome_row (completed_deployment interrupted_state r db)
             (finished_attempt interrupted_state now (attempt_of (last (attempts_of (dr_id r) db)))) now r
      else r)"

lemma superseded_row_simps [simp]:
  "dr_id (superseded_row now r db) = dr_id r" "dr_stack (superseded_row now r db) = dr_stack r"
  "dr_status (superseded_row now r db) = (if dr_status r = Running then Interrupted else dr_status r)"
  by (simp_all add: superseded_row_def outcome_row_def finished_attempt_def status_interrupted)

lemma superseded:
  assumes "dep_inv db" "latest_row stack db = Some r" "\<not> IsZero now"
  shows "supersedePrevious legacyID now (deployment_of r db) db = (None, superseded_db now r db)"
    and "dep_inv (superseded_db now r db)"
    and "latest_row stack (superseded_db now r db) = Some (superseded_row now r db)"
    and "map dr_id (db_deployments (superseded_db now r db)) = map dr_id (db_deployments db)"
    and "map ar_id (db_attempts (superseded_db now r db)) = map ar_id (db_attempts db)"
    and "db_published (superseded_db now r db) =
      db_published db @ (if dr_status r = Running then [interrupted_event db (last (attempts_of (dr_id r) db))] else [])"
proof -
  let ?a = "last (attempts_of (dr_id r) db)" and ?db1 = "superseded_db now r db"
  have r: "r \<in> set (db_deployments db)" "dr_stack r = stack" using assms(2) by (auto simp: latest_row_find dest: find_in)
  have cur: "current db (ar_id ?a) r ?a" if "dr_status r = Running" using that r by (simp add: current_def)
  show sup: "supersedePrevious legacyID now (deployment_of r db) db = (None, ?db1)"
  proof (cases "dr_status r = Running")
    case True
    then show ?thesis
      using complete_current [OF assms(1) cur [OF True] terminal_interrupted assms(3)]
      by (simp add: supersedePrevious_def running_projection runningAttempt_newest [OF assms(1) r(1)]
          completion_state_interrupted superseded_db_def)
  qed (simp add: supersedePrevious_def running_projection superseded_db_def)
  show "dep_inv ?db1" using supersedePrevious_inv [OF assms(1,2) sup] .
  have deps: "db_deployments ?db1 = map (\<lambda>x. if dr_id x = dr_id r then superseded_row now r db else x) (db_deployments db)"
  proof (cases "dr_status r = Running")
    case False
    have "(if dr_id x = dr_id r then r else x) = x" if "x \<in> set (db_deployments db)" for x
      using dep_row_unique [OF assms(1) that r(1)] by auto
    then have "map (\<lambda>x. if dr_id x = dr_id r then r else x) (db_deployments db) = db_deployments db" by (rule map_idI)
    moreover have same: "superseded_row now r db = r" "superseded_db now r db = db"
      using False by (simp_all add: superseded_db_def superseded_row_def)
    ultimately show ?thesis unfolding same by simp
  qed (simp add: superseded_db_def superseded_row_def completed_db_def Let_def)
  show "map dr_id (db_deployments ?db1) = map dr_id (db_deployments db)" unfolding deps by simp
  have "find (\<lambda>x. dr_stack (if dr_id x = dr_id r then superseded_row now r db else x) = stack) (rev (db_deployments db)) =
      find (\<lambda>x. dr_stack x = stack) (rev (db_deployments db))"
    using dep_row_unique [OF assms(1) _ r(1)] by (intro find_cong_set) auto
  then show "latest_row stack ?db1 = Some (superseded_row now r db)"
    using assms(2) by (simp add: latest_row_find deps rev_map find_map)
  show "map ar_id (db_attempts ?db1) = map ar_id (db_attempts db)"
    by (simp add: superseded_db_def completed_db_def Let_def finish_row_def)
  show "db_published ?db1 = db_published db @ (if dr_status r = Running then [interrupted_event db ?a] else [])"
    using completed_published [OF assms(1) cur] by (simp add: superseded_db_def)
qed

text \<open>The start of a changed desired state, with everything it writes.\<close>

lemma startPrepared_changed:
  assumes inv: "dep_inv db" and new: "latest_row stack db = Some r"
    and digest: "prep_Digest (dr_desired r) \<noteq> prep_Digest desired"
    and time: "\<not> IsZero now1" "\<not> IsZero now2"
    and fresh: "did \<notin> dr_id ` set (db_deployments db)" "aid \<notin> ar_id ` set (db_attempts db)"
    and prev: "prev = deployment_of (superseded_row now1 r db) (superseded_db now1 r db)"
    and names: "names = unresolvedServices prev (prep_Definition desired)"
  obtains d a where "a = newAttempt aid did 1 now2" "d_ID d = did" "d_Stack d = stack" "d_Commit d = commit" "d_Status d = Running"
    "d_Verification d = \<lparr>ver_Known = True, ver_UnresolvedServices = names,
       ver_Generations = unresolvedGenerations (d_Verification prev) names\<rparr>"
    "startPrepared (legacyID, did, aid) now1 now2 stack commit desired changed manual db =
       (Inr (Some a), publish_removals stack commit
          (desiredServiceRemovals (prep_Definition (dr_desired r)) (prep_Definition desired))
          (created_db d desired a (superseded_db now1 r db)))"
proof -
  note sup = superseded [OF inv new time(1)]
  let ?db1 = "superseded_db now1 r db" and ?r1 = "superseded_row now1 r db"
  let ?v = "\<lparr>ver_Known = True, ver_UnresolvedServices = names, ver_Generations = unresolvedGenerations (d_Verification prev) names\<rparr>"
  have ids: "did \<notin> dr_id ` set (db_deployments ?db1)" "aid \<notin> ar_id ` set (db_attempts ?db1)"
    using fresh sup(4,5) by (metis list.set_map)+
  have idle: "\<not> (\<exists>q \<in> set (db_deployments ?db1). dr_stack q = stack \<and> dr_status q = Running)"
  proof (intro notI, elim bexE conjE)
    fix q assume "q \<in> set (db_deployments ?db1)" "dr_stack q = stack" "dr_status q = Running"
    then have "dr_status ?r1 = Running" using latest_only_running [OF sup(2,3)] by simp
    then show False by (simp split: if_splits)
  qed
  obtain res db' where mk: "createDeployment (did, aid) now2 stack commit desired (Some ?v) ?db1 = (Inr res, db')"
    using createDeployment_total [OF sup(2) ids time(2) idle] by blast
  have r1: "?r1 \<in> set (db_deployments ?db1)" using sup(3) by (auto simp: latest_row_find dest: find_in)
  have again: "get_deployment (dr_id r) ?db1 = Inr prev"
    using find_deployment_Some [OF sup(2), of "dr_id r" ?r1] r1 prev by (simp add: get_deployment_def)
  have prev': "(if dr_status r = Running then get_deployment (dr_id r) ?db1 else Inr (deployment_of r db)) = Inr prev"
    using again prev by (cases "dr_status r = Running") (simp_all add: superseded_row_def superseded_db_def)
  have run: "startPrepared (legacyID, did, aid) now1 now2 stack commit desired changed manual db =
      (Inr res, publish_removals stack commit
         (desiredServiceRemovals (prep_Definition (dr_desired r)) (prep_Definition desired)) db')"
  proof (cases "dr_status r = Running")
    case True
    then show ?thesis
      using digest mk again unfolding startPrepared_def latest_Inr [OF inv] new names
      by (simp add: sup(1) running_projection Let_def)
  next
    case False
    then have "prev = deployment_of r db" using prev' by simp
    then show ?thesis
      using digest mk False unfolding startPrepared_def latest_Inr [OF inv] new names
      by (simp add: sup(1) running_projection Let_def)
  qed
  show ?thesis
    using mk
  proof (rule createDeployment_Inr)
    fix d a assume "res = Some a" "a = newAttempt aid did 1 now2" "db' = created_db d desired a ?db1"
      "d_ID d = did" "d_Stack d = stack" "d_Commit d = commit" "d_Status d = Running"
      "d_Verification d = (case Some ?v of None \<Rightarrow> unknown_verification | Some v \<Rightarrow> v)"
    then show ?thesis using that [of a d] run by simp
  qed
qed

text \<open>
  While the desired state of a stack is the one of its newest deployment, a start creates nothing
  new: a running or succeeded deployment is left alone, and a failed or interrupted one gets its next
  attempt exactly when the retry is manual or the automatic retry is due.
\<close>

lemma start_same_desired:
  assumes "deployments_reachable db" and "latest_row stack db = Some r"
    and "prep_Digest (dr_desired r) = prep_Digest desired"
    and "\<not> IsZero now2" and "aid \<notin> ar_id ` set (db_attempts db)"
  shows "startIfChanged None (legacyID, did, aid) now1 now2 stack commit desired changed manual db =
    (let a = newAttempt aid (dr_id r) (length (attempts_of (dr_id r) db) + 1) now2
     in if (dr_status r = Failed \<or> dr_status r = Interrupted) \<and>
          (manual \<or> automaticRetryAllowed now1 (deployment_of r db))
        then (Inr (Some a), restarted_db a r db) else (Inr None, db))"
proof -
  have inv: "dep_inv db" using deps.inv_reachable [OF assms(1)] .
  have r: "r \<in> set (db_deployments db)" using assms(2) by (auto simp: latest_row_find dest: find_in)
  let ?d = "deployment_of r db" and ?a = "newAttempt aid (dr_id r) (Suc (length (attempts_of (dr_id r) db))) now2"
  have st: "d_Status ?d = dr_status r" "d_AttemptCount ?d = length (attempts_of (dr_id r) db)"
    using latest_not_superseded [OF inv assms(2)] deployment_of_attempts(2) [OF row_inv_of [OF inv r]] by simp_all
  have notsup: "dr_status r \<noteq> Superseded"
    using newest_attempt(1,2,3) [OF inv r refl] row_inv_of [OF inv r]
    by (auto simp: row_inv_def attempts_ok_def projects_def finished_ok_def attempts_of_def)
  have "startPrepared (legacyID, did, aid) now1 now2 stack commit desired changed manual db = startExisting aid now1 now2 ?d manual db"
    by (simp add: startPrepared_def latest_Inr [OF inv] assms(2,3))
  moreover have "startAttempt ?d ?a db = (None, restarted_db ?a r db)" if "dr_status r = Failed \<or> dr_status r = Interrupted"
    by (rule startAttempt_total [OF inv assms(2) that assms(5,4) refl])
  ultimately show ?thesis
    using notsup by (cases "dr_status r") (simp_all add: startIfChanged_def startExisting_def st Let_def)
qed

lemma start_same_desired_witness:
  "fst (startIfChanged None (''l2'', ''d2'', ''a2'') 9 9 ''app'' ''c1'' (sample_desired ''x'' [''db'', ''web'']) False False sample_failed) = Inr None \<and>
   fst (startIfChanged None (''l2'', ''d2'', ''a2'') 9 9 ''app'' ''c1'' (sample_desired ''x'' [''db'', ''web'']) False True sample_failed) =
     Inr (Some (newAttempt ''a2'' ''d1'' 2 9))"
proof -
  let ?r = "hd (db_deployments sample_failed)"
  have facts: "latest_row ''app'' sample_failed = Some ?r" "dr_id ?r = ''d1''" "dr_status ?r = Failed"
    "prep_Digest (dr_desired ?r) = prep_Digest (sample_desired ''x'' [''db'', ''web''])" "\<not> IsZero 9"
    "''a2'' \<notin> ar_id ` set (db_attempts sample_failed)" "\<not> automaticRetryAllowed 9 (deployment_of ?r sample_failed)"
    "length (attempts_of ''d1'' sample_failed) = 1"
    by code_simp+
  note start = start_same_desired [OF sample_reachable(2) facts(1,4,5,6), of "''l2''" "''d2''" 9 "''c1''" False]
  show ?thesis using start [of False] start [of True] facts(2,3,7,8) by (simp add: Let_def numeral_2_eq_2)
qed

text \<open>
  A changed desired state always gets a deployment of its own: the newest deployment of the stack
  is then a running one with the new state and one attempt, the previous one is no longer running (an
  interruption is recorded and reported if it was), and the removal of every service that is no longer
  desired is reported once, in the order of the names.
\<close>

lemma start_new_desired:
  assumes "deployments_reachable db" and "latest_row stack db = Some r"
    and "prep_Digest (dr_desired r) \<noteq> prep_Digest desired"
    and "\<not> IsZero now1" and "\<not> IsZero now2"
    and "did \<notin> dr_id ` set (db_deployments db)" and "aid \<notin> ar_id ` set (db_attempts db)"
  shows "\<exists>db' row a. startIfChanged None (legacyID, did, aid) now1 now2 stack commit desired changed manual db = (Inr (Some a), db') \<and>
    latest_row stack db' = Some row \<and> dr_id row = did \<and> dr_status row = Running \<and> dr_desired row = desired \<and> dr_commit row = commit \<and>
    attempts_of did db' = [row_of_attempt a] \<and> a_ID a = aid \<and> a_Status a = Running \<and>
    map_option dr_status (find_deployment (dr_id r) db') =
      Some (if dr_status r = Running then Interrupted else dr_status r) \<and>
    db_published db' = db_published db @
      (if dr_status r = Running then [interrupted_event db (last (attempts_of (dr_id r) db))] else []) @
      map (\<lambda>n. ServiceRemovedFromDesired stack n commit)
        (sort (filter (\<lambda>n. n \<notin> set (file_ServiceNames (prep_Definition desired)))
           (file_ServiceNames (prep_Definition (dr_desired r)))))"
proof -
  have inv: "dep_inv db" using deps.inv_reachable [OF assms(1)] .
  note sup = superseded [OF inv assms(2,4)]
  let ?db1 = "superseded_db now1 r db" and ?r1 = "superseded_row now1 r db"
  obtain d a where c: "a = newAttempt aid did 1 now2" "d_ID d = did" "d_Stack d = stack" "d_Commit d = commit" "d_Status d = Running"
    and run: "startPrepared (legacyID, did, aid) now1 now2 stack commit desired changed manual db =
      (Inr (Some a), publish_removals stack commit
         (desiredServiceRemovals (prep_Definition (dr_desired r)) (prep_Definition desired)) (created_db d desired a ?db1))"
    using startPrepared_changed [OF inv assms(2-7) refl refl] by metis
  have "did \<notin> dr_id ` set (db_deployments ?db1)" using assms(6) sup(4) by (metis list.set_map)
  then have "ar_deployment_id x \<noteq> did" if "x \<in> set (db_attempts ?db1)" for x
    using attempt_fk [OF sup(2) that] by (metis image_eqI)
  then have none: "attempts_of did ?db1 = []" by (simp add: attempts_of_def filter_empty_conv)
  have r1: "?r1 \<in> set (db_deployments ?db1)" using sup(3) by (auto simp: latest_row_find dest: find_in)
  then have "find (\<lambda>x. dr_id x = dr_id r) (db_deployments ?db1) = Some ?r1"
    using find_deployment_Some [OF sup(2), of "dr_id r" ?r1] by (simp add: find_deployment_def)
  moreover define db' where "db' = publish_removals stack commit
      (desiredServiceRemovals (prep_Definition (dr_desired r)) (prep_Definition desired)) (created_db d desired a ?db1)"
  ultimately have "map_option dr_status (find_deployment (dr_id r) db') = Some (if dr_status r = Running then Interrupted else dr_status r)"
    by (simp add: publish_removals_def created_db_def find_deployment_def find_append)
  moreover have "latest_row stack db' = Some (row_of_deployment d desired)"
    using c(3) by (simp add: db'_def publish_removals_def created_db_def latest_row_find row_of_deployment_def)
  moreover have "attempts_of did db' = [row_of_attempt a]"
    using none c(1) by (simp add: db'_def publish_removals_def created_db_def attempts_of_def row_of_attempt_def)
  moreover have "db_published db' = db_published db @
      (if dr_status r = Running then [interrupted_event db (last (attempts_of (dr_id r) db))] else []) @
      map (\<lambda>n. ServiceRemovedFromDesired stack n commit)
        (sort (filter (\<lambda>n. n \<notin> set (file_ServiceNames (prep_Definition desired)))
           (file_ServiceNames (prep_Definition (dr_desired r)))))"
    using sup(6) by (simp add: db'_def publish_removals_def created_db_def desiredServiceRemovals_def)
  moreover have "startIfChanged None (legacyID, did, aid) now1 now2 stack commit desired changed manual db = (Inr (Some a), db')"
    by (simp add: startIfChanged_def run db'_def)
  moreover have "dr_id (row_of_deployment d desired) = did" "dr_status (row_of_deployment d desired) = Running"
    "dr_desired (row_of_deployment d desired) = desired" "dr_commit (row_of_deployment d desired) = commit"
    "a_ID a = aid" "a_Status a = Running"
    using c by (simp_all add: row_of_deployment_def)
  ultimately show ?thesis by blast
qed

lemma start_new_desired_witness:
  "fst (startIfChanged None (''l2'', ''d2'', ''a2'') 10 11 ''app'' ''c2'' (sample_desired ''y'' [''web'']) True False sample_start) =
     Inr (Some (newAttempt ''a2'' ''d2'' 1 11)) \<and>
   db_published (snd (startIfChanged None (''l2'', ''d2'', ''a2'') 10 11 ''app'' ''c2'' (sample_desired ''y'' [''web'']) True False sample_start)) =
     [DeployInterrupted ''d1'' ''a1'' ''app'' ''c1'' ''process_interrupted'' '''', ServiceRemovedFromDesired ''app'' ''db'' ''c2'']"
proof -
  let ?r = "hd (db_deployments sample_start)"
  have facts: "latest_row ''app'' sample_start = Some ?r" "dr_status ?r = Running" "dr_id ?r = ''d1''"
    "prep_Digest (dr_desired ?r) \<noteq> prep_Digest (sample_desired ''y'' [''web''])" "\<not> IsZero 10" "\<not> IsZero 11"
    "''d2'' \<notin> dr_id ` set (db_deployments sample_start)" "''a2'' \<notin> ar_id ` set (db_attempts sample_start)"
    "db_published sample_start = []"
    "interrupted_event sample_start (last (attempts_of ''d1'' sample_start)) =
       DeployInterrupted ''d1'' ''a1'' ''app'' ''c1'' ''process_interrupted'' ''''"
    "sort (filter (\<lambda>n. n \<notin> set (file_ServiceNames (prep_Definition (sample_desired ''y'' [''web'']))))
      (file_ServiceNames (prep_Definition (dr_desired ?r)))) = [''db'']"
    by code_simp+
  have "fst (startIfChanged None (''l2'', ''d2'', ''a2'') 10 11 ''app'' ''c2'' (sample_desired ''y'' [''web'']) True False sample_start) =
     Inr (Some (newAttempt ''a2'' ''d2'' 1 11))" by code_simp
  then show ?thesis
    using start_new_desired [OF sample_reachable(1) facts(1,4-8), of "''l2''" "''c2''" True False] facts(2,3,9-11) by auto
qed

lemma fmlookup_unresolvedGenerations:
  "n \<in> set names \<Longrightarrow> fmlookup (unresolvedGenerations v names) n = fmlookup (ver_Generations v) n"
  by (simp add: unresolvedGenerations_def)

text \<open>An interruption while applying keeps the obligations of the deployment.\<close>

lemma superseded_obligation:
  assumes "n \<in> set (ver_UnresolvedServices (d_Verification (deployment_of r db)))"
  shows "n \<in> set (ver_UnresolvedServices (d_Verification (deployment_of (superseded_row now r db) db1)))"
    and "fmlookup (ver_Generations (d_Verification (deployment_of (superseded_row now r db) db1))) n =
      fmlookup (ver_Generations (d_Verification (deployment_of r db))) n"
proof -
  let ?v = "d_Verification (deployment_of r db)"
  let ?w = "completed_verification interrupted_state ?v (file_ServiceNames (prep_Definition (dr_desired r)))"
  have indep: "d_Verification (deployment_of q db1) = d_Verification (deployment_of q db2)" for q db2
    by (simp add: deployment_of_def)
  have st: "st_status interrupted_state = Interrupted" "st_phase interrupted_state = PhaseApply"
    by (simp_all add: interrupted_state_def completion_state_def process_interrupted_def)
  have w: "n \<in> set (ver_UnresolvedServices ?w)" "ver_Known ?w"
    "fmlookup (ver_Generations ?w) n = fmlookup (ver_Generations ?v) n"
    using assms by (simp_all add: completed_verification_def st Let_def fmlookup_unresolvedGenerations)
  have row: "d_Verification (deployment_of (superseded_row now r db) db1) = ?w" if "dr_status r = Running"
    using that w(2) by (simp add: superseded_row_def outcome_row_def completed_deployment_def with_outcome_def
        deployment_of_def detailsFromDeployment_def persistedUnresolvedServices_def)
  show "n \<in> set (ver_UnresolvedServices (d_Verification (deployment_of (superseded_row now r db) db1)))"
    "fmlookup (ver_Generations (d_Verification (deployment_of (superseded_row now r db) db1))) n =
      fmlookup (ver_Generations ?v) n"
    using row w(1,3) assms indep [of r db]
    by (cases "dr_status r = Running"; simp add: superseded_row_def)+
qed

text \<open>
  C29. No rollout obligation is lost when a new desired state replaces a deployment, running or not: a
  service that was unresolved there and is still desired is unresolved in the new deployment, with the
  update generation that was recorded for it.
\<close>

theorem obligations_survive:
  assumes "deployments_reachable db" and "latest_row stack db = Some r"
    and "prep_Digest (dr_desired r) \<noteq> prep_Digest desired"
    and "\<not> IsZero now1" and "\<not> IsZero now2"
    and "did \<notin> dr_id ` set (db_deployments db)" and "aid \<notin> ar_id ` set (db_attempts db)"
    and "startIfChanged None (legacyID, did, aid) now1 now2 stack commit desired changed manual db = (res, db')"
    and "n \<in> set (ver_UnresolvedServices (d_Verification (deployment_of r db)))"
    and "n \<in> set (file_ServiceNames (prep_Definition desired))"
  shows "\<exists>row. latest_row stack db' = Some row \<and> dr_id row = did \<and>
    n \<in> set (ver_UnresolvedServices (d_Verification (deployment_of row db'))) \<and>
    fmlookup (ver_Generations (d_Verification (deployment_of row db'))) n =
      fmlookup (ver_Generations (d_Verification (deployment_of r db))) n"
proof -
  let ?prev = "deployment_of (superseded_row now1 r db) (superseded_db now1 r db)"
  let ?names = "unresolvedServices ?prev (prep_Definition desired)"
  obtain d a where c: "d_ID d = did" "d_Stack d = stack"
      "d_Verification d = \<lparr>ver_Known = True, ver_UnresolvedServices = ?names,
         ver_Generations = unresolvedGenerations (d_Verification ?prev) ?names\<rparr>"
    and run: "startPrepared (legacyID, did, aid) now1 now2 stack commit desired changed manual db =
      (Inr (Some a), publish_removals stack commit
         (desiredServiceRemovals (prep_Definition (dr_desired r)) (prep_Definition desired))
         (created_db d desired a (superseded_db now1 r db)))"
    using startPrepared_changed [OF deps.inv_reachable [OF assms(1)] assms(2-7) refl refl] by metis
  let ?row = "row_of_deployment d desired"
  have "latest_row stack db' = Some ?row"
    using assms(8) run c(2)
    by (auto simp: startIfChanged_def publish_removals_def created_db_def latest_row_find row_of_deployment_def)
  moreover have "n \<in> set ?names"
    using superseded_obligation(1) [OF assms(9)] assms(10) by (simp add: unresolvedServices_def Let_def)
  moreover have "d_Verification (deployment_of ?row db') = d_Verification d"
    using c(3) by (simp add: deployment_of_def row_of_deployment_def detailsFromDeployment_def persistedUnresolvedServices_def)
  ultimately show ?thesis
    using c(1,3) superseded_obligation(2) [OF assms(9)]
    by (intro exI [of _ ?row]) (simp add: row_of_deployment_def fmlookup_unresolvedGenerations)
qed

theorem obligations_survive_witness:
  "''web'' \<in> set (ver_UnresolvedServices (d_Verification (deployment_of (last (db_deployments sample_second)) sample_second)))"
proof -
  let ?r = "hd (db_deployments sample_failed)"
  have facts: "latest_row ''app'' sample_failed = Some ?r"
    "prep_Digest (dr_desired ?r) \<noteq> prep_Digest (sample_desired ''y'' [''web''])" "\<not> IsZero 10" "\<not> IsZero 11"
    "''d2'' \<notin> dr_id ` set (db_deployments sample_failed)" "''a2'' \<notin> ar_id ` set (db_attempts sample_failed)"
    "''web'' \<in> set (ver_UnresolvedServices (d_Verification (deployment_of ?r sample_failed)))"
    "''web'' \<in> set (file_ServiceNames (prep_Definition (sample_desired ''y'' [''web''])))"
    "latest_row ''app'' sample_second = Some (last (db_deployments sample_second))"
    by code_simp+
  have "startIfChanged None (''l2'', ''d2'', ''a2'') 10 11 ''app'' ''c2'' (sample_desired ''y'' [''web'']) True False sample_failed =
      (fst (startIfChanged None (''l2'', ''d2'', ''a2'') 10 11 ''app'' ''c2'' (sample_desired ''y'' [''web'']) True False sample_failed),
       sample_second)"
    by (simp add: sample_second_def)
  from obligations_survive [OF sample_reachable(2) facts(1-6) this facts(7,8)] facts(9) show ?thesis by auto
qed

text \<open>The doubling of the delay is capped, so the loop reaches its closed form.\<close>

lemma min_scale:
  fixes x m p :: int
  assumes "0 < x" "0 < m" "1 \<le> p"
  shows "min (min x m * p) m = min (x * p) m"
proof (cases "x \<le> m")
  case False
  then have "m \<le> m * p" "m \<le> x * p" using assms mult_mono [of m x 1 p] by simp_all
  then show ?thesis using False by simp
qed simp

lemma retry_delay_closed:
  assumes "0 < d" "d \<le> maximumRetryDelay"
  shows "retry_delay n d = min (d * 2 ^ n) maximumRetryDelay"
  using assms
proof (induction n arbitrary: d)
  case (Suc n)
  show ?case
  proof (cases "d < maximumRetryDelay")
    case True
    then have "retry_delay (Suc n) d = min (min (d * 2) maximumRetryDelay * 2 ^ n) maximumRetryDelay"
      using Suc.IH [of "min (d * 2) maximumRetryDelay"] Suc.prems by simp
    also have "\<dots> = min (d * 2 * 2 ^ n) maximumRetryDelay"
      by (rule min_scale) (use Suc.prems in \<open>simp_all add: maximumRetryDelay_def hour_def minute_def second_def\<close>)
    finally show ?thesis by (simp add: mult.assoc)
  next
    case False
    then have "d = maximumRetryDelay" using Suc.prems by simp
    moreover have "maximumRetryDelay \<le> maximumRetryDelay * 2 ^ Suc n"
      by (simp add: maximumRetryDelay_def hour_def minute_def second_def one_le_power del: power_Suc)
    ultimately show ?thesis by simp
  qed
qed simp

text \<open>
  The schedule of automatic retries: after its n-th attempt a retryable deployment is retried once
  one minute doubled n - 1 times, but never more than one hour, has passed since it finished; a
  deployment that is not retryable or has not finished is never retried automatically.
\<close>

lemma automatic_retry_schedule:
  "automaticRetryAllowed now d =
     (case d_FinishedAt d of
        None \<Rightarrow> False
      | Some finished \<Rightarrow> d_Retryable d \<and> finished + min (minute * 2 ^ (d_AttemptCount d - 1)) hour \<le> now)"
proof -
  have "retry_delay n minute = min (minute * 2 ^ n) hour" for n
    using retry_delay_closed [of minute n] by (simp add: maximumRetryDelay_def hour_def minute_def second_def)
  then show ?thesis
    by (auto simp: automaticRetryAllowed_def automaticRetryDelay_def not_less split: option.splits)
qed

lemma detailsFromDeployment_of: "detailsFromDeployment (deployment_of r db) = dr_details r"
  by (auto simp: detailsFromDeployment_def deployment_of_def persistedUnresolvedServices_def split: option.splits)

lemma with_details_again:
  assumes "dep_inv db" "r \<in> set (db_deployments db)"
  shows "with_details (dr_details r) (r\<lparr>dr_details := ds\<rparr>) (with_details ds r db) = db"
proof -
  have "(if dr_id x = dr_id r then r else x) = x" if "x \<in> set (db_deployments db)" for x
    using dep_row_unique [OF assms(1) that assms(2)] by auto
  then have "map (\<lambda>x. if dr_id x = dr_id r then r else x) (db_deployments db) = db_deployments db" by (rule map_idI)
  moreover have "map (\<lambda>x. if dr_id x = dr_id r then r\<lparr>dr_details := ds, dr_details := dr_details r\<rparr> else x)
      (map (\<lambda>x. if dr_id x = dr_id r then r\<lparr>dr_details := ds\<rparr> else x) xs) = map (\<lambda>x. if dr_id x = dr_id r then r else x) xs" for xs
    by auto
  ultimately show ?thesis by (simp add: with_details_def del: map_map)
qed

lemma current_with_details:
  assumes "dep_inv db" "current db aid r a"
  shows "current (with_details ds r db) aid (r\<lparr>dr_details := ds\<rparr>) a"
  using assms by (auto simp: current_def with_details_def attempts_of_def image_iff intro!: bexI [of _ r])

lemma recorded_rejected:
  assumes "\<And>g. fmlookup (ver_Generations v) name = Some g \<Longrightarrow> gen_ServiceID g \<noteq> ''''"
  shows "rejected_verification name (fmlookup (ver_Generations v) name, name \<in> set (ver_UnresolvedServices v))
    (recorded_verification name g v) = v"
proof -
  have "fmdrop name (fmupd name g (ver_Generations v)) = fmdrop name (ver_Generations v)" by (rule fmap_ext) simp
  moreover have "fmupd name p (fmdrop name (ver_Generations v)) = ver_Generations v" if "fmlookup (ver_Generations v) name = Some p" for p
    using that by (intro fmap_ext) auto
  moreover have "fmdrop name (ver_Generations v) = ver_Generations v" if "fmlookup (ver_Generations v) name = None"
    using that by (intro fmap_ext) simp
  moreover have "filter (\<lambda>n. n \<noteq> name) (ver_UnresolvedServices v) = ver_UnresolvedServices v" if "name \<notin> set (ver_UnresolvedServices v)"
    using that by (auto intro: filter_True)
  ultimately show ?thesis
    using assms by (auto simp: rejected_verification_def recorded_verification_def Let_def split: option.splits)
qed

text \<open>
  What is stored of obligations that are not known is nothing, so recording a service then keeps the
  generation only.
\<close>

lemma deployment_of_details:
  "d_Verification (deployment_of (r\<lparr>dr_details := detailsFromDeployment ((deployment_of r db)\<lparr>d_Verification := v\<rparr>)\<rparr>) db') =
     (if ver_Known v then v else v\<lparr>ver_UnresolvedServices := []\<rparr>)"
  by (simp add: deployment_of_def detailsFromDeployment_def persistedUnresolvedServices_def)

lemma unknown_unresolved:
  "\<not> ver_Known (d_Verification (deployment_of r db)) \<Longrightarrow> ver_UnresolvedServices (d_Verification (deployment_of r db)) = []"
  by (simp add: deployment_of_def)

lemma detailsFromDeployment_verification:
  "detailsFromDeployment ((deployment_of (r\<lparr>dr_details := detailsFromDeployment ((deployment_of r db)\<lparr>d_Verification := v\<rparr>)\<rparr>) db')\<lparr>d_Verification := w\<rparr>) =
     detailsFromDeployment ((deployment_of r db)\<lparr>d_Verification := w\<rparr>)"
  by (simp add: detailsFromDeployment_def deployment_of_def)

text \<open>
  C31. The callback of a recorded update generation undoes it exactly: when Swarm definitely rejected
  the update, recording the generation and then running the callback leaves the database as it was.
\<close>

theorem record_reject_roundtrip:
  assumes "deployments_reachable db" and "r \<in> set (db_deployments db)" and "dr_status r = Running"
    and "a = last (attempts_of (dr_id r) db)"
    and "fmlookup (det_UpdateGenerations (dr_details r)) name = previous"
    and "case previous of None \<Rightarrow> True | Some p \<Rightarrow> gen_ServiceID p \<noteq> ''''"
  shows "\<exists>captured db'. recordUpdateGeneration None (ar_id a) name g db = (Inr captured, db') \<and>
    fmlookup (ver_Generations (d_Verification (deployment_of (the (find_deployment (dr_id r) db')) db'))) name = Some g \<and>
    rejectUpdateGeneration None (ar_id a) name g captured db' = (None, db)"
proof -
  have inv: "dep_inv db" using deps.inv_reachable [OF assms(1)] .
  have cur: "current db (ar_id a) r a" using assms(2-4) by (simp add: current_def)
  let ?d = "deployment_of r db"
  let ?v = "d_Verification ?d"
  let ?captured = "(fmlookup (ver_Generations ?v) name, name \<in> set (ver_UnresolvedServices ?v))"
  let ?d1 = "?d\<lparr>d_Verification := recorded_verification name g ?v\<rparr>"
  let ?r1 = "r\<lparr>dr_details := detailsFromDeployment ?d1\<rparr>"
  let ?db1 = "with_details (detailsFromDeployment ?d1) r db"
  have prev: "fmlookup (ver_Generations ?v) name = previous" using assms(5) by (simp add: deployment_of_def)
  have rec: "recordUpdateGeneration None (ar_id a) name g db = (Inr ?captured, ?db1)"
    using saveVerification_effect [OF inv cur, of ?d1]
    by (simp add: recordUpdateGeneration_def verificationDeployment_current [OF inv cur] within_tx_def Let_def)
  have inv1: "dep_inv ?db1" using with_details_keeps [OF inv assms(2)] by simp
  have cur1: "current ?db1 (ar_id a) ?r1 a" using current_with_details [OF inv cur] .
  have v1: "d_Verification (deployment_of ?r1 ?db1) =
      (if ver_Known ?v then recorded_verification name g ?v
       else (recorded_verification name g ?v)\<lparr>ver_UnresolvedServices := []\<rparr>)"
    unfolding deployment_of_details by (simp add: recorded_verification_def)
  then have gen: "fmlookup (ver_Generations (d_Verification (deployment_of ?r1 ?db1))) name = Some g"
    by (simp add: recorded_verification_def)
  have undo: "rejected_verification name ?captured (d_Verification (deployment_of ?r1 ?db1)) = ?v"
  proof -
    have "rejected_verification name ?captured (recorded_verification name g ?v) = ?v"
      by (rule recorded_rejected) (use assms(6) prev in auto)
    then show ?thesis
      using unknown_unresolved [of r db] unfolding v1
      by (cases "ver_Known ?v") (simp_all add: rejected_verification_def recorded_verification_def Let_def)
  qed
  let ?d2 = "(deployment_of ?r1 ?db1)\<lparr>d_Verification := ?v\<rparr>"
  have "detailsFromDeployment ?d2 = detailsFromDeployment (?d\<lparr>d_Verification := ?v\<rparr>)"
    by (rule detailsFromDeployment_verification)
  then have det2: "detailsFromDeployment ?d2 = dr_details r" by (simp add: detailsFromDeployment_of)
  have "saveVerification ?d2 ?db1 = (None, with_details (detailsFromDeployment ?d2) ?r1 ?db1)"
    by (rule saveVerification_effect [OF inv1 cur1]) simp
  then have "saveVerification ?d2 ?db1 = (None, db)"
    unfolding det2 using with_details_again [OF inv assms(2)] by simp
  then have "rejectUpdateGeneration None (ar_id a) name g ?captured ?db1 = (None, db)"
    using gen undo by (simp add: rejectUpdateGeneration_def verificationDeployment_current [OF inv1 cur1] within_tx_def Let_def)
  moreover have "find_deployment (dr_id r) ?db1 = Some ?r1"
    using find_deployment_Some [OF inv1, of "dr_id r" ?r1] cur1 by (simp add: current_def)
  ultimately show ?thesis using rec gen by auto
qed

theorem record_reject_roundtrip_witness:
  "\<exists>captured db'. recordUpdateGeneration None ''a2'' ''web'' zero_generation sample_second = (Inr captured, db') \<and>
     rejectUpdateGeneration None ''a2'' ''web'' zero_generation captured db' = (None, sample_second)"
proof -
  let ?r = "last (db_deployments sample_second)" and ?a = "last (attempts_of ''d2'' sample_second)"
  have r: "?r \<in> set (db_deployments sample_second)" "dr_status ?r = Running" "dr_id ?r = ''d2''" "ar_id ?a = ''a2''"
    "fmlookup (det_UpdateGenerations (dr_details ?r)) ''web'' = None"
    by code_simp+
  show ?thesis
    using record_reject_roundtrip [OF sample_reachable(3) r(1,2), of ?a "''web''" None zero_generation] r(3-5) by auto
qed

end
