(* ===== verification/DeploymentController.thy ===== *)
theory DeploymentController
  imports DeploymentSafety
begin

text \<open>
  The synchronous execution of one stack deployment (\<open>internal/modules/deployments/controller.go\<close>):
  starting an attempt, running the deployer, observing and pruning, and recording the outcome. An
  outcome that the store refused is kept in the controller and recorded before the next execution.

  What an execution gets from outside is the record \<open>exec_env\<close>: the failures of the database, the
  clock readings, the expiry of the execution context, and the results of the deployer, of the service
  list and of the pruner. While the deployer runs, it and the executions of other stacks change the
  tables, so the deployer is a function on them. Errors carry the classifications the controller
  reads from them; metrics, log lines and the Init Job log table are left out.
\<close>

section \<open>State and inputs\<close>

record exec_error =
  ee_Diagnostic :: diagnostic
  ee_ConvergenceStage :: bool
  ee_ErrConvergenceFailed :: bool
  ee_InitJobsFailed :: bool
  ee_WithInitJobLogs :: diagnostic

record stack_options =
  opt_RetryFailedUpdates :: bool
  opt_UnresolvedServices :: "string list"
  opt_UpdateGenerations :: "(string, update_generation) gomap"

record execute_request =
  req_StackName :: string
  req_Commit :: string
  req_Desired :: prepared
  req_ManualRetry :: bool
  req_SourceChanged :: bool

record 'live execute_result =
  er_Attempt :: "attempt option"
  er_RetryDeferred :: bool
  er_UnresolvedServices :: "string list"
  er_LiveServices :: "'live option"
  er_ObservedAt :: "gotime option"
  er_PrunedServices :: "string list"
  er_Status :: "status option"
  er_ErrorCode :: string

datatype exec_failure =
    FromStore store_error | FromStage exec_error | RegistryAuthRefresh exec_error
  | ConflictInspect store_error | ConflictStack | ConflictRunning store_error

record pending_completion =
  pc_attemptID :: string
  pc_completion :: completion

record controller =
  ct_db :: deployment_db
  ct_pending :: "(string, pending_completion) gomap"

record 'live exec_env =
  env_RecoverFault :: "store_error option"
  env_RecoverNow :: gotime
  env_StartFault :: "store_error option"
  env_IDs :: "string \<times> string \<times> string"
  env_StartNow1 :: gotime
  env_StartNow2 :: gotime
  env_OptionsFault :: "exec_error option"
  env_Deploy :: "stack_options \<Rightarrow> deployment_db \<Rightarrow> (verification \<times> exec_error option) \<times> deployment_db"
  env_DeployDeadline :: "exec_error option"
  env_List :: "exec_error + 'live"
  env_ListDeadline :: "exec_error option"
  env_ObservedAt :: gotime
  env_Prune :: "'live \<Rightarrow> string list \<times> exec_error option"
  env_PruneDeadline :: "exec_error option"
  env_CompleteFault :: "store_error option"
  env_CompleteNow :: gotime
  env_Refresh :: "exec_error option"

section \<open>Recording an outcome\<close>

text \<open>\<open>Inspect\<close>: the attempt and its stack.\<close>

definition inspect :: "string \<Rightarrow> deployment_db \<Rightarrow> store_error + attempt \<times> string" where
  "inspect aid db =
     (case getAttempt aid db of
        Inl e \<Rightarrow> Inl e
      | Inr a \<Rightarrow>
          (case get_deployment (a_DeploymentID a) db of Inl e \<Rightarrow> Inl e | Inr d \<Rightarrow> Inr (a, d_Stack d)))"

definition controller_complete ::
    "store_error option \<Rightarrow> gotime \<Rightarrow> string \<Rightarrow> string \<Rightarrow> completion \<Rightarrow> controller \<Rightarrow> store_error option \<times> controller" where
  "controller_complete fault now stack aid c ct =
     (case complete fault aid c now (ct_db ct) of
        (Some e, db) \<Rightarrow>
          (Some e, ct\<lparr>ct_db := db,
                      ct_pending := fmupd stack \<lparr>pc_attemptID = aid, pc_completion = c\<rparr> (ct_pending ct)\<rparr>)
      | (None, db) \<Rightarrow> (None, ct\<lparr>ct_db := db, ct_pending := fmdrop stack (ct_pending ct)\<rparr>))"

definition recoverPending ::
    "store_error option \<Rightarrow> gotime \<Rightarrow> string \<Rightarrow> controller \<Rightarrow> exec_failure option \<times> controller" where
  "recoverPending fault now stack ct =
     (case fmlookup (ct_pending ct) stack of
        None \<Rightarrow> (None, ct)
      | Some p \<Rightarrow>
          (case complete fault (pc_attemptID p) (pc_completion p) now (ct_db ct) of
             (None, db) \<Rightarrow> (None, ct\<lparr>ct_db := db, ct_pending := fmdrop stack (ct_pending ct)\<rparr>)
           | (Some e, db) \<Rightarrow>
               if e \<noteq> ErrNotRunning then (Some (FromStore e), ct\<lparr>ct_db := db\<rparr>)
               else case inspect (pc_attemptID p) db of
                      Inl e' \<Rightarrow> (Some (ConflictInspect e'), ct\<lparr>ct_db := db\<rparr>)
                    | Inr (a, s) \<Rightarrow>
                        if s \<noteq> stack then (Some ConflictStack, ct\<lparr>ct_db := db\<rparr>)
                        else if a_Status a = Running then (Some (ConflictRunning e), ct\<lparr>ct_db := db\<rparr>)
                        else (None, ct\<lparr>ct_db := db, ct_pending := fmdrop stack (ct_pending ct)\<rparr>)))"

section \<open>Classification\<close>

definition completion_with ::
    "completion_outcome \<Rightarrow> diagnostic option \<Rightarrow> verification \<Rightarrow> bool \<Rightarrow> gotime option \<Rightarrow> completion" where
  "completion_with outcome diag v retryable observed =
     \<lparr>comp_Verification = v, comp_Outcome = outcome, comp_Diagnostic = diag, comp_Retryable = retryable,
      comp_ObservedAt = observed\<rparr>"

definition classifyExecutionFailure :: "exec_error \<Rightarrow> completion" where
  "classifyExecutionFailure err =
     (if ee_ConvergenceStage err
      then if ee_ErrConvergenceFailed err
           then completion_with CompletionConvergenceFailed (Some (ee_Diagnostic err)) unknown_verification False None
           else completion_with CompletionVerificationInterrupted (Some (ee_Diagnostic err)) unknown_verification False None
      else if ee_InitJobsFailed err
      then completion_with CompletionInitJobFailed (Some (ee_WithInitJobLogs err)) unknown_verification False None
      else completion_with CompletionApplyFailed (Some (ee_Diagnostic err)) unknown_verification False None)"

definition completionStatus :: "completion \<Rightarrow> status" where
  "completionStatus c =
     (if comp_Outcome c = CompletionVerificationInterrupted \<or> comp_Outcome c = CompletionProcessInterrupted
      then Interrupted else Failed)"

definition executionError :: "exec_error option \<Rightarrow> exec_error option \<Rightarrow> exec_error option" where
  "executionError deadline err = (case err of Some e \<Rightarrow> Some e | None \<Rightarrow> deadline)"

text \<open>The lookup of the owning deployment may fail, or not find it.\<close>

definition not_found_error :: exec_error where
  "not_found_error =
     (let diag = \<lparr>diag_Text = ''deployment not found'', diag_DeadlineExceeded = False,
                  diag_UpdateDeferred = False, diag_Temporary = False\<rparr>
      in \<lparr>ee_Diagnostic = diag, ee_ConvergenceStage = False, ee_ErrConvergenceFailed = False,
          ee_InitJobsFailed = False, ee_WithInitJobLogs = diag\<rparr>)"

definition stackOptions :: "exec_error option \<Rightarrow> attempt \<Rightarrow> deployment_db \<Rightarrow> exec_error + stack_options" where
  "stackOptions fault a db =
     (case fault of
        Some err \<Rightarrow> Inl err
      | None \<Rightarrow>
          (case get_deployment (a_DeploymentID a) db of
             Inl _ \<Rightarrow> Inl not_found_error
           | Inr owner \<Rightarrow>
               if a_Number a = 1 \<and> ver_UnresolvedServices (d_Verification owner) = []
               then Inr \<lparr>opt_RetryFailedUpdates = False, opt_UnresolvedServices = [], opt_UpdateGenerations = fmempty\<rparr>
               else Inr \<lparr>opt_RetryFailedUpdates = (1 < a_Number a),
                         opt_UnresolvedServices = ver_UnresolvedServices (d_Verification owner),
                         opt_UpdateGenerations = ver_Generations (d_Verification owner)\<rparr>))"

definition deferredServices :: "deployment \<Rightarrow> compose_file \<Rightarrow> string list" where
  "deferredServices d desired =
     (if d_Phase d = PhaseApply then file_ServiceNames desired else unresolvedServices d desired)"

section \<open>Execution\<close>

definition empty_result :: "'live execute_result" where
  "empty_result =
     \<lparr>er_Attempt = None, er_RetryDeferred = False, er_UnresolvedServices = [], er_LiveServices = None,
      er_ObservedAt = None, er_PrunedServices = [], er_Status = None, er_ErrorCode = ''''\<rparr>"

definition unchangedResult ::
    "'live exec_env \<Rightarrow> execute_request \<Rightarrow> deployment_db \<Rightarrow> 'live execute_result \<times> exec_failure list" where
  "unchangedResult env req db =
     (case latest (req_StackName req) db of
        Inl e \<Rightarrow> if e \<noteq> ErrNotFound then (empty_result, [FromStore e]) else (empty_result, [])
      | Inr (d, _) \<Rightarrow>
          let deferred = (d_Status d = Failed \<or> d_Status d = Interrupted);
              result = empty_result\<lparr>er_Status := Some (d_Status d), er_ErrorCode := d_ErrorCode d,
                         er_RetryDeferred := deferred,
                         er_UnresolvedServices :=
                           (if deferred then deferredServices d (prep_Definition (req_Desired req)) else [])\<rparr>
          in if d_Status d = Succeeded
             then (case env_Refresh env of
                     Some e \<Rightarrow> (result, [RegistryAuthRefresh e]) | None \<Rightarrow> (result, []))
             else (result, []))"

text \<open>An outcome is recorded and reported: \<open>errs\<close> is the failure that ended the execution.\<close>

definition settle ::
    "'live exec_env \<Rightarrow> execute_request \<Rightarrow> attempt \<Rightarrow> completion \<Rightarrow> status \<Rightarrow> 'live execute_result \<Rightarrow>
     exec_failure list \<Rightarrow> controller \<Rightarrow> ('live execute_result \<times> exec_failure list) \<times> controller" where
  "settle env req a c status result errs ct =
     (case controller_complete (env_CompleteFault env) (env_CompleteNow env) (req_StackName req) (a_ID a) c ct of
        (e, ct') \<Rightarrow>
          ((result\<lparr>er_Status := Some status, er_ErrorCode := errorCode (comp_Outcome c)\<rparr>,
            errs @ (case e of None \<Rightarrow> [] | Some e \<Rightarrow> [FromStore e])), ct'))"

text \<open>Observation, cleanup and success, after the deployer reported no failure.\<close>

definition observe :: "'live exec_env \<Rightarrow> exec_error + 'live" where
  "observe env =
     (case env_List env of
        Inl err \<Rightarrow> Inl err
      | Inr live \<Rightarrow> (case executionError (env_ListDeadline env) None of Some err \<Rightarrow> Inl err | None \<Rightarrow> Inr live))"

definition finish_execution ::
    "'live exec_env \<Rightarrow> execute_request \<Rightarrow> attempt \<Rightarrow> verification \<Rightarrow> 'live execute_result \<Rightarrow> controller \<Rightarrow>
     ('live execute_result \<times> exec_failure list) \<times> controller" where
  "finish_execution env req a v result ct =
     (case observe env of
        Inl err \<Rightarrow>
          settle env req a (completion_with CompletionVerificationInterrupted (Some (ee_Diagnostic err)) v False None)
            Interrupted result [FromStage err] ct
      | Inr live \<Rightarrow>
          let result1 = result\<lparr>er_LiveServices := Some live, er_ObservedAt := Some (env_ObservedAt env),
                er_PrunedServices := fst (env_Prune env live)\<rparr>
          in case executionError (env_PruneDeadline env) (snd (env_Prune env live)) of
               Some err \<Rightarrow>
                 settle env req a
                   (completion_with CompletionCleanupFailed (Some (ee_Diagnostic err)) v False (Some (env_ObservedAt env)))
                   Failed result1 [FromStage err] ct
             | None \<Rightarrow>
                 settle env req a
                   (completion_with CompletionSucceeded None unknown_verification False (Some (env_ObservedAt env)))
                   Succeeded result1 [] ct)"

definition execute_attempt ::
    "'live exec_env \<Rightarrow> execute_request \<Rightarrow> attempt \<Rightarrow> controller \<Rightarrow>
     ('live execute_result \<times> exec_failure list) \<times> controller" where
  "execute_attempt env req a ct =
     (let result = empty_result\<lparr>er_Attempt := Some a\<rparr>
      in case stackOptions (env_OptionsFault env) a (ct_db ct) of
           Inl err \<Rightarrow>
             settle env req a
               (completion_with CompletionApplyFailed (Some (ee_Diagnostic err)) unknown_verification True None)
               Failed result [FromStage err] ct
         | Inr options \<Rightarrow>
             (case env_Deploy env options (ct_db ct) of
                ((v, err), db) \<Rightarrow>
                  (case executionError (env_DeployDeadline env) err of
                     Some err \<Rightarrow>
                       let c = (classifyExecutionFailure err)\<lparr>comp_Verification := v\<rparr>
                       in settle env req a c (completionStatus c) result [FromStage err] (ct\<lparr>ct_db := db\<rparr>)
                   | None \<Rightarrow> finish_execution env req a v result (ct\<lparr>ct_db := db\<rparr>))))"

definition execute ::
    "'live exec_env \<Rightarrow> execute_request \<Rightarrow> controller \<Rightarrow> ('live execute_result \<times> exec_failure list) \<times> controller" where
  "execute env req ct =
     (case recoverPending (env_RecoverFault env) (env_RecoverNow env) (req_StackName req) ct of
        (Some e, ct1) \<Rightarrow> ((empty_result, [e]), ct1)
      | (None, ct1) \<Rightarrow>
          (case startIfChanged (env_StartFault env) (env_IDs env) (env_StartNow1 env) (env_StartNow2 env)
                  (req_StackName req) (req_Commit req) (req_Desired req) (req_SourceChanged req)
                  (req_ManualRetry req) (ct_db ct1) of
             (Inl e, db) \<Rightarrow> ((empty_result, [FromStore e]), ct1\<lparr>ct_db := db\<rparr>)
           | (Inr None, db) \<Rightarrow> (unchangedResult env req db, ct1\<lparr>ct_db := db\<rparr>)
           | (Inr (Some a), db) \<Rightarrow> execute_attempt env req a (ct1\<lparr>ct_db := db\<rparr>)))"

text \<open>\<open>Recover\<close>, at the start of the process: nothing is pending yet.\<close>

definition recover_all ::
    "store_error option \<Rightarrow> (nat \<Rightarrow> string) \<Rightarrow> gotime \<Rightarrow> controller \<Rightarrow> store_error option \<times> controller" where
  "recover_all fault legacyIDs now ct =
     (case interruptRunning fault legacyIDs now (ct_db ct) of (e, db) \<Rightarrow> (e, ct\<lparr>ct_db := db\<rparr>))"

section \<open>A started attempt is the current one\<close>

lemma restarted_current:
  assumes "r \<in> set (db_deployments db)" "a_DeploymentID a = dr_id r"
  shows "\<exists>q. current (restarted_db a r db) (a_ID a) q (row_of_attempt a) \<and> dr_stack q = dr_stack r"
proof -
  let ?q = "restart_row (deployment_of r db) r"
  have "?q \<in> set (db_deployments (restarted_db a r db))"
    using assms(1) by (auto simp: restarted_db_def image_iff intro: bexI [of _ r])
  moreover have "attempts_of (dr_id ?q) (restarted_db a r db) = attempts_of (dr_id r) db @ [row_of_attempt a]"
    using assms(2) by (simp add: attempts_of_def restarted_db_def row_of_attempt_def restart_row_def)
  ultimately have "current (restarted_db a r db) (a_ID a) ?q (row_of_attempt a)"
    by (simp add: current_def restart_row_def row_of_attempt_def)
  moreover have "dr_stack ?q = dr_stack r" by (simp add: restart_row_def)
  ultimately show ?thesis by blast
qed

lemma created_current:
  assumes "dep_inv db" "did \<notin> dr_id ` set (db_deployments db)" "a_DeploymentID a = did" "d_ID d = did" "d_Status d = Running"
  shows "current (created_db d desired a db) (a_ID a) (row_of_deployment d desired) (row_of_attempt a)"
proof -
  have "ar_deployment_id x \<noteq> did" if "x \<in> set (db_attempts db)" for x
    using attempt_fk [OF assms(1) that] assms(2) by (metis image_eqI)
  then have "attempts_of did (created_db d desired a db) = [row_of_attempt a]"
    using assms(3) by (simp add: attempts_of_def created_db_def row_of_attempt_def filter_empty_conv)
  then show ?thesis using assms(4,5)
    by (simp add: current_def created_db_def row_of_deployment_def row_of_attempt_def)
qed

lemma current_published: "current (db\<lparr>db_published := es\<rparr>) aid r a = current db aid r a"
  by (simp add: current_def attempts_of_def)

lemma createDeployment_current:
  assumes "dep_inv db" "createDeployment (did, aid) now stack commit desired inh db = (Inr (Some a), db')"
  shows "\<exists>q row. current db' (a_ID a) q row \<and> dr_stack q = stack"
  using assms(2)
proof (rule createDeployment_Inr)
  fix d a' assume c: "Some a = Some a'" "a' = newAttempt aid did 1 now" "db' = created_db d desired a' db" "d_ID d = did"
    "d_Stack d = stack" "d_Status d = Running" "did \<notin> dr_id ` set (db_deployments db)"
  then have "current db' (a_ID a) (row_of_deployment d desired) (row_of_attempt a)"
    using created_current [OF assms(1) c(7), of a d] by simp
  moreover have "dr_stack (row_of_deployment d desired) = stack" using c(5) by (simp add: row_of_deployment_def)
  ultimately show ?thesis by blast
qed

lemma startPrepared_current:
  assumes inv: "dep_inv db"
    and run: "startPrepared ids now1 now2 stack commit desired changed manual db = (Inr (Some a), db')"
  shows "\<exists>q row. current db' (a_ID a) q row \<and> dr_stack q = stack"
proof -
  obtain legacyID did aid where ids: "ids = (legacyID, did, aid)" by (cases ids) auto
  show ?thesis
  proof (cases "latest_row stack db")
    case None
    then show ?thesis
      using run createDeployment_current [OF inv] by (auto simp: startPrepared_def ids latest_Inr [OF inv] split: if_splits)
  next
    case (Some r)
    then have r: "r \<in> set (db_deployments db)" "dr_stack r = stack" by (auto simp: latest_row_find dest: find_in)
    show ?thesis
    proof (cases "prep_Digest (dr_desired r) = prep_Digest desired")
      case True
      then have "startExisting aid now1 now2 (deployment_of r db) manual db = (Inr (Some a), db')"
        using run by (simp add: startPrepared_def ids latest_Inr [OF inv] Some)
      then show ?thesis
        by (rule startExisting_cases [OF inv Some]) (use restarted_current [OF r(1), of a] r(2) in auto)
    next
      case False
      then obtain db1 inh db2 names where
        sup: "supersedePrevious legacyID now1 (deployment_of r db) db = (None, db1)" and
        mk: "createDeployment (did, aid) now2 stack commit desired (Some inh) db1 = (Inr (Some a), db2)" and
        pub: "db' = publish_removals stack commit names db2"
        using run by (auto simp: startPrepared_def ids latest_Inr [OF inv] Some Let_def
            split: prod.splits option.splits sum.splits)
      show ?thesis
        using createDeployment_current [OF supersedePrevious_inv [OF inv Some sup] mk]
        unfolding pub publish_removals_def current_published .
    qed
  qed
qed

lemma startIfChanged_current:
  assumes "dep_inv db" "startIfChanged fault ids now1 now2 stack commit desired changed manual db = (Inr (Some a), db')"
  shows "\<exists>q row. current db' (a_ID a) q row \<and> dr_stack q = stack"
proof -
  have "startPrepared ids now1 now2 stack commit desired changed manual db = (Inr (Some a), db')"
    using assms(2) by (auto simp: startIfChanged_def split: prod.splits sum.splits option.splits)
  then show ?thesis by (rule startPrepared_current [OF assms(1)])
qed

section \<open>Outcomes\<close>

definition recorded :: "string \<Rightarrow> status \<Rightarrow> deployment_db \<Rightarrow> bool" where
  "recorded aid s db \<longleftrightarrow> (\<exists>row \<in> set (db_attempts db). ar_id row = aid \<and> ar_status row = s)"

definition remembered :: "string \<Rightarrow> string \<Rightarrow> status \<Rightarrow> controller \<Rightarrow> bool" where
  "remembered stack aid s ct \<longleftrightarrow>
     (case fmlookup (ct_pending ct) stack of
        None \<Rightarrow> False
      | Some p \<Rightarrow> pc_attemptID p = aid \<and> map_option st_status (completion_state (pc_completion p)) = Some s)"

text \<open>
  While the deployer runs, nobody else ends its attempt: other workers only work on other stacks (the
  stack queue never runs two operations of a stack), and the deployer only records update generations.
\<close>

definition undisturbed :: "'live exec_env \<Rightarrow> string \<Rightarrow> bool" where
  "undisturbed env aid \<longleftrightarrow> (\<forall>opts db. dep_inv db \<longrightarrow>
     dep_step\<^sup>*\<^sup>* db (snd (env_Deploy env opts db)) \<and>
     ((\<exists>r row. current db aid r row) \<longrightarrow> (\<exists>r row. current (snd (env_Deploy env opts db)) aid r row)))"

lemma completed_recorded:
  assumes "dep_inv db" "current db aid r a"
  shows "recorded aid (st_status st) (completed_db st now r a db)"
proof -
  have "a \<in> set (db_attempts db)" "ar_id a = aid" using assms newest_attempt(1) [OF assms(1)] by (auto simp: current_def)
  then have "finish_row (finished_attempt st now (attempt_of a)) a \<in> set (db_attempts (completed_db st now r a db))"
    by (auto simp: completed_db_def Let_def image_iff intro: bexI [of _ a])
  moreover have "ar_id (finish_row (finished_attempt st now (attempt_of a)) a) = aid"
    "ar_status (finish_row (finished_attempt st now (attempt_of a)) a) = st_status st"
    using \<open>ar_id a = aid\<close> by (simp_all add: finish_row_def finished_attempt_def)
  ultimately show ?thesis unfolding recorded_def by blast
qed

definition accounted ::
    "'live exec_env \<Rightarrow> execute_request \<Rightarrow> string \<Rightarrow> ('live execute_result \<times> exec_failure list) \<times> controller \<Rightarrow> bool" where
  "accounted env req aid out \<longleftrightarrow>
     (case out of
        ((res, errs), ct) \<Rightarrow>
          (case er_Status res of
             None \<Rightarrow> False
           | Some s \<Rightarrow>
               (if env_CompleteFault env = None
                then recorded aid s (ct_db ct) \<and> fmlookup (ct_pending ct) (req_StackName req) = None
                else remembered (req_StackName req) aid s ct) \<and>
               (errs = [] \<longleftrightarrow> s = Succeeded \<and> env_CompleteFault env = None)))"

lemma settle_accounted:
  assumes "dep_inv (ct_db ct)" "current (ct_db ct) (a_ID a) r row" "map_option st_status (completion_state c) = Some s"
    "\<not> IsZero (env_CompleteNow env)" "errs = [] \<longleftrightarrow> s = Succeeded"
  shows "accounted env req (a_ID a) (settle env req a c s result errs ct)"
proof -
  obtain st where st: "completion_state c = Some st" "st_status st = s" using assms(3) by auto
  show ?thesis
  proof (cases "env_CompleteFault env")
    case None
    have "complete None (a_ID a) c (env_CompleteNow env) (ct_db ct) = (None, completed_db st (env_CompleteNow env) r row (ct_db ct))"
      using complete_current [OF assms(1,2) completion_state_terminal [OF st(1)] assms(4)]
      by (simp add: complete_def st(1) within_tx_def)
    then show ?thesis
      using None assms(5) completed_recorded [OF assms(1,2), of st "env_CompleteNow env"] st(2)
      by (simp add: settle_def controller_complete_def accounted_def)
  next
    case (Some e)
    obtain e' db' where run: "complete (Some e) (a_ID a) c (env_CompleteNow env) (ct_db ct) = (e', db')" by fastforce
    then have "e' \<noteq> None" by (rule complete_cases [OF assms(1)]) simp_all
    then show ?thesis
      using Some run st by (auto simp: settle_def controller_complete_def accounted_def remembered_def)
  qed
qed

lemma classified_state:
  "map_option st_status (completion_state ((classifyExecutionFailure err)\<lparr>comp_Verification := v\<rparr>)) =
     Some (completionStatus ((classifyExecutionFailure err)\<lparr>comp_Verification := v\<rparr>))"
  by (auto simp: classifyExecutionFailure_def completion_with_def completion_state_def completionStatus_def)

lemma finish_execution_accounted:
  assumes "dep_inv (ct_db ct)" "current (ct_db ct) (a_ID a) r row" "\<not> IsZero (env_CompleteNow env)"
  shows "accounted env req (a_ID a) (finish_execution env req a v result ct)"
proof (cases "observe env")
  case (Inl err)
  then show ?thesis unfolding finish_execution_def Inl sum.case
    by (intro settle_accounted [OF assms(1,2) _ assms(3)]) (simp_all add: completion_with_def completion_state_def)
next
  case (Inr live)
  show ?thesis
  proof (cases "executionError (env_PruneDeadline env) (snd (env_Prune env live))")
    case None
    show ?thesis unfolding finish_execution_def Inr sum.case Let_def None option.case
      by (intro settle_accounted [OF assms(1,2) _ assms(3)]) (simp_all add: completion_with_def completion_state_def)
  next
    case (Some err)
    show ?thesis unfolding finish_execution_def Inr sum.case Let_def Some option.case
      by (intro settle_accounted [OF assms(1,2) _ assms(3)]) (simp_all add: completion_with_def completion_state_def)
  qed
qed

lemma execute_attempt_accounted:
  assumes "dep_inv (ct_db ct)" "current (ct_db ct) (a_ID a) r row" "\<not> IsZero (env_CompleteNow env)" "undisturbed env (a_ID a)"
  shows "accounted env req (a_ID a) (execute_attempt env req a ct)"
proof (cases "stackOptions (env_OptionsFault env) a (ct_db ct)")
  case (Inl err)
  show ?thesis unfolding execute_attempt_def Inl sum.case Let_def
    by (intro settle_accounted [OF assms(1,2) _ assms(3)]) (simp_all add: completion_with_def completion_state_def)
next
  case (Inr options)
  obtain v err db where dep: "env_Deploy env options (ct_db ct) = ((v, err), db)" by (metis surj_pair)
  have steps: "dep_step\<^sup>*\<^sup>* (ct_db ct) db" "\<exists>r row. current db (a_ID a) r row"
    using assms(1,2,4) dep unfolding undisturbed_def by (metis snd_conv)+
  then obtain r' row' where cur: "current db (a_ID a) r' row'" by blast
  have inv: "dep_inv db" using finished_kept_steps [OF steps(1) assms(1)] by simp
  let ?ct = "ct\<lparr>ct_db := db\<rparr>"
  have ct: "dep_inv (ct_db ?ct)" "current (ct_db ?ct) (a_ID a) r' row'" using inv cur by simp_all
  show ?thesis
  proof (cases "executionError (env_DeployDeadline env) err")
    case None
    then show ?thesis using finish_execution_accounted [OF ct assms(3)]
      by (simp add: execute_attempt_def Inr dep)
  next
    case (Some err')
    show ?thesis unfolding execute_attempt_def Inr sum.case dep prod.case Let_def Some option.case
      by (rule settle_accounted [OF ct classified_state assms(3)]) (simp add: completionStatus_def)
  qed
qed

lemma recoverPending_keeps:
  assumes "dep_inv (ct_db ct)" "recoverPending fault now stack ct = (e, ct')"
  shows "dep_inv (ct_db ct') \<and> dep_step\<^sup>*\<^sup>* (ct_db ct) (ct_db ct')"
proof (cases "fmlookup (ct_pending ct) stack")
  case None
  then show ?thesis using assms by (simp add: recoverPending_def)
next
  case (Some p)
  obtain e' db where c: "complete fault (pc_attemptID p) (pc_completion p) now (ct_db ct) = (e', db)" by fastforce
  have "ct_db ct' = db"
    using assms(2) by (auto simp: recoverPending_def Some c split: option.splits sum.splits if_splits)
  moreover have "dep_step (ct_db ct) db" using c by (rule dep_complete)
  ultimately show ?thesis using dep_step_keeps assms(1) by blast
qed

lemma settle_attempt: "er_Attempt (fst (fst (settle env req a c s result errs ct))) = er_Attempt result"
  by (simp add: settle_def split: prod.splits)

lemma execute_attempt_attempt: "er_Attempt (fst (fst (execute_attempt env req a ct))) = Some a"
  by (auto simp: execute_attempt_def finish_execution_def settle_attempt Let_def split: sum.splits prod.splits option.splits)

lemma unchangedResult_attempt: "er_Attempt (fst (unchangedResult env req db)) = None"
  by (auto simp: unchangedResult_def empty_result_def Let_def split: sum.splits prod.splits option.splits)

text \<open>
  A concrete controller: the stack is deployed for the first time and the deployer records one update
  generation; the outcome is success.
\<close>

definition sample_error :: exec_error where
  "sample_error = not_found_error\<lparr>ee_ConvergenceStage := True\<rparr>"

definition sample_env :: "store_error option \<Rightarrow> exec_error option \<Rightarrow> string list exec_env" where
  "sample_env fault err =
     \<lparr>env_RecoverFault = None, env_RecoverNow = 40, env_StartFault = None, env_IDs = (''l1'', ''d1'', ''a1''),
      env_StartNow1 = 5, env_StartNow2 = 6, env_OptionsFault = None,
      env_Deploy = (\<lambda>_ db. ((settled_verification, err), snd (recordUpdateGeneration None ''a1'' ''web'' zero_generation db))),
      env_DeployDeadline = None, env_List = Inr [''web''], env_ListDeadline = None, env_ObservedAt = 8,
      env_Prune = (\<lambda>_. ([], None)), env_PruneDeadline = None, env_CompleteFault = fault, env_CompleteNow = 9,
      env_Refresh = None\<rparr>"

definition sample_execute_request :: execute_request where
  "sample_execute_request =
     \<lparr>req_StackName = ''app'', req_Commit = ''c1'', req_Desired = sample_desired ''x'' [''web''],
      req_ManualRetry = False, req_SourceChanged = True\<rparr>"

definition sample_controller :: controller where
  "sample_controller = \<lparr>ct_db = empty_db, ct_pending = fmempty\<rparr>"

lemma record_current:
  assumes "dep_inv db" "current db aid r row"
  shows "\<exists>r. current (snd (recordUpdateGeneration None aid name g db)) aid r row"
proof -
  let ?d = "(deployment_of r db)\<lparr>d_Verification := recorded_verification name g (d_Verification (deployment_of r db))\<rparr>"
  have "saveVerification ?d db = (None, with_details (detailsFromDeployment ?d) r db)"
    by (rule saveVerification_effect [OF assms]) simp
  then have "snd (recordUpdateGeneration None aid name g db) = with_details (detailsFromDeployment ?d) r db"
    by (simp add: recordUpdateGeneration_def verificationDeployment_current [OF assms] within_tx_def Let_def)
  then show ?thesis using current_with_details [OF assms] by auto
qed

lemma sample_undisturbed: "undisturbed (sample_env fault err) ''a1''"
proof -
  have "dep_step db (snd (recordUpdateGeneration None ''a1'' ''web'' zero_generation db))" for db
    by (rule dep_record, rule prod.collapse [symmetric])
  moreover have "\<exists>r row. current (snd (recordUpdateGeneration None ''a1'' ''web'' zero_generation db)) ''a1'' r row"
    if "dep_inv db" "\<exists>r row. current db ''a1'' r row" for db
    using that record_current by blast
  ultimately show ?thesis by (simp add: undisturbed_def sample_env_def r_into_rtranclp)
qed

section \<open>Properties\<close>

text \<open>
  C32. An execution that started an attempt always accounts for it: the reported status is the status
  stored for the attempt, or, when the store refused it, the controller remembers exactly that outcome
  for the stack; no error is reported exactly for a stored success. This holds for every failure of
  the deployer, the observation, the cleanup and the store, as long as nobody else ends the attempt.
\<close>

theorem execute_accounts:
  assumes "deployments_reachable (ct_db ct)" and "execute env req ct = ((res, errs), ct')"
    and "er_Attempt res = Some a" and "undisturbed env (a_ID a)" and "\<not> IsZero (env_CompleteNow env)"
  shows "\<exists>s. er_Status res = Some s \<and>
    (if env_CompleteFault env = None
     then recorded (a_ID a) s (ct_db ct') \<and> fmlookup (ct_pending ct') (req_StackName req) = None
     else remembered (req_StackName req) (a_ID a) s ct') \<and>
    (errs = [] \<longleftrightarrow> s = Succeeded \<and> env_CompleteFault env = None)"
proof -
  have inv: "dep_inv (ct_db ct)" using deps.inv_reachable [OF assms(1)] .
  obtain e ct1 where rec: "recoverPending (env_RecoverFault env) (env_RecoverNow env) (req_StackName req) ct = (e, ct1)"
    by fastforce
  have inv1: "dep_inv (ct_db ct1)" using recoverPending_keeps [OF inv rec] by simp
  obtain out db where start: "startIfChanged (env_StartFault env) (env_IDs env) (env_StartNow1 env) (env_StartNow2 env)
      (req_StackName req) (req_Commit req) (req_Desired req) (req_SourceChanged req) (req_ManualRetry req) (ct_db ct1) = (out, db)"
    by fastforce
  have "e = None"
    using assms(2,3) rec by (cases e) (auto simp: execute_def empty_result_def)
  then obtain b where b: "out = Inr (Some b)" "execute_attempt env req b (ct1\<lparr>ct_db := db\<rparr>) = ((res, errs), ct')"
    using assms(2,3) rec start unchangedResult_attempt [of env req db]
    by (auto simp: execute_def empty_result_def split: sum.splits option.splits)
  then have "b = a" using execute_attempt_attempt [of env req b "ct1\<lparr>ct_db := db\<rparr>"] assms(3) by simp
  with b have "out = Inr (Some a)" "execute_attempt env req a (ct1\<lparr>ct_db := db\<rparr>) = ((res, errs), ct')" by simp_all
  moreover have "dep_inv db" using startIfChanged_keeps [OF inv1 start] by simp
  moreover obtain q row where "current db (a_ID a) q row"
    using startIfChanged_current [OF inv1] start \<open>out = Inr (Some a)\<close> by blast
  ultimately have "accounted env req (a_ID a) ((res, errs), ct')"
    using execute_attempt_accounted [of "ct1\<lparr>ct_db := db\<rparr>" a q row env req] assms(4,5) by simp
  then show ?thesis by (auto simp: accounted_def split: option.splits)
qed

theorem execute_accounts_witness:
  "recorded ''a1'' Succeeded (ct_db (snd (execute (sample_env None None) sample_execute_request sample_controller))) \<and>
   remembered ''app'' ''a1'' Interrupted
     (snd (execute (sample_env (Some StoreFault) (Some sample_error)) sample_execute_request sample_controller))"
proof -
  have start: "deployments_reachable (ct_db sample_controller)"
    unfolding sample_controller_def by (rule reachable_init) simp
  have out: "er_Attempt (fst (fst (execute (sample_env f e) sample_execute_request sample_controller))) =
      Some (newAttempt ''a1'' ''d1'' 1 6)" if "(f, e) \<in> {(None, None), (Some StoreFault, Some sample_error)}" for f e
    using that by auto code_simp+
  have status: "er_Status (fst (fst (execute (sample_env None None) sample_execute_request sample_controller))) = Some Succeeded"
    "er_Status (fst (fst (execute (sample_env (Some StoreFault) (Some sample_error)) sample_execute_request sample_controller))) = Some Interrupted"
    by code_simp+
  have env: "\<not> IsZero (env_CompleteNow (sample_env f e))" "env_CompleteFault (sample_env f e) = f"
    "req_StackName sample_execute_request = ''app''" for f e
    by (simp_all add: sample_env_def IsZero_def sample_execute_request_def)
  have run: "execute (sample_env f e) sample_execute_request sample_controller =
      ((fst (fst (execute (sample_env f e) sample_execute_request sample_controller)),
        snd (fst (execute (sample_env f e) sample_execute_request sample_controller))),
       snd (execute (sample_env f e) sample_execute_request sample_controller))" for f e by simp
  note go = execute_accounts [OF start run, of _ _ "newAttempt ''a1'' ''d1'' 1 6", unfolded newAttempt_simps,
      OF _ sample_undisturbed env(1), unfolded env(2,3)]
  have "recorded ''a1'' Succeeded (ct_db (snd (execute (sample_env None None) sample_execute_request sample_controller)))"
    using go [OF out, of None None] status(1) by simp
  moreover have "remembered ''app'' ''a1'' Interrupted
      (snd (execute (sample_env (Some StoreFault) (Some sample_error)) sample_execute_request sample_controller))"
    using go [OF out, of "Some StoreFault" "Some sample_error"] status(2) by simp
  ultimately show ?thesis ..
qed

text \<open>
  C33. A remembered outcome comes first: the next execution of the stack stores it (with the remembered
  status, if the attempt is still running and the store works), or finds the attempt already finished,
  before it starts anything; if it can do neither, it ends with an error, starts no attempt, and both
  the tables and the remembered outcome stay as they were.
\<close>

theorem execute_recovers_first:
  assumes "deployments_reachable (ct_db ct)" and "fmlookup (ct_pending ct) (req_StackName req) = Some p"
    and "recoverPending (env_RecoverFault env) (env_RecoverNow env) (req_StackName req) ct = (e, ct1)"
  shows "case e of
      None \<Rightarrow> fmlookup (ct_pending ct1) (req_StackName req) = None \<and>
        (\<exists>x \<in> set (db_attempts (ct_db ct1)). ar_id x = pc_attemptID p \<and> ar_status x \<noteq> Running) \<and>
        \<not> (\<exists>x \<in> set (db_attempts (ct_db ct1)). ar_id x = pc_attemptID p \<and> ar_status x = Running) \<and>
        (case completion_state (pc_completion p) of
           None \<Rightarrow> True
         | Some st \<Rightarrow>
             if \<exists>x \<in> set (db_attempts (ct_db ct)). ar_id x = pc_attemptID p \<and> ar_status x = Running
             then recorded (pc_attemptID p) (st_status st) (ct_db ct1) else ct_db ct1 = ct_db ct)
    | Some err \<Rightarrow> execute env req ct = ((empty_result, [err]), ct)"
proof -
  let ?aid = "pc_attemptID p" and ?stack = "req_StackName req"
  have inv: "dep_inv (ct_db ct)" using deps.inv_reachable [OF assms(1)] .
  have inv1: "dep_inv (ct_db ct1)" using recoverPending_keeps [OF inv assms(3)] by simp
  have unique: "\<not> (\<exists>x \<in> set (db_attempts (ct_db ct1)). ar_id x = ?aid \<and> ar_status x = Running)"
    if "\<exists>x \<in> set (db_attempts (ct_db ct1)). ar_id x = ?aid \<and> ar_status x \<noteq> Running"
    using that attempt_row_unique [OF inv1] by metis
  obtain e' db where run: "complete (env_RecoverFault env) ?aid (pc_completion p) (env_RecoverNow env) (ct_db ct) = (e', db)"
    by fastforce
  show ?thesis
    using run
  proof (rule complete_cases [OF inv])
    fix st r a
    assume c: "completion_state (pc_completion p) = Some st" "e' = None" "current (ct_db ct) ?aid r a"
      "db = completed_db st (env_RecoverNow env) r a (ct_db ct)"
    have rec: "recorded ?aid (st_status st) db" unfolding c(4) by (rule completed_recorded [OF inv c(3)])
    have "a \<in> set (db_attempts (ct_db ct)) \<and> ar_id a = ?aid \<and> ar_status a = Running"
      using c(3) newest_attempt(1,3) [OF inv, of r a] by (auto simp: current_def projects_def)
    moreover have fin: "e = None" "ct_db ct1 = db" "fmlookup (ct_pending ct1) ?stack = None"
      using assms(2,3) run c(2) by (auto simp: recoverPending_def)
    moreover have "\<exists>x \<in> set (db_attempts db). ar_id x = ?aid \<and> ar_status x \<noteq> Running"
      using rec completion_state_terminal [OF c(1)] by (auto simp: recorded_def terminal_def)
    ultimately show ?thesis using rec unique c(1) by auto
  next
    assume fail: "e' \<noteq> None" "db = ct_db ct"
    then obtain err where err: "e' = Some err" by blast
    show ?thesis
    proof (cases e)
      case (Some err')
      then have "ct1 = ct"
        using assms(2,3) run fail err by (auto simp: recoverPending_def split: if_splits sum.splits)
      then show ?thesis using Some assms(3) by (simp add: execute_def)
    next
      case None
      then obtain a s where seen: "inspect ?aid (ct_db ct) = Inr (a, s)" "a_Status a \<noteq> Running"
          "ct1 = ct\<lparr>ct_pending := fmdrop ?stack (ct_pending ct)\<rparr>"
        using assms(2,3) run fail err by (auto simp: recoverPending_def split: if_splits sum.splits)
      then obtain x where x: "x \<in> set (db_attempts (ct_db ct))" "ar_id x = ?aid" "ar_status x \<noteq> Running"
        by (auto simp: inspect_def getAttempt_def split: option.splits sum.splits dest: find_in)
      then have "\<exists>x \<in> set (db_attempts (ct_db ct1)). ar_id x = ?aid \<and> ar_status x \<noteq> Running"
        using seen(3) by auto
      then show ?thesis using None seen(3) unique by (auto split: option.splits)
    qed
  qed
qed

definition sample_stuck :: controller where
  "sample_stuck =
     \<lparr>ct_db = sample_start, ct_pending = fmupd ''app'' \<lparr>pc_attemptID = ''a1'', pc_completion = sample_failure\<rparr> fmempty\<rparr>"

theorem execute_recovers_first_witness:
  "recorded ''a1'' Failed (ct_db (snd (recoverPending None 40 ''app'' sample_stuck)))"
proof -
  have facts: "fst (recoverPending None 40 ''app'' sample_stuck) = None" "completion_state sample_failure \<noteq> None"
    "st_status (the (completion_state sample_failure)) = Failed"
    "\<exists>x \<in> set (db_attempts sample_start). ar_id x = ''a1'' \<and> ar_status x = Running"
    by code_simp+
  have db: "deployments_reachable (ct_db sample_stuck)" using sample_reachable(1) by (simp add: sample_stuck_def)
  have p: "fmlookup (ct_pending sample_stuck) (req_StackName sample_execute_request) =
      Some \<lparr>pc_attemptID = ''a1'', pc_completion = sample_failure\<rparr>"
    by (simp add: sample_stuck_def sample_execute_request_def)
  have env: "env_RecoverFault (sample_env None None) = None" "env_RecoverNow (sample_env None None) = 40"
    "req_StackName sample_execute_request = ''app''"
    by (simp_all add: sample_env_def sample_execute_request_def)
  have "recoverPending (env_RecoverFault (sample_env None None)) (env_RecoverNow (sample_env None None))
      (req_StackName sample_execute_request) sample_stuck = (None, snd (recoverPending None 40 ''app'' sample_stuck))"
    unfolding env using facts(1) by (metis prod.collapse)
  note all = execute_recovers_first [OF db p this]
  obtain st where st: "completion_state sample_failure = Some st" "st_status st = Failed" using facts(2,3) by auto
  have stuck: "ct_db sample_stuck = sample_start" by (simp add: sample_stuck_def)
  note settled = conjunct2 [OF conjunct2 [OF conjunct2 [OF all [unfolded option.case]]]]
  show ?thesis
    using settled unfolding pending_completion.simps st(1) option.case stuck if_P [OF facts(4)] st(2) .
qed

end
