(* ===== verification/GitOpsRuntime.thy ===== *)
theory GitOpsRuntime
  imports GitOpsConfig
begin

text \<open>
  The persisted GitOps runtime state (\<open>internal/modules/gitops/model\<close>, \<open>modelstore/sqlite.go\<close>) with
  the events published beside it, and the configuration store (\<open>internal/configstore/store.go\<close>).

  The state is one row of a table, read as the empty state when the row is missing. An update runs in
  a transaction, and in the transaction of its caller if there is one. The error texts kept in the
  state are the errors themselves.
\<close>

section \<open>Data\<close>

datatype sync_status = Synced | OutOfSync | SyncUnspecified

record service_state =
  svc_Image :: string
  svc_SyncStatus :: sync_status
  svc_SyncError :: string
  svc_SelfHealPending :: bool
  svc_SyncAt :: gotime

record stack_status =
  ss_Synced :: nat
  ss_OutOfSynced :: nat

record stack_state =
  stk_DriftedServices :: "(string, bool) gomap"
  stk_SourceDigest :: string
  stk_LastCommit :: string
  stk_Status :: stack_status
  stk_LastError :: string
  stk_LastDeployAt :: gotime
  stk_StateUpdatedAt :: gotime
  stk_Services :: "(string, service_state) gomap"

datatype network_error =
    LabelNotManaged | NetworkGetFailed string | NetworkCreateFailed string | NotManaged
  | DriftDriver | DriftInternal | DriftAttachable | DriftLabels | DriftOptions

datatype gitops_error =
    StateError | PublishError | GitPullError string string | GitHeadError | ReloadError | QueueStopped
  | NetworkErrors "(string \<times> network_error) list" "gitops_error option"

datatype network_status = NetSuccess | NetNoChange | NetFailed

record network_state =
  net_Driver :: string
  net_LastCommit :: string
  net_LastStatus :: network_status
  net_LastError :: "network_error option"
  net_LastSyncAt :: gotime

datatype poll_result = PollError | PollNoChange | PollUpdated

datatype sync_result = SyncError | SyncSuccess

datatype trigger_reason = TriggerStartup | TriggerPoll | TriggerInterval | TriggerWebhook | TriggerManual

record runtime =
  rt_GitPullFailure :: "string option"
  rt_LastPollAt :: gotime
  rt_LastPollResult :: "poll_result option"
  rt_LastPollError :: "gitops_error option"
  rt_LastSyncAt :: gotime
  rt_LastSyncReason :: "trigger_reason option"
  rt_LastSyncResult :: "sync_result option"
  rt_LastSyncError :: "gitops_error option"
  rt_GitRevision :: string
  rt_Stacks :: "(string, stack_state) gomap"
  rt_Networks :: "(string, network_state) gomap"

datatype gitops_event =
    ConfigurationChanged string string
  | GitPullFailed string string string trigger_reason
  | GitPullSucceeded string trigger_reason
  | NetworkCreated string string string
  | SyncManualStarted string
  | WebhookReceived bool
  | ServiceMissed string string string bool
  | ServiceDrifted string string string string bool
  | ServiceDriftFixed string string string
  | ServicePruned string string string
  | DeployPreparationFailed string string string string

record gitops_db =
  gd_runtime :: runtime
  gd_events :: "gitops_event list"

definition empty_runtime :: runtime where
  "empty_runtime =
     \<lparr>rt_GitPullFailure = None, rt_LastPollAt = 0, rt_LastPollResult = None, rt_LastPollError = None,
      rt_LastSyncAt = 0, rt_LastSyncReason = None, rt_LastSyncResult = None, rt_LastSyncError = None,
      rt_GitRevision = '''', rt_Stacks = fmempty, rt_Networks = fmempty\<rparr>"

section \<open>Aggregated status\<close>

definition is_synced :: "service_state \<Rightarrow> bool" where
  "is_synced s \<longleftrightarrow> svc_SyncStatus s = Synced"

definition is_out_of_sync :: "service_state \<Rightarrow> bool" where
  "is_out_of_sync s \<longleftrightarrow> svc_SyncStatus s = OutOfSync"

definition newStackStatus :: "(string, service_state) gomap \<Rightarrow> stack_status" where
  "newStackStatus services =
     (let values = map (\<lambda>n. the (fmlookup services n)) (sorted_keys services)
      in \<lparr>ss_Synced = length (filter is_synced values), ss_OutOfSynced = length (filter is_out_of_sync values)\<rparr>)"

definition serviceSyncStatus :: "stack_state option \<Rightarrow> string \<Rightarrow> sync_status" where
  "serviceSyncStatus stack name =
     (case stack of
        None \<Rightarrow> SyncUnspecified
      | Some s \<Rightarrow>
          (case fmlookup (stk_Services s) name of None \<Rightarrow> SyncUnspecified | Some srv \<Rightarrow> svc_SyncStatus srv))"

text \<open>Every service is counted at most once, so the counters are bounded by the number of services.\<close>

lemma newStackStatus_bound:
  "ss_Synced (newStackStatus m) + ss_OutOfSynced (newStackStatus m) \<le> length (sorted_keys m)"
proof -
  have "length (filter is_synced xs) + length (filter is_out_of_sync xs) \<le> length xs" for xs
    by (induction xs) (auto simp: is_synced_def is_out_of_sync_def)
  then show ?thesis by (metis (no_types, lifting) length_map newStackStatus_def stack_status.select_convs)
qed

section \<open>The state store\<close>

definition runtime_update ::
    "gitops_error option \<Rightarrow> (runtime \<Rightarrow> runtime) \<Rightarrow> gitops_db \<Rightarrow> gitops_error option \<times> gitops_db" where
  "runtime_update fault f = within_tx fault (\<lambda>db. (None, db\<lparr>gd_runtime := f (gd_runtime db)\<rparr>))"

lemma runtime_update_eq:
  "runtime_update fault f db =
     (case fault of None \<Rightarrow> (None, db\<lparr>gd_runtime := f (gd_runtime db)\<rparr>) | Some e \<Rightarrow> (Some e, db))"
  by (simp add: runtime_update_def within_tx_def split: option.splits)

definition publish_all :: "gitops_event list \<Rightarrow> gitops_db \<Rightarrow> gitops_db" where
  "publish_all evs db = db\<lparr>gd_events := gd_events db @ evs\<rparr>"

section \<open>The configuration store\<close>

record network_spec =
  ns_Name :: string
  ns_Driver :: string
  ns_Attachable :: bool
  ns_Internal :: bool
  ns_Labels :: labels
  ns_Options :: labels

record config_store =
  cs_Stacks :: "stack_spec list"
  cs_Networks :: "network_spec list"
  cs_Ready :: bool

text \<open>
  \<open>Reload\<close>: the configuration reader gives an error, or the accepted stacks and networks and whether
  they differ from the ones before. A failing publication is only logged.
\<close>

definition reload ::
    "gitops_error option \<Rightarrow> gitops_error + stack_spec list \<times> network_spec list \<times> bool \<Rightarrow> config_store \<Rightarrow> gitops_db \<Rightarrow>
     gitops_error option \<times> config_store \<times> gitops_db" where
  "reload publishFault loaded cs db =
     (case loaded of
        Inl e \<Rightarrow> (Some e, cs, db)
      | Inr (stacks, networks, changed) \<Rightarrow>
          let cs' = \<lparr>cs_Stacks = stacks, cs_Networks = networks, cs_Ready = True\<rparr>
          in if \<not> changed \<and> cs_Ready cs then (None, cs', db)
             else (None, cs', case publishFault of
                                None \<Rightarrow> publish_all [ConfigurationChanged '''' ''''] db | Some _ \<Rightarrow> db))"

end
