(* ===== verification/GitPull.thy ===== *)
theory GitPull
  imports GitOpsRuntime
begin

text \<open>
  Pulling the repository (\<open>internal/modules/gitops/controller/gitpull\<close>: \<open>puller.go\<close>, \<open>monitor.go\<close>) and
  the classification of pull errors (\<open>internal/modules/gitops/git/errors.go\<close>).

  A Go error of the Git transport is the record \<open>git_error\<close> of what the code asks it with
  \<open>errors.Is\<close>, \<open>errors.As\<close> and type assertions, and its text. The scheme that \<open>url.Parse\<close> reads from a
  remote is a parameter. Log lines and metrics are left out.
\<close>

section \<open>Classification\<close>

datatype failure_category =
    FailureAuthentication | FailureAccessDenied | FailureRepositoryNotFound | FailureNetwork
  | FailureSSHHostVerification | FailureOther

record git_error =
  ge_Classified :: "(failure_category \<times> string) option"
  ge_AuthConfiguration :: bool
  ge_SSHConfiguration :: bool
  ge_AuthenticationRequired :: bool
  ge_AuthorizationFailed :: bool
  ge_RepositoryNotFound :: bool
  ge_HTTPStatus :: "int option"
  ge_HostKey :: bool
  ge_RevokedHostKey :: bool
  ge_NetTimeout :: "bool option"
  ge_DNS :: bool
  ge_ConnRefused :: bool
  ge_HostUnreachable :: bool
  ge_NetUnreachable :: bool
  ge_DeadlineExceeded :: bool
  ge_Canceled :: bool
  ge_Text :: string
  ge_ErrorLine :: "string option"

fun contains :: "string \<Rightarrow> string \<Rightarrow> bool" where
  "contains [] p = (p = [])"
| "contains (c # cs) p = (HasPrefix (c # cs) p \<or> contains cs p)"

text \<open>\<open>splitSCPRemote\<close>: host and path of \<open>user@host:path\<close>, without user and query.\<close>

definition before :: "char set \<Rightarrow> string \<Rightarrow> string" where
  "before stops s = takeWhile (\<lambda>c. c \<notin> stops) s"

definition splitSCPRemote :: "string \<Rightarrow> (string \<times> string) option" where
  "splitSCPRemote raw =
     (if contains raw ''://'' then None
      else
        let left = before {CHR '':''} raw
        in if left = '''' \<or> length left = length raw \<or> CHR ''/'' \<in> set left then None
           else
             let host = rev (before {CHR ''@''} (rev left));
                 path = before {CHR ''?'', CHR ''#''} (drop (length left + 1) raw)
             in if host = '''' \<or> path = '''' then None else Some (ToLower host, path))"

definition isSSHRemote :: "(string \<Rightarrow> string option) \<Rightarrow> string \<Rightarrow> bool" where
  "isSSHRemote parseScheme repository \<longleftrightarrow>
     splitSCPRemote repository \<noteq> None \<or> parseScheme repository = Some ''ssh''"

definition ssh_failure :: "git_error \<Rightarrow> failure_category" where
  "ssh_failure err =
     (let message = ToLower (ge_Text err)
      in if contains message ''unable to authenticate'' \<or> contains message ''no supported methods remain'' \<or>
            contains message ''permission denied (publickey''
         then FailureAuthentication
         else case ge_ErrorLine err of
                None \<Rightarrow> FailureOther
              | Some line \<Rightarrow>
                  let serverMessage = ToLower line
                  in if contains serverMessage ''repository not found'' \<or> contains serverMessage ''does not exist''
                     then FailureRepositoryNotFound
                     else if contains serverMessage ''access denied'' \<or> contains serverMessage ''permission denied''
                     then FailureAccessDenied
                     else FailureOther)"

definition gateway_status :: "git_error \<Rightarrow> bool" where
  "gateway_status err \<longleftrightarrow> ge_HTTPStatus err = Some 502 \<or> ge_HTTPStatus err = Some 503 \<or> ge_HTTPStatus err = Some 504"

definition classifyFailure :: "bool \<Rightarrow> git_error \<Rightarrow> failure_category" where
  "classifyFailure ssh err =
     (if ge_AuthConfiguration err then FailureAuthentication
      else if ge_SSHConfiguration err then FailureSSHHostVerification
      else if ge_AuthenticationRequired err then FailureAuthentication
      else if ge_AuthorizationFailed err then FailureAccessDenied
      else if ge_RepositoryNotFound err then FailureRepositoryNotFound
      else if gateway_status err then FailureNetwork
      else if ge_HostKey err then FailureSSHHostVerification
      else if ge_RevokedHostKey err then FailureSSHHostVerification
      else if ge_NetTimeout err \<noteq> None \<or> ge_ConnRefused err \<or> ge_HostUnreachable err \<or> ge_NetUnreachable err \<or>
              ge_DeadlineExceeded err \<or> ge_Canceled err then FailureNetwork
      else if ssh then ssh_failure err
      else FailureOther)"

definition failureDiagnostic :: "failure_category \<Rightarrow> string" where
  "failureDiagnostic category =
     (case category of
        FailureAuthentication \<Rightarrow> ''Git repository authentication failed''
      | FailureAccessDenied \<Rightarrow> ''Access to Git repository was denied''
      | FailureRepositoryNotFound \<Rightarrow> ''Git repository was not found''
      | FailureNetwork \<Rightarrow> ''Git repository is temporarily unreachable''
      | FailureSSHHostVerification \<Rightarrow> ''SSH host verification failed''
      | FailureOther \<Rightarrow> ''Git pull failed'')"

definition safePullDiagnostic :: "git_error \<Rightarrow> failure_category \<Rightarrow> string" where
  "safePullDiagnostic err category =
     (if category \<noteq> FailureNetwork then failureDiagnostic category
      else if ge_DNS err then ''Git repository DNS lookup failed''
      else if ge_DeadlineExceeded err then ''Git repository connection timed out''
      else if ge_NetTimeout err = Some True then ''Git repository connection timed out''
      else if ge_ConnRefused err then ''Git repository connection refused''
      else if ge_HostUnreachable err then ''Git repository host unreachable''
      else if ge_NetUnreachable err then ''Git repository network unreachable''
      else if ge_HTTPStatus err = Some 502 then ''Git remote returned HTTP 502 (Bad Gateway)''
      else if ge_HTTPStatus err = Some 503 then ''Git remote returned HTTP 503 (Service Unavailable)''
      else if ge_HTTPStatus err = Some 504 then ''Git remote returned HTTP 504 (Gateway Timeout)''
      else failureDiagnostic category)"

definition classifyPullError ::
    "(string \<Rightarrow> string option) \<Rightarrow> git_error \<Rightarrow> string \<Rightarrow> bool \<Rightarrow> failure_category \<times> string" where
  "classifyPullError parseScheme err repository authSSH =
     (case ge_Classified err of
        Some c \<Rightarrow> c
      | None \<Rightarrow>
          let category = classifyFailure (authSSH \<or> isSSHRemote parseScheme repository) err
          in (category, safePullDiagnostic err category))"

definition category_name :: "failure_category \<Rightarrow> string" where
  "category_name category =
     (case category of
        FailureAuthentication \<Rightarrow> ''authentication'' | FailureAccessDenied \<Rightarrow> ''access_denied''
      | FailureRepositoryNotFound \<Rightarrow> ''repository_not_found'' | FailureNetwork \<Rightarrow> ''network''
      | FailureSSHHostVerification \<Rightarrow> ''ssh_host_verification'' | FailureOther \<Rightarrow> ''other'')"

section \<open>Observing pulls\<close>

record observation =
  obs_Repository :: string
  obs_TriggerReason :: trigger_reason
  obs_Failure :: "(failure_category \<times> string) option"

definition transition :: "string option \<Rightarrow> observation \<Rightarrow> string option \<times> gitops_event list" where
  "transition previous obs =
     (let repository = obs_Repository obs;
          repositoryChanged = (case previous of None \<Rightarrow> False | Some p \<Rightarrow> p \<noteq> repository);
          pending = (if repositoryChanged then [ConfigurationChanged (the previous) repository] else [])
      in case obs_Failure obs of
           Some (category, description) \<Rightarrow>
             (Some repository,
              pending @ [GitPullFailed repository (category_name category) description (obs_TriggerReason obs)])
         | None \<Rightarrow>
             (None,
              pending @ (if previous \<noteq> None \<and> \<not> repositoryChanged
                         then [GitPullSucceeded repository (obs_TriggerReason obs)] else [])))"

text \<open>\<open>Observe\<close>: state and events in one transaction; \<open>fault\<close> is a failing read, write or publication.\<close>

definition observe_pull :: "gitops_error option \<Rightarrow> observation \<Rightarrow> gitops_db \<Rightarrow> gitops_error option \<times> gitops_db" where
  "observe_pull fault obs =
     within_tx fault (\<lambda>db.
       let previous = rt_GitPullFailure (gd_runtime db);
           (nxt, pending) = transition previous obs
       in if previous = None \<and> nxt = None then (None, db)
          else (None, publish_all pending
                        (db\<lparr>gd_runtime := (gd_runtime db)\<lparr>rt_GitPullFailure := nxt\<rparr>\<rparr>)))"

text \<open>\<open>Pull\<close>: a failing observation is only logged.\<close>

record puller =
  pl_Remote :: string
  pl_AuthSSH :: bool
  pl_Repository :: string

definition pull ::
    "(string \<Rightarrow> string option) \<Rightarrow> gitops_error option \<Rightarrow> puller \<Rightarrow> git_error + pull_result \<Rightarrow> trigger_reason \<Rightarrow>
     gitops_db \<Rightarrow> (gitops_error + pull_result) \<times> gitops_db" where
  "pull parseScheme fault p outcome reason db =
     (case outcome of
        Inl err \<Rightarrow>
          let (category, diagnostic) = classifyPullError parseScheme err (pl_Remote p) (pl_AuthSSH p);
              obs = \<lparr>obs_Repository = pl_Repository p, obs_TriggerReason = reason,
                     obs_Failure = Some (category, diagnostic)\<rparr>
          in (Inl (GitPullError (category_name category) diagnostic), snd (observe_pull fault obs db))
      | Inr result \<Rightarrow>
          let obs = \<lparr>obs_Repository = pl_Repository p, obs_TriggerReason = reason, obs_Failure = None\<rparr>
          in (Inr result, snd (observe_pull fault obs db)))"

section \<open>The event log determines the pull state\<close>

fun pull_event :: "gitops_event \<Rightarrow> string option \<Rightarrow> string option" where
  "pull_event (GitPullFailed repository category description reason) f = Some repository"
| "pull_event (GitPullSucceeded repository reason) f = None"
| "pull_event (ConfigurationChanged previous repository) f =
     (if previous = '''' \<and> repository = '''' then f else None)"
| "pull_event _ f = f"

definition failing :: "gitops_event list \<Rightarrow> string option" where
  "failing evs = fold pull_event evs None"

lemma failing_append: "failing (evs @ evs2) = fold pull_event evs2 (failing evs)"
  by (simp add: failing_def)

lemma transition_events: "transition previous obs = (nxt, evs) \<Longrightarrow> fold pull_event evs previous = nxt"
  by (auto simp: transition_def Let_def split: option.splits if_splits)

text \<open>Every reported recovery follows a failure of the same repository that is still open.\<close>

definition recoveries_ok :: "gitops_event list \<Rightarrow> bool" where
  "recoveries_ok evs \<longleftrightarrow>
     (\<forall>pre r reason post. evs = pre @ GitPullSucceeded r reason # post \<longrightarrow> failing pre = Some r)"

lemma recoveries_ok_snoc:
  assumes "recoveries_ok evs" "\<And>r reason. e = GitPullSucceeded r reason \<Longrightarrow> failing evs = Some r"
  shows "recoveries_ok (evs @ [e])"
  unfolding recoveries_ok_def
proof (intro allI impI)
  fix pre r reason post assume eq: "evs @ [e] = pre @ GitPullSucceeded r reason # post"
  show "failing pre = Some r"
  proof (cases post rule: rev_cases)
    case Nil
    with eq assms(2) show ?thesis by simp
  next
    case (snoc post' x)
    with eq have "evs = pre @ GitPullSucceeded r reason # post'" by simp
    with assms(1) show ?thesis unfolding recoveries_ok_def by blast
  qed
qed

lemma recoveries_ok_other:
  "recoveries_ok evs \<Longrightarrow> (\<And>r reason. GitPullSucceeded r reason \<notin> set evs2) \<Longrightarrow> recoveries_ok (evs @ evs2)"
proof (induction evs2 rule: rev_induct)
  case (snoc e evs2)
  then have "recoveries_ok (evs @ evs2)" by auto
  then have "recoveries_ok ((evs @ evs2) @ [e])" using snoc.prems(2) by (intro recoveries_ok_snoc) auto
  then show ?case by simp
qed simp

definition pull_inv :: "gitops_db \<Rightarrow> bool" where
  "pull_inv db \<longleftrightarrow> rt_GitPullFailure (gd_runtime db) = failing (gd_events db) \<and> recoveries_ok (gd_events db)"

lemma transition_recoveries:
  assumes "transition (failing log) obs = (nxt, evs)" "recoveries_ok log"
  shows "recoveries_ok (log @ evs)"
proof (cases "obs_Failure obs")
  case (Some f)
  then have "GitPullSucceeded r reason \<notin> set evs" for r reason
    using assms(1) by (auto simp: transition_def Let_def split: prod.splits if_splits)
  then show ?thesis using assms(2) recoveries_ok_other by blast
next
  case None
  then consider "evs = []" | p where "evs = [ConfigurationChanged p (obs_Repository obs)]"
    | "evs = [GitPullSucceeded (obs_Repository obs) (obs_TriggerReason obs)]" "failing log = Some (obs_Repository obs)"
    using assms(1) by (auto simp: transition_def Let_def split: if_splits option.splits)
  then show ?thesis
    using assms(2) by cases (auto intro: recoveries_ok_snoc)
qed

lemma observe_pull_inv:
  assumes inv: "pull_inv db"
  shows "pull_inv (snd (observe_pull fault obs db))"
  unfolding observe_pull_def
proof (rule tx.invariant_by_success [of pull_inv, OF inv], fold observe_pull_def)
  fix db' assume run: "observe_pull fault obs db = (None, db')"
  obtain nxt evs where t: "transition (rt_GitPullFailure (gd_runtime db)) obs = (nxt, evs)" by fastforce
  then have "db' = db \<or> db' = publish_all evs (db\<lparr>gd_runtime := (gd_runtime db)\<lparr>rt_GitPullFailure := nxt\<rparr>\<rparr>)"
    using run by (auto simp: observe_pull_def within_tx_None split: if_splits)
  then show "pull_inv db'"
    using inv transition_events [OF t] transition_recoveries [of "gd_events db" obs nxt evs] t
    by (auto simp: pull_inv_def publish_all_def failing_append)
qed

lemma pull_inv_pull: "pull_inv db \<Longrightarrow> pull_inv (snd (pull parseScheme fault p outcome reason db))"
  using observe_pull_inv by (auto simp: pull_def Let_def split: sum.splits prod.splits)

text \<open>Writes beside the pull state keep the invariant.\<close>

lemma pull_inv_update:
  assumes "pull_inv db" "\<And>rt. rt_GitPullFailure (f rt) = rt_GitPullFailure rt"
  shows "pull_inv (snd (runtime_update fault f db))"
  using assms by (auto simp: runtime_update_eq pull_inv_def split: option.splits)

fun pull_neutral :: "gitops_event \<Rightarrow> bool" where
  "pull_neutral (GitPullFailed _ _ _ _) = False"
| "pull_neutral (GitPullSucceeded _ _) = False"
| "pull_neutral (ConfigurationChanged previous repository) = (previous = '''' \<and> repository = '''')"
| "pull_neutral _ = True"

lemma pull_inv_publish:
  assumes "pull_inv db" "\<And>e. e \<in> set evs \<Longrightarrow> pull_neutral e"
  shows "pull_inv (publish_all evs db)"
proof -
  have "pull_event e f = f" if "pull_neutral e" for e f
    using that by (induction e f rule: pull_event.induct) auto
  then have "fold pull_event evs f = f" for f
    using assms(2) by (induction evs arbitrary: f) auto
  moreover have "recoveries_ok (gd_events db @ evs)"
    using assms by (intro recoveries_ok_other) (auto simp: pull_inv_def dest!: assms(2))
  ultimately show ?thesis using assms(1) by (simp add: pull_inv_def publish_all_def failing_append)
qed

end
