(* ===== verification/NetworkLoop.thy ===== *)
theory NetworkLoop
  imports GitPull
begin

text \<open>
  Network reconciliation (\<open>internal/modules/gitops/controller/networkloop\<close>: \<open>reconciler.go\<close> and
  \<open>coordinator.go\<close>). The network manager of the Swarm API is a pair of parameters: what a lookup of a
  name returns, and what the creation of a network returns.
\<close>

section \<open>One network\<close>

record network =
  nw_Name :: string
  nw_Driver :: string
  nw_Internal :: bool
  nw_Attachable :: bool
  nw_Labels :: labels
  nw_Options :: labels

datatype get_error = ErrNetworkNotFound | GetError string

definition NetworkManagedKey :: string where
  "NetworkManagedKey = ''org.swarm-deploy.network.managed''"

definition NetworkManagedValue :: string where
  "NetworkManagedValue = ''true''"

definition withManagedNetworkLabel :: "labels \<Rightarrow> labels option" where
  "withManagedNetworkLabel ls =
     (if (case fmlookup ls NetworkManagedKey of None \<Rightarrow> False | Some v \<Rightarrow> TrimSpace v \<noteq> NetworkManagedValue)
      then None else Some (fmupd NetworkManagedKey NetworkManagedValue ls))"

definition ensureManagedNetwork :: "network \<Rightarrow> bool" where
  "ensureManagedNetwork n \<longleftrightarrow> TrimSpace (map_str (nw_Labels n) NetworkManagedKey) = NetworkManagedValue"

definition ensureMapContains :: "labels \<Rightarrow> labels \<Rightarrow> bool" where
  "ensureMapContains actual expected \<longleftrightarrow> list_all (\<lambda>k. fmlookup actual k = fmlookup expected k) (sorted_keys expected)"

definition ensureNetworkMatches :: "network \<Rightarrow> network \<Rightarrow> network_error option" where
  "ensureNetworkMatches n desired =
     (if nw_Driver n \<noteq> nw_Driver desired then Some DriftDriver
      else if nw_Internal n \<noteq> nw_Internal desired then Some DriftInternal
      else if nw_Attachable n \<noteq> nw_Attachable desired then Some DriftAttachable
      else if \<not> ensureMapContains (nw_Labels n) (nw_Labels desired) then Some DriftLabels
      else if \<not> ensureMapContains (nw_Options n) (nw_Options desired) then Some DriftOptions
      else None)"

definition desired_network :: "network_spec \<Rightarrow> labels \<Rightarrow> network" where
  "desired_network cfg ls =
     \<lparr>nw_Name = ns_Name cfg, nw_Driver = ns_Driver cfg, nw_Internal = ns_Internal cfg,
      nw_Attachable = ns_Attachable cfg, nw_Labels = ls, nw_Options = ns_Options cfg\<rparr>"

text \<open>\<open>Reconcile\<close>: skipped, and the creation event if the network was created.\<close>

definition reconcile ::
    "(string \<Rightarrow> get_error + network) \<Rightarrow> (network \<Rightarrow> string + string) \<Rightarrow> network_spec \<Rightarrow>
     network_error + bool \<times> gitops_event option" where
  "reconcile get create cfg =
     (case withManagedNetworkLabel (ns_Labels cfg) of
        None \<Rightarrow> Inl LabelNotManaged
      | Some ls \<Rightarrow>
          let desired = desired_network cfg ls
          in case get (ns_Name cfg) of
               Inl ErrNetworkNotFound \<Rightarrow>
                 (case create desired of
                    Inl e \<Rightarrow> Inl (NetworkCreateFailed e)
                  | Inr nid \<Rightarrow> Inr (False, Some (NetworkCreated (ns_Name cfg) nid (ns_Driver cfg))))
             | Inl (GetError e) \<Rightarrow> Inl (NetworkGetFailed e)
             | Inr n \<Rightarrow>
                 if \<not> ensureManagedNetwork n then Inl NotManaged
                 else case ensureNetworkMatches n desired of
                        Some e \<Rightarrow> Inl e
                      | None \<Rightarrow> Inr (True, None))"

section \<open>All configured networks\<close>

definition syncedNetwork :: "runtime \<Rightarrow> string \<Rightarrow> string \<Rightarrow> network_state option" where
  "syncedNetwork rt name commit =
     (case fmlookup (rt_Networks rt) name of
        None \<Rightarrow> None
      | Some p \<Rightarrow>
          if net_LastCommit p = commit \<and> (net_LastStatus p = NetSuccess \<or> net_LastStatus p = NetNoChange)
          then Some p else None)"

definition reconcileNetwork ::
    "(string \<Rightarrow> get_error + network) \<Rightarrow> (network \<Rightarrow> string + string) \<Rightarrow> string \<Rightarrow> gotime \<Rightarrow> network_spec \<Rightarrow>
     network_state \<times> gitops_event option \<times> network_error option" where
  "reconcileNetwork get create commit now cfg =
     (let st = \<lparr>net_Driver = ns_Driver cfg, net_LastCommit = commit, net_LastStatus = NetSuccess,
                net_LastError = None, net_LastSyncAt = now\<rparr>
      in case reconcile get create cfg of
           Inl e \<Rightarrow> (st\<lparr>net_LastStatus := NetFailed, net_LastError := Some e\<rparr>, None, Some e)
         | Inr (skipped, created) \<Rightarrow>
             (if skipped then st\<lparr>net_LastStatus := NetNoChange\<rparr> else st, created, None))"

record network_round =
  nr_next :: "(string, network_state) gomap"
  nr_errs :: "(string \<times> network_error) list"
  nr_created :: "gitops_event list"

definition network_step ::
    "(string \<Rightarrow> get_error + network) \<Rightarrow> (network \<Rightarrow> string + string) \<Rightarrow> runtime \<Rightarrow> string \<Rightarrow> gotime \<Rightarrow> network_spec \<Rightarrow>
     network_round \<Rightarrow> network_round" where
  "network_step get create rt commit now cfg nr =
     (case syncedNetwork rt (ns_Name cfg) commit of
        Some previous \<Rightarrow> nr\<lparr>nr_next := fmupd (ns_Name cfg) previous (nr_next nr)\<rparr>
      | None \<Rightarrow>
          (case reconcileNetwork get create commit now cfg of
             (st, created, err) \<Rightarrow>
               nr\<lparr>nr_next := fmupd (ns_Name cfg) st (nr_next nr),
                  nr_created := nr_created nr @ (case created of None \<Rightarrow> [] | Some e \<Rightarrow> [e]),
                  nr_errs := nr_errs nr @ (case err of None \<Rightarrow> [] | Some e \<Rightarrow> [(ns_Name cfg, e)])\<rparr>))"

definition network_rounds where
  "network_rounds get create rt commit now networks =
     fold (network_step get create rt commit now) networks \<lparr>nr_next = fmempty, nr_errs = [], nr_created = []\<rparr>"

definition persist_networks ::
    "gitops_error option \<Rightarrow> network_round \<Rightarrow> gitops_db \<Rightarrow> gitops_error option \<times> gitops_db" where
  "persist_networks fault nr =
     within_tx fault (\<lambda>db.
       (None, publish_all (nr_created nr) (db\<lparr>gd_runtime := (gd_runtime db)\<lparr>rt_Networks := nr_next nr\<rparr>\<rparr>)))"

text \<open>\<open>Reconcile\<close> of the coordinator; \<open>readFault\<close> is a failing read of the state.\<close>

definition reconcile_networks ::
    "(string \<Rightarrow> get_error + network) \<Rightarrow> (network \<Rightarrow> string + string) \<Rightarrow> gitops_error option \<Rightarrow> gitops_error option \<Rightarrow>
     string \<Rightarrow> gotime \<Rightarrow> network_spec list \<Rightarrow> gitops_db \<Rightarrow> gitops_error option \<times> gitops_db" where
  "reconcile_networks get create readFault fault commit now networks db =
     (if networks = [] then runtime_update fault (\<lambda>rt. rt\<lparr>rt_Networks := fmempty\<rparr>) db
      else case readFault of
             Some e \<Rightarrow> (Some e, db)
           | None \<Rightarrow>
               let nr = network_rounds get create (gd_runtime db) commit now networks
               in case persist_networks fault nr db of
                    (persistErr, db') \<Rightarrow>
                      (if nr_errs nr = [] \<and> persistErr = None then None
                       else Some (NetworkErrors (nr_errs nr) persistErr), db'))"

section \<open>What a round leaves behind\<close>

abbreviation empty_round :: network_round where
  "empty_round \<equiv> \<lparr>nr_next = fmempty, nr_errs = [], nr_created = []\<rparr>"

definition network_outcome where
  "network_outcome get create rt commit now cfg =
     (case syncedNetwork rt (ns_Name cfg) commit of
        Some previous \<Rightarrow> (previous, None, None)
      | None \<Rightarrow> reconcileNetwork get create commit now cfg)"

lemma network_step_outcome:
  "network_step get create rt commit now cfg nr =
     (case network_outcome get create rt commit now cfg of
        (st, created, err) \<Rightarrow>
          nr\<lparr>nr_next := fmupd (ns_Name cfg) st (nr_next nr),
             nr_created := nr_created nr @ (case created of None \<Rightarrow> [] | Some e \<Rightarrow> [e]),
             nr_errs := nr_errs nr @ (case err of None \<Rightarrow> [] | Some e \<Rightarrow> [(ns_Name cfg, e)])\<rparr>)"
  by (auto simp: network_step_def network_outcome_def split: option.splits)

lemma network_fold:
  fixes nr :: network_round
  assumes "distinct (map ns_Name networks)" "out = network_outcome get create rt commit now"
  shows "nr_errs (fold (network_step get create rt commit now) networks nr) =
      nr_errs nr @ concat (map (\<lambda>c. case snd (snd (out c)) of None \<Rightarrow> [] | Some e \<Rightarrow> [(ns_Name c, e)]) networks) \<and>
    nr_created (fold (network_step get create rt commit now) networks nr) =
      nr_created nr @ concat (map (\<lambda>c. case fst (snd (out c)) of None \<Rightarrow> [] | Some e \<Rightarrow> [e]) networks) \<and>
    fmlookup (nr_next (fold (network_step get create rt commit now) networks nr)) n =
      (case find (\<lambda>c. ns_Name c = n) networks of None \<Rightarrow> fmlookup (nr_next nr) n | Some c \<Rightarrow> Some (fst (out c)))"
  using assms(1)
proof (induction networks arbitrary: nr)
  case (Cons c networks)
  have none: "find (\<lambda>c. ns_Name c = n) networks = None" if "ns_Name c = n"
    using that Cons.prems by (simp add: find_None_iff) (metis image_eqI)
  obtain st created err where o: "out c = (st, created, err)" by (metis surj_pair)
  have step: "network_step get create rt commit now c nr =
      nr\<lparr>nr_next := fmupd (ns_Name c) st (nr_next nr),
         nr_created := nr_created nr @ (case created of None \<Rightarrow> [] | Some e \<Rightarrow> [e]),
         nr_errs := nr_errs nr @ (case err of None \<Rightarrow> [] | Some e \<Rightarrow> [(ns_Name c, e)])\<rparr>"
    using o assms(2) by (simp add: network_step_outcome)
  have dist: "distinct (map ns_Name networks)" using Cons.prems by simp
  show ?case using Cons.IH [OF dist, of "network_step get create rt commit now c nr"] o none
    by (simp add: step split: option.splits)
qed simp

lemma reconcileNetwork_status:
  assumes "reconcileNetwork get create commit now cfg = (st, created, err)"
  shows "net_LastCommit st = commit" "net_Driver st = ns_Driver cfg" "net_LastStatus st = NetFailed \<longleftrightarrow> err \<noteq> None"
    and "created = Some e \<Longrightarrow> err = None \<and> get (ns_Name cfg) = Inl ErrNetworkNotFound \<and>
      (\<exists>nid. e = NetworkCreated (ns_Name cfg) nid (ns_Driver cfg))"
  using assms
  by (auto simp: reconcileNetwork_def reconcile_def Let_def split: sum.splits prod.splits option.splits get_error.splits if_splits)

lemma network_outcome_status:
  assumes "network_outcome get create rt commit now cfg = (st, created, err)"
  shows "net_LastCommit st = commit \<and> (net_LastStatus st = NetFailed \<longleftrightarrow> err \<noteq> None)"
proof (cases "syncedNetwork rt (ns_Name cfg) commit")
  case None
  then have "reconcileNetwork get create commit now cfg = (st, created, err)" using assms by (simp add: network_outcome_def)
  then show ?thesis using reconcileNetwork_status(1,3) by blast
next
  case (Some p)
  then show ?thesis using assms by (auto simp: network_outcome_def syncedNetwork_def split: option.splits if_splits)
qed

lemma reconcile_networks_inv:
  assumes "pull_inv db"
  shows "pull_inv (snd (reconcile_networks get create rf fault commit now networks db))"
proof (cases "networks = [] \<or> rf \<noteq> None")
  case True
  then show ?thesis
    using assms pull_inv_update [OF assms, of "\<lambda>rt. rt\<lparr>rt_Networks := fmempty\<rparr>" fault]
    by (auto simp: reconcile_networks_def)
next
  case False
  let ?nr = "network_rounds get create (gd_runtime db) commit now networks"
  have step: "list_all pull_neutral (nr_created (network_step get create rt commit now cfg nr))"
    if "list_all pull_neutral (nr_created nr)" for rt cfg nr
    using that by (auto simp: network_step_def split: option.splits prod.splits dest!: reconcileNetwork_status(4) [OF _ refl])
  have "list_all pull_neutral (nr_created (fold (network_step get create rt commit now) cfgs nr))"
    if "list_all pull_neutral (nr_created nr)" for rt cfgs nr
    using that by (induction cfgs arbitrary: nr) (auto simp: step)
  then have "list_all pull_neutral (nr_created ?nr)" by (simp add: network_rounds_def)
  then have "pull_inv (publish_all (nr_created ?nr) (db\<lparr>gd_runtime := (gd_runtime db)\<lparr>rt_Networks := nr_next ?nr\<rparr>\<rparr>))"
    using assms by (intro pull_inv_publish) (simp_all add: pull_inv_def list_all_iff)
  then show ?thesis
    using False assms by (auto simp: reconcile_networks_def persist_networks_def within_tx_def Let_def split: option.splits)
qed

text \<open>The result of a whole round, by network name.\<close>

definition network_named :: "network_spec list \<Rightarrow> string \<Rightarrow> network_spec option" where
  "network_named networks k = find (\<lambda>c. ns_Name c = k) networks"

lemma network_named_Some: "network_named networks k = Some c \<Longrightarrow> c \<in> set networks \<and> ns_Name c = k"
  by (auto simp: network_named_def find_Some_iff)

lemma network_named_None: "network_named networks k = None \<longleftrightarrow> k \<notin> ns_Name ` set networks"
  by (auto simp: network_named_def find_None_iff)

lemma network_rounds_result:
  assumes "distinct (map ns_Name networks)" "out = network_outcome get create rt commit now"
    "nr = network_rounds get create rt commit now networks"
  shows "nr_errs nr = concat (map (\<lambda>c. case snd (snd (out c)) of None \<Rightarrow> [] | Some e \<Rightarrow> [(ns_Name c, e)]) networks)"
    and "nr_created nr = concat (map (\<lambda>c. case fst (snd (out c)) of None \<Rightarrow> [] | Some e \<Rightarrow> [e]) networks)"
    and "fmlookup (nr_next nr) k = map_option (\<lambda>c. fst (out c)) (network_named networks k)"
  using network_fold [OF assms(1,2), of empty_round] unfolding assms(3) network_rounds_def network_named_def
  by (auto split: option.splits)

lemma network_round_good:
  assumes "distinct (map ns_Name networks)" "nr = network_rounds get create rt commit now networks" "nr_errs nr = []"
    and "fmlookup (nr_next nr) k = Some st"
  shows "net_LastCommit st = commit \<and> net_LastStatus st \<noteq> NetFailed"
proof -
  let ?out = "network_outcome get create rt commit now"
  note res = network_rounds_result [OF assms(1) refl assms(2)]
  obtain c where c: "network_named networks k = Some c" "st = fst (?out c)" using assms(4) res(3) by auto
  obtain created err where o: "?out c = (st, created, err)" using c(2) by (metis prod.collapse)
  have "err = None"
    using assms(3) network_named_Some [OF c(1)] o unfolding res(1) by (auto split: option.splits)
  then show ?thesis using network_outcome_status [OF o] by simp
qed

lemma network_round_created:
  assumes "distinct (map ns_Name networks)" "nr = network_rounds get create rt commit now networks" "e \<in> set (nr_created nr)"
  shows "\<exists>name nid driver. e = NetworkCreated name nid driver \<and> get name = Inl ErrNetworkNotFound"
proof -
  let ?out = "network_outcome get create rt commit now"
  obtain c where c: "fst (snd (?out c)) = Some e"
    using assms(3) unfolding network_rounds_result(2) [OF assms(1) refl assms(2)] by (auto split: option.splits)
  then have "?out c = reconcileNetwork get create commit now c" by (auto simp: network_outcome_def split: option.splits)
  then have "reconcileNetwork get create commit now c = (fst (?out c), Some e, snd (snd (?out c)))"
    using c by (metis prod.collapse)
  from reconcileNetwork_status(4) [OF this refl] show ?thesis by blast
qed

lemma network_round_again:
  assumes "distinct (map ns_Name networks)"
    and "\<And>k. (fmlookup (rt_Networks rt) k = None) = (network_named networks k = None)"
    and "\<And>k st. fmlookup (rt_Networks rt) k = Some st \<Longrightarrow> net_LastCommit st = commit \<and> net_LastStatus st \<noteq> NetFailed"
  shows "network_rounds get create rt commit now networks = \<lparr>nr_next = rt_Networks rt, nr_errs = [], nr_created = []\<rparr>"
proof -
  let ?out = "network_outcome get create rt commit now" and ?nr = "network_rounds get create rt commit now networks"
  note res = network_rounds_result [OF assms(1) refl refl]
  have out: "?out c = (the (fmlookup (rt_Networks rt) (ns_Name c)), None, None)" if "c \<in> set networks" for c
  proof -
    have "network_named networks (ns_Name c) \<noteq> None" using that by (simp add: network_named_None)
    then obtain st where st: "fmlookup (rt_Networks rt) (ns_Name c) = Some st" using assms(2) [of "ns_Name c"] by auto
    then show ?thesis using assms(3) [OF st]
      by (cases "net_LastStatus st") (simp_all add: network_outcome_def syncedNetwork_def)
  qed
  then have "nr_errs ?nr = []" "nr_created ?nr = []" by (simp_all add: res(1,2))
  moreover have "nr_next ?nr = rt_Networks rt"
  proof (rule fmap_ext)
    fix k show "fmlookup (nr_next ?nr) k = fmlookup (rt_Networks rt) k"
    proof (cases "network_named networks k")
      case (Some c)
      then have "fmlookup (rt_Networks rt) k \<noteq> None" using assms(2) by simp
      then show ?thesis using Some out network_named_Some [OF Some] by (auto simp: res(3))
    next
      case None
      then show ?thesis using assms(2) [of k] by (simp add: res(3))
    qed
  qed
  ultimately show ?thesis by (cases ?nr) simp
qed

section \<open>Properties\<close>

text \<open>
  C34. When a network reconciliation reports success, the stored state names exactly the configured
  networks, each reconciled at this commit; a creation is reported only for a network that did not
  exist; and reconciling the same configuration at the same commit again succeeds without looking at
  or creating anything, whatever the Swarm API would answer.
\<close>

theorem networks_reconciled:
  assumes "reconcile_networks get create None None commit now networks db = (None, db')"
    and "distinct (map ns_Name networks)"
  shows "(fmlookup (rt_Networks (gd_runtime db')) n \<noteq> None) = (n \<in> ns_Name ` set networks) \<and>
    pred_option (\<lambda>st. net_LastCommit st = commit \<and> net_LastStatus st \<noteq> NetFailed)
      (fmlookup (rt_Networks (gd_runtime db')) n) \<and>
    (\<exists>evs. gd_events db' = gd_events db @ evs \<and>
       list_all (\<lambda>e. case e of NetworkCreated name nid driver \<Rightarrow> get name = Inl ErrNetworkNotFound | _ \<Rightarrow> False) evs) \<and>
    reconcile_networks get2 create2 None None commit now2 networks db' = (None, db')"
proof (cases "networks = []")
  case True
  then show ?thesis using assms(1) by (auto simp: reconcile_networks_def runtime_update_eq)
next
  case False
  define nr where "nr = network_rounds get create (gd_runtime db) commit now networks"
  have ok: "nr_errs nr = []" and db': "db' = publish_all (nr_created nr) (db\<lparr>gd_runtime := (gd_runtime db)\<lparr>rt_Networks := nr_next nr\<rparr>\<rparr>)"
    using assms(1) False
    by (auto simp: nr_def reconcile_networks_def persist_networks_def within_tx_def Let_def split: if_splits)
  have nets: "rt_Networks (gd_runtime db') = nr_next nr" using db' by (simp add: publish_all_def)
  have good: "net_LastCommit st = commit \<and> net_LastStatus st \<noteq> NetFailed" if "fmlookup (nr_next nr) k = Some st" for k st
    using network_round_good [OF assms(2) nr_def ok that] .
  have dom: "(fmlookup (nr_next nr) k = None) = (network_named networks k = None)" for k
    using network_rounds_result(3) [OF assms(2) refl nr_def] by simp
  have "network_rounds get2 create2 (gd_runtime db') commit now2 networks = \<lparr>nr_next = nr_next nr, nr_errs = [], nr_created = []\<rparr>"
    using network_round_again [OF assms(2), of "gd_runtime db'" commit] dom good unfolding nets by blast
  then have "reconcile_networks get2 create2 None None commit now2 networks db' = (None, db')"
    using False nets by (simp add: reconcile_networks_def persist_networks_def within_tx_def publish_all_def)
  moreover have "list_all (\<lambda>e. case e of NetworkCreated name nid driver \<Rightarrow> get name = Inl ErrNetworkNotFound | _ \<Rightarrow> False) (nr_created nr)"
    using network_round_created [OF assms(2) nr_def] by (fastforce simp: list_all_iff)
  moreover have "pred_option (\<lambda>st. net_LastCommit st = commit \<and> net_LastStatus st \<noteq> NetFailed) (fmlookup (nr_next nr) n)"
    using good by (cases "fmlookup (nr_next nr) n") auto
  ultimately show ?thesis using dom db' by (auto simp: nets network_named_None publish_all_def)
qed

definition sample_network :: network_spec where
  "sample_network =
     \<lparr>ns_Name = ''edge'', ns_Driver = ''overlay'', ns_Attachable = True, ns_Internal = False,
      ns_Labels = fmempty, ns_Options = fmempty\<rparr>"

definition sample_round :: "gitops_error option \<times> gitops_db" where
  "sample_round =
     reconcile_networks (\<lambda>_. Inl ErrNetworkNotFound) (\<lambda>_. Inr ''n1'') None None ''c1'' 7 [sample_network]
       \<lparr>gd_runtime = empty_runtime, gd_events = []\<rparr>"

lemma sample_round_ok: "fst sample_round = None \<and> gd_events (snd sample_round) = [NetworkCreated ''edge'' ''n1'' ''overlay'']"
  by code_simp

theorem networks_reconciled_witness:
  "fmlookup (rt_Networks (gd_runtime (snd sample_round))) ''edge'' \<noteq> None \<and>
   reconcile_networks (\<lambda>_. Inl (GetError ''down'')) (\<lambda>_. Inl ''down'') None None ''c1'' 8 [sample_network] (snd sample_round) =
     (None, snd sample_round)"
proof -
  have "sample_round = (None, snd sample_round)" using sample_round_ok by (metis prod.collapse)
  then have run: "reconcile_networks (\<lambda>_. Inl ErrNetworkNotFound) (\<lambda>_. Inr ''n1'') None None ''c1'' 7 [sample_network]
      \<lparr>gd_runtime = empty_runtime, gd_events = []\<rparr> = (None, snd sample_round)"
    by (simp add: sample_round_def)
  have "ns_Name sample_network = ''edge''" by (simp add: sample_network_def)
  then show ?thesis
    using networks_reconciled [OF run, of "''edge''" "\<lambda>_. Inl (GetError ''down'')" "\<lambda>_. Inl ''down''" 8] by simp
qed

end
