(* ===== verification/SyncRun.thy ===== *)
theory SyncRun
  imports NetworkLoop StackPlan StackQueue
begin

text \<open>
  Synchronization runs (\<open>internal/modules/gitops/controller/syncrun/runner.go\<close>): polling, complete
  runs and scheduled cleanup over the stack queue, the configuration store and the runtime state.

  A run is one definition per method over the record \<open>sync\<close>. Workers and a shutdown act on the queue
  while a run is under way; what they do between the queue calls of the run is the pair of lists
  \<open>en_Meanwhile\<close> of the environment: workers that look for an operation, operations that end and a
  stop, in any order and number. (Cleanups come from the caller of the run.) The record \<open>sync_env\<close>
  also holds the answers of the parties outside: the Git remote, the configuration files,
  the diff, the Swarm API, and the faults of the database.
\<close>

section \<open>State\<close>

record dispatch =
  dp_commit :: string
  dp_stacks :: "stack_spec list"

record task =
  tk_TriggeredBy :: string
  tk_Reason :: trigger_reason

record sync =
  sy_queue :: queue
  sy_lastDispatch :: "dispatch option"
  sy_config :: config_store
  sy_db :: gitops_db

datatype interference = Takes | Finishes string | Stops

record sync_env =
  en_ParseScheme :: "string \<Rightarrow> string option"
  en_Puller :: puller
  en_Pull :: "git_error + pull_result"
  en_Head :: "gitops_error + string"
  en_Loaded :: "gitops_error + stack_spec list \<times> network_spec list \<times> bool"
  en_Diff :: "string \<Rightarrow> string \<Rightarrow> string + commit_file_diff list"
  en_Get :: "string \<Rightarrow> get_error + network"
  en_Create :: "network \<Rightarrow> string + string"
  en_ObserveFault :: "gitops_error option"
  en_ManualFault :: "gitops_error option"
  en_ReloadFault :: "gitops_error option"
  en_NetworkReadFault :: "gitops_error option"
  en_NetworkFault :: "gitops_error option"
  en_StateFault :: "gitops_error option"
  en_PollFault :: "gitops_error option"
  en_Meanwhile :: "interference list \<times> interference list"
  en_Now :: gotime

section \<open>Operations\<close>

text \<open>What other goroutines do to the paused queue.\<close>

fun interfere :: "interference \<Rightarrow> queue \<Rightarrow> queue" where
  "interfere (Finishes name) q = (if isRunning q name then finish name q else q)"
| "interfere Takes q = (case next_operation q of Taken name op q' \<Rightarrow> q' | _ \<Rightarrow> q)"
| "interfere Stops q = q_stop q"

definition interferences :: "interference list \<Rightarrow> queue \<Rightarrow> queue" where
  "interferences = fold interfere"

definition publishManualSync :: "sync_env \<Rightarrow> task \<Rightarrow> gitops_db \<Rightarrow> gitops_error option \<times> gitops_db" where
  "publishManualSync env t =
     (if tk_Reason t \<noteq> TriggerManual then (\<lambda>db. (None, db))
      else within_tx (en_ManualFault env) (\<lambda>db. (None, publish_all [SyncManualStarted (tk_TriggeredBy t)] db)))"

definition resolveGitState ::
    "sync_env \<Rightarrow> trigger_reason \<Rightarrow> pull_result option \<Rightarrow> gitops_db \<Rightarrow> (gitops_error + pull_result) \<times> gitops_db" where
  "resolveGitState env reason gitResult db =
     (case gitResult of
        Some r \<Rightarrow> (Inr r, db)
      | None \<Rightarrow>
          if reason = TriggerInterval
          then (case en_Head env of
                  Inl e \<Rightarrow> (Inl e, db)
                | Inr revision \<Rightarrow>
                    (Inr \<lparr>pull_OldRevision = revision, pull_NewRevision = revision, pull_Updated = False\<rparr>, db))
          else pull (en_ParseScheme env) (en_ObserveFault env) (en_Puller env) (en_Pull env) reason db)"

definition failed_sync :: "sync_env \<Rightarrow> trigger_reason \<Rightarrow> gitops_error \<Rightarrow> runtime \<Rightarrow> runtime" where
  "failed_sync env reason e rt =
     rt\<lparr>rt_LastSyncAt := en_Now env, rt_LastSyncReason := Some reason,
        rt_LastSyncResult := Some SyncError, rt_LastSyncError := Some e\<rparr>"

definition succeeded_sync :: "sync_env \<Rightarrow> trigger_reason \<Rightarrow> string \<Rightarrow> runtime \<Rightarrow> runtime" where
  "succeeded_sync env reason revision rt =
     rt\<lparr>rt_LastSyncAt := en_Now env, rt_LastSyncReason := Some reason,
        rt_LastSyncResult := Some SyncSuccess, rt_LastSyncError := None, rt_GitRevision := revision\<rparr>"

text \<open>\<open>updateState\<close>: an error is logged.\<close>

definition update_state :: "gitops_error option \<Rightarrow> (runtime \<Rightarrow> runtime) \<Rightarrow> sync \<Rightarrow> sync" where
  "update_state fault f s = s\<lparr>sy_db := snd (runtime_update fault f (sy_db s))\<rparr>"

definition finishStageFailure :: "sync_env \<Rightarrow> trigger_reason \<Rightarrow> gitops_error \<Rightarrow> sync \<Rightarrow> sync" where
  "finishStageFailure env reason e = update_state (en_StateFault env) (failed_sync env reason e)"

definition updatePollState :: "sync_env \<Rightarrow> poll_result \<Rightarrow> gitops_error option \<Rightarrow> sync \<Rightarrow> sync" where
  "updatePollState env result e =
     update_state (en_PollFault env)
       (\<lambda>rt. rt\<lparr>rt_LastPollAt := en_Now env, rt_LastPollResult := Some result, rt_LastPollError := e\<rparr>)"

definition stack_request :: "string \<Rightarrow> trigger_reason \<Rightarrow> stack_spec \<Rightarrow> reconciliation_request" where
  "stack_request commit reason stack =
     \<lparr>req_Stack = stack, req_Commit = commit, req_IsManual = (reason = TriggerManual)\<rparr>"

definition changed_stacks :: "'e stack_plan \<Rightarrow> (string, bool) gomap" where
  "changed_stacks p = (case plan_Changed p of None \<Rightarrow> fmempty | Some m \<Rightarrow> m)"

definition dispatchStacks ::
    "'e stack_plan \<Rightarrow> string \<Rightarrow> trigger_reason \<Rightarrow> sync \<Rightarrow> gitops_error option \<times> sync" where
  "dispatchStacks p commit reason s =
     (case q_replace (map (stack_request commit reason) (plan_Stacks p)) (changed_stacks p) (sy_queue s) of
        (q, dropped, accepted) \<Rightarrow>
          if \<not> accepted then (Some QueueStopped, s\<lparr>sy_queue := q\<rparr>)
          else (None, s\<lparr>sy_queue := q, sy_lastDispatch := Some \<lparr>dp_commit = commit, dp_stacks = plan_Stacks p\<rparr>\<rparr>))"

text \<open>The part of \<open>run\<close> after an accepted configuration.\<close>

definition run_accepted :: "sync_env \<Rightarrow> trigger_reason \<Rightarrow> pull_result \<Rightarrow> sync \<Rightarrow> sync" where
  "run_accepted env reason git s =
     (let commit = pull_NewRevision git;
          p = StackPlan.plan (en_Diff env) (cs_Stacks (sy_config s)) git;
          (netErr, db) = reconcile_networks (en_Get env) (en_Create env) (en_NetworkReadFault env)
            (en_NetworkFault env) commit (en_Now env) (cs_Networks (sy_config s)) (sy_db s);
          s1 = s\<lparr>sy_db := db, sy_queue := interferences (fst (en_Meanwhile env)) (sy_queue s)\<rparr>
      in case netErr of
           Some e \<Rightarrow>
             finishStageFailure env reason e
               (s1\<lparr>sy_queue := fst (q_clear (changed_stacks p) (sy_queue s1))\<rparr>)
         | None \<Rightarrow>
             (case dispatchStacks p commit reason s1 of
                (Some e, s2) \<Rightarrow> finishStageFailure env reason e s2
              | (None, s2) \<Rightarrow> update_state (en_StateFault env) (succeeded_sync env reason commit) s2))"

text \<open>The part of \<open>run\<close> between \<open>Pause\<close> and the deferred \<open>Resume\<close>; \<open>invalidateDispatch\<close> follows the reload.\<close>

definition run_paused :: "sync_env \<Rightarrow> trigger_reason \<Rightarrow> pull_result \<Rightarrow> sync \<Rightarrow> sync" where
  "run_paused env reason git s =
     (case reload (en_ReloadFault env) (en_Loaded env) (sy_config s) (sy_db s) of
        (Some e, _, _) \<Rightarrow> finishStageFailure env reason e s
      | (None, cs, db) \<Rightarrow>
          run_accepted env reason git (s\<lparr>sy_config := cs, sy_db := db, sy_lastDispatch := None\<rparr>))"

definition resume_queue :: "sync_env \<Rightarrow> sync \<Rightarrow> sync" where
  "resume_queue env s = s\<lparr>sy_queue := q_resume (interferences (snd (en_Meanwhile env)) (sy_queue s))\<rparr>"

definition run :: "sync_env \<Rightarrow> task \<Rightarrow> pull_result option \<Rightarrow> sync \<Rightarrow> sync" where
  "run env t gitResult s =
     (case publishManualSync env t (sy_db s) of
        (Some e, db) \<Rightarrow> s\<lparr>sy_db := db\<rparr>
      | (None, db) \<Rightarrow>
          (case resolveGitState env (tk_Reason t) gitResult db of
             (Inl e, db1) \<Rightarrow>
               update_state (en_StateFault env) (failed_sync env (tk_Reason t) e) (s\<lparr>sy_db := db1\<rparr>)
           | (Inr git, db1) \<Rightarrow>
               (case q_pause (sy_queue s) of
                  (q, paused) \<Rightarrow>
                    let s1 = s\<lparr>sy_db := db1, sy_queue := q\<rparr>
                    in if \<not> paused then finishStageFailure env (tk_Reason t) QueueStopped s1
                       else resume_queue env (run_paused env (tk_Reason t) git s1))))"

definition poll :: "sync_env \<Rightarrow> sync \<Rightarrow> sync" where
  "poll env s =
     (case pull (en_ParseScheme env) (en_ObserveFault env) (en_Puller env) (en_Pull env) TriggerPoll (sy_db s) of
        (Inl e, db) \<Rightarrow> updatePollState env PollError (Some e) (s\<lparr>sy_db := db\<rparr>)
      | (Inr git, db) \<Rightarrow>
          let s1 = updatePollState env (if pull_Updated git then PollUpdated else PollNoChange) None (s\<lparr>sy_db := db\<rparr>)
          in if pull_Updated git then run env \<lparr>tk_TriggeredBy = '''', tk_Reason = TriggerPoll\<rparr> (Some git) s1 else s1)"

definition cleanup :: "sync \<Rightarrow> sync" where
  "cleanup s =
     (case sy_lastDispatch s of
        None \<Rightarrow> s
      | Some latest \<Rightarrow>
          s\<lparr>sy_queue := fold (\<lambda>stack q. fst (submitCleanup stack (dp_commit latest) q)) (dp_stacks latest) (sy_queue s)\<rparr>)"

section \<open>The queue as the runner uses it\<close>

text \<open>
  What a run relies on: the work waiting after an accepted replacement was requested by it, a refused
  one leaves nothing waiting, and whatever workers and a shutdown do meanwhile adds no work.
\<close>

definition work_of :: "reconciliation_request \<Rightarrow> stack_spec \<times> string" where
  "work_of r = (req_Stack r, req_Commit r)"

locale dispatch_queue =
  fixes inv :: "'q \<Rightarrow> bool" and waiting :: "'q \<Rightarrow> (stack_spec \<times> string) set" and paused :: "'q \<Rightarrow> bool"
    and replace :: "reconciliation_request list \<Rightarrow> (string, bool) gomap \<Rightarrow> 'q \<Rightarrow> 'q \<times> string list \<times> bool"
    and clear :: "(string, bool) gomap \<Rightarrow> 'q \<Rightarrow> 'q \<times> string list"
    and resume :: "'q \<Rightarrow> 'q" and meanwhile :: "'a \<Rightarrow> 'q \<Rightarrow> 'q"
  assumes meanwhile_inv: "inv q \<Longrightarrow> paused q \<Longrightarrow> inv (meanwhile a q) \<and> paused (meanwhile a q)"
    and meanwhile_waiting: "inv q \<Longrightarrow> paused q \<Longrightarrow> waiting (meanwhile a q) \<subseteq> waiting q"
    and replace_inv: "inv q \<Longrightarrow> replace rs ch q = (q', dropped, ok) \<Longrightarrow> inv q' \<and> paused q' = paused q"
    and replace_accepted: "inv q \<Longrightarrow> replace rs ch q = (q', dropped, True) \<Longrightarrow> waiting q' \<subseteq> work_of ` set rs"
    and replace_refused: "inv q \<Longrightarrow> replace rs ch q = (q', dropped, False) \<Longrightarrow> waiting q' = {}"
    and clear_inv: "inv q \<Longrightarrow> inv (fst (clear ch q)) \<and> paused (fst (clear ch q)) = paused q"
    and clear_waiting: "inv q \<Longrightarrow> waiting (fst (clear ch q)) = {}"
    and resume_inv: "inv q \<Longrightarrow> inv (resume q) \<and> \<not> paused (resume q)"
    and resume_waiting: "waiting (resume q) = waiting q"
begin

lemma fold_meanwhile:
  "inv q \<Longrightarrow> paused q \<Longrightarrow>
     inv (fold meanwhile as q) \<and> paused (fold meanwhile as q) \<and> waiting (fold meanwhile as q) \<subseteq> waiting q"
proof (induction as arbitrary: q)
  case (Cons a as)
  then show ?case
    using meanwhile_inv [of q a] meanwhile_waiting [of q a] Cons.IH [of "meanwhile a q"] by auto
qed simp

text \<open>After the deferred resume: no more work than before, and the queue runs again.\<close>

lemma resumed:
  assumes "inv q" "paused q"
  shows "inv (resume (fold meanwhile as q)) \<and> \<not> paused (resume (fold meanwhile as q)) \<and>
    waiting (resume (fold meanwhile as q)) \<subseteq> waiting q"
  using fold_meanwhile [OF assms] resume_inv resume_waiting by simp

text \<open>The three ways in which a run that accepted a configuration leaves the queue.\<close>

lemma replaced:
  assumes "inv q" "paused q" "replace rs ch (fold meanwhile as q) = (q', dropped, ok)"
  shows "inv q' \<and> paused q' \<and> waiting q' \<subseteq> (if ok then work_of ` set rs else {})"
proof -
  have q: "inv (fold meanwhile as q)" "paused (fold meanwhile as q)" using fold_meanwhile [OF assms(1,2)] by auto
  then show ?thesis
    using replace_inv [OF q(1) assms(3)] replace_accepted [OF q(1)] replace_refused [OF q(1)] assms(3)
    by (cases ok) auto
qed

lemma cleared:
  assumes "inv q" "paused q" "q' = fst (clear ch (fold meanwhile as q))"
  shows "inv q' \<and> paused q' \<and> waiting q' = {}"
  using fold_meanwhile [OF assms(1,2)] clear_inv clear_waiting assms(3) by simp

end

definition waiting_work :: "queue \<Rightarrow> (stack_spec \<times> string) set" where
  "waiting_work q = (\<lambda>op. work_of (op_request op)) ` fmran' (q_pending q)"

lemma waiting_work_iff:
  "w \<in> waiting_work q \<longleftrightarrow> (\<exists>n op. fmlookup (q_pending q) n = Some op \<and> w = work_of (op_request op))"
  unfolding waiting_work_def by (auto simp: fmran'I elim!: fmran'E)

lemma waiting_work_cong: "q_pending q = q_pending q' \<Longrightarrow> waiting_work q = waiting_work q'"
  by (simp add: waiting_work_def)

lemma waiting_work_mono: "q_pending q' = fmdrop n (q_pending q) \<Longrightarrow> waiting_work q' \<subseteq> waiting_work q"
  by (fastforce simp: waiting_work_iff split: if_splits)

lemma waiting_work_empty: "q_pending q = fmempty \<Longrightarrow> waiting_work q = {}"
  by (auto simp: waiting_work_iff)

lemma replace_operation_work [simp]: "work_of (op_request (replace_operation c r q)) = work_of r"
  by (auto simp: replace_operation_def work_of_def Let_def split: option.splits)

lemma fold_replace_one_origin:
  "fmlookup (q_pending (fold (replace_one c) rs q)) n = Some op \<Longrightarrow>
     work_of (op_request op) \<in> work_of ` set rs \<or> (n \<notin> request_name ` set rs \<and> fmlookup (q_pending q) n = Some op)"
proof (induction rs arbitrary: q)
  case (Cons r rs)
  from Cons.IH [of "replace_one c r q"] Cons.prems
  consider "work_of (op_request op) \<in> work_of ` set rs"
    | "n \<notin> request_name ` set rs" "fmlookup (q_pending (replace_one c r q)) n = Some op" by auto
  then show ?case
    by cases (auto simp: replace_one_def Let_def split: if_splits)
qed simp

lemma q_replace_work:
  assumes "queue_inv q" "\<not> q_stopped q"
  shows "waiting_work (fst (q_replace rs c q)) \<subseteq> work_of ` set rs"
proof
  fix w assume "w \<in> waiting_work (fst (q_replace rs c q))"
  then obtain n op where "fmlookup (q_pending (fst (q_replace rs c q))) n = Some op" "w = work_of (op_request op)"
    by (auto simp: waiting_work_iff)
  then show "w \<in> work_of ` set rs"
    using fold_replace_one_origin [of c rs _ n op]
    by (fastforce simp: q_replace_eq [OF assms] Let_def split: if_splits)
qed

lemma interfere_inv: "queue_inv q \<Longrightarrow> queue_inv (interfere a q)"
  by (cases a) (auto simp: isRunning_def intro: finish_inv q_stop_inv next_operation_inv split: next_result.splits)

lemma interfere_paused: "q_paused q \<Longrightarrow> q_paused (interfere a q) \<and> waiting_work (interfere a q) \<subseteq> waiting_work q"
  by (cases a) (auto simp: next_operation_def waiting_work_def q_stop_def)

lemma q_clear_pending: "q_pending (fst (q_clear c q)) = fmempty"
  by (auto simp: q_clear_def dropLocked_def Let_def intro!: fmap_ext)

interpretation stacks: dispatch_queue queue_inv waiting_work q_paused q_replace q_clear q_resume interfere
proof unfold_locales
  fix q rs ch q' dropped assume q: "queue_inv q" "q_replace rs ch q = (q', dropped, True)"
  then have "\<not> q_stopped q" by (auto simp: q_replace_def)
  with q_replace_work [OF q(1), of rs ch] q(2) show "waiting_work q' \<subseteq> work_of ` set rs" by simp
next
  fix q rs ch q' dropped assume q: "queue_inv q" "q_replace rs ch q = (q', dropped, False)"
  then have "q' = q" "q_stopped q" by (auto simp: q_replace_def Let_def split: if_splits prod.splits)
  with queue_inv_parts(1) [OF q(1)] show "waiting_work q' = {}" by (simp add: work_inv_def waiting_work_empty)
next
  fix q rs ch q' dropped ok assume "queue_inv q" "q_replace rs ch q = (q', dropped, ok)"
  then show "queue_inv q' \<and> q_paused q' = q_paused q"
    using q_replace_inv [of q rs ch] q_replace_fields(5) [of rs ch q] by simp
qed (simp_all add: interfere_inv interfere_paused q_clear_inv q_clear_pending q_resume_inv waiting_work_empty, simp_all add: q_resume_def waiting_work_def)

end
