(* ===== verification/SyncSafety.thy ===== *)
theory SyncSafety
  imports SyncRun
begin

text \<open>
  What synchronization runs guarantee in every interleaving with the workers: which operations can
  wait and start, what the stored pull state means, and what a run records. The steps are the entry
  points of \<open>syncrun\<close>, the queue methods that workers and the controller call, a write of a stack
  reconciliation or of the deployment projection to its part of the runtime state with the events
  published beside it, and the receipt of a webhook.
\<close>

fun stack_event :: "gitops_event \<Rightarrow> bool" where
  "stack_event (ServiceMissed stack service commit resolved) = True"
| "stack_event (ServiceDrifted stack service commit reason resolved) = True"
| "stack_event (ServiceDriftFixed stack service commit) = True"
| "stack_event (ServicePruned stack service commit) = True"
| "stack_event (DeployPreparationFailed stack commit stage code) = True"
| "stack_event _ = False"

definition stack_write :: "(string, stack_state) gomap \<Rightarrow> gitops_event list \<Rightarrow> gitops_db \<Rightarrow> gitops_db" where
  "stack_write stacks evs db = publish_all evs (db\<lparr>gd_runtime := (gd_runtime db)\<lparr>rt_Stacks := stacks\<rparr>\<rparr>)"

inductive sync_step :: "sync \<Rightarrow> sync \<Rightarrow> bool" where
  run: "sync_step s (run env t None s)"
| poll: "sync_step s (poll env s)"
| cleanup: "sync_step s (cleanup s)"
| start: "sync_step s (s\<lparr>sy_queue := fst (q_start (sy_queue s))\<rparr>)"
| stop: "sync_step s (s\<lparr>sy_queue := q_stop (sy_queue s)\<rparr>)"
| take: "next_operation (sy_queue s) = Taken name op q \<Longrightarrow> sync_step s (s\<lparr>sy_queue := q\<rparr>)"
| finished: "isRunning (sy_queue s) name \<Longrightarrow> sync_step s (s\<lparr>sy_queue := finish name (sy_queue s)\<rparr>)"
| stack_state: "list_all stack_event evs \<Longrightarrow> sync_step s (s\<lparr>sy_db := stack_write stacks evs (sy_db s)\<rparr>)"
| webhook: "sync_step s (s\<lparr>sy_db := publish_all [WebhookReceived queued] (sy_db s)\<rparr>)"

definition sync_init :: "int \<Rightarrow> sync \<Rightarrow> bool" where
  "sync_init parallelism s \<longleftrightarrow>
     sy_queue s = queue_new parallelism \<and> sy_lastDispatch s = None \<and> gd_events (sy_db s) = [] \<and>
     gd_runtime (sy_db s) = empty_runtime"

section \<open>Waiting work belongs to the accepted configuration\<close>

definition dispatched_work :: "sync \<Rightarrow> (stack_spec \<times> string) set" where
  "dispatched_work s =
     (case sy_lastDispatch s of None \<Rightarrow> {} | Some d \<Rightarrow> (\<lambda>stack. (stack, dp_commit d)) ` set (dp_stacks d))"

definition dispatch_current :: "sync \<Rightarrow> bool" where
  "dispatch_current s \<longleftrightarrow>
     (case sy_lastDispatch s of None \<Rightarrow> True | Some d \<Rightarrow> mset (dp_stacks d) = mset (cs_Stacks (sy_config s)))"

definition sync_inv :: "sync \<Rightarrow> bool" where
  "sync_inv s \<longleftrightarrow>
     queue_inv (sy_queue s) \<and> waiting_work (sy_queue s) \<subseteq> dispatched_work s \<and> dispatch_current s"

lemma dispatch_updates [simp]:
  "dispatched_work (s\<lparr>sy_queue := q\<rparr>) = dispatched_work s" "dispatched_work (s\<lparr>sy_db := db\<rparr>) = dispatched_work s"
  "dispatch_current (s\<lparr>sy_queue := q\<rparr>) = dispatch_current s" "dispatch_current (s\<lparr>sy_db := db\<rparr>) = dispatch_current s"
  by (simp_all add: dispatched_work_def dispatch_current_def split: option.splits)

lemma sync_inv_queue:
  assumes "sync_inv s" "queue_inv q" "waiting_work q \<subseteq> waiting_work (sy_queue s)"
  shows "sync_inv (s\<lparr>sy_queue := q\<rparr>)"
  using assms by (auto simp: sync_inv_def)

lemma sync_inv_db [simp]: "sync_inv (s\<lparr>sy_db := db\<rparr>) = sync_inv s"
  by (simp add: sync_inv_def)

lemma update_state_fields [simp]:
  "sy_queue (update_state fault f s) = sy_queue s" "sy_lastDispatch (update_state fault f s) = sy_lastDispatch s"
  "sy_config (update_state fault f s) = sy_config s" "sync_inv (update_state fault f s) = sync_inv s"
  by (simp_all add: update_state_def)

lemma finishStageFailure_fields [simp]:
  "sy_queue (finishStageFailure env r e s) = sy_queue s"
  "sy_lastDispatch (finishStageFailure env r e s) = sy_lastDispatch s"
  "sync_inv (finishStageFailure env r e s) = sync_inv s"
  by (simp_all add: finishStageFailure_def)

lemma work_of_requests: "work_of ` set (map (stack_request commit reason) stacks) = (\<lambda>stack. (stack, commit)) ` set stacks"
  by (force simp: work_of_def stack_request_def)

lemma dispatchStacks_inv:
  assumes "queue_inv (sy_queue s)" "q_paused (sy_queue s)" "sy_lastDispatch s = None"
    and "p = StackPlan.plan diff (cs_Stacks (sy_config s)) git"
    and "dispatchStacks p commit reason (s\<lparr>sy_queue := interferences as (sy_queue s)\<rparr>) = (err, s')"
  shows "sync_inv s' \<and> q_paused (sy_queue s')"
proof -
  obtain q dropped ok where r: "q_replace (map (stack_request commit reason) (plan_Stacks p)) (changed_stacks p)
      (interferences as (sy_queue s)) = (q, dropped, ok)" by (metis prod_cases3)
  note q = stacks.replaced [OF assms(1,2) r [unfolded interferences_def], unfolded work_of_requests]
  show ?thesis
    using assms(3,5) q r plan_mset [of diff "cs_Stacks (sy_config s)" git]
    by (auto simp: dispatchStacks_def sync_inv_def dispatched_work_def dispatch_current_def assms(4)
        split: if_splits)
qed

lemma run_accepted_inv:
  assumes "queue_inv (sy_queue s)" "q_paused (sy_queue s)" "sy_lastDispatch s = None"
  shows "sync_inv (run_accepted env reason git s) \<and> q_paused (sy_queue (run_accepted env reason git s))"
proof -
  let ?p = "StackPlan.plan (en_Diff env) (cs_Stacks (sy_config s)) git" and ?commit = "pull_NewRevision git"
  obtain netErr db where net: "reconcile_networks (en_Get env) (en_Create env) (en_NetworkReadFault env)
      (en_NetworkFault env) ?commit (en_Now env) (cs_Networks (sy_config s)) (sy_db s) = (netErr, db)" by fastforce
  let ?s1 = "s\<lparr>sy_db := db, sy_queue := interferences (fst (en_Meanwhile env)) (sy_queue s)\<rparr>"
  obtain err s2 where d: "dispatchStacks ?p ?commit reason ?s1 = (err, s2)" by fastforce
  show ?thesis
  proof (cases netErr)
    case None
    have "sync_inv s2 \<and> q_paused (sy_queue s2)"
      using dispatchStacks_inv [of "s\<lparr>sy_db := db\<rparr>" ?p "en_Diff env" git ?commit reason] assms d by simp
    then show ?thesis using None by (auto simp: run_accepted_def net d split: option.splits)
  next
    case (Some e)
    have "queue_inv (fst (q_clear (changed_stacks ?p) (sy_queue ?s1))) \<and>
        q_paused (fst (q_clear (changed_stacks ?p) (sy_queue ?s1))) \<and>
        waiting_work (fst (q_clear (changed_stacks ?p) (sy_queue ?s1))) = {}"
      using stacks.cleared [OF assms(1,2)] by (simp add: interferences_def)
    then show ?thesis
      using Some assms(3) by (simp add: run_accepted_def net) (simp add: sync_inv_def dispatch_current_def)
  qed
qed

lemma run_paused_inv:
  assumes "sync_inv s" "q_paused (sy_queue s)"
  shows "sync_inv (run_paused env reason git s) \<and> q_paused (sy_queue (run_paused env reason git s))"
proof (cases "reload (en_ReloadFault env) (en_Loaded env) (sy_config s) (sy_db s)")
  case (fields err cs db)
  have "queue_inv (sy_queue s)" using assms(1) by (simp add: sync_inv_def)
  with run_accepted_inv [of "s\<lparr>sy_config := cs, sy_db := db, sy_lastDispatch := None\<rparr>" env reason git] fields assms
  show ?thesis by (cases err) (simp_all add: run_paused_def)
qed

lemma resume_queue_inv:
  assumes "sync_inv s" "q_paused (sy_queue s)"
  shows "sync_inv (resume_queue env s) \<and> \<not> q_paused (sy_queue (resume_queue env s))"
  using assms stacks.resumed [of "sy_queue s"] sync_inv_queue [OF assms(1)]
  by (simp add: resume_queue_def interferences_def sync_inv_def)

lemma q_pause_work [simp]: "waiting_work (fst (q_pause q)) = waiting_work q"
  by (simp add: q_pause_def waiting_work_def)

lemma run_inv:
  assumes "sync_inv s" "\<not> q_paused (sy_queue s)"
  shows "sync_inv (run env t g s) \<and> \<not> q_paused (sy_queue (run env t g s))"
proof -
  have q: "queue_inv (sy_queue s)" using assms(1) by (simp add: sync_inv_def)
  have paused: "sync_inv (s\<lparr>sy_db := db, sy_queue := q'\<rparr>)" if "q_pause (sy_queue s) = (q', b)" for q' b db
    using sync_inv_queue [of "s\<lparr>sy_db := db\<rparr>" q'] q_pause_inv [OF q] q_pause_work [of "sy_queue s"] assms(1) that by simp
  have now: "b = q_paused q'" if "q_pause (sy_queue s) = (q', b)" for q' b
    using that assms(2) by (auto simp: q_pause_def split: if_splits)
  show ?thesis
    using assms paused now run_paused_inv resume_queue_inv
    by (auto simp: run_def Let_def split: prod.splits option.splits sum.splits)
qed

lemma poll_inv:
  assumes "sync_inv s" "\<not> q_paused (sy_queue s)"
  shows "sync_inv (poll env s) \<and> \<not> q_paused (sy_queue (poll env s))"
  using assms run_inv
  by (auto simp: poll_def updatePollState_def Let_def split: prod.splits sum.splits)

lemma submitCleanup_work: "waiting_work (fst (submitCleanup stack commit q)) \<subseteq> insert (stack, commit) (waiting_work q)"
  by (auto simp: waiting_work_iff submitCleanup_def Let_def work_of_def split: if_splits)

lemma cleanup_fold:
  assumes "queue_inv q" "waiting_work q \<subseteq> (\<lambda>stack. (stack, commit)) ` S" "set stacks \<subseteq> S"
    and "q' = fold (\<lambda>stack q. fst (submitCleanup stack commit q)) stacks q"
  shows "queue_inv q' \<and> q_paused q' = q_paused q \<and> waiting_work q' \<subseteq> (\<lambda>stack. (stack, commit)) ` S"
  using assms
proof (induction stacks arbitrary: q)
  case (Cons stack stacks)
  have "waiting_work (fst (submitCleanup stack commit q)) \<subseteq> (\<lambda>stack. (stack, commit)) ` S"
    using submitCleanup_work [of stack commit q] Cons.prems(2,3) by auto
  with Cons.IH [of "fst (submitCleanup stack commit q)"] Cons.prems show ?case
    by (simp add: submitCleanup_inv)
qed simp

lemma cleanup_inv:
  assumes "sync_inv s"
  shows "sync_inv (cleanup s) \<and> q_paused (sy_queue (cleanup s)) = q_paused (sy_queue s)"
proof (cases "sy_lastDispatch s")
  case (Some d)
  then have "waiting_work (sy_queue s) \<subseteq> (\<lambda>stack. (stack, dp_commit d)) ` set (dp_stacks d)" "queue_inv (sy_queue s)"
    using assms by (auto simp: sync_inv_def dispatched_work_def)
  from cleanup_fold [OF this(2,1) subset_refl refl] assms Some show ?thesis
    by (simp add: cleanup_def sync_inv_def) (simp add: dispatched_work_def)
qed (use assms in \<open>simp add: cleanup_def\<close>)

lemma next_operation_work:
  assumes "queue_inv q" "next_operation q = Taken name op q'"
  shows "queue_inv q'" "q_paused q' = q_paused q" "waiting_work q' \<subseteq> waiting_work q"
    and "fmlookup (q_pending q) name = Some op"
proof -
  show "queue_inv q'" by (rule next_operation_inv [OF assms])
  show "q_paused q' = q_paused q" "waiting_work q' \<subseteq> waiting_work q"
    using assms(2) by (auto simp: next_operation_def Let_def intro!: waiting_work_mono split: if_splits list.splits)
  have "name \<in> set (q_ready q)" using assms(2) by (auto simp: next_operation_def Let_def split: if_splits list.splits)
  then have "has_key (q_pending q) name" using queue_inv_parts(1) [OF assms(1)] by (auto simp: work_inv_def)
  then show "fmlookup (q_pending q) name = Some op"
    using assms(2) by (auto simp: next_operation_def Let_def has_key_def split: if_splits list.splits option.splits)
qed

lemma queue_call_inv:
  assumes "sync_inv s" "\<not> q_paused (sy_queue s)" "queue_inv q" "q_paused q = q_paused (sy_queue s)"
    "waiting_work q \<subseteq> waiting_work (sy_queue s)"
  shows "sync_inv (s\<lparr>sy_queue := q\<rparr>) \<and> \<not> q_paused (sy_queue (s\<lparr>sy_queue := q\<rparr>))"
  using sync_inv_queue [OF assms(1,3,5)] assms(2,4) by simp

lemma q_start_work: "q_paused (fst (q_start q)) = q_paused q" "waiting_work (fst (q_start q)) = waiting_work q"
  by (simp_all add: q_start_def waiting_work_def)

lemma q_stop_work: "waiting_work (q_stop q) = {}"
  by (rule waiting_work_empty) (simp add: q_stop_def)

lemma sync_step_inv:
  assumes "sync_step s t" "sync_inv s" "\<not> q_paused (sy_queue s)"
  shows "sync_inv t \<and> \<not> q_paused (sy_queue t)"
  using assms
proof (induction rule: sync_step.induct)
  case (start s)
  then have "queue_inv (sy_queue s)" by (simp add: sync_inv_def)
  then show ?case by (intro queue_call_inv start q_start_inv) (simp_all add: q_start_work)
next
  case (stop s)
  then have "queue_inv (sy_queue s)" by (simp add: sync_inv_def)
  then show ?case by (intro queue_call_inv stop q_stop_inv) (simp_all add: q_stop_work)
next
  case (take s name op q)
  then have "queue_inv (sy_queue s)" by (simp add: sync_inv_def)
  from next_operation_work [OF this take.hyps] take show ?case by (intro queue_call_inv) simp_all
next
  case (finished s name)
  then have "queue_inv (sy_queue s)" "has_key (q_running (sy_queue s)) name" by (simp_all add: sync_inv_def isRunning_def)
  then show ?case by (intro queue_call_inv finished finish_inv) (simp_all add: waiting_work_def)
qed (simp_all add: run_inv poll_inv cleanup_inv)

lemma sync_init_inv: "sync_init n s \<Longrightarrow> sync_inv s \<and> \<not> q_paused (sy_queue s)"
  using queue_new_inv [of n]
  by (simp add: sync_init_def sync_inv_def dispatch_current_def waiting_work_empty queue_new_def)

interpretation syncs: inductive_invariant "sync_init n" sync_step "\<lambda>s. sync_inv s \<and> \<not> q_paused (sy_queue s)" for n
  by unfold_locales (use sync_init_inv sync_step_inv in blast)+

section \<open>The pull state over all runs\<close>

lemma pull_inv_update_state:
  assumes "pull_inv (sy_db s)" "\<And>rt. rt_GitPullFailure (f rt) = rt_GitPullFailure rt"
  shows "pull_inv (sy_db (update_state fault f s))"
  using pull_inv_update [OF assms] by (simp add: update_state_def)

lemma pull_inv_reload:
  assumes "pull_inv db" "reload fault loaded cs db = (err, cs', db')"
  shows "pull_inv db'"
  using assms(2) pull_inv_publish [OF assms(1), of "[ConfigurationChanged '''' '''']"] assms(1)
  by (auto simp: reload_def Let_def split: sum.splits prod.splits if_splits option.splits)

lemma pull_inv_failure: "pull_inv (sy_db s) \<Longrightarrow> pull_inv (sy_db (finishStageFailure env r e s))"
  unfolding finishStageFailure_def by (rule pull_inv_update_state) (simp_all add: failed_sync_def)

lemma dispatchStacks_db: "sy_db (snd (dispatchStacks p commit reason s)) = sy_db s"
  by (auto simp: dispatchStacks_def split: prod.splits)

lemma pull_inv_run_accepted:
  assumes "pull_inv (sy_db s)"
  shows "pull_inv (sy_db (run_accepted env reason git s))"
proof -
  let ?p = "StackPlan.plan (en_Diff env) (cs_Stacks (sy_config s)) git" and ?commit = "pull_NewRevision git"
  obtain netErr db where net: "reconcile_networks (en_Get env) (en_Create env) (en_NetworkReadFault env)
      (en_NetworkFault env) ?commit (en_Now env) (cs_Networks (sy_config s)) (sy_db s) = (netErr, db)" by fastforce
  have db: "pull_inv db" using reconcile_networks_inv [OF assms] net by (metis snd_conv)
  let ?s1 = "s\<lparr>sy_db := db, sy_queue := interferences (fst (en_Meanwhile env)) (sy_queue s)\<rparr>"
  obtain err s2 where d: "dispatchStacks ?p ?commit reason ?s1 = (err, s2)" by fastforce
  have "pull_inv (sy_db s2)" using dispatchStacks_db [of ?p ?commit reason ?s1] d db by simp
  then have "pull_inv (sy_db (update_state (en_StateFault env) (succeeded_sync env reason ?commit) s2))"
    by (rule pull_inv_update_state) (simp add: succeeded_sync_def)
  then show ?thesis
    using db \<open>pull_inv (sy_db s2)\<close> by (auto simp: run_accepted_def net d Let_def intro!: pull_inv_failure split: option.splits)
qed

lemma pull_inv_run:
  assumes "pull_inv (sy_db s)"
  shows "pull_inv (sy_db (run env t g s))"
proof -
  obtain err db where m: "publishManualSync env t (sy_db s) = (err, db)" by fastforce
  have db: "pull_inv db"
    using assms m pull_inv_publish [OF assms, of "[SyncManualStarted (tk_TriggeredBy t)]"]
    by (auto simp: publishManualSync_def within_tx_def split: if_splits option.splits)
  obtain res db1 where r: "resolveGitState env (tk_Reason t) g db = (res, db1)" by fastforce
  have db1: "pull_inv db1"
    using r db pull_inv_pull [OF db] by (auto simp: resolveGitState_def split: option.splits if_splits sum.splits) (metis snd_conv)
  have paused: "pull_inv (sy_db (run_paused env reason git s'))" if "pull_inv (sy_db s')" for reason git s'
    using that pull_inv_reload [OF that]
    by (auto simp: run_paused_def intro!: pull_inv_failure pull_inv_run_accepted split: prod.splits option.splits)
  have failed: "pull_inv (sy_db (update_state fault (failed_sync env reason e) (s\<lparr>sy_db := db1\<rparr>)))" for fault reason e
    using db1 by (intro pull_inv_update_state) (simp_all add: failed_sync_def)
  show ?thesis
    using db db1 failed
    by (auto simp: run_def m r resume_queue_def Let_def intro!: paused pull_inv_failure split: prod.splits option.splits sum.splits)
qed

lemma pull_inv_poll:
  assumes "pull_inv (sy_db s)"
  shows "pull_inv (sy_db (poll env s))"
proof -
  obtain res db where p: "pull (en_ParseScheme env) (en_ObserveFault env) (en_Puller env) (en_Pull env) TriggerPoll (sy_db s) = (res, db)"
    by fastforce
  have "pull_inv db" using pull_inv_pull [OF assms] p by (metis snd_conv)
  then have "pull_inv (sy_db (updatePollState env r e (s\<lparr>sy_db := db\<rparr>)))" for r e
    unfolding updatePollState_def by (intro pull_inv_update_state) simp_all
  then show ?thesis by (auto simp: poll_def p Let_def intro: pull_inv_run split: sum.splits)
qed

lemma sync_step_pull_inv: "sync_step s t \<Longrightarrow> pull_inv (sy_db s) \<Longrightarrow> pull_inv (sy_db t)"
proof (induction rule: sync_step.induct)
  case (stack_state evs s stacks)
  then have "pull_neutral e" if "e \<in> set evs" for e
    using that by (cases e) (auto simp: list_all_iff)
  moreover have "pull_inv ((sy_db s)\<lparr>gd_runtime := (gd_runtime (sy_db s))\<lparr>rt_Stacks := stacks\<rparr>\<rparr>)"
    using stack_state.prems by (simp add: pull_inv_def)
  ultimately show ?case by (simp add: stack_write_def pull_inv_publish)
next
  case (webhook s queued)
  then show ?case using pull_inv_publish [OF webhook, of "[WebhookReceived queued]"] by simp
qed (simp_all add: pull_inv_run pull_inv_poll cleanup_def split: option.split)

interpretation pulls: inductive_invariant "sync_init n" sync_step "\<lambda>s. pull_inv (sy_db s)" for n
proof unfold_locales
  fix s assume "sync_init n s"
  then show "pull_inv (sy_db s)" by (simp add: sync_init_def pull_inv_def failing_def recoveries_ok_def empty_runtime_def)
qed (rule sync_step_pull_inv)

section \<open>What a run records\<close>

lemma update_state_runtime: "gd_runtime (sy_db (update_state None f s)) = f (gd_runtime (sy_db s))"
  by (simp add: update_state_def runtime_update_eq)

lemma runtime_update_revision:
  "(\<And>rt. rt_GitRevision (f rt) = rt_GitRevision rt) \<Longrightarrow>
     rt_GitRevision (gd_runtime (snd (runtime_update fault f db))) = rt_GitRevision (gd_runtime db)"
  by (simp add: runtime_update_eq split: option.split)

lemma reconcile_networks_revision:
  "reconcile_networks get create rf fault commit now networks db = (err, db') \<Longrightarrow>
     rt_GitRevision (gd_runtime db') = rt_GitRevision (gd_runtime db)"
  using runtime_update_revision [of "\<lambda>rt. rt\<lparr>rt_Networks := fmempty\<rparr>" fault db]
  by (auto simp: reconcile_networks_def persist_networks_def within_tx_def publish_all_def Let_def
      split: if_splits option.splits)

lemma observe_pull_revision: "rt_GitRevision (gd_runtime (snd (observe_pull fault obs db))) = rt_GitRevision (gd_runtime db)"
  by (auto simp: observe_pull_def within_tx_def publish_all_def Let_def split: prod.splits option.splits if_splits)

lemma resolveGitState_revision:
  "resolveGitState env reason g db = (res, db') \<Longrightarrow> rt_GitRevision (gd_runtime db') = rt_GitRevision (gd_runtime db)"
  using observe_pull_revision
  by (auto simp: resolveGitState_def pull_def Let_def split: option.splits sum.splits if_splits prod.splits)

lemma reload_revision: "reload fault loaded cs db = (err, cs', db') \<Longrightarrow> gd_runtime db' = gd_runtime db"
  by (auto simp: reload_def publish_all_def Let_def split: sum.splits prod.splits if_splits option.splits)

text \<open>A failed run leaves the revision and either keeps the dispatch or invalidates it.\<close>

definition run_failed :: "sync_env \<Rightarrow> trigger_reason \<Rightarrow> sync \<Rightarrow> sync \<Rightarrow> bool" where
  "run_failed env reason s s' \<longleftrightarrow>
     (\<exists>e rt. rt_GitRevision rt = rt_GitRevision (gd_runtime (sy_db s)) \<and>
        gd_runtime (sy_db s') = failed_sync env reason e rt) \<and>
     (sy_lastDispatch s' = sy_lastDispatch s \<or> sy_lastDispatch s' = None)"

definition run_dispatched :: "sync_env \<Rightarrow> trigger_reason \<Rightarrow> sync \<Rightarrow> bool" where
  "run_dispatched env reason s' \<longleftrightarrow>
     (\<exists>commit rt stacks. gd_runtime (sy_db s') = succeeded_sync env reason commit rt \<and>
        sy_lastDispatch s' = Some \<lparr>dp_commit = commit, dp_stacks = stacks\<rparr>)"

lemma run_failedI:
  assumes "en_StateFault env = None" "rt_GitRevision (gd_runtime (sy_db s1)) = rt_GitRevision (gd_runtime (sy_db s))"
    and "sy_lastDispatch s1 = sy_lastDispatch s \<or> sy_lastDispatch s1 = None"
  shows "run_failed env reason s (finishStageFailure env reason e s1)"
  using assms by (auto simp: run_failed_def finishStageFailure_def update_state_runtime)

lemma run_accepted_outcome:
  assumes "en_StateFault env = None" "sy_lastDispatch s = None"
  shows "run_failed env reason s (run_accepted env reason git s) \<or> run_dispatched env reason (run_accepted env reason git s)"
proof -
  let ?p = "StackPlan.plan (en_Diff env) (cs_Stacks (sy_config s)) git" and ?commit = "pull_NewRevision git"
  obtain netErr db where net: "reconcile_networks (en_Get env) (en_Create env) (en_NetworkReadFault env)
      (en_NetworkFault env) ?commit (en_Now env) (cs_Networks (sy_config s)) (sy_db s) = (netErr, db)" by fastforce
  note rev = reconcile_networks_revision [OF net]
  let ?s1 = "s\<lparr>sy_db := db, sy_queue := interferences (fst (en_Meanwhile env)) (sy_queue s)\<rparr>"
  obtain err s2 where d: "dispatchStacks ?p ?commit reason ?s1 = (err, s2)" by fastforce
  have db2: "sy_db s2 = db" using dispatchStacks_db [of ?p ?commit reason ?s1] d by simp
  have last: "sy_lastDispatch s2 = (if err = None then Some \<lparr>dp_commit = ?commit, dp_stacks = plan_Stacks ?p\<rparr> else None)"
    using d assms(2) by (auto simp: dispatchStacks_def split: prod.splits if_splits)
  consider e where "netErr = Some e" | e where "netErr = None" "err = Some e" | "netErr = None" "err = None"
    by (cases netErr; cases err) auto
  then show ?thesis
  proof cases
    case 3
    then have "run_dispatched env reason (update_state None (succeeded_sync env reason ?commit) s2)"
      using last by (auto simp: run_dispatched_def update_state_runtime succeeded_sync_def)
    then show ?thesis using 3 assms(1) by (simp add: run_accepted_def net d)
  qed (use assms rev db2 last in \<open>simp_all add: run_accepted_def net d run_failedI\<close>)
qed

lemma run_outcome:
  assumes "en_StateFault env = None" "publishManualSync env t (sy_db s) = (None, db)"
    and "gd_runtime db = gd_runtime (sy_db s)"
  shows "run_failed env (tk_Reason t) s (run env t g s) \<or> run_dispatched env (tk_Reason t) (run env t g s)"
proof -
  let ?reason = "tk_Reason t"
  obtain res db1 where r: "resolveGitState env ?reason g db = (res, db1)" by fastforce
  note rev = resolveGitState_revision [OF r, unfolded assms(3)]
  have resumed: "run_failed env ?reason s' (resume_queue env s'') = run_failed env ?reason s' s''"
    "run_dispatched env ?reason (resume_queue env s'') = run_dispatched env ?reason s''" for s' s''
    by (simp_all add: run_failed_def run_dispatched_def resume_queue_def)
  have paused: "run_failed env ?reason s (run_paused env ?reason git s1) \<or> run_dispatched env ?reason (run_paused env ?reason git s1)"
    if "sy_db s1 = db1" "sy_lastDispatch s1 = sy_lastDispatch s" for git s1
  proof (cases "reload (en_ReloadFault env) (en_Loaded env) (sy_config s1) (sy_db s1)")
    case (fields err cs db2)
    note rl = reload_revision [OF fields]
    let ?s = "s1\<lparr>sy_config := cs, sy_db := db2, sy_lastDispatch := None\<rparr>"
    have "run_failed env ?reason ?s x \<Longrightarrow> run_failed env ?reason s x" for x
      using that rl rev by (auto simp: run_failed_def)
    then show ?thesis
      using run_accepted_outcome [of env ?s ?reason git] run_failedI [of env s1 s ?reason] fields that rev assms(1)
      by (cases err) (auto simp: run_paused_def)
  qed
  show ?thesis
    using run_failedI [of env _ s ?reason] resumed paused rev assms(1)
    by (auto simp: run_def assms(2) r Let_def finishStageFailure_def split: sum.splits prod.splits if_splits)
qed

section \<open>A sample\<close>

definition sample_sync_env :: "gitops_error option \<Rightarrow> sync_env" where
  "sample_sync_env networkFault =
     \<lparr>en_ParseScheme = (\<lambda>_. None), en_Puller = \<lparr>pl_Remote = ''git@h:r'', pl_AuthSSH = True, pl_Repository = ''h/r''\<rparr>,
      en_Pull = Inr \<lparr>pull_OldRevision = ''c0'', pull_NewRevision = ''c1'', pull_Updated = True\<rparr>,
      en_Head = Inr ''c1'', en_Loaded = Inr ([sample_stack ''web'', sample_stack ''db''], [], True),
      en_Diff = (\<lambda>_ _. Inr []), en_Get = (\<lambda>_. Inl ErrNetworkNotFound), en_Create = (\<lambda>_. Inr ''n1''),
      en_ObserveFault = None, en_ManualFault = None, en_ReloadFault = None, en_NetworkReadFault = None,
      en_NetworkFault = networkFault, en_StateFault = None, en_PollFault = None,
      en_Meanwhile = ([Takes], [Takes]), en_Now = 5\<rparr>"

definition sample_sync :: sync where
  "sample_sync =
     \<lparr>sy_queue = queue_new 1, sy_lastDispatch = None,
      sy_config = \<lparr>cs_Stacks = [], cs_Networks = [], cs_Ready = False\<rparr>,
      sy_db = \<lparr>gd_runtime = empty_runtime, gd_events = []\<rparr>\<rparr>"

definition sample_run_sync :: sync where
  "sample_run_sync = run (sample_sync_env None) \<lparr>tk_TriggeredBy = '''', tk_Reason = TriggerStartup\<rparr> None sample_sync"

lemma sample_sync_reachable: "reachable (sync_init 1) sync_step sample_run_sync"
proof -
  have "sync_init 1 sample_sync" by (simp add: sync_init_def sample_sync_def)
  then show ?thesis unfolding sample_run_sync_def by (meson reachable.intros sync_step.run)
qed

lemma sample_run_ready: "q_ready (sy_queue sample_run_sync) = [''web'', ''db''] \<and>
  rt_GitRevision (gd_runtime (sy_db sample_run_sync)) = ''c1''"
  by code_simp

section \<open>Properties\<close>



text \<open>
  C36. The stored pull failure is what the published events say: in every reachable state it is the
  repository of the last reported failure, unless a recovery or a change of repository was reported
  after it, and every reported recovery closes an open failure of its own repository. Lost
  observations and failing transactions included.
\<close>

theorem pull_state_follows_events:
  assumes "reachable (sync_init n) sync_step s"
  shows "rt_GitPullFailure (gd_runtime (sy_db s)) = failing (gd_events (sy_db s)) \<and>
    (gd_events (sy_db s) = pre @ GitPullSucceeded r reason # post \<longrightarrow> failing pre = Some r)"
  using pulls.inv_reachable [OF assms] unfolding pull_inv_def recoveries_ok_def by blast

theorem pull_state_follows_events_witness:
  "rt_GitPullFailure (gd_runtime (sy_db sample_run_sync)) = failing (gd_events (sy_db sample_run_sync))"
  using pull_state_follows_events [OF sample_sync_reachable] by blast

text \<open>
  When its own state writes succeed, a run records its trigger and time and either a success,
  naming as Git revision exactly the revision it dispatched to the stack queue, or an error, and then
  the recorded revision is unchanged and the earlier dispatch is kept or invalidated.
\<close>

lemma run_records_outcome:
  assumes "en_StateFault env = None" "tk_Reason t \<noteq> TriggerManual \<or> en_ManualFault env = None"
    and "rt' = gd_runtime (sy_db (run env t g s))" and "last' = sy_lastDispatch (run env t g s)"
  shows "rt_LastSyncReason rt' = Some (tk_Reason t) \<and> rt_LastSyncAt rt' = en_Now env \<and>
    (if rt_LastSyncResult rt' = Some SyncSuccess
     then rt_LastSyncError rt' = None \<and> map_option dp_commit last' = Some (rt_GitRevision rt')
     else rt_LastSyncResult rt' = Some SyncError \<and> rt_LastSyncError rt' \<noteq> None \<and>
          rt_GitRevision rt' = rt_GitRevision (gd_runtime (sy_db s)) \<and> (last' = sy_lastDispatch s \<or> last' = None))"
proof -
  obtain db where "publishManualSync env t (sy_db s) = (None, db)" "gd_runtime db = gd_runtime (sy_db s)"
    using assms(2) by (cases "tk_Reason t = TriggerManual") (simp_all add: publishManualSync_def within_tx_def publish_all_def)
  from run_outcome [OF assms(1) this, of g] show ?thesis
  proof
    assume "run_failed env (tk_Reason t) s (run env t g s)"
    then show ?thesis unfolding run_failed_def assms(3,4) by (auto simp: failed_sync_def)
  next
    assume "run_dispatched env (tk_Reason t) (run env t g s)"
    then show ?thesis unfolding run_dispatched_def assms(3,4) by (auto simp: succeeded_sync_def)
  qed
qed

lemma run_records_outcome_witness:
  "rt_LastSyncReason (gd_runtime (sy_db sample_run_sync)) = Some TriggerStartup \<and>
   map_option dp_commit (sy_lastDispatch sample_run_sync) = Some ''c1''"
proof -
  have "rt_LastSyncResult (gd_runtime (sy_db sample_run_sync)) = Some SyncSuccess" by code_simp
  moreover have "en_StateFault (sample_sync_env None) = None" by (simp add: sample_sync_env_def)
  from run_records_outcome [OF this, of "\<lparr>tk_TriggeredBy = '''', tk_Reason = TriggerStartup\<rparr>", OF _ refl refl,
      of None sample_sync, folded sample_run_sync_def]
  have "rt_LastSyncResult (gd_runtime (sy_db sample_run_sync)) = Some SyncSuccess \<Longrightarrow>
      map_option dp_commit (sy_lastDispatch sample_run_sync) = Some (rt_GitRevision (gd_runtime (sy_db sample_run_sync)))"
    "rt_LastSyncReason (gd_runtime (sy_db sample_run_sync)) = Some TriggerStartup" by simp_all
  ultimately show ?thesis using sample_run_ready by simp
qed

end
