(* ===== verification/Scheduler.thy ===== *)
theory Scheduler
  imports SyncSafety
begin

text \<open>
  The scheduler (\<open>internal/modules/gitops/controller/scheduler/scheduler.go\<close>) and the controller that
  owns it (\<open>controller/controller.go\<close>): a single-slot queue of sync requests, the periodic triggers, the
  loop that runs everything serially, and the shutdown.

  The channel is a list bounded by its capacity; a ticker is a number, registered while it is in
  \<open>sc_tickers\<close> and running while it is in \<open>sc_ticking\<close>. A tick may arrive from every ticker the loop
  created, also one buffered before the ticker was stopped. \<open>Shutdown\<close> is one step: a step between its
  flag and its tickers could only deliver such a tick.
\<close>

section \<open>The scheduler\<close>

record scheduler =
  sc_queue :: "task list"
  sc_shutdown :: bool
  sc_active :: bool
  sc_tickers :: "nat list"
  sc_ticking :: "nat list"

datatype sync_mode = SyncModePull | SyncModeWebhook | SyncModeHybrid

record scheduler_config =
  cfg_Mode :: sync_mode
  cfg_Cleanup :: bool

definition queueCapacity :: nat where
  "queueCapacity = 1"

definition scheduler_new :: scheduler where
  "scheduler_new = \<lparr>sc_queue = [], sc_shutdown = False, sc_active = False, sc_tickers = [], sc_ticking = []\<rparr>"

definition schedule :: "task \<Rightarrow> scheduler \<Rightarrow> bool \<times> scheduler" where
  "schedule t sc =
     (if sc_shutdown sc \<or> \<not> sc_active sc then (False, sc)
      else if length (sc_queue sc) < queueCapacity then (True, sc\<lparr>sc_queue := sc_queue sc @ [t]\<rparr>)
      else (False, sc))"

definition stopTicker :: "nat \<Rightarrow> scheduler \<Rightarrow> scheduler" where
  "stopTicker t sc = sc\<lparr>sc_ticking := filter (\<lambda>x. x \<noteq> t) (sc_ticking sc)\<rparr>"

definition stopTickers :: "scheduler \<Rightarrow> scheduler" where
  "stopTickers sc = fold stopTicker (sc_tickers sc) sc"

definition shutdown :: "scheduler \<Rightarrow> scheduler" where
  "shutdown sc = stopTickers (sc\<lparr>sc_shutdown := True\<rparr>)"

text \<open>\<open>time.NewTicker\<close> followed by \<open>addTicker\<close>\<close>

definition addTicker :: "nat \<Rightarrow> scheduler \<Rightarrow> scheduler" where
  "addTicker t sc =
     (let sc1 = sc\<lparr>sc_ticking := t # sc_ticking sc, sc_tickers := sc_tickers sc @ [t]\<rparr>
      in if sc_shutdown sc1 then stopTicker t sc1 else sc1)"

definition removeTicker :: "nat \<Rightarrow> scheduler \<Rightarrow> scheduler" where
  "removeTicker t sc = (stopTicker t sc)\<lparr>sc_tickers := remove1 t (sc_tickers sc)\<rparr>"

definition pollTicker :: nat where
  "pollTicker = 0"

definition reconcileTicker :: nat where
  "reconcileTicker = 1"

definition cleanupTicker :: nat where
  "cleanupTicker = 2"

definition run_tickers :: "scheduler_config \<Rightarrow> nat list" where
  "run_tickers cfg =
     (if cfg_Mode cfg = SyncModePull \<or> cfg_Mode cfg = SyncModeHybrid then [pollTicker] else []) @
     [reconcileTicker] @ (if cfg_Cleanup cfg then [cleanupTicker] else [])"

text \<open>The deferred calls of \<open>Run\<close>, last registered first.\<close>

definition scheduler_return :: "scheduler_config \<Rightarrow> scheduler \<Rightarrow> scheduler" where
  "scheduler_return cfg sc = (fold removeTicker (rev (run_tickers cfg)) sc)\<lparr>sc_active := False\<rparr>"

section \<open>The controller\<close>

text \<open>
  Where \<open>Run\<close> of the controller stands: waiting for the ownership lock and the recovery of deployments,
  with the stack workers started, creating the tickers, at the top of the loop, in its \<open>select\<close>, after
  the loop, and ended after the stack queue was stopped. \<open>ct_log\<close> is a history of the work the loop
  started.
\<close>

datatype phase = Acquiring | Serving | Starting "nat list" | AtTop | Selecting | Returned | Ended

datatype loop_work = RanTask task | Polled | Cleaned

record ctl =
  ct_sched :: scheduler
  ct_sync :: sync
  ct_phase :: phase
  ct_done :: bool
  ct_log :: "loop_work list"

definition manual :: "string \<Rightarrow> ctl \<Rightarrow> bool \<times> ctl" where
  "manual user c =
     (case schedule \<lparr>tk_TriggeredBy = user, tk_Reason = TriggerManual\<rparr> (ct_sched c) of
        (queued, sc) \<Rightarrow> (queued, c\<lparr>ct_sched := sc\<rparr>))"

definition webhook :: "gitops_error option \<Rightarrow> ctl \<Rightarrow> (bool \<times> gitops_error option) \<times> ctl" where
  "webhook fault c =
     (case schedule \<lparr>tk_TriggeredBy = '''', tk_Reason = TriggerWebhook\<rparr> (ct_sched c) of
        (queued, sc) \<Rightarrow>
          (case fault of
             Some e \<Rightarrow> ((queued, Some e), c\<lparr>ct_sched := sc\<rparr>)
           | None \<Rightarrow>
               ((queued, None), c\<lparr>ct_sched := sc,
                 ct_sync := (ct_sync c)\<lparr>sy_db := publish_all [WebhookReceived queued] (sy_db (ct_sync c))\<rparr>\<rparr>)))"

definition serve :: "ctl \<Rightarrow> ctl" where
  "serve c = c\<lparr>ct_sync := (ct_sync c)\<lparr>sy_queue := fst (q_start (sy_queue (ct_sync c)))\<rparr>, ct_phase := Serving\<rparr>"

definition scheduler_begin :: "scheduler_config \<Rightarrow> ctl \<Rightarrow> ctl" where
  "scheduler_begin cfg c = c\<lparr>ct_sched := (ct_sched c)\<lparr>sc_active := True\<rparr>, ct_phase := Starting (run_tickers cfg)\<rparr>"

definition trigger_startup :: "ctl \<Rightarrow> ctl" where
  "trigger_startup c =
     c\<lparr>ct_sched := snd (schedule \<lparr>tk_TriggeredBy = '''', tk_Reason = TriggerStartup\<rparr> (ct_sched c)), ct_phase := AtTop\<rparr>"

definition loop_top :: "scheduler_config \<Rightarrow> ctl \<Rightarrow> ctl" where
  "loop_top cfg c =
     (if sc_shutdown (ct_sched c) then c\<lparr>ct_sched := scheduler_return cfg (ct_sched c), ct_phase := Returned\<rparr>
      else c\<lparr>ct_phase := Selecting\<rparr>)"

definition select_done :: "scheduler_config \<Rightarrow> ctl \<Rightarrow> ctl" where
  "select_done cfg c = c\<lparr>ct_sched := scheduler_return cfg (shutdown (ct_sched c)), ct_phase := Returned\<rparr>"

text \<open>Work of the loop, which every branch of the \<open>select\<close> skips once the shutdown flag is set.\<close>

definition loop_work :: "loop_work \<Rightarrow> (sync \<Rightarrow> sync) \<Rightarrow> ctl \<Rightarrow> ctl" where
  "loop_work w f c =
     (if sc_shutdown (ct_sched c) then c\<lparr>ct_phase := AtTop\<rparr>
      else c\<lparr>ct_sync := f (ct_sync c), ct_phase := AtTop, ct_log := ct_log c @ [w]\<rparr>)"

definition select_task :: "sync_env \<Rightarrow> task \<Rightarrow> task list \<Rightarrow> ctl \<Rightarrow> ctl" where
  "select_task env t ts c = loop_work (RanTask t) (run env t None) (c\<lparr>ct_sched := (ct_sched c)\<lparr>sc_queue := ts\<rparr>\<rparr>)"

definition select_poll :: "sync_env \<Rightarrow> ctl \<Rightarrow> ctl" where
  "select_poll env = loop_work Polled (poll env)"

definition select_interval :: "ctl \<Rightarrow> ctl" where
  "select_interval c =
     (if sc_shutdown (ct_sched c) then c\<lparr>ct_phase := AtTop\<rparr>
      else c\<lparr>ct_sched := snd (schedule \<lparr>tk_TriggeredBy = '''', tk_Reason = TriggerInterval\<rparr> (ct_sched c)), ct_phase := AtTop\<rparr>)"

definition select_cleanup :: "ctl \<Rightarrow> ctl" where
  "select_cleanup = loop_work Cleaned cleanup"

definition controller_end :: "ctl \<Rightarrow> ctl" where
  "controller_end c = c\<lparr>ct_sync := (ct_sync c)\<lparr>sy_queue := q_stop (sy_queue (ct_sync c))\<rparr>, ct_phase := Ended\<rparr>"

text \<open>
  The steps of the controller: its own goroutine, the entry points others call, the watcher of the
  context, and the workers. An owner that cannot recover its deployments ends without serving.
\<close>

inductive ctl_step :: "scheduler_config \<Rightarrow> ctl \<Rightarrow> ctl \<Rightarrow> bool" for cfg where
  refused: "ct_phase c = Acquiring \<Longrightarrow> ctl_step cfg c (c\<lparr>ct_phase := Ended\<rparr>)"
| serve: "ct_phase c = Acquiring \<Longrightarrow> ctl_step cfg c (serve c)"
| begins: "ct_phase c = Serving \<Longrightarrow> ctl_step cfg c (scheduler_begin cfg c)"
| add_ticker: "ct_phase c = Starting (t # ts) \<Longrightarrow>
     ctl_step cfg c (c\<lparr>ct_sched := addTicker t (ct_sched c), ct_phase := Starting ts\<rparr>)"
| startup: "ct_phase c = Starting [] \<Longrightarrow> ctl_step cfg c (trigger_startup c)"
| top: "ct_phase c = AtTop \<Longrightarrow> ctl_step cfg c (loop_top cfg c)"
| context_done: "ct_phase c = Selecting \<Longrightarrow> ct_done c \<Longrightarrow> ctl_step cfg c (select_done cfg c)"
| task: "ct_phase c = Selecting \<Longrightarrow> sc_queue (ct_sched c) = t # ts \<Longrightarrow> ctl_step cfg c (select_task env t ts c)"
| poll: "ct_phase c = Selecting \<Longrightarrow> pollTicker \<in> set (run_tickers cfg) \<Longrightarrow> ctl_step cfg c (select_poll env c)"
| interval: "ct_phase c = Selecting \<Longrightarrow> ctl_step cfg c (select_interval c)"
| cleanup: "ct_phase c = Selecting \<Longrightarrow> cleanupTicker \<in> set (run_tickers cfg) \<Longrightarrow> ctl_step cfg c (select_cleanup c)"
| finished: "ct_phase c = Returned \<Longrightarrow> ctl_step cfg c (controller_end c)"
| cancel: "ctl_step cfg c (c\<lparr>ct_done := True\<rparr>)"
| watch: "ct_done c \<Longrightarrow> ctl_step cfg c (c\<lparr>ct_sched := shutdown (ct_sched c)\<rparr>)"
| manual: "ctl_step cfg c (snd (manual user c))"
| webhook: "ctl_step cfg c (snd (webhook fault c))"
| worker_take: "next_operation (sy_queue (ct_sync c)) = Taken name op q \<Longrightarrow>
     ctl_step cfg c (c\<lparr>ct_sync := (ct_sync c)\<lparr>sy_queue := q\<rparr>\<rparr>)"
| worker_finish: "isRunning (sy_queue (ct_sync c)) name \<Longrightarrow>
     ctl_step cfg c (c\<lparr>ct_sync := (ct_sync c)\<lparr>sy_queue := finish name (sy_queue (ct_sync c))\<rparr>\<rparr>)"
| worker_state: "list_all stack_event evs \<Longrightarrow> ctl_step cfg c
     (c\<lparr>ct_sync := (ct_sync c)\<lparr>sy_db := stack_write stacks evs (sy_db (ct_sync c))\<rparr>\<rparr>)"

definition ctl_init :: "int \<Rightarrow> ctl \<Rightarrow> bool" where
  "ctl_init parallelism c \<longleftrightarrow>
     ct_sched c = scheduler_new \<and> sync_init parallelism (ct_sync c) \<and> ct_phase c = Acquiring \<and> ct_log c = []"

section \<open>The scheduler's invariant\<close>

lemma fold_stopTicker: "fold stopTicker ts sc = sc\<lparr>sc_ticking := filter (\<lambda>x. x \<notin> set ts) (sc_ticking sc)\<rparr>"
  by (induction ts arbitrary: sc) (auto simp: stopTicker_def intro: arg_cong [where f = "\<lambda>xs. sc\<lparr>sc_ticking := xs\<rparr>" for sc] filter_cong)

lemma shutdown_eq:
  "shutdown sc = sc\<lparr>sc_shutdown := True, sc_ticking := filter (\<lambda>x. x \<notin> set (sc_tickers sc)) (sc_ticking sc)\<rparr>"
  by (simp add: shutdown_def stopTickers_def fold_stopTicker)

lemma removeTicker_fields [simp]:
  "sc_queue (removeTicker t sc) = sc_queue sc" "sc_shutdown (removeTicker t sc) = sc_shutdown sc"
  "sc_active (removeTicker t sc) = sc_active sc" "sc_tickers (removeTicker t sc) = remove1 t (sc_tickers sc)"
  "sc_ticking (removeTicker t sc) = filter (\<lambda>x. x \<noteq> t) (sc_ticking sc)"
  by (simp_all add: removeTicker_def stopTicker_def)

lemma distinct_run_tickers: "distinct (run_tickers cfg)"
  by (simp add: run_tickers_def pollTicker_def reconcileTicker_def cleanupTicker_def)

lemma fold_removeTicker:
  "sc_queue (fold removeTicker ts sc) = sc_queue sc \<and> sc_shutdown (fold removeTicker ts sc) = sc_shutdown sc \<and>
   sc_tickers (fold removeTicker ts sc) = fold remove1 ts (sc_tickers sc) \<and>
   sc_ticking (fold removeTicker ts sc) = filter (\<lambda>x. x \<notin> set ts) (sc_ticking sc)"
proof (induction ts arbitrary: sc)
  case (Cons t ts)
  then show ?case by (auto intro: filter_cong)
qed simp

lemma fold_remove1_rev: "distinct ts \<Longrightarrow> fold remove1 (rev ts) ts = []"
proof (induction ts rule: rev_induct)
  case (snoc t ts)
  then show ?case by (simp add: remove1_append)
qed simp

lemma scheduler_return_fields:
  assumes "sc_tickers sc = run_tickers cfg" "set (sc_ticking sc) \<subseteq> set (sc_tickers sc)"
  shows "sc_queue (scheduler_return cfg sc) = sc_queue sc" "sc_shutdown (scheduler_return cfg sc) = sc_shutdown sc"
    and "sc_tickers (scheduler_return cfg sc) = []" "sc_ticking (scheduler_return cfg sc) = []"
    and "\<not> sc_active (scheduler_return cfg sc)"
  using assms by (auto simp: scheduler_return_def fold_removeTicker fold_remove1_rev [OF distinct_run_tickers] filter_empty_conv)

lemma schedule_fields:
  assumes "schedule t sc = (queued, sc')"
  shows "sc_shutdown sc' = sc_shutdown sc" "sc_active sc' = sc_active sc" "sc_tickers sc' = sc_tickers sc"
    "sc_ticking sc' = sc_ticking sc" "length (sc_queue sc) \<le> queueCapacity \<Longrightarrow> length (sc_queue sc') \<le> queueCapacity"
    and "sc_shutdown sc \<Longrightarrow> \<not> queued \<and> sc' = sc" "sc_queue sc' = (if queued then sc_queue sc @ [t] else sc_queue sc)"
  using assms by (auto simp: schedule_def split: if_splits)

fun phase_ok :: "scheduler_config \<Rightarrow> phase \<Rightarrow> scheduler \<Rightarrow> bool" where
  "phase_ok cfg (Starting ts) sc = (sc_tickers sc @ ts = run_tickers cfg)"
| "phase_ok cfg AtTop sc = (sc_tickers sc = run_tickers cfg)"
| "phase_ok cfg Selecting sc = (sc_tickers sc = run_tickers cfg)"
| "phase_ok cfg Returned sc = (sc_tickers sc = [] \<and> \<not> sc_active sc \<and> sc_shutdown sc)"
| "phase_ok cfg _ sc = (sc_tickers sc = [] \<and> \<not> sc_active sc)"

definition sched_inv :: "scheduler_config \<Rightarrow> phase \<Rightarrow> scheduler \<Rightarrow> bool" where
  "sched_inv cfg ph sc \<longleftrightarrow>
     length (sc_queue sc) \<le> queueCapacity \<and> set (sc_ticking sc) \<subseteq> set (sc_tickers sc) \<and>
     (sc_shutdown sc \<longrightarrow> sc_ticking sc = []) \<and> phase_ok cfg ph sc"

lemma phase_ok_cong:
  "sc_tickers sc' = sc_tickers sc \<Longrightarrow> sc_active sc' = sc_active sc \<Longrightarrow> (sc_shutdown sc \<Longrightarrow> sc_shutdown sc') \<Longrightarrow>
     phase_ok cfg ph sc \<Longrightarrow> phase_ok cfg ph sc'"
  by (cases ph) auto

lemma sched_inv_schedule: "sched_inv cfg ph sc \<Longrightarrow> sched_inv cfg ph (snd (schedule t sc))"
proof (cases "schedule t sc")
  case (Pair queued sc')
  assume "sched_inv cfg ph sc"
  with schedule_fields(1-5) [OF Pair] phase_ok_cong [of sc' sc cfg ph] Pair show ?thesis by (simp add: sched_inv_def)
qed

lemma sched_inv_shutdown: "sched_inv cfg ph sc \<Longrightarrow> sched_inv cfg ph (shutdown sc)"
  using phase_ok_cong [of "shutdown sc" sc cfg ph] by (auto simp: sched_inv_def shutdown_eq filter_empty_conv)

lemma sched_inv_return:
  assumes "sched_inv cfg AtTop sc" "sc_shutdown sc"
  shows "sched_inv cfg Returned (scheduler_return cfg sc)"
  using assms scheduler_return_fields [of sc cfg] by (simp add: sched_inv_def)

lemma sched_inv_add:
  assumes "sched_inv cfg (Starting (t # ts)) sc"
  shows "sched_inv cfg (Starting ts) (addTicker t sc)"
  using assms by (auto simp: sched_inv_def addTicker_def stopTicker_def Let_def)

lemma loop_work_fields [simp]: "ct_sched (loop_work w f c) = ct_sched c" "ct_phase (loop_work w f c) = AtTop"
  by (simp_all add: loop_work_def)

lemma ctl_step_sched_inv:
  assumes "ctl_step cfg c c'" "sched_inv cfg (ct_phase c) (ct_sched c)"
  shows "sched_inv cfg (ct_phase c') (ct_sched c')"
  using assms
proof (induction rule: ctl_step.induct)
  case (add_ticker c t ts)
  then show ?case by (simp add: sched_inv_add)
next
  case (startup c)
  then have "sched_inv cfg AtTop (ct_sched c)" by (auto simp: sched_inv_def)
  then show ?case by (simp add: trigger_startup_def sched_inv_schedule)
next
  case (top c)
  then show ?case by (simp add: loop_top_def sched_inv_return) (auto simp: sched_inv_def)
next
  case (context_done c)
  then have "sched_inv cfg AtTop (ct_sched c)" by (auto simp: sched_inv_def)
  then have "sched_inv cfg AtTop (shutdown (ct_sched c))" by (rule sched_inv_shutdown)
  moreover have "sc_shutdown (shutdown (ct_sched c))" by (simp add: shutdown_eq)
  ultimately show ?case by (simp add: select_done_def sched_inv_return)
next
  case (interval c)
  then have "sched_inv cfg AtTop (ct_sched c)" by (auto simp: sched_inv_def)
  then show ?case by (simp add: select_interval_def sched_inv_schedule)
next
  case (watch c)
  then show ?case by (simp add: sched_inv_shutdown)
next
  case (manual c user)
  then show ?case using sched_inv_schedule [of cfg "ct_phase c" "ct_sched c"] by (auto simp: manual_def split: prod.splits) (metis snd_conv)
next
  case (webhook c fault)
  then show ?case
    using sched_inv_schedule [of cfg "ct_phase c" "ct_sched c"]
    by (auto simp: webhook_def split: prod.splits option.splits) (metis snd_conv)+
qed (auto simp: sched_inv_def serve_def scheduler_begin_def select_task_def select_poll_def select_cleanup_def controller_end_def)

interpretation scheds: inductive_invariant "ctl_init n" "ctl_step cfg" "\<lambda>c. sched_inv cfg (ct_phase c) (ct_sched c)" for n cfg
proof unfold_locales
  fix c assume "ctl_init n c"
  then show "sched_inv cfg (ct_phase c) (ct_sched c)" by (simp add: ctl_init_def sched_inv_def scheduler_new_def)
qed (rule ctl_step_sched_inv)

section \<open>The controller refines the runs\<close>

text \<open>Every step of the controller is a step of the synchronization runs, or leaves their state alone.\<close>

lemma ctl_step_sync:
  "ctl_step cfg c c' \<Longrightarrow> ct_sync c' = ct_sync c \<or> sync_step (ct_sync c) (ct_sync c')"
proof (induction rule: ctl_step.induct)
  case (task c t ts env)
  then show ?case by (auto simp: select_task_def loop_work_def intro: sync_step.run)
next
  case (poll c env)
  then show ?case by (auto simp: select_poll_def loop_work_def intro: sync_step.poll)
next
  case (cleanup c)
  then show ?case by (auto simp: select_cleanup_def loop_work_def intro: sync_step.cleanup)
next
  case (webhook c fault)
  then show ?case by (auto simp: webhook_def intro: sync_step.webhook split: prod.splits option.splits)
qed (auto simp: serve_def scheduler_begin_def trigger_startup_def loop_top_def select_done_def select_interval_def
    controller_end_def manual_def intro: sync_step.intros split: prod.splits)

lemma ctl_reachable_sync: "reachable (ctl_init n) (ctl_step cfg) c \<Longrightarrow> reachable (sync_init n) sync_step (ct_sync c)"
proof (induction rule: reachable.induct)
  case (reachable_init c)
  then show ?case by (auto simp: ctl_init_def intro: reachable.reachable_init)
next
  case (reachable_step c c')
  then show ?case using ctl_step_sync [OF reachable_step.hyps(2)] by (metis reachable.reachable_step)
qed

section \<open>After the shutdown\<close>

definition drained :: "ctl \<Rightarrow> ctl \<Rightarrow> bool" where
  "drained c c' \<longleftrightarrow>
     sc_shutdown (ct_sched c') \<and> ct_log c' = ct_log c \<and> (\<exists>done. sc_queue (ct_sched c) = done @ sc_queue (ct_sched c'))"

lemma drained_trans: "drained c c' \<Longrightarrow> drained c' c'' \<Longrightarrow> drained c c''"
  by (auto simp: drained_def)

lemma scheduler_return_kept:
  "sc_queue (scheduler_return cfg sc) = sc_queue sc" "sc_shutdown (scheduler_return cfg sc) = sc_shutdown sc"
  by (simp_all add: scheduler_return_def fold_removeTicker)

lemma addTicker_kept: "sc_queue (addTicker t sc) = sc_queue sc" "sc_shutdown (addTicker t sc) = sc_shutdown sc"
  by (simp_all add: addTicker_def stopTicker_def Let_def)

lemma ctl_step_drained:
  assumes "ctl_step cfg c c'" "sc_shutdown (ct_sched c)"
  shows "drained c c'"
  using assms
proof (induction rule: ctl_step.induct)
  case (task c t ts env)
  then show ?case by (auto simp: drained_def select_task_def loop_work_def)
next
  case (webhook c fault)
  then show ?case by (auto simp: drained_def webhook_def schedule_def split: prod.splits option.splits if_splits)
qed (auto simp: drained_def serve_def scheduler_begin_def trigger_startup_def loop_top_def select_done_def select_interval_def
    select_poll_def select_cleanup_def loop_work_def controller_end_def manual_def schedule_def shutdown_eq
    scheduler_return_kept addTicker_kept split: prod.splits if_splits)

lemma ctl_steps_drained:
  "(ctl_step cfg)\<^sup>*\<^sup>* c c' \<Longrightarrow> sc_shutdown (ct_sched c) \<Longrightarrow> drained c c'"
proof (induction rule: rtranclp_induct)
  case base
  then show ?case by (simp add: drained_def)
next
  case (step c' c'')
  then have "drained c c'" by simp
  then show ?case using ctl_step_drained [OF step.hyps(2)] drained_trans by (simp add: drained_def)
qed

section \<open>A sample\<close>

definition sample_config :: scheduler_config where
  "sample_config = \<lparr>cfg_Mode = SyncModeWebhook, cfg_Cleanup = False\<rparr>"

definition sample_serving :: ctl where
  "sample_serving =
     serve \<lparr>ct_sched = scheduler_new, ct_sync = sample_sync, ct_phase = Acquiring, ct_done = False, ct_log = []\<rparr>"

definition sample_added :: ctl where
  "sample_added =
     (let c = scheduler_begin sample_config sample_serving
      in c\<lparr>ct_sched := addTicker reconcileTicker (ct_sched c), ct_phase := Starting []\<rparr>)"

definition sample_selecting :: ctl where
  "sample_selecting = loop_top sample_config (trigger_startup sample_added)"

definition sample_down :: ctl where
  "sample_down =
     (let c = sample_selecting\<lparr>ct_done := True\<rparr> in c\<lparr>ct_sched := shutdown (ct_sched c)\<rparr>)"

lemma sample_ctl_fields:
  "ct_phase sample_serving = Serving" "ct_phase (scheduler_begin sample_config sample_serving) = Starting [reconcileTicker]"
  "ct_phase sample_added = Starting []" "ct_phase (trigger_startup sample_added) = AtTop" "ct_phase sample_selecting = Selecting"
  "sc_queue (ct_sched sample_selecting) = [\<lparr>tk_TriggeredBy = '''', tk_Reason = TriggerStartup\<rparr>]"
  "sc_shutdown (ct_sched sample_down)" "ct_log sample_down = []"
  by code_simp+

lemma sample_selecting_reachable: "reachable (ctl_init 1) (ctl_step sample_config) sample_selecting"
proof -
  let ?r = "reachable (ctl_init 1) (ctl_step sample_config)"
  let ?c0 = "\<lparr>ct_sched = scheduler_new, ct_sync = sample_sync, ct_phase = Acquiring, ct_done = False, ct_log = []\<rparr>"
  have "sync_init 1 sample_sync" by (simp add: sync_init_def sample_sync_def)
  then have "?r ?c0" by (intro reachable_init) (simp add: ctl_init_def)
  then have "?r sample_serving" unfolding sample_serving_def by (rule reachable_step) (rule ctl_step.serve, simp)
  then have "?r (scheduler_begin sample_config sample_serving)"
    by (rule reachable_step) (rule ctl_step.begins, simp add: sample_ctl_fields)
  then have "?r sample_added" unfolding sample_added_def Let_def
    by (rule reachable_step) (rule ctl_step.add_ticker, simp add: sample_ctl_fields)
  then have "?r (trigger_startup sample_added)" by (rule reachable_step) (rule ctl_step.startup, simp add: sample_ctl_fields)
  then show ?thesis unfolding sample_selecting_def
    by (rule reachable_step) (rule ctl_step.top, simp add: sample_ctl_fields)
qed

lemma sample_down_reachable: "reachable (ctl_init 1) (ctl_step sample_config) sample_down"
proof -
  have "reachable (ctl_init 1) (ctl_step sample_config) (sample_selecting\<lparr>ct_done := True\<rparr>)"
    by (rule reachable_step [OF sample_selecting_reachable]) (rule ctl_step.cancel)
  then show ?thesis unfolding sample_down_def Let_def by (rule reachable_step) (rule ctl_step.watch, simp)
qed

section \<open>Properties\<close>



text \<open>
  A shutdown is final: whatever happens after it, the loop starts no run, no poll and no cleanup,
  requests are refused and none is added to the queue, and no periodic trigger is left running; when
  the loop has returned, no trigger is registered.
\<close>

lemma shutdown_is_final:
  assumes "reachable (ctl_init n) (ctl_step cfg) c" "sc_shutdown (ct_sched c)" "(ctl_step cfg)\<^sup>*\<^sup>* c c'"
  shows "ct_log c' = ct_log c \<and> (\<exists>gone. sc_queue (ct_sched c) = gone @ sc_queue (ct_sched c')) \<and>
    manual user c' = (False, c') \<and> sc_ticking (ct_sched c') = [] \<and>
    (ct_phase c' = Returned \<longrightarrow> sc_tickers (ct_sched c') = [])"
proof -
  note d = ctl_steps_drained [OF assms(3,2)]
  then have "sc_shutdown (ct_sched c')" by (simp add: drained_def)
  moreover have "sched_inv cfg (ct_phase c') (ct_sched c')"
    using scheds.inv_steps [OF assms(3)] scheds.inv_reachable [OF assms(1)] by blast
  ultimately show ?thesis using d by (auto simp: drained_def sched_inv_def manual_def schedule_def)
qed

lemma shutdown_is_final_witness:
  "ct_log (loop_top sample_config (select_interval sample_down)) = [] \<and> manual ''admin'' sample_down = (False, sample_down)"
proof -
  have phase: "ct_phase sample_down = Selecting" "ct_phase (select_interval sample_down) = AtTop" by code_simp+
  have "(ctl_step sample_config)\<^sup>*\<^sup>* sample_down (select_interval sample_down)"
    using ctl_step.interval [OF phase(1)] by blast
  then have steps: "(ctl_step sample_config)\<^sup>*\<^sup>* sample_down (loop_top sample_config (select_interval sample_down))"
    using ctl_step.top [OF phase(2)] by (rule rtranclp.rtrancl_into_rtrancl)
  note final = shutdown_is_final [OF sample_down_reachable sample_ctl_fields(7)]
  show ?thesis using final [OF steps] final [OF rtranclp.rtrancl_refl] sample_ctl_fields(8) by simp
qed

end
