(* ===== verification/Drift.thy ===== *)
theory Drift
  imports GitOpsRuntime "HOL-Library.Word"
begin

text \<open>
  Drift of a stack's services (\<open>internal/modules/gitops/controller/stackloop/drift\<close>), the boolean sync
  policies of a service (\<open>internal/compose/service.go\<close>) and the removal of orphaned services
  (\<open>internal/modules/deployments/pruner/pruner.go\<close>).

  A service of a Compose file is the record of the fields these decisions read; the replica counts are
  64-bit words. Its error texts are kept, except the message of a policy that is not boolean.
\<close>

section \<open>Service policies\<close>

record compose_service =
  cmp_Name :: string
  cmp_Image :: string
  cmp_Labels :: labels
  cmp_Mode :: string
  cmp_Replicas :: "64 word option"

definition ServiceManagedLabelKey :: string where
  "ServiceManagedLabelKey = ''org.swarm-deploy.service.managed''"

definition SyncPolicyReplicasManagedLabelKey :: string where
  "SyncPolicyReplicasManagedLabelKey = ''org.swarm-deploy.service.sync.policy.replicasManaged''"

definition SyncPolicyPruneLabelKey :: string where
  "SyncPolicyPruneLabelKey = ''org.swarm-deploy.service.sync.policy.prune''"

definition SyncPolicySelfHealLabelKey :: string where
  "SyncPolicySelfHealLabelKey = ''org.swarm-deploy.service.sync.policy.selfHeal''"

definition SyncPolicySelfHealReplicasLabelKey :: string where
  "SyncPolicySelfHealReplicasLabelKey = ''org.swarm-deploy.service.sync.policy.selfHeal.replicas''"

datatype policy_error = MustBeBoolean string | ReplicatedOnly

text \<open>\<open>booleanPolicy\<close>: the value and whether it was specified.\<close>

definition booleanPolicy :: "compose_service \<Rightarrow> string \<Rightarrow> policy_error + bool \<times> bool" where
  "booleanPolicy s label =
     (case fmlookup (cmp_Labels s) label of
        None \<Rightarrow> Inr (False, False)
      | Some raw \<Rightarrow>
          let v = ToLower (TrimSpace raw)
          in if v \<in> set [''true'', ''1'', ''yes'', ''y'', ''on''] then Inr (True, True)
             else if v \<in> set [''false'', ''0'', ''no'', ''n'', ''off''] then Inr (False, True)
             else Inl (MustBeBoolean raw))"

definition selfHealPolicy :: "compose_service \<Rightarrow> policy_error + bool \<times> bool" where
  "selfHealPolicy s = booleanPolicy s SyncPolicySelfHealLabelKey"

definition replicaDriftPolicy :: "compose_service \<Rightarrow> policy_error + bool \<times> bool" where
  "replicaDriftPolicy s = booleanPolicy s SyncPolicySelfHealReplicasLabelKey"

definition replicasManagedPolicy :: "compose_service \<Rightarrow> policy_error + bool \<times> bool" where
  "replicasManagedPolicy s =
     (case booleanPolicy s SyncPolicyReplicasManagedLabelKey of
        Inl e \<Rightarrow> Inl e
      | Inr (managed, specified) \<Rightarrow>
          if specified \<and> \<not> managed \<and> cmp_Mode s \<noteq> '''' \<and> cmp_Mode s \<noteq> ''replicated'' then Inl ReplicatedOnly
          else Inr (managed, specified))"

definition resolveSelfHeal :: "compose_service \<Rightarrow> bool option \<Rightarrow> bool \<Rightarrow> policy_error + string \<times> bool" where
  "resolveSelfHeal s stack global =
     (case selfHealPolicy s of
        Inl e \<Rightarrow> Inl e
      | Inr (policy, specified) \<Rightarrow>
          if specified then Inr (''service'', policy)
          else case stack of Some b \<Rightarrow> Inr (''stack'', b) | None \<Rightarrow> Inr (''global'', global))"

section \<open>Analysis\<close>

record live_service =
  lv_ID :: string
  lv_Name :: string
  lv_Replicas :: "64 word option"
  lv_Labels :: labels

record service_drift =
  sd_ServiceName :: string
  sd_Reason :: string
  sd_ServiceMissed :: bool
  sd_OutOfSync :: bool
  sd_Desired :: "64 word"
  sd_Live :: "64 word"

type_synonym drifts = "(string, service_drift) gomap"

definition no_drift :: service_drift where
  "no_drift = \<lparr>sd_ServiceName = '''', sd_Reason = '''', sd_ServiceMissed = False, sd_OutOfSync = False, sd_Desired = 0, sd_Live = 0\<rparr>"

fun decimal :: "nat \<Rightarrow> string" where
  "decimal n = (if n < 10 then [char_of (48 + n)] else decimal (n div 10) @ [char_of (48 + n mod 10)])"

declare decimal.simps [simp del]

text \<open>The last live service of a name wins, as in the map the analyzer builds.\<close>

definition live_by_name :: "live_service list \<Rightarrow> (string, live_service) gomap" where
  "live_by_name live = fold (\<lambda>s m. fmupd (lv_Name s) s m) live fmempty"

definition replica_reason :: "64 word \<Rightarrow> 64 word \<Rightarrow> string" where
  "replica_reason desired live =
     ''replica count differs: desired='' @ decimal (unat desired) @ '' actual='' @ decimal (unat live)"

text \<open>One service: no drift, or the drift found.\<close>

definition analyze_service :: "(string, live_service) gomap \<Rightarrow> compose_service \<Rightarrow> policy_error + service_drift option" where
  "analyze_service live s =
     (case replicaDriftPolicy s of
        Inl e \<Rightarrow> Inl e
      | Inr (replicasEnabled, specified) \<Rightarrow>
          (case replicasManagedPolicy s of
             Inl e \<Rightarrow> Inl e
           | Inr (managed, ownershipSpecified) \<Rightarrow>
               (case fmlookup live (cmp_Name s) of
                  None \<Rightarrow>
                    Inr (Some (no_drift\<lparr>sd_ServiceName := cmp_Name s, sd_Reason := ''service is missing'', sd_ServiceMissed := True\<rparr>))
                | Some l \<Rightarrow>
                    (case cmp_Replicas s of
                       None \<Rightarrow> Inr None
                     | Some desired \<Rightarrow>
                         let liveReplicas = (case lv_Replicas l of None \<Rightarrow> 0 | Some n \<Rightarrow> n)
                         in if ownershipSpecified \<and> \<not> managed \<or> specified \<and> \<not> replicasEnabled then Inr None
                            else if desired = liveReplicas then Inr None
                            else Inr (Some (no_drift\<lparr>sd_ServiceName := cmp_Name s, sd_Reason := replica_reason desired liveReplicas,
                                              sd_OutOfSync := True, sd_Desired := desired, sd_Live := liveReplicas\<rparr>))))))"

fun analyze_loop :: "(string, live_service) gomap \<Rightarrow> compose_service list \<Rightarrow> drifts \<Rightarrow> policy_error + drifts" where
  "analyze_loop live [] drifts = Inr drifts"
| "analyze_loop live (s # ss) drifts =
     (case analyze_service live s of
        Inl e \<Rightarrow> Inl e
      | Inr None \<Rightarrow> analyze_loop live ss drifts
      | Inr (Some d) \<Rightarrow> analyze_loop live ss (fmupd (cmp_Name s) d drifts))"

definition analyze :: "compose_service list \<Rightarrow> live_service list \<Rightarrow> policy_error + drifts" where
  "analyze desired live = analyze_loop (live_by_name live) desired fmempty"

lemma find_key_None: "n \<notin> f ` set xs \<Longrightarrow> find (\<lambda>x. f x = n) xs = None"
  by (auto simp: find_None_iff)

text \<open>The drift of a service is its own, whatever the order of the services.\<close>

lemma analyze_service_name: "analyze_service live s = Inr (Some d) \<Longrightarrow> sd_ServiceName d = cmp_Name s"
  by (auto simp: analyze_service_def Let_def split: sum.splits option.splits if_splits prod.splits)

lemma analyze_loop_lookup:
  assumes "analyze_loop live ss drifts = Inr res" "distinct (map cmp_Name ss)"
  shows "fmlookup res n =
    (case find (\<lambda>s. cmp_Name s = n) ss of
       None \<Rightarrow> fmlookup drifts n
     | Some s \<Rightarrow> (case analyze_service live s of Inr (Some d) \<Rightarrow> Some d | _ \<Rightarrow> fmlookup drifts n))"
  using assms
proof (induction live ss drifts rule: analyze_loop.induct)
  case (2 live s ss drifts)
  have none: "find (\<lambda>s. cmp_Name s = n) ss = None" if "cmp_Name s = n"
    using that "2.prems"(2) by (intro find_key_None) simp
  show ?case
    using 2 none by (auto split: sum.splits option.splits)
qed simp

lemma analyze_lookup:
  assumes "analyze desired live = Inr res" "distinct (map cmp_Name desired)"
  shows "fmlookup res n =
    (case find (\<lambda>s. cmp_Name s = n) desired of
       None \<Rightarrow> None | Some s \<Rightarrow> (case analyze_service (live_by_name live) s of Inr (Some d) \<Rightarrow> Some d | _ \<Rightarrow> None))"
  using analyze_loop_lookup [OF assms(1) [unfolded analyze_def] assms(2)] by (simp split: option.splits sum.splits)

lemma analyze_loop_dom:
  "analyze_loop live ss drifts = Inr res \<Longrightarrow> fmlookup res n \<noteq> None \<Longrightarrow> n \<in> cmp_Name ` set ss \<or> fmlookup drifts n \<noteq> None"
  by (induction live ss drifts rule: analyze_loop.induct) (auto split: sum.splits option.splits if_splits)

lemma analyze_dom: "analyze desired live = Inr res \<Longrightarrow> fmlookup res n \<noteq> None \<Longrightarrow> n \<in> cmp_Name ` set desired"
  using analyze_loop_dom [of "live_by_name live" desired fmempty res n] by (simp add: analyze_def)

section \<open>Pruning\<close>

text \<open>
  \<open>strings.EqualFold\<close> against \<open>true\<close>: none of its letters has a case variant outside ASCII.
\<close>

definition ascii_lower :: "char \<Rightarrow> char" where
  "ascii_lower c = (if of_char c \<ge> (65::nat) \<and> of_char c \<le> (90::nat) then char_of (of_char c + 32 :: nat) else c)"

definition equalFold_true :: "string \<Rightarrow> bool" where
  "equalFold_true s \<longleftrightarrow> map ascii_lower s = ''true''"

definition serviceManaged :: "labels \<Rightarrow> bool" where
  "serviceManaged ls \<longleftrightarrow> equalFold_true (map_str ls ServiceManagedLabelKey)"

definition resolvePolicy :: "sync_policy_spec \<Rightarrow> labels \<Rightarrow> stack_spec \<Rightarrow> string \<times> bool" where
  "resolvePolicy cfg ls stack =
     (case fmlookup ls SyncPolicyPruneLabelKey of
        Some raw \<Rightarrow> (''service'', equalFold_true raw)
      | None \<Rightarrow>
          (case stack_Prune stack of Some b \<Rightarrow> (''stack'', b) | None \<Rightarrow> (''global'', policy_Prune cfg)))"

datatype remove_error = ErrServiceNotFound | RemoveError string

datatype prune_error = PruneRemove string | PrunePublish gitops_error

text \<open>
  \<open>pruneService\<close>: whether the service was removed, and the error. \<open>remove\<close> is the answer of the Swarm
  API for a service id, \<open>fault\<close> the publication of the event for a service name.
\<close>

definition pruneService ::
    "(string \<Rightarrow> remove_error option) \<Rightarrow> (string \<Rightarrow> gitops_error option) \<Rightarrow> sync_policy_spec \<Rightarrow> stack_spec \<Rightarrow> string \<Rightarrow>
     live_service \<Rightarrow> gitops_db \<Rightarrow> (bool \<times> prune_error option) \<times> gitops_db" where
  "pruneService remove fault cfg stack commit s db =
     (if \<not> serviceManaged (lv_Labels s) then ((False, None), db)
      else if \<not> snd (resolvePolicy cfg (lv_Labels s) stack) then ((False, None), db)
      else case remove (lv_ID s) of
             Some ErrServiceNotFound \<Rightarrow> ((False, None), db)
           | Some (RemoveError e) \<Rightarrow> ((False, Some (PruneRemove e)), db)
           | None \<Rightarrow>
               (case fault (lv_Name s) of
                  Some e \<Rightarrow> ((True, Some (PrunePublish e)), db)
                | None \<Rightarrow> ((True, None), publish_all [ServicePruned (stack_Name stack) (lv_Name s) commit] db)))"

definition prune_step where
  "prune_step remove fault cfg stack commit desired s acc =
     (case acc of
        (pruned, errs, db) \<Rightarrow>
          if lv_Name s \<in> cmp_Name ` set desired then (pruned, errs, db)
          else case pruneService remove fault cfg stack commit s db of
                 ((was, err), db') \<Rightarrow>
                   (if was then pruned @ [lv_Name s] else pruned,
                    case err of None \<Rightarrow> errs | Some e \<Rightarrow> errs @ [(lv_Name s, e)], db'))"

definition prune ::
    "(string \<Rightarrow> remove_error option) \<Rightarrow> (string \<Rightarrow> gitops_error option) \<Rightarrow> sync_policy_spec \<Rightarrow> stack_spec \<Rightarrow> string \<Rightarrow>
     compose_service list \<Rightarrow> live_service list \<Rightarrow> gitops_db \<Rightarrow>
     (string list \<times> (string \<times> prune_error) list) \<times> gitops_db" where
  "prune remove fault cfg stack commit desired live db =
     (case fold (prune_step remove fault cfg stack commit desired) live ([], [], db) of
        (pruned, errs, db') \<Rightarrow> ((pruned, errs), db'))"

end
