(* ===== verification/StackLoop.thy ===== *)
theory StackLoop
  imports Drift SyncSafety DeploymentController
begin

text \<open>
  Reconciliation of one stack (\<open>internal/modules/gitops/controller/stackloop\<close>: \<open>reconciler.go\<close>,
  \<open>reconciler_pipeline.go\<close>, \<open>self_heal.go\<close>): loading and preparing the definition, the pipeline of
  deployment, observation, pruning, drift analysis and self-healing, and the stored result with its
  drift events.

  The record \<open>stack_env\<close> holds the answers from outside: the loaded and prepared definition, the result
  of the deployment controller, the live services, the Swarm API, and the database faults. The pipeline
  library runs its steps in order, skips a step whose condition is false and stops at the first error.
  Loops over Go maps go through the keys in sorted order. The cleanup of rotated resources that may
  follow changes nothing here and is modelled in \<open>ResourceRotation\<close>; what the preparation does is in
  \<open>StackPreparation\<close>. Metrics, spans and log lines are left out.
\<close>

section \<open>Payload\<close>

text \<open>
  After the analysis \<open>Drift\<close> and \<open>RemainingDrift\<close> are one Go map until the verification of a self-heal
  replaces the second: a write to the remaining drift changes both while they are shared.
\<close>

datatype drift_maps = NotAnalyzed | Shared drifts | Separate drifts drifts

fun initial_drift :: "drift_maps \<Rightarrow> drifts" where
  "initial_drift NotAnalyzed = fmempty"
| "initial_drift (Shared m) = m"
| "initial_drift (Separate d r) = d"

fun remaining_drift :: "drift_maps \<Rightarrow> drifts" where
  "remaining_drift NotAnalyzed = fmempty"
| "remaining_drift (Shared m) = m"
| "remaining_drift (Separate d r) = r"

fun write_remaining :: "(drifts \<Rightarrow> drifts) \<Rightarrow> drift_maps \<Rightarrow> drift_maps" where
  "write_remaining f NotAnalyzed = NotAnalyzed"
| "write_remaining f (Shared m) = Shared (f m)"
| "write_remaining f (Separate d r) = Separate d (f r)"

record heal_error =
  he_Text :: string
  he_ErrConvergenceFailed :: bool

datatype heal_failure =
    VerifyStateFailed string | AnalyzeResultFailed policy_error | RestoreService string heal_error
  | VerifyService string string

record remediation =
  rem_attempted :: bool
  rem_applyErr :: "heal_error option"
  rem_converged :: bool
  rem_failure :: string

record payload =
  pl_Attempt :: "attempt option"
  pl_Stack :: stack_spec
  pl_Commit :: string
  pl_IsNewDigest :: bool
  pl_IsManualSync :: bool
  pl_HasPreviousDrift :: bool
  pl_Desired :: "compose_service list"
  pl_LiveServices :: "live_service list"
  pl_PrunedServices :: "string list"
  pl_ExecutionError :: string
  pl_RetryDeferred :: bool
  pl_RegistryAuthError :: "exec_failure list"
  pl_ProtectedServices :: "string list"
  pl_Drifts :: drift_maps
  pl_Remediations :: "(string, remediation) gomap"
  pl_PendingSelfHeal :: "(string, bool) gomap"
  pl_RemediationErr :: "heal_failure list"

datatype preparation_failure = ReadComposeError | ParseComposeError | ValidateComposeError | OtherPreparationError

datatype step_error =
    ExecuteFailed "exec_failure list" | ListFailed string | PruneFailed "(string \<times> prune_error) list"
  | AnalyzeFailed policy_error | SelfHealPolicyFailed string policy_error

record desired_file =
  df_Services :: "compose_service list"
  df_Digest :: string

record stack_env =
  se_Load :: "preparation_failure + desired_file"
  se_ReadFault :: "gitops_error option"
  se_Prepare :: "compose_service list \<Rightarrow> compose_service list \<times> (string \<times> preparation_failure) option"
  se_Execute :: "payload \<Rightarrow> live_service list execute_result \<times> exec_failure list"
  se_List :: "string + live_service list"
  se_VerifyList :: "string + live_service list"
  se_Remove :: "string \<Rightarrow> remove_error option"
  se_PruneFault :: "string \<Rightarrow> gitops_error option"
  se_Heal :: "string \<Rightarrow> bool \<Rightarrow> heal_error option"
  se_Policy :: sync_policy_spec
  se_FailureFault :: "gitops_error option"
  se_PersistFault :: "gitops_error option"
  se_Now :: gotime
  se_ServiceNow :: gotime

section \<open>Pipeline steps\<close>

definition executeDeployment :: "stack_env \<Rightarrow> payload \<Rightarrow> step_error option \<times> payload" where
  "executeDeployment env pl =
     (case se_Execute env pl of
        (r, errs) \<Rightarrow>
          let pl1 = pl\<lparr>pl_Attempt := er_Attempt r,
                pl_LiveServices := (case er_LiveServices r of None \<Rightarrow> [] | Some live \<Rightarrow> live),
                pl_PrunedServices := er_PrunedServices r, pl_ExecutionError := er_ErrorCode r,
                pl_RetryDeferred := er_RetryDeferred r, pl_ProtectedServices := er_UnresolvedServices r\<rparr>
          in if list_ex (\<lambda>e. case e of RegistryAuthRefresh _ \<Rightarrow> True | _ \<Rightarrow> False) errs
             then (None, pl1\<lparr>pl_RegistryAuthError := errs\<rparr>)
             else if errs = [] then (None, pl1) else (Some (ExecuteFailed errs), pl1))"

definition loadLiveState :: "stack_env \<Rightarrow> payload \<Rightarrow> step_error option \<times> payload" where
  "loadLiveState env pl =
     (if pl_Attempt pl \<noteq> None then (None, pl)
      else case se_List env of
             Inl e \<Rightarrow> (Some (ListFailed e), pl)
           | Inr live \<Rightarrow> (None, pl\<lparr>pl_LiveServices := live\<rparr>))"

definition pruneOrphanedServices :: "stack_env \<Rightarrow> payload \<Rightarrow> gitops_db \<Rightarrow> (step_error option \<times> payload) \<times> gitops_db" where
  "pruneOrphanedServices env pl db =
     (if pl_Attempt pl \<noteq> None \<or> pl_RetryDeferred pl then ((None, pl), db)
      else case prune (se_Remove env) (se_PruneFault env) (se_Policy env) (pl_Stack pl) (pl_Commit pl)
                  (pl_Desired pl) (pl_LiveServices pl) db of
             ((pruned, errs), db') \<Rightarrow>
               (if errs \<noteq> [] then (Some (PruneFailed errs), pl) else (None, pl\<lparr>pl_PrunedServices := pruned\<rparr>), db'))"

definition analyzeDrift :: "payload \<Rightarrow> step_error option \<times> payload" where
  "analyzeDrift pl =
     (if \<not> (pl_Attempt pl = None \<or> pl_IsManualSync pl \<or> pl_HasPreviousDrift pl) then (None, pl)
      else case analyze (pl_Desired pl) (pl_LiveServices pl) of
             Inl e \<Rightarrow> (Some (AnalyzeFailed e), pl\<lparr>pl_Drifts := NotAnalyzed\<rparr>)
           | Inr drifts \<Rightarrow> (None, pl\<lparr>pl_Drifts := Shared drifts\<rparr>))"

text \<open>\<open>healService\<close>: the service is restored, or its convergence only verified.\<close>

definition healService :: "stack_env \<Rightarrow> compose_service \<Rightarrow> bool \<Rightarrow> payload \<Rightarrow> step_error option \<times> payload" where
  "healService env s verifyOnly pl =
     (case resolveSelfHeal s (stack_SelfHeal (pl_Stack pl)) (policy_SelfHeal (se_Policy env)) of
        Inl e \<Rightarrow> (Some (SelfHealPolicyFailed (cmp_Name s) e), pl)
      | Inr (policy, enabled) \<Rightarrow>
          if \<not> enabled \<and> \<not> verifyOnly then (None, pl)
          else (None, pl\<lparr>pl_Remediations := fmupd (cmp_Name s)
                 \<lparr>rem_attempted = True, rem_applyErr = se_Heal env (cmp_Name s) verifyOnly, rem_converged = False,
                  rem_failure = ''''\<rparr> (pl_Remediations pl)\<rparr>))"

fun heal_loop :: "stack_env \<Rightarrow> compose_service list \<Rightarrow> payload \<Rightarrow> step_error option \<times> payload" where
  "heal_loop env [] pl = (None, pl)"
| "heal_loop env (s # ss) pl =
     (let drifted = has_key (initial_drift (pl_Drifts pl)) (cmp_Name s)
      in if pl_RetryDeferred pl \<and> cmp_Name s \<in> set (pl_ProtectedServices pl) then heal_loop env ss pl
         else if \<not> drifted \<and> \<not> map_true (pl_PendingSelfHeal pl) (cmp_Name s) then heal_loop env ss pl
         else case healService env s (\<not> drifted) pl of
                (Some e, pl1) \<Rightarrow> (Some e, pl1)
              | (None, pl1) \<Rightarrow> heal_loop env ss pl1)"

definition selfHealDrift :: "stack_env \<Rightarrow> payload \<Rightarrow> step_error option \<times> payload" where
  "selfHealDrift env pl =
     (if \<not> (pl_Attempt pl = None \<and> (initial_drift (pl_Drifts pl) \<noteq> fmempty \<or> pl_PendingSelfHeal pl \<noteq> fmempty))
      then (None, pl)
      else heal_loop env (pl_Desired pl) (pl\<lparr>pl_Remediations := fmempty\<rparr>))"

definition hasRemediationAttempt :: "(string, remediation) gomap \<Rightarrow> bool" where
  "hasRemediationAttempt m \<longleftrightarrow> list_ex (\<lambda>n. rem_attempted (the (fmlookup m n))) (sorted_keys m)"

definition failed_remediation :: "remediation \<Rightarrow> remediation" where
  "failed_remediation r =
     r\<lparr>rem_failure :=
         (case rem_applyErr r of
            Some e \<Rightarrow> if he_ErrConvergenceFailed e then ''Self Heal Convergence Failed'' else ''Self Heal Verification Failed''
          | None \<Rightarrow> ''Self Heal Verification Failed'')\<rparr>"

definition mark_failed :: "string \<Rightarrow> payload \<Rightarrow> payload" where
  "mark_failed name pl =
     (case fmlookup (pl_Remediations pl) name of
        None \<Rightarrow> pl
      | Some r \<Rightarrow>
          if \<not> rem_attempted r then pl
          else
            let r1 = failed_remediation r;
                drift = no_drift\<lparr>sd_ServiceName := name, sd_Reason := rem_failure r1\<rparr>
            in pl\<lparr>pl_RemediationErr := pl_RemediationErr pl @
                    (case rem_applyErr r of None \<Rightarrow> [] | Some e \<Rightarrow> [RestoreService name e]),
                  pl_Drifts := write_remaining (\<lambda>m. if has_key m name then m else fmupd name drift m) (pl_Drifts pl),
                  pl_Remediations := fmupd name r1 (pl_Remediations pl)\<rparr>)"

definition markVerificationFailed :: "heal_failure \<Rightarrow> payload \<Rightarrow> payload" where
  "markVerificationFailed e pl =
     fold mark_failed (sorted_keys (pl_Remediations pl)) (pl\<lparr>pl_RemediationErr := pl_RemediationErr pl @ [e]\<rparr>)"

definition retained_drift :: "drifts \<Rightarrow> string \<Rightarrow> string \<Rightarrow> service_drift" where
  "retained_drift initial name failure =
     (case fmlookup initial name of
        Some d \<Rightarrow> if sd_ServiceName d = '''' then no_drift\<lparr>sd_ServiceName := name, sd_Reason := failure\<rparr> else d
      | None \<Rightarrow> no_drift\<lparr>sd_ServiceName := name, sd_Reason := failure\<rparr>)"

definition apply_verified :: "string \<Rightarrow> payload \<Rightarrow> payload" where
  "apply_verified name pl =
     (case fmlookup (pl_Remediations pl) name of
        None \<Rightarrow> pl
      | Some r \<Rightarrow>
          if \<not> rem_attempted r then pl
          else
            let found = fmlookup (remaining_drift (pl_Drifts pl)) name
            in if found = None \<and> rem_applyErr r = None
               then pl\<lparr>pl_Remediations := fmupd name (r\<lparr>rem_converged := True\<rparr>) (pl_Remediations pl)\<rparr>
               else
                 let failure = (case found of
                       Some d \<Rightarrow> ''Self Heal Verification Failed: '' @ sd_Reason d
                     | None \<Rightarrow> if (case rem_applyErr r of None \<Rightarrow> False | Some e \<Rightarrow> he_ErrConvergenceFailed e) then ''Self Heal Convergence Failed''
                               else ''Self Heal Execution Outcome Unknown'');
                     err = (case rem_applyErr r of
                       Some e \<Rightarrow> RestoreService name e
                     | None \<Rightarrow> VerifyService name (case found of Some d \<Rightarrow> sd_Reason d | None \<Rightarrow> ''''))
                 in pl\<lparr>pl_RemediationErr := pl_RemediationErr pl @ [err],
                       pl_Drifts := (if found = None
                         then write_remaining (fmupd name (retained_drift (initial_drift (pl_Drifts pl)) name failure)) (pl_Drifts pl)
                         else pl_Drifts pl),
                       pl_Remediations := fmupd name (r\<lparr>rem_failure := failure\<rparr>) (pl_Remediations pl)\<rparr>)"

definition applyVerifiedDrift :: "payload \<Rightarrow> payload" where
  "applyVerifiedDrift pl = fold apply_verified (sorted_keys (pl_Remediations pl)) pl"

definition verifySelfHeal :: "stack_env \<Rightarrow> payload \<Rightarrow> payload" where
  "verifySelfHeal env pl =
     (if \<not> hasRemediationAttempt (pl_Remediations pl) then pl
      else case se_VerifyList env of
             Inl e \<Rightarrow> markVerificationFailed (VerifyStateFailed e) pl
           | Inr live \<Rightarrow>
               (case analyze (pl_Desired pl) live of
                  Inl e \<Rightarrow> markVerificationFailed (AnalyzeResultFailed e) pl
                | Inr verified \<Rightarrow>
                    applyVerifiedDrift
                      (pl\<lparr>pl_LiveServices := live, pl_Drifts := Separate (initial_drift (pl_Drifts pl)) verified\<rparr>)))"

text \<open>The pipeline, with the name of the failing step.\<close>

definition pipeline ::
    "stack_env \<Rightarrow> payload \<Rightarrow> gitops_db \<Rightarrow> ((string \<times> step_error) option \<times> payload) \<times> gitops_db" where
  "pipeline env pl db =
     (case executeDeployment env pl of
        (Some e, pl1) \<Rightarrow> ((Some (''execute deployment'', e), pl1), db)
      | (None, pl1) \<Rightarrow>
          (case loadLiveState env pl1 of
             (Some e, pl2) \<Rightarrow> ((Some (''load live state'', e), pl2), db)
           | (None, pl2) \<Rightarrow>
               (case pruneOrphanedServices env pl2 db of
                  ((Some e, pl3), db1) \<Rightarrow> ((Some (''prune orphaned services'', e), pl3), db1)
                | ((None, pl3), db1) \<Rightarrow>
                    (case analyzeDrift pl3 of
                       (Some e, pl4) \<Rightarrow> ((Some (''analyze drift'', e), pl4), db1)
                     | (None, pl4) \<Rightarrow>
                         (case selfHealDrift env pl4 of
                            (Some e, pl5) \<Rightarrow> ((Some (''self-heal drift'', e), pl5), db1)
                          | (None, pl5) \<Rightarrow> ((None, verifySelfHeal env pl5), db1))))))"

section \<open>The result\<close>

definition zero_service :: service_state where
  "zero_service =
     \<lparr>svc_Image = '''', svc_SyncStatus = SyncUnspecified, svc_SyncError = '''', svc_SelfHealPending = False, svc_SyncAt = 0\<rparr>"

definition service_or_zero :: "(string, service_state) gomap \<Rightarrow> string \<Rightarrow> service_state" where
  "service_or_zero m n = (case fmlookup m n of None \<Rightarrow> zero_service | Some s \<Rightarrow> s)"

definition zero_stack :: stack_state where
  "zero_stack =
     \<lparr>stk_DriftedServices = fmempty, stk_SourceDigest = '''', stk_LastCommit = '''',
      stk_Status = \<lparr>ss_Synced = 0, ss_OutOfSynced = 0\<rparr>, stk_LastError = '''', stk_LastDeployAt = 0,
      stk_StateUpdatedAt = 0, stk_Services = fmempty\<rparr>"

definition stack_or_zero :: "(string, stack_state) gomap \<Rightarrow> string \<Rightarrow> stack_state" where
  "stack_or_zero m n = (case fmlookup m n of None \<Rightarrow> zero_stack | Some s \<Rightarrow> s)"

definition applySelfHealState :: "string \<Rightarrow> service_state \<Rightarrow> payload \<Rightarrow> service_state \<times> payload" where
  "applySelfHealState name st pl =
     (case fmlookup (pl_Remediations pl) name of
        None \<Rightarrow> (st, pl)
      | Some r \<Rightarrow>
          if \<not> rem_attempted r then (st, pl)
          else if rem_converged r
          then (st\<lparr>svc_SelfHealPending := False, svc_SyncStatus := Synced, svc_SyncError := ''''\<rparr>,
                pl\<lparr>pl_Drifts := write_remaining (fmdrop name) (pl_Drifts pl)\<rparr>)
          else (st\<lparr>svc_SelfHealPending := True, svc_SyncStatus := OutOfSync, svc_SyncError := rem_failure r\<rparr>, pl))"

text \<open>One iteration of the loop of \<open>processResult\<close>.\<close>

definition pending_service :: "stack_state \<Rightarrow> string \<Rightarrow> service_state \<Rightarrow> payload \<Rightarrow> service_state \<times> payload" where
  "pending_service prev name st pl =
     (if \<not> svc_SelfHealPending st then (st, pl)
      else
        let err = svc_SyncError (service_or_zero (stk_Services prev) name);
            drift = no_drift\<lparr>sd_ServiceName := name, sd_Reason := err\<rparr>
        in (st\<lparr>svc_SyncStatus := OutOfSync, svc_SyncError := err\<rparr>,
            pl\<lparr>pl_Drifts := write_remaining (\<lambda>m. if has_key m name then m else fmupd name drift m) (pl_Drifts pl)\<rparr>))"

definition drifted_service :: "string \<Rightarrow> service_state \<Rightarrow> payload \<Rightarrow> service_state" where
  "drifted_service name st pl =
     (case fmlookup (remaining_drift (pl_Drifts pl)) name of
        None \<Rightarrow> st | Some d \<Rightarrow> st\<lparr>svc_SyncStatus := OutOfSync, svc_SyncError := sd_Reason d\<rparr>)"

definition service_result ::
    "gotime \<Rightarrow> stack_state \<Rightarrow> compose_service \<Rightarrow> (string, service_state) gomap \<times> payload \<Rightarrow>
     (string, service_state) gomap \<times> payload" where
  "service_result now prev s acc =
     (case acc of
        (states, pl) \<Rightarrow>
          let name = cmp_Name s;
              st0 = \<lparr>svc_Image = cmp_Image s, svc_SyncStatus = Synced, svc_SyncError = '''',
                     svc_SelfHealPending = (pl_Attempt pl = None \<and> map_true (pl_PendingSelfHeal pl) name), svc_SyncAt = now\<rparr>;
              (st1, pl1) = pending_service prev name st0 pl;
              (st2, pl2) = applySelfHealState name (drifted_service name st1 pl1) pl1;
              st3 = (if pl_RetryDeferred pl2 \<and> name \<in> set (pl_ProtectedServices pl2)
                     then service_or_zero (stk_Services prev) name else st2)
          in (fmupd name st3 states, pl2))"

definition service_results where
  "service_results now prev pl = fold (service_result now prev) (pl_Desired pl) (fmempty, pl)"

definition drifted_services :: "stack_state \<Rightarrow> payload \<Rightarrow> (string, bool) gomap" where
  "drifted_services prev pl =
     (case pl_Drifts pl of
        NotAnalyzed \<Rightarrow> stk_DriftedServices prev | dm \<Rightarrow> fmmap (\<lambda>_. True) (remaining_drift dm))"

definition stack_result ::
    "gotime \<Rightarrow> string \<Rightarrow> string \<Rightarrow> stack_state \<Rightarrow> (string, service_state) gomap \<Rightarrow> payload \<Rightarrow> stack_state" where
  "stack_result now commit digest prev states pl =
     \<lparr>stk_DriftedServices = drifted_services prev pl, stk_SourceDigest = digest,
      stk_LastCommit = (if pl_RetryDeferred pl then stk_LastCommit prev else commit),
      stk_Status = newStackStatus states,
      stk_LastError = (if pl_RetryDeferred pl then stk_LastError prev else ''''),
      stk_LastDeployAt = (if pl_Attempt pl = None then stk_LastDeployAt prev else now),
      stk_StateUpdatedAt = now, stk_Services = states\<rparr>"

text \<open>\<open>publishServiceDriftEvents\<close>\<close>

definition service_drift_events :: "string \<Rightarrow> string \<Rightarrow> stack_state \<Rightarrow> payload \<Rightarrow> string \<Rightarrow> gitops_event list" where
  "service_drift_events stack commit prev pl name =
     (let initial = fmlookup (initial_drift (pl_Drifts pl)) name;
          final = fmlookup (remaining_drift (pl_Drifts pl)) name;
          unresolved = (final \<noteq> None);
          wasDrifted = map_true (stk_DriftedServices prev) name;
          detected = (case final of Some d \<Rightarrow> d | None \<Rightarrow> (case initial of Some d \<Rightarrow> d | None \<Rightarrow> no_drift))
      in (if (initial \<noteq> None \<or> unresolved) \<and> \<not> wasDrifted
          then [if sd_ServiceMissed detected then ServiceMissed stack name commit (\<not> unresolved)
                else ServiceDrifted stack name commit (sd_Reason detected) (\<not> unresolved)]
          else []) @
         (if \<not> unresolved \<and> (wasDrifted \<or> initial \<noteq> None) then [ServiceDriftFixed stack name commit] else []))"

definition publishDriftEvents :: "string \<Rightarrow> string \<Rightarrow> stack_state \<Rightarrow> payload \<Rightarrow> gitops_event list" where
  "publishDriftEvents stack commit prev pl =
     (if pl_Drifts pl = NotAnalyzed then []
      else concat (map (\<lambda>s. service_drift_events stack commit prev pl (cmp_Name s)) (pl_Desired pl)))"

definition persistResult ::
    "gitops_error option \<Rightarrow> string \<Rightarrow> string \<Rightarrow> stack_state \<Rightarrow> payload \<Rightarrow> stack_state \<Rightarrow> gitops_db \<Rightarrow>
     gitops_error option \<times> gitops_db" where
  "persistResult fault stack commit prev pl result =
     within_tx fault (\<lambda>db.
       (None, publish_all (publishDriftEvents stack commit prev pl)
                (db\<lparr>gd_runtime := (gd_runtime db)\<lparr>rt_Stacks := fmupd stack result (rt_Stacks (gd_runtime db))\<rparr>\<rparr>)))"

datatype stack_error =
    LoadFailed preparation_failure "gitops_error option" | StateReadFailed gitops_error
  | PrepareFailed string preparation_failure "gitops_error option"
  | StepFailed string step_error "gitops_error option"
  | PersistFailed gitops_error | SelfHealFailed "heal_failure list" | RegistryAuthFailed "exec_failure list"

definition processResult ::
    "stack_env \<Rightarrow> reconciliation_request \<Rightarrow> stack_state \<Rightarrow> string \<Rightarrow> payload \<Rightarrow> gitops_db \<Rightarrow> stack_error list \<times> gitops_db" where
  "processResult env req prev digest pl db =
     (case service_results (se_Now env) prev pl of
        (states, pl1) \<Rightarrow>
          let result = stack_result (se_Now env) (GitOpsConfig.req_Commit req) digest prev states pl1
          in case persistResult (se_PersistFault env) (request_name req) (GitOpsConfig.req_Commit req) prev pl1 result db of
               (Some e, db') \<Rightarrow> ([PersistFailed e], db')
             | (None, db') \<Rightarrow>
                 (if pl_RemediationErr pl1 \<noteq> [] then [SelfHealFailed (pl_RemediationErr pl1)] else [], db'))"

section \<open>Failures\<close>

definition preparationFailureStage :: "preparation_failure \<Rightarrow> string" where
  "preparationFailureStage cause =
     (case cause of
        ReadComposeError \<Rightarrow> ''source fetching''
      | ParseComposeError \<Rightarrow> ''validation'' | ValidateComposeError \<Rightarrow> ''validation''
      | OtherPreparationError \<Rightarrow> ''preparation'')"

definition failed_preparation_service ::
    "gotime \<Rightarrow> compose_service \<Rightarrow> (string, service_state) gomap \<Rightarrow> (string, service_state) gomap" where
  "failed_preparation_service now s m =
     (let previous = service_or_zero m (cmp_Name s)
      in fmupd (cmp_Name s)
           \<lparr>svc_Image = cmp_Image s, svc_SyncStatus = OutOfSync, svc_SyncError = svc_SyncError previous,
            svc_SelfHealPending = svc_SelfHealPending previous, svc_SyncAt = now\<rparr> m)"

definition failed_preparation ::
    "stack_env \<Rightarrow> string \<Rightarrow> compose_service list \<Rightarrow> stack_state \<Rightarrow> stack_state" where
  "failed_preparation env commit services st =
     (let states = fold (failed_preparation_service (se_ServiceNow env)) services (stk_Services st)
      in st\<lparr>stk_LastCommit := commit, stk_LastError := ''preparation_failed'', stk_StateUpdatedAt := se_Now env,
            stk_Services := states, stk_Status := newStackStatus states\<rparr>)"

definition recordFailure ::
    "stack_env \<Rightarrow> string \<Rightarrow> string \<Rightarrow> compose_service list \<Rightarrow> preparation_failure \<Rightarrow> gitops_db \<Rightarrow>
     gitops_error option \<times> gitops_db" where
  "recordFailure env stack commit services cause =
     within_tx (se_FailureFault env) (\<lambda>db.
       (None, publish_all [DeployPreparationFailed stack commit (preparationFailureStage cause) ''preparation_failed'']
                (db\<lparr>gd_runtime := (gd_runtime db)\<lparr>rt_Stacks :=
                   fmupd stack (failed_preparation env commit services (stack_or_zero (rt_Stacks (gd_runtime db)) stack))
                     (rt_Stacks (gd_runtime db))\<rparr>\<rparr>)))"

definition failed_attempt_service ::
    "gotime \<Rightarrow> compose_service \<Rightarrow> (string, service_state) gomap \<Rightarrow> (string, service_state) gomap" where
  "failed_attempt_service now s m =
     fmupd (cmp_Name s)
       \<lparr>svc_Image = cmp_Image s, svc_SyncStatus = OutOfSync, svc_SyncError = '''', svc_SelfHealPending = False, svc_SyncAt = now\<rparr> m"

definition failed_attempt :: "stack_env \<Rightarrow> string \<Rightarrow> stack_state \<Rightarrow> payload \<Rightarrow> stack_state" where
  "failed_attempt env commit prev pl =
     (let states = fold (failed_attempt_service (se_ServiceNow env)) (pl_Desired pl) (stk_Services prev)
      in prev\<lparr>stk_LastCommit := commit,
              stk_LastError := (if pl_ExecutionError pl = '''' then ''apply_failed'' else pl_ExecutionError pl),
              stk_StateUpdatedAt := se_Now env, stk_Services := states, stk_Status := newStackStatus states\<rparr>)"

definition recordPipelineFailure ::
    "stack_env \<Rightarrow> reconciliation_request \<Rightarrow> stack_state \<Rightarrow> payload \<Rightarrow> string \<times> step_error \<Rightarrow> gitops_db \<Rightarrow>
     stack_error \<times> gitops_db" where
  "recordPipelineFailure env req prev pl step db =
     (case (if pl_Attempt pl = None
            then recordFailure env (request_name req) (GitOpsConfig.req_Commit req) (pl_Desired pl) OtherPreparationError db
            else runtime_update (se_FailureFault env)
                   (\<lambda>rt. rt\<lparr>rt_Stacks := fmupd (request_name req) (failed_attempt env (GitOpsConfig.req_Commit req) prev pl) (rt_Stacks rt)\<rparr>) db) of
        (persistErr, db') \<Rightarrow> (StepFailed (fst step) (snd step) persistErr, db'))"

section \<open>Reconciliation\<close>

definition stackHasDrift :: "stack_state \<Rightarrow> bool" where
  "stackHasDrift st \<longleftrightarrow> stk_DriftedServices st \<noteq> fmempty"

definition new_payload :: "reconciliation_request \<Rightarrow> stack_state option \<Rightarrow> string \<Rightarrow> compose_service list \<Rightarrow> payload" where
  "new_payload req prev digest services =
     (let p = (case prev of None \<Rightarrow> zero_stack | Some st \<Rightarrow> st)
      in \<lparr>pl_Attempt = None, pl_Stack = GitOpsConfig.req_Stack req, pl_Commit = GitOpsConfig.req_Commit req,
          pl_IsNewDigest = (prev = None \<or> stk_SourceDigest p \<noteq> digest), pl_IsManualSync = req_IsManual req,
          pl_HasPreviousDrift = stackHasDrift p, pl_Desired = services, pl_LiveServices = [], pl_PrunedServices = [],
          pl_ExecutionError = '''', pl_RetryDeferred = False, pl_RegistryAuthError = [], pl_ProtectedServices = [],
          pl_Drifts = NotAnalyzed, pl_Remediations = fmempty,
          pl_PendingSelfHeal = fmmap (\<lambda>_. True) (fmfilter (\<lambda>n. svc_SelfHealPending (service_or_zero (stk_Services p) n)) (stk_Services p)),
          pl_RemediationErr = []\<rparr>)"

definition auth_errors :: "payload \<Rightarrow> stack_error list" where
  "auth_errors pl = (if pl_RegistryAuthError pl = [] then [] else [RegistryAuthFailed (pl_RegistryAuthError pl)])"

definition reconcile_stack :: "stack_env \<Rightarrow> reconciliation_request \<Rightarrow> gitops_db \<Rightarrow> stack_error list \<times> gitops_db" where
  "reconcile_stack env req db =
     (let name = request_name req; commit = GitOpsConfig.req_Commit req
      in case se_Load env of
           Inl e \<Rightarrow> (case recordFailure env name commit [] e db of (persistErr, db') \<Rightarrow> ([LoadFailed e persistErr], db'))
         | Inr file \<Rightarrow>
             (case se_ReadFault env of
                Some e \<Rightarrow> ([StateReadFailed e], db)
              | None \<Rightarrow>
                  let prev = fmlookup (rt_Stacks (gd_runtime db)) name;
                      p = stack_or_zero (rt_Stacks (gd_runtime db)) name
                  in case se_Prepare env (df_Services file) of
                       (services, Some (stage, e)) \<Rightarrow>
                         (case recordFailure env name commit services e db of
                            (persistErr, db') \<Rightarrow> ([PrepareFailed stage e persistErr], db'))
                     | (services, None) \<Rightarrow>
                         (case pipeline env (new_payload req prev (df_Digest file) services) db of
                            ((Some step, pl), db1) \<Rightarrow>
                              if pl_RetryDeferred pl then (StepFailed (fst step) (snd step) None # auth_errors pl, db1)
                              else (case recordPipelineFailure env req p pl step db1 of
                                      (err, db2) \<Rightarrow> (err # auth_errors pl, db2))
                          | ((None, pl), db1) \<Rightarrow>
                              (case processResult env req p (df_Digest file) pl db1 of
                                 (errs, db2) \<Rightarrow> (errs @ auth_errors pl, db2)))))"

section \<open>Drift episodes\<close>

text \<open>
  The events of one service replayed on its flag: an episode opens only when none is open and is fixed
  only when one is.
\<close>

fun episode :: "string \<Rightarrow> string \<Rightarrow> gitops_event \<Rightarrow> bool option \<Rightarrow> bool option" where
  "episode stack service (ServiceMissed st sv commit resolved) b =
     (if st = stack \<and> sv = service then (if b = Some False then Some True else None) else b)"
| "episode stack service (ServiceDrifted st sv commit reason resolved) b =
     (if st = stack \<and> sv = service then (if b = Some False then Some True else None) else b)"
| "episode stack service (ServiceDriftFixed st sv commit) b =
     (if st = stack \<and> sv = service then (if b = Some True then Some False else None) else b)"
| "episode stack service _ b = b"

definition replay :: "string \<Rightarrow> string \<Rightarrow> gitops_event list \<Rightarrow> bool \<Rightarrow> bool option" where
  "replay stack service evs b = fold (episode stack service) evs (Some b)"

definition drift_flag :: "gitops_db \<Rightarrow> string \<Rightarrow> string \<Rightarrow> bool" where
  "drift_flag db stack n = map_true (stk_DriftedServices (stack_or_zero (rt_Stacks (gd_runtime db)) stack)) n"

definition desired_services :: "stack_env \<Rightarrow> compose_service list" where
  "desired_services env =
     (case se_Load env of Inl _ \<Rightarrow> [] | Inr file \<Rightarrow> fst (se_Prepare env (df_Services file)))"

text \<open>Every drift and every remediation belongs to a desired service.\<close>

definition payload_ok :: "compose_service list \<Rightarrow> payload \<Rightarrow> bool" where
  "payload_ok services pl \<longleftrightarrow>
     pl_Desired pl = services \<and>
     (\<forall>n. has_key (remaining_drift (pl_Drifts pl)) n \<longrightarrow> n \<in> cmp_Name ` set services) \<and>
     (\<forall>n. has_key (pl_Remediations pl) n \<longrightarrow> n \<in> cmp_Name ` set services)"

lemma write_remaining_drift:
  "dm \<noteq> NotAnalyzed \<Longrightarrow> remaining_drift (write_remaining f dm) = f (remaining_drift dm)"
  "write_remaining f dm = NotAnalyzed \<longleftrightarrow> dm = NotAnalyzed"
  by (cases dm; simp)+

lemma payload_ok_write:
  assumes "payload_ok services pl" "\<And>m k. has_key (f m) k \<Longrightarrow> has_key m k \<or> k \<in> cmp_Name ` set services"
  shows "payload_ok services (pl\<lparr>pl_Drifts := write_remaining f (pl_Drifts pl)\<rparr>)"
proof -
  have "has_key (remaining_drift (write_remaining f dm)) k \<Longrightarrow> has_key (remaining_drift dm) k \<or> k \<in> cmp_Name ` set services" for dm k
    using assms(2) by (cases dm) auto
  then show ?thesis using assms(1) unfolding payload_ok_def by auto
qed

lemma payload_ok_remediated:
  "payload_ok services (pl\<lparr>pl_Drifts := dm\<rparr>) \<Longrightarrow> n \<in> cmp_Name ` set services \<Longrightarrow>
     payload_ok services (pl\<lparr>pl_RemediationErr := errs, pl_Drifts := dm, pl_Remediations := fmupd n r (pl_Remediations pl)\<rparr>)"
  "payload_ok services pl \<Longrightarrow> n \<in> cmp_Name ` set services \<Longrightarrow>
     payload_ok services (pl\<lparr>pl_Remediations := fmupd n r (pl_Remediations pl)\<rparr>)"
  by (auto simp: payload_ok_def)

lemma executeDeployment_ok: "payload_ok services pl \<Longrightarrow> payload_ok services (snd (executeDeployment env pl))"
  by (auto simp: executeDeployment_def payload_ok_def Let_def split: prod.splits)

lemma loadLiveState_ok: "payload_ok services pl \<Longrightarrow> payload_ok services (snd (loadLiveState env pl))"
  by (auto simp: loadLiveState_def payload_ok_def split: sum.splits)

lemma pruneOrphanedServices_ok: "payload_ok services pl \<Longrightarrow> payload_ok services (snd (fst (pruneOrphanedServices env pl db)))"
  by (auto simp: pruneOrphanedServices_def payload_ok_def split: prod.splits)

lemma analyzeDrift_ok: "payload_ok services pl \<Longrightarrow> payload_ok services (snd (analyzeDrift pl))"
  using analyze_dom by (auto simp: analyzeDrift_def payload_ok_def has_key_def split: sum.splits)

lemma heal_loop_ok:
  "payload_ok services pl \<Longrightarrow> set ss \<subseteq> set services \<Longrightarrow> payload_ok services (snd (heal_loop env ss pl))"
proof (induction env ss pl rule: heal_loop.induct)
  case (2 env s ss pl)
  have "payload_ok services (snd (healService env s v pl))" for v
    using 2 by (auto simp: healService_def payload_ok_def has_key_def split: sum.splits if_splits)
  then show ?case using 2 by (auto simp: Let_def split: prod.splits option.splits) (metis snd_conv)+
qed simp

lemma selfHealDrift_ok:
  assumes "payload_ok services pl"
  shows "payload_ok services (snd (selfHealDrift env pl))"
proof -
  have "payload_ok services (pl\<lparr>pl_Remediations := fmempty\<rparr>)" "set (pl_Desired pl) \<subseteq> set services"
    using assms by (simp_all add: payload_ok_def)
  from heal_loop_ok [OF this] assms show ?thesis by (simp add: selfHealDrift_def)
qed

lemma mark_failed_ok:
  assumes "payload_ok services pl"
  shows "payload_ok services (mark_failed n pl)"
proof (cases "fmlookup (pl_Remediations pl) n")
  case (Some r)
  then have n: "n \<in> cmp_Name ` set services" using assms by (auto simp: payload_ok_def)
  have "payload_ok services (pl\<lparr>pl_Drifts := write_remaining (\<lambda>m. if has_key m n then m else fmupd n d m) (pl_Drifts pl)\<rparr>)" for d
    using assms n by (intro payload_ok_write) (auto split: if_splits)
  from payload_ok_remediated(1) [OF this n] assms Some show ?thesis by (simp add: mark_failed_def Let_def)
qed (simp add: mark_failed_def assms)

lemma apply_verified_ok:
  assumes "payload_ok services pl"
  shows "payload_ok services (apply_verified n pl)"
proof (cases "fmlookup (pl_Remediations pl) n")
  case (Some r)
  then have n: "n \<in> cmp_Name ` set services" using assms by (auto simp: payload_ok_def)
  have "payload_ok services (pl\<lparr>pl_Drifts := write_remaining (fmupd n d) (pl_Drifts pl)\<rparr>)" for d
    using assms n by (intro payload_ok_write) auto
  moreover have "payload_ok services (pl\<lparr>pl_Drifts := pl_Drifts pl\<rparr>)" using assms by simp
  ultimately show ?thesis
    using payload_ok_remediated [OF _ n] assms Some by (cases "has_key (remaining_drift (pl_Drifts pl)) n")
      (simp_all add: apply_verified_def Let_def has_key_iff)
qed (simp add: apply_verified_def assms)

lemma fold_ok:
  assumes "\<And>n pl. payload_ok services pl \<Longrightarrow> payload_ok services (f n pl)" "payload_ok services pl"
  shows "payload_ok services (fold f ns pl)"
  using assms(2) by (induction ns arbitrary: pl) (auto simp: assms(1))

lemma verifySelfHeal_ok:
  assumes "payload_ok services pl"
  shows "payload_ok services (verifySelfHeal env pl)"
proof -
  have "payload_ok services (markVerificationFailed e pl)" for e
    unfolding markVerificationFailed_def
    by (rule fold_ok [OF mark_failed_ok]) (use assms in \<open>simp_all add: payload_ok_def\<close>)
  moreover have "payload_ok services (applyVerifiedDrift (pl\<lparr>pl_LiveServices := live, pl_Drifts := Separate d v\<rparr>))"
    if "analyze (pl_Desired pl) live = Inr v" for live d v
    unfolding applyVerifiedDrift_def
    by (rule fold_ok [OF apply_verified_ok]) (use assms analyze_dom [OF that] in \<open>auto simp: payload_ok_def has_key_iff\<close>)
  ultimately show ?thesis using assms by (auto simp: verifySelfHeal_def split: sum.splits)
qed

lemma pipeline_ok:
  assumes "payload_ok services pl"
  shows "payload_ok services (snd (fst (pipeline env pl db)))"
proof -
  obtain e1 p1 where 1: "executeDeployment env pl = (e1, p1)" by fastforce
  have p1: "payload_ok services p1" using executeDeployment_ok [OF assms, of env] 1 by simp
  obtain e2 p2 where 2: "loadLiveState env p1 = (e2, p2)" by fastforce
  have p2: "payload_ok services p2" using loadLiveState_ok [OF p1, of env] 2 by simp
  obtain e3 p3 db3 where 3: "pruneOrphanedServices env p2 db = ((e3, p3), db3)" by (metis prod.exhaust)
  have p3: "payload_ok services p3" using pruneOrphanedServices_ok [OF p2, of env db] 3 by simp
  obtain e4 p4 where 4: "analyzeDrift p3 = (e4, p4)" by fastforce
  have p4: "payload_ok services p4" using analyzeDrift_ok [OF p3] 4 by simp
  obtain e5 p5 where 5: "selfHealDrift env p4 = (e5, p5)" by fastforce
  have p5: "payload_ok services p5" using selfHealDrift_ok [OF p4, of env] 5 by simp
  show ?thesis
    using p1 p2 p3 p4 p5 verifySelfHeal_ok [OF p5, of env] by (simp add: pipeline_def 1 2 3 4 5 split: option.split)
qed

text \<open>The pipeline publishes at most pruned services and leaves the runtime state alone.\<close>

lemma pruneService_db:
  "pruneService remove fault cfg stack commit s db = (r, db') \<Longrightarrow>
     \<exists>evs. db' = publish_all evs db \<and> list_all (\<lambda>e. \<exists>st sv c. e = ServicePruned st sv c) evs"
  by (auto simp: pruneService_def publish_all_def intro: exI [of _ "[]"] split: if_splits option.splits remove_error.splits)

lemma prune_step_db:
  assumes "prune_step remove fault cfg stack commit desired s (pruned, errs, db) = (pruned', errs', db')"
  shows "\<exists>evs. db' = publish_all evs db \<and> list_all (\<lambda>e. \<exists>st sv c. e = ServicePruned st sv c) evs"
  using assms pruneService_db [of remove fault cfg stack commit s db]
  by (fastforce simp: prune_step_def publish_all_def intro: exI [of _ "[]"] split: if_splits prod.splits)

lemma prune_db:
  "snd (snd (fold (prune_step remove fault cfg stack commit desired) live (pruned, errs, db))) = db' \<Longrightarrow>
     \<exists>evs. db' = publish_all evs db \<and> list_all (\<lambda>e. \<exists>st sv c. e = ServicePruned st sv c) evs"
proof (induction live arbitrary: pruned errs db)
  case Nil
  then show ?case by (auto simp: publish_all_def intro: exI [of _ "[]"])
next
  case (Cons s live)
  obtain pruned1 errs1 db1 where s: "prune_step remove fault cfg stack commit desired s (pruned, errs, db) = (pruned1, errs1, db1)"
    by (metis prod.exhaust)
  from prune_step_db [OF s] Cons.IH [of pruned1 errs1 db1] Cons.prems s
  obtain evs1 evs2 where "db1 = publish_all evs1 db" "db' = publish_all evs2 db1"
    "list_all (\<lambda>e. \<exists>st sv c. e = ServicePruned st sv c) (evs1 @ evs2)" by auto
  then show ?case by (intro exI [of _ "evs1 @ evs2"]) (simp add: publish_all_def)
qed

lemma pipeline_db:
  "\<exists>evs. snd (pipeline env pl db) = publish_all evs db \<and> list_all (\<lambda>e. \<exists>st sv c. e = ServicePruned st sv c) evs"
proof -
  have none: "\<exists>evs. db = publish_all evs db \<and> list_all (\<lambda>e. \<exists>st sv c. e = ServicePruned st sv c) evs"
    by (rule exI [of _ "[]"]) (simp add: publish_all_def)
  have p: "\<exists>evs. snd (pruneOrphanedServices env pl2 db) = publish_all evs db \<and> list_all (\<lambda>e. \<exists>st sv c. e = ServicePruned st sv c) evs" for pl2
    using none prune_db [OF refl, of "se_Remove env" "se_PruneFault env" "se_Policy env" "pl_Stack pl2" "pl_Commit pl2"
        "pl_Desired pl2" "pl_LiveServices pl2" "[]" "[]" db]
    by (auto simp: pruneOrphanedServices_def prune_def split: prod.splits)
  obtain e1 p1 where 1: "executeDeployment env pl = (e1, p1)" by fastforce
  obtain e2 p2 where 2: "loadLiveState env p1 = (e2, p2)" by fastforce
  obtain e3 p3 db3 where 3: "pruneOrphanedServices env p2 db = ((e3, p3), db3)" by (metis prod.exhaust)
  obtain e4 p4 where 4: "analyzeDrift p3 = (e4, p4)" by fastforce
  obtain e5 p5 where 5: "selfHealDrift env p4 = (e5, p5)" by fastforce
  show ?thesis using none p [of p2] by (simp add: pipeline_def 1 2 3 4 5 split: option.split)
qed

lemma service_result_ok:
  assumes "payload_ok services pl" "s \<in> set services"
  shows "payload_ok services (snd (service_result now prev s (states, pl)))"
proof -
  let ?n = "cmp_Name s"
  have n: "?n \<in> cmp_Name ` set services" using assms(2) by simp
  have pend: "payload_ok services (snd (pending_service prev ?n st pl))" for st
    using assms(1) n by (auto simp: pending_service_def Let_def intro!: payload_ok_write split: if_splits)
  have heal: "payload_ok services (snd (applySelfHealState ?n st pl1))" if "payload_ok services pl1" for st pl1
    using that by (auto simp: applySelfHealState_def intro!: payload_ok_write split: option.split)
  show ?thesis
    using pend heal by (auto simp: service_result_def Let_def split: prod.splits) (metis snd_conv)
qed

lemma service_results_ok:
  assumes "payload_ok services pl"
  shows "payload_ok services (snd (service_results now prev pl))"
proof -
  have "payload_ok services (snd (fold (service_result now prev) ss (states, pl)))" if "set ss \<subseteq> set services" "payload_ok services pl"
    for ss states and pl :: payload
    using that
  proof (induction ss arbitrary: states pl)
    case (Cons s ss)
    obtain states1 pl1 where s: "service_result now prev s (states, pl) = (states1, pl1)" by fastforce
    then have "payload_ok services pl1" using service_result_ok [of services pl s now prev states] Cons.prems by simp
    then show ?case using Cons.IH [of pl1 states1] Cons.prems s by simp
  qed simp
  moreover have "set (pl_Desired pl) \<subseteq> set services" using assms by (simp add: payload_ok_def)
  ultimately show ?thesis unfolding service_results_def using assms by blast
qed

section \<open>Replaying the events of a reconciliation\<close>

lemma replay_append: "replay stack n (evs1 @ evs2) b = (case replay stack n evs1 b of None \<Rightarrow> fold (episode stack n) evs2 None | Some b' \<Rightarrow> replay stack n evs2 b')"
  by (simp add: replay_def split: option.split)

lemma replay_other: "(\<And>e b. e \<in> set evs \<Longrightarrow> episode stack n e b = b) \<Longrightarrow> replay stack n evs b = Some b"
proof -
  have "fold (episode stack n) evs b = b" if "\<And>e b. e \<in> set evs \<Longrightarrow> episode stack n e b = b" for b
    using that by (induction evs) auto
  then show "(\<And>e b. e \<in> set evs \<Longrightarrow> episode stack n e b = b) \<Longrightarrow> replay stack n evs b = Some b" by (simp add: replay_def)
qed

lemma replay_pruned: "list_all (\<lambda>e. \<exists>st sv c. e = ServicePruned st sv c) evs \<Longrightarrow> replay stack n evs b = Some b"
  by (rule replay_other) (auto simp: list_all_iff)

lemma service_drift_events_replay:
  "replay stack n (service_drift_events stack commit prev pl n) (map_true (stk_DriftedServices prev) n) =
     Some (has_key (remaining_drift (pl_Drifts pl)) n)"
  by (cases "fmlookup (remaining_drift (pl_Drifts pl)) n"; cases "fmlookup (initial_drift (pl_Drifts pl)) n")
    (auto simp: service_drift_events_def replay_def Let_def has_key_iff)

lemma service_drift_events_other:
  "m \<noteq> n \<Longrightarrow> e \<in> set (service_drift_events stack commit prev pl m) \<Longrightarrow> episode stack n e b = b"
  by (auto simp: service_drift_events_def Let_def split: if_splits)

lemma drift_events_replay:
  assumes "distinct (map cmp_Name ss)"
  shows "replay stack n (concat (map (\<lambda>s. service_drift_events stack commit prev pl (cmp_Name s)) ss))
      (map_true (stk_DriftedServices prev) n) =
    Some (if n \<in> cmp_Name ` set ss then has_key (remaining_drift (pl_Drifts pl)) n else map_true (stk_DriftedServices prev) n)"
proof -
  let ?ev = "\<lambda>s. service_drift_events stack commit prev pl (cmp_Name s)"
  have other: "replay stack n (concat (map ?ev xs)) b = Some b" if "n \<notin> cmp_Name ` set xs" for xs b
    using that by (intro replay_other) (auto dest!: service_drift_events_other [of _ n, rotated])
  show ?thesis
  proof (cases "n \<in> cmp_Name ` set ss")
    case True
    then obtain s where s: "s \<in> set ss" "n = cmp_Name s" by auto
    then obtain xs ys where ss: "ss = xs @ s # ys" by (meson split_list)
    with assms s have "n \<notin> cmp_Name ` set xs" "n \<notin> cmp_Name ` set ys" by auto
    with other [of xs] other [of ys] service_drift_events_replay [of stack n commit prev pl] show ?thesis
      by (simp add: ss s replay_append)
  qed (use other [of ss] in simp)
qed

definition episodes_follow :: "string \<Rightarrow> compose_service list \<Rightarrow> string \<Rightarrow> gitops_db \<Rightarrow> gitops_db \<Rightarrow> bool" where
  "episodes_follow stack services n db db' \<longleftrightarrow>
     (\<exists>evs. gd_events db' = gd_events db @ evs \<and>
        (if n \<in> cmp_Name ` set services then replay stack n evs (drift_flag db stack n) = Some (drift_flag db' stack n)
         else replay stack n evs (drift_flag db stack n) = Some (drift_flag db stack n) \<and>
              (drift_flag db' stack n \<longrightarrow> drift_flag db stack n)))"

lemma episodes_follow_kept:
  assumes "gd_events db' = gd_events db @ evs" "\<And>b. replay stack n evs b = Some b" "drift_flag db' stack n = drift_flag db stack n"
  shows "episodes_follow stack services n db db'"
  using assms by (auto simp: episodes_follow_def)

lemma episodes_follow_pruned:
  assumes "episodes_follow stack services n (publish_all evs db) db'" "list_all (\<lambda>e. \<exists>st sv c. e = ServicePruned st sv c) evs"
  shows "episodes_follow stack services n db db'"
proof -
  have "replay stack n (evs @ evs2) b = replay stack n evs2 b" for evs2 b
    using replay_pruned [OF assms(2)] by (simp add: replay_append)
  then show ?thesis
    using assms(1) unfolding episodes_follow_def drift_flag_def publish_all_def by fastforce
qed

lemma drift_flag_write:
  "drift_flag (publish_all evs (db\<lparr>gd_runtime := (gd_runtime db)\<lparr>rt_Stacks := fmupd stack st m\<rparr>\<rparr>)) stack n =
     map_true (stk_DriftedServices st) n"
  by (simp add: drift_flag_def stack_or_zero_def publish_all_def)

lemma recordFailure_episodes:
  assumes "recordFailure env stack commit services' cause db = (err, db')"
  shows "episodes_follow stack services n db db'"
proof (cases "se_FailureFault env")
  case None
  let ?ev = "DeployPreparationFailed stack commit (preparationFailureStage cause) ''preparation_failed''"
  have "gd_events db' = gd_events db @ [?ev]" "drift_flag db' stack n = drift_flag db stack n"
    using assms None
    by (auto simp: recordFailure_def within_tx_def drift_flag_write failed_preparation_def Let_def)
      (auto simp: publish_all_def drift_flag_def)
  from episodes_follow_kept [OF this(1) _ this(2)] show ?thesis by (simp add: replay_def)
next
  case (Some e)
  then have "db' = db" using assms by (simp add: recordFailure_def within_tx_def)
  then show ?thesis by (intro episodes_follow_kept [of _ _ "[]"]) (simp_all add: replay_def)
qed

lemma recordPipelineFailure_episodes:
  assumes "recordPipelineFailure env req (stack_or_zero (rt_Stacks (gd_runtime db)) (request_name req)) pl step db = (err, db')"
  shows "episodes_follow (request_name req) services n db db'"
proof (cases "pl_Attempt pl = None")
  case True
  then show ?thesis
    using assms recordFailure_episodes by (auto simp: recordPipelineFailure_def split: prod.splits)
next
  case False
  then have "gd_events db' = gd_events db @ []" "drift_flag db' (request_name req) n = drift_flag db (request_name req) n"
    using assms
    by (auto simp: recordPipelineFailure_def runtime_update_eq drift_flag_def stack_or_zero_def failed_attempt_def Let_def
        split: option.splits)
  from episodes_follow_kept [OF this(1) _ this(2)] show ?thesis by (simp add: replay_def)
qed

lemma drifted_services_flag:
  "map_true (drifted_services prev pl) n =
     (if pl_Drifts pl = NotAnalyzed then map_true (stk_DriftedServices prev) n else has_key (remaining_drift (pl_Drifts pl)) n)"
  by (cases "pl_Drifts pl") (auto simp: drifted_services_def map_true_def has_key_iff)

lemma processResult_episodes:
  assumes "processResult env req (stack_or_zero (rt_Stacks (gd_runtime db)) (request_name req)) digest pl db = (errs, db')"
    and "payload_ok services pl" "distinct (map cmp_Name services)"
  shows "episodes_follow (request_name req) services n db db'"
proof (cases "se_PersistFault env")
  case None
  let ?stack = "request_name req" and ?commit = "GitOpsConfig.req_Commit req"
  let ?prev = "stack_or_zero (rt_Stacks (gd_runtime db)) ?stack"
  obtain states pl1 where r: "service_results (se_Now env) ?prev pl = (states, pl1)" by fastforce
  have ok: "payload_ok services pl1" using service_results_ok [OF assms(2), of "se_Now env" ?prev] r by simp
  let ?evs = "publishDriftEvents ?stack ?commit ?prev pl1"
  have db': "gd_events db' = gd_events db @ ?evs" "drift_flag db' ?stack n = map_true (drifted_services ?prev pl1) n"
    using assms(1) None by (auto simp: processResult_def r persistResult_def within_tx_def drift_flag_write stack_result_def Let_def)
      (auto simp: publish_all_def)
  have "drift_flag db ?stack n = map_true (stk_DriftedServices ?prev) n" by (simp add: drift_flag_def)
  moreover have "replay ?stack n ?evs (map_true (stk_DriftedServices ?prev) n) =
      Some (if n \<in> cmp_Name ` set services then map_true (drifted_services ?prev pl1) n else map_true (stk_DriftedServices ?prev) n)"
    using drift_events_replay [OF assms(3), of ?stack n ?commit ?prev pl1] ok
    by (auto simp: publishDriftEvents_def drifted_services_flag payload_ok_def replay_def)
  moreover have "map_true (drifted_services ?prev pl1) n \<longrightarrow> map_true (stk_DriftedServices ?prev) n" if "n \<notin> cmp_Name ` set services"
    using that ok by (auto simp: drifted_services_flag payload_ok_def)
  ultimately show ?thesis using db' unfolding episodes_follow_def by auto
next
  case (Some e)
  then have "db' = db"
    using assms(1) by (auto simp: processResult_def persistResult_def within_tx_def Let_def split: prod.splits)
  then show ?thesis by (intro episodes_follow_kept [of _ _ "[]"]) (simp_all add: replay_def)
qed

lemma reconcile_episodes:
  assumes "reconcile_stack env req db = (errs, db')" "distinct (map cmp_Name (desired_services env))"
  shows "episodes_follow (request_name req) (desired_services env) n db db'"
proof (cases "se_Load env")
  case (Inl e)
  then show ?thesis
    using assms(1) recordFailure_episodes by (auto simp: reconcile_stack_def split: prod.splits)
next
  case (Inr f)
  have same: "episodes_follow (request_name req) (desired_services env) n db db"
    by (rule episodes_follow_kept [of _ _ "[]"]) (simp_all add: replay_def)
  obtain services perr where p: "se_Prepare env (df_Services f) = (services, perr)" by fastforce
  then have ds: "desired_services env = services" by (simp add: desired_services_def Inr)
  let ?name = "request_name req" and ?prev = "fmlookup (rt_Stacks (gd_runtime db)) (request_name req)"
  let ?pl0 = "new_payload req ?prev (df_Digest f) services"
  obtain step pl db1 where run: "pipeline env ?pl0 db = ((step, pl), db1)" by (metis prod.exhaust)
  have "payload_ok services ?pl0" by (simp add: payload_ok_def new_payload_def Let_def)
  from pipeline_ok [OF this, of env db] have ok: "payload_ok services pl" using run by simp
  obtain evs where evs: "db1 = publish_all evs db" "list_all (\<lambda>e. \<exists>st sv c. e = ServicePruned st sv c) evs"
    using pipeline_db [of env ?pl0 db] run by auto
  have rt: "stack_or_zero (rt_Stacks (gd_runtime db)) ?name = stack_or_zero (rt_Stacks (gd_runtime db1)) ?name"
    using evs(1) by (simp add: publish_all_def)
  have "episodes_follow ?name services n db1 db'" if "se_ReadFault env = None" "perr = None"
  proof (cases step)
    case None
    then show ?thesis
      using assms(1) that processResult_episodes [OF _ ok assms(2) [unfolded ds], of env req db1] Inr p run rt
      by (auto simp: reconcile_stack_def Let_def split: prod.splits)
  next
    case (Some st)
    have "episodes_follow ?name services n db1 db1" by (rule episodes_follow_kept [of _ _ "[]"]) (simp_all add: replay_def)
    then show ?thesis
      using assms(1) that recordPipelineFailure_episodes [of env req db1 pl st] Inr p run rt Some
      by (auto simp: reconcile_stack_def Let_def split: prod.splits if_splits)
  qed
  then show ?thesis
    using episodes_follow_pruned [of ?name services n evs db db'] evs same recordFailure_episodes assms(1) Inr p ds
    by (cases "se_ReadFault env"; cases perr) (auto simp: reconcile_stack_def Let_def split: prod.splits)
qed

text \<open>A reconciliation is one write of the stack steps of the synchronization runs.\<close>

definition stack_writes :: "gitops_db \<Rightarrow> gitops_db \<Rightarrow> bool" where
  "stack_writes db db' \<longleftrightarrow> (\<exists>stacks evs. db' = stack_write stacks evs db \<and> list_all stack_event evs)"

lemma stack_writes_publish:
  "list_all stack_event evs \<Longrightarrow> stack_writes db (publish_all evs (db\<lparr>gd_runtime := (gd_runtime db)\<lparr>rt_Stacks := m\<rparr>\<rparr>))"
  unfolding stack_writes_def stack_write_def by blast

lemma stack_writes_update: "stack_writes db (db\<lparr>gd_runtime := (gd_runtime db)\<lparr>rt_Stacks := m\<rparr>\<rparr>)"
  using stack_writes_publish [of "[]" db m] by (simp add: publish_all_def)

lemma stack_writes_refl: "stack_writes db db"
  using stack_writes_update [of db "rt_Stacks (gd_runtime db)"] by simp

lemma stack_writes_after:
  assumes "stack_writes (publish_all evs db) db'" "list_all stack_event evs"
  shows "stack_writes db db'"
proof -
  obtain stacks evs2 where "db' = stack_write stacks evs2 (publish_all evs db)" "list_all stack_event evs2"
    using assms(1) by (auto simp: stack_writes_def)
  then have "db' = stack_write stacks (evs @ evs2) db" "list_all stack_event (evs @ evs2)"
    using assms(2) by (simp_all add: stack_write_def publish_all_def)
  then show ?thesis unfolding stack_writes_def by blast
qed

lemma recordFailure_writes: "stack_writes db (snd (recordFailure env stack commit services cause db))"
  by (cases "se_FailureFault env") (simp_all add: recordFailure_def within_tx_def stack_writes_publish stack_writes_refl)

lemma publishDriftEvents_stack_event: "list_all stack_event (publishDriftEvents stack commit prev pl)"
  by (auto simp: publishDriftEvents_def service_drift_events_def Let_def list_all_iff split: if_splits)

lemma processResult_writes: "stack_writes db (snd (processResult env req prev digest pl db))"
proof -
  obtain states pl1 where "service_results (se_Now env) prev pl = (states, pl1)" by fastforce
  then show ?thesis
    by (cases "se_PersistFault env")
      (simp_all add: processResult_def persistResult_def within_tx_def Let_def stack_writes_refl
        stack_writes_publish publishDriftEvents_stack_event)
qed

lemma recordPipelineFailure_writes: "stack_writes db (snd (recordPipelineFailure env req prev pl step db))"
  using recordFailure_writes [of db env]
  by (auto simp: recordPipelineFailure_def runtime_update_eq stack_writes_refl stack_writes_update split: prod.splits option.splits)
    (metis snd_conv)+

lemma pipeline_writes:
  assumes "stack_writes (snd (pipeline env pl db)) db'"
  shows "stack_writes db db'"
proof -
  obtain evs where "snd (pipeline env pl db) = publish_all evs db" "list_all (\<lambda>e. \<exists>st sv c. e = ServicePruned st sv c) evs"
    using pipeline_db by blast
  moreover from this(2) have "list_all stack_event evs" by (induction evs) auto
  ultimately show ?thesis using assms stack_writes_after by simp
qed

lemma reconcile_stack_writes: "stack_writes db (snd (reconcile_stack env req db))"
proof (cases "se_Load env")
  case (Inl e)
  then show ?thesis using recordFailure_writes by (auto simp: reconcile_stack_def split: prod.splits) (metis snd_conv)
next
  case (Inr f)
  obtain services perr where p: "se_Prepare env (df_Services f) = (services, perr)" by fastforce
  let ?pl0 = "new_payload req (fmlookup (rt_Stacks (gd_runtime db)) (request_name req)) (df_Digest f) services"
  obtain step pl db1 where run: "pipeline env ?pl0 db = ((step, pl), db1)" by (metis prod.exhaust)
  let ?prev = "stack_or_zero (rt_Stacks (gd_runtime db)) (request_name req)"
  have after: "stack_writes db db'" if "stack_writes db1 db'" for db' using pipeline_writes [of env ?pl0 db db'] that run by simp
  have "stack_writes db (snd (recordPipelineFailure env req ?prev pl st db1))" "stack_writes db (snd (processResult env req ?prev (df_Digest f) pl db1))"
    "stack_writes db db1" for st
    by (rule after, rule recordPipelineFailure_writes processResult_writes stack_writes_refl)+
  moreover have "stack_writes db (snd (recordFailure env (request_name req) (GitOpsConfig.req_Commit req) services e db))" for e
    by (rule recordFailure_writes)
  ultimately show ?thesis
    by (cases "se_ReadFault env"; cases perr; cases step)
      (auto simp: reconcile_stack_def Inr p run Let_def stack_writes_refl split: prod.splits, (metis snd_conv)+)
qed

lemma reconcile_stack_step: "sync_step s (s\<lparr>sy_db := snd (reconcile_stack env req (sy_db s))\<rparr>)"
  using reconcile_stack_writes [of "sy_db s" env req] sync_step.stack_state unfolding stack_writes_def by metis

section \<open>A sample\<close>

definition sample_service :: compose_service where
  "sample_service = \<lparr>cmp_Name = ''api'', cmp_Image = ''api:1'', cmp_Labels = fmempty, cmp_Mode = '''', cmp_Replicas = Some 2\<rparr>"

definition sample_stack_env :: "live_service list \<Rightarrow> stack_env" where
  "sample_stack_env live =
     \<lparr>se_Load = Inr \<lparr>df_Services = [sample_service], df_Digest = ''d1''\<rparr>, se_ReadFault = None, se_Prepare = (\<lambda>ss. (ss, None)),
      se_Execute = (\<lambda>_. (empty_result, [])), se_List = Inr live, se_VerifyList = Inr live, se_Remove = (\<lambda>_. None),
      se_PruneFault = (\<lambda>_. None), se_Heal = (\<lambda>_ _. None), se_Policy = \<lparr>policy_Prune = False, policy_SelfHeal = False\<rparr>,
      se_FailureFault = None, se_PersistFault = None, se_Now = 9, se_ServiceNow = 9\<rparr>"

definition sample_drifted :: "stack_error list \<times> gitops_db" where
  "sample_drifted =
     reconcile_stack (sample_stack_env []) (sample_request ''web'' ''c1'') \<lparr>gd_runtime = empty_runtime, gd_events = []\<rparr>"

lemma sample_drifted_events:
  "gd_events (snd sample_drifted) = [ServiceMissed ''web'' ''api'' ''c1'' False] \<and> drift_flag (snd sample_drifted) ''web'' ''api''"
  by code_simp

section \<open>Properties\<close>

text \<open>
  C40. Drift episodes and their events go together: after a reconciliation, successful or failed at any
  stage, self-healed or not, the stored drift flag of every desired service of the stack is what its
  published events make of the flag before. An episode is opened only when none is open and fixed only
  when one is; a service outside the desired state gets no drift event and no new flag.
\<close>

theorem drift_episodes:
  assumes "reconcile_stack env req db = (errs, db')" "distinct (map cmp_Name (desired_services env))"
    and "stack = request_name req"
  shows "\<exists>evs. gd_events db' = gd_events db @ evs \<and>
    (if n \<in> cmp_Name ` set (desired_services env)
     then replay stack n evs (drift_flag db stack n) = Some (drift_flag db' stack n)
     else replay stack n evs (drift_flag db stack n) = Some (drift_flag db stack n) \<and>
          (drift_flag db' stack n \<longrightarrow> drift_flag db stack n))"
  using reconcile_episodes [OF assms(1,2), of n] unfolding episodes_follow_def assms(3) .

theorem drift_episodes_witness:
  "replay ''web'' ''api'' (gd_events (snd sample_drifted)) False = Some True"
proof -
  let ?db0 = "\<lparr>gd_runtime = empty_runtime, gd_events = []\<rparr> :: gitops_db"
  have run: "reconcile_stack (sample_stack_env []) (sample_request ''web'' ''c1'') ?db0 = (fst sample_drifted, snd sample_drifted)"
    by (simp add: sample_drifted_def)
  have svc: "desired_services (sample_stack_env []) = [sample_service]" "cmp_Name sample_service = ''api''"
    by (simp_all add: desired_services_def sample_stack_env_def sample_service_def)
  have "distinct (map cmp_Name (desired_services (sample_stack_env [])))" using svc by simp
  from drift_episodes [OF run this, of "''web''" "''api''"] svc sample_drifted_events
  show ?thesis by (simp add: drift_flag_def stack_or_zero_def zero_stack_def empty_runtime_def)
qed

end
