(* ===== verification/Projection.thy ===== *)
theory Projection
  imports StackLoop
begin

text \<open>
  The projection of completed deployments into the GitOps state
  (\<open>internal/modules/gitops/deployment/projection.go\<close>), fed by the completion events of the outbox.

  Events are delivered at least once and in any order; the subscriber projects an event only if it
  is about the latest attempt of the newest deployment of its stack, and only over an older state.
\<close>

definition projectionTime :: "attempt \<Rightarrow> gotime" where
  "projectionTime a = (case a_FinishedAt a of Some t \<Rightarrow> t | None \<Rightarrow> a_StartedAt a)"

fun projectionEvent :: "deployment_event \<Rightarrow> (string \<times> string \<times> status \<times> string) option" where
  "projectionEvent (DeploySuccess did aid stack commit) = Some (did, aid, Succeeded, '''')"
| "projectionEvent (DeployFailed did aid stack commit code stage) = Some (did, aid, Failed, code)"
| "projectionEvent (DeployInterrupted did aid stack commit reason stage) = Some (did, aid, Interrupted, reason)"
| "projectionEvent _ = None"

definition projected_service :: "attempt \<Rightarrow> status \<Rightarrow> string \<Rightarrow> string \<Rightarrow> service_state \<Rightarrow> service_state" where
  "projected_service a st code img s =
     s\<lparr>svc_Image := img, svc_SyncAt := projectionTime a,
       svc_SyncError := (if st = Succeeded then [] else code),
       svc_SyncStatus := (if st = Succeeded then Synced else OutOfSync)\<rparr>"

definition project_service ::
    "attempt \<Rightarrow> status \<Rightarrow> string \<Rightarrow> string \<times> string \<Rightarrow> (string, service_state) gomap \<Rightarrow> (string, service_state) gomap" where
  "project_service a st code s m = fmupd (fst s) (projected_service a st code (snd s) (service_or_zero m (fst s))) m"

definition project_stack ::
    "deployment \<Rightarrow> attempt \<Rightarrow> prepared \<Rightarrow> status \<Rightarrow> string \<Rightarrow> stack_state \<Rightarrow> stack_state" where
  "project_stack d a desired st code state =
     (let states = fold (project_service a st code) (file_Services (prep_Definition desired)) (stk_Services state)
      in state\<lparr>stk_SourceDigest := file_Digest (prep_Definition desired), stk_StateUpdatedAt := projectionTime a, stk_LastCommit := d_Commit d,
               stk_LastError := code, stk_LastDeployAt := a_StartedAt a, stk_Services := states,
               stk_Status := newStackStatus states\<rparr>)"

definition projectRuntime :: "deployment \<Rightarrow> attempt \<Rightarrow> prepared \<Rightarrow> status \<Rightarrow> string \<Rightarrow> runtime \<Rightarrow> runtime" where
  "projectRuntime d a desired st code rt =
     rt\<lparr>rt_Stacks := fmupd (d_Stack d)
          (project_stack d a desired st code (stack_or_zero (rt_Stacks rt) (d_Stack d))) (rt_Stacks rt)\<rparr>"

datatype projection_error = ReferenceMissing | DeploymentError store_error | RuntimeError gitops_error

text \<open>
  \<open>project\<close>: only the latest attempt of the newest deployment of the stack is projected, and only over
  an older state.
\<close>

definition project ::
    "deployment_db \<Rightarrow> string \<Rightarrow> string \<Rightarrow> status \<Rightarrow> string \<Rightarrow>
     gitops_db \<Rightarrow> projection_error option \<times> gitops_db" where
  "project ddb did aid st code db =
     (case get_deployment did ddb of
        Inl e \<Rightarrow> (Some (DeploymentError e), db)
      | Inr d \<Rightarrow>
          (case getAttempt aid ddb of
             Inl e \<Rightarrow> (Some (DeploymentError e), db)
           | Inr a \<Rightarrow>
               (case latest (d_Stack d) ddb of
                  Inl e \<Rightarrow> (Some (DeploymentError e), db)
                | Inr (l, desired) \<Rightarrow>
                    if d_ID l \<noteq> d_ID d \<or> d_LatestAttemptID l \<noteq> a_ID a then (None, db)
                    else
                      let current = stack_or_zero (rt_Stacks (gd_runtime db)) (d_Stack d)
                      in if \<not> IsZero (stk_StateUpdatedAt current) \<and> \<not> (stk_StateUpdatedAt current < projectionTime a)
                         then (None, db)
                         else (None, db\<lparr>gd_runtime := projectRuntime d a desired st code (gd_runtime db)\<rparr>))))"

definition handle ::
    "gitops_error option \<Rightarrow> deployment_db \<Rightarrow> deployment_event \<Rightarrow>
     gitops_db \<Rightarrow> projection_error option \<times> gitops_db" where
  "handle fault ddb e =
     (case projectionEvent e of
        None \<Rightarrow> (\<lambda>db. (None, db))
      | Some (did, aid, st, code) \<Rightarrow>
          if did = '''' \<or> aid = '''' then (\<lambda>db. (Some ReferenceMissing, db))
          else within_tx (map_option RuntimeError fault) (project ddb did aid st code))"

section \<open>Repeated and late deliveries\<close>

lemma projected_service_twice: "projected_service a st code i (projected_service a st code j s) = projected_service a st code i s"
  by (simp add: projected_service_def)

lemma service_or_zero_upd: "service_or_zero (fmupd k v m) n = (if n = k then v else service_or_zero m n)"
  by (simp add: service_or_zero_def)

lemma fold_project_service:
  "service_or_zero (fold (project_service a st code) ss m) n =
     (case find (\<lambda>s. fst s = n) (rev ss) of
        None \<Rightarrow> service_or_zero m n | Some s \<Rightarrow> projected_service a st code (snd s) (service_or_zero m n))"
  "fmlookup (fold (project_service a st code) ss m) n =
     (case find (\<lambda>s. fst s = n) (rev ss) of
        None \<Rightarrow> fmlookup m n | Some s \<Rightarrow> Some (projected_service a st code (snd s) (service_or_zero m n)))"
proof (induction ss rule: rev_induct)
  case (snoc s ss)
  let ?m = "fold (project_service a st code) ss m"
  have step: "fold (project_service a st code) (ss @ [s]) m = fmupd (fst s) (projected_service a st code (snd s) (service_or_zero ?m (fst s))) ?m"
    by (simp add: project_service_def [of a st code s])
  { case 1 show ?case unfolding step service_or_zero_upd
      using snoc(1) by (auto simp: projected_service_twice split: option.split) }
  { case 2 show ?case unfolding step
      using snoc by (auto simp: projected_service_twice split: option.split) }
qed simp_all

lemma fold_project_service_twice:
  "fold (project_service a st code) ss (fold (project_service a st code) ss m) = fold (project_service a st code) ss m"
proof (rule fmap_ext)
  fix n
  let ?m = "fold (project_service a st code) ss m"
  show "fmlookup (fold (project_service a st code) ss ?m) n = fmlookup ?m n"
    unfolding fold_project_service(2) [of a st code ss ?m]
    by (simp add: fold_project_service projected_service_twice split: option.split)
qed

lemma project_stack_twice:
  "project_stack d a desired st code (project_stack d a desired st code s) =
     project_stack d a desired st code s"
  by (simp add: project_stack_def Let_def fold_project_service_twice)

lemma projectRuntime_twice:
  "projectRuntime d a desired st code (projectRuntime d a desired st code rt) =
     projectRuntime d a desired st code rt"
  by (simp add: projectRuntime_def stack_or_zero_def project_stack_twice [unfolded stack_or_zero_def])

section \<open>Delivery order\<close>

text \<open>The deployment, attempt and desired state an event is projected from, if it is the current one.\<close>

definition selected :: "deployment_db \<Rightarrow> string \<Rightarrow> string \<Rightarrow> (deployment \<times> attempt \<times> prepared) option" where
  "selected ddb did aid =
     (case (get_deployment did ddb, getAttempt aid ddb) of
        (Inr d, Inr a) \<Rightarrow>
          (case latest (d_Stack d) ddb of
             Inl e \<Rightarrow> None
           | Inr (l, desired) \<Rightarrow> if d_ID l \<noteq> d_ID d \<or> d_LatestAttemptID l \<noteq> a_ID a then None else Some (d, a, desired))
      | _ \<Rightarrow> None)"

definition overtaken :: "attempt \<Rightarrow> stack_state \<Rightarrow> bool" where
  "overtaken a s \<longleftrightarrow> \<not> IsZero (stk_StateUpdatedAt s) \<and> \<not> (stk_StateUpdatedAt s < projectionTime a)"

definition project_selected :: "deployment \<times> attempt \<times> prepared \<Rightarrow> status \<times> string \<Rightarrow> runtime \<Rightarrow> runtime" where
  "project_selected sel oc rt =
     (case (sel, oc) of ((d, a, desired), st, code) \<Rightarrow>
        if overtaken a (stack_or_zero (rt_Stacks rt) (d_Stack d)) then rt else projectRuntime d a desired st code rt)"

lemma project_eq:
  "snd (project ddb did aid st code db) =
     (case selected ddb did aid of
        None \<Rightarrow> db | Some sel \<Rightarrow> db\<lparr>gd_runtime := project_selected sel (st, code) (gd_runtime db)\<rparr>)"
  by (cases "get_deployment did ddb"; cases "getAttempt aid ddb")
    (auto simp: project_def selected_def project_selected_def overtaken_def Let_def split: sum.split)

definition event_update :: "deployment_db \<Rightarrow> deployment_event \<Rightarrow> runtime \<Rightarrow> runtime" where
  "event_update ddb e =
     (case projectionEvent e of
        None \<Rightarrow> (\<lambda>rt. rt)
      | Some (did, aid, oc) \<Rightarrow>
          if did = '''' \<or> aid = '''' then (\<lambda>rt. rt)
          else (case selected ddb did aid of None \<Rightarrow> (\<lambda>rt. rt) | Some sel \<Rightarrow> project_selected sel oc))"

definition deliver :: "deployment_db \<Rightarrow> deployment_event \<Rightarrow> gitops_db \<Rightarrow> gitops_db" where
  "deliver ddb e db = snd (handle None ddb e db)"

lemma project_fails: "project ddb did aid st code db = (Some e, db') \<Longrightarrow> db' = db"
  by (auto simp: project_def Let_def split: sum.splits prod.splits if_splits)

lemma deliver_eq: "deliver ddb e db = db\<lparr>gd_runtime := event_update ddb e (gd_runtime db)\<rparr>"
proof (cases "projectionEvent e")
  case (Some p)
  obtain did aid st code where p: "p = (did, aid, st, code)" by (metis prod_cases4)
  obtain err db' where r: "project ddb did aid st code db = (err, db')" by fastforce
  have "snd (within_tx None (project ddb did aid st code) db) = snd (project ddb did aid st code db)"
    using project_fails [of ddb did aid st code db] r by (cases err) (auto simp: within_tx_def)
  then show ?thesis
    using Some p by (simp add: deliver_def handle_def event_update_def project_eq split: option.split)
qed (simp add: deliver_def handle_def event_update_def)

lemma fold_deliver: "fold (deliver ddb) es db = db\<lparr>gd_runtime := fold (event_update ddb) es (gd_runtime db)\<rparr>"
  by (induction es arbitrary: db) (simp_all add: deliver_eq)

lemma selected_ids:
  assumes "selected ddb did aid = Some (d, a, desired)"
  shows "d_ID d = did \<and> a_ID a = aid \<and>
    (\<exists>l. latest (d_Stack d) ddb = Inr (l, desired) \<and> d_ID l = did \<and> d_LatestAttemptID l = aid)"
proof -
  have d: "get_deployment did ddb = Inr d" and a: "getAttempt aid ddb = Inr a"
    using assms by (auto simp: selected_def split: sum.splits prod.splits if_splits)
  have "d_ID d = did"
    using d by (auto simp: get_deployment_def find_deployment_def deployment_of_def find_Some_iff split: option.splits)
  moreover have "a_ID a = aid"
    using a by (auto simp: getAttempt_def attempt_of_def find_Some_iff split: option.splits)
  ultimately show ?thesis
    using assms d a by (auto simp: selected_def split: sum.splits prod.splits if_splits)
qed

text \<open>A projection writes the entry of its stack only, and decides on that entry only.\<close>

lemma project_selected_lookup:
  "fmlookup (rt_Stacks (project_selected (d, a, desired) (st, code) rt)) n =
     (if n = d_Stack d \<and> \<not> overtaken a (stack_or_zero (rt_Stacks rt) n)
      then Some (project_stack d a desired st code (stack_or_zero (rt_Stacks rt) n))
      else fmlookup (rt_Stacks rt) n)"
  by (auto simp: project_selected_def projectRuntime_def)

lemma project_selected_rest: "project_selected sel oc rt = rt\<lparr>rt_Stacks := rt_Stacks (project_selected sel oc rt)\<rparr>"
  by (simp add: project_selected_def projectRuntime_def split: prod.split)

lemma project_selected_updates: "\<exists>m. project_selected sel oc rt = rt\<lparr>rt_Stacks := m\<rparr>"
  using project_selected_rest by blast

lemma project_selected_updates2: "\<exists>m. project_selected sel oc (project_selected sel' oc' rt) = rt\<lparr>rt_Stacks := m\<rparr>"
proof -
  obtain m where "project_selected sel' oc' rt = rt\<lparr>rt_Stacks := m\<rparr>" using project_selected_updates by blast
  moreover obtain m' where "project_selected sel oc (project_selected sel' oc' rt) =
      (project_selected sel' oc' rt)\<lparr>rt_Stacks := m'\<rparr>" using project_selected_updates by blast
  ultimately show ?thesis by auto
qed

lemma runtime_ext:
  assumes "\<exists>m. rt = base\<lparr>rt_Stacks := m\<rparr>" "\<exists>m. rt' = base\<lparr>rt_Stacks := m\<rparr>"
    and "\<And>n. fmlookup (rt_Stacks rt) n = fmlookup (rt_Stacks rt') n"
  shows "rt = (rt' :: runtime)"
proof -
  obtain m m' where m: "rt = base\<lparr>rt_Stacks := m\<rparr>" "rt' = base\<lparr>rt_Stacks := m'\<rparr>" using assms(1,2) by blast
  then have "m = m'" using assms(3) by (simp add: fmap_ext)
  with m show ?thesis by simp
qed

lemma project_selected_twice: "project_selected sel oc (project_selected sel oc rt) = project_selected sel oc rt"
  by (simp add: project_selected_def projectRuntime_twice split: prod.split)

lemma project_selected_commute:
  assumes "d_Stack d \<noteq> d_Stack d'"
  shows "project_selected (d, a, des) oc (project_selected (d', a', des') oc' rt) =
    project_selected (d', a', des') oc' (project_selected (d, a, des) oc rt)"
proof (rule runtime_ext [where base = rt])
  fix n
  show "fmlookup (rt_Stacks (project_selected (d, a, des) oc (project_selected (d', a', des') oc' rt))) n =
      fmlookup (rt_Stacks (project_selected (d', a', des') oc' (project_selected (d, a, des) oc rt))) n"
    using assms by (cases oc; cases oc') (auto simp: project_selected_lookup stack_or_zero_def)
qed (rule project_selected_updates2)+

text \<open>An attempt completes once, so two events about it carry the same outcome.\<close>

definition one_outcome :: "deployment_event list \<Rightarrow> bool" where
  "one_outcome es \<longleftrightarrow>
     (\<forall>e \<in> set es. \<forall>e' \<in> set es.
        case (projectionEvent e, projectionEvent e') of
          (Some (did, aid, oc), Some (did', aid', oc')) \<Rightarrow> did = did' \<and> aid = aid' \<longrightarrow> oc = oc'
        | _ \<Rightarrow> True)"

lemma selected_same_stack:
  assumes "selected ddb did aid = Some (d, a, des)" "selected ddb did' aid' = Some (d', a', des')" "d_Stack d = d_Stack d'"
  shows "did = did' \<and> aid = aid'"
  using selected_ids [OF assms(1)] selected_ids [OF assms(2)] assms(3) by auto

lemma event_update_cases:
  obtains "event_update ddb e = (\<lambda>rt. rt)"
  | did aid oc sel where "projectionEvent e = Some (did, aid, oc)" "selected ddb did aid = Some sel"
      "event_update ddb e = project_selected sel oc"
proof (cases "projectionEvent e")
  case (Some p)
  obtain did aid oc where p: "p = (did, aid, oc)" by (metis prod_cases3)
  show thesis
  proof (cases "did = [] \<or> aid = [] \<or> selected ddb did aid = None")
    case True
    then show thesis using that(1) Some p by (auto simp: event_update_def)
  next
    case False
    then show thesis using that(2) Some p by (auto simp: event_update_def)
  qed
qed (use that(1) in \<open>simp add: event_update_def\<close>)

lemma event_update_twice: "event_update ddb e (event_update ddb e rt) = event_update ddb e rt"
  by (rule event_update_cases [of ddb e]) (simp_all add: project_selected_twice)

lemma event_update_commute:
  assumes "one_outcome es" "e \<in> set es" "e' \<in> set es"
  shows "event_update ddb e (event_update ddb e' rt) = event_update ddb e' (event_update ddb e rt)"
proof (rule event_update_cases [of ddb e]; rule event_update_cases [of ddb e'])
  fix did aid oc sel did' aid' oc' sel'
  assume e: "projectionEvent e = Some (did, aid, oc)" "selected ddb did aid = Some sel" "event_update ddb e = project_selected sel oc"
    and e': "projectionEvent e' = Some (did', aid', oc')" "selected ddb did' aid' = Some sel'" "event_update ddb e' = project_selected sel' oc'"
  obtain d a des d' a' des' where sel: "sel = (d, a, des)" "sel' = (d', a', des')" by (metis prod_cases3)
  show ?thesis
  proof (cases "d_Stack d = d_Stack d'")
    case True
    then have same: "did = did' \<and> aid = aid'" using selected_same_stack e(2) e'(2) sel by blast
    moreover have "oc = oc'" using assms e(1) e'(1) same by (fastforce simp: one_outcome_def)
    ultimately have "sel = sel'" using e(2) e'(2) by simp
    with \<open>oc = oc'\<close> show ?thesis by (simp add: e(3) e'(3))
  next
    case False
    then show ?thesis by (simp add: e(3) e'(3) sel project_selected_commute)
  qed
qed simp_all

lemma fold_event_update_set:
  assumes "one_outcome es" "set es = set es'"
  shows "fold (event_update ddb) es rt = fold (event_update ddb) es' rt"
proof -
  have f: "comp_fun_idem_on (set es) (event_update ddb)"
    using event_update_commute [OF assms(1)] event_update_twice
    by unfold_locales (auto simp: fun_eq_iff)
  show ?thesis
    using comp_fun_idem_on.fold_set_fold [OF f, of es rt] comp_fun_idem_on.fold_set_fold [OF f, of es' rt] assms(2) by simp
qed

lemma event_update_keeps_projected:
  assumes "one_outcome (e # es)" "e' \<in> set (e # es)" and "projectionEvent e = Some (did, aid, oc)"
    and "selected ddb did aid = Some (d, a, des)" "did \<noteq> ''''" "aid \<noteq> ''''"
  shows "fmlookup (rt_Stacks (event_update ddb e' (event_update ddb e rt))) (d_Stack d) =
    fmlookup (rt_Stacks (event_update ddb e rt)) (d_Stack d)"
proof (rule event_update_cases [of ddb e'])
  fix did' aid' oc' sel
  assume e': "projectionEvent e' = Some (did', aid', oc')" "selected ddb did' aid' = Some sel" "event_update ddb e' = project_selected sel oc'"
  have e: "event_update ddb e = project_selected (d, a, des) oc" using assms(3-6) by (simp add: event_update_def)
  obtain d' a' des' where sel: "sel = (d', a', des')" by (metis prod_cases3)
  show ?thesis
  proof (cases "d_Stack d = d_Stack d'")
    case True
    then have same: "did = did' \<and> aid = aid'" using selected_same_stack assms(4) e'(2) sel by blast
    moreover have "oc = oc'" using assms(1-3) e'(1) same by (fastforce simp: one_outcome_def)
    ultimately show ?thesis using assms(4) e'(2) by (simp add: e e'(3) project_selected_twice)
  next
    case False
    then show ?thesis by (cases oc') (simp add: e'(3) sel project_selected_lookup)
  qed
qed simp

lemma fold_keeps_projected:
  assumes "one_outcome (e # es)" "set fs \<subseteq> set (e # es)" and "projectionEvent e = Some (did, aid, oc)"
    and "selected ddb did aid = Some (d, a, des)" "did \<noteq> ''''" "aid \<noteq> ''''"
  shows "fmlookup (rt_Stacks (fold (event_update ddb) fs (event_update ddb e rt))) (d_Stack d) =
    fmlookup (rt_Stacks (event_update ddb e rt)) (d_Stack d)"
  using assms(2)
proof (induction fs arbitrary: rt)
  case (Cons f fs)
  then show ?case
    using event_update_commute [OF assms(1), of f e ddb rt] event_update_keeps_projected [OF assms(1) _ assms(3-6), of f rt]
    by (simp add: event_update_commute [OF assms(1), of f e])
qed simp

section \<open>Property\<close>

text \<open>
  C10. The projected state does not depend on how the outbox delivers: whatever the order and however
  often each event is delivered, the GitOps state after the same set of completion events is the same
  (given that the events of an attempt agree on its outcome). The event about the latest attempt of
  the newest deployment decides the state of its stack alone, unless that state is already newer: late
  and repeated events of older attempts never overwrite it.
\<close>

theorem projection_order_irrelevant:
  assumes "one_outcome es" and "set es' = set es"
  shows "fold (deliver ddb) es' db = fold (deliver ddb) es db \<and>
    (\<forall>e \<in> set es. \<forall>did aid st code d a desired.
       projectionEvent e = Some (did, aid, st, code) \<and> did \<noteq> '''' \<and> aid \<noteq> '''' \<and>
       selected ddb did aid = Some (d, a, desired) \<longrightarrow>
       fmlookup (rt_Stacks (gd_runtime (fold (deliver ddb) es' db))) (d_Stack d) =
         (let old = fmlookup (rt_Stacks (gd_runtime db)) (d_Stack d); s = stack_or_zero (rt_Stacks (gd_runtime db)) (d_Stack d)
          in if overtaken a s then old else Some (project_stack d a desired st code s)))"
proof (intro conjI ballI allI impI)
  show same: "fold (deliver ddb) es' db = fold (deliver ddb) es db"
    using fold_event_update_set [OF assms(1), of es'] assms(2) by (simp add: fold_deliver)
  fix e did aid st code d a desired
  assume e: "e \<in> set es" and sel: "projectionEvent e = Some (did, aid, st, code) \<and> did \<noteq> '''' \<and> aid \<noteq> '''' \<and>
       selected ddb did aid = Some (d, a, desired)"
  have one: "one_outcome (e # es)" using assms(1) e by (simp add: one_outcome_def insert_absorb)
  have "fold (event_update ddb) es (gd_runtime db) = fold (event_update ddb) es (event_update ddb e (gd_runtime db))"
    using fold_event_update_set [OF assms(1), of "e # es"] e by (auto simp: insert_absorb)
  then have "fmlookup (rt_Stacks (fold (event_update ddb) es (gd_runtime db))) (d_Stack d) =
      fmlookup (rt_Stacks (event_update ddb e (gd_runtime db))) (d_Stack d)"
    using fold_keeps_projected [OF one] sel by force
  then show "fmlookup (rt_Stacks (gd_runtime (fold (deliver ddb) es' db))) (d_Stack d) =
      (let old = fmlookup (rt_Stacks (gd_runtime db)) (d_Stack d); s = stack_or_zero (rt_Stacks (gd_runtime db)) (d_Stack d)
       in if overtaken a s then old else Some (project_stack d a desired st code s))"
    unfolding same unfolding fold_deliver Let_def using sel by (simp add: event_update_def project_selected_lookup)
qed

definition sample_completed :: deployment_db where
  "sample_completed = snd (complete None ''a2'' sample_success 12 sample_second)"

definition sample_events :: "deployment_event list" where
  "sample_events = [DeployFailed ''d1'' ''a1'' ''app'' ''c1'' ''apply_failed'' ''apply'', DeploySuccess ''d2'' ''a2'' ''app'' ''c2'']"

definition sample_gitops :: gitops_db where
  "sample_gitops = \<lparr>gd_runtime = empty_runtime, gd_events = []\<rparr>"

theorem projection_order_irrelevant_witness:
  "fold (deliver sample_completed) (rev sample_events @ rev sample_events) sample_gitops =
     fold (deliver sample_completed) sample_events sample_gitops \<and>
   map_option stk_LastCommit (fmlookup (rt_Stacks (gd_runtime (fold (deliver sample_completed) (rev sample_events @ rev sample_events) sample_gitops))) ''app'') = Some ''c2''"
proof -
  have one: "one_outcome sample_events" by code_simp
  note order = projection_order_irrelevant [OF one, of "rev sample_events @ rev sample_events" sample_completed sample_gitops]
  have "map_option stk_LastCommit (fmlookup (rt_Stacks (gd_runtime (fold (deliver sample_completed) sample_events sample_gitops))) ''app'') = Some ''c2''"
    by code_simp
  then show ?thesis using order by simp
qed

end
