(* ===== verification/AlertStore.thy ===== *)
theory AlertStore
  imports Prelude "HOL-Library.Word" "HOL-Library.Product_Lexorder" "HOL-Library.Option_ord"
begin

text \<open>
  Alerts and their SQLite repository (\<open>internal/modules/alertmanagement/model\<close>, \<open>modelstore/sqlite.go\<close>)
  with the projection versions (\<open>internal/storage/projection.go\<close>).

  A row of the table \<open>alerts\<close> is the alert it is read back as; the primary key, the unique index on the
  fingerprint of open alerts and the CHECK on the resource are checks of the statements. The failure
  streaks and the versions of the projection \<open>alerts\<close> are finite maps. The events the subscriber
  publishes in the same transaction are the list \<open>ad_published\<close>. A failing statement, publication or
  commit is the fault of the transaction.
\<close>

section \<open>Data\<close>

datatype alert_status = AlertStatusOpen | AlertStatusResolved

datatype alert_kind =
  AlertKindSyncFailed | AlertKindNodeDisconnected | AlertKindGitRepositoryUnavailable | AlertKindServiceDrift

datatype resource_type = ResourceTypeStack | ResourceTypeNode | ResourceTypeRepository | ResourceTypeService

datatype resolution_reason = ResolutionReasonRecovered | ResolutionReasonResourceRemoved

record alert_resolution =
  res_Reason :: resolution_reason
  res_Message :: string
  res_EventID :: string

record alert =
  al_ID :: string
  al_Fingerprint :: string
  al_Kind :: alert_kind
  al_ResourceType :: resource_type
  al_ResourceID :: string
  al_Status :: alert_status
  al_Title :: string
  al_Message :: string
  al_FailureStage :: string
  al_ErrorCode :: string
  al_DeploymentID :: string
  al_Commit :: string
  al_Occurrences :: "64 word"
  al_OpenedAt :: gotime
  al_UpdatedAt :: gotime
  al_OpenEventID :: string
  al_LatestEventID :: string
  al_ResolvedAt :: "gotime option"
  al_Resolution :: "alert_resolution option"

fun alert_kind_string :: "alert_kind \<Rightarrow> string" where
  "alert_kind_string AlertKindSyncFailed = ''sync_failed''"
| "alert_kind_string AlertKindNodeDisconnected = ''node_disconnected''"
| "alert_kind_string AlertKindGitRepositoryUnavailable = ''git_repository_unavailable''"
| "alert_kind_string AlertKindServiceDrift = ''service_drift''"

fun resource_type_string :: "resource_type \<Rightarrow> string" where
  "resource_type_string ResourceTypeStack = ''stack''"
| "resource_type_string ResourceTypeNode = ''node''"
| "resource_type_string ResourceTypeRepository = ''repository''"
| "resource_type_string ResourceTypeService = ''service''"

definition fingerprint_of :: "alert_kind \<Rightarrow> resource_type \<Rightarrow> string \<Rightarrow> string" where
  "fingerprint_of k t rid = alert_kind_string k @ '':'' @ resource_type_string t @ '':'' @ rid"

definition SyncFailedFingerprint :: "string \<Rightarrow> string" where
  "SyncFailedFingerprint stackID = fingerprint_of AlertKindSyncFailed ResourceTypeStack stackID"

definition GitRepositoryUnavailableFingerprint :: "string \<Rightarrow> string" where
  "GitRepositoryUnavailableFingerprint repository =
     fingerprint_of AlertKindGitRepositoryUnavailable ResourceTypeRepository repository"

definition ServiceDriftFingerprint :: "string \<Rightarrow> string \<Rightarrow> string" where
  "ServiceDriftFingerprint stackName serviceName =
     fingerprint_of AlertKindServiceDrift ResourceTypeService (stackName @ ''/'' @ serviceName)"

definition NodeDisconnectedFingerprint :: "string \<Rightarrow> string" where
  "NodeDisconnectedFingerprint nodeID = fingerprint_of AlertKindNodeDisconnected ResourceTypeNode nodeID"

text \<open>The snapshot that notifications receive; the duration is kept as a value, not as text.\<close>

record alert_snapshot =
  snap_ID :: string
  snap_Kind :: alert_kind
  snap_Title :: string
  snap_Message :: string
  snap_ResourceType :: resource_type
  snap_ResourceID :: string
  snap_DeploymentID :: string
  snap_ErrorCode :: string
  snap_Occurrences :: "64 word"
  snap_Duration :: "duration option"
  snap_OpenedAt :: gotime
  snap_ResolvedAt :: "gotime option"
  snap_Resolution :: string
  snap_ResolutionReason :: "resolution_reason option"

record alert_recipient =
  rcp_BotIdentity :: string
  rcp_ChatID :: string
  rcp_ThreadID :: int

datatype lifecycle_event =
    AlertOpened alert_snapshot "alert_recipient list"
  | AlertResolved alert_snapshot "alert_recipient list"

record alert_db =
  ad_alerts :: "alert list"
  ad_streaks :: "(string, nat) gomap"
  ad_versions :: "(string, gotime \<times> string) gomap"
  ad_published :: "lifecycle_event list"

datatype alert_error =
    ErrAlertNotFound | ErrAlertOpenedAtChanged | ErrOpenAlertExists
  | TimestampsRequired | ResolvedTimestampRequired | CheckConstraint | PrimaryKeyConstraint
  | OccurrenceTimeRequired | SourceRequired | ConfigurationNotReady | AlertStoreFault

definition MaxStoredAlerts :: nat where
  "MaxStoredAlerts = 100"

definition is_open :: "alert \<Rightarrow> bool" where
  "is_open a \<longleftrightarrow> al_Status a = AlertStatusOpen"

section \<open>Statements\<close>

definition FindOpenByFingerprint :: "string \<Rightarrow> alert_db \<Rightarrow> alert option" where
  "FindOpenByFingerprint fp db = find (\<lambda>a. al_Fingerprint a = fp \<and> is_open a) (ad_alerts db)"

definition get_alert :: "string \<Rightarrow> alert_db \<Rightarrow> alert option" where
  "get_alert aid db = find (\<lambda>a. al_ID a = aid) (ad_alerts db)"

record list_filter =
  lf_Status :: "alert_status option"
  lf_Kind :: "alert_kind option"
  lf_ResourceType :: "resource_type option"
  lf_ResourceID :: string
  lf_DeploymentID :: string
  lf_Limit :: int

definition matches_filter :: "list_filter \<Rightarrow> alert \<Rightarrow> bool" where
  "matches_filter f a \<longleftrightarrow>
     (lf_Status f = None \<or> lf_Status f = Some (al_Status a)) \<and>
     (lf_Kind f = None \<or> lf_Kind f = Some (al_Kind a)) \<and>
     (lf_ResourceType f = None \<or> lf_ResourceType f = Some (al_ResourceType a)) \<and>
     (lf_ResourceID f = '''' \<or> lf_ResourceID f = al_ResourceID a) \<and>
     (lf_DeploymentID f = '''' \<or> lf_DeploymentID f = al_DeploymentID a)"

definition list_alerts :: "list_filter \<Rightarrow> alert_db \<Rightarrow> alert list" where
  "list_alerts f db =
     (let rows = sort_key (\<lambda>a. (- al_UpdatedAt a, al_ID a)) (filter (matches_filter f) (ad_alerts db))
      in if 0 < lf_Limit f then take (nat (lf_Limit f)) rows else rows)"

definition alertResolvedAt :: "alert \<Rightarrow> alert_error option" where
  "alertResolvedAt a =
     (if IsZero (al_OpenedAt a) \<or> IsZero (al_UpdatedAt a) then Some TimestampsRequired
      else case al_ResolvedAt a of
             None \<Rightarrow> None
           | Some t \<Rightarrow> if IsZero t then Some ResolvedTimestampRequired else None)"

definition insert_row :: "alert \<Rightarrow> alert list \<Rightarrow> alert_error + alert list" where
  "insert_row a rows =
     (if al_ResourceID a = '''' then Inl CheckConstraint
      else if \<exists>r \<in> set rows. al_ID r = al_ID a then Inl PrimaryKeyConstraint
      else if is_open a \<and> (\<exists>r \<in> set rows. is_open r \<and> al_Fingerprint r = al_Fingerprint a) then Inl ErrOpenAlertExists
      else Inr (rows @ [a]))"

definition same_incident :: "alert \<Rightarrow> alert \<Rightarrow> bool" where
  "same_incident a r \<longleftrightarrow> al_ID r = al_ID a \<and> al_OpenedAt r = al_OpenedAt a"

definition alertWriteMiss :: "alert \<Rightarrow> alert list \<Rightarrow> alert_error" where
  "alertWriteMiss a rows =
     (if \<exists>r \<in> set rows. al_ID r = al_ID a then ErrAlertOpenedAtChanged else ErrAlertNotFound)"

definition update_row :: "alert \<Rightarrow> alert list \<Rightarrow> alert_error + alert list" where
  "update_row a rows =
     (if \<not> (\<exists>r \<in> set rows. same_incident a r) then Inl (alertWriteMiss a rows)
      else if al_ResourceID a = '''' then Inl CheckConstraint
      else if is_open a \<and> (\<exists>r \<in> set rows. is_open r \<and> al_Fingerprint r = al_Fingerprint a \<and> al_ID r \<noteq> al_ID a)
      then Inl ErrOpenAlertExists
      else Inr (map (\<lambda>r. if same_incident a r then a else r) rows))"

text \<open>The oldest resolved alerts beyond the limit are deleted; open ones never are.\<close>

definition prune_victims :: "alert list \<Rightarrow> string list" where
  "prune_victims rows =
     map al_ID (take (length rows - MaxStoredAlerts)
       (sort_key (\<lambda>a. (al_ResolvedAt a, al_ID a)) (filter (\<lambda>a. \<not> is_open a) rows)))"

definition prune_rows :: "alert list \<Rightarrow> alert list" where
  "prune_rows rows = filter (\<lambda>a. al_ID a \<notin> set (prune_victims rows)) rows"

definition write_alert :: "alert \<Rightarrow> bool \<Rightarrow> alert_db \<Rightarrow> alert_error option \<times> alert_db" where
  "write_alert a upd db =
     (case alertResolvedAt a of
        Some e \<Rightarrow> (Some e, db)
      | None \<Rightarrow>
          (case (if upd then update_row a (ad_alerts db) else insert_row a (ad_alerts db)) of
             Inl e \<Rightarrow> (Some e, db)
           | Inr rows \<Rightarrow> (None, db\<lparr>ad_alerts := prune_rows rows\<rparr>)))"

definition create_alert :: "alert \<Rightarrow> alert_db \<Rightarrow> alert_error option \<times> alert_db" where
  "create_alert a = write_alert a False"

definition update_alert :: "alert \<Rightarrow> alert_db \<Rightarrow> alert_error option \<times> alert_db" where
  "update_alert a = write_alert a True"

section \<open>Failure streaks\<close>

definition IncrementFailureStreak :: "string \<Rightarrow> alert_db \<Rightarrow> nat \<times> alert_db" where
  "IncrementFailureStreak fp db =
     (let n = (case fmlookup (ad_streaks db) fp of None \<Rightarrow> 1 | Some k \<Rightarrow> k + 1)
      in (n, db\<lparr>ad_streaks := fmupd fp n (ad_streaks db)\<rparr>))"

definition ResetFailureStreak :: "string \<Rightarrow> alert_db \<Rightarrow> alert_db" where
  "ResetFailureStreak fp db = db\<lparr>ad_streaks := fmdrop fp (ad_streaks db)\<rparr>"

text \<open>SQLite's \<open>LIKE\<close>: case-insensitive for ASCII, \<open>%\<close> matches any string and \<open>_\<close> any character.\<close>

fun sql_like :: "string \<Rightarrow> string \<Rightarrow> bool" where
  "sql_like [] s \<longleftrightarrow> s = []"
| "sql_like (p # ps) [] \<longleftrightarrow> p = CHR ''%'' \<and> sql_like ps []"
| "sql_like (p # ps) (c # cs) \<longleftrightarrow>
     (if p = CHR ''%'' then sql_like ps (c # cs) \<or> sql_like (p # ps) cs
      else (p = CHR ''_'' \<or> lower_char p = lower_char c) \<and> sql_like ps cs)"

definition ResetFailureStreaksExcept :: "string list \<Rightarrow> alert_db \<Rightarrow> alert_db" where
  "ResetFailureStreaksExcept fps db =
     db\<lparr>ad_streaks := fmfilter (\<lambda>fp. \<not> (sql_like (fingerprint_of AlertKindSyncFailed ResourceTypeStack ''%'') fp \<and>
          (fps = [] \<or> fp \<notin> set fps))) (ad_streaks db)\<rparr>"

section \<open>Projection versions\<close>

definition AdvanceProjection :: "string \<Rightarrow> gotime \<Rightarrow> string \<Rightarrow> alert_db \<Rightarrow> (alert_error + bool) \<times> alert_db" where
  "AdvanceProjection resource at eid db =
     (if IsZero at then (Inl OccurrenceTimeRequired, db)
      else case fmlookup (ad_versions db) resource of
             None \<Rightarrow> (Inr True, db\<lparr>ad_versions := fmupd resource (at, eid) (ad_versions db)\<rparr>)
           | Some v \<Rightarrow> if v < (at, eid)
                       then (Inr True, db\<lparr>ad_versions := fmupd resource (at, eid) (ad_versions db)\<rparr>)
                       else (Inr False, db))"

definition ConsumeLatest ::
    "alert_error option \<Rightarrow> string \<Rightarrow> string \<Rightarrow> gotime \<Rightarrow> (alert_db \<Rightarrow> alert_error option \<times> alert_db) \<Rightarrow>
     alert_db \<Rightarrow> alert_error option \<times> alert_db" where
  "ConsumeLatest fault eid resource at apply_event db =
     (if eid = '''' \<or> IsZero at then (Some SourceRequired, db)
      else within_tx fault
             (\<lambda>db. case AdvanceProjection resource at eid db of
                     (Inl e, db) \<Rightarrow> (Some e, db)
                   | (Inr False, db) \<Rightarrow> (None, db)
                   | (Inr True, db) \<Rightarrow> apply_event db)
             db)"

end
