(* ===== verification/AlertSubscriber.thy ===== *)
theory AlertSubscriber
  imports AlertStore
begin

text \<open>
  The subscriber that turns source events into the lifecycle of alerts
  (\<open>internal/modules/alertmanagement/subscriber.go\<close>, \<open>node.go\<close>, \<open>sqlite_subscriber.go\<close>).

  The clock, the fresh identifiers (\<open>env_NewID\<close>, with a different argument for each place of a handler
  that draws one), the recipients, the desired stacks and the masking of error texts are the environment
  of a call.
  Masking is \<open>faults.SafeDiagnostic\<close>, regular expressions over the third-party \<open>envmasker\<close>; the empty
  text of a missing error stays empty. Wrapped error texts are dropped.
\<close>

section \<open>Events and environment\<close>

record source_error =
  serr_Text :: string
  serr_Temporary :: bool

datatype alert_source =
    ConfigurationChanged (previousRepository: string)
  | NodeDisconnected string
  | NodeConnected string
  | DeployFailed string string string string string "source_error option" "string list"
  | DeployPreparationFailed string string string string "source_error option"
  | DeployInterrupted string string string string string "source_error option"
  | DeploySuccess string
  | GitPullFailed string string string
  | GitPullSucceeded string
  | ServiceMissed string string string bool
  | ServiceDrifted string string string string bool
  | ServiceDriftFixed string string
  | ServiceRemovedFromDesired string string
  | OtherEvent

record alert_env =
  env_Now :: gotime
  env_NewID :: "nat \<Rightarrow> string"
  env_Recipients :: "alert_kind \<Rightarrow> alert_recipient list"
  env_Ready :: "bool option"
  env_Stacks :: "string list"
  env_SafeText :: "string \<Rightarrow> string"

definition temporaryFailureThreshold :: nat where
  "temporaryFailureThreshold = 3"

definition GitFailureNetwork :: string where
  "GitFailureNetwork = ''network''"

definition eventReferenceID :: "string \<Rightarrow> string \<Rightarrow> string" where
  "eventReferenceID eid fallback = (if eid \<noteq> '''' then eid else fallback)"

section \<open>Publication\<close>

text \<open>\<open>Duration.Round(time.Second)\<close> of a duration that is not negative: half a second rounds up.\<close>

definition round_second :: "duration \<Rightarrow> duration" where
  "round_second d = (d + second div 2) div second * second"

definition alertSnapshot :: "alert \<Rightarrow> alert_snapshot" where
  "alertSnapshot a =
     \<lparr>snap_ID = al_ID a, snap_Kind = al_Kind a, snap_Title = al_Title a, snap_Message = al_Message a,
      snap_ResourceType = al_ResourceType a, snap_ResourceID = al_ResourceID a,
      snap_DeploymentID = al_DeploymentID a, snap_ErrorCode = al_ErrorCode a, snap_Occurrences = al_Occurrences a,
      snap_Duration =
        (case al_ResolvedAt a of
           Some t \<Rightarrow> if al_Kind a = AlertKindGitRepositoryUnavailable
                      then Some (round_second (max 0 (t - al_OpenedAt a))) else None
         | None \<Rightarrow> None),
      snap_OpenedAt = al_OpenedAt a, snap_ResolvedAt = al_ResolvedAt a,
      snap_Resolution = (case al_Resolution a of None \<Rightarrow> '''' | Some r \<Rightarrow> res_Message r),
      snap_ResolutionReason = map_option res_Reason (al_Resolution a)\<rparr>"

definition publishOpened :: "alert_env \<Rightarrow> alert \<Rightarrow> alert_db \<Rightarrow> alert_db" where
  "publishOpened env a db =
     db\<lparr>ad_published := ad_published db @ [AlertOpened (alertSnapshot a) (env_Recipients env (al_Kind a))]\<rparr>"

definition publishResolved :: "alert_env \<Rightarrow> alert \<Rightarrow> alert_db \<Rightarrow> alert_db" where
  "publishResolved env a db =
     db\<lparr>ad_published := ad_published db @ [AlertResolved (alertSnapshot a) (env_Recipients env (al_Kind a))]\<rparr>"

section \<open>Shared steps of the handlers\<close>

definition resolve_alert :: "alert_env \<Rightarrow> resolution_reason \<Rightarrow> string \<Rightarrow> string \<Rightarrow> alert \<Rightarrow> alert_db \<Rightarrow> alert_error option \<times> alert_db" where
  "resolve_alert env reason msg ref a db =
     (let a' = a\<lparr>al_Status := AlertStatusResolved, al_UpdatedAt := env_Now env, al_ResolvedAt := Some (env_Now env),
                al_Resolution := Some \<lparr>res_Reason = reason, res_Message = msg, res_EventID = ref\<rparr>\<rparr>
      in case update_alert a' db of
           (Some e, db) \<Rightarrow> (Some e, db) | (None, db) \<Rightarrow> (None, publishResolved env a' db))"

definition resolve_open :: "alert_env \<Rightarrow> string \<Rightarrow> resolution_reason \<Rightarrow> string \<Rightarrow> string \<Rightarrow> alert_db \<Rightarrow> alert_error option \<times> alert_db" where
  "resolve_open env fp reason msg ref db =
     (case FindOpenByFingerprint fp db of
        None \<Rightarrow> (None, db) | Some a \<Rightarrow> resolve_alert env reason msg ref a db)"

definition updateConcurrentFailure ::
    "string \<Rightarrow> string \<Rightarrow> gotime \<Rightarrow> alert \<Rightarrow> bool \<Rightarrow> alert_error \<Rightarrow> alert_db \<Rightarrow> alert_error option \<times> alert_db" where
  "updateConcurrentFailure fp eid now incoming hasDiagnostic createErr db =
     (case FindOpenByFingerprint fp db of
        None \<Rightarrow> (Some createErr, db)
      | Some a \<Rightarrow>
          update_alert
            (a\<lparr>al_Occurrences := al_Occurrences a + 1, al_UpdatedAt := now, al_LatestEventID := eid,
               al_Message := (if hasDiagnostic \<or> al_Message a = '''' then al_Message incoming else al_Message a),
               al_Title := al_Title incoming, al_FailureStage := al_FailureStage incoming,
               al_ErrorCode := al_ErrorCode incoming, al_DeploymentID := al_DeploymentID incoming,
               al_Commit := al_Commit incoming\<rparr>) db)"

definition open_alert :: "alert_env \<Rightarrow> string \<Rightarrow> alert \<Rightarrow> bool \<Rightarrow> alert_db \<Rightarrow> alert_error option \<times> alert_db" where
  "open_alert env eid a hasDiagnostic db =
     (case create_alert a db of
        (None, db) \<Rightarrow> (None, publishOpened env a db)
      | (Some ErrOpenAlertExists, db) \<Rightarrow>
          updateConcurrentFailure (al_Fingerprint a) eid (env_Now env) a hasDiagnostic ErrOpenAlertExists db
      | (Some e, db) \<Rightarrow> (Some e, db))"

text \<open>An alert that a handler opens; the fields that not every kind sets are set afterwards.\<close>

definition new_alert ::
    "alert_env \<Rightarrow> string \<Rightarrow> string \<Rightarrow> alert_kind \<Rightarrow> resource_type \<Rightarrow> string \<Rightarrow> string \<Rightarrow> string \<Rightarrow> nat \<Rightarrow> alert" where
  "new_alert env aid eid k t rid title msg n =
     \<lparr>al_ID = aid, al_Fingerprint = fingerprint_of k t rid, al_Kind = k, al_ResourceType = t, al_ResourceID = rid,
      al_Status = AlertStatusOpen, al_Title = title, al_Message = msg, al_FailureStage = '''', al_ErrorCode = '''',
      al_DeploymentID = '''', al_Commit = '''', al_Occurrences = of_nat n, al_OpenedAt = env_Now env,
      al_UpdatedAt = env_Now env, al_OpenEventID = eid, al_LatestEventID = eid, al_ResolvedAt = None,
      al_Resolution = None\<rparr>"

section \<open>Handlers\<close>

definition handleServiceDrift ::
    "alert_env \<Rightarrow> string \<Rightarrow> string \<Rightarrow> string \<Rightarrow> string \<Rightarrow> string \<Rightarrow> bool \<Rightarrow> alert_db \<Rightarrow> alert_error option \<times> alert_db" where
  "handleServiceDrift env eventID stackName serviceName commit reason resolved db =
     (if resolved then (None, db)
      else
        let rid = stackName @ ''/'' @ serviceName;
            fp = ServiceDriftFingerprint stackName serviceName;
            eid = eventReferenceID eventID (env_NewID env 0)
        in case FindOpenByFingerprint fp db of
             Some a \<Rightarrow>
               update_alert (a\<lparr>al_Occurrences := al_Occurrences a + 1, al_UpdatedAt := env_Now env,
                 al_LatestEventID := eid, al_Message := reason, al_Commit := commit\<rparr>) db
           | None \<Rightarrow>
               open_alert env eid
                 ((new_alert env (env_NewID env 1) eid AlertKindServiceDrift ResourceTypeService rid
                     ''Service drift detected'' reason 1)\<lparr>al_Commit := commit\<rparr>) True db)"

definition handleServiceDriftFixed :: "alert_env \<Rightarrow> string \<Rightarrow> string \<Rightarrow> string \<Rightarrow> alert_db \<Rightarrow> alert_error option \<times> alert_db" where
  "handleServiceDriftFixed env eventID stackName serviceName db =
     resolve_open env (ServiceDriftFingerprint stackName serviceName) ResolutionReasonRecovered
       ''Service drift resolved'' (eventReferenceID eventID (env_NewID env 0)) db"

definition handleServiceRemovedFromDesired :: "alert_env \<Rightarrow> string \<Rightarrow> string \<Rightarrow> string \<Rightarrow> alert_db \<Rightarrow> alert_error option \<times> alert_db" where
  "handleServiceRemovedFromDesired env eventID stackName serviceName db =
     resolve_open env (ServiceDriftFingerprint stackName serviceName) ResolutionReasonResourceRemoved
       ''Service removed from desired configuration'' (eventReferenceID eventID (env_NewID env 0)) db"

definition handleGitPullFailed :: "alert_env \<Rightarrow> string \<Rightarrow> string \<Rightarrow> string \<Rightarrow> string \<Rightarrow> alert_db \<Rightarrow> alert_error option \<times> alert_db" where
  "handleGitPullFailed env eventID repository category description db0 =
     (let fp = GitRepositoryUnavailableFingerprint repository;
          (failures, db) = IncrementFailureStreak fp db0;
          eid = eventReferenceID eventID (env_NewID env 0)
      in case FindOpenByFingerprint fp db of
           Some a \<Rightarrow>
             update_alert (a\<lparr>al_Occurrences := al_Occurrences a + 1, al_UpdatedAt := env_Now env,
               al_LatestEventID := eid, al_Message := description, al_ErrorCode := category\<rparr>) db
         | None \<Rightarrow>
             if category = GitFailureNetwork \<and> failures < temporaryFailureThreshold then (None, db)
             else open_alert env eid
                    ((new_alert env (env_NewID env 1) eid AlertKindGitRepositoryUnavailable ResourceTypeRepository repository
                        ''Git repository unavailable'' description failures)
                       \<lparr>al_FailureStage := ''git_pull'', al_ErrorCode := category\<rparr>) True db)"

definition handleGitPullSucceeded :: "alert_env \<Rightarrow> string \<Rightarrow> string \<Rightarrow> alert_db \<Rightarrow> alert_error option \<times> alert_db" where
  "handleGitPullSucceeded env eventID repository db =
     (let fp = GitRepositoryUnavailableFingerprint repository
      in resolve_open env fp ResolutionReasonRecovered ''Git repository access recovered''
           (eventReferenceID eventID (env_NewID env 0)) (ResetFailureStreak fp db))"

definition handleGitRepositoryChanged :: "alert_env \<Rightarrow> string \<Rightarrow> string \<Rightarrow> alert_db \<Rightarrow> alert_error option \<times> alert_db" where
  "handleGitRepositoryChanged env eventID previous db =
     (let fp = GitRepositoryUnavailableFingerprint previous
      in resolve_open env fp ResolutionReasonResourceRemoved ''Git repository removed from configuration''
           (eventReferenceID eventID (env_NewID env 0)) (ResetFailureStreak fp db))"

text \<open>\<open>strings.Cut\<close> at the first slash.\<close>

fun cut_slash :: "string \<Rightarrow> (string \<times> string) option" where
  "cut_slash [] = None"
| "cut_slash (c # s) =
     (if c = CHR ''/'' then Some ([], s) else map_option (\<lambda>(a, b). (c # a, b)) (cut_slash s))"

definition alertStackName :: "alert \<Rightarrow> string option" where
  "alertStackName a =
     (if al_ResourceType a = ResourceTypeStack then Some (al_ResourceID a)
      else if al_Kind a = AlertKindServiceDrift \<and> al_ResourceType a = ResourceTypeService
      then map_option fst (cut_slash (al_ResourceID a))
      else None)"

definition removed_message :: "alert \<Rightarrow> string" where
  "removed_message a =
     (if al_Kind a = AlertKindServiceDrift then ''Service removed with stack from desired configuration''
      else ''Stack removed from desired configuration'')"

definition of_removed_stack :: "string list \<Rightarrow> alert \<Rightarrow> bool" where
  "of_removed_stack desired a \<longleftrightarrow> (case alertStackName a of None \<Rightarrow> False | Some n \<Rightarrow> n \<notin> set desired)"

fun resolve_removed :: "alert_env \<Rightarrow> string \<Rightarrow> nat \<Rightarrow> alert list \<Rightarrow> alert_db \<Rightarrow> alert_error option \<times> alert_db" where
  "resolve_removed env eventID n [] db = (None, db)"
| "resolve_removed env eventID n (a # as) db =
     (if of_removed_stack (env_Stacks env) a
      then case resolve_alert env ResolutionReasonResourceRemoved (removed_message a)
                  (eventReferenceID eventID (env_NewID env n)) a db of
             (Some e, db) \<Rightarrow> (Some e, db)
           | (None, db) \<Rightarrow> resolve_removed env eventID (n + 1) as db
      else resolve_removed env eventID n as db)"

definition open_filter :: list_filter where
  "open_filter = \<lparr>lf_Status = Some AlertStatusOpen, lf_Kind = None, lf_ResourceType = None, lf_ResourceID = '''',
     lf_DeploymentID = '''', lf_Limit = 0\<rparr>"

definition handleConfigurationChanged :: "alert_env \<Rightarrow> string \<Rightarrow> alert_db \<Rightarrow> alert_error option \<times> alert_db" where
  "handleConfigurationChanged env eventID db0 =
     (if env_Ready env = Some False then (Some ConfigurationNotReady, db0)
      else
        let db = ResetFailureStreaksExcept (map SyncFailedFingerprint (env_Stacks env)) db0
        in resolve_removed env eventID 0 (list_alerts open_filter db) db)"

record failure_details =
  fd_message :: string
  fd_hasDiagnostic :: bool
  fd_stage :: string
  fd_code :: string
  fd_deploymentID :: string
  fd_commit :: string

definition stackRemoved :: "alert_env \<Rightarrow> string \<Rightarrow> bool" where
  "stackRemoved env stackName \<longleftrightarrow> env_Ready env = Some True \<and> stackName \<notin> set (env_Stacks env)"

definition handleFailed ::
    "alert_env \<Rightarrow> string \<Rightarrow> string \<Rightarrow> string \<Rightarrow> failure_details \<Rightarrow> bool \<Rightarrow> alert_db \<Rightarrow> alert_error option \<times> alert_db" where
  "handleFailed env eventID stackName title details temporary db0 =
     (let fp = SyncFailedFingerprint stackName
      in if stackRemoved env stackName then (None, ResetFailureStreak fp db0)
         else
           let (failures, db) = IncrementFailureStreak fp db0;
               eid = eventReferenceID eventID (env_NewID env 0)
           in case FindOpenByFingerprint fp db of
                Some a \<Rightarrow>
                  update_alert
                    (a\<lparr>al_Occurrences := al_Occurrences a + 1, al_UpdatedAt := env_Now env, al_LatestEventID := eid,
                       al_Message := (if fd_hasDiagnostic details \<or> al_Message a = '''' then fd_message details else al_Message a),
                       al_Title := title, al_FailureStage := fd_stage details, al_ErrorCode := fd_code details,
                       al_DeploymentID := fd_deploymentID details, al_Commit := fd_commit details\<rparr>) db
              | None \<Rightarrow>
                  if temporary \<and> failures < temporaryFailureThreshold then (None, db)
                  else open_alert env eid
                         ((new_alert env (env_NewID env 1) eid AlertKindSyncFailed ResourceTypeStack stackName
                             title (fd_message details) failures)
                            \<lparr>al_FailureStage := fd_stage details, al_ErrorCode := fd_code details,
                             al_DeploymentID := fd_deploymentID details, al_Commit := fd_commit details\<rparr>)
                         (fd_hasDiagnostic details) db)"

definition handleSucceeded :: "alert_env \<Rightarrow> string \<Rightarrow> string \<Rightarrow> alert_db \<Rightarrow> alert_error option \<times> alert_db" where
  "handleSucceeded env eventID stackName db =
     (let fp = SyncFailedFingerprint stackName
      in resolve_open env fp ResolutionReasonRecovered ''Synchronization completed successfully''
           (eventReferenceID eventID (env_NewID env 0)) (ResetFailureStreak fp db))"

text \<open>A node alert keeps the event identifier as it is.\<close>

definition handleNode :: "alert_env \<Rightarrow> string \<Rightarrow> string \<Rightarrow> bool \<Rightarrow> alert_db \<Rightarrow> alert_error option \<times> alert_db" where
  "handleNode env eventID nodeID disconnected db =
     (case FindOpenByFingerprint (NodeDisconnectedFingerprint nodeID) db of
        None \<Rightarrow>
          if \<not> disconnected then (None, db)
          else
            let a = new_alert env (env_NewID env 0) eventID AlertKindNodeDisconnected ResourceTypeNode nodeID
                      ''Node disconnected'' ''Swarm node is not ready'' 1
            in (case create_alert a db of
                  (Some e, db) \<Rightarrow> (Some e, db) | (None, db) \<Rightarrow> (None, publishOpened env a db))
      | Some a \<Rightarrow>
          if disconnected
          then update_alert (a\<lparr>al_Occurrences := al_Occurrences a + 1, al_UpdatedAt := env_Now env,
                 al_LatestEventID := eventID\<rparr>) db
          else resolve_alert env ResolutionReasonRecovered ''Swarm node reconnected'' eventID a db)"

section \<open>Failure details\<close>

definition safeDiagnostic :: "alert_env \<Rightarrow> source_error option \<Rightarrow> string" where
  "safeDiagnostic env err = (case err of None \<Rightarrow> '''' | Some e \<Rightarrow> env_SafeText env (serr_Text e))"

definition isTemporary :: "source_error option \<Rightarrow> bool" where
  "isTemporary err \<longleftrightarrow> (case err of None \<Rightarrow> False | Some e \<Rightarrow> serr_Temporary e)"

definition hasUsefulDiagnostic :: "alert_env \<Rightarrow> source_error option \<Rightarrow> string \<Rightarrow> bool" where
  "hasUsefulDiagnostic env err code \<longleftrightarrow> safeDiagnostic env err \<noteq> '''' \<and> safeDiagnostic env err \<noteq> code"

definition stage_text :: "string \<Rightarrow> string" where
  "stage_text stage = (if stage = '''' then ''an unknown stage'' else stage)"

definition safeFailureMessage :: "alert_env \<Rightarrow> source_error option \<Rightarrow> string \<Rightarrow> string \<Rightarrow> string" where
  "safeFailureMessage env err code stage =
     (if safeDiagnostic env err \<noteq> '''' \<and> safeDiagnostic env err \<noteq> code then safeDiagnostic env err
      else ''Synchronization failed during '' @ stage_text stage @ ''. No detailed diagnostic was recorded.'')"

definition safeUnknownOutcomeMessage :: "alert_env \<Rightarrow> source_error option \<Rightarrow> string \<Rightarrow> string \<Rightarrow> string" where
  "safeUnknownOutcomeMessage env err code stage =
     (if safeDiagnostic env err \<noteq> '''' \<and> safeDiagnostic env err \<noteq> code then safeDiagnostic env err
      else ''Deployment outcome is unknown after interruption during '' @ stage_text stage @
           ''. No detailed diagnostic was recorded.'')"

fun join_lines :: "string list \<Rightarrow> string" where
  "join_lines [] = []"
| "join_lines [x] = x"
| "join_lines (x # y # xs) = x @ [CHR 0x0A] @ join_lines (y # xs)"

definition deployFailureDetails ::
    "alert_env \<Rightarrow> string \<Rightarrow> string \<Rightarrow> string \<Rightarrow> string \<Rightarrow> source_error option \<Rightarrow> string list \<Rightarrow> failure_details" where
  "deployFailureDetails env did commit code stage err logs =
     (let text = TrimSpace (join_lines logs);
          diagnostic = (case err of
              Some e \<Rightarrow> Some e
            | None \<Rightarrow> if text \<noteq> '''' then Some \<lparr>serr_Text = text, serr_Temporary = False\<rparr> else None)
      in \<lparr>fd_message = safeFailureMessage env diagnostic code stage,
          fd_hasDiagnostic = hasUsefulDiagnostic env diagnostic code, fd_stage = stage, fd_code = code,
          fd_deploymentID = did, fd_commit = commit\<rparr>)"

section \<open>Dispatch\<close>

fun handle_alert :: "alert_env \<Rightarrow> string \<Rightarrow> alert_source \<Rightarrow> alert_db \<Rightarrow> alert_error option \<times> alert_db" where
  "handle_alert env eid (ConfigurationChanged previous) db =
     (if previous \<noteq> '''' then handleGitRepositoryChanged env eid previous db else handleConfigurationChanged env eid db)"
| "handle_alert env eid (NodeDisconnected node) db = handleNode env eid node True db"
| "handle_alert env eid (NodeConnected node) db = handleNode env eid node False db"
| "handle_alert env eid (DeployFailed stack did commit code stage err logs) db =
     handleFailed env eid stack ''Synchronization failed'' (deployFailureDetails env did commit code stage err logs)
       (isTemporary err) db"
| "handle_alert env eid (DeployPreparationFailed stack commit code stage err) db =
     handleFailed env eid stack ''Synchronization failed''
       \<lparr>fd_message = safeFailureMessage env err code stage, fd_hasDiagnostic = hasUsefulDiagnostic env err code,
        fd_stage = stage, fd_code = code, fd_deploymentID = '''', fd_commit = commit\<rparr> (isTemporary err) db"
| "handle_alert env eid (DeployInterrupted stack did commit reason stage err) db =
     handleFailed env eid stack ''Synchronization outcome unknown''
       \<lparr>fd_message = safeUnknownOutcomeMessage env err reason stage, fd_hasDiagnostic = hasUsefulDiagnostic env err reason,
        fd_stage = stage, fd_code = reason, fd_deploymentID = did, fd_commit = commit\<rparr> (isTemporary err) db"
| "handle_alert env eid (DeploySuccess stack) db = handleSucceeded env eid stack db"
| "handle_alert env eid (GitPullFailed repository category description) db =
     handleGitPullFailed env eid repository category description db"
| "handle_alert env eid (GitPullSucceeded repository) db = handleGitPullSucceeded env eid repository db"
| "handle_alert env eid (ServiceMissed stack service commit resolved) db =
     handleServiceDrift env eid stack service commit ''service is missing'' resolved db"
| "handle_alert env eid (ServiceDrifted stack service commit reason resolved) db =
     handleServiceDrift env eid stack service commit reason resolved db"
| "handle_alert env eid (ServiceDriftFixed stack service) db = handleServiceDriftFixed env eid stack service db"
| "handle_alert env eid (ServiceRemovedFromDesired stack service) db =
     handleServiceRemovedFromDesired env eid stack service db"
| "handle_alert env eid OtherEvent db = (None, db)"

fun alert_resource :: "alert_source \<Rightarrow> string option" where
  "alert_resource (ConfigurationChanged previous) =
     Some (if previous \<noteq> '''' then ''repository:'' @ previous else ''configuration'')"
| "alert_resource (DeploySuccess stack) = Some (''stack:'' @ stack)"
| "alert_resource (DeployFailed stack did commit code stage err logs) = Some (''stack:'' @ stack)"
| "alert_resource (DeployPreparationFailed stack commit code stage err) = Some (''stack:'' @ stack)"
| "alert_resource (DeployInterrupted stack did commit reason stage err) = Some (''stack:'' @ stack)"
| "alert_resource (NodeDisconnected node) = Some (''node:'' @ node)"
| "alert_resource (NodeConnected node) = Some (''node:'' @ node)"
| "alert_resource (GitPullFailed repository category description) = Some (''repository:'' @ repository)"
| "alert_resource (GitPullSucceeded repository) = Some (''repository:'' @ repository)"
| "alert_resource (ServiceMissed stack service commit resolved) = Some (''service:'' @ stack @ ''/'' @ service)"
| "alert_resource (ServiceDrifted stack service commit reason resolved) = Some (''service:'' @ stack @ ''/'' @ service)"
| "alert_resource (ServiceDriftFixed stack service) = Some (''service:'' @ stack @ ''/'' @ service)"
| "alert_resource (ServiceRemovedFromDesired stack service) = Some (''service:'' @ stack @ ''/'' @ service)"
| "alert_resource OtherEvent = None"

record alert_envelope =
  ae_ID :: string
  ae_OccurredAt :: gotime
  ae_Event :: alert_source

definition sql_handle :: "alert_error option \<Rightarrow> alert_env \<Rightarrow> alert_envelope \<Rightarrow> alert_db \<Rightarrow> alert_error option \<times> alert_db" where
  "sql_handle fault env e db =
     (case alert_resource (ae_Event e) of
        None \<Rightarrow> (None, db)
      | Some resource \<Rightarrow>
          ConsumeLatest fault (ae_ID e) resource (ae_OccurredAt e) (handle_alert env (ae_ID e) (ae_Event e)) db)"

end
