(* ===== verification/AlertSafety.thy ===== *)
theory AlertSafety
  imports AlertSubscriber
begin

text \<open>
  The invariant of the alerts, its preservation by every handler, and the properties of the alert
  lifecycle.
\<close>

section \<open>Rows\<close>

definition alert_ok :: "alert \<Rightarrow> bool" where
  "alert_ok a \<longleftrightarrow>
     al_ResourceID a \<noteq> '''' \<and> \<not> IsZero (al_OpenedAt a) \<and> al_Fingerprint a = fingerprint_of (al_Kind a) (al_ResourceType a) (al_ResourceID a) \<and>
     (is_open a \<longleftrightarrow> al_ResolvedAt a = None) \<and> (is_open a \<longleftrightarrow> al_Resolution a = None)"

definition rows_wf :: "alert list \<Rightarrow> bool" where
  "rows_wf rows \<longleftrightarrow>
     distinct (map al_ID rows) \<and> (\<forall>a \<in> set rows. alert_ok a) \<and>
     (\<forall>a \<in> set rows. \<forall>b \<in> set rows. is_open a \<and> is_open b \<and> al_Fingerprint a = al_Fingerprint b \<longrightarrow> a = b)"

definition rows_bounded :: "alert list \<Rightarrow> bool" where
  "rows_bounded rows \<longleftrightarrow> length rows \<le> MaxStoredAlerts \<or> (\<forall>a \<in> set rows. is_open a)"

definition open_ids :: "alert list \<Rightarrow> string set" where
  "open_ids rows = al_ID ` {a \<in> set rows. is_open a}"

lemma row_by_id: "rows_wf rows \<Longrightarrow> a \<in> set rows \<Longrightarrow> b \<in> set rows \<Longrightarrow> al_ID a = al_ID b \<Longrightarrow> a = b"
  by (auto simp: rows_wf_def distinct_map inj_on_def)

lemma rows_open_unique:
  "rows_wf rows \<Longrightarrow> a \<in> set rows \<Longrightarrow> b \<in> set rows \<Longrightarrow> is_open a \<Longrightarrow> is_open b \<Longrightarrow>
     al_Fingerprint a = al_Fingerprint b \<Longrightarrow> a = b"
  by (simp add: rows_wf_def)

lemma rows_wf_subset: "rows_wf rows \<Longrightarrow> rows_wf (filter P rows)"
  by (auto simp: rows_wf_def distinct_map_filter)

lemma prune_victims_resolved:
  assumes "rows_wf rows" "a \<in> set rows" "al_ID a \<in> set (prune_victims rows)"
  shows "\<not> is_open a"
proof -
  obtain b where "b \<in> set rows" "\<not> is_open b" "al_ID b = al_ID a"
    using assms(3) by (auto simp: prune_victims_def dest!: in_set_takeD)
  then show ?thesis using row_by_id [OF assms(1,2)] by metis
qed

lemma prune_rows_open: "rows_wf rows \<Longrightarrow> a \<in> set rows \<Longrightarrow> is_open a \<Longrightarrow> a \<in> set (prune_rows rows)"
  using prune_victims_resolved by (auto simp: prune_rows_def)

lemma open_in_prune: "rows_wf rows \<Longrightarrow> is_open a \<Longrightarrow> a \<in> set (prune_rows rows) \<longleftrightarrow> a \<in> set rows"
  using prune_rows_open [of rows a] by (auto simp: prune_rows_def)

lemma open_ids_prune: "rows_wf rows \<Longrightarrow> open_ids (prune_rows rows) = open_ids rows"
  using prune_rows_open by (auto simp: open_ids_def prune_rows_def)

lemma prune_rows_wf: "rows_wf rows \<Longrightarrow> rows_wf (prune_rows rows)"
  by (simp add: prune_rows_def rows_wf_subset)

lemma length_prune_victims:
  "length (prune_victims rows) = min (length rows - MaxStoredAlerts) (length (filter (\<lambda>a. \<not> is_open a) rows))"
  by (simp add: prune_victims_def min.commute)

lemma prune_victims_distinct: "rows_wf rows \<Longrightarrow> distinct (prune_victims rows)"
proof -
  assume "rows_wf rows"
  then have inj: "inj_on al_ID (set rows)" and d: "distinct rows" by (simp_all add: rows_wf_def distinct_map)
  let ?vs = "take (length rows - MaxStoredAlerts) (sort_key (\<lambda>a. (al_ResolvedAt a, al_ID a)) (filter (\<lambda>a. \<not> is_open a) rows))"
  have "set ?vs \<subseteq> set rows" by (auto dest!: in_set_takeD)
  then show ?thesis using inj_on_subset [OF inj] d by (simp add: prune_victims_def distinct_map)
qed

lemma length_prune_rows:
  assumes "rows_wf rows"
  shows "length (prune_rows rows) = length rows - length (prune_victims rows)"
proof -
  have "set (prune_victims rows) \<subseteq> al_ID ` set rows"
    by (auto simp: prune_victims_def dest!: in_set_takeD)
  moreover have d: "distinct (map al_ID rows)" using assms by (simp add: rows_wf_def)
  ultimately have "card (set (map al_ID rows) - set (prune_victims rows)) = length rows - length (prune_victims rows)"
    using distinct_card [OF d] distinct_card [OF prune_victims_distinct [OF assms]]
    by (subst card_Diff_subset) auto
  moreover have "set (map al_ID rows) - set (prune_victims rows) = set (map al_ID (prune_rows rows))"
    by (auto simp: prune_rows_def)
  moreover have "distinct (map al_ID (prune_rows rows))" using prune_rows_wf [OF assms] by (simp add: rows_wf_def)
  ultimately show ?thesis using distinct_card by fastforce
qed

lemma prune_rows_bounded:
  assumes "rows_wf rows"
  shows "rows_bounded (prune_rows rows)"
proof (cases "length (filter (\<lambda>a. \<not> is_open a) rows) \<le> length rows - MaxStoredAlerts")
  case True
  then have "set (prune_victims rows) = al_ID ` {a \<in> set rows. \<not> is_open a}" by (simp add: prune_victims_def)
  then show ?thesis by (auto simp: rows_bounded_def prune_rows_def)
next
  case False
  then have "length (prune_rows rows) \<le> MaxStoredAlerts"
    by (simp add: length_prune_rows [OF assms] length_prune_victims min_def)
  then show ?thesis by (simp add: rows_bounded_def)
qed

section \<open>Writes\<close>

text \<open>A new version of an alert keeps its identity; it is still open or it is resolved.\<close>

definition version_of :: "alert \<Rightarrow> alert \<Rightarrow> bool" where
  "version_of a a' \<longleftrightarrow>
     al_ID a' = al_ID a \<and> al_OpenedAt a' = al_OpenedAt a \<and> al_Fingerprint a' = al_Fingerprint a \<and>
     al_Kind a' = al_Kind a \<and> al_ResourceType a' = al_ResourceType a \<and> al_ResourceID a' = al_ResourceID a \<and>
     (is_open a' \<longleftrightarrow> al_ResolvedAt a' = None) \<and> (is_open a' \<longleftrightarrow> al_Resolution a' = None)"

lemma update_row_effect:
  assumes wf: "rows_wf rows" and a: "a \<in> set rows" "is_open a" "version_of a a'"
    and upd: "update_row a' rows = Inr rows'"
  shows "rows' = map (\<lambda>r. if r = a then a' else r) rows" "rows_wf rows'"
    "open_ids rows' = (if is_open a' then open_ids rows else open_ids rows - {al_ID a})"
proof -
  have inc: "same_incident a' r \<longleftrightarrow> r = a" if "r \<in> set rows" for r
    using row_by_id [OF wf that a(1)] a(3) by (auto simp: same_incident_def version_of_def)
  then show rows': "rows' = map (\<lambda>r. if r = a then a' else r) rows"
    using upd by (auto simp: update_row_def split: if_splits)
  have set': "set rows' = (if a \<in> set rows then insert a' (set rows - {a}) else set rows)" using rows' by auto
  have ids: "map al_ID rows' = map al_ID rows" using a(3) rows' by (auto simp: version_of_def)
  have uniq: "r = a" if "r \<in> set rows" "is_open r" "al_Fingerprint r = al_Fingerprint a'" for r
    using wf that a by (auto simp: rows_wf_def version_of_def)
  have ok: "alert_ok a'" using wf a by (auto simp: rows_wf_def alert_ok_def version_of_def)
  have "b = c" if "b \<in> set rows'" "c \<in> set rows'" "is_open b" "is_open c" "al_Fingerprint b = al_Fingerprint c" for b c
  proof -
    have "b = a' \<or> b \<in> set rows \<and> b \<noteq> a" "c = a' \<or> c \<in> set rows \<and> c \<noteq> a"
      using that(1,2) a(1) by (auto simp: set')
    then show ?thesis using that(3-5) uniq [of b] uniq [of c] rows_open_unique [OF wf] by metis
  qed
  then have "\<forall>b \<in> set rows'. \<forall>c \<in> set rows'. is_open b \<and> is_open c \<and> al_Fingerprint b = al_Fingerprint c \<longrightarrow> b = c"
    by blast
  moreover have "distinct (map al_ID rows')" "\<forall>b \<in> set rows'. alert_ok b"
    using wf ok a(1) by (simp_all add: ids set' rows_wf_def)
  ultimately show "rows_wf rows'" unfolding rows_wf_def by blast
  let ?open = "{r \<in> set rows. is_open r}"
  have "inj_on al_ID (set rows)" using wf by (simp add: rows_wf_def distinct_map)
  then have "al_ID ` (?open - {a}) = open_ids rows - {al_ID a}"
    using a(1,2) inj_on_image_set_diff [of al_ID "set rows" ?open "{a}"] by (auto simp: open_ids_def)
  moreover have "{r \<in> set rows'. is_open r} = (if is_open a' then insert a' (?open - {a}) else ?open - {a})"
    using a(1) by (auto simp: set')
  moreover have "al_ID a' = al_ID a" "al_ID a \<in> open_ids rows" using a by (auto simp: version_of_def open_ids_def)
  ultimately show "open_ids rows' = (if is_open a' then open_ids rows else open_ids rows - {al_ID a})"
    unfolding open_ids_def [of rows'] by (simp add: insert_absorb)
qed

lemma insert_row_effect:
  assumes wf: "rows_wf rows" and a: "alert_ok a" "is_open a" and ins: "insert_row a rows = Inr rows'"
  shows "rows' = rows @ [a]" "rows_wf rows'" "open_ids rows' = insert (al_ID a) (open_ids rows)"
proof -
  show rows': "rows' = rows @ [a]" using ins by (simp add: insert_row_def split: if_splits)
  have fresh: "al_ID a \<notin> al_ID ` set rows" "\<forall>r \<in> set rows. is_open r \<longrightarrow> al_Fingerprint r \<noteq> al_Fingerprint a"
    using ins a(2) by (auto simp: insert_row_def split: if_splits)
  have "b = c" if "b \<in> set rows'" "c \<in> set rows'" "is_open b" "is_open c" "al_Fingerprint b = al_Fingerprint c" for b c
    using that fresh(2) wf by (fastforce simp: rows' rows_wf_def)
  then show "rows_wf rows'" using wf a(1) fresh(1) by (auto simp: rows_wf_def rows')
  show "open_ids rows' = insert (al_ID a) (open_ids rows)" using a(2) by (auto simp: open_ids_def rows')
qed

section \<open>The invariant\<close>

fun opened_ids :: "lifecycle_event list \<Rightarrow> string list" where
  "opened_ids [] = []"
| "opened_ids (AlertOpened s rs # es) = snap_ID s # opened_ids es"
| "opened_ids (AlertResolved s rs # es) = opened_ids es"

fun resolved_ids :: "lifecycle_event list \<Rightarrow> string list" where
  "resolved_ids [] = []"
| "resolved_ids (AlertOpened s rs # es) = resolved_ids es"
| "resolved_ids (AlertResolved s rs # es) = snap_ID s # resolved_ids es"

lemma ids_append [simp]:
  "opened_ids (es @ fs) = opened_ids es @ opened_ids fs" "resolved_ids (es @ fs) = resolved_ids es @ resolved_ids fs"
  by (induction es rule: opened_ids.induct) simp_all

text \<open>Every incident is announced once when it opens and once when it is resolved.\<close>

definition announced :: "alert list \<Rightarrow> lifecycle_event list \<Rightarrow> bool" where
  "announced rows es \<longleftrightarrow>
     distinct (opened_ids es) \<and> distinct (resolved_ids es) \<and> set (resolved_ids es) \<subseteq> set (opened_ids es) \<and>
     al_ID ` set rows \<subseteq> set (opened_ids es) \<and> open_ids rows = set (opened_ids es) - set (resolved_ids es)"

definition alert_inv :: "alert_db \<Rightarrow> bool" where
  "alert_inv db \<longleftrightarrow>
     rows_wf (ad_alerts db) \<and> rows_bounded (ad_alerts db) \<and> announced (ad_alerts db) (ad_published db) \<and>
     (\<forall>fp n. fmlookup (ad_streaks db) fp = Some n \<longrightarrow> 0 < n)"

lemma alert_inv_streaks:
  assumes "alert_inv db" "\<And>fp n. fmlookup m fp = Some n \<Longrightarrow> 0 < n"
  shows "alert_inv (db\<lparr>ad_streaks := m\<rparr>)"
  using assms by (simp add: alert_inv_def)

lemma streak_steps:
  assumes "alert_inv db"
  shows "alert_inv (snd (IncrementFailureStreak fp db))" "alert_inv (ResetFailureStreak fp db)"
    "alert_inv (ResetFailureStreaksExcept fps db)"
  using assms by (auto simp: IncrementFailureStreak_def ResetFailureStreak_def ResetFailureStreaksExcept_def Let_def
      alert_inv_def split: if_splits option.splits)

lemma streaks_frame [simp]:
  "ad_alerts (snd (IncrementFailureStreak fp db)) = ad_alerts db" "ad_alerts (ResetFailureStreak fp db) = ad_alerts db"
  "ad_alerts (ResetFailureStreaksExcept fps db) = ad_alerts db"
  "ad_published (snd (IncrementFailureStreak fp db)) = ad_published db"
  "ad_published (ResetFailureStreak fp db) = ad_published db"
  "ad_published (ResetFailureStreaksExcept fps db) = ad_published db"
  "FindOpenByFingerprint fp' (snd (IncrementFailureStreak fp db)) = FindOpenByFingerprint fp' db"
  "FindOpenByFingerprint fp' (ResetFailureStreak fp db) = FindOpenByFingerprint fp' db"
  "FindOpenByFingerprint fp' (ResetFailureStreaksExcept fps db) = FindOpenByFingerprint fp' db"
  by (simp_all add: IncrementFailureStreak_def ResetFailureStreak_def ResetFailureStreaksExcept_def Let_def
      FindOpenByFingerprint_def)

lemma find_openD: "FindOpenByFingerprint fp db = Some a \<Longrightarrow> a \<in> set (ad_alerts db) \<and> is_open a \<and> al_Fingerprint a = fp"
  by (auto simp: FindOpenByFingerprint_def find_Some_iff)

lemma find_open_iff:
  assumes "rows_wf (ad_alerts db)"
  shows "FindOpenByFingerprint fp db = Some a \<longleftrightarrow> a \<in> set (ad_alerts db) \<and> is_open a \<and> al_Fingerprint a = fp"
proof
  assume a: "a \<in> set (ad_alerts db) \<and> is_open a \<and> al_Fingerprint a = fp"
  then obtain b where b: "FindOpenByFingerprint fp db = Some b"
    by (cases "FindOpenByFingerprint fp db") (auto simp: FindOpenByFingerprint_def find_None_iff)
  have "a = b" using a find_openD [OF b] by (intro rows_open_unique [OF assms]) simp_all
  with b show "FindOpenByFingerprint fp db = Some a" by simp
qed (rule find_openD)

section \<open>What a write does\<close>

text \<open>
  The open incidents by fingerprint are the abstract state: a write of a version of an open alert
  replaces or closes its incident, a creation opens one, and no other incident is touched.
\<close>

definition incidents :: "alert_db \<Rightarrow> string \<Rightarrow> alert option" where
  "incidents db fp = FindOpenByFingerprint fp db"

lemma write_error: "write_alert a u db = (Some e, db') \<Longrightarrow> db' = db"
  by (auto simp: write_alert_def split: option.splits sum.splits)

lemma incidents_by_open_rows:
  assumes "rows_wf (ad_alerts db)" "rows_wf (ad_alerts db')"
    and "\<And>b. is_open b \<Longrightarrow> al_Fingerprint b = fp \<Longrightarrow> b \<in> set (ad_alerts db') \<longleftrightarrow> b \<in> set (ad_alerts db)"
  shows "incidents db' fp = incidents db fp"
proof (cases "incidents db fp")
  case None
  then show ?thesis
    using assms(3) find_open_iff [OF assms(1)] find_open_iff [OF assms(2)]
    by (metis incidents_def not_Some_eq)
next
  case (Some b)
  then show ?thesis
    using assms(3) find_open_iff [OF assms(1)] find_open_iff [OF assms(2)] by (metis incidents_def)
qed

lemma incidents_replaced:
  assumes wf: "rows_wf (ad_alerts db)" and wf': "rows_wf (ad_alerts db')"
    and a: "a \<in> set (ad_alerts db)" "is_open a" "version_of a a'"
    and open_rows: "\<And>b. is_open b \<Longrightarrow> b \<in> set (ad_alerts db') \<longleftrightarrow> b = a' \<or> b \<in> set (ad_alerts db) \<and> b \<noteq> a"
  shows "incidents db' = (incidents db)(al_Fingerprint a := if is_open a' then Some a' else None)"
proof
  fix fp
  show "incidents db' fp = ((incidents db)(al_Fingerprint a := if is_open a' then Some a' else None)) fp"
  proof (cases "fp = al_Fingerprint a")
    case True
    show ?thesis
    proof (cases "is_open a'")
      case is_op: True
      then have "incidents db' fp = Some a'"
        using find_open_iff [OF wf'] open_rows [OF is_op] a(3) True by (simp add: incidents_def version_of_def)
      with is_op True show ?thesis by simp
    next
      case False
      have "incidents db' fp = None"
      proof (rule ccontr)
        assume "incidents db' fp \<noteq> None"
        then obtain b where "FindOpenByFingerprint fp db' = Some b" by (auto simp: incidents_def)
        then have b: "b \<in> set (ad_alerts db')" "is_open b" "al_Fingerprint b = al_Fingerprint a"
          using find_openD True by blast+
        with False have "b \<in> set (ad_alerts db)" "b \<noteq> a" using open_rows [OF b(2)] by auto
        then show False using rows_open_unique [OF wf _ a(1) b(2) a(2) b(3)] by simp
      qed
      with False True show ?thesis by simp
    qed
  next
    case False
    have "incidents db' fp = incidents db fp"
      using open_rows False a(3) by (intro incidents_by_open_rows [OF wf wf']) (auto simp: version_of_def)
    then show ?thesis using False by simp
  qed
qed

lemma update_alert_effect:
  assumes wf: "rows_wf (ad_alerts db)" and a: "a \<in> set (ad_alerts db)" "is_open a" "version_of a a'"
    and upd: "update_alert a' db = (None, db')"
  shows "rows_wf (ad_alerts db')" "rows_bounded (ad_alerts db')"
    "open_ids (ad_alerts db') = (if is_open a' then open_ids (ad_alerts db) else open_ids (ad_alerts db) - {al_ID a})"
    "al_ID ` set (ad_alerts db') \<subseteq> al_ID ` set (ad_alerts db)"
    "incidents db' = (incidents db)(al_Fingerprint a := if is_open a' then Some a' else None)"
    "db' = db\<lparr>ad_alerts := ad_alerts db'\<rparr>"
proof -
  obtain rows where upd': "update_row a' (ad_alerts db) = Inr rows" and db': "db' = db\<lparr>ad_alerts := prune_rows rows\<rparr>"
    using upd by (auto simp: update_alert_def write_alert_def split: option.splits sum.splits)
  note eff = update_row_effect [OF wf a upd']
  show "rows_wf (ad_alerts db')" "rows_bounded (ad_alerts db')" "db' = db\<lparr>ad_alerts := ad_alerts db'\<rparr>"
    using eff(2) by (simp_all add: db' prune_rows_wf prune_rows_bounded)
  show "open_ids (ad_alerts db') = (if is_open a' then open_ids (ad_alerts db) else open_ids (ad_alerts db) - {al_ID a})"
    using eff(3) open_ids_prune [OF eff(2)] by (simp add: db')
  show "al_ID ` set (ad_alerts db') \<subseteq> al_ID ` set (ad_alerts db)"
    using a(1,3) by (auto simp: db' prune_rows_def eff(1) version_of_def)
  have open_rows: "b \<in> set (prune_rows rows) \<longleftrightarrow> b = a' \<or> b \<in> set (ad_alerts db) \<and> b \<noteq> a" if "is_open b" for b
    using open_in_prune [OF eff(2) that] a(1) by (auto simp: eff(1))
  then show "incidents db' = (incidents db)(al_Fingerprint a := if is_open a' then Some a' else None)"
    using incidents_replaced [OF wf \<open>rows_wf (ad_alerts db')\<close> a] by (simp add: db')
qed

lemma create_alert_effect:
  assumes wf: "rows_wf (ad_alerts db)" and a: "alert_ok a" "is_open a" and new: "create_alert a db = (None, db')"
  shows "rows_wf (ad_alerts db')" "rows_bounded (ad_alerts db')"
    "open_ids (ad_alerts db') = insert (al_ID a) (open_ids (ad_alerts db))"
    "al_ID ` set (ad_alerts db') \<subseteq> insert (al_ID a) (al_ID ` set (ad_alerts db))"
    "incidents db' = (incidents db)(al_Fingerprint a := Some a)"
    "db' = db\<lparr>ad_alerts := ad_alerts db'\<rparr>" "incidents db (al_Fingerprint a) = None"
proof -
  obtain rows where ins: "insert_row a (ad_alerts db) = Inr rows" and db': "db' = db\<lparr>ad_alerts := prune_rows rows\<rparr>"
    using new by (auto simp: create_alert_def write_alert_def split: option.splits sum.splits)
  note eff = insert_row_effect [OF wf a ins]
  show wf': "rows_wf (ad_alerts db')" and "rows_bounded (ad_alerts db')" "db' = db\<lparr>ad_alerts := ad_alerts db'\<rparr>"
    using eff(2) by (simp_all add: db' prune_rows_wf prune_rows_bounded)
  show "open_ids (ad_alerts db') = insert (al_ID a) (open_ids (ad_alerts db))"
    using eff(3) open_ids_prune [OF eff(2)] by (simp add: db')
  show "al_ID ` set (ad_alerts db') \<subseteq> insert (al_ID a) (al_ID ` set (ad_alerts db))"
    by (auto simp: db' prune_rows_def eff(1))
  have none: "\<forall>r \<in> set (ad_alerts db). is_open r \<longrightarrow> al_Fingerprint r \<noteq> al_Fingerprint a"
    using ins a(2) by (auto simp: insert_row_def split: if_splits)
  then show "incidents db (al_Fingerprint a) = None"
    using find_openD by (cases "incidents db (al_Fingerprint a)") (auto simp: incidents_def)
  have open_rows: "b \<in> set (prune_rows rows) \<longleftrightarrow> b = a \<or> b \<in> set (ad_alerts db)" if "is_open b" for b
    using open_in_prune [OF eff(2) that] by (auto simp: eff(1))
  show "incidents db' = (incidents db)(al_Fingerprint a := Some a)"
  proof
    fix fp
    show "incidents db' fp = ((incidents db)(al_Fingerprint a := Some a)) fp"
    proof (cases "fp = al_Fingerprint a")
      case True
      then show ?thesis
        using find_open_iff [OF wf'] open_rows [OF a(2)] a(2) by (simp add: incidents_def db')
    next
      case False
      have "incidents db' fp = incidents db fp"
        using open_rows False by (intro incidents_by_open_rows [OF wf wf']) (auto simp: db')
      then show ?thesis using False by simp
    qed
  qed
qed

section \<open>What the steps of a handler do\<close>

lemma announced_kept:
  assumes "announced rows es" "open_ids rows' = open_ids rows" "al_ID ` set rows' \<subseteq> al_ID ` set rows"
  shows "announced rows' es"
  using assms(1,2) order_trans [OF assms(3), of "set (opened_ids es)"] by (simp add: announced_def)

lemma announced_resolved:
  assumes "announced rows es" "open_ids rows' = open_ids rows - {i}" "al_ID ` set rows' \<subseteq> al_ID ` set rows"
    and "i \<in> open_ids rows" "snap_ID s = i"
  shows "announced rows' (es @ [AlertResolved s rs])"
  using assms(1,2,4,5) order_trans [OF assms(3), of "set (opened_ids es)"] unfolding announced_def by auto

lemma announced_opened:
  assumes "announced rows es" "open_ids rows' = insert i (open_ids rows)"
    and "al_ID ` set rows' \<subseteq> insert i (al_ID ` set rows)" "i \<notin> set (opened_ids es)" "snap_ID s = i"
  shows "announced rows' (es @ [AlertOpened s rs])"
proof -
  have "al_ID ` set rows' \<subseteq> insert i (set (opened_ids es))"
    using order_trans [OF assms(3)] assms(1) by (meson announced_def insert_mono)
  then show ?thesis using assms(1,2,4,5) by (auto simp: announced_def)
qed

text \<open>A bump rewrites an open alert that stays open.\<close>

lemma bump_effect:
  assumes inv: "alert_inv db" and found: "FindOpenByFingerprint fp db = Some a"
    and v: "version_of a a'" "is_open a'" and upd: "update_alert a' db = (err, db')"
  shows "alert_inv db'" "ad_streaks db' = ad_streaks db" "ad_versions db' = ad_versions db" "ad_published db' = ad_published db"
    "incidents db' = (if err = None then (incidents db)(fp := Some a') else incidents db)"
proof -
  have a: "a \<in> set (ad_alerts db)" "is_open a" "al_Fingerprint a = fp" using find_openD [OF found] by simp_all
  have wf: "rows_wf (ad_alerts db)" using inv by (simp add: alert_inv_def)
  have err: "db' = db" if "err \<noteq> None" using upd that write_error by (auto simp: update_alert_def)
  note eff = update_alert_effect [OF wf a(1,2) v(1), of db']
  have same: "db' = db\<lparr>ad_alerts := ad_alerts db'\<rparr>"
    using err eff(6) upd by (cases err) auto
  then show "ad_streaks db' = ad_streaks db" "ad_versions db' = ad_versions db" "ad_published db' = ad_published db"
    by (metis alert_db.ext_inject alert_db.surjective alert_db.update_convs(1))+
  show "incidents db' = (if err = None then (incidents db)(fp := Some a') else incidents db)"
    using err eff(5) upd v(2) a(3) by (cases err) auto
  show "alert_inv db'"
  proof (cases err)
    case None
    note eff = eff [OF upd [unfolded None]]
    show ?thesis
      using inv eff(1-4) v(2) \<open>ad_streaks db' = ad_streaks db\<close> \<open>ad_published db' = ad_published db\<close>
      by (auto simp: alert_inv_def intro: announced_kept)
  next
    case (Some e)
    then show ?thesis using inv err by simp
  qed
qed

lemma snapshot_id [simp]: "snap_ID (alertSnapshot a) = al_ID a"
  by (simp add: alertSnapshot_def)

lemma resolve_alert_effect:
  assumes inv: "alert_inv db" and a: "a \<in> set (ad_alerts db)" "is_open a"
    and run: "resolve_alert env reason msg ref a db = (err, db')"
  shows "alert_inv db'" "ad_streaks db' = ad_streaks db" "ad_versions db' = ad_versions db"
    "incidents db' = (if err = None then (incidents db)(al_Fingerprint a := None) else incidents db)"
proof -
  define a' where "a' = a\<lparr>al_Status := AlertStatusResolved, al_UpdatedAt := env_Now env, al_ResolvedAt := Some (env_Now env),
                al_Resolution := Some \<lparr>res_Reason = reason, res_Message = msg, res_EventID = ref\<rparr>\<rparr>"
  have v: "version_of a a'" "\<not> is_open a'" by (simp_all add: a'_def version_of_def is_open_def)
  have wf: "rows_wf (ad_alerts db)" using inv by (simp add: alert_inv_def)
  obtain e db1 where upd: "update_alert a' db = (e, db1)" by fastforce
  have run': "(err, db') = (case e of None \<Rightarrow> (None, publishResolved env a' db1) | Some x \<Rightarrow> (Some x, db1))"
    using run upd by (simp add: resolve_alert_def a'_def [symmetric] Let_def split: option.splits)
  have "alert_inv db' \<and> ad_streaks db' = ad_streaks db \<and> ad_versions db' = ad_versions db \<and>
    incidents db' = (if err = None then (incidents db)(al_Fingerprint a := None) else incidents db)"
  proof (cases e)
    case None
    note eff = update_alert_effect [OF wf a v(1) upd [unfolded None]]
    have db': "err = None" "db' = publishResolved env a' db1" using run' None by simp_all
    have same: "ad_streaks db1 = ad_streaks db" "ad_versions db1 = ad_versions db" "ad_published db1 = ad_published db"
      using eff(6) by (metis alert_db.ext_inject alert_db.surjective alert_db.update_convs(1))+
    have "announced (ad_alerts db1) (ad_published db @ [AlertResolved (alertSnapshot a') (env_Recipients env (al_Kind a'))])"
      using inv eff(3,4) v a
      by (intro announced_resolved [where i = "al_ID a"]) (auto simp: alert_inv_def open_ids_def version_of_def)
    then have "alert_inv db'"
      using inv eff(1,2) same by (simp add: alert_inv_def db' publishResolved_def)
    moreover have "incidents db' = incidents db1" by (simp add: db' publishResolved_def incidents_def FindOpenByFingerprint_def fun_eq_iff)
    ultimately show ?thesis using same eff(5) v(2) db' by (simp add: publishResolved_def)
  next
    case (Some x)
    then have "db1 = db" using upd write_error by (simp add: update_alert_def)
    then show ?thesis using run' Some inv by simp
  qed
  then show "alert_inv db'" "ad_streaks db' = ad_streaks db" "ad_versions db' = ad_versions db"
    "incidents db' = (if err = None then (incidents db)(al_Fingerprint a := None) else incidents db)" by blast+
qed

text \<open>A new alert is announced when its row is written; without an open incident no row is in the way.\<close>

definition fresh_alert :: "alert \<Rightarrow> alert_db \<Rightarrow> bool" where
  "fresh_alert a db \<longleftrightarrow>
     al_Fingerprint a = fingerprint_of (al_Kind a) (al_ResourceType a) (al_ResourceID a) \<and> is_open a \<and>
     al_ResolvedAt a = None \<and> al_Resolution a = None \<and> al_ID a \<notin> set (opened_ids (ad_published db))"

definition create_and_announce :: "alert_env \<Rightarrow> alert \<Rightarrow> alert_db \<Rightarrow> alert_error option \<times> alert_db" where
  "create_and_announce env a db =
     (case create_alert a db of
        (Some e, db) \<Rightarrow> (Some e, db) | (None, db) \<Rightarrow> (None, publishOpened env a db))"

lemma create_and_announce_effect:
  assumes inv: "alert_inv db" and a: "fresh_alert a db"
    and run: "create_and_announce env a db = (err, db')"
  shows "alert_inv db'" "ad_streaks db' = ad_streaks db" "ad_versions db' = ad_versions db"
    "incidents db' = (if err = None then (incidents db)(al_Fingerprint a := Some a) else incidents db)"
proof -
  have wf: "rows_wf (ad_alerts db)" using inv by (simp add: alert_inv_def)
  obtain e db1 where new: "create_alert a db = (e, db1)" by fastforce
  have run': "(err, db') = (case e of None \<Rightarrow> (None, publishOpened env a db1) | Some x \<Rightarrow> (Some x, db1))"
    using run new by (simp add: create_and_announce_def split: option.splits)
  have "alert_inv db' \<and> ad_streaks db' = ad_streaks db \<and> ad_versions db' = ad_versions db \<and>
    incidents db' = (if err = None then (incidents db)(al_Fingerprint a := Some a) else incidents db)"
  proof (cases e)
    case None
    have "al_ResourceID a \<noteq> ''''" "\<not> IsZero (al_OpenedAt a)"
      using new None by (auto simp: create_alert_def write_alert_def insert_row_def alertResolvedAt_def split: option.splits if_splits)
    then have ok: "alert_ok a" "is_open a" using a by (simp_all add: alert_ok_def fresh_alert_def)
    note eff = create_alert_effect [OF wf ok new [unfolded None]]
    have db': "err = None" "db' = publishOpened env a db1" using run' None by simp_all
    have same: "ad_streaks db1 = ad_streaks db" "ad_versions db1 = ad_versions db" "ad_published db1 = ad_published db"
      using eff(6) by (metis alert_db.ext_inject alert_db.surjective alert_db.update_convs(1))+
    have "announced (ad_alerts db1) (ad_published db @ [AlertOpened (alertSnapshot a) (env_Recipients env (al_Kind a))])"
      using inv eff(3,4) a
      by (intro announced_opened [where i = "al_ID a"]) (auto simp: alert_inv_def fresh_alert_def)
    then have "alert_inv db'"
      using inv eff(1,2) same by (simp add: alert_inv_def db' publishOpened_def)
    moreover have "incidents db' = incidents db1" by (simp add: db' publishOpened_def incidents_def FindOpenByFingerprint_def fun_eq_iff)
    ultimately show ?thesis using same eff(5) db' by (simp add: publishOpened_def)
  next
    case (Some x)
    then have "db1 = db" using new write_error by (simp add: create_alert_def)
    then show ?thesis using run' Some inv by simp
  qed
  then show "alert_inv db'" "ad_streaks db' = ad_streaks db" "ad_versions db' = ad_versions db"
    "incidents db' = (if err = None then (incidents db)(al_Fingerprint a := Some a) else incidents db)" by blast+
qed

lemma open_alert_announces:
  assumes "rows_wf (ad_alerts db)" "FindOpenByFingerprint (al_Fingerprint a) db = None"
  shows "open_alert env eid a h db = create_and_announce env a db"
proof -
  have "\<not> (\<exists>r \<in> set (ad_alerts db). is_open r \<and> al_Fingerprint r = al_Fingerprint a)"
    using assms(2) by (auto simp: FindOpenByFingerprint_def find_None_iff)
  then have "create_alert a db \<noteq> (Some ErrOpenAlertExists, db')" for db'
    by (auto simp: create_alert_def write_alert_def insert_row_def alertResolvedAt_def split: option.splits if_splits)
  then show ?thesis
    by (auto simp: open_alert_def create_and_announce_def split: prod.split option.split alert_error.split)
qed

section \<open>Handlers keep the invariant\<close>

definition fresh_ids :: "alert_env \<Rightarrow> alert_db \<Rightarrow> bool" where
  "fresh_ids env db \<longleftrightarrow> (\<forall>n. env_NewID env n \<notin> set (opened_ids (ad_published db)))"

definition sound :: "alert_db \<Rightarrow> alert_error option \<times> alert_db \<Rightarrow> bool" where
  "sound db r \<longleftrightarrow> alert_inv (snd r) \<and> ad_versions (snd r) = ad_versions db"

lemma sound_refl [simp]: "alert_inv db \<Longrightarrow> sound db (err, db)"
  by (simp add: sound_def)

lemma sound_streaks [simp]:
  "sound (snd (IncrementFailureStreak fp db)) r = sound db r" "sound (ResetFailureStreak fp db) r = sound db r"
  "sound (ResetFailureStreaksExcept fps db) r = sound db r"
  by (simp_all add: sound_def IncrementFailureStreak_def ResetFailureStreak_def ResetFailureStreaksExcept_def Let_def)

lemma sound_bump:
  assumes "alert_inv db" "FindOpenByFingerprint fp db = Some a" "version_of a a'" "is_open a'"
  shows "sound db (update_alert a' db)"
proof (cases "update_alert a' db")
  case (Pair err db')
  then show ?thesis using bump_effect [OF assms Pair] by (simp add: sound_def)
qed

lemma sound_resolve_alert:
  assumes "alert_inv db" "a \<in> set (ad_alerts db)" "is_open a"
  shows "sound db (resolve_alert env reason msg ref a db)"
proof (cases "resolve_alert env reason msg ref a db")
  case (Pair err db')
  then show ?thesis using resolve_alert_effect [OF assms Pair] by (simp add: sound_def)
qed

lemma sound_resolve_open: "alert_inv db \<Longrightarrow> sound db (resolve_open env fp reason msg ref db)"
  by (auto simp: resolve_open_def dest: find_openD intro: sound_resolve_alert split: option.split)

lemma sound_create:
  assumes "alert_inv db" "fresh_alert a db"
  shows "sound db (create_and_announce env a db)"
proof (cases "create_and_announce env a db")
  case (Pair err db')
  then show ?thesis using create_and_announce_effect [OF assms Pair] by (simp add: sound_def)
qed

lemma sound_open:
  assumes "alert_inv db" "FindOpenByFingerprint (al_Fingerprint a) db = None" "fresh_alert a db"
  shows "sound db (open_alert env eid a h db)"
  using assms sound_create open_alert_announces by (simp add: alert_inv_def)

lemma new_alert_fields [simp]:
  "al_Fingerprint (new_alert env aid eid k t rid title msg n) = fingerprint_of k t rid"
  "is_open (new_alert env aid eid k t rid title msg n)"
  "al_ResourceID (new_alert env aid eid k t rid title msg n) = rid"
  "al_OpenedAt (new_alert env aid eid k t rid title msg n) = env_Now env"
  "al_UpdatedAt (new_alert env aid eid k t rid title msg n) = env_Now env"
  by (simp_all add: new_alert_def is_open_def)

lemma is_open_upd [simp]:
  "is_open (a\<lparr>al_Commit := c\<rparr>) = is_open a" "is_open (a\<lparr>al_FailureStage := x\<rparr>) = is_open a"
  "is_open (a\<lparr>al_ErrorCode := x\<rparr>) = is_open a" "is_open (a\<lparr>al_DeploymentID := x\<rparr>) = is_open a"
  "is_open (a\<lparr>al_Occurrences := w\<rparr>) = is_open a" "is_open (a\<lparr>al_UpdatedAt := t\<rparr>) = is_open a"
  "is_open (a\<lparr>al_LatestEventID := x\<rparr>) = is_open a" "is_open (a\<lparr>al_Message := x\<rparr>) = is_open a"
  "is_open (a\<lparr>al_Title := x\<rparr>) = is_open a"
  by (simp_all add: is_open_def)

lemma fresh_alert_new:
  assumes "fresh_ids env db"
  shows "fresh_alert (new_alert env (env_NewID env i) eid k t rid title msg n) db"
  using assms by (simp add: fresh_alert_def fresh_ids_def) (simp add: new_alert_def)

lemma fresh_alert_upd [simp]:
  "fresh_alert (a\<lparr>al_Commit := c\<rparr>) db = fresh_alert a db" "fresh_alert (a\<lparr>al_FailureStage := x\<rparr>) db = fresh_alert a db"
  "fresh_alert (a\<lparr>al_ErrorCode := x\<rparr>) db = fresh_alert a db" "fresh_alert (a\<lparr>al_DeploymentID := x\<rparr>) db = fresh_alert a db"
  by (simp_all add: fresh_alert_def is_open_def)

lemma found_ok: "alert_inv db \<Longrightarrow> FindOpenByFingerprint fp db = Some a \<Longrightarrow> alert_ok a \<and> is_open a"
  using find_openD [of fp db a] by (simp add: alert_inv_def rows_wf_def)

lemma version_self: "alert_ok a \<Longrightarrow> version_of a a"
  by (auto simp: version_of_def alert_ok_def)

lemma version_upd [simp]:
  "version_of a (b\<lparr>al_Commit := c\<rparr>) = version_of a b" "version_of a (b\<lparr>al_FailureStage := x\<rparr>) = version_of a b"
  "version_of a (b\<lparr>al_ErrorCode := x\<rparr>) = version_of a b" "version_of a (b\<lparr>al_DeploymentID := x\<rparr>) = version_of a b"
  "version_of a (b\<lparr>al_Occurrences := w\<rparr>) = version_of a b" "version_of a (b\<lparr>al_UpdatedAt := t\<rparr>) = version_of a b"
  "version_of a (b\<lparr>al_LatestEventID := x\<rparr>) = version_of a b" "version_of a (b\<lparr>al_Message := x\<rparr>) = version_of a b"
  "version_of a (b\<lparr>al_Title := x\<rparr>) = version_of a b"
  by (simp_all add: version_of_def)

lemma fresh_ids_streaks [simp]:
  "fresh_ids env (snd (IncrementFailureStreak fp db)) = fresh_ids env db"
  "fresh_ids env (ResetFailureStreak fp db) = fresh_ids env db"
  by (simp_all add: fresh_ids_def)

lemma sound_handleServiceDrift:
  assumes "alert_inv db" "fresh_ids env db"
  shows "sound db (handleServiceDrift env eid stack service commit reason resolved db)"
  using assms found_ok [OF assms(1)]
  by (auto simp: handleServiceDrift_def ServiceDriftFingerprint_def Let_def version_self fresh_alert_new
      intro!: sound_bump sound_open split: option.split)

lemma incremented:
  assumes "alert_inv db" "fresh_ids env db" "IncrementFailureStreak fp db = (n, db1)"
  shows "alert_inv db1" "fresh_ids env db1" "sound db1 r = sound db r"
    "FindOpenByFingerprint fp' db1 = FindOpenByFingerprint fp' db"
  using streak_steps(1) [OF assms(1), of fp] assms(2,3) fresh_ids_streaks(1) [of env fp db] sound_streaks(1) [of fp db r]
    streaks_frame(7) [of fp' fp db] by simp_all

lemma sound_handleGitPullFailed:
  assumes "alert_inv db" "fresh_ids env db"
  shows "sound db (handleGitPullFailed env eid repository category description db)"
proof -
  obtain n db1 where inc: "IncrementFailureStreak (GitRepositoryUnavailableFingerprint repository) db = (n, db1)" by fastforce
  note 1 = incremented [OF assms inc]
  have "sound db1 (handleGitPullFailed env eid repository category description db)"
    using 1(1,2) found_ok [OF 1(1)]
    by (auto simp: handleGitPullFailed_def inc [unfolded GitRepositoryUnavailableFingerprint_def] Let_def
        GitRepositoryUnavailableFingerprint_def version_self fresh_alert_new
        intro!: sound_bump sound_open split: option.split)
  then show ?thesis using 1(3) by simp
qed

lemma sound_handleFailed:
  assumes "alert_inv db" "fresh_ids env db"
  shows "sound db (handleFailed env eid stack title details temporary db)"
proof (cases "stackRemoved env stack")
  case True
  then show ?thesis using streak_steps(2) [OF assms(1)] by (simp add: handleFailed_def Let_def sound_def ResetFailureStreak_def)
next
  case False
  obtain n db1 where inc: "IncrementFailureStreak (SyncFailedFingerprint stack) db = (n, db1)" by fastforce
  note 1 = incremented [OF assms inc]
  have "sound db1 (handleFailed env eid stack title details temporary db)"
    using 1(1,2) found_ok [OF 1(1)] False
    by (auto simp: handleFailed_def inc [unfolded SyncFailedFingerprint_def] Let_def SyncFailedFingerprint_def
        version_self fresh_alert_new intro!: sound_bump sound_open split: option.split)
  then show ?thesis using 1(3) by simp
qed

lemma handleNode_eq:
  "handleNode env eventID nodeID disconnected db =
     (case FindOpenByFingerprint (NodeDisconnectedFingerprint nodeID) db of
        None \<Rightarrow>
          if \<not> disconnected then (None, db)
          else create_and_announce env (new_alert env (env_NewID env 0) eventID AlertKindNodeDisconnected ResourceTypeNode nodeID
                      ''Node disconnected'' ''Swarm node is not ready'' 1) db
      | Some a \<Rightarrow>
          if disconnected
          then update_alert (a\<lparr>al_Occurrences := al_Occurrences a + 1, al_UpdatedAt := env_Now env,
                 al_LatestEventID := eventID\<rparr>) db
          else resolve_alert env ResolutionReasonRecovered ''Swarm node reconnected'' eventID a db)"
  unfolding handleNode_def create_and_announce_def Let_def ..

lemma sound_handleNode:
  assumes "alert_inv db" "fresh_ids env db"
  shows "sound db (handleNode env eid node disconnected db)"
  using assms found_ok [OF assms(1)] find_openD
  by (auto simp: handleNode_eq version_self fresh_alert_new
      intro!: sound_bump [OF assms(1)] sound_create sound_resolve_alert split: option.split)

text \<open>Resolving the alerts of removed stacks leaves the open ones that follow in the list in place.\<close>

lemma resolve_alert_keeps_rows:
  assumes "alert_inv db" "a \<in> set (ad_alerts db)" "is_open a"
    and "resolve_alert env reason msg ref a db = (err, db')"
    and "b \<in> set (ad_alerts db)" "is_open b" "b \<noteq> a"
  shows "b \<in> set (ad_alerts db')"
proof -
  have wf: "rows_wf (ad_alerts db)" using assms(1) by (simp add: alert_inv_def)
  have b: "incidents db (al_Fingerprint b) = Some b"
    using assms(5,6) find_open_iff [OF wf] by (simp add: incidents_def)
  have "al_Fingerprint b \<noteq> al_Fingerprint a" using rows_open_unique [OF wf assms(5,2,6,3)] assms(7) by blast
  then have "incidents db' (al_Fingerprint b) = Some b"
    using resolve_alert_effect(4) [OF assms(1-4)] b by (simp split: if_splits)
  then show ?thesis using find_openD by (auto simp: incidents_def)
qed

lemma sound_resolve_removed:
  assumes "alert_inv db" "set as \<subseteq> set (ad_alerts db)" "\<forall>a \<in> set as. is_open a" "distinct as"
  shows "sound db (resolve_removed env eid n as db)"
  using assms
proof (induction env eid n as db rule: resolve_removed.induct)
  case (2 env eid n a as db)
  show ?case
  proof (cases "of_removed_stack (env_Stacks env) a")
    case True
    obtain err db1 where r: "resolve_alert env ResolutionReasonResourceRemoved (removed_message a)
        (eventReferenceID eid (env_NewID env n)) a db = (err, db1)" by fastforce
    have a: "a \<in> set (ad_alerts db)" "is_open a" using "2.prems" by simp_all
    note eff = resolve_alert_effect [OF "2.prems"(1) a r]
    have "set as \<subseteq> set (ad_alerts db1)"
      using resolve_alert_keeps_rows [OF "2.prems"(1) a r] "2.prems" by auto
    then have "sound db1 (resolve_removed env eid (n + 1) as db1)" if "err = None"
      using "2.IH"(1) [OF True r [symmetric, unfolded that]] that eff(1) "2.prems" by simp
    then show ?thesis using True r eff by (cases err) (simp_all add: sound_def)
  next
    case False
    then show ?thesis using "2.IH"(2) "2.prems" by simp
  qed
qed simp

lemma list_open: "set (list_alerts open_filter db) = {a \<in> set (ad_alerts db). is_open a}"
  by (auto simp: list_alerts_def open_filter_def matches_filter_def Let_def is_open_def)

lemma distinct_list_open: "alert_inv db \<Longrightarrow> distinct (list_alerts open_filter db)"
  by (simp add: list_alerts_def open_filter_def alert_inv_def rows_wf_def distinct_map)

lemma sound_handleConfigurationChanged:
  assumes "alert_inv db"
  shows "sound db (handleConfigurationChanged env eid db)"
proof -
  let ?db = "ResetFailureStreaksExcept (map SyncFailedFingerprint (env_Stacks env)) db"
  have "sound ?db (resolve_removed env eid 0 (list_alerts open_filter ?db) ?db)"
    using streak_steps(3) [OF assms] by (intro sound_resolve_removed) (auto simp: list_open distinct_list_open)
  then show ?thesis using assms by (simp add: handleConfigurationChanged_def Let_def)
qed

theorem handle_alert_sound:
  assumes "alert_inv db" "fresh_ids env db"
  shows "sound db (handle_alert env eid e db)"
proof -
  have "sound db (resolve_open env fp reason msg ref (ResetFailureStreak fp' db))" for fp reason msg ref fp'
    using sound_resolve_open [OF streak_steps(2) [OF assms(1), of fp']] by simp
  then show ?thesis
    using assms sound_handleConfigurationChanged sound_handleNode sound_handleFailed sound_handleGitPullFailed
      sound_handleServiceDrift sound_resolve_open [OF assms(1)]
    by (cases e) (simp_all add: handleGitRepositoryChanged_def handleSucceeded_def handleGitPullSucceeded_def
        handleServiceDriftFixed_def handleServiceRemovedFromDesired_def Let_def)
qed

section \<open>Histories\<close>

definition empty_alerts :: alert_db where
  "empty_alerts = \<lparr>ad_alerts = [], ad_streaks = fmempty, ad_versions = fmempty, ad_published = []\<rparr>"

inductive alert_step :: "alert_db \<Rightarrow> alert_db \<Rightarrow> bool" where
  alert_handled: "fresh_ids env db \<Longrightarrow> sql_handle fault env e db = (err, db') \<Longrightarrow> alert_step db db'"

abbreviation alerts_reachable :: "alert_db \<Rightarrow> bool" where
  "alerts_reachable \<equiv> reachable (\<lambda>db. db = empty_alerts) alert_step"

text \<open>An event is accepted if it is newer than the last one applied for its resource.\<close>

definition accepted :: "alert_envelope \<Rightarrow> alert_db \<Rightarrow> bool" where
  "accepted e db \<longleftrightarrow>
     (case alert_resource (ae_Event e) of
        None \<Rightarrow> False
      | Some r \<Rightarrow> (case fmlookup (ad_versions db) r of None \<Rightarrow> True | Some v \<Rightarrow> v < (ae_OccurredAt e, ae_ID e)))"

definition advanced :: "alert_envelope \<Rightarrow> alert_db \<Rightarrow> alert_db" where
  "advanced e db = db\<lparr>ad_versions := fmupd (the (alert_resource (ae_Event e))) (ae_OccurredAt e, ae_ID e) (ad_versions db)\<rparr>"

lemma sql_handle_accepted:
  assumes "accepted e db"
  shows "sql_handle fault env e db =
    (if ae_ID e = '''' \<or> IsZero (ae_OccurredAt e) then (Some SourceRequired, db)
     else within_tx fault (\<lambda>db. handle_alert env (ae_ID e) (ae_Event e) (advanced e db)) db)"
  using assms
  by (auto simp: sql_handle_def ConsumeLatest_def accepted_def within_tx_def AdvanceProjection_def advanced_def
      split: option.splits)

lemma sql_handle_ignored:
  assumes "\<not> accepted e db"
  shows "sql_handle fault env e db =
    (case alert_resource (ae_Event e) of
       None \<Rightarrow> (None, db)
     | Some r \<Rightarrow> (if ae_ID e = '''' \<or> IsZero (ae_OccurredAt e) then Some SourceRequired else fault, db))"
  using assms
  by (auto simp: sql_handle_def ConsumeLatest_def accepted_def within_tx_def AdvanceProjection_def advanced_def
      split: option.splits)

lemma advanced_frame [simp]:
  "ad_alerts (advanced e db) = ad_alerts db" "ad_streaks (advanced e db) = ad_streaks db"
  "ad_published (advanced e db) = ad_published db" "incidents (advanced e db) = incidents db"
  "alert_inv (advanced e db) = alert_inv db" "fresh_ids env (advanced e db) = fresh_ids env db"
  "FindOpenByFingerprint fp (advanced e db) = FindOpenByFingerprint fp db"
  by (simp_all add: advanced_def incidents_def FindOpenByFingerprint_def alert_inv_def fresh_ids_def fun_eq_iff)

lemma sql_handle_cases:
  assumes "alert_inv db" "fresh_ids env db" "sql_handle fault env e db = (err, db')"
  shows "alert_inv db' \<and> (db' = db \<or> accepted e db \<and> ad_versions db' = ad_versions (advanced e db))"
proof (cases "accepted e db")
  case True
  obtain err1 db1 where h: "handle_alert env (ae_ID e) (ae_Event e) (advanced e db) = (err1, db1)" by fastforce
  then have "alert_inv db1 \<and> ad_versions db1 = ad_versions (advanced e db)"
    using handle_alert_sound [of "advanced e db" env] assms(1,2) by (simp add: sound_def) (metis snd_conv)
  then show ?thesis
    using assms(1,3) True h by (auto simp: sql_handle_accepted within_tx_def split: if_splits option.splits)
next
  case False
  then show ?thesis using assms(1,3) by (auto simp: sql_handle_ignored split: option.splits)
qed

interpretation alerts: inductive_invariant "\<lambda>db. db = empty_alerts" alert_step alert_inv
proof
  show "alert_inv db" if "db = empty_alerts" for db
    using that by (simp add: empty_alerts_def alert_inv_def rows_wf_def rows_bounded_def announced_def open_ids_def)
  show "alert_inv t" if "alert_inv s" "alert_step s t" for s t
    using that(2,1) by (cases rule: alert_step.cases) (use sql_handle_cases in blast)
qed

lemma versions_step:
  assumes "alert_inv db" "alert_step db db'" "fmlookup (ad_versions db) r = Some v"
  shows "\<exists>v'. fmlookup (ad_versions db') r = Some v' \<and> v \<le> v'"
  using assms(2)
proof cases
  case (alert_handled env fault e err)
  have "db' = db \<or> accepted e db \<and> ad_versions db' = ad_versions (advanced e db)"
    using sql_handle_cases [OF assms(1) alert_handled] by blast
  then show ?thesis
  proof
    assume "db' = db"
    then show ?thesis using assms(3) by blast
  next
    assume acc: "accepted e db \<and> ad_versions db' = ad_versions (advanced e db)"
    then obtain q where q: "alert_resource (ae_Event e) = Some q" by (auto simp: accepted_def split: option.splits)
    show ?thesis
    proof (cases "q = r")
      case True
      then have "v < (ae_OccurredAt e, ae_ID e)" using acc q assms(3) by (simp add: accepted_def)
      then show ?thesis using acc q True less_imp_le by (auto simp: advanced_def simp del: less_prod_simp less_eq_prod_simp)
    next
      case False
      then show ?thesis using acc q assms(3) by (auto simp: advanced_def simp del: less_prod_simp less_eq_prod_simp)
    qed
  qed
qed

lemma versions_steps:
  assumes "alert_step\<^sup>*\<^sup>* db db'" "alert_inv db" "fmlookup (ad_versions db) r = Some v"
  shows "alert_inv db' \<and> (\<exists>v'. fmlookup (ad_versions db') r = Some v' \<and> v \<le> v')"
  using assms
proof (induction rule: rtranclp_induct)
  case (step y z)
  then obtain w where w: "alert_inv y" "fmlookup (ad_versions y) r = Some w" "v \<le> w" by blast
  show ?case using alerts.inv_step [OF w(1) step(2)] versions_step [OF w(1) step(2) w(2)] w(3) order_trans by blast
qed auto

lemma handled_version:
  assumes "alert_inv db" "fresh_ids env db" "sql_handle fault env e db = (None, db')"
    and "alert_resource (ae_Event e) = Some r"
  shows "\<exists>v. fmlookup (ad_versions db') r = Some v \<and> (ae_OccurredAt e, ae_ID e) \<le> v"
proof (cases "accepted e db")
  case True
  obtain err1 db1 where h: "handle_alert env (ae_ID e) (ae_Event e) (advanced e db) = (err1, db1)" by fastforce
  have "db' = db1"
    using assms(3) h by (auto simp: sql_handle_accepted [OF True] within_tx_def split: if_splits option.splits)
  moreover have "ad_versions db1 = ad_versions (advanced e db)"
    using handle_alert_sound [of "advanced e db" env] assms(1,2) h by (simp add: sound_def) (metis snd_conv)
  ultimately show ?thesis using assms(4) by (simp add: advanced_def)
next
  case False
  then show ?thesis
    using assms(3,4) sql_handle_ignored [OF False, of fault env] by (auto simp: accepted_def not_less split: option.splits)
qed

section \<open>Properties\<close>

text \<open>
  C5. In every state the alerts can reach, whatever is delivered, in whatever order and with whatever
  failures: at most one alert is open per fingerprint and the fingerprint is the one of the alert's kind
  and resource; an alert is open exactly while it has no resolution; more than 100 alerts are kept only
  if all of them are open; and every incident was announced exactly once when it opened and once when it
  was resolved, so the open alerts are exactly the announced and not yet resolved ones.
\<close>

theorem alerts_consistent:
  assumes "alerts_reachable db"
  shows "distinct (map al_ID (ad_alerts db)) \<and>
    (\<forall>a \<in> set (ad_alerts db). al_Fingerprint a = fingerprint_of (al_Kind a) (al_ResourceType a) (al_ResourceID a) \<and>
       (is_open a \<longleftrightarrow> al_Resolution a = None) \<and> (is_open a \<longleftrightarrow> al_ResolvedAt a = None) \<and>
       (\<forall>b \<in> set (ad_alerts db). is_open a \<and> is_open b \<and> al_Fingerprint a = al_Fingerprint b \<longrightarrow> a = b)) \<and>
    (length (ad_alerts db) \<le> 100 \<or> (\<forall>a \<in> set (ad_alerts db). is_open a)) \<and>
    distinct (opened_ids (ad_published db)) \<and> distinct (resolved_ids (ad_published db)) \<and>
    {al_ID a | a. a \<in> set (ad_alerts db) \<and> is_open a} =
      set (opened_ids (ad_published db)) - set (resolved_ids (ad_published db)) \<and>
    (\<forall>fp n. fmlookup (ad_streaks db) fp = Some n \<longrightarrow> 0 < n)"
proof -
  have inv: "alert_inv db" using alerts.inv_reachable [OF assms] .
  have "{al_ID a | a. a \<in> set (ad_alerts db) \<and> is_open a} = open_ids (ad_alerts db)"
    by (auto simp: open_ids_def)
  moreover have "al_Fingerprint a = fingerprint_of (al_Kind a) (al_ResourceType a) (al_ResourceID a) \<and>
       (is_open a \<longleftrightarrow> al_Resolution a = None) \<and> (is_open a \<longleftrightarrow> al_ResolvedAt a = None) \<and>
       (\<forall>b \<in> set (ad_alerts db). is_open a \<and> is_open b \<and> al_Fingerprint a = al_Fingerprint b \<longrightarrow> a = b)"
    if "a \<in> set (ad_alerts db)" for a
  proof -
    have "alert_ok a" using inv that by (simp add: alert_inv_def rows_wf_def)
    moreover have "\<forall>b \<in> set (ad_alerts db). is_open a \<and> is_open b \<and> al_Fingerprint a = al_Fingerprint b \<longrightarrow> a = b"
      using inv that by (simp add: alert_inv_def rows_wf_def)
    ultimately show ?thesis unfolding alert_ok_def by blast
  qed
  moreover have "rows_bounded (ad_alerts db)" "announced (ad_alerts db) (ad_published db)" "distinct (map al_ID (ad_alerts db))"
      "\<forall>fp n. fmlookup (ad_streaks db) fp = Some n \<longrightarrow> 0 < n"
    using inv by (simp_all add: alert_inv_def rows_wf_def)
  ultimately show ?thesis unfolding announced_def rows_bounded_def MaxStoredAlerts_def by blast
qed

text \<open>
  C7. A delayed or repeated event changes nothing: once an event was handled, every event of the same
  resource that is not newer, in particular the same event delivered again, is ignored in every later
  state, so each source event takes effect at most once and never over a newer one.
\<close>

theorem delayed_events_ignored:
  assumes "alerts_reachable db" "fresh_ids env db" "sql_handle fault env e db = (None, db1)" "alert_step\<^sup>*\<^sup>* db1 db2"
    and "alert_resource (ae_Event e') = alert_resource (ae_Event e)"
    and "(ae_OccurredAt e', ae_ID e') \<le> (ae_OccurredAt e, ae_ID e)" "ae_ID e' \<noteq> ''''" "ae_OccurredAt e' \<noteq> 0"
  shows "snd (sql_handle fault' env' e' db2) = db2 \<and> sql_handle None env' e' db2 = (None, db2)"
proof (cases "alert_resource (ae_Event e)")
  case (Some r)
  have inv: "alert_inv db" using alerts.inv_reachable [OF assms(1)] .
  have inv1: "alert_inv db1" using sql_handle_cases [OF inv assms(2,3)] by simp
  obtain v where v: "fmlookup (ad_versions db1) r = Some v" "(ae_OccurredAt e, ae_ID e) \<le> v"
    using handled_version [OF inv assms(2,3) Some] by blast
  obtain w where w: "fmlookup (ad_versions db2) r = Some w" "v \<le> w" using versions_steps [OF assms(4) inv1 v(1)] by blast
  have "\<not> w < (ae_OccurredAt e', ae_ID e')" using assms(6) v(2) w(2) by (meson leD order_trans)
  then have "\<not> accepted e' db2" using w(1) Some assms(5) by (simp add: accepted_def)
  then show ?thesis
    using assms(5,7,8) Some by (auto simp: sql_handle_ignored IsZero_def split: option.split)
next
  case None
  then show ?thesis using assms(5) by (simp add: sql_handle_def)
qed

section \<open>Opening and closing incidents\<close>

fun failure_event :: "alert_source \<Rightarrow> (string \<times> bool) option" where
  "failure_event (DeployFailed stack did commit code stage err logs) = Some (stack, isTemporary err)"
| "failure_event (DeployPreparationFailed stack commit code stage err) = Some (stack, isTemporary err)"
| "failure_event (DeployInterrupted stack did commit reason stage err) = Some (stack, isTemporary err)"
| "failure_event _ = None"

fun recovery_event :: "alert_source \<Rightarrow> string option" where
  "recovery_event (DeploySuccess stack) = Some (SyncFailedFingerprint stack)"
| "recovery_event (GitPullSucceeded repository) = Some (GitRepositoryUnavailableFingerprint repository)"
| "recovery_event (NodeConnected node) = Some (NodeDisconnectedFingerprint node)"
| "recovery_event (ServiceDriftFixed stack service) = Some (ServiceDriftFingerprint stack service)"
| "recovery_event (ServiceRemovedFromDesired stack service) = Some (ServiceDriftFingerprint stack service)"
| "recovery_event (ConfigurationChanged previous) =
     (if previous = '''' then None else Some (GitRepositoryUnavailableFingerprint previous))"
| "recovery_event _ = None"

definition streak :: "alert_db \<Rightarrow> string \<Rightarrow> nat" where
  "streak db fp = (case fmlookup (ad_streaks db) fp of None \<Rightarrow> 0 | Some n \<Rightarrow> n)"

lemma write_frame:
  assumes "write_alert a u db = (err, db')"
  shows "ad_published db' = ad_published db" "ad_streaks db' = ad_streaks db" "ad_versions db' = ad_versions db"
  using assms by (auto simp: write_alert_def split: option.splits sum.splits)

lemma create_published:
  assumes "create_and_announce env a db = (None, db')"
  shows "ad_published db' = ad_published db @ [AlertOpened (alertSnapshot a) (env_Recipients env (al_Kind a))]"
proof -
  obtain e db1 where "create_alert a db = (e, db1)" by fastforce
  then show ?thesis
    using assms write_frame(1) [of a False db e db1]
    by (auto simp: create_and_announce_def create_alert_def publishOpened_def split: option.splits)
qed

lemma resolve_published:
  assumes "resolve_alert env reason msg ref a db = (None, db')"
  shows "\<exists>s rs. ad_published db' = ad_published db @ [AlertResolved s rs] \<and> snap_ID s = al_ID a"
proof -
  define a' where "a' = a\<lparr>al_Status := AlertStatusResolved, al_UpdatedAt := env_Now env, al_ResolvedAt := Some (env_Now env),
                al_Resolution := Some \<lparr>res_Reason = reason, res_Message = msg, res_EventID = ref\<rparr>\<rparr>"
  obtain e db1 where u: "update_alert a' db = (e, db1)" by fastforce
  then have "e = None \<and> db' = publishResolved env a' db1"
    using assms by (simp add: resolve_alert_def a'_def [symmetric] Let_def split: option.splits)
  then show ?thesis
    using u write_frame(1) [of a' True db e db1] by (simp add: update_alert_def publishResolved_def) (simp add: a'_def)
qed

text \<open>What a failure of a desired stack does to the incidents, the streak and the announcements.\<close>

definition failure_outcome :: "string \<Rightarrow> bool \<Rightarrow> alert_db \<Rightarrow> alert_db \<Rightarrow> bool" where
  "failure_outcome fp temporary db db' \<longleftrightarrow>
     streak db' fp = streak db fp + 1 \<and>
     (\<forall>fp'. fp' \<noteq> fp \<longrightarrow> streak db' fp' = streak db fp' \<and> incidents db' fp' = incidents db fp') \<and>
     (case incidents db fp of
        Some a \<Rightarrow> ad_published db' = ad_published db \<and>
          (\<exists>a'. incidents db' fp = Some a' \<and> al_ID a' = al_ID a \<and> al_OpenedAt a' = al_OpenedAt a \<and>
             al_Occurrences a' = al_Occurrences a + 1)
      | None \<Rightarrow>
          if temporary \<and> streak db fp + 1 < 3 then ad_published db' = ad_published db \<and> incidents db' fp = None
          else \<exists>a' rs. incidents db' fp = Some a' \<and> al_Occurrences a' = of_nat (streak db fp + 1) \<and>
                 ad_published db' = ad_published db @ [AlertOpened (alertSnapshot a') rs])"

lemma incremented_streak:
  assumes "IncrementFailureStreak fp db = (n, db1)"
  shows "n = streak db fp + 1" "ad_streaks db1 = fmupd fp n (ad_streaks db)" "ad_published db1 = ad_published db"
    "incidents db1 = incidents db"
  using assms by (auto simp: IncrementFailureStreak_def streak_def Let_def incidents_def FindOpenByFingerprint_def
      fun_eq_iff split: option.splits)

lemma open_alert_effect:
  assumes inv: "alert_inv db" and none: "incidents db (al_Fingerprint a) = None" and a: "fresh_alert a db"
    and run: "open_alert env eid a h db = (None, db')"
  shows "ad_streaks db' = ad_streaks db" "incidents db' = (incidents db)(al_Fingerprint a := Some a)"
    "ad_published db' = ad_published db @ [AlertOpened (alertSnapshot a) (env_Recipients env (al_Kind a))]"
proof -
  have new: "create_and_announce env a db = (None, db')"
    using open_alert_announces [of db a env eid h] inv none run by (simp add: alert_inv_def incidents_def)
  show "ad_streaks db' = ad_streaks db" "incidents db' = (incidents db)(al_Fingerprint a := Some a)"
    "ad_published db' = ad_published db @ [AlertOpened (alertSnapshot a) (env_Recipients env (al_Kind a))]"
    using create_and_announce_effect(2,4) [OF inv a new] create_published [OF new] by simp_all
qed

lemma handleFailed_effect:
  assumes inv: "alert_inv db" and ids: "fresh_ids env db" and here: "\<not> stackRemoved env stack"
    and run: "handleFailed env eid stack title details temporary db = (None, db')"
  shows "failure_outcome (SyncFailedFingerprint stack) temporary db db'"
proof -
  let ?fp = "SyncFailedFingerprint stack" and ?eid = "eventReferenceID eid (env_NewID env 0)"
  obtain n db1 where inc: "IncrementFailureStreak ?fp db = (n, db1)" by fastforce
  note 1 = incremented [OF inv ids inc] and n = incremented_streak [OF inc]
  have str: "streak db' fp' = (if fp' = ?fp then n else streak db fp')" if "ad_streaks db' = ad_streaks db1" for fp'
    using that n(2) by (simp add: streak_def)
  show ?thesis
  proof (cases "FindOpenByFingerprint ?fp db1")
    case (Some a)
    define a' where "a' = a\<lparr>al_Occurrences := al_Occurrences a + 1, al_UpdatedAt := env_Now env, al_LatestEventID := ?eid,
        al_Message := (if fd_hasDiagnostic details \<or> al_Message a = [] then fd_message details else al_Message a),
        al_Title := title, al_FailureStage := fd_stage details, al_ErrorCode := fd_code details,
        al_DeploymentID := fd_deploymentID details, al_Commit := fd_commit details\<rparr>"
    have upd: "update_alert a' db1 = (None, db')" using run here inc Some by (simp add: handleFailed_def a'_def)
    have "version_of a a'" "is_open a'" using found_ok [OF 1(1) Some] by (simp_all add: version_self a'_def)
    note eff = bump_effect [OF 1(1) Some this upd]
    have "incidents db ?fp = Some a" using Some n(4) by (metis incidents_def)
    moreover have "al_ID a' = al_ID a" "al_OpenedAt a' = al_OpenedAt a" "al_Occurrences a' = al_Occurrences a + 1"
      by (simp_all add: a'_def)
    ultimately show ?thesis using eff(4,5) str [OF eff(2)] n by (simp add: failure_outcome_def)
  next
    case None
    then have none: "incidents db ?fp = None" "incidents db1 ?fp = None" using n(4) by (metis incidents_def)+
    show ?thesis
    proof (cases "temporary \<and> n < temporaryFailureThreshold")
      case True
      then have "db' = db1" using run here inc None by (simp add: handleFailed_def)
      then show ?thesis using True none str n by (simp add: failure_outcome_def temporaryFailureThreshold_def)
    next
      case False
      define a where "a = (new_alert env (env_NewID env 1) ?eid AlertKindSyncFailed ResourceTypeStack stack title (fd_message details) n)
          \<lparr>al_FailureStage := fd_stage details, al_ErrorCode := fd_code details,
           al_DeploymentID := fd_deploymentID details, al_Commit := fd_commit details\<rparr>"
      have a: "al_Fingerprint a = ?fp" "fresh_alert a db1" "al_Occurrences a = of_nat n"
        using fresh_alert_new [OF 1(2)] by (simp_all add: SyncFailedFingerprint_def a_def) (simp add: new_alert_def)
      have "open_alert env ?eid a (fd_hasDiagnostic details) db1 = (None, db')"
        using run here inc None False by (auto simp: handleFailed_def a_def Let_def)
      note eff = open_alert_effect [OF 1(1) _ a(2) this, unfolded a(1), OF none(2)]
      show ?thesis
        using none(1) False eff(2,3) str [OF eff(1)] n a(3)
        by (auto simp: failure_outcome_def temporaryFailureThreshold_def)
    qed
  qed
qed

lemma failure_handled:
  "failure_event e = Some (stack, temporary) \<Longrightarrow>
     \<exists>title details. handle_alert env eid e db = handleFailed env eid stack title details temporary db"
  by (cases e) auto

text \<open>What a recovery does: it closes the incident of its fingerprint, announces that once, and nothing else.\<close>

definition closed_incident :: "string \<Rightarrow> alert_db \<Rightarrow> alert_db \<Rightarrow> bool" where
  "closed_incident fp db db' \<longleftrightarrow>
     incidents db' = (incidents db)(fp := None) \<and>
     (case incidents db fp of
        None \<Rightarrow> ad_published db' = ad_published db
      | Some a \<Rightarrow> \<exists>s rs. ad_published db' = ad_published db @ [AlertResolved s rs] \<and> snap_ID s = al_ID a)"

lemma resolve_open_effect:
  assumes "alert_inv db" "resolve_open env fp reason msg ref db = (None, db')"
  shows "closed_incident fp db db'" "ad_streaks db' = ad_streaks db"
proof -
  have "closed_incident fp db db' \<and> ad_streaks db' = ad_streaks db"
  proof (cases "FindOpenByFingerprint fp db")
    case None
    then have "db' = db" using assms(2) by (simp add: resolve_open_def)
    with None show ?thesis by (auto simp: closed_incident_def incidents_def)
  next
    case (Some a)
    then have run: "resolve_alert env reason msg ref a db = (None, db')" using assms(2) by (simp add: resolve_open_def)
    have a: "a \<in> set (ad_alerts db)" "is_open a" "al_Fingerprint a = fp" using find_openD [OF Some] by simp_all
    show ?thesis
      using resolve_alert_effect [OF assms(1) a(1,2) run] resolve_published [OF run] a(3) Some
      by (simp add: closed_incident_def) (simp add: incidents_def)
  qed
  then show "closed_incident fp db db'" "ad_streaks db' = ad_streaks db" by simp_all
qed

lemma handleNode_recovers:
  assumes "handleNode env eid node False db = (None, db')"
  shows "resolve_open env (NodeDisconnectedFingerprint node) ResolutionReasonRecovered ''Swarm node reconnected'' eid db = (None, db')"
  using assms by (auto simp: handleNode_eq resolve_open_def split: option.splits)

fun ends_streak :: "alert_source \<Rightarrow> bool" where
  "ends_streak (DeploySuccess stack) = True"
| "ends_streak (GitPullSucceeded repository) = True"
| "ends_streak (ConfigurationChanged previous) = True"
| "ends_streak _ = False"

lemma recovery_handled:
  assumes "alert_inv db" "recovery_event e = Some fp" "handle_alert env eid e db = (None, db')"
  shows "closed_incident fp db db' \<and> ad_streaks db' = (if ends_streak e then fmdrop fp (ad_streaks db) else ad_streaks db)"
proof -
  have reset: "closed_incident fp db db' \<and> ad_streaks db' = fmdrop fp (ad_streaks db)"
    if "resolve_open env fp reason msg ref (ResetFailureStreak fp db) = (None, db')" for reason msg ref
  proof -
    have "incidents (ResetFailureStreak fp db) = incidents db" by (simp add: incidents_def fun_eq_iff)
    then have "closed_incident fp (ResetFailureStreak fp db) db' \<longleftrightarrow> closed_incident fp db db'"
      by (cases "incidents db fp") (simp_all add: closed_incident_def)
    then show ?thesis
      using resolve_open_effect [OF streak_steps(2) [OF assms(1), of fp] that] by (simp add: ResetFailureStreak_def)
  qed
  show ?thesis
    using assms(2,3) reset resolve_open_effect [OF assms(1)] handleNode_recovers
    by (cases e) (auto simp: handleSucceeded_def handleGitPullSucceeded_def handleGitRepositoryChanged_def
        handleServiceDriftFixed_def handleServiceRemovedFromDesired_def Let_def split: if_splits dest!: handleNode_recovers)
qed

lemma resolve_removed_effect:
  assumes "alert_inv db" "set as \<subseteq> set (ad_alerts db)" "\<forall>a \<in> set as. is_open a" "distinct as"
    and "resolve_removed env eid n as db = (None, db')"
  shows "incidents db' fp =
    (case incidents db fp of
       None \<Rightarrow> None | Some a \<Rightarrow> if a \<in> set as \<and> of_removed_stack (env_Stacks env) a then None else Some a)"
  using assms
proof (induction env eid n as db rule: resolve_removed.induct)
  case (1 env eid n db)
  then show ?case by (simp split: option.split)
next
  case (2 env eid n a as db)
  show ?case
  proof (cases "of_removed_stack (env_Stacks env) a")
    case True
    obtain err db1 where r: "resolve_alert env ResolutionReasonResourceRemoved (removed_message a)
        (eventReferenceID eid (env_NewID env n)) a db = (err, db1)" by fastforce
    have err: "err = None" using "2.prems"(5) True r by (cases err) simp_all
    have a: "a \<in> set (ad_alerts db)" "is_open a" using "2.prems" by simp_all
    note eff = resolve_alert_effect [OF "2.prems"(1) a r]
    have rest: "set as \<subseteq> set (ad_alerts db1)"
      using resolve_alert_keeps_rows [OF "2.prems"(1) a r] "2.prems" by auto
    have run: "resolve_removed env eid (n + 1) as db1 = (None, db')" using "2.prems"(5) True r err by simp
    have IH: "incidents db' fp = (case incidents db1 fp of
        None \<Rightarrow> None | Some a \<Rightarrow> if a \<in> set as \<and> of_removed_stack (env_Stacks env) a then None else Some a)"
      using "2.IH"(1) [OF True r [symmetric] err eff(1) rest _ _ run] "2.prems"(3,4) by simp
    have "incidents db (al_Fingerprint a) = Some a"
      using find_open_iff [of db] "2.prems"(1) a by (simp add: incidents_def alert_inv_def)
    moreover have "b \<noteq> a" if "incidents db fp = Some b" "fp \<noteq> al_Fingerprint a" for b
      using that find_openD by (auto simp: incidents_def)
    ultimately show ?thesis
      using IH eff(4) err True by (cases "fp = al_Fingerprint a") (auto split: option.splits)
  next
    case False
    then show ?thesis using "2.IH"(2) "2.prems" by (auto split: option.splits)
  qed
qed

section \<open>Writes succeed\<close>

lemma update_succeeds:
  assumes inv: "alert_inv db" and a: "a \<in> set (ad_alerts db)" "is_open a" "version_of a a'"
    and now: "\<not> IsZero (al_UpdatedAt a')" "\<And>t. al_ResolvedAt a' = Some t \<Longrightarrow> \<not> IsZero t"
  shows "fst (update_alert a' db) = None"
proof -
  have wf: "rows_wf (ad_alerts db)" and ok: "alert_ok a" using inv a(1) by (simp_all add: alert_inv_def rows_wf_def)
  have "alertResolvedAt a' = None"
    using ok a(3) now by (auto simp: alertResolvedAt_def alert_ok_def version_of_def split: option.split)
  moreover have "\<exists>r \<in> set (ad_alerts db). same_incident a' r" using a(1,3) by (auto simp: same_incident_def version_of_def)
  moreover have "\<not> (\<exists>r \<in> set (ad_alerts db). is_open r \<and> al_Fingerprint r = al_Fingerprint a' \<and> al_ID r \<noteq> al_ID a')"
    using rows_open_unique [OF wf _ a(1) _ a(2)] a(3) by (auto simp: version_of_def)
  moreover have "al_ResourceID a' \<noteq> ''''" using ok a(3) by (simp add: alert_ok_def version_of_def)
  ultimately show ?thesis by (simp add: update_alert_def write_alert_def update_row_def)
qed

lemma create_succeeds:
  assumes inv: "alert_inv db" and a: "fresh_alert a db" "al_ResourceID a \<noteq> ''''" "incidents db (al_Fingerprint a) = None"
    and now: "\<not> IsZero (al_OpenedAt a)" "\<not> IsZero (al_UpdatedAt a)"
  shows "fst (create_and_announce env a db) = None"
proof -
  have "alertResolvedAt a = None" using a(1) now by (simp add: alertResolvedAt_def fresh_alert_def)
  moreover have "\<not> (\<exists>r \<in> set (ad_alerts db). al_ID r = al_ID a)"
    using inv a(1) by (auto simp: alert_inv_def announced_def fresh_alert_def)
  moreover have "\<not> (\<exists>r \<in> set (ad_alerts db). is_open r \<and> al_Fingerprint r = al_Fingerprint a)"
    using a(3) by (auto simp: incidents_def FindOpenByFingerprint_def find_None_iff)
  ultimately show ?thesis
    using a(2) by (simp add: create_and_announce_def create_alert_def write_alert_def insert_row_def)
qed

lemma resolve_succeeds:
  assumes "alert_inv db" "a \<in> set (ad_alerts db)" "is_open a" "\<not> IsZero (env_Now env)"
  shows "fst (resolve_alert env reason msg ref a db) = None"
proof -
  define a' where "a' = a\<lparr>al_Status := AlertStatusResolved, al_UpdatedAt := env_Now env, al_ResolvedAt := Some (env_Now env),
                al_Resolution := Some \<lparr>res_Reason = reason, res_Message = msg, res_EventID = ref\<rparr>\<rparr>"
  have "version_of a a'" by (simp add: a'_def version_of_def is_open_def)
  then have "fst (update_alert a' db) = None"
    using assms by (intro update_succeeds) (auto simp: a'_def)
  then show ?thesis
    by (cases "update_alert a' db") (simp add: resolve_alert_def a'_def [symmetric] Let_def)
qed

lemma resolve_open_succeeds:
  "alert_inv db \<Longrightarrow> \<not> IsZero (env_Now env) \<Longrightarrow> fst (resolve_open env fp reason msg ref db) = None"
  by (auto simp: resolve_open_def dest: find_openD intro: resolve_succeeds split: option.split)

lemma handleFailed_succeeds:
  assumes "alert_inv db" "fresh_ids env db" "stack \<noteq> ''''" "\<not> IsZero (env_Now env)"
  shows "fst (handleFailed env eid stack title details temporary db) = None"
proof (cases "stackRemoved env stack")
  case False
  obtain n db1 where inc: "IncrementFailureStreak (SyncFailedFingerprint stack) db = (n, db1)" by fastforce
  note 1 = incremented [OF assms(1,2) inc]
  show ?thesis
  proof (cases "FindOpenByFingerprint (SyncFailedFingerprint stack) db1")
    case (Some a)
    then show ?thesis
      using find_openD [OF Some] found_ok [OF 1(1) Some] assms(4) False inc
      by (auto simp: handleFailed_def version_self alert_ok_def intro!: update_succeeds [OF 1(1)])
  next
    case None
    have "fst (open_alert env e a h db1) = None"
      if "fresh_alert a db1" "al_Fingerprint a = SyncFailedFingerprint stack" "al_ResourceID a = stack"
        "al_OpenedAt a = env_Now env" "al_UpdatedAt a = env_Now env" for e a h
      using that open_alert_announces [of db1 a] create_succeeds [OF 1(1) that(1)] 1(1) None assms(3,4)
      by (simp add: alert_inv_def incidents_def)
    then show ?thesis
      using None inc False fresh_alert_new [OF 1(2)]
      by (auto simp: handleFailed_def Let_def SyncFailedFingerprint_def)
  qed
qed (simp add: handleFailed_def Let_def)

lemma resolve_removed_succeeds:
  assumes "alert_inv db" "set as \<subseteq> set (ad_alerts db)" "\<forall>a \<in> set as. is_open a" "distinct as" "\<not> IsZero (env_Now env)"
  shows "fst (resolve_removed env eid n as db) = None"
  using assms
proof (induction env eid n as db rule: resolve_removed.induct)
  case (2 env eid n a as db)
  show ?case
  proof (cases "of_removed_stack (env_Stacks env) a")
    case True
    obtain err db1 where r: "resolve_alert env ResolutionReasonResourceRemoved (removed_message a)
        (eventReferenceID eid (env_NewID env n)) a db = (err, db1)" by fastforce
    have a: "a \<in> set (ad_alerts db)" "is_open a" using "2.prems" by simp_all
    have err: "err = None" using resolve_succeeds [OF "2.prems"(1) a "2.prems"(5)] r by (metis fst_conv)
    have "set as \<subseteq> set (ad_alerts db1)"
      using resolve_alert_keeps_rows [OF "2.prems"(1) a r] "2.prems" by auto
    then have "fst (resolve_removed env eid (n + 1) as db1) = None"
      using "2.IH"(1) [OF True r [symmetric] err] resolve_alert_effect(1) [OF "2.prems"(1) a r] "2.prems" by simp
    then show ?thesis using True r err by simp
  next
    case False
    then show ?thesis using "2.IH"(2) "2.prems" by simp
  qed
qed simp

section \<open>Properties of the lifecycle\<close>

lemma streak_advanced [simp]: "streak (advanced e db) = streak db"
  by (simp add: streak_def fun_eq_iff)

lemma outcome_advanced [simp]:
  "failure_outcome fp temporary (advanced e db) db' = failure_outcome fp temporary db db'"
  "closed_incident fp (advanced e db) db' = closed_incident fp db db'"
  unfolding failure_outcome_def closed_incident_def by (simp_all only: streak_advanced advanced_frame)

lemma sql_handle_succeeds:
  assumes "accepted e db" "ae_ID e \<noteq> ''''" "ae_OccurredAt e \<noteq> 0"
    and "handle_alert env (ae_ID e) (ae_Event e) (advanced e db) = (None, db')"
  shows "sql_handle None env e db = (None, db')"
  using assms by (simp add: sql_handle_accepted within_tx_def IsZero_def)

lemma recovery_succeeds:
  assumes "alert_inv db" "\<not> IsZero (env_Now env)" "recovery_event e = Some fp"
  shows "fst (handle_alert env eid e db) = None"
proof -
  have "fst (resolve_open env fp reason msg ref (ResetFailureStreak fp' db)) = None" for fp reason msg ref fp'
    using resolve_open_succeeds [OF streak_steps(2) [OF assms(1)] assms(2)] .
  moreover have "fst (handleNode env eid node False db) = None" for node
    using resolve_succeeds [OF assms(1) _ _ assms(2)] find_openD by (auto simp: handleNode_eq split: option.split)
  ultimately show ?thesis
    using assms(3) resolve_open_succeeds [OF assms(1,2)]
    by (cases e) (auto simp: handleSucceeded_def handleGitPullSucceeded_def handleGitRepositoryChanged_def
        handleServiceDriftFixed_def handleServiceRemovedFromDesired_def Let_def split: if_splits)
qed

text \<open>
  C20. A failure of a desired stack is always recorded: the streak grows by one and no other stack is
  touched; an open incident counts one more occurrence and keeps its identity; otherwise an incident
  opens, announced once and with the whole streak as its occurrences, unless the failure is temporary
  and it is the first or second in a row.
\<close>

theorem failures_open_incidents:
  assumes "alerts_reachable db" "fresh_ids env db" "accepted e db" "ae_ID e \<noteq> ''''" "ae_OccurredAt e \<noteq> 0" "env_Now env \<noteq> 0"
    and "failure_event (ae_Event e) = Some (stack, temporary)" "stack \<noteq> ''''" "\<not> stackRemoved env stack"
  shows "\<exists>db'. sql_handle None env e db = (None, db') \<and>
    failure_outcome (SyncFailedFingerprint stack) temporary db db'"
proof -
  have inv: "alert_inv (advanced e db)" "fresh_ids env (advanced e db)"
    using alerts.inv_reachable [OF assms(1)] assms(2) by simp_all
  obtain title details where h: "handle_alert env (ae_ID e) (ae_Event e) (advanced e db) =
      handleFailed env (ae_ID e) stack title details temporary (advanced e db)"
    using failure_handled [OF assms(7)] by blast
  obtain db' where run: "handleFailed env (ae_ID e) stack title details temporary (advanced e db) = (None, db')"
    using handleFailed_succeeds [OF inv assms(8)] assms(6) by (metis IsZero_def prod.collapse)
  then have "failure_outcome (SyncFailedFingerprint stack) temporary (advanced e db) db'"
    using handleFailed_effect [OF inv assms(9)] by blast
  then have "failure_outcome (SyncFailedFingerprint stack) temporary db db'" by simp
  then show ?thesis using sql_handle_succeeds [OF assms(3-5)] h run by metis
qed

text \<open>
  C30. Recoveries close incidents and nothing else: a success, a reconnection, a fixed drift or a removed
  service or repository closes the incident of its resource, if there is one, announces that once and
  ends the streak; a changed configuration closes exactly the incidents of stacks that are no longer
  desired, and fails without any effect while the configuration is not loaded.
\<close>

theorem recoveries_close_incidents:
  assumes "alerts_reachable db" "fresh_ids env db" "accepted e db" "ae_ID e \<noteq> ''''" "ae_OccurredAt e \<noteq> 0" "env_Now env \<noteq> 0"
  shows "(\<forall>fp. recovery_event (ae_Event e) = Some fp \<longrightarrow>
      (\<exists>db'. sql_handle None env e db = (None, db') \<and> closed_incident fp db db' \<and>
         ad_streaks db' = (if ends_streak (ae_Event e) then fmdrop fp (ad_streaks db) else ad_streaks db))) \<and>
    (ae_Event e = ConfigurationChanged '''' \<longrightarrow>
       (if env_Ready env = Some False then sql_handle None env e db = (Some ConfigurationNotReady, db)
        else \<exists>db'. sql_handle None env e db = (None, db') \<and>
          (\<forall>fp. incidents db' fp = (case incidents db fp of
             None \<Rightarrow> None | Some a \<Rightarrow> if of_removed_stack (env_Stacks env) a then None else Some a))))"
proof (intro conjI allI impI)
  have inv: "alert_inv (advanced e db)" using alerts.inv_reachable [OF assms(1)] by simp
  have now: "\<not> IsZero (env_Now env)" using assms(6) by (simp add: IsZero_def)
  note go = sql_handle_succeeds [OF assms(3-5)]
  {
    fix fp assume rec: "recovery_event (ae_Event e) = Some fp"
    have "fst (handle_alert env (ae_ID e) (ae_Event e) (advanced e db)) = None"
      by (rule recovery_succeeds [OF inv now rec])
    then obtain db' where run: "handle_alert env (ae_ID e) (ae_Event e) (advanced e db) = (None, db')" by (metis prod.collapse)
    then show "\<exists>db'. sql_handle None env e db = (None, db') \<and> closed_incident fp db db' \<and>
         ad_streaks db' = (if ends_streak (ae_Event e) then fmdrop fp (ad_streaks db) else ad_streaks db)"
      using recovery_handled [OF inv rec run] go by simp
  next
    assume ev: "ae_Event e = ConfigurationChanged ''''"
    let ?db = "ResetFailureStreaksExcept (map SyncFailedFingerprint (env_Stacks env)) (advanced e db)"
    have inv': "alert_inv ?db" using streak_steps(3) [OF inv] .
    have as: "set (list_alerts open_filter ?db) \<subseteq> set (ad_alerts ?db)" "\<forall>a \<in> set (list_alerts open_filter ?db). is_open a"
      "distinct (list_alerts open_filter ?db)" using distinct_list_open [OF inv'] by (auto simp: list_open)
    obtain db' where run: "resolve_removed env (ae_ID e) 0 (list_alerts open_filter ?db) ?db = (None, db')"
      using resolve_removed_succeeds [OF inv' as now] by (metis prod.collapse)
    have "incidents ?db = incidents db" by (simp add: incidents_def fun_eq_iff)
    then have "incidents db' fp = (case incidents db fp of
         None \<Rightarrow> None | Some a \<Rightarrow> if of_removed_stack (env_Stacks env) a then None else Some a)" for fp
      using resolve_removed_effect [OF inv' as run, of fp] find_openD [of fp db]
      by (auto simp: list_open incidents_def split: option.splits)
    then show "if env_Ready env = Some False then sql_handle None env e db = (Some ConfigurationNotReady, db)
        else \<exists>db'. sql_handle None env e db = (None, db') \<and>
          (\<forall>fp. incidents db' fp = (case incidents db fp of
             None \<Rightarrow> None | Some a \<Rightarrow> if of_removed_stack (env_Stacks env) a then None else Some a))"
      using go [of env db'] run ev assms(3-5)
      by (auto simp: handleConfigurationChanged_def Let_def sql_handle_accepted within_tx_def IsZero_def)
  }
qed

section \<open>A concrete history\<close>

text \<open>Three temporary failures of a stack open an incident, a success closes it.\<close>

definition sample_alert_env :: "string \<Rightarrow> alert_env" where
  "sample_alert_env tag =
     \<lparr>env_Now = 50, env_NewID = (\<lambda>n. if n = 0 then tag @ ''0'' else tag @ ''1''), env_Recipients = (\<lambda>k. []),
      env_Ready = Some True, env_Stacks = [''app''], env_SafeText = (\<lambda>s. s)\<rparr>"

definition sample_alert_failure :: "string \<Rightarrow> gotime \<Rightarrow> alert_envelope" where
  "sample_alert_failure eid at =
     \<lparr>ae_ID = eid, ae_OccurredAt = at,
      ae_Event = DeployPreparationFailed ''app'' ''c1'' ''registry'' ''prepare''
        (Some \<lparr>serr_Text = ''timeout'', serr_Temporary = True\<rparr>)\<rparr>"

definition sample_alert_success :: alert_envelope where
  "sample_alert_success = \<lparr>ae_ID = ''e4'', ae_OccurredAt = 40, ae_Event = DeploySuccess ''app''\<rparr>"

definition alerts_1 :: alert_db where
  "alerts_1 = snd (sql_handle None (sample_alert_env ''a'') (sample_alert_failure ''e1'' 10) empty_alerts)"

definition alerts_2 :: alert_db where
  "alerts_2 = snd (sql_handle None (sample_alert_env ''b'') (sample_alert_failure ''e2'' 20) alerts_1)"

definition alerts_3 :: alert_db where
  "alerts_3 = snd (sql_handle None (sample_alert_env ''c'') (sample_alert_failure ''e3'' 30) alerts_2)"

lemma fresh_sample: "opened_ids (ad_published db) = ids \<Longrightarrow> tag @ ''0'' \<notin> set ids \<Longrightarrow> tag @ ''1'' \<notin> set ids \<Longrightarrow>
    fresh_ids (sample_alert_env tag) db"
  by (simp add: fresh_ids_def sample_alert_env_def)

lemma sample_alerts:
  "fresh_ids (sample_alert_env ''a'') empty_alerts" "fresh_ids (sample_alert_env ''b'') alerts_1"
  "fresh_ids (sample_alert_env ''c'') alerts_2" "fresh_ids (sample_alert_env ''d'') alerts_3"
proof -
  show "fresh_ids (sample_alert_env ''a'') empty_alerts" by (rule fresh_sample [where ids = "[]"]) (simp_all add: empty_alerts_def)
  have "opened_ids (ad_published alerts_1) = []" by code_simp
  then show "fresh_ids (sample_alert_env ''b'') alerts_1" by (rule fresh_sample) simp_all
  have "opened_ids (ad_published alerts_2) = []" by code_simp
  then show "fresh_ids (sample_alert_env ''c'') alerts_2" by (rule fresh_sample) simp_all
  have "opened_ids (ad_published alerts_3) = [''c1'']" by code_simp
  then show "fresh_ids (sample_alert_env ''d'') alerts_3" by (rule fresh_sample) simp_all
qed

lemma sample_step: "fresh_ids env db \<Longrightarrow> alert_step db (snd (sql_handle fault env e db))"
  by (metis alert_handled prod.collapse)

lemma sample_alerts_reachable: "alerts_reachable alerts_1" "alerts_reachable alerts_2" "alerts_reachable alerts_3"
proof -
  have 0: "alerts_reachable empty_alerts" by (rule reachable_init) simp
  show 1: "alerts_reachable alerts_1" unfolding alerts_1_def by (rule reachable_step [OF 0 sample_step [OF sample_alerts(1)]])
  show 2: "alerts_reachable alerts_2" unfolding alerts_2_def by (rule reachable_step [OF 1 sample_step [OF sample_alerts(2)]])
  show "alerts_reachable alerts_3" unfolding alerts_3_def by (rule reachable_step [OF 2 sample_step [OF sample_alerts(3)]])
qed

theorem alerts_consistent_witness:
  "{al_ID a | a. a \<in> set (ad_alerts alerts_3) \<and> is_open a} = {''c1''}"
proof -
  have "opened_ids (ad_published alerts_3) = [''c1'']" "resolved_ids (ad_published alerts_3) = []" by code_simp+
  then show ?thesis using alerts_consistent [OF sample_alerts_reachable(3)] by simp
qed

theorem delayed_events_ignored_witness:
  "alerts_3 \<noteq> alerts_2 \<and> sql_handle None (sample_alert_env ''c'') (sample_alert_failure ''e3'' 30) alerts_3 = (None, alerts_3)"
proof -
  have ok: "fst (sql_handle None (sample_alert_env ''c'') (sample_alert_failure ''e3'' 30) alerts_2) = None" by code_simp
  have "sql_handle None (sample_alert_env ''c'') (sample_alert_failure ''e3'' 30) alerts_2 = (None, alerts_3)"
    using ok unfolding alerts_3_def by (metis prod.collapse)
  note same = delayed_events_ignored [OF sample_alerts_reachable(2) sample_alerts(3) this rtranclp.rtrancl_refl refl order_refl]
  have "ad_published alerts_3 \<noteq> ad_published alerts_2" by code_simp
  moreover have "sql_handle None (sample_alert_env ''c'') (sample_alert_failure ''e3'' 30) alerts_3 = (None, alerts_3)"
    using same by (simp add: sample_alert_failure_def)
  ultimately show ?thesis by auto
qed

theorem failures_open_incidents_witness:
  "streak alerts_3 (SyncFailedFingerprint ''app'') = 3 \<and> incidents alerts_2 (SyncFailedFingerprint ''app'') = None \<and>
   (\<exists>a. incidents alerts_3 (SyncFailedFingerprint ''app'') = Some a \<and> al_Occurrences a = 3)"
proof -
  have s2: "streak alerts_2 (SyncFailedFingerprint ''app'') = 2" "incidents alerts_2 (SyncFailedFingerprint ''app'') = None" by code_simp+
  have "accepted (sample_alert_failure ''e3'' 30) alerts_2" by code_simp
  then obtain db' where run: "sql_handle None (sample_alert_env ''c'') (sample_alert_failure ''e3'' 30) alerts_2 = (None, db')"
    and out: "failure_outcome (SyncFailedFingerprint ''app'') True alerts_2 db'"
    using failures_open_incidents [OF sample_alerts_reachable(2) sample_alerts(3), of "sample_alert_failure ''e3'' 30" "''app''" True]
    by (auto simp: sample_alert_failure_def sample_alert_env_def isTemporary_def stackRemoved_def)
  have "db' = alerts_3" using run by (simp add: alerts_3_def)
  then show ?thesis using out s2 by (auto simp: failure_outcome_def)
qed

theorem recoveries_close_incidents_witness:
  "incidents (snd (sql_handle None (sample_alert_env ''d'') sample_alert_success alerts_3)) (SyncFailedFingerprint ''app'') = None \<and>
   fst (sql_handle None (sample_alert_env ''d'') sample_alert_success alerts_3) = None"
proof -
  have "accepted sample_alert_success alerts_3" by code_simp
  then obtain db' where "sql_handle None (sample_alert_env ''d'') sample_alert_success alerts_3 = (None, db')"
    and "closed_incident (SyncFailedFingerprint ''app'') alerts_3 db'"
    using recoveries_close_incidents [OF sample_alerts_reachable(3) sample_alerts(4), of sample_alert_success]
    by (auto simp: sample_alert_success_def sample_alert_env_def)
  then show ?thesis by (simp add: closed_incident_def)
qed

end
