(* ===== verification/SwarmSpec.thy ===== *)
theory SwarmSpec
  imports Drift DeploymentStore
begin

text \<open>
  Docker specifications, tasks and services as far as deployments verify them, the comparison of task
  templates (\<open>internal/swarm/task_spec.go\<close>) and the classification of a service update
  (\<open>internal/modules/deployments/deployer/services/verification.go\<close>).

  The types of the Docker API are records of the fields that these decisions read; the remaining fields
  of a structure are one value (\<open>...Other\<close>) that is compared as a whole. A nil and an empty collection are
  not distinguished. What rests on JSON canonicalization, image references and SwarmKit's placement
  constraints is a parameter: \<open>spec_ops\<close>.
\<close>

section \<open>Docker types\<close>

record restart_policy =
  rp_Condition :: string
  rp_Delay :: "duration option"
  rp_MaxAttempts :: "64 word option"
  rp_Window :: "duration option"

record placement =
  plc_Constraints :: "string list"
  plc_Platforms :: "string list"
  plc_Other :: string

record container_spec =
  con_Image :: string
  con_Env :: "string list"
  con_CapabilityAdd :: "string list"
  con_CapabilityDrop :: "string list"
  con_Isolation :: string
  con_StopGracePeriod :: "duration option"
  con_DNSConfig :: "string option"
  con_Other :: string

record network_attachment =
  na_Target :: string
  na_Aliases :: "string list"
  na_Other :: string

record task_template =
  tt_Runtime :: string
  tt_ContainerSpec :: "container_spec option"
  tt_PluginSpec :: "string option"
  tt_Resources :: "string option"
  tt_RestartPolicy :: "restart_policy option"
  tt_Placement :: "placement option"
  tt_Networks :: "network_attachment list"
  tt_ForceUpdate :: "64 word"
  tt_Other :: string

record replicated_job =
  rj_MaxConcurrent :: "64 word option"
  rj_TotalCompletions :: "64 word option"

record service_mode =
  sm_Replicated :: "64 word option option"
  sm_Global :: bool
  sm_ReplicatedJob :: "replicated_job option"
  sm_GlobalJob :: bool

record port_config =
  port_Protocol :: string
  port_PublishMode :: string
  port_Other :: string

record endpoint_spec =
  ep_Mode :: string
  ep_Ports :: "port_config list"

record update_config =
  uc_Parallelism :: "64 word"
  uc_FailureAction :: string
  uc_Monitor :: duration
  uc_Order :: string
  uc_Other :: string

record service_spec =
  sp_Name :: string
  sp_Labels :: labels
  sp_Mode :: service_mode
  sp_TaskTemplate :: task_template
  sp_EndpointSpec :: "endpoint_spec option"
  sp_UpdateConfig :: "update_config option"
  sp_RollbackConfig :: "update_config option"
  sp_Other :: string

record swarm_node =
  node_ID :: string
  node_Status :: string
  node_Availability :: string
  node_Other :: string

datatype task_state =
    TaskStateNew | TaskStateAllocated | TaskStatePending | TaskStateAssigned | TaskStateAccepted
  | TaskStatePreparing | TaskStateReady | TaskStateStarting | TaskStateRunning | TaskStateComplete
  | TaskStateShutdown | TaskStateFailed | TaskStateRejected | TaskStateRemove | TaskStateOrphaned
  | TaskStateOther string

text \<open>The specification of a task is kept with the defaults filled in (\<open>NewTaskSpec\<close>).\<close>

record service_task =
  st_ID :: string
  st_Node :: string
  st_NodeInfo :: "swarm_node option"
  st_Slot :: int
  st_JobIteration :: "nat option"
  st_DesiredState :: task_state
  st_CreatedAt :: gotime
  st_UpdatedAt :: gotime
  st_CurrentState :: task_state
  st_ExitCode :: "int option"
  st_Error :: string
  st_Spec :: task_template

record update_status =
  us_State :: string
  us_StartedAt :: gotime
  us_CompletedAt :: gotime
  us_Message :: string

record stack_service =
  srv_ID :: string
  srv_Name :: string
  srv_Mode :: string
  srv_Replicas :: "64 word option"
  srv_DesiredTasks :: "64 word"
  srv_CompletedTasks :: "64 word"
  srv_JobIteration :: "nat option"
  srv_CreatedAt :: gotime
  srv_UpdatedAt :: gotime
  srv_UpdateStatus :: "update_status option"
  srv_ServiceSpec :: service_spec
  srv_PreviousSpec :: "service_spec option"

text \<open>
  The parameters: parsing and printing of image references (\<open>None\<close> if it does not parse), the digest of a
  specification, SwarmKit's constraints (\<open>None\<close> if they do not parse), and the words of a message of Docker,
  which are separated by Unicode's letters and digits.
\<close>

record named_ref =
  ref_Name :: string
  ref_Tag :: "string option"
  ref_Digest :: "string option"

record spec_ops =
  op_ParseNamed :: "string \<Rightarrow> named_ref option"
  op_RefString :: "named_ref \<Rightarrow> string"
  op_SpecDigest :: "service_spec \<Rightarrow> string"
  op_ParseConstraints :: "string list \<Rightarrow> (swarm_node \<Rightarrow> bool) option"
  op_Words :: "string \<Rightarrow> string list"

section \<open>Comparing task templates\<close>

definition normalize_container :: "container_spec \<Rightarrow> container_spec" where
  "normalize_container c =
     c\<lparr>con_Isolation := (if con_Isolation c = '''' then ''default'' else con_Isolation c),
       con_StopGracePeriod := (case con_StopGracePeriod c of None \<Rightarrow> Some (10 * second) | Some d \<Rightarrow> Some d),
       con_DNSConfig := (case con_DNSConfig c of None \<Rightarrow> Some '''' | Some d \<Rightarrow> Some d)\<rparr>"

definition normalize_restart :: "restart_policy option \<Rightarrow> restart_policy" where
  "normalize_restart p =
     (let r = (case p of None \<Rightarrow> \<lparr>rp_Condition = '''', rp_Delay = None, rp_MaxAttempts = None, rp_Window = None\<rparr> | Some r \<Rightarrow> r)
      in r\<lparr>rp_Condition := (if rp_Condition r = '''' then ''any'' else rp_Condition r),
           rp_Delay := (case rp_Delay r of None \<Rightarrow> Some (5 * second) | Some d \<Rightarrow> Some d),
           rp_MaxAttempts := (case rp_MaxAttempts r of None \<Rightarrow> Some 0 | Some n \<Rightarrow> Some n)\<rparr>)"

definition normalizeTaskSpec :: "task_template \<Rightarrow> task_template" where
  "normalizeTaskSpec t =
     t\<lparr>tt_Runtime :=
         (if tt_Runtime t \<noteq> '''' then tt_Runtime t
          else if tt_ContainerSpec t \<noteq> None \<and> tt_PluginSpec t = None then ''container''
          else if tt_PluginSpec t \<noteq> None \<and> tt_ContainerSpec t = None then ''plugin''
          else ''''),
       tt_ContainerSpec := map_option normalize_container (tt_ContainerSpec t),
       tt_Resources := (case tt_Resources t of None \<Rightarrow> Some '''' | Some r \<Rightarrow> Some r),
       tt_RestartPolicy := Some (normalize_restart (tt_RestartPolicy t)),
       tt_Placement := (case tt_Placement t of
           None \<Rightarrow> Some \<lparr>plc_Constraints = [], plc_Platforms = [], plc_Other = ''''\<rparr> | Some p \<Rightarrow> Some p)\<rparr>"

datatype task_comparison = TemplatesEqual | PlacementOnly | TemplatesDiffer

text \<open>
  The paths of the differing fields are all below the placement exactly if nothing else differs.
\<close>

definition CompareServiceTemplate :: "task_template \<Rightarrow> task_template \<Rightarrow> task_comparison" where
  "CompareServiceTemplate value template =
     (let t = normalizeTaskSpec template
      in if value = t then TemplatesEqual
         else if value\<lparr>tt_Placement := None\<rparr> = t\<lparr>tt_Placement := None\<rparr> then PlacementOnly
         else TemplatesDiffer)"

lemma CompareServiceTemplate_self: "CompareServiceTemplate (normalizeTaskSpec t) t = TemplatesEqual"
  by (simp add: CompareServiceTemplate_def)

lemma normalizeTaskSpec_twice: "normalizeTaskSpec (normalizeTaskSpec t) = normalizeTaskSpec t"
  by (cases "tt_ContainerSpec t")
    (auto simp: normalizeTaskSpec_def normalize_container_def normalize_restart_def Let_def split: option.split)

section \<open>Endpoints\<close>

definition normalize_port :: "port_config \<Rightarrow> port_config" where
  "normalize_port p =
     p\<lparr>port_Protocol := (if port_Protocol p = '''' then ''tcp'' else port_Protocol p),
       port_PublishMode := (if port_PublishMode p = '''' then ''ingress'' else port_PublishMode p)\<rparr>"

definition normalizeEndpoint :: "endpoint_spec option \<Rightarrow> endpoint_spec" where
  "normalizeEndpoint e =
     (case e of
        None \<Rightarrow> \<lparr>ep_Mode = ''vip'', ep_Ports = []\<rparr>
      | Some e \<Rightarrow> \<lparr>ep_Mode = (if ep_Mode e \<noteq> '''' then ep_Mode e else ''vip''), ep_Ports = map normalize_port (ep_Ports e)\<rparr>)"

section \<open>Equality of service specifications\<close>

text \<open>
  \<open>internal/modules/deployments/deployer/services/comparison.go\<close> and \<open>defaults.go\<close>. Two specifications are
  compared by their JSON without empty collections: an empty record equals a missing one. Numbers are
  compared exactly, where Go compares floats above \<open>2 ^ 53\<close>.
\<close>

definition ReplicasManaged :: "service_spec \<Rightarrow> policy_error + bool" where
  "ReplicasManaged spec =
     (case replicasManagedPolicy \<lparr>cmp_Name = '''', cmp_Image = '''', cmp_Labels = sp_Labels spec, cmp_Mode = '''', cmp_Replicas = None\<rparr> of
        Inl e \<Rightarrow> Inl e
      | Inr (managed, specified) \<Rightarrow>
          if specified \<and> \<not> managed \<and>
             (sm_Replicated (sp_Mode spec) = None \<or> sm_Global (sp_Mode spec) \<or>
              sm_ReplicatedJob (sp_Mode spec) \<noteq> None \<or> sm_GlobalJob (sp_Mode spec))
          then Inl ReplicatedOnly else Inr (\<not> specified \<or> managed))"

definition set_replicas :: "64 word option option \<Rightarrow> service_spec \<Rightarrow> service_spec" where
  "set_replicas r spec = spec\<lparr>sp_Mode := (sp_Mode spec)\<lparr>sm_Replicated := r\<rparr>\<rparr>"

definition preserveReplicas :: "service_spec \<Rightarrow> service_spec \<Rightarrow> service_spec" where
  "preserveReplicas cur desired =
     (if sm_Replicated (sp_Mode cur) \<noteq> None \<and> sm_Replicated (sp_Mode desired) \<noteq> None
      then set_replicas (sm_Replicated (sp_Mode cur)) desired else desired)"

definition set_template :: "task_template \<Rightarrow> service_spec \<Rightarrow> service_spec" where
  "set_template t spec = spec\<lparr>sp_TaskTemplate := t\<rparr>"

definition set_force_update :: "64 word \<Rightarrow> service_spec \<Rightarrow> service_spec" where
  "set_force_update n spec = set_template ((sp_TaskTemplate spec)\<lparr>tt_ForceUpdate := n\<rparr>) spec"

definition stackImageLabel :: string where
  "stackImageLabel = ''com.docker.stack.image''"

definition TagNameOnly :: "named_ref \<Rightarrow> named_ref" where
  "TagNameOnly r = (if ref_Tag r = None \<and> ref_Digest r = None then r\<lparr>ref_Tag := Some ''latest''\<rparr> else r)"

definition resolvedImageMatches :: "spec_ops \<Rightarrow> string \<Rightarrow> string \<Rightarrow> bool" where
  "resolvedImageMatches ops actual wanted \<longleftrightarrow>
     (case (op_ParseNamed ops actual, op_ParseNamed ops wanted) of
        (Some c, Some d) \<Rightarrow>
          if ref_Name c \<noteq> ref_Name d then False
          else if ref_Digest d \<noteq> None then ref_Digest c = ref_Digest d
          else if ref_Digest c = None then False
          else ref_Tag (TagNameOnly d) \<noteq> None \<and> ref_Tag (TagNameOnly c) = ref_Tag (TagNameOnly d)
      | _ \<Rightarrow> False)"

definition with_platforms :: "string list \<Rightarrow> placement option \<Rightarrow> placement" where
  "with_platforms ps p =
     (case p of None \<Rightarrow> \<lparr>plc_Constraints = [], plc_Platforms = ps, plc_Other = ''''\<rparr> | Some p \<Rightarrow> p\<lparr>plc_Platforms := ps\<rparr>)"

definition platforms :: "task_template \<Rightarrow> string list" where
  "platforms t = (case tt_Placement t of None \<Rightarrow> [] | Some p \<Rightarrow> plc_Platforms p)"

definition resolved_image :: "spec_ops \<Rightarrow> service_spec \<Rightarrow> service_spec \<Rightarrow> bool" where
  "resolved_image ops cur desired \<longleftrightarrow>
     (case (tt_ContainerSpec (sp_TaskTemplate cur), tt_ContainerSpec (sp_TaskTemplate desired)) of
        (Some c, Some d) \<Rightarrow>
          map_str (sp_Labels cur) stackImageLabel \<noteq> '''' \<and>
          map_str (sp_Labels cur) stackImageLabel = map_str (sp_Labels desired) stackImageLabel \<and>
          resolvedImageMatches ops (con_Image c) (con_Image d)
      | _ \<Rightarrow> False)"

definition copy_image :: "task_template \<Rightarrow> task_template \<Rightarrow> task_template" where
  "copy_image cur desired =
     desired\<lparr>tt_ContainerSpec :=
         (case (tt_ContainerSpec cur, tt_ContainerSpec desired) of
            (Some c, Some d) \<Rightarrow> Some (d\<lparr>con_Image := con_Image c\<rparr>) | _ \<Rightarrow> tt_ContainerSpec desired),
       tt_Placement := (if platforms cur = [] then tt_Placement desired else Some (with_platforms (platforms cur) (tt_Placement desired)))\<rparr>"

definition normalizeImageResolution :: "spec_ops \<Rightarrow> service_spec \<Rightarrow> service_spec \<Rightarrow> service_spec \<times> bool" where
  "normalizeImageResolution ops cur desired =
     (if resolved_image ops cur desired
      then (set_template (copy_image (sp_TaskTemplate cur) (sp_TaskTemplate desired)) desired, True) else (desired, False))"

definition unresolved_image :: "spec_ops \<Rightarrow> container_spec \<Rightarrow> container_spec" where
  "unresolved_image ops c =
     (case op_ParseNamed ops (con_Image c) of
        None \<Rightarrow> c
      | Some r \<Rightarrow> if ref_Digest r = None then c\<lparr>con_Image := op_RefString ops (TagNameOnly r)\<rparr> else c)"

definition normalizeUnresolvedImageReference :: "spec_ops \<Rightarrow> service_spec \<Rightarrow> service_spec" where
  "normalizeUnresolvedImageReference ops spec =
     set_template ((sp_TaskTemplate spec)\<lparr>tt_ContainerSpec := map_option (unresolved_image ops) (tt_ContainerSpec (sp_TaskTemplate spec))\<rparr>) spec"

definition normalizeUpdateConfig :: "update_config option \<Rightarrow> update_config" where
  "normalizeUpdateConfig c =
     (let u = (case c of
          None \<Rightarrow> \<lparr>uc_Parallelism = 1, uc_FailureAction = '''', uc_Monitor = 0, uc_Order = '''', uc_Other = ''''\<rparr> | Some u \<Rightarrow> u)
      in u\<lparr>uc_FailureAction := (if uc_FailureAction u = '''' then ''pause'' else uc_FailureAction u),
           uc_Monitor := (if uc_Monitor u = 0 then 5 * second else uc_Monitor u),
           uc_Order := (if uc_Order u = '''' then ''stop-first'' else uc_Order u)\<rparr>)"

definition default_mode :: "service_mode \<Rightarrow> service_mode" where
  "default_mode m =
     m\<lparr>sm_ReplicatedJob := map_option (\<lambda>j.
          let c = (case rj_MaxConcurrent j of None \<Rightarrow> 1 | Some n \<Rightarrow> n)
          in j\<lparr>rj_MaxConcurrent := Some c,
               rj_TotalCompletions := (case rj_TotalCompletions j of None \<Rightarrow> Some c | Some n \<Rightarrow> Some n)\<rparr>) (sm_ReplicatedJob m),
       sm_Replicated := map_option (\<lambda>r. case r of None \<Rightarrow> Some 1 | Some n \<Rightarrow> Some n) (sm_Replicated m)\<rparr>"

definition default_container :: "container_spec \<Rightarrow> container_spec" where
  "default_container c =
     c\<lparr>con_Isolation := (if con_Isolation c = '''' then ''default'' else con_Isolation c),
       con_StopGracePeriod := (case con_StopGracePeriod c of None \<Rightarrow> Some (10 * second) | Some d \<Rightarrow> Some d)\<rparr>"

definition normalizeDockerDefaults :: "service_spec \<Rightarrow> service_spec" where
  "normalizeDockerDefaults spec =
     (let t = sp_TaskTemplate spec
      in spec\<lparr>sp_Mode := default_mode (sp_Mode spec),
              sp_EndpointSpec := Some (normalizeEndpoint (sp_EndpointSpec spec)),
              sp_TaskTemplate := t\<lparr>
                tt_Runtime := (if tt_ContainerSpec t \<noteq> None \<and> tt_Runtime t = '''' then ''container'' else tt_Runtime t),
                tt_ContainerSpec := map_option default_container (tt_ContainerSpec t),
                tt_RestartPolicy := Some (normalize_restart (tt_RestartPolicy t))\<rparr>,
              sp_UpdateConfig := Some (normalizeUpdateConfig (sp_UpdateConfig spec)),
              sp_RollbackConfig := Some (normalizeUpdateConfig (sp_RollbackConfig spec))\<rparr>)"

definition env_name :: "string \<Rightarrow> string" where
  "env_name v = takeWhile (\<lambda>c. c \<noteq> CHR ''='') v"

definition uniqueEnvironmentNames :: "string list \<Rightarrow> bool" where
  "uniqueEnvironmentNames env \<longleftrightarrow> distinct (map env_name env)"

definition sort_container :: "container_spec \<Rightarrow> container_spec" where
  "sort_container c =
     c\<lparr>con_CapabilityAdd := sort (con_CapabilityAdd c), con_CapabilityDrop := sort (con_CapabilityDrop c),
       con_Env := (if uniqueEnvironmentNames (con_Env c) then sort (con_Env c) else con_Env c)\<rparr>"

definition normalizeServiceSets :: "service_spec \<Rightarrow> service_spec" where
  "normalizeServiceSets spec =
     (let t = sp_TaskTemplate spec
      in set_template (t\<lparr>
           tt_Placement := map_option (\<lambda>p. p\<lparr>plc_Constraints := sort (plc_Constraints p)\<rparr>) (tt_Placement t),
           tt_Networks := sort_key na_Target (map (\<lambda>n. n\<lparr>na_Aliases := sort (na_Aliases n)\<rparr>) (tt_Networks t)),
           tt_ContainerSpec := map_option sort_container (tt_ContainerSpec t)\<rparr>) spec)"

text \<open>
  The canonical form: what is empty is dropped. \<open>Global\<close> and \<open>GlobalJob\<close> are pointers to empty structures,
  so both are dropped from the mode.
\<close>

definition drop_empty :: "string option \<Rightarrow> string option" where
  "drop_empty x = (if x = Some '''' then None else x)"

definition drop_placement :: "placement option \<Rightarrow> placement option" where
  "drop_placement p = (if p = Some \<lparr>plc_Constraints = [], plc_Platforms = [], plc_Other = ''''\<rparr> then None else p)"

definition canonicalSpec :: "service_spec \<Rightarrow> service_spec" where
  "canonicalSpec spec =
     (let t = sp_TaskTemplate spec
      in spec\<lparr>sp_Mode := (sp_Mode spec)\<lparr>sm_Global := False, sm_GlobalJob := False\<rparr>,
              sp_TaskTemplate := t\<lparr>
                tt_ContainerSpec := map_option (\<lambda>c. c\<lparr>con_DNSConfig := drop_empty (con_DNSConfig c)\<rparr>) (tt_ContainerSpec t),
                tt_PluginSpec := drop_empty (tt_PluginSpec t), tt_Resources := drop_empty (tt_Resources t),
                tt_Placement := drop_placement (tt_Placement t)\<rparr>\<rparr>)"

definition comparable :: "spec_ops \<Rightarrow> service_spec \<Rightarrow> service_spec" where
  "comparable ops spec =
     canonicalSpec (normalizeServiceSets (normalizeDockerDefaults (normalizeUnresolvedImageReference ops spec)))"

definition SpecsEqual :: "spec_ops \<Rightarrow> service_spec \<Rightarrow> service_spec \<Rightarrow> bool" where
  "SpecsEqual ops cur desired \<longleftrightarrow>
     (case ReplicasManaged desired of
        Inl _ \<Rightarrow> False
      | Inr managed \<Rightarrow>
          let d = (if managed then desired else preserveReplicas cur desired);
              d = set_force_update (tt_ForceUpdate (sp_TaskTemplate cur)) d;
              d = fst (normalizeImageResolution ops cur d)
          in comparable ops cur = comparable ops d)"

section \<open>Classification of an update\<close>

definition ClassifyVerification :: "service_spec \<Rightarrow> service_spec \<Rightarrow> verification_mode" where
  "ClassifyVerification before after =
     (case CompareServiceTemplate (normalizeTaskSpec (sp_TaskTemplate before)) (sp_TaskTemplate after) of
        PlacementOnly \<Rightarrow> VerifyPlacementCompatibleTasks
      | TemplatesDiffer \<Rightarrow> VerifyNewGeneration
      | TemplatesEqual \<Rightarrow>
          if normalizeEndpoint (sp_EndpointSpec before) \<noteq> normalizeEndpoint (sp_EndpointSpec after)
          then VerifyNewGeneration else VerifyExistingTasks)"

text \<open>The modes are ordered by how much they demand.\<close>

fun mode_rank :: "verification_mode \<Rightarrow> nat" where
  "mode_rank VerifyUnspecified = 0"
| "mode_rank VerifyExistingTasks = 1"
| "mode_rank VerifyPlacementCompatibleTasks = 2"
| "mode_rank VerifyNewGeneration = 3"

definition verificationSpecDigest :: "spec_ops \<Rightarrow> service_spec \<Rightarrow> string" where
  "verificationSpecDigest ops spec = op_SpecDigest ops (canonicalSpec (normalizeServiceSets (normalizeDockerDefaults spec)))"

definition ResolveUpdateGeneration ::
    "spec_ops \<Rightarrow> update_generation \<Rightarrow> service_spec option \<Rightarrow> service_spec \<Rightarrow> update_generation" where
  "ResolveUpdateGeneration ops g previous cur =
     (if gen_BeforeSpecDigest g = '''' then g
      else case previous of
             None \<Rightarrow> g\<lparr>gen_Mode := VerifyNewGeneration, gen_TasksAfter := 0\<rparr>
           | Some p \<Rightarrow>
               if gen_BeforeSpecDigest g \<noteq> verificationSpecDigest ops p
               then g\<lparr>gen_Mode := VerifyNewGeneration, gen_TasksAfter := 0\<rparr>
               else
                 let mode = ClassifyVerification p cur
                 in if mode = VerifyNewGeneration then g\<lparr>gen_Mode := mode, gen_TasksAfter := 0\<rparr>
                    else if IsZero (gen_TasksAfter g) \<and> gen_Mode g \<noteq> VerifyPlacementCompatibleTasks
                    then g\<lparr>gen_Mode := mode\<rparr> else g)"

text \<open>A service as Docker returns it; a missing start time of an update is the zero time.\<close>

record docker_service =
  ds_ID :: string
  ds_Version :: nat
  ds_CreatedAt :: gotime
  ds_UpdatedAt :: gotime
  ds_Spec :: service_spec
  ds_PreviousSpec :: "service_spec option"
  ds_UpdateStatus :: "update_status option"
  ds_JobIteration :: "nat option"

definition updateGeneration :: "spec_ops \<Rightarrow> service_spec \<Rightarrow> docker_service \<Rightarrow> update_generation \<Rightarrow> update_generation" where
  "updateGeneration ops spec cur previous =
     (let g = \<lparr>gen_ServiceID = ds_ID cur, gen_ForceUpdate = unat (tt_ForceUpdate (sp_TaskTemplate spec)),
               gen_After = ds_UpdatedAt cur, gen_Mode = ClassifyVerification (ds_Spec cur) spec,
               gen_BeforeSpecDigest = verificationSpecDigest ops (ds_Spec cur), gen_TasksAfter = 0\<rparr>
      in if gen_ServiceID previous \<noteq> ds_ID cur then g
         else
           let p = ResolveUpdateGeneration ops previous (ds_PreviousSpec cur) (ds_Spec cur)
           in case gen_Mode p of
                VerifyPlacementCompatibleTasks \<Rightarrow> g\<lparr>gen_Mode := VerifyPlacementCompatibleTasks\<rparr>
              | VerifyNewGeneration \<Rightarrow>
                  g\<lparr>gen_Mode := VerifyNewGeneration,
                    gen_TasksAfter :=
                      (if IsZero (gen_TasksAfter p) \<and> gen_After p < ds_UpdatedAt cur
                       then (case ds_UpdateStatus cur of
                               Some u \<Rightarrow> if gen_After p < us_StartedAt u then us_StartedAt u else ds_UpdatedAt cur
                             | None \<Rightarrow> ds_UpdatedAt cur)
                       else gen_TasksAfter p)\<rparr>
              | _ \<Rightarrow> g)"

lemma classify_rank: "1 \<le> mode_rank (ClassifyVerification a b)"
  by (auto simp: ClassifyVerification_def split: task_comparison.split)

lemma resolved_rank:
  assumes "gen_BeforeSpecDigest g = verificationSpecDigest ops p" "gen_BeforeSpecDigest g \<noteq> ''''"
    and "gen_Mode g = VerifyPlacementCompatibleTasks \<or> gen_Mode g = VerifyNewGeneration \<and> \<not> IsZero (gen_TasksAfter g)"
  shows "mode_rank (gen_Mode (ResolveUpdateGeneration ops g (Some p) cur)) \<ge> max (mode_rank (gen_Mode g)) (mode_rank (ClassifyVerification p cur))"
  using assms
  by (cases "ClassifyVerification p cur") (auto simp: ResolveUpdateGeneration_def Let_def)

text \<open>
  C18. Obligations survive later writes. \<open>previous\<close> is the receipt of an earlier write; a new write is
  recorded over it and accepted by Docker, whose previous specification is then the one it replaced. What
  has to be verified afterwards is at least what this write demands and, provided the earlier write had
  become visible (the service is newer than the receipt), at least what was still owed if that was more
  than the health of existing tasks.
\<close>

theorem obligation_not_weakened:
  assumes "verificationSpecDigest ops (ds_Spec cur) \<noteq> ''''" and "gen_ServiceID previous = ds_ID cur"
    and "gen_After previous < ds_UpdatedAt cur" "0 \<le> gen_After previous"
    and p: "p = ResolveUpdateGeneration ops previous (ds_PreviousSpec cur) (ds_Spec cur)"
    and g: "g = ResolveUpdateGeneration ops (updateGeneration ops spec cur previous) (Some (ds_Spec cur)) accepted"
  shows "mode_rank (ClassifyVerification (ds_Spec cur) accepted) \<le> mode_rank (gen_Mode g) \<and>
    (VerifyPlacementCompatibleTasks = gen_Mode p \<or> VerifyNewGeneration = gen_Mode p \<longrightarrow> mode_rank (gen_Mode p) \<le> mode_rank (gen_Mode g))"
proof (intro conjI impI)
  let ?u = "updateGeneration ops spec cur previous"
  have digest: "gen_BeforeSpecDigest ?u = verificationSpecDigest ops (ds_Spec cur)"
    by (simp add: updateGeneration_def Let_def split: verification_mode.split)
  have after: "gen_After p = gen_After previous"
    by (auto simp: p ResolveUpdateGeneration_def Let_def split: option.split)
  have bounded: "gen_Mode ?u = VerifyNewGeneration" if "\<not> IsZero (gen_TasksAfter ?u)"
    using that by (auto simp: updateGeneration_def Let_def IsZero_def split: verification_mode.splits if_splits)
  show "mode_rank (ClassifyVerification (ds_Spec cur) accepted) \<le> mode_rank (gen_Mode g)"
    using digest assms(1) bounded by (cases "ClassifyVerification (ds_Spec cur) accepted")
      (auto simp: g ResolveUpdateGeneration_def Let_def)
  assume owed: "VerifyPlacementCompatibleTasks = gen_Mode p \<or> VerifyNewGeneration = gen_Mode p"
  then have mode: "gen_Mode ?u = gen_Mode p"
    using assms(2) p by (auto simp: updateGeneration_def Let_def)
  have "gen_Mode p = VerifyNewGeneration \<Longrightarrow> \<not> IsZero (gen_TasksAfter ?u)"
    using assms(2-4) p after by (auto simp: updateGeneration_def Let_def IsZero_def split: option.split)
  then show "mode_rank (gen_Mode p) \<le> mode_rank (gen_Mode g)"
    using resolved_rank [of ?u ops "ds_Spec cur" accepted] digest assms(1) owed mode g by auto
qed

definition sample_docker_service :: docker_service where
  "sample_docker_service =
     \<lparr>ds_ID = ''s1'', ds_Version = 3, ds_CreatedAt = 1, ds_UpdatedAt = 9,
      ds_Spec = \<lparr>sp_Name = ''web'', sp_Labels = fmempty,
        sp_Mode = \<lparr>sm_Replicated = Some (Some 1), sm_Global = False, sm_ReplicatedJob = None, sm_GlobalJob = False\<rparr>,
        sp_TaskTemplate = \<lparr>tt_Runtime = '''', tt_ContainerSpec = None, tt_PluginSpec = None, tt_Resources = None,
          tt_RestartPolicy = None, tt_Placement = None, tt_Networks = [], tt_ForceUpdate = 1, tt_Other = ''nginx:2''\<rparr>,
        sp_EndpointSpec = None, sp_UpdateConfig = None, sp_RollbackConfig = None, sp_Other = ''''\<rparr>,
      ds_PreviousSpec = None,
      ds_UpdateStatus = Some \<lparr>us_State = ''completed'', us_StartedAt = 8, us_CompletedAt = 9, us_Message = ''''\<rparr>,
      ds_JobIteration = None\<rparr>"

definition sample_receipt :: update_generation where
  "sample_receipt =
     \<lparr>gen_ServiceID = ''s1'', gen_ForceUpdate = 1, gen_After = 5, gen_Mode = VerifyNewGeneration,
      gen_BeforeSpecDigest = ''nginx:1'', gen_TasksAfter = 0\<rparr>"

text \<open>A write that only changes labels does not cancel the rollout that is still owed.\<close>

theorem obligation_not_weakened_witness:
  "let ops = \<lparr>op_ParseNamed = (\<lambda>_. None), op_RefString = ref_Name, op_SpecDigest = (\<lambda>s. tt_Other (sp_TaskTemplate s)),
                op_ParseConstraints = (\<lambda>_. None), op_Words = (\<lambda>m. [m])\<rparr>;
       spec = ds_Spec sample_docker_service\<lparr>sp_Labels := fmupd ''k'' ''v'' fmempty\<rparr>;
       g = ResolveUpdateGeneration ops (updateGeneration ops spec sample_docker_service sample_receipt)
             (Some (ds_Spec sample_docker_service)) spec
   in ClassifyVerification (ds_Spec sample_docker_service) spec = VerifyExistingTasks \<and> 3 \<le> mode_rank (gen_Mode g)"
proof -
  let ?ops = "\<lparr>op_ParseNamed = (\<lambda>_. None), op_RefString = ref_Name, op_SpecDigest = (\<lambda>s. tt_Other (sp_TaskTemplate s)),
                op_ParseConstraints = (\<lambda>_. None), op_Words = (\<lambda>m. [m])\<rparr>"
  let ?spec = "ds_Spec sample_docker_service\<lparr>sp_Labels := fmupd ''k'' ''v'' fmempty\<rparr>"
  have c: "ClassifyVerification (ds_Spec sample_docker_service) ?spec = VerifyExistingTasks" by code_simp
  have o: "gen_Mode (ResolveUpdateGeneration ?ops sample_receipt (ds_PreviousSpec sample_docker_service)
      (ds_Spec sample_docker_service)) = VerifyNewGeneration" by code_simp
  have h: "verificationSpecDigest ?ops (ds_Spec sample_docker_service) \<noteq> ''''" "gen_ServiceID sample_receipt = ds_ID sample_docker_service"
      "gen_After sample_receipt < ds_UpdatedAt sample_docker_service" "0 \<le> gen_After sample_receipt"
    by (simp_all add: sample_docker_service_def sample_receipt_def verificationSpecDigest_def canonicalSpec_def
        normalizeServiceSets_def normalizeDockerDefaults_def set_template_def Let_def)
  show ?thesis using obligation_not_weakened [OF h refl refl, of ?spec ?spec] c o by simp
qed

end
