(* ===== verification/TaskFailure.thy ===== *)
theory TaskFailure
  imports SwarmSpec
begin

text \<open>
  Terminal failures of tasks (\<open>internal/modules/deployments/deployer/services/task_failure.go\<close>,
  \<open>job_failure.go\<close>): a task has failed for good when Swarm will not replace it. Counters are 64-bit
  words. A Go map of histories is a list of them: Go iterates in any order, and only which of several
  failures with the same time is reported depends on it. \<open>MaxAttempts\<close> is read only where it is set.
\<close>

section \<open>Replicated and global services\<close>

definition terminalServiceTask :: "service_task \<Rightarrow> bool" where
  "terminalServiceTask t \<longleftrightarrow>
     st_CurrentState t = TaskStateRejected \<or>
     st_CurrentState t = TaskStateFailed \<and> (st_ExitCode t = None \<or> st_ExitCode t \<noteq> Some 0)"

definition created_within :: "gotime \<Rightarrow> duration \<Rightarrow> service_task \<Rightarrow> bool" where
  "created_within lastFailure window t \<longleftrightarrow> lastFailure - window < st_CreatedAt t \<and> st_CreatedAt t < lastFailure"

definition counted_restart :: "string \<Rightarrow> gotime \<Rightarrow> restart_policy \<Rightarrow> service_task \<Rightarrow> bool" where
  "counted_restart firstID lastFailure policy t \<longleftrightarrow>
     st_ID t \<noteq> firstID \<and>
     (case rp_Window policy of None \<Rightarrow> True | Some w \<Rightarrow> 0 < w \<longrightarrow> created_within lastFailure w t)"

definition retryLimitExhausted :: "service_task list \<Rightarrow> string \<Rightarrow> gotime \<Rightarrow> restart_policy \<Rightarrow> bool" where
  "retryLimitExhausted history firstID lastFailure policy \<longleftrightarrow>
     (case rp_MaxAttempts policy of
        None \<Rightarrow> True
      | Some n \<Rightarrow> n \<le> of_nat (length (filter (counted_restart firstID lastFailure policy) history)))"

definition earlier_task :: "service_task \<Rightarrow> service_task \<Rightarrow> service_task" where
  "earlier_task t first = (if st_CreatedAt t < st_CreatedAt first then t else first)"

definition later_task :: "service_task \<Rightarrow> service_task \<Rightarrow> service_task" where
  "later_task t newest =
     (if st_CreatedAt newest < st_CreatedAt t \<or> st_CreatedAt t = st_CreatedAt newest \<and> \<not> terminalServiceTask t
      then t else newest)"

text \<open>A history is not empty.\<close>

fun terminalExhaustedTask :: "service_task list \<Rightarrow> restart_policy \<Rightarrow> service_task option" where
  "terminalExhaustedTask [] policy = None"
| "terminalExhaustedTask (h # hs) policy =
     (let first = fold earlier_task hs h; newest = fold later_task hs h
      in if \<not> terminalServiceTask newest then None
         else if rp_Condition policy \<noteq> ''none'' \<and>
                 \<not> retryLimitExhausted (h # hs) (st_ID first) (st_UpdatedAt newest) policy then None
         else Some newest)"

definition parsed_constraints :: "spec_ops \<Rightarrow> task_template \<Rightarrow> (swarm_node \<Rightarrow> bool) option" where
  "parsed_constraints ops template =
     (case tt_Placement template of
        None \<Rightarrow> Some (\<lambda>_. True) | Some p \<Rightarrow> op_ParseConstraints ops (plc_Constraints p))"

definition no_constraints :: "task_template \<Rightarrow> bool" where
  "no_constraints template \<longleftrightarrow> (case tt_Placement template of None \<Rightarrow> True | Some p \<Rightarrow> plc_Constraints p = [])"

definition keeps_node :: "(swarm_node \<Rightarrow> bool) \<Rightarrow> bool \<Rightarrow> service_task \<Rightarrow> bool" where
  "keeps_node matches unconstrained t \<longleftrightarrow>
     (case st_NodeInfo t of
        None \<Rightarrow> st_DesiredState t = TaskStateRunning \<and> unconstrained
      | Some n \<Rightarrow>
          node_Availability n \<noteq> ''drain'' \<and> node_Status n \<noteq> ''down'' \<and>
          (st_DesiredState t = TaskStateRunning \<or> node_Availability n = ''active'' \<or> node_Availability n = ''pause'') \<and>
          matches n)"

definition globalServiceTaskNodes :: "spec_ops \<Rightarrow> service_spec \<Rightarrow> service_task list \<Rightarrow> string list" where
  "globalServiceTaskNodes ops spec tasks =
     (if \<not> sm_Global (sp_Mode spec) then []
      else case parsed_constraints ops (sp_TaskTemplate spec) of
             None \<Rightarrow> []
           | Some matches \<Rightarrow> map st_Node (filter (keeps_node matches (no_constraints (sp_TaskTemplate spec))) tasks))"

definition spec_replicas :: "service_spec \<Rightarrow> 64 word" where
  "spec_replicas spec = (case sm_Replicated (sp_Mode spec) of Some (Some n) \<Rightarrow> n | _ \<Rightarrow> 1)"

text \<open>The instance of a task: its slot, or its node in a global service.\<close>

datatype instance_key = SlotKey int | NodeKey string

definition instance_of :: "service_spec \<Rightarrow> string list \<Rightarrow> service_task \<Rightarrow> instance_key option" where
  "instance_of spec nodes t =
     (if sm_Replicated (sp_Mode spec) \<noteq> None
      then if st_Slot t \<le> 0 \<or> spec_replicas spec < of_int (st_Slot t) then None else Some (SlotKey (st_Slot t))
      else if st_Node t = '''' \<or> st_Node t \<notin> set nodes then None else Some (NodeKey (st_Node t)))"

definition history_task :: "service_spec \<Rightarrow> gotime \<Rightarrow> service_task \<Rightarrow> bool" where
  "history_task spec since t \<longleftrightarrow>
     \<not> st_CreatedAt t < since \<and> CompareServiceTemplate (st_Spec t) (sp_TaskTemplate spec) = TemplatesEqual"

definition serviceTaskHistories :: "spec_ops \<Rightarrow> service_spec \<Rightarrow> service_task list \<Rightarrow> gotime \<Rightarrow> service_task list list" where
  "serviceTaskHistories ops spec tasks since =
     (let nodes = globalServiceTaskNodes ops spec tasks;
          relevant = filter (\<lambda>t. history_task spec since t \<and> instance_of spec nodes t \<noteq> None) tasks
      in map (\<lambda>k. filter (\<lambda>t. instance_of spec nodes t = k) relevant) (remdups (map (instance_of spec nodes) relevant)))"

definition latest_failure :: "service_task option \<Rightarrow> service_task option \<Rightarrow> service_task option" where
  "latest_failure t failed =
     (case t of
        None \<Rightarrow> failed
      | Some x \<Rightarrow>
          (case failed of
             None \<Rightarrow> Some x
           | Some f \<Rightarrow> if st_ID f = '''' \<or> st_UpdatedAt f < st_UpdatedAt x then Some x else Some f))"

definition found_failure :: "service_task option \<Rightarrow> service_task option" where
  "found_failure f = (case f of None \<Rightarrow> None | Some t \<Rightarrow> if st_ID t = '''' then None else Some t)"

definition TerminalServiceTaskFailure :: "spec_ops \<Rightarrow> service_spec \<Rightarrow> service_task list \<Rightarrow> gotime \<Rightarrow> service_task option" where
  "TerminalServiceTaskFailure ops spec tasks since =
     (case tt_RestartPolicy (sp_TaskTemplate spec) of
        None \<Rightarrow> None
      | Some policy \<Rightarrow>
          if sm_Replicated (sp_Mode spec) = None \<and> \<not> sm_Global (sp_Mode spec) then None
          else if rp_Condition policy \<noteq> ''none'' \<and> (rp_MaxAttempts policy = None \<or> rp_MaxAttempts policy = Some 0) then None
          else found_failure (fold latest_failure
                 (map (\<lambda>h. terminalExhaustedTask h policy) (serviceTaskHistories ops spec tasks since)) None))"

definition newest_task :: "service_task \<Rightarrow> service_task option \<Rightarrow> service_task option" where
  "newest_task t acc = (case acc of None \<Rightarrow> Some t | Some p \<Rightarrow> if st_CreatedAt p < st_CreatedAt t then Some t else Some p)"

definition newest_in_slot :: "service_task list \<Rightarrow> int \<Rightarrow> service_task option" where
  "newest_in_slot tasks slot = fold newest_task (filter (\<lambda>t. st_Slot t = slot) tasks) None"

definition NonRestartingTaskFailure :: "service_spec \<Rightarrow> service_task list \<Rightarrow> gotime \<Rightarrow> service_task option" where
  "NonRestartingTaskFailure spec tasks since =
     (case tt_RestartPolicy (sp_TaskTemplate spec) of
        None \<Rightarrow> None
      | Some policy \<Rightarrow>
          if sm_Replicated (sp_Mode spec) = None \<or> rp_Condition policy \<noteq> ''none'' then None
          else
            let relevant = filter (\<lambda>t. 0 < st_Slot t \<and> \<not> st_CreatedAt t < since \<and> of_int (st_Slot t) \<le> spec_replicas spec) tasks
            in found_failure (fold latest_failure
                 (filter (\<lambda>f. case f of None \<Rightarrow> False | Some t \<Rightarrow> terminalServiceTask t)
                    (map (newest_in_slot relevant) (remdups (map st_Slot relevant)))) None))"

section \<open>Jobs\<close>

definition terminalJobTask :: "service_task \<Rightarrow> bool" where
  "terminalJobTask t \<longleftrightarrow>
     (case st_CurrentState t of
        TaskStateFailed \<Rightarrow> st_ExitCode t = None \<or> st_ExitCode t \<noteq> Some 0
      | TaskStateRejected \<Rightarrow> True
      | TaskStateOrphaned \<Rightarrow> True
      | _ \<Rightarrow> False)"

definition job_total :: "replicated_job \<Rightarrow> 64 word" where
  "job_total job =
     (case rj_TotalCompletions job of
        Some n \<Rightarrow> n | None \<Rightarrow> (case rj_MaxConcurrent job of Some n \<Rightarrow> n | None \<Rightarrow> 1))"

definition jobTaskKey :: "service_spec \<Rightarrow> nat \<Rightarrow> service_task \<Rightarrow> instance_key option" where
  "jobTaskKey spec iteration t =
     (if st_JobIteration t \<noteq> Some iteration then None
      else case sm_ReplicatedJob (sp_Mode spec) of
             Some job \<Rightarrow> if st_Slot t < 0 \<or> job_total job \<le> of_int (st_Slot t) then None else Some (SlotKey (st_Slot t))
           | None \<Rightarrow> if st_Node t \<noteq> '''' then Some (NodeKey (st_Node t)) else None)"

definition later_job_task :: "service_task \<Rightarrow> service_task \<Rightarrow> service_task" where
  "later_job_task t newest =
     (if st_CreatedAt newest < st_CreatedAt t \<or> st_CreatedAt t = st_CreatedAt newest \<and> \<not> terminalJobTask t
      then t else newest)"

definition job_exhausted :: "restart_policy \<Rightarrow> service_task list \<Rightarrow> service_task option" where
  "job_exhausted policy history =
     (case history of
        [] \<Rightarrow> None
      | h # hs \<Rightarrow>
          let newest = fold later_job_task hs h
          in if terminalJobTask newest \<and>
                (rp_Condition policy = ''none'' \<or>
                 (case rp_MaxAttempts policy of None \<Rightarrow> True | Some n \<Rightarrow> n < of_nat (length history)))
             then Some newest else None)"

definition JobTaskFailure :: "service_spec \<Rightarrow> nat option \<Rightarrow> service_task list \<Rightarrow> service_task option" where
  "JobTaskFailure spec iteration tasks =
     (case (iteration, tt_RestartPolicy (sp_TaskTemplate spec)) of
        (Some i, Some policy) \<Rightarrow>
          if sm_ReplicatedJob (sp_Mode spec) = None \<and> \<not> sm_GlobalJob (sp_Mode spec) then None
          else if rp_Condition policy \<noteq> ''none'' \<and>
                  (sm_ReplicatedJob (sp_Mode spec) = None \<or>
                   rp_Condition policy \<notin> set [''on-failure'', ''any'', ''''] \<or>
                   rp_MaxAttempts policy = None \<or> rp_MaxAttempts policy = Some 0 \<or>
                   (case rp_Window policy of None \<Rightarrow> False | Some w \<Rightarrow> 0 < w)) then None
          else
            let relevant = filter (\<lambda>t. jobTaskKey spec i t \<noteq> None) tasks
            in found_failure (fold latest_failure
                 (map (\<lambda>k. job_exhausted policy (filter (\<lambda>t. jobTaskKey spec i t = k) relevant))
                    (remdups (map (jobTaskKey spec i) relevant))) None)
      | _ \<Rightarrow> None)"

section \<open>A reported failure is terminal\<close>

lemma fold_pick: "(\<And>t x. f t x = t \<or> f t x = x) \<Longrightarrow> fold f ts x \<in> insert x (set ts)"
  by (induction ts arbitrary: x) (auto, metis)

lemma fold_latest_failure:
  "fold latest_failure fs acc = Some t \<Longrightarrow> acc = Some t \<or> Some t \<in> set fs"
  by (induction fs arbitrary: acc) (auto simp: latest_failure_def split: option.splits if_splits)

lemma terminalExhaustedTask_in:
  assumes "terminalExhaustedTask h policy = Some t"
  shows "t \<in> set h \<and> terminalServiceTask t"
proof -
  obtain x hs where h: "h = x # hs" using assms by (cases h) simp_all
  have "fold later_task hs x \<in> insert x (set hs)" by (rule fold_pick) (simp add: later_task_def)
  with assms h show ?thesis by (auto simp: Let_def split: if_splits)
qed

lemma terminal_failure_task:
  assumes "TerminalServiceTaskFailure ops spec tasks since = Some t"
  shows "t \<in> set tasks \<and> terminalServiceTask t \<and> history_task spec since t"
proof -
  obtain policy where "found_failure (fold latest_failure
      (map (\<lambda>h. terminalExhaustedTask h policy) (serviceTaskHistories ops spec tasks since)) None) = Some t"
    using assms by (auto simp: TerminalServiceTaskFailure_def split: option.splits if_splits)
  then have "fold latest_failure (map (\<lambda>h. terminalExhaustedTask h policy) (serviceTaskHistories ops spec tasks since)) None = Some t"
    by (auto simp: found_failure_def split: option.splits if_splits)
  from fold_latest_failure [OF this] obtain h
    where h: "h \<in> set (serviceTaskHistories ops spec tasks since)" "terminalExhaustedTask h policy = Some t" by auto
  then show ?thesis
    using terminalExhaustedTask_in [OF h(2)] by (auto simp: serviceTaskHistories_def Let_def)
qed

end
