(* ===== verification/Waiter.thy ===== *)
theory Waiter
  imports TaskFailure
begin

text \<open>
  The convergence waiter (\<open>internal/modules/deployments/deployer/waiter\<close>): it polls Docker until every
  target service has converged, one has failed and the others are settled, or the context ends.

  A progress message is its reason: the wording, the bounded diagnostics appended to it and the spans are
  left out, and so is the callback that receives the transitions. A wait is given the answers of Docker
  for each poll; the context ends after the last one.
\<close>

section \<open>Data\<close>

text \<open>\<open>ServiceUnset\<close> is the state of Go's zero value.\<close>

datatype service_phase = ServiceUnset | ServicePending | ServiceReady | ServiceFailed

record docker_error =
  de_Text :: string
  de_Transient :: bool

datatype progress_message =
    NoMessage | WaitingForService | WaitingForMetadata | WaitingForUpdateStatus | PreviousUpdateWas string
  | UpdateFailed string | WaitingForSpecification | UnsupportedMode string | WaitingForGlobalScheduler
  | Converged | WaitingForTasksToStop "64 word" | TaskFailedForGood | WaitingForRollout
  | WaitingForTasks "64 word" "64 word" | WaitingForJobScheduler | JobTaskFailedForGood | JobCompleted
  | WaitingForJob "64 word" "64 word" | WaitingForAppliedVersion | SpecificationAccepted
  | ListTasksError docker_error | ListNodesError docker_error | Retrying | DiagnosticsUnavailable progress_message
  | WaitFailed progress_message

record service_progress =
  prg_ServiceID :: string
  prg_Name :: string
  prg_State :: service_phase
  prg_Desired :: "64 word"
  prg_Running :: "64 word"
  prg_SpecificationOnly :: bool
  prg_FailedTaskID :: string
  prg_Message :: progress_message

definition new_progress :: "string \<Rightarrow> progress_message \<Rightarrow> service_progress" where
  "new_progress name msg =
     \<lparr>prg_ServiceID = '''', prg_Name = name, prg_State = ServicePending, prg_Desired = 0, prg_Running = 0,
      prg_SpecificationOnly = False, prg_FailedTaskID = '''', prg_Message = msg\<rparr>"

definition zero_spec :: service_spec where
  "zero_spec =
     \<lparr>sp_Name = '''', sp_Labels = fmempty,
      sp_Mode = \<lparr>sm_Replicated = None, sm_Global = False, sm_ReplicatedJob = None, sm_GlobalJob = False\<rparr>,
      sp_TaskTemplate = \<lparr>tt_Runtime = '''', tt_ContainerSpec = None, tt_PluginSpec = None, tt_Resources = None,
        tt_RestartPolicy = None, tt_Placement = None, tt_Networks = [], tt_ForceUpdate = 0, tt_Other = ''''\<rparr>,
      sp_EndpointSpec = None, sp_UpdateConfig = None, sp_RollbackConfig = None, sp_Other = ''''\<rparr>"

definition zero_stack_service :: stack_service where
  "zero_stack_service =
     \<lparr>srv_ID = '''', srv_Name = '''', srv_Mode = '''', srv_Replicas = None, srv_DesiredTasks = 0, srv_CompletedTasks = 0,
      srv_JobIteration = None, srv_CreatedAt = 0, srv_UpdatedAt = 0, srv_UpdateStatus = None,
      srv_ServiceSpec = zero_spec, srv_PreviousSpec = None\<rparr>"

section \<open>Counting tasks\<close>

definition count_tasks :: "(service_task \<Rightarrow> bool) \<Rightarrow> service_task list \<Rightarrow> 64 word" where
  "count_tasks P tasks = of_nat (length (filter P tasks))"

definition desired_running :: "service_task \<Rightarrow> bool" where
  "desired_running t \<longleftrightarrow> st_DesiredState t = TaskStateRunning"

definition is_running :: "service_task \<Rightarrow> bool" where
  "is_running t \<longleftrightarrow> st_DesiredState t = TaskStateRunning \<and> st_CurrentState t = TaskStateRunning"

definition countDesiredTasks :: "service_task list \<Rightarrow> 64 word" where
  "countDesiredTasks = count_tasks desired_running"

fun taskIsActive :: "task_state \<Rightarrow> bool" where
  "taskIsActive TaskStateComplete = False"
| "taskIsActive TaskStateShutdown = False"
| "taskIsActive TaskStateFailed = False"
| "taskIsActive TaskStateRejected = False"
| "taskIsActive TaskStateRemove = False"
| "taskIsActive TaskStateOrphaned = False"
| "taskIsActive _ = True"

definition countActiveTasks :: "service_task list \<Rightarrow> 64 word" where
  "countActiveTasks = count_tasks (\<lambda>t. taskIsActive (st_CurrentState t))"

definition countCurrentRunningTasks :: "service_task list \<Rightarrow> bool \<Rightarrow> gotime \<Rightarrow> 64 word" where
  "countCurrentRunningTasks tasks requireCurrent cutoff =
     count_tasks (\<lambda>t. is_running t \<and> \<not> (requireCurrent \<and> st_CreatedAt t < cutoff)) tasks"

definition matches_current :: "task_template \<Rightarrow> gotime \<Rightarrow> service_task \<Rightarrow> bool" where
  "matches_current template cutoff t \<longleftrightarrow>
     is_running t \<and> \<not> st_CreatedAt t < cutoff \<and> CompareServiceTemplate (st_Spec t) template = TemplatesEqual"

definition countMatchingCurrentRunningTasks :: "service_task list \<Rightarrow> task_template \<Rightarrow> gotime \<Rightarrow> 64 word" where
  "countMatchingCurrentRunningTasks tasks template cutoff = count_tasks (matches_current template cutoff) tasks"

definition compatible_task ::
    "task_template \<Rightarrow> (swarm_node \<Rightarrow> bool) \<Rightarrow> (string \<Rightarrow> swarm_node option) \<Rightarrow> bool \<Rightarrow> service_task \<Rightarrow> bool" where
  "compatible_task template matches nodes requireNodeMatch t \<longleftrightarrow>
     is_running t \<and>
     (let c = CompareServiceTemplate (st_Spec t) template
      in c = TemplatesEqual \<and> \<not> requireNodeMatch \<or>
         (c = TemplatesEqual \<or> c = PlacementOnly) \<and>
         (case nodes (st_Node t) of None \<Rightarrow> False | Some n \<Rightarrow> matches n))"

definition countPlacementCompatibleRunningTasks ::
    "spec_ops \<Rightarrow> service_task list \<Rightarrow> task_template \<Rightarrow> (string \<Rightarrow> swarm_node option) \<Rightarrow> bool \<Rightarrow> 64 word" where
  "countPlacementCompatibleRunningTasks ops tasks template nodes requireNodeMatch =
     (case parsed_constraints ops template of
        None \<Rightarrow> 0
      | Some matches \<Rightarrow> count_tasks (compatible_task template matches nodes requireNodeMatch) tasks)"

definition countVerifiedRunningTasks ::
    "spec_ops \<Rightarrow> service_task list \<Rightarrow> task_template \<Rightarrow> verification_mode \<Rightarrow> gotime \<Rightarrow> (string \<Rightarrow> swarm_node option) \<Rightarrow> 64 word" where
  "countVerifiedRunningTasks ops tasks template mode cutoff nodes =
     (case mode of
        VerifyExistingTasks \<Rightarrow> countPlacementCompatibleRunningTasks ops tasks template nodes False
      | VerifyPlacementCompatibleTasks \<Rightarrow> countPlacementCompatibleRunningTasks ops tasks template nodes True
      | VerifyNewGeneration \<Rightarrow> countMatchingCurrentRunningTasks tasks template cutoff
      | VerifyUnspecified \<Rightarrow> 0)"

section \<open>Reading a service\<close>

definition serviceChanged :: "stack_service \<Rightarrow> stack_service \<Rightarrow> bool" where
  "serviceChanged before after \<longleftrightarrow>
     srv_ID before \<noteq> srv_ID after \<or> srv_UpdatedAt before \<noteq> srv_UpdatedAt after \<or>
     srv_ServiceSpec before \<noteq> srv_ServiceSpec after"

definition serviceDesiredTasks :: "stack_service \<Rightarrow> 64 word" where
  "serviceDesiredTasks s =
     (case srv_Replicas s of
        Some n \<Rightarrow> if srv_Mode s = ''replicated'' then n else srv_DesiredTasks s | None \<Rightarrow> srv_DesiredTasks s)"

definition observedDesiredTasks :: "stack_service \<Rightarrow> service_task list \<Rightarrow> 64 word" where
  "observedDesiredTasks s tasks =
     (if srv_Mode s \<noteq> ''global'' then serviceDesiredTasks s else max (countDesiredTasks tasks) (serviceDesiredTasks s))"

definition globalSchedulerPending :: "stack_service \<Rightarrow> stack_service \<Rightarrow> 64 word \<Rightarrow> bool" where
  "globalSchedulerPending base s desired \<longleftrightarrow>
     srv_Mode s = ''global'' \<and> desired = 0 \<and>
     (srv_ID base = '''' \<or> srv_ID base \<noteq> srv_ID s \<or> 0 < srv_DesiredTasks base \<or>
      tt_Placement (sp_TaskTemplate (srv_ServiceSpec base)) \<noteq> tt_Placement (sp_TaskTemplate (srv_ServiceSpec s)))"

definition terminalUpdateFailure :: "update_status option \<Rightarrow> bool" where
  "terminalUpdateFailure status \<longleftrightarrow>
     (case status of
        None \<Rightarrow> False
      | Some u \<Rightarrow> us_State u \<in> set [''failed'', ''paused'', ''rollback_started'', ''rollback_paused'', ''rollback_completed''])"

definition updatePending :: "update_status option \<Rightarrow> bool" where
  "updatePending status \<longleftrightarrow>
     (case status of
        None \<Rightarrow> False
      | Some u \<Rightarrow> us_State u \<notin> set [''paused'', ''rollback_started'', ''rollback_paused'', ''rollback_completed'', ''completed''])"

definition started_at :: "update_status option \<Rightarrow> gotime" where
  "started_at status = (case status of None \<Rightarrow> 0 | Some u \<Rightarrow> us_StartedAt u)"

definition restoredCompletedRollback :: "spec_ops \<Rightarrow> stack_service \<Rightarrow> stack_service \<Rightarrow> service_spec \<Rightarrow> bool" where
  "restoredCompletedRollback ops base s expected \<longleftrightarrow>
     sp_Name expected \<noteq> '''' \<and> srv_ID base = srv_ID s \<and> \<not> serviceChanged base s \<and>
     (case srv_UpdateStatus s of None \<Rightarrow> False | Some u \<Rightarrow> us_State u = ''rollback_completed'') \<and>
     srv_UpdateStatus base = srv_UpdateStatus s \<and> SpecsEqual ops (srv_ServiceSpec s) expected"

definition taskGenerationCutoff :: "stack_service \<Rightarrow> stack_service \<Rightarrow> gotime \<times> bool" where
  "taskGenerationCutoff base s =
     (if srv_ID base = '''' \<or> srv_ID base \<noteq> srv_ID s then (srv_CreatedAt s, False)
      else if srv_UpdateStatus s = None \<or> IsZero (started_at (srv_UpdateStatus s)) \<or>
              \<not> srv_UpdatedAt base < started_at (srv_UpdateStatus s) then (0, True)
      else (started_at (srv_UpdateStatus s), False))"

definition serviceVerificationMode :: "stack_service \<Rightarrow> stack_service \<Rightarrow> bool \<Rightarrow> update_generation \<Rightarrow> verification_mode" where
  "serviceVerificationMode base s unresolved g =
     (if srv_ID base = '''' \<or> srv_ID base \<noteq> srv_ID s \<or> srv_UpdatedAt s < srv_UpdatedAt base
      then VerifyNewGeneration
      else
        let mode = ClassifyVerification (srv_ServiceSpec base) (srv_ServiceSpec s)
        in if gen_ServiceID g = srv_ID s \<and> mode_rank mode < mode_rank (gen_Mode g) then gen_Mode g
           else if mode \<noteq> VerifyExistingTasks \<or> (\<not> unresolved \<and> gen_ServiceID g = '''') then mode
           else case srv_PreviousSpec s of
                  Some p \<Rightarrow> ClassifyVerification p (srv_ServiceSpec s) | None \<Rightarrow> VerifyNewGeneration)"

definition verificationTaskCutoff ::
    "stack_service \<Rightarrow> stack_service \<Rightarrow> verification_mode \<Rightarrow> bool \<Rightarrow> update_generation \<Rightarrow> gotime \<times> bool" where
  "verificationTaskCutoff base s mode unresolved g =
     (if mode \<noteq> VerifyNewGeneration then (0, False)
      else if gen_ServiceID g = srv_ID s \<and> \<not> IsZero (gen_After g) then
        let base = base\<lparr>srv_UpdatedAt := gen_After g\<rparr>
        in if \<not> IsZero (gen_TasksAfter g)
           then if srv_UpdateStatus s = None then (gen_TasksAfter g, False)
                else (gen_TasksAfter g, snd (taskGenerationCutoff base s))
           else taskGenerationCutoff base s
      else if \<not> unresolved \<or> srv_ID base = '''' \<or> srv_ID base \<noteq> srv_ID s \<or>
              ClassifyVerification (srv_ServiceSpec base) (srv_ServiceSpec s) \<noteq> VerifyExistingTasks
      then taskGenerationCutoff base s
      else if srv_UpdatedAt s < srv_UpdatedAt base then (0, True)
      else if srv_UpdateStatus s = None \<and> srv_UpdateStatus base = None \<and> srv_PreviousSpec s = None \<and>
              srv_PreviousSpec base = None \<and> tt_ForceUpdate (sp_TaskTemplate (srv_ServiceSpec s)) = 0 \<and>
              \<not> IsZero (srv_CreatedAt s) then (srv_CreatedAt s, False)
      else if srv_UpdateStatus s = None \<or> IsZero (started_at (srv_UpdateStatus s)) then (0, True)
      else if (case srv_PreviousSpec s of
                 None \<Rightarrow> False
               | Some p \<Rightarrow> CompareServiceTemplate (normalizeTaskSpec (sp_TaskTemplate p))
                            (sp_TaskTemplate (srv_ServiceSpec s)) = TemplatesEqual)
      then taskGenerationCutoff base s
      else (started_at (srv_UpdateStatus s), False))"

definition specificationMetadataPending :: "stack_service \<Rightarrow> stack_service \<Rightarrow> stack_service \<Rightarrow> update_generation \<Rightarrow> bool" where
  "specificationMetadataPending base reference s g \<longleftrightarrow>
     gen_ServiceID g \<noteq> '''' \<and> gen_ServiceID g \<noteq> srv_ID s \<or>
     srv_ID base = srv_ID s \<and> srv_UpdatedAt s < srv_UpdatedAt base \<or>
     srv_ID reference = srv_ID s \<and> srv_UpdatedAt s < srv_UpdatedAt reference \<or>
     gen_ServiceID g = srv_ID s \<and> \<not> gen_After g < srv_UpdatedAt s"

section \<open>The task behind a failure\<close>

definition failed_state :: "service_task \<Rightarrow> bool" where
  "failed_state t \<longleftrightarrow>
     st_CurrentState t = TaskStateFailed \<or> st_CurrentState t = TaskStateRejected \<or> st_CurrentState t = TaskStateOrphaned"

definition latestFailedTask :: "service_task list \<Rightarrow> service_task option" where
  "latestFailedTask tasks =
     (case sort_key (\<lambda>t. - st_UpdatedAt t) (filter failed_state tasks) of [] \<Rightarrow> None | t # _ \<Rightarrow> Some t)"

definition terminalTaskCutoff :: "stack_service \<Rightarrow> stack_service \<Rightarrow> gotime" where
  "terminalTaskCutoff base s =
     (let start = started_at (srv_UpdateStatus s);
          own = srv_ID base = srv_ID s \<and> \<not> IsZero (srv_UpdatedAt base);
          cutoff = (if \<not> IsZero start then start
                    else let c = (if own then srv_UpdatedAt base else srv_UpdatedAt s)
                         in if IsZero c then srv_CreatedAt s else c)
      in if (case srv_UpdateStatus s of None \<Rightarrow> False | Some u \<Rightarrow> HasPrefix (us_State u) ''rollback_'') \<and> own \<and> serviceChanged base s
         then srv_UpdatedAt base else cutoff)"

definition terminalFailureTask :: "spec_ops \<Rightarrow> service_task list \<Rightarrow> string \<Rightarrow> gotime \<Rightarrow> service_task option" where
  "terminalFailureTask ops tasks message cutoff =
     (case find (\<lambda>t. st_ID t \<noteq> '''' \<and> st_ID t \<in> set (op_Words ops message)) tasks of
        Some t \<Rightarrow> Some t
      | None \<Rightarrow> if IsZero cutoff then None else latestFailedTask (filter (\<lambda>t. \<not> st_CreatedAt t < cutoff) tasks))"

definition task_id :: "service_task option \<Rightarrow> string" where
  "task_id t = (case t of None \<Rightarrow> '''' | Some t \<Rightarrow> st_ID t)"

section \<open>Evaluating a service\<close>

definition zero_update_generation :: update_generation where
  "zero_update_generation =
     \<lparr>gen_ServiceID = '''', gen_ForceUpdate = 0, gen_After = 0, gen_Mode = VerifyUnspecified,
      gen_BeforeSpecDigest = '''', gen_TasksAfter = 0\<rparr>"

definition zeroDesiredProgress :: "service_progress \<Rightarrow> service_task list \<Rightarrow> service_progress" where
  "zeroDesiredProgress p tasks =
     (if countActiveTasks tasks = 0 then p\<lparr>prg_State := ServiceReady, prg_Message := Converged\<rparr>
      else p\<lparr>prg_Message := WaitingForTasksToStop (countActiveTasks tasks)\<rparr>)"

definition runningServiceProgress ::
    "spec_ops \<Rightarrow> service_progress \<Rightarrow> stack_service \<Rightarrow> service_task list \<Rightarrow> verification_mode \<Rightarrow> gotime \<Rightarrow>
     (string \<Rightarrow> swarm_node option) \<Rightarrow> service_progress" where
  "runningServiceProgress ops p s tasks mode cutoff nodes =
     (let p = p\<lparr>prg_Running := countVerifiedRunningTasks ops tasks (sp_TaskTemplate (srv_ServiceSpec s)) mode cutoff nodes\<rparr>
      in case TerminalServiceTaskFailure ops (srv_ServiceSpec s) tasks cutoff of
           Some t \<Rightarrow> p\<lparr>prg_State := ServiceFailed, prg_FailedTaskID := st_ID t, prg_Message := TaskFailedForGood\<rparr>
         | None \<Rightarrow>
             if updatePending (srv_UpdateStatus s) then p\<lparr>prg_Message := WaitingForRollout\<rparr>
             else if prg_Running p = prg_Desired p \<and> countDesiredTasks tasks = prg_Desired p
             then p\<lparr>prg_State := ServiceReady, prg_Message := Converged\<rparr>
             else p\<lparr>prg_Message := WaitingForTasks (prg_Running p) (prg_Desired p)\<rparr>)"

definition terminalServiceUpdateProgress ::
    "spec_ops \<Rightarrow> stack_service \<Rightarrow> stack_service \<Rightarrow> service_task list \<Rightarrow> bool \<Rightarrow> service_progress \<Rightarrow> service_progress \<times> bool" where
  "terminalServiceUpdateProgress ops base s tasks restored p =
     (case srv_UpdateStatus s of
        None \<Rightarrow> (p, False)
      | Some u \<Rightarrow>
          if \<not> terminalUpdateFailure (Some u) \<or> restored then (p, False)
          else if srv_ID base = srv_ID s \<and> serviceChanged base s \<and> srv_UpdateStatus base = Some u \<and>
                  \<not> srv_UpdatedAt base < us_StartedAt u
          then (p\<lparr>prg_Message := PreviousUpdateWas (us_State u)\<rparr>, True)
          else (p\<lparr>prg_State := ServiceFailed,
                  prg_FailedTaskID := task_id (terminalFailureTask ops tasks (us_Message u) (terminalTaskCutoff base s)),
                  prg_Message := UpdateFailed (us_State u)\<rparr>, True))"

definition job_desired :: "stack_service \<Rightarrow> 64 word" where
  "job_desired s =
     (case sm_ReplicatedJob (sp_Mode (srv_ServiceSpec s)) of
        Some job \<Rightarrow> job_total job | None \<Rightarrow> srv_DesiredTasks s + srv_CompletedTasks s)"

definition jobProgress :: "service_progress \<Rightarrow> stack_service \<Rightarrow> stack_service \<Rightarrow> service_task list \<Rightarrow> service_progress" where
  "jobProgress p base s tasks =
     (let p = p\<lparr>prg_Message := WaitingForJobScheduler\<rparr>
      in if srv_JobIteration s = None then p
         else if srv_ID base = srv_ID s \<and> srv_JobIteration base \<noteq> None \<and>
                 srv_ServiceSpec base \<noteq> srv_ServiceSpec s \<and> srv_JobIteration base = srv_JobIteration s then p
         else
           let p = p\<lparr>prg_Desired := job_desired s\<rparr>
           in case JobTaskFailure (srv_ServiceSpec s) (srv_JobIteration s) tasks of
                Some t \<Rightarrow> p\<lparr>prg_State := ServiceFailed, prg_FailedTaskID := st_ID t, prg_Message := JobTaskFailedForGood\<rparr>
              | None \<Rightarrow>
                  if srv_Mode s = ''global-job'' \<and> job_desired s = 0 then p
                  else if job_desired s \<le> srv_CompletedTasks s
                  then p\<lparr>prg_State := ServiceReady, prg_Message := JobCompleted\<rparr>
                  else p\<lparr>prg_Message := WaitingForJob (srv_CompletedTasks s) (job_desired s)\<rparr>)"

text \<open>The reference version of a service: the recorded write, if there is one, over the baseline.\<close>

definition written_reference :: "stack_service \<Rightarrow> update_generation \<Rightarrow> stack_service" where
  "written_reference base g =
     (if gen_ServiceID g = '''' then base else base\<lparr>srv_ID := gen_ServiceID g, srv_UpdatedAt := gen_After g\<rparr>)"

definition written_baseline :: "stack_service \<Rightarrow> stack_service \<Rightarrow> update_generation \<Rightarrow> stack_service" where
  "written_baseline base s g =
     (if gen_ServiceID g = srv_ID s \<and> \<not> IsZero (gen_After g) then base\<lparr>srv_UpdatedAt := gen_After g\<rparr> else base)"

definition evaluate_tasks ::
    "spec_ops \<Rightarrow> service_progress \<Rightarrow> stack_service \<Rightarrow> stack_service \<Rightarrow> service_task list \<Rightarrow> bool \<Rightarrow>
     (string \<Rightarrow> swarm_node option) \<Rightarrow> update_generation \<Rightarrow> service_progress" where
  "evaluate_tasks ops p base s tasks unresolved nodes g =
     (let mode = serviceVerificationMode base s unresolved g;
          desired = observedDesiredTasks s tasks;
          p = p\<lparr>prg_Desired := desired\<rparr>;
          (cutoff, generationPending) = verificationTaskCutoff base s mode unresolved g
      in if globalSchedulerPending base s desired then p\<lparr>prg_Message := WaitingForGlobalScheduler\<rparr>
         else if desired = 0 then zeroDesiredProgress p tasks
         else if generationPending then p\<lparr>prg_Message := WaitingForUpdateStatus\<rparr>
         else runningServiceProgress ops p s tasks mode cutoff nodes)"

definition evaluateService ::
    "spec_ops \<Rightarrow> string \<Rightarrow> stack_service \<Rightarrow> stack_service \<Rightarrow> service_task list \<Rightarrow> bool \<Rightarrow> service_spec \<Rightarrow>
     (string \<Rightarrow> swarm_node option) \<Rightarrow> update_generation \<Rightarrow> service_progress" where
  "evaluateService ops name base s tasks unresolved expected nodes generation =
     (if srv_ID s = '''' then new_progress name WaitingForService
      else
        let p = (new_progress name NoMessage)\<lparr>prg_ServiceID := srv_ID s, prg_Desired := serviceDesiredTasks s\<rparr>;
            restored = restoredCompletedRollback ops base s expected;
            g = (if restored then zero_update_generation else generation)
        in if specificationMetadataPending base (written_reference base g) s g then p\<lparr>prg_Message := WaitingForMetadata\<rparr>
           else
             let base = written_baseline base s g;
                 (updateProgress, final) = terminalServiceUpdateProgress ops base s tasks restored p
             in if final then updateProgress
                else if sp_Name expected \<noteq> '''' \<and> \<not> SpecsEqual ops (srv_ServiceSpec s) expected
                then p\<lparr>prg_Message := WaitingForSpecification\<rparr>
                else if srv_Mode s = ''replicated-job'' \<or> srv_Mode s = ''global-job'' then jobProgress p base s tasks
                else if srv_Mode s \<noteq> ''replicated'' \<and> srv_Mode s \<noteq> ''global''
                then p\<lparr>prg_State := ServiceFailed, prg_Message := UnsupportedMode (srv_Mode s)\<rparr>
                else evaluate_tasks ops p base s tasks (unresolved \<and> \<not> restored) nodes g)"

section \<open>Externally managed replicas\<close>

definition specificationStatusPending :: "stack_service \<Rightarrow> stack_service \<Rightarrow> bool \<Rightarrow> bool \<Rightarrow> bool" where
  "specificationStatusPending ref s unresolved applied \<longleftrightarrow>
     (case srv_UpdateStatus s of
        None \<Rightarrow> False
      | Some u \<Rightarrow>
          if IsZero (us_StartedAt u) \<or> srv_UpdatedAt s < us_StartedAt u then True
          else if srv_ID ref \<noteq> srv_ID s then False
          else if unresolved \<and> \<not> applied
          then (case srv_UpdateStatus ref of None \<Rightarrow> False | Some r \<Rightarrow> us_StartedAt u < us_StartedAt r)
          else \<not> srv_UpdatedAt ref < us_StartedAt u)"

definition desiredTasksFromGeneration :: "stack_service \<Rightarrow> service_task list \<Rightarrow> gotime \<Rightarrow> bool" where
  "desiredTasksFromGeneration s tasks cutoff \<longleftrightarrow>
     \<not> IsZero cutoff \<and> countDesiredTasks tasks = serviceDesiredTasks s \<and>
     list_all (\<lambda>t. desired_running t \<longrightarrow>
       \<not> st_CreatedAt t < cutoff \<and> CompareServiceTemplate (st_Spec t) (sp_TaskTemplate (srv_ServiceSpec s)) = TemplatesEqual) tasks"

definition specificationRolloutPending ::
    "stack_service \<Rightarrow> stack_service \<Rightarrow> verification_mode \<Rightarrow> bool \<Rightarrow> update_generation \<Rightarrow> service_task list \<Rightarrow> bool" where
  "specificationRolloutPending base s mode unresolved g tasks \<longleftrightarrow>
     (if srv_ID base \<noteq> srv_ID s \<or> serviceDesiredTasks s = 0 \<or> mode \<noteq> VerifyNewGeneration
      then updatePending (srv_UpdateStatus s)
      else
        let (cutoff, pending) = verificationTaskCutoff base s mode unresolved g
        in if pending then True
           else case srv_UpdateStatus s of
                  None \<Rightarrow> cutoff \<noteq> srv_CreatedAt s \<and> \<not> desiredTasksFromGeneration s tasks (gen_TasksAfter g)
                | Some u \<Rightarrow> us_State u \<noteq> ''completed'')"

definition force_update :: "stack_service \<Rightarrow> 64 word" where
  "force_update s = tt_ForceUpdate (sp_TaskTemplate (srv_ServiceSpec s))"

definition reference_force_update :: "stack_service \<Rightarrow> update_generation \<Rightarrow> 64 word" where
  "reference_force_update base g =
     (if gen_ServiceID g = '''' then force_update base else of_nat (gen_ForceUpdate g))"

definition specificationProgress ::
    "spec_ops \<Rightarrow> string \<Rightarrow> stack_service \<Rightarrow> stack_service \<Rightarrow> bool \<Rightarrow> service_spec \<Rightarrow> update_generation \<Rightarrow>
     service_task list \<Rightarrow> service_progress" where
  "specificationProgress ops name base s unresolved expected g tasks =
     (let p = (new_progress name NoMessage)\<lparr>prg_ServiceID := srv_ID s, prg_Desired := serviceDesiredTasks s,
               prg_SpecificationOnly := True\<rparr>;
          ref = written_reference base g;
          ownUpdate = (gen_ServiceID g \<noteq> '''' \<or> unresolved \<or> srv_ID base \<noteq> srv_ID s \<or>
                       \<not> SpecsEqual ops (srv_ServiceSpec base) expected);
          mode = serviceVerificationMode base s unresolved g;
          externalExecution = (force_update s \<noteq> reference_force_update base g)
      in if srv_ID s = '''' then p\<lparr>prg_Message := WaitingForService\<rparr>
         else if specificationMetadataPending base ref s g then p\<lparr>prg_Message := WaitingForMetadata\<rparr>
         else if ownUpdate \<and> mode = VerifyNewGeneration \<and>
                 specificationStatusPending ref s unresolved (gen_ServiceID g \<noteq> '''')
         then p\<lparr>prg_Message := WaitingForUpdateStatus\<rparr>
         else if terminalUpdateFailure (srv_UpdateStatus s) \<and> ownUpdate \<and> \<not> externalExecution
         then p\<lparr>prg_State := ServiceFailed,
                prg_Message := UpdateFailed (case srv_UpdateStatus s of None \<Rightarrow> '''' | Some u \<Rightarrow> us_State u)\<rparr>
         else if \<not> SpecsEqual ops (srv_ServiceSpec s) expected then p\<lparr>prg_Message := WaitingForSpecification\<rparr>
         else if ownUpdate \<and> \<not> externalExecution \<and> specificationRolloutPending base s mode unresolved g tasks
         then p\<lparr>prg_Message := WaitingForUpdateStatus\<rparr>
         else p\<lparr>prg_State := ServiceReady, prg_Message := SpecificationAccepted\<rparr>)"

section \<open>Observing a service\<close>

datatype wait_error =
    ConvergenceFailed string progress_message
  | ReplicasOwnership string policy_error
  | TasksNotListed docker_error
  | ListTasksFailed string docker_error
  | ListNodesFailed string docker_error
  | SnapshotFailed string docker_error
  | WaitInterrupted string string

fun transient_error :: "wait_error \<Rightarrow> bool" where
  "transient_error (TasksNotListed e) = de_Transient e"
| "transient_error (ListTasksFailed _ e) = de_Transient e"
| "transient_error (ListNodesFailed _ e) = de_Transient e"
| "transient_error (SnapshotFailed _ e) = de_Transient e"
| "transient_error _ = False"

text \<open>
  What Docker answers during a poll, the state of the context when an observation error is handled
  (\<open>pa_CtxErr\<close>), and the end of the context if the select takes that branch (\<open>pa_Done\<close>; if the ticker
  has fired too, Go chooses either). \<open>errors.Join\<close> is a list, \<open>nil\<close> the empty one.
\<close>

record poll_answer =
  pa_Services :: "docker_error + stack_service list"
  pa_Tasks :: "string \<Rightarrow> docker_error + service_task list"
  pa_Nodes :: "docker_error + swarm_node list"
  pa_CtxErr :: "string option"
  pa_Done :: "string option"

definition listed_tasks :: "docker_error + service_task list \<Rightarrow> service_task list" where
  "listed_tasks r = (case r of Inl _ \<Rightarrow> [] | Inr ts \<Rightarrow> ts)"

definition zero_progress :: service_progress where
  "zero_progress = (new_progress '''' NoMessage)\<lparr>prg_State := ServiceUnset\<rparr>"

definition observeExternalService ::
    "spec_ops \<Rightarrow> poll_answer \<Rightarrow> string \<Rightarrow> stack_service \<Rightarrow> stack_service \<Rightarrow> bool \<Rightarrow> service_spec \<Rightarrow> update_generation \<Rightarrow>
     service_progress \<times> wait_error option" where
  "observeExternalService ops a name base s unresolved expected g =
     (let needed = (srv_UpdateStatus s = None \<and> \<not> IsZero (gen_TasksAfter g));
          answer = pa_Tasks a (srv_ID s)
      in case (if needed then answer else Inr []) of
           Inl e \<Rightarrow> (zero_progress, Some (TasksNotListed e))
         | Inr tasks \<Rightarrow>
             let p = specificationProgress ops name base s unresolved expected g tasks
             in if prg_State p = ServicePending then (p, None)
                else
                  let tasks = listed_tasks answer;
                      p = p\<lparr>prg_Running := countCurrentRunningTasks tasks False 0\<rparr>
                  in if prg_State p = ServiceFailed
                     then (p\<lparr>prg_FailedTaskID := task_id (terminalFailureTask ops tasks
                              (case srv_UpdateStatus s of None \<Rightarrow> '''' | Some u \<Rightarrow> us_Message u)
                              (terminalTaskCutoff (written_baseline base s g) s))\<rparr>, None)
                     else (p, None))"

definition placementNodesByID :: "swarm_node list \<Rightarrow> string \<Rightarrow> swarm_node option" where
  "placementNodesByID nodes n = find (\<lambda>x. node_ID x = n) (rev nodes)"

definition needs_node :: "task_template \<Rightarrow> verification_mode \<Rightarrow> service_task \<Rightarrow> bool" where
  "needs_node template mode t \<longleftrightarrow>
     is_running t \<and>
     (CompareServiceTemplate (st_Spec t) template = PlacementOnly \<or>
      mode = VerifyPlacementCompatibleTasks \<and> CompareServiceTemplate (st_Spec t) template = TemplatesEqual)"

definition observeService ::
    "spec_ops \<Rightarrow> poll_answer \<Rightarrow> string \<Rightarrow> stack_service \<Rightarrow> stack_service \<Rightarrow> bool \<Rightarrow> service_spec \<Rightarrow> update_generation \<Rightarrow>
     service_progress \<times> wait_error option" where
  "observeService ops a name base s unresolved expected generation =
     (let g = (if gen_ServiceID generation = srv_ID s
               then ResolveUpdateGeneration ops generation (srv_PreviousSpec s) (srv_ServiceSpec s) else generation)
      in case ReplicasManaged expected of
           Inl e \<Rightarrow> (new_progress name NoMessage, Some (ReplicasOwnership name e))
         | Inr managed \<Rightarrow>
             if \<not> managed then observeExternalService ops a name base s unresolved expected g
             else
               let p = evaluateService ops name base s [] unresolved expected (\<lambda>_. None) g;
                   final = (terminalUpdateFailure (srv_UpdateStatus s) \<and> \<not> restoredCompletedRollback ops base s expected)
               in if srv_ID s = '''' then (p, None)
                  else if final \<and> prg_State p \<noteq> ServiceFailed then (p, None)
                  else if \<not> final \<and> srv_Mode s \<notin> set [''replicated'', ''global'', ''replicated-job'', ''global-job'']
                  then (p, None)
                  else case pa_Tasks a (srv_ID s) of
                         Inl e \<Rightarrow>
                           if final then (p\<lparr>prg_Message := DiagnosticsUnavailable (prg_Message p)\<rparr>, None)
                           else (p\<lparr>prg_State := ServicePending, prg_Message := ListTasksError e\<rparr>,
                                 Some (ListTasksFailed name e))
                       | Inr tasks \<Rightarrow>
                           let mode = serviceVerificationMode base s unresolved g
                           in if (mode = VerifyExistingTasks \<or> mode = VerifyPlacementCompatibleTasks) \<and>
                                 list_ex (needs_node (sp_TaskTemplate (srv_ServiceSpec s)) mode) tasks
                              then case pa_Nodes a of
                                     Inl e \<Rightarrow> (p\<lparr>prg_State := ServicePending, prg_Message := ListNodesError e\<rparr>,
                                              Some (ListNodesFailed name e))
                                   | Inr nodes \<Rightarrow>
                                       (evaluateService ops name base s tasks unresolved expected (placementNodesByID nodes) g, None)
                              else (evaluateService ops name base s tasks unresolved expected (\<lambda>_. None) g, None))"

section \<open>The state of a wait\<close>

text \<open>\<open>ws_Progress\<close> is what the progress callback has received, newest first.\<close>

record wait_state =
  ws_targets :: "string list"
  ws_last :: "(string, service_progress) fmap"
  ws_failedTasks :: "(string, service_progress) fmap"
  ws_observed :: nat
  ws_converged :: nat
  ws_lastObservationError :: "wait_error list"
  ws_terminalFailure :: "wait_error list"
  ws_Progress :: "service_progress list"

definition new_wait :: wait_state where
  "new_wait =
     \<lparr>ws_targets = [], ws_last = fmempty, ws_failedTasks = fmempty, ws_observed = 0, ws_converged = 0,
      ws_lastObservationError = [], ws_terminalFailure = [], ws_Progress = []\<rparr>"

definition emit :: "service_progress \<Rightarrow> wait_state \<Rightarrow> wait_state" where
  "emit p w =
     (if fmlookup (ws_last w) (prg_Name p) = Some p then w
      else w\<lparr>ws_failedTasks := (if prg_State p = ServiceFailed \<and> prg_FailedTaskID p \<noteq> ''''
                                 then fmupd (prg_Name p) p (ws_failedTasks w) else ws_failedTasks w),
             ws_last := fmupd (prg_Name p) p (ws_last w),
             ws_Progress := p # ws_Progress w\<rparr>)"

definition fail_one :: "string \<Rightarrow> wait_state \<Rightarrow> wait_state" where
  "fail_one name w =
     (case fmlookup (ws_last w) name of
        None \<Rightarrow> w
      | Some p \<Rightarrow>
          if prg_State p \<noteq> ServicePending then w
          else emit (p\<lparr>prg_State := ServiceFailed, prg_Message := WaitFailed (prg_Message p)\<rparr>) w)"

definition failPending :: "wait_state \<Rightarrow> wait_state" where
  "failPending w = fold fail_one (sorted_keys (ws_last w)) w"

definition retry_one :: "string \<Rightarrow> wait_state \<Rightarrow> wait_state" where
  "retry_one name w =
     (case fmlookup (ws_last w) name of
        None \<Rightarrow> emit (new_progress name Retrying) w
      | Some p \<Rightarrow> if prg_State p \<noteq> ServicePending then w else emit (p\<lparr>prg_Message := Retrying\<rparr>) w)"

definition retryPending :: "wait_error list \<Rightarrow> wait_state \<Rightarrow> wait_state" where
  "retryPending cause w = fold retry_one (ws_targets w) (w\<lparr>ws_lastObservationError := cause\<rparr>)"

definition handleObservationError ::
    "poll_answer \<Rightarrow> string \<Rightarrow> wait_error list \<Rightarrow> wait_state \<Rightarrow> wait_error list \<times> wait_state" where
  "handleObservationError a stack cause w =
     (case pa_CtxErr a of
        Some err \<Rightarrow> ([WaitInterrupted stack err], failPending w)
      | None \<Rightarrow>
          if list_ex transient_error cause then ([], retryPending cause w)
          else (cause, failPending w))"

record wait_result =
  wr_SpecificationOnlyServices :: "string list"
  wr_FailedTasks :: "service_progress list"
  wr_UnresolvedServices :: "string list"

definition last_ready :: "wait_state \<Rightarrow> string \<Rightarrow> bool" where
  "last_ready w name \<longleftrightarrow> (case fmlookup (ws_last w) name of None \<Rightarrow> False | Some p \<Rightarrow> prg_State p = ServiceReady)"

definition result :: "wait_state \<Rightarrow> wait_result" where
  "result w =
     \<lparr>wr_SpecificationOnlyServices =
        filter (\<lambda>n. last_ready w n \<and> (case fmlookup (ws_last w) n of None \<Rightarrow> False | Some p \<Rightarrow> prg_SpecificationOnly p)) (ws_targets w),
      wr_FailedTasks = map (\<lambda>n. the (fmlookup (ws_failedTasks w) n)) (sorted_keys (ws_failedTasks w)),
      wr_UnresolvedServices = filter (\<lambda>n. \<not> last_ready w n) (ws_targets w)\<rparr>"

section \<open>Waiting\<close>

record wait_request =
  wq_StackName :: string
  wq_ServiceNames :: "string list"
  wq_Baseline :: "stack_service list"
  wq_AppliedServices :: "string list"
  wq_UnresolvedServices :: "string list"
  wq_ExpectedSpecs :: "(string, service_spec) fmap"
  wq_UpdateGenerations :: "(string, update_generation) fmap"

definition servicesByName :: "stack_service list \<Rightarrow> (string, stack_service) fmap" where
  "servicesByName ss = fold (\<lambda>s. fmupd (srv_Name s) s) ss fmempty"

definition service_named :: "(string, stack_service) fmap \<Rightarrow> string \<Rightarrow> stack_service" where
  "service_named m n = (case fmlookup m n of None \<Rightarrow> zero_stack_service | Some s \<Rightarrow> s)"

definition uniqueSortedNames :: "string list \<Rightarrow> string list" where
  "uniqueSortedNames names = sort (remdups (filter (\<lambda>n. n \<noteq> '''') names))"

definition request_expected :: "wait_request \<Rightarrow> string \<Rightarrow> service_spec" where
  "request_expected rq n = (case fmlookup (wq_ExpectedSpecs rq) n of None \<Rightarrow> zero_spec | Some s \<Rightarrow> s)"

definition request_generation :: "wait_request \<Rightarrow> string \<Rightarrow> update_generation" where
  "request_generation rq n =
     (case fmlookup (wq_UpdateGenerations rq) n of None \<Rightarrow> zero_update_generation | Some g \<Rightarrow> g)"

text \<open>An applied service that Docker still shows as it was before.\<close>

definition not_yet_visible :: "wait_request \<Rightarrow> string \<Rightarrow> stack_service \<Rightarrow> stack_service \<Rightarrow> bool" where
  "not_yet_visible rq name base s \<longleftrightarrow>
     name \<in> set (wq_AppliedServices rq) \<and> srv_ID base \<noteq> '''' \<and> \<not> serviceChanged base s"

definition observe_target ::
    "spec_ops \<Rightarrow> wait_request \<Rightarrow> poll_answer \<Rightarrow> (string, stack_service) fmap \<Rightarrow> (string, stack_service) fmap \<Rightarrow> string \<Rightarrow>
     service_progress \<times> wait_error option" where
  "observe_target ops rq a base cur n =
     observeService ops a n (service_named base n) (service_named cur n) (n \<in> set (wq_UnresolvedServices rq))
       (request_expected rq n) (request_generation rq n)"

text \<open>The loop over the targets: what is ready so far, and the failures so far.\<close>

fun observe_targets ::
    "spec_ops \<Rightarrow> wait_request \<Rightarrow> poll_answer \<Rightarrow> (string, stack_service) fmap \<Rightarrow> (string, stack_service) fmap \<Rightarrow>
     string list \<Rightarrow> bool \<Rightarrow> wait_error list \<Rightarrow> wait_state \<Rightarrow> bool \<times> wait_error list \<times> wait_state" where
  "observe_targets ops rq a base cur [] allReady failures w = (allReady, failures, w)"
| "observe_targets ops rq a base cur (n # ns) allReady failures w =
     (if not_yet_visible rq n (service_named base n) (service_named cur n)
      then observe_targets ops rq a base cur ns False failures (emit (new_progress n WaitingForAppliedVersion) w)
      else
        case observe_target ops rq a base cur n of
          (p, Some e) \<Rightarrow> (False, failures @ [e], emit p w)
        | (p, None) \<Rightarrow>
            if prg_State p = ServiceFailed
            then observe_targets ops rq a base cur ns allReady (failures @ [ConvergenceFailed n (prg_Message p)]) (emit p w)
            else if prg_State p = ServiceReady
            then observe_targets ops rq a base cur ns allReady failures
                   ((emit p w)\<lparr>ws_converged := ws_converged (emit p w) + 1\<rparr>)
            else observe_targets ops rq a base cur ns False failures (emit p w))"

definition observeTargets ::
    "spec_ops \<Rightarrow> wait_request \<Rightarrow> poll_answer \<Rightarrow> (string, stack_service) fmap \<Rightarrow> (string, stack_service) fmap \<Rightarrow>
     wait_state \<Rightarrow> bool \<times> wait_error list \<times> wait_state" where
  "observeTargets ops rq a base cur w =
     observe_targets ops rq a base cur (ws_targets w) True []
       (w\<lparr>ws_observed := length (ws_targets w), ws_converged := 0\<rparr>)"

definition poll ::
    "spec_ops \<Rightarrow> wait_request \<Rightarrow> poll_answer \<Rightarrow> (string, stack_service) fmap \<Rightarrow> wait_state \<Rightarrow>
     bool \<times> wait_error list \<times> wait_state" where
  "poll ops rq a base w =
     (case pa_Services a of
        Inl e \<Rightarrow> (False, [SnapshotFailed (wq_StackName rq) e], w)
      | Inr cur \<Rightarrow>
          if ws_targets w = [] then (True, [], w)
          else observeTargets ops rq a base (servicesByName cur) w)"

fun is_convergence_failure :: "wait_error \<Rightarrow> bool" where
  "is_convergence_failure (ConvergenceFailed _ _) = True"
| "is_convergence_failure _ = False"

text \<open>The switch after a poll: \<open>Inl\<close> returns, \<open>Inr\<close> goes on to the select.\<close>

definition after_poll ::
    "poll_answer \<Rightarrow> string \<Rightarrow> bool \<times> wait_error list \<times> wait_state \<Rightarrow> (wait_error list \<times> wait_state) + wait_state" where
  "after_poll a stack r =
     (case r of (allReady, err, w) \<Rightarrow>
        if list_ex is_convergence_failure err
        then let w = w\<lparr>ws_terminalFailure := err\<rparr> in if allReady then Inl (err, w) else Inr w
        else if err \<noteq> []
        then case handleObservationError a stack err w of
               (waitErr, w) \<Rightarrow> if waitErr \<noteq> [] then Inl (ws_terminalFailure w @ waitErr, w) else Inr w
        else if allReady then Inl (ws_terminalFailure w, w)
        else Inr w)"

text \<open>\<open>None\<close>: still waiting when the answers run out.\<close>

fun wait_loop ::
    "spec_ops \<Rightarrow> wait_request \<Rightarrow> (string, stack_service) fmap \<Rightarrow> poll_answer list \<Rightarrow> wait_state \<Rightarrow>
     (wait_error list \<times> wait_state) option" where
  "wait_loop ops rq base [] w = None"
| "wait_loop ops rq base (a # as) w =
     (case after_poll a (wq_StackName rq) (poll ops rq a base w) of
        Inl r \<Rightarrow> Some r
      | Inr w \<Rightarrow>
          (case pa_Done a of
             Some err \<Rightarrow> Some (ws_terminalFailure w @ [WaitInterrupted (wq_StackName rq) err], failPending w)
           | None \<Rightarrow> wait_loop ops rq base as w))"

definition Wait :: "spec_ops \<Rightarrow> wait_request \<Rightarrow> poll_answer list \<Rightarrow> (wait_error list \<times> wait_state) option" where
  "Wait ops rq as =
     (let w = new_wait\<lparr>ws_targets := uniqueSortedNames (wq_ServiceNames rq)\<rparr>
      in if ws_targets w = [] then Some ([], w)
         else wait_loop ops rq (servicesByName (wq_Baseline rq)) as w)"

end
