(* ===== verification/Applier.thy ===== *)
theory Applier
  imports TaskFailure
begin

text \<open>
  The service applier (\<open>internal/modules/deployments/deployer/services/applier.go\<close>, \<open>replicas.go\<close>): it
  creates and updates the services of a stack and refreshes their registry credentials.

  Docker, the registry credentials and the callback that records an intended update are an environment:
  an answer depends on the call and on how many calls were made before, so other writers may interfere at
  every point. The calls are logged. An operation takes the state and returns an error or a value, and the
  state. Wrapped error texts are constructors.
\<close>

section \<open>Environment, state and errors\<close>

datatype docker_fault = ServiceNotFound | ServiceConflict | WriteRefused string | Unclear string

definition ServiceUpdateRejected :: "docker_fault \<Rightarrow> bool" where
  "ServiceUpdateRejected e \<longleftrightarrow> (case e of Unclear _ \<Rightarrow> False | _ \<Rightarrow> True)"

datatype block_reason = NeedsZeroReplicas | MissingSlot int | ActiveTask int | RemovedTask int | OlderGeneration int
  | TemplateMismatch int

datatype apply_error =
    ReplicasPolicy string policy_error
  | AuthFailed string docker_fault
  | InspectFailed string docker_fault
  | CreateFailed string docker_fault
  | IncompatibleIdentity string
  | NotOwned string string
  | TasksFailed string docker_fault
  | UpdateBlocked string block_reason
  | SafetyInspectionChanged
  | ContextDone
  | RecordFailed string docker_fault
  | UpdateFailedWith string docker_fault
  | RestoreFailed string docker_fault docker_fault
  | VersionConflict string

record update_options =
  uo_Auth :: string
  uo_QueryRegistry :: bool

datatype docker_call =
    CallInspect string
  | CallListTasks string
  | CallCreate service_spec string
  | CallUpdate string nat service_spec update_options
  | CallBeforeUpdate string update_generation
  | CallRestore string update_generation

record apply_env =
  en_Inspect :: "nat \<Rightarrow> string \<Rightarrow> docker_fault + docker_service"
  en_ListTasks :: "nat \<Rightarrow> string \<Rightarrow> docker_fault + service_task list"
  en_Create :: "nat \<Rightarrow> service_spec \<Rightarrow> docker_fault + string"
  en_Update :: "nat \<Rightarrow> string \<Rightarrow> nat \<Rightarrow> service_spec \<Rightarrow> docker_fault option"
  en_BeforeUpdate :: "nat \<Rightarrow> string \<Rightarrow> update_generation \<Rightarrow> docker_fault option"
  en_Restore :: "nat \<Rightarrow> string \<Rightarrow> update_generation \<Rightarrow> docker_fault option"
  en_ResolveImage :: "nat \<Rightarrow> string \<Rightarrow> docker_fault + string"
  en_AnonymousAuth :: "docker_fault + string"
  en_Sum256 :: "string \<Rightarrow> string"
  en_ContextDone :: "nat \<Rightarrow> bool"

record apply_state =
  as_Calls :: "docker_call list"
  as_Auth :: "(string, string) fmap"
  as_Generations :: "(string, update_generation) fmap"

type_synonym 'a apply_op = "apply_state \<Rightarrow> (apply_error + 'a) \<times> apply_state"

definition returning :: "'a \<Rightarrow> 'a apply_op" where
  "returning x s = (Inr x, s)"

definition failing :: "apply_error \<Rightarrow> 'a apply_op" where
  "failing e s = (Inl e, s)"

definition andThen :: "'a apply_op \<Rightarrow> ('a \<Rightarrow> 'b apply_op) \<Rightarrow> 'b apply_op" where
  "andThen m f s = (case m s of (Inl e, s) \<Rightarrow> (Inl e, s) | (Inr x, s) \<Rightarrow> f x s)"

definition calling :: "docker_call \<Rightarrow> (nat \<Rightarrow> 'a) \<Rightarrow> 'a apply_op" where
  "calling c answer s = (Inr (answer (length (as_Calls s))), s\<lparr>as_Calls := c # as_Calls s\<rparr>)"

definition generation_of :: "string \<Rightarrow> update_generation apply_op" where
  "generation_of name s =
     (Inr (case fmlookup (as_Generations s) name of
             None \<Rightarrow> \<lparr>gen_ServiceID = '''', gen_ForceUpdate = 0, gen_After = 0, gen_Mode = VerifyUnspecified,
                      gen_BeforeSpecDigest = '''', gen_TasksAfter = 0\<rparr>
           | Some g \<Rightarrow> g), s)"

definition set_generation :: "string \<Rightarrow> update_generation option \<Rightarrow> unit apply_op" where
  "set_generation name g s =
     (Inr (), s\<lparr>as_Generations := (case g of None \<Rightarrow> fmdrop name (as_Generations s) | Some g \<Rightarrow> fmupd name g (as_Generations s))\<rparr>)"

section \<open>Registry credentials\<close>

definition image_of :: "service_spec \<Rightarrow> string option" where
  "image_of spec = map_option con_Image (tt_ContainerSpec (sp_TaskTemplate spec))"

definition resolveAuth :: "apply_env \<Rightarrow> string \<Rightarrow> service_spec \<Rightarrow> string apply_op" where
  "resolveAuth env name spec s =
     (case image_of spec of
        None \<Rightarrow> (Inr '''', s)
      | Some i \<Rightarrow>
          (case en_ResolveImage env (length (as_Calls s)) i of Inl e \<Rightarrow> (Inl (AuthFailed name e), s) | Inr a \<Rightarrow> (Inr a, s)))"

definition authRefreshRequired :: "apply_env \<Rightarrow> string \<Rightarrow> string \<Rightarrow> apply_state \<Rightarrow> bool" where
  "authRefreshRequired env i auth s \<longleftrightarrow>
     (case fmlookup (as_Auth s) i of None \<Rightarrow> auth \<noteq> '''' | Some previous \<Rightarrow> previous \<noteq> en_Sum256 env auth)"

definition asking_auth :: "apply_env \<Rightarrow> string \<Rightarrow> string \<Rightarrow> bool apply_op" where
  "asking_auth env i auth s = (Inr (authRefreshRequired env i auth s), s)"

definition rememberAuth :: "apply_env \<Rightarrow> string \<Rightarrow> string \<Rightarrow> unit apply_op" where
  "rememberAuth env i auth s = (Inr (), s\<lparr>as_Auth := fmupd i (en_Sum256 env auth) (as_Auth s)\<rparr>)"

definition updateOptions :: "apply_env \<Rightarrow> string \<Rightarrow> string \<Rightarrow> service_spec \<Rightarrow> (string \<times> string) apply_op" where
  "updateOptions env name i spec =
     andThen (resolveAuth env name spec) (\<lambda>auth.
     andThen (asking_auth env i auth) (\<lambda>required.
       if auth = '''' \<and> required
       then (case en_AnonymousAuth env of Inl e \<Rightarrow> failing (AuthFailed name e) | Inr encoded \<Rightarrow> returning (encoded, auth))
       else returning (auth, auth)))"

definition currentReplicas :: "service_spec \<Rightarrow> 64 word option" where
  "currentReplicas spec = (case sm_Replicated (sp_Mode spec) of Some r \<Rightarrow> r | None \<Rightarrow> None)"

definition authOnlyUpdateSafe :: "service_spec \<Rightarrow> bool" where
  "authOnlyUpdateSafe spec \<longleftrightarrow>
     (if sm_ReplicatedJob (sp_Mode spec) \<noteq> None \<or> sm_GlobalJob (sp_Mode spec) then False
      else if currentReplicas spec = Some 0 then True
      else case tt_RestartPolicy (sp_TaskTemplate spec) of
             None \<Rightarrow> True
           | Some policy \<Rightarrow>
               if (case rp_MaxAttempts policy of None \<Rightarrow> False | Some n \<Rightarrow> 0 < n) then False
               else rp_Condition policy = '''' \<or> rp_Condition policy = ''any'')"

section \<open>Ownership and retries\<close>

definition StackNamespace :: string where
  "StackNamespace = ''com.docker.stack.namespace''"

definition validateOwnership :: "string \<Rightarrow> string \<Rightarrow> docker_service \<Rightarrow> unit apply_op" where
  "validateOwnership stack desiredName cur =
     (if ds_ID cur = '''' \<or> sp_Name (ds_Spec cur) \<noteq> desiredName then failing (IncompatibleIdentity desiredName)
      else if map_str (sp_Labels (ds_Spec cur)) StackNamespace \<noteq> stack then failing (NotOwned desiredName stack)
      else returning ())"

definition serviceName :: "string \<Rightarrow> string \<Rightarrow> string" where
  "serviceName stack fullName =
     (let prefix = stack @ ''_''
      in if length prefix < length fullName \<and> HasPrefix fullName prefix then drop (length prefix) fullName else fullName)"

definition failedUpdate :: "docker_service \<Rightarrow> bool" where
  "failedUpdate cur \<longleftrightarrow>
     (case ds_UpdateStatus cur of
        None \<Rightarrow> False
      | Some u \<Rightarrow> us_State u \<in> set [''failed'', ''paused'', ''rollback_started'', ''rollback_paused'', ''rollback_completed''])"

definition is_job :: "service_spec \<Rightarrow> bool" where
  "is_job spec \<longleftrightarrow> sm_ReplicatedJob (sp_Mode spec) \<noteq> None \<or> sm_GlobalJob (sp_Mode spec)"

definition retryRequired :: "spec_ops \<Rightarrow> apply_env \<Rightarrow> docker_service \<Rightarrow> bool \<Rightarrow> bool apply_op" where
  "retryRequired ops env cur enabled =
     (let spec = ds_Spec cur; job = is_job spec
      in if \<not> enabled then returning False
         else if \<not> job \<and> failedUpdate cur then returning True
         else if \<not> job \<and> (case ds_UpdateStatus cur of None \<Rightarrow> False | Some u \<Rightarrow> us_State u \<noteq> ''completed'') \<or>
                 job \<and> ds_JobIteration cur = None then returning False
         else case tt_RestartPolicy (sp_TaskTemplate spec) of
                None \<Rightarrow> returning False
              | Some policy \<Rightarrow>
                  if \<not> job \<and> rp_Condition policy \<noteq> ''none'' \<and> (rp_MaxAttempts policy = None \<or> rp_MaxAttempts policy = Some 0)
                  then returning False
                  else
                    andThen (calling (CallListTasks (ds_ID cur)) (\<lambda>n. en_ListTasks env n (ds_ID cur))) (\<lambda>answer.
                      case answer of
                        Inl e \<Rightarrow> failing (TasksFailed (sp_Name spec) e)
                      | Inr tasks \<Rightarrow>
                          if job then returning (JobTaskFailure spec (ds_JobIteration cur) tasks \<noteq> None)
                          else if sm_Replicated (sp_Mode spec) \<noteq> None \<and> rp_Condition policy = ''none''
                          then returning (NonRestartingTaskFailure spec tasks (ds_CreatedAt cur) \<noteq> None)
                          else returning (TerminalServiceTaskFailure ops spec tasks (ds_CreatedAt cur) \<noteq> None)))"

section \<open>Updates of externally scaled services\<close>

fun taskActive :: "task_state \<Rightarrow> bool" where
  "taskActive TaskStateComplete = False"
| "taskActive TaskStateShutdown = False"
| "taskActive TaskStateFailed = False"
| "taskActive TaskStateRejected = False"
| "taskActive TaskStateRemove = False"
| "taskActive TaskStateOrphaned = False"
| "taskActive _ = True"

definition taskRecreatingUpdate :: "spec_ops \<Rightarrow> service_spec \<Rightarrow> service_spec \<Rightarrow> bool" where
  "taskRecreatingUpdate ops cur desired \<longleftrightarrow>
     tt_ForceUpdate (sp_TaskTemplate cur) \<noteq> tt_ForceUpdate (sp_TaskTemplate desired) \<or>
     \<not> SpecsEqual ops (cur\<lparr>sp_Name := sp_Name desired, sp_Labels := sp_Labels desired,
                        sp_UpdateConfig := sp_UpdateConfig desired, sp_RollbackConfig := sp_RollbackConfig desired\<rparr>) desired"

definition restartDisabled :: "service_spec \<Rightarrow> bool" where
  "restartDisabled spec \<longleftrightarrow>
     (case tt_RestartPolicy (sp_TaskTemplate spec) of None \<Rightarrow> False | Some p \<Rightarrow> rp_Condition p = ''none'')"

definition olderForceUpdateOnly :: "task_template \<Rightarrow> task_template \<Rightarrow> bool" where
  "olderForceUpdateOnly value template \<longleftrightarrow>
     (let t = normalizeTaskSpec template
      in tt_ForceUpdate value < tt_ForceUpdate t \<and> value\<lparr>tt_ForceUpdate := tt_ForceUpdate t\<rparr> = t)"

datatype settlement = Settled | Unsettled block_reason

definition is_mismatch :: "settlement \<Rightarrow> bool" where
  "is_mismatch st \<longleftrightarrow> (case st of Unsettled (TemplateMismatch _) \<Rightarrow> True | Unsettled (OlderGeneration _) \<Rightarrow> True | _ \<Rightarrow> False)"

definition active_task :: "service_task list \<Rightarrow> settlement" where
  "active_task tasks =
     (case find (\<lambda>t. taskActive (st_CurrentState t)) tasks of None \<Rightarrow> Settled | Some t \<Rightarrow> Unsettled (ActiveTask (st_Slot t)))"

text \<open>The loop over the slots; \<open>acc\<close> is the mismatch of an older generation seen so far.\<close>

fun settle_slots :: "task_template \<Rightarrow> service_task list \<Rightarrow> settlement \<Rightarrow> int list \<Rightarrow> settlement" where
  "settle_slots template tasks acc [] = acc"
| "settle_slots template tasks acc (slot # slots) =
     (case newest_in_slot tasks slot of
        None \<Rightarrow> Unsettled (MissingSlot slot)
      | Some t \<Rightarrow>
          if st_DesiredState t = TaskStateRemove then Unsettled (RemovedTask slot)
          else if CompareServiceTemplate (st_Spec t) template = TemplatesEqual then settle_slots template tasks acc slots
          else if \<not> olderForceUpdateOnly (st_Spec t) template then Unsettled (TemplateMismatch slot)
          else settle_slots template tasks (Unsettled (OlderGeneration slot)) slots)"

definition slots_of :: "64 word \<Rightarrow> int list" where
  "slots_of replicas = map int [1..<unat replicas + 1]"

definition executionSettled :: "task_template \<Rightarrow> 64 word \<Rightarrow> service_task list \<Rightarrow> settlement" where
  "executionSettled template replicas tasks =
     (case active_task tasks of
        Unsettled r \<Rightarrow> Unsettled r | Settled \<Rightarrow> settle_slots template tasks Settled (slots_of replicas))"

definition templateMismatchRechecks :: nat where
  "templateMismatchRechecks = 3"

text \<open>\<open>left\<close> is the number of task listings that may still follow.\<close>

fun recheckTemplateMismatch :: "apply_env \<Rightarrow> string \<Rightarrow> docker_service \<Rightarrow> 64 word \<Rightarrow> nat \<Rightarrow> settlement \<Rightarrow> settlement apply_op" where
  "recheckTemplateMismatch env name cur replicas left st =
     andThen (calling (CallInspect (ds_ID cur)) (\<lambda>n. en_Inspect env n (ds_ID cur))) (\<lambda>answer.
       case answer of
         Inl e \<Rightarrow> failing (InspectFailed name e)
       | Inr again \<Rightarrow>
           if ds_ID again \<noteq> ds_ID cur \<or> ds_Version again \<noteq> ds_Version cur then failing SafetyInspectionChanged
           else if \<not> is_mismatch st then returning st
           else case left of
                  0 \<Rightarrow> returning st
                | Suc k \<Rightarrow>
                    andThen (\<lambda>s. (Inr (en_ContextDone env (length (as_Calls s))), s)) (\<lambda>ended.
                      if ended then failing ContextDone
                      else
                        andThen (calling (CallListTasks (ds_ID cur)) (\<lambda>n. en_ListTasks env n (ds_ID cur))) (\<lambda>answer.
                          case answer of
                            Inl e \<Rightarrow> failing (TasksFailed name e)
                          | Inr tasks \<Rightarrow>
                              recheckTemplateMismatch env name cur replicas k
                                (executionSettled (sp_TaskTemplate (ds_Spec cur)) replicas tasks))))"

definition parking :: "service_spec \<Rightarrow> service_spec \<Rightarrow> bool" where
  "parking cur desired \<longleftrightarrow>
     (case currentReplicas cur of None \<Rightarrow> False | Some n \<Rightarrow> n \<noteq> 0 \<and> restartDisabled cur \<and> sm_Replicated (sp_Mode desired) \<noteq> None)"

definition checkUpdateSafety :: "spec_ops \<Rightarrow> apply_env \<Rightarrow> string \<Rightarrow> docker_service \<Rightarrow> service_spec \<Rightarrow> service_spec apply_op" where
  "checkUpdateSafety ops env name cur desired =
     (if \<not> taskRecreatingUpdate ops (ds_Spec cur) desired then returning desired
      else
        let park = parking (ds_Spec cur) desired;
            replicas = (case currentReplicas (ds_Spec cur) of None \<Rightarrow> 0 | Some n \<Rightarrow> n)
        in if currentReplicas (ds_Spec cur) = None \<or> replicas \<noteq> 0 \<and> \<not> park then failing (UpdateBlocked name NeedsZeroReplicas)
           else
             andThen (calling (CallListTasks (ds_ID cur)) (\<lambda>n. en_ListTasks env n (ds_ID cur))) (\<lambda>answer.
               case answer of
                 Inl e \<Rightarrow> failing (TasksFailed name e)
               | Inr tasks \<Rightarrow>
                   let st = (if park then executionSettled (sp_TaskTemplate (ds_Spec cur)) replicas tasks else active_task tasks)
                   in andThen (if is_mismatch st then recheckTemplateMismatch env name cur replicas templateMismatchRechecks st
                               else returning st) (\<lambda>st.
                        case st of
                          Unsettled r \<Rightarrow> failing (UpdateBlocked name r)
                        | Settled \<Rightarrow> returning (if park then set_replicas (Some (Some 0)) desired else desired))))"

fun busy :: "block_reason \<Rightarrow> bool" where
  "busy NeedsZeroReplicas = False"
| "busy (TemplateMismatch _) = False"
| "busy _ = True"

section \<open>Updating a service\<close>

record apply_options =
  ao_RetryFailedUpdates :: bool
  ao_RecordsUpdates :: bool

definition managed_replicas :: "service_spec \<Rightarrow> bool" where
  "managed_replicas spec = (case ReplicasManaged spec of Inl _ \<Rightarrow> False | Inr m \<Rightarrow> m)"

definition prepareUpdate ::
    "spec_ops \<Rightarrow> apply_env \<Rightarrow> string \<Rightarrow> service_spec \<Rightarrow> docker_service \<Rightarrow> bool \<Rightarrow> (service_spec \<times> bool) apply_op" where
  "prepareUpdate ops env name desired cur retryFailed =
     andThen (retryRequired ops env cur (retryFailed \<and> managed_replicas desired)) (\<lambda>retry.
       let force = tt_ForceUpdate (sp_TaskTemplate (ds_Spec cur))
       in if \<not> retry \<and> SpecsEqual ops (ds_Spec cur) desired then returning (ds_Spec cur, True)
          else
            let applied = set_force_update (if retry then force + 1 else force) desired;
                (applied, reused) = normalizeImageResolution ops (ds_Spec cur) applied
            in if managed_replicas desired then returning (applied, reused)
               else andThen (checkUpdateSafety ops env name cur (preserveReplicas (ds_Spec cur) applied)) (\<lambda>applied.
                      returning (applied, reused)))"

definition recording :: "apply_env \<Rightarrow> apply_options \<Rightarrow> string \<Rightarrow> update_generation \<Rightarrow> unit apply_op" where
  "recording env options name g =
     (if \<not> ao_RecordsUpdates options then returning ()
      else andThen (calling (CallBeforeUpdate name g) (\<lambda>n. en_BeforeUpdate env n name g)) (\<lambda>answer.
             case answer of None \<Rightarrow> returning () | Some e \<Rightarrow> failing (RecordFailed name e)))"

definition refreshConcurrentUpdate ::
    "spec_ops \<Rightarrow> apply_env \<Rightarrow> string \<Rightarrow> string \<Rightarrow> service_spec \<Rightarrow> gotime \<Rightarrow> apply_options \<Rightarrow> (docker_service \<times> bool) apply_op" where
  "refreshConcurrentUpdate ops env stack name desired after options =
     andThen (calling (CallInspect (sp_Name desired)) (\<lambda>n. en_Inspect env n (sp_Name desired))) (\<lambda>answer.
       case answer of
         Inl e \<Rightarrow> failing (InspectFailed name e)
       | Inr cur \<Rightarrow>
           andThen (validateOwnership stack (sp_Name desired) cur) (\<lambda>_.
           andThen (retryRequired ops env cur (ao_RetryFailedUpdates options)) (\<lambda>retry.
           andThen (if authOnlyUpdateSafe (ds_Spec cur)
                    then andThen (resolveAuth env name desired) (asking_auth env (ds_ID cur)) else returning False) (\<lambda>authPending.
             if SpecsEqual ops (ds_Spec cur) desired \<and> \<not> retry \<and> \<not> authPending
             then
               andThen (generation_of name) (\<lambda>previous.
                 let before = cur\<lparr>ds_UpdatedAt := after,
                                  ds_Spec := (case ds_PreviousSpec cur of None \<Rightarrow> ds_Spec cur | Some p \<Rightarrow> p)\<rparr>;
                     g = updateGeneration ops (ds_Spec cur) before previous
                 in andThen (recording env options name g) (\<lambda>_.
                    andThen (set_generation name (Some g)) (\<lambda>_. returning (cur, True))))
             else returning (cur, False)))))"

text \<open>After a definite refusal the recorded intent is taken back.\<close>

definition restore_generation ::
    "apply_env \<Rightarrow> apply_options \<Rightarrow> string \<Rightarrow> update_generation \<Rightarrow> update_generation \<Rightarrow> docker_fault \<Rightarrow> unit apply_op" where
  "restore_generation env options name g previous e =
     (if \<not> ServiceUpdateRejected e then returning ()
      else
        andThen (if \<not> ao_RecordsUpdates options then returning None
                 else calling (CallRestore name g) (\<lambda>n. en_Restore env n name g)) (\<lambda>restored.
          case restored of
            None \<Rightarrow> set_generation name (if gen_ServiceID previous = '''' then None else Some previous)
          | Some x \<Rightarrow> failing (RestoreFailed name e x)))"

definition write_update ::
    "spec_ops \<Rightarrow> apply_env \<Rightarrow> string \<Rightarrow> string \<Rightarrow> service_spec \<Rightarrow> docker_service \<Rightarrow> apply_options \<Rightarrow> service_spec \<Rightarrow> bool \<Rightarrow>
     (docker_service \<times> bool) apply_op" where
  "write_update ops env stack name desired cur options applied reused =
     andThen (updateOptions env name (ds_ID cur) applied) (\<lambda>(encoded, auth).
     andThen (generation_of name) (\<lambda>previous.
       let g = updateGeneration ops applied cur previous
       in andThen (recording env options name g) (\<lambda>_.
          andThen (set_generation name (Some g)) (\<lambda>_.
          andThen (calling (CallUpdate (ds_ID cur) (ds_Version cur) applied \<lparr>uo_Auth = encoded, uo_QueryRegistry = \<not> reused\<rparr>)
                     (\<lambda>n. en_Update env n (ds_ID cur) (ds_Version cur) applied)) (\<lambda>answer.
            case answer of
              None \<Rightarrow> andThen (rememberAuth env (ds_ID cur) auth) (\<lambda>_. returning (cur, True))
            | Some e \<Rightarrow>
                andThen (restore_generation env options name g previous e) (\<lambda>_.
                  if e \<noteq> ServiceConflict then failing (UpdateFailedWith name e)
                  else refreshConcurrentUpdate ops env stack name desired (ds_UpdatedAt cur) options))))))"

definition updateAttempt ::
    "spec_ops \<Rightarrow> apply_env \<Rightarrow> string \<Rightarrow> string \<Rightarrow> service_spec \<Rightarrow> docker_service \<Rightarrow> apply_options \<Rightarrow> (docker_service \<times> bool) apply_op" where
  "updateAttempt ops env stack name desired cur options s =
     (case prepareUpdate ops env name desired cur (ao_RetryFailedUpdates options) s of
        (Inl e, s) \<Rightarrow>
          if e = SafetyInspectionChanged
          then refreshConcurrentUpdate ops env stack name desired (ds_UpdatedAt cur) options s else (Inl e, s)
      | (Inr (applied, reused), s) \<Rightarrow> write_update ops env stack name desired cur options applied reused s)"

definition serviceUpdateAttempts :: nat where
  "serviceUpdateAttempts = 3"

fun update_service ::
    "spec_ops \<Rightarrow> apply_env \<Rightarrow> string \<Rightarrow> string \<Rightarrow> service_spec \<Rightarrow> docker_service \<Rightarrow> apply_options \<Rightarrow> nat \<Rightarrow> unit apply_op" where
  "update_service ops env stack name desired cur options 0 = failing (VersionConflict name)"
| "update_service ops env stack name desired cur options (Suc k) =
     andThen (updateAttempt ops env stack name desired cur options) (\<lambda>(refreshed, final).
       if final then returning () else update_service ops env stack name desired refreshed options k)"

section \<open>Applying a stack\<close>

definition updateRequired :: "spec_ops \<Rightarrow> apply_env \<Rightarrow> string \<Rightarrow> service_spec \<Rightarrow> docker_service \<Rightarrow> bool \<Rightarrow> bool apply_op" where
  "updateRequired ops env name desired cur retryFailed =
     (if \<not> SpecsEqual ops (ds_Spec cur) desired then returning True
      else andThen (retryRequired ops env cur retryFailed) (\<lambda>retry.
             if retry then returning True
             else if \<not> authOnlyUpdateSafe (ds_Spec cur) then returning False
             else andThen (resolveAuth env name desired) (asking_auth env (ds_ID cur))))"

definition inspectOrCreate :: "apply_env \<Rightarrow> string \<Rightarrow> string \<Rightarrow> service_spec \<Rightarrow> (docker_service \<times> bool) apply_op" where
  "inspectOrCreate env stack name desired =
     (let inspecting = calling (CallInspect (sp_Name desired)) (\<lambda>n. en_Inspect env n (sp_Name desired));
          existing = (\<lambda>answer. case answer of
             Inl e \<Rightarrow> failing (InspectFailed name e)
           | Inr cur \<Rightarrow> andThen (validateOwnership stack (sp_Name desired) cur) (\<lambda>_. returning (cur, False)))
      in andThen inspecting (\<lambda>answer.
           if answer \<noteq> Inl ServiceNotFound then existing answer
           else
             andThen (resolveAuth env name desired) (\<lambda>auth.
             andThen (calling (CallCreate desired auth) (\<lambda>n. en_Create env n desired)) (\<lambda>answer.
               case answer of
                 Inr i \<Rightarrow>
                   andThen (rememberAuth env i auth) (\<lambda>_.
                     returning (\<lparr>ds_ID = i, ds_Version = 0, ds_CreatedAt = 0, ds_UpdatedAt = 0, ds_Spec = desired,
                                 ds_PreviousSpec = None, ds_UpdateStatus = None, ds_JobIteration = None\<rparr>, True))
               | Inl e \<Rightarrow>
                   if e \<noteq> ServiceConflict then failing (CreateFailed name e) else andThen inspecting existing))))"

definition apply_service ::
    "spec_ops \<Rightarrow> apply_env \<Rightarrow> string \<Rightarrow> service_spec \<Rightarrow> apply_options \<Rightarrow> bool apply_op" where
  "apply_service ops env stack desired options =
     (let name = serviceName stack (sp_Name desired)
      in case ReplicasManaged desired of
           Inl e \<Rightarrow> failing (ReplicasPolicy name e)
         | Inr managed \<Rightarrow>
             andThen (inspectOrCreate env stack name desired) (\<lambda>(cur, created).
               if created
               then andThen (set_generation name (Some (updateGeneration ops desired cur
                      \<lparr>gen_ServiceID = '''', gen_ForceUpdate = 0, gen_After = 0, gen_Mode = VerifyUnspecified,
                       gen_BeforeSpecDigest = '''', gen_TasksAfter = 0\<rparr>))) (\<lambda>_. returning True)
               else
                 let options = options\<lparr>ao_RetryFailedUpdates := ao_RetryFailedUpdates options \<and> managed\<rparr>
                 in andThen (updateRequired ops env name desired cur (ao_RetryFailedUpdates options)) (\<lambda>required.
                      if \<not> required then returning False
                      else andThen (update_service ops env stack name desired cur options serviceUpdateAttempts) (\<lambda>_.
                             returning True))))"

datatype apply_outcome = Applied | Deferred "apply_error list" | ApplyFailed "apply_error list"

definition blockedApplyError :: "apply_error list \<Rightarrow> apply_outcome" where
  "blockedApplyError blocked =
     (if blocked = [] then Applied
      else if list_all (\<lambda>e. case e of UpdateBlocked _ r \<Rightarrow> busy r | _ \<Rightarrow> False) blocked then Deferred blocked
      else ApplyFailed blocked)"

fun apply_all ::
    "spec_ops \<Rightarrow> apply_env \<Rightarrow> string \<Rightarrow> apply_options \<Rightarrow> service_spec list \<Rightarrow> string list \<Rightarrow> apply_error list \<Rightarrow> apply_state \<Rightarrow>
     apply_outcome \<times> string list \<times> apply_state" where
  "apply_all ops env stack options [] changed blocked s = (blockedApplyError blocked, changed, s)"
| "apply_all ops env stack options (spec # specs) changed blocked s =
     (case apply_service ops env stack spec options s of
        (Inl (UpdateBlocked n r), s) \<Rightarrow> apply_all ops env stack options specs changed (blocked @ [UpdateBlocked n r]) s
      | (Inl e, s) \<Rightarrow> (ApplyFailed (blocked @ [e]), changed, s)
      | (Inr c, s) \<Rightarrow>
          apply_all ops env stack options specs
            (if c then changed @ [serviceName stack (sp_Name spec)] else changed) blocked s)"

definition Apply ::
    "spec_ops \<Rightarrow> apply_env \<Rightarrow> string \<Rightarrow> service_spec list \<Rightarrow> apply_options \<Rightarrow> apply_state \<Rightarrow> apply_outcome \<times> string list \<times> apply_state" where
  "Apply ops env stack specs options s = apply_all ops env stack options (sort_key sp_Name specs) [] [] s"

section \<open>Refreshing credentials\<close>

definition registryAuthRefreshAllowed :: "spec_ops \<Rightarrow> docker_service \<Rightarrow> service_spec \<Rightarrow> bool" where
  "registryAuthRefreshAllowed ops cur expected \<longleftrightarrow>
     (case ds_UpdateStatus cur of None \<Rightarrow> True | Some u \<Rightarrow> us_State u = ''completed'') \<and>
     authOnlyUpdateSafe (ds_Spec cur) \<and> SpecsEqual ops (ds_Spec cur) expected"

fun refreshRegistryAuth :: "spec_ops \<Rightarrow> apply_env \<Rightarrow> string \<Rightarrow> service_spec \<Rightarrow> nat \<Rightarrow> unit apply_op" where
  "refreshRegistryAuth ops env stack expected 0 = failing (VersionConflict (serviceName stack (sp_Name expected)))"
| "refreshRegistryAuth ops env stack expected (Suc k) =
     (let name = serviceName stack (sp_Name expected)
      in andThen (calling (CallInspect (sp_Name expected)) (\<lambda>n. en_Inspect env n (sp_Name expected))) (\<lambda>answer.
           case answer of
             Inl e \<Rightarrow> if e = ServiceNotFound then returning () else failing (InspectFailed name e)
           | Inr cur \<Rightarrow>
               andThen (validateOwnership stack (sp_Name expected) cur) (\<lambda>_.
                 if \<not> registryAuthRefreshAllowed ops cur expected then returning ()
                 else
                   andThen (updateOptions env name (ds_ID cur) (ds_Spec cur)) (\<lambda>(encoded, auth).
                   andThen (asking_auth env (ds_ID cur) auth) (\<lambda>required.
                     if \<not> required then returning ()
                     else
                       andThen (calling (CallUpdate (ds_ID cur) (ds_Version cur) (ds_Spec cur)
                                   \<lparr>uo_Auth = encoded, uo_QueryRegistry = False\<rparr>)
                                  (\<lambda>n. en_Update env n (ds_ID cur) (ds_Version cur) (ds_Spec cur))) (\<lambda>answer.
                         case answer of
                           None \<Rightarrow> rememberAuth env (ds_ID cur) auth
                         | Some e \<Rightarrow>
                             if e \<noteq> ServiceConflict then failing (UpdateFailedWith name e)
                             else refreshRegistryAuth ops env stack expected k))))))"

fun refresh_all :: "spec_ops \<Rightarrow> apply_env \<Rightarrow> string \<Rightarrow> service_spec list \<Rightarrow> apply_error list \<Rightarrow> apply_state \<Rightarrow> apply_error list \<times> apply_state" where
  "refresh_all ops env stack [] errs s = (errs, s)"
| "refresh_all ops env stack (spec # specs) errs s =
     (case refreshRegistryAuth ops env stack spec serviceUpdateAttempts s of
        (Inl e, s) \<Rightarrow> refresh_all ops env stack specs (errs @ [e]) s
      | (Inr _, s) \<Rightarrow> refresh_all ops env stack specs errs s)"

definition RefreshRegistryAuth ::
    "spec_ops \<Rightarrow> apply_env \<Rightarrow> string \<Rightarrow> service_spec list \<Rightarrow> apply_state \<Rightarrow> apply_error list \<times> apply_state" where
  "RefreshRegistryAuth ops env stack specs s = refresh_all ops env stack (sort_key sp_Name specs) [] s"

end
