(* ===== verification/StackResources.thy ===== *)
theory StackResources
  imports Applier
begin

text \<open>
  What a deployment needs before its services: the networks of the Compose file
  (\<open>internal/modules/deployments/deployer/networks/reconciler.go\<close>), the plaintext of its secrets
  (\<open>deployer/secrets/resolver.go\<close>), and its configs and secrets (\<open>deployer/resources/reconciler.go\<close>).

  Docker is an environment whose answers may depend on the number of calls made before; the calls are
  logged, the latest first. Byte contents are strings, drivers and network settings are opaque.
\<close>

section \<open>Environment\<close>

record planned_network =
  pn_Alias :: string
  pn_ID :: string
  pn_External :: bool
  pn_Name :: string
  pn_Settings :: string

record docker_network =
  dn_ID :: string
  dn_Name :: string
  dn_Scope :: string
  dn_Labels :: "(string, string) fmap"

record compose_config =
  cc_Name :: string
  cc_External :: bool
  cc_Labels :: "(string, string) fmap"
  cc_Data :: string
  cc_TemplateDriver :: string

record compose_secret =
  cs_Name :: string
  cs_File :: string
  cs_Data :: "string option"
  cs_Driver :: string
  cs_DriverOpts :: "(string, string) fmap"
  cs_TemplateDriver :: string
  cs_External :: bool
  cs_Labels :: "(string, string) fmap"

record docker_config =
  dc_ID :: string
  dc_Name :: string

record docker_secret =
  dx_ID :: string
  dx_Name :: string
  dx_Labels :: "(string, string) fmap"

record secret_request =
  sq_Name :: string
  sq_Labels :: "(string, string) fmap"
  sq_Data :: string
  sq_Driver :: string
  sq_DriverOptions :: "(string, string) fmap"
  sq_TemplateDriver :: string

record config_request =
  fq_Name :: string
  fq_Labels :: "(string, string) fmap"
  fq_Data :: string
  fq_TemplateDriver :: string

datatype resource_call =
    NetworkGet string
  | NetworkCreate planned_network
  | ConfigList "string list"
  | ConfigCreate config_request
  | SecretList "string list"
  | SecretUpdateLabels string "(string, string) fmap"
  | SecretCreate secret_request

datatype network_fault = NetworkNotFound | NetworkFault string

record resource_env =
  rv_GetNetwork :: "nat \<Rightarrow> string \<Rightarrow> network_fault + docker_network"
  rv_CreateNetwork :: "nat \<Rightarrow> planned_network \<Rightarrow> string option"
  rv_ContextDone :: "nat \<Rightarrow> string option"
  rv_ListConfigs :: "nat \<Rightarrow> string list \<Rightarrow> string + docker_config list"
  rv_CreateConfig :: "nat \<Rightarrow> config_request \<Rightarrow> string + string"
  rv_ListSecrets :: "nat \<Rightarrow> string list \<Rightarrow> string + docker_secret list"
  rv_CreateSecret :: "nat \<Rightarrow> secret_request \<Rightarrow> string + string"
  rv_UpdateSecretLabels :: "nat \<Rightarrow> string \<Rightarrow> (string, string) fmap \<Rightarrow> string option"

datatype resource_error =
    NetworkMismatch string
  | NetworkNotOwned string string
  | NetworkInspectFailed string string
  | ExternalNetworkMissing string
  | NetworkNotCreated string string
  | NetworkWaitEnded string string
  | NetworkInvalid string "resource_error option"
  | InNetwork string resource_error
  | SecretFile string string
  | ListConfigsFailed string
  | ExternalConfigMissing string
  | CreateConfigFailed string string
  | ListSecretsFailed string
  | SecretConflict string string
  | UpdateSecretFailed string
  | ExternalSecretMissing string
  | CreateSecretFailed string

type_synonym call_log = "resource_call list"

section \<open>Networks\<close>

definition createdNetworkInspectAttempts :: nat where
  "createdNetworkInspectAttempts = 40"

definition ServiceNetworkScope :: "string \<Rightarrow> string \<Rightarrow> bool \<Rightarrow> bool" where
  "ServiceNetworkScope name scope external \<longleftrightarrow>
     scope = ''swarm'' \<or> external \<and> scope = ''local'' \<and> (name = ''host'' \<or> name = ''none'')"

definition validateNetwork :: "string \<Rightarrow> planned_network \<Rightarrow> docker_network \<Rightarrow> resource_error option" where
  "validateNetwork stack desired cur =
     (if dn_ID cur = '''' \<or> dn_Name cur \<noteq> pn_Name desired \<or>
         \<not> ServiceNetworkScope (dn_Name cur) (dn_Scope cur) (pn_External desired)
      then Some (NetworkMismatch (pn_Name desired))
      else if pn_External desired then None
      else if map_str (dn_Labels cur) StackNamespace \<noteq> stack then Some (NetworkNotOwned (pn_Name desired) stack)
      else None)"

definition fault_text :: "network_fault \<Rightarrow> string" where
  "fault_text e = (case e of NetworkNotFound \<Rightarrow> ''network not found'' | NetworkFault t \<Rightarrow> t)"

text \<open>The loop over the remaining inspections of a network just created, with the last error.\<close>

fun waitForCreatedNetwork ::
    "resource_env \<Rightarrow> string \<Rightarrow> planned_network \<Rightarrow> nat \<Rightarrow> resource_error option \<Rightarrow> call_log \<Rightarrow> resource_error option \<times> call_log" where
  "waitForCreatedNetwork env stack desired 0 lastErr log = (Some (NetworkInvalid (pn_Name desired) lastErr), log)"
| "waitForCreatedNetwork env stack desired (Suc k) lastErr log =
     (let err = (case rv_GetNetwork env (length log) (pn_Name desired) of
                   Inl e \<Rightarrow> Some (NetworkInspectFailed (pn_Name desired) (fault_text e))
                 | Inr cur \<Rightarrow> validateNetwork stack desired cur);
          log = NetworkGet (pn_Name desired) # log
      in if err = None then (None, log)
         else if k = 0 then waitForCreatedNetwork env stack desired k err log
         else (case rv_ContextDone env (length log) of
                 Some c \<Rightarrow> (Some (NetworkWaitEnded (pn_Name desired) c), log)
               | None \<Rightarrow> waitForCreatedNetwork env stack desired k err log))"

definition reconcile_network ::
    "resource_env \<Rightarrow> string \<Rightarrow> planned_network \<Rightarrow> call_log \<Rightarrow> resource_error option \<times> call_log" where
  "reconcile_network env stack desired log =
     (let log1 = NetworkGet (pn_Name desired) # log
      in case rv_GetNetwork env (length log) (pn_Name desired) of
           Inr cur \<Rightarrow> (validateNetwork stack desired cur, log1)
         | Inl (NetworkFault e) \<Rightarrow> (Some (NetworkInspectFailed (pn_Name desired) e), log1)
         | Inl NetworkNotFound \<Rightarrow>
             if pn_External desired then (Some (ExternalNetworkMissing (pn_Name desired)), log1)
             else
               let log2 = NetworkCreate desired # log1
               in case rv_CreateNetwork env (length log1) desired of
                    None \<Rightarrow> waitForCreatedNetwork env stack desired createdNetworkInspectAttempts None log2
                  | Some createErr \<Rightarrow>
                      let log3 = NetworkGet (pn_Name desired) # log2
                      in (case rv_GetNetwork env (length log2) (pn_Name desired) of
                            Inr cur \<Rightarrow> (validateNetwork stack desired cur, log3)
                          | Inl _ \<Rightarrow> (Some (NetworkNotCreated (pn_Name desired) createErr), log3)))"

fun ReconcileNetworks ::
    "resource_env \<Rightarrow> string \<Rightarrow> planned_network list \<Rightarrow> call_log \<Rightarrow> resource_error option \<times> call_log" where
  "ReconcileNetworks env stack [] log = (None, log)"
| "ReconcileNetworks env stack (n # ns) log =
     (case reconcile_network env stack n log of
        (Some e, log) \<Rightarrow> (Some (InNetwork (pn_Alias n) e), log)
      | (None, log) \<Rightarrow> ReconcileNetworks env stack ns log)"

section \<open>Secret contents\<close>

definition dockerSecretName :: "string \<Rightarrow> string \<Rightarrow> compose_secret \<Rightarrow> string" where
  "dockerSecretName stack alias obj =
     (if cs_Name obj \<noteq> '''' then cs_Name obj else if cs_External obj then alias else stack @ ''_'' @ alias)"

text \<open>A decoder recognizes a source path, which is the file joined to the Compose path, and decodes.\<close>

record secret_decoder =
  sd_Matches :: "string \<Rightarrow> string \<Rightarrow> bool"
  sd_Decode :: "string \<Rightarrow> string + string"

definition resolveFile :: "secret_decoder list \<Rightarrow> string \<Rightarrow> compose_secret \<Rightarrow> string + string" where
  "resolveFile decoders composePath obj =
     (if cs_Driver obj \<noteq> '''' then Inl ''cannot combine a secret file with an external driver''
      else if cs_File obj = '''' then Inl ''file is required''
      else case cs_Data obj of
             None \<Rightarrow> Inl ''file content was not loaded''
           | Some content \<Rightarrow>
               (case find (\<lambda>d. sd_Matches d composePath (cs_File obj)) decoders of
                  Some d \<Rightarrow> sd_Decode d content
                | None \<Rightarrow> Inl ''no decoder for secret file''))"

definition has_payload :: "compose_secret \<Rightarrow> bool" where
  "has_payload obj \<longleftrightarrow> \<not> cs_External obj \<and> \<not> (cs_Driver obj \<noteq> '''' \<and> cs_File obj = '''')"

fun resolve_aliases ::
    "secret_decoder list \<Rightarrow> string \<Rightarrow> string \<Rightarrow> (string \<times> compose_secret) list \<Rightarrow> (string, string) fmap \<Rightarrow>
     resource_error + (string, string) fmap" where
  "resolve_aliases decoders stack path [] resolved = Inr resolved"
| "resolve_aliases decoders stack path ((alias, obj) # rest) resolved =
     (if \<not> has_payload obj then resolve_aliases decoders stack path rest resolved
      else case resolveFile decoders path obj of
             Inl e \<Rightarrow> Inl (SecretFile (dockerSecretName stack alias obj) e)
           | Inr content \<Rightarrow> resolve_aliases decoders stack path rest (fmupd alias content resolved))"

definition sorted_objects :: "(string, 'a) fmap \<Rightarrow> (string \<times> 'a) list" where
  "sorted_objects m = map (\<lambda>k. (k, the (fmlookup m k))) (sorted_keys m)"

definition ResolveSecrets ::
    "secret_decoder list \<Rightarrow> string \<Rightarrow> string \<Rightarrow> (string, compose_secret) fmap \<Rightarrow> resource_error + (string, string) fmap" where
  "ResolveSecrets decoders stack path objects = resolve_aliases decoders stack path (sorted_objects objects) fmempty"

section \<open>Configs and secrets\<close>

record resolved_resource =
  rr_ID :: string
  rr_Name :: string

definition resourceLabels :: "string \<Rightarrow> (string, string) fmap \<Rightarrow> (string, string) fmap" where
  "resourceLabels stack labels = fmupd StackNamespace stack labels"

definition dockerConfigName :: "string \<Rightarrow> string \<Rightarrow> compose_config \<Rightarrow> string" where
  "dockerConfigName stack alias obj =
     (if cc_Name obj \<noteq> '''' then cc_Name obj else if cc_External obj then alias else stack @ ''_'' @ alias)"

definition configNames :: "string \<Rightarrow> (string, compose_config) fmap \<Rightarrow> string list" where
  "configNames stack objects = map (\<lambda>(alias, obj). dockerConfigName stack alias obj) (sorted_objects objects)"

definition secretNames :: "string \<Rightarrow> (string, compose_secret) fmap \<Rightarrow> string list" where
  "secretNames stack objects = map (\<lambda>(alias, obj). dockerSecretName stack alias obj) (sorted_objects objects)"

definition configsByName :: "docker_config list \<Rightarrow> (string, docker_config) fmap" where
  "configsByName cs = fold (\<lambda>c m. fmupd (dc_Name c) c m) cs fmempty"

definition secretsByName :: "docker_secret list \<Rightarrow> (string, docker_secret) fmap" where
  "secretsByName ss = fold (\<lambda>s m. fmupd (dx_Name s) s m) ss fmempty"

fun config_loop ::
    "resource_env \<Rightarrow> string \<Rightarrow> (string \<times> compose_config) list \<Rightarrow> (string, docker_config) fmap \<Rightarrow>
     (string, resolved_resource) fmap \<Rightarrow> call_log \<Rightarrow> (resource_error + (string, resolved_resource) fmap) \<times> call_log" where
  "config_loop env stack [] existing resolved log = (Inr resolved, log)"
| "config_loop env stack ((alias, obj) # rest) existing resolved log =
     (let name = dockerConfigName stack alias obj
      in case fmlookup existing name of
           Some cfg \<Rightarrow> config_loop env stack rest existing (fmupd alias \<lparr>rr_ID = dc_ID cfg, rr_Name = dc_Name cfg\<rparr> resolved) log
         | None \<Rightarrow>
             if cc_External obj then (Inl (ExternalConfigMissing name), log)
             else
               let rq = \<lparr>fq_Name = name, fq_Labels = resourceLabels stack (cc_Labels obj), fq_Data = cc_Data obj,
                         fq_TemplateDriver = cc_TemplateDriver obj\<rparr>
               in case rv_CreateConfig env (length log) rq of
                    Inl e \<Rightarrow> (Inl (CreateConfigFailed name e), ConfigCreate rq # log)
                  | Inr i \<Rightarrow> config_loop env stack rest (fmupd name \<lparr>dc_ID = i, dc_Name = name\<rparr> existing)
                               (fmupd alias \<lparr>rr_ID = i, rr_Name = name\<rparr> resolved) (ConfigCreate rq # log))"

definition reconcileConfigs ::
    "resource_env \<Rightarrow> string \<Rightarrow> (string, compose_config) fmap \<Rightarrow> call_log \<Rightarrow>
     (resource_error + (string, resolved_resource) fmap) \<times> call_log" where
  "reconcileConfigs env stack objects log =
     (if sorted_objects objects = [] then (Inr fmempty, log)
      else
        let names = configNames stack objects
        in case rv_ListConfigs env (length log) names of
             Inl e \<Rightarrow> (Inl (ListConfigsFailed e), ConfigList names # log)
           | Inr listed \<Rightarrow>
               config_loop env stack (sorted_objects objects) (configsByName listed) fmempty (ConfigList names # log))"

definition secret_conflict :: "string \<Rightarrow> (string, docker_secret) fmap \<Rightarrow> string \<times> compose_secret \<Rightarrow> bool" where
  "secret_conflict stack existing x \<longleftrightarrow>
     (case fmlookup existing (dockerSecretName stack (fst x) (snd x)) of
        None \<Rightarrow> False
      | Some s \<Rightarrow> \<not> cs_External (snd x) \<and> map_str (dx_Labels s) StackNamespace \<noteq> stack)"

definition validateSecretOwnership ::
    "string \<Rightarrow> (string \<times> compose_secret) list \<Rightarrow> (string, docker_secret) fmap \<Rightarrow> resource_error option" where
  "validateSecretOwnership stack objects existing =
     map_option (\<lambda>x. SecretConflict (dockerSecretName stack (fst x) (snd x)) stack) (find (secret_conflict stack existing) objects)"

fun secret_loop ::
    "resource_env \<Rightarrow> string \<Rightarrow> (string, string) fmap \<Rightarrow> (string \<times> compose_secret) list \<Rightarrow> (string, docker_secret) fmap \<Rightarrow>
     (string, resolved_resource) fmap \<Rightarrow> call_log \<Rightarrow> (resource_error + (string, resolved_resource) fmap) \<times> call_log" where
  "secret_loop env stack payload [] existing resolved log = (Inr resolved, log)"
| "secret_loop env stack payload ((alias, obj) # rest) existing resolved log =
     (let name = dockerSecretName stack alias obj; labels = resourceLabels stack (cs_Labels obj)
      in case fmlookup existing name of
           Some s \<Rightarrow>
             let resolved = fmupd alias \<lparr>rr_ID = dx_ID s, rr_Name = dx_Name s\<rparr> resolved
             in if \<not> cs_External obj \<and> dx_Labels s \<noteq> labels
                then (case rv_UpdateSecretLabels env (length log) (dx_ID s) labels of
                        Some _ \<Rightarrow> (Inl (UpdateSecretFailed name), SecretUpdateLabels (dx_ID s) labels # log)
                      | None \<Rightarrow> secret_loop env stack payload rest (fmupd name (s\<lparr>dx_Labels := labels\<rparr>) existing) resolved
                                  (SecretUpdateLabels (dx_ID s) labels # log))
                else secret_loop env stack payload rest existing resolved log
         | None \<Rightarrow>
             if cs_External obj then (Inl (ExternalSecretMissing name), log)
             else
               let rq = \<lparr>sq_Name = name, sq_Labels = labels, sq_Data = map_str payload alias, sq_Driver = cs_Driver obj,
                         sq_DriverOptions = cs_DriverOpts obj, sq_TemplateDriver = cs_TemplateDriver obj\<rparr>
               in case rv_CreateSecret env (length log) rq of
                    Inl _ \<Rightarrow> (Inl (CreateSecretFailed name), SecretCreate rq # log)
                  | Inr i \<Rightarrow> secret_loop env stack payload rest
                               (fmupd name \<lparr>dx_ID = i, dx_Name = name, dx_Labels = labels\<rparr> existing)
                               (fmupd alias \<lparr>rr_ID = i, rr_Name = name\<rparr> resolved) (SecretCreate rq # log))"

definition reconcileSecrets ::
    "resource_env \<Rightarrow> string \<Rightarrow> (string, compose_secret) fmap \<Rightarrow> (string, string) fmap \<Rightarrow> call_log \<Rightarrow>
     (resource_error + (string, resolved_resource) fmap) \<times> call_log" where
  "reconcileSecrets env stack objects payload log =
     (if sorted_objects objects = [] then (Inr fmempty, log)
      else
        let names = secretNames stack objects
        in case rv_ListSecrets env (length log) names of
             Inl e \<Rightarrow> (Inl (ListSecretsFailed e), SecretList names # log)
           | Inr listed \<Rightarrow>
               (case validateSecretOwnership stack (sorted_objects objects) (secretsByName listed) of
                  Some e \<Rightarrow> (Inl e, SecretList names # log)
                | None \<Rightarrow> secret_loop env stack payload (sorted_objects objects) (secretsByName listed) fmempty
                            (SecretList names # log)))"

record resolved_objects =
  rs_Configs :: "(string, resolved_resource) fmap"
  rs_Secrets :: "(string, resolved_resource) fmap"

definition ReconcileResources ::
    "resource_env \<Rightarrow> string \<Rightarrow> (string, compose_config) fmap \<Rightarrow> (string, compose_secret) fmap \<Rightarrow> (string, string) fmap \<Rightarrow> call_log \<Rightarrow>
     (resource_error + resolved_objects) \<times> call_log" where
  "ReconcileResources env stack configs secrets payload log =
     (case reconcileConfigs env stack configs log of
        (Inl e, log) \<Rightarrow> (Inl e, log)
      | (Inr cs, log) \<Rightarrow>
          (case reconcileSecrets env stack secrets payload log of
             (Inl e, log) \<Rightarrow> (Inl e, log)
           | (Inr ss, log) \<Rightarrow> (Inr \<lparr>rs_Configs = cs, rs_Secrets = ss\<rparr>, log)))"

section \<open>Networks are usable\<close>

lemma validateNetwork_None:
  "validateNetwork stack n cur = None \<longleftrightarrow>
     dn_ID cur \<noteq> '''' \<and> dn_Name cur = pn_Name n \<and> ServiceNetworkScope (dn_Name cur) (dn_Scope cur) (pn_External n) \<and>
     (\<not> pn_External n \<longrightarrow> map_str (dn_Labels cur) StackNamespace = stack)"
  by (cases "pn_External n") (auto simp: validateNetwork_def)

text \<open>The calls of a run that started with \<open>base\<close> calls made, each with the calls before it.\<close>

definition calls_ok :: "(resource_call \<Rightarrow> call_log \<Rightarrow> bool) \<Rightarrow> nat \<Rightarrow> call_log \<Rightarrow> bool" where
  "calls_ok ok base log \<longleftrightarrow> (\<forall>later c earlier. log = later @ c # earlier \<and> base \<le> length earlier \<longrightarrow> ok c earlier)"

lemma calls_ok_Cons: "calls_ok ok base (c # log) \<longleftrightarrow> calls_ok ok base log \<and> (base \<le> length log \<longrightarrow> ok c log)"
  unfolding calls_ok_def by (auto simp: Cons_eq_append_conv)

lemma calls_ok_start: "length log \<le> base \<Longrightarrow> calls_ok ok base log"
  unfolding calls_ok_def by auto

definition saw_network :: "resource_env \<Rightarrow> string \<Rightarrow> nat \<Rightarrow> nat \<Rightarrow> planned_network \<Rightarrow> bool" where
  "saw_network env stack a b n \<longleftrightarrow>
     (\<exists>k cur. a \<le> k \<and> k < b \<and> rv_GetNetwork env k (pn_Name n) = Inr cur \<and> validateNetwork stack n cur = None)"

definition network_call_ok :: "resource_env \<Rightarrow> planned_network list \<Rightarrow> resource_call \<Rightarrow> call_log \<Rightarrow> bool" where
  "network_call_ok env planned c earlier \<longleftrightarrow>
     (case c of
        NetworkGet _ \<Rightarrow> True
      | NetworkCreate n \<Rightarrow>
          n \<in> set planned \<and> \<not> pn_External n \<and>
          (\<exists>rest. earlier = NetworkGet (pn_Name n) # rest \<and> rv_GetNetwork env (length rest) (pn_Name n) = Inl NetworkNotFound)
      | _ \<Rightarrow> False)"

lemma network_call_Get [simp]: "network_call_ok env planned (NetworkGet n) earlier"
  by (simp add: network_call_ok_def)

lemma saw_network_mono: "saw_network env stack a b n \<Longrightarrow> c \<le> a \<Longrightarrow> b \<le> d \<Longrightarrow> saw_network env stack c d n"
  unfolding saw_network_def by (meson order_trans less_le_trans)

lemma waitForCreatedNetwork_facts:
  assumes "waitForCreatedNetwork env stack n k e log = (err, log')"
  shows "length log \<le> length log' \<and> length log' \<le> length log + k \<and>
    (calls_ok (network_call_ok env planned) base log \<longrightarrow> calls_ok (network_call_ok env planned) base log') \<and>
    (err = None \<longrightarrow> saw_network env stack (length log) (length log') n)"
  using assms
proof (induction k arbitrary: e log)
  case (Suc k)
  let ?log = "NetworkGet (pn_Name n) # log"
  let ?err = "case rv_GetNetwork env (length log) (pn_Name n) of
      Inl e \<Rightarrow> Some (NetworkInspectFailed (pn_Name n) (fault_text e)) | Inr cur \<Rightarrow> validateNetwork stack n cur"
  consider (found) "?err = None" "err = None" "log' = ?log" | (ended) "err \<noteq> None" "log' = ?log"
    | (again) "waitForCreatedNetwork env stack n k ?err ?log = (err, log')"
  proof (cases "?err = None")
    case True
    then show ?thesis using Suc.prems found by (simp add: Let_def)
  next
    case False
    show ?thesis
    proof (cases "k = 0")
      case True
      then show ?thesis using Suc.prems False again by (simp add: Let_def)
    next
      case k: False
      then show ?thesis using Suc.prems False again ended
        by (cases "rv_ContextDone env (length ?log)") (auto simp: Let_def)
    qed
  qed
  then show ?case
  proof cases
    case found
    then have "saw_network env stack (length log) (length log') n"
      by (auto simp: saw_network_def split: sum.splits)
    with found show ?thesis by (simp add: calls_ok_Cons)
  next
    case ended
    then show ?thesis by (auto simp: calls_ok_Cons)
  next
    case again
    from Suc.IH [OF this] show ?thesis
      using saw_network_mono [of env stack "length ?log" "length log'" n "length log" "length log'"] by (auto simp: calls_ok_Cons)
  qed
qed auto

lemma reconcile_network_cases:
  assumes run: "reconcile_network env stack n log = (err, log')"
    and l: "l1 = NetworkGet (pn_Name n) # log" "l2 = NetworkCreate n # l1" "l3 = NetworkGet (pn_Name n) # l2"
  obtains (found) cur where "rv_GetNetwork env (length log) (pn_Name n) = Inr cur" "err = validateNetwork stack n cur" "log' = l1"
  | (failed) "err \<noteq> None" "log' = l1"
  | (waited) "rv_GetNetwork env (length log) (pn_Name n) = Inl NetworkNotFound" "\<not> pn_External n"
      "waitForCreatedNetwork env stack n createdNetworkInspectAttempts None l2 = (err, log')"
  | (raced) cur where "rv_GetNetwork env (length log) (pn_Name n) = Inl NetworkNotFound" "\<not> pn_External n"
      "rv_GetNetwork env (length l2) (pn_Name n) = Inr cur" "err = validateNetwork stack n cur" "log' = l3"
  | (refused) "rv_GetNetwork env (length log) (pn_Name n) = Inl NetworkNotFound" "\<not> pn_External n" "err \<noteq> None" "log' = l3"
proof (cases "rv_GetNetwork env (length log) (pn_Name n)")
  case (Inr cur)
  then show ?thesis using run l found by (simp add: reconcile_network_def Let_def)
next
  case (Inl e)
  show ?thesis
  proof (cases "e = NetworkNotFound \<and> \<not> pn_External n")
    case False
    then show ?thesis using run l failed Inl by (cases e) (auto simp: reconcile_network_def Let_def)
  next
    case True
    show ?thesis
    proof (cases "rv_CreateNetwork env (length l1) n")
      case None
      then show ?thesis using run l waited Inl True by (simp add: reconcile_network_def Let_def)
    next
      case (Some e')
      then show ?thesis using run l raced refused Inl True
        by (cases "rv_GetNetwork env (length l2) (pn_Name n)") (auto simp: reconcile_network_def Let_def)
    qed
  qed
qed

lemma reconcile_network_facts:
  assumes "reconcile_network env stack n log = (err, log')" and n: "n \<in> set planned"
    and ok: "calls_ok (network_call_ok env planned) base log"
  shows "length log \<le> length log' \<and> length log' \<le> length log + 42 \<and> calls_ok (network_call_ok env planned) base log' \<and>
    (err = None \<longrightarrow> saw_network env stack (length log) (length log') n)"
proof -
  let ?l2 = "NetworkCreate n # NetworkGet (pn_Name n) # log"
  from assms(1) refl refl refl show ?thesis
  proof (cases rule: reconcile_network_cases)
    case found
    then show ?thesis using ok by (auto simp: calls_ok_Cons saw_network_def)
  next
    case failed
    then show ?thesis using ok by (auto simp: calls_ok_Cons)
  next
    case waited
    have "calls_ok (network_call_ok env planned) base ?l2"
      using ok waited n by (auto simp: calls_ok_Cons network_call_ok_def)
    then show ?thesis
      using waitForCreatedNetwork_facts [OF waited(3), of planned base]
        saw_network_mono [of env stack "length ?l2" "length log'" n "length log" "length log'"]
      by (auto simp: createdNetworkInspectAttempts_def)
  next
    case (raced cur)
    moreover have "saw_network env stack (length log) (length log') n" if "err = None"
      unfolding saw_network_def using raced that by (intro exI [of _ "length ?l2"] exI [of _ cur]) auto
    ultimately show ?thesis using ok n by (auto simp: calls_ok_Cons network_call_ok_def)
  next
    case refused
    then show ?thesis using ok n by (auto simp: calls_ok_Cons network_call_ok_def)
  qed
qed

lemma ReconcileNetworks_facts:
  assumes "ReconcileNetworks env stack ns log = (err, log')" "set ns \<subseteq> set planned" "calls_ok (network_call_ok env planned) base log"
  shows "length log \<le> length log' \<and> length log' \<le> length log + 42 * length ns \<and> calls_ok (network_call_ok env planned) base log' \<and>
    (err = None \<longrightarrow> (\<forall>n \<in> set ns. saw_network env stack (length log) (length log') n))"
  using assms
proof (induction ns arbitrary: log)
  case (Cons n ns)
  obtain e l where r: "reconcile_network env stack n log = (e, l)" by (cases "reconcile_network env stack n log")
  note f = reconcile_network_facts [OF r _ Cons.prems(3)]
  show ?case
  proof (cases e)
    case None
    then have "ReconcileNetworks env stack ns l = (err, log')" using Cons.prems(1) r by simp
    with Cons.IH [of l] f Cons.prems(2) have i: "length l \<le> length log'" "length log' \<le> length l + 42 * length ns"
        "calls_ok (network_call_ok env planned) base log'" "err = None \<Longrightarrow> \<forall>n \<in> set ns. saw_network env stack (length l) (length log') n"
      by auto
    have "saw_network env stack (length log) (length log') m" if "err = None" "m \<in> set (n # ns)" for m
      using that i f None Cons.prems(2) by (auto intro: saw_network_mono)
    then show ?thesis using i f Cons.prems(2) by auto
  next
    case (Some x)
    then show ?thesis using Cons.prems r f by auto
  qed
qed simp

text \<open>
  C19. A deployment only uses networks that it may use. If the reconciliation succeeds, then for every planned
  network Docker answered one of its inspections with a network of exactly that name, with an ID and a
  scope that services can use, which belongs to the stack unless it is external. A network is created only
  if it is planned, not external, and the call before found that it does not exist. Each planned network
  takes at most 42 calls.
\<close>

theorem networks_usable:
  assumes run: "ReconcileNetworks env stack planned log = (err, log')"
  shows "(err = None \<longrightarrow> (\<forall>n \<in> set planned. \<exists>k cur. length log \<le> k \<and> k < length log' \<and>
        rv_GetNetwork env k (pn_Name n) = Inr cur \<and> dn_ID cur \<noteq> '''' \<and> dn_Name cur = pn_Name n \<and>
        ServiceNetworkScope (dn_Name cur) (dn_Scope cur) (pn_External n) \<and>
        (\<not> pn_External n \<longrightarrow> map_str (dn_Labels cur) StackNamespace = stack))) \<and>
    (\<forall>later n earlier. log' = later @ NetworkCreate n # earlier \<and> length log \<le> length earlier \<longrightarrow>
        n \<in> set planned \<and> \<not> pn_External n \<and>
        (\<exists>rest. earlier = NetworkGet (pn_Name n) # rest \<and> rv_GetNetwork env (length rest) (pn_Name n) = Inl NetworkNotFound)) \<and>
    length log' \<le> length log + 42 * length planned"
proof -
  note f = ReconcileNetworks_facts [OF run subset_refl calls_ok_start [OF order_refl]]
  have "\<exists>k cur. length log \<le> k \<and> k < length log' \<and> rv_GetNetwork env k (pn_Name n) = Inr cur \<and> validateNetwork stack n cur = None"
    if "err = None" "n \<in> set planned" for n
    using that f by (simp add: saw_network_def)
  moreover have "network_call_ok env planned c earlier" if "log' = later @ c # earlier" "length log \<le> length earlier" for later c earlier
    using that f by (auto simp: calls_ok_def)
  ultimately show ?thesis
    unfolding validateNetwork_None using f by (intro conjI impI allI ballI) (fastforce simp: network_call_ok_def)+
qed

definition sample_network :: planned_network where
  "sample_network = \<lparr>pn_Alias = ''default'', pn_ID = '''', pn_External = False, pn_Name = ''shop_default'', pn_Settings = ''overlay''\<rparr>"

text \<open>The network appears at the second inspection after its creation.\<close>

definition sample_resource_env :: resource_env where
  "sample_resource_env =
     \<lparr>rv_GetNetwork = (\<lambda>k name. if k < 3 then Inl NetworkNotFound
        else Inr \<lparr>dn_ID = ''n1'', dn_Name = name, dn_Scope = ''swarm'', dn_Labels = fmupd StackNamespace ''shop'' fmempty\<rparr>),
      rv_CreateNetwork = (\<lambda>_ _. None), rv_ContextDone = (\<lambda>_. None),
      rv_ListConfigs = (\<lambda>_ _. Inr []), rv_CreateConfig = (\<lambda>_ _. Inr ''c1''), rv_ListSecrets = (\<lambda>_ _. Inr []),
      rv_CreateSecret = (\<lambda>_ _. Inr ''x1''), rv_UpdateSecretLabels = (\<lambda>_ _ _. None)\<rparr>"

theorem networks_usable_witness:
  "\<exists>log' k cur. ReconcileNetworks sample_resource_env ''shop'' [sample_network] [] = (None, log') \<and> length log' = 4 \<and> k < 4 \<and>
     rv_GetNetwork sample_resource_env k ''shop_default'' = Inr cur \<and> map_str (dn_Labels cur) StackNamespace = ''shop''"
proof -
  have r: "fst (ReconcileNetworks sample_resource_env ''shop'' [sample_network] []) = None"
      "length (snd (ReconcileNetworks sample_resource_env ''shop'' [sample_network] [])) = 4" by code_simp+
  then obtain log' where l: "ReconcileNetworks sample_resource_env ''shop'' [sample_network] [] = (None, log')" "length log' = 4"
    by (cases "ReconcileNetworks sample_resource_env ''shop'' [sample_network] []") auto
  have "\<not> pn_External sample_network" "pn_Name sample_network = ''shop_default''" by (simp_all add: sample_network_def)
  then obtain k cur where "k < 4" "rv_GetNetwork sample_resource_env k ''shop_default'' = Inr cur"
      "map_str (dn_Labels cur) StackNamespace = ''shop''"
    using networks_usable [OF l(1)] l(2) by auto
  with l show ?thesis by blast
qed

section \<open>Secrets belong to the stack\<close>

definition listed_owned :: "string \<Rightarrow> docker_secret list \<Rightarrow> string \<Rightarrow> bool" where
  "listed_owned stack listed i \<longleftrightarrow> (\<exists>s \<in> set listed. dx_ID s = i \<and> map_str (dx_Labels s) StackNamespace = stack)"

definition created_before :: "resource_env \<Rightarrow> nat \<Rightarrow> call_log \<Rightarrow> string \<Rightarrow> bool" where
  "created_before env base log i \<longleftrightarrow>
     (\<exists>later rq earlier. log = later @ SecretCreate rq # earlier \<and> base \<le> length earlier \<and>
        rv_CreateSecret env (length earlier) rq = Inr i)"

lemma created_before_Cons: "created_before env base log i \<Longrightarrow> created_before env base (c # log) i"
  unfolding created_before_def by (metis append_Cons)

definition own_secret :: "string \<Rightarrow> (string, string) fmap \<Rightarrow> (string \<times> compose_secret) list \<Rightarrow> secret_request \<Rightarrow> bool" where
  "own_secret stack payload objs rq \<longleftrightarrow>
     map_str (sq_Labels rq) StackNamespace = stack \<and>
     (\<exists>(alias, obj) \<in> set objs. \<not> cs_External obj \<and> sq_Name rq = dockerSecretName stack alias obj \<and> sq_Data rq = map_str payload alias)"

definition secret_call_ok ::
    "resource_env \<Rightarrow> string \<Rightarrow> (string, string) fmap \<Rightarrow> (string \<times> compose_secret) list \<Rightarrow> docker_secret list \<Rightarrow> nat \<Rightarrow>
     resource_call \<Rightarrow> call_log \<Rightarrow> bool" where
  "secret_call_ok env stack payload objs listed base c earlier \<longleftrightarrow>
     (case c of
        SecretList _ \<Rightarrow> True
      | SecretUpdateLabels i labels \<Rightarrow>
          map_str labels StackNamespace = stack \<and> (listed_owned stack listed i \<or> created_before env base earlier i)
      | SecretCreate rq \<Rightarrow> own_secret stack payload objs rq
      | _ \<Rightarrow> False)"

lemma resourceLabels_stack [simp]: "map_str (resourceLabels stack labels) StackNamespace = stack"
  by (simp add: resourceLabels_def map_str_def)

text \<open>The secrets the loop knows: they have their names, and those of the stack's own objects are the stack's.\<close>

definition known_secrets ::
    "resource_env \<Rightarrow> string \<Rightarrow> (string \<times> compose_secret) list \<Rightarrow> docker_secret list \<Rightarrow> nat \<Rightarrow> call_log \<Rightarrow> (string, docker_secret) fmap \<Rightarrow> bool" where
  "known_secrets env stack objs listed base log existing \<longleftrightarrow>
     (\<forall>n s. fmlookup existing n = Some s \<longrightarrow> dx_Name s = n) \<and>
     (\<forall>alias obj s. (alias, obj) \<in> set objs \<and> \<not> cs_External obj \<and> fmlookup existing (dockerSecretName stack alias obj) = Some s \<longrightarrow>
        listed_owned stack listed (dx_ID s) \<or> created_before env base log (dx_ID s))"

definition resolved_rightly :: "string \<Rightarrow> (string \<times> compose_secret) list \<Rightarrow> (string, resolved_resource) fmap \<Rightarrow> bool" where
  "resolved_rightly stack objs resolved \<longleftrightarrow>
     (\<forall>(alias, obj) \<in> set objs. \<exists>r. fmlookup resolved alias = Some r \<and> rr_Name r = dockerSecretName stack alias obj)"

lemma known_secrets_mono:
  "known_secrets env stack objs listed base log existing \<Longrightarrow> known_secrets env stack objs listed base (c # log) existing"
  unfolding known_secrets_def by (blast intro: created_before_Cons)

lemma known_secrets_update:
  assumes "known_secrets env stack objs listed base log existing" "dx_Name s = n"
    and "listed_owned stack listed (dx_ID s) \<or> created_before env base log (dx_ID s)"
  shows "known_secrets env stack objs listed base log (fmupd n s existing)"
  using assms unfolding known_secrets_def by (auto split: if_splits)

text \<open>An iteration over a secret that exists, and one over a secret that does not.\<close>

lemma secret_found:
  assumes run: "secret_loop env stack payload ((alias, obj) # rest) existing resolved log = (res, log')"
    and s: "fmlookup existing (dockerSecretName stack alias obj) = Some s"
    and obj: "(alias, obj) \<in> set objs" and base: "base \<le> length log"
    and known: "known_secrets env stack objs listed base log existing"
    and ok: "calls_ok (secret_call_ok env stack payload objs listed base) base log"
  obtains (stop) e where "res = Inl e" "calls_ok (secret_call_ok env stack payload objs listed base) base log'"
  | (go) ex r l where "secret_loop env stack payload rest ex (fmupd alias r resolved) l = (res, log')" "base \<le> length l"
      "known_secrets env stack objs listed base l ex" "calls_ok (secret_call_ok env stack payload objs listed base) base l"
      "rr_Name r = dockerSecretName stack alias obj"
proof -
  let ?name = "dockerSecretName stack alias obj" and ?labels = "resourceLabels stack (cs_Labels obj)"
  let ?r = "\<lparr>rr_ID = dx_ID s, rr_Name = dx_Name s\<rparr>"
  let ?l = "SecretUpdateLabels (dx_ID s) ?labels # log" and ?ex = "fmupd ?name (s\<lparr>dx_Labels := ?labels\<rparr>) existing"
  have n: "dx_Name s = ?name" using known s by (simp add: known_secrets_def)
  show ?thesis
  proof (cases "\<not> cs_External obj \<and> dx_Labels s \<noteq> ?labels")
    case False
    then show ?thesis using run s base known ok n by (intro go [of existing ?r log]) (auto simp: Let_def)
  next
    case True
    then have own: "listed_owned stack listed (dx_ID s) \<or> created_before env base log (dx_ID s)"
      using known obj s unfolding known_secrets_def by blast
    then have l: "calls_ok (secret_call_ok env stack payload objs listed base) base ?l"
      using ok by (simp add: calls_ok_Cons secret_call_ok_def)
    have k: "known_secrets env stack objs listed base ?l ?ex"
      using own n by (intro known_secrets_update known_secrets_mono known) (auto intro: created_before_Cons)
    show ?thesis
    proof (cases "rv_UpdateSecretLabels env (length log) (dx_ID s) ?labels")
      case None
      then show ?thesis using run s True base l k n by (intro go [of ?ex ?r ?l]) (auto simp: Let_def)
    next
      case (Some e)
      then show ?thesis using run s True l by (intro stop) (auto simp: Let_def)
    qed
  qed
qed

lemma secret_missing:
  assumes run: "secret_loop env stack payload ((alias, obj) # rest) existing resolved log = (res, log')"
    and s: "fmlookup existing (dockerSecretName stack alias obj) = None"
    and obj: "(alias, obj) \<in> set objs" and base: "base \<le> length log"
    and known: "known_secrets env stack objs listed base log existing"
    and ok: "calls_ok (secret_call_ok env stack payload objs listed base) base log"
  obtains (stop) e where "res = Inl e" "calls_ok (secret_call_ok env stack payload objs listed base) base log'"
  | (go) ex r l where "secret_loop env stack payload rest ex (fmupd alias r resolved) l = (res, log')" "base \<le> length l"
      "known_secrets env stack objs listed base l ex" "calls_ok (secret_call_ok env stack payload objs listed base) base l"
      "rr_Name r = dockerSecretName stack alias obj"
proof (cases "cs_External obj")
  case True
  then show ?thesis using run s ok by (intro stop) (auto simp: Let_def)
next
  case False
  let ?name = "dockerSecretName stack alias obj" and ?labels = "resourceLabels stack (cs_Labels obj)"
  let ?rq = "\<lparr>sq_Name = ?name, sq_Labels = ?labels, sq_Data = map_str payload alias, sq_Driver = cs_Driver obj,
              sq_DriverOptions = cs_DriverOpts obj, sq_TemplateDriver = cs_TemplateDriver obj\<rparr>"
  let ?l = "SecretCreate ?rq # log"
  have "own_secret stack payload objs ?rq" using obj False by (auto simp: own_secret_def intro!: bexI [of _ "(alias, obj)"])
  then have l: "calls_ok (secret_call_ok env stack payload objs listed base) base ?l"
    using ok by (simp add: calls_ok_Cons secret_call_ok_def)
  show ?thesis
  proof (cases "rv_CreateSecret env (length log) ?rq")
    case (Inl e)
    then show ?thesis using run s False l by (intro stop) (auto simp: Let_def)
  next
    case (Inr i)
    let ?ex = "fmupd ?name \<lparr>dx_ID = i, dx_Name = ?name, dx_Labels = ?labels\<rparr> existing"
    from Inr have "created_before env base ?l i" using base unfolding created_before_def by blast
    then have "known_secrets env stack objs listed base ?l ?ex"
      by (intro known_secrets_update known_secrets_mono known) simp_all
    then show ?thesis using run s False Inr l base by (intro go [of ?ex "\<lparr>rr_ID = i, rr_Name = ?name\<rparr>" ?l]) (auto simp: Let_def)
  qed
qed

lemma secret_loop_facts:
  assumes "secret_loop env stack payload rest existing resolved log = (res, log')"
    and "set rest \<subseteq> set objs" "distinct (map fst (before @ rest))" "base \<le> length log"
    and "known_secrets env stack objs listed base log existing"
    and "calls_ok (secret_call_ok env stack payload objs listed base) base log"
    and "resolved_rightly stack before resolved"
  shows "calls_ok (secret_call_ok env stack payload objs listed base) base log' \<and>
    (\<forall>final. res = Inr final \<longrightarrow> resolved_rightly stack (before @ rest) final)"
  using assms
proof (induction rest arbitrary: existing resolved log before)
  case Nil
  then show ?case by auto
next
  case (Cons x rest)
  obtain "alias" obj where x: "x = (alias, obj)" by (cases x)
  let ?ok = "calls_ok (secret_call_ok env stack payload objs listed base) base"
  have obj: "(alias, obj) \<in> set objs" and fresh: "alias \<notin> fst ` set before" "set rest \<subseteq> set objs"
    using Cons.prems(2,3) x by auto
  have grow: "resolved_rightly stack (before @ [x]) (fmupd alias r resolved)"
    if "rr_Name r = dockerSecretName stack alias obj" for r
    using Cons.prems(7) fresh that x by (force simp: resolved_rightly_def)
  consider (stop) e where "res = Inl e" "?ok log'"
    | (go) ex r l where "secret_loop env stack payload rest ex (fmupd alias r resolved) l = (res, log')" "base \<le> length l"
        "known_secrets env stack objs listed base l ex" "?ok l" "rr_Name r = dockerSecretName stack alias obj"
  proof (cases "fmlookup existing (dockerSecretName stack alias obj)")
    case None
    with secret_missing [OF Cons.prems(1) [unfolded x] _ obj Cons.prems(4-6)] stop go show ?thesis by blast
  next
    case (Some s)
    with secret_found [OF Cons.prems(1) [unfolded x] _ obj Cons.prems(4-6)] stop go show ?thesis by blast
  qed
  then show ?case
  proof cases
    case go
    then show ?thesis using Cons.IH [OF go(1) fresh(2), of "before @ [x]"] grow Cons.prems(3) by simp
  qed simp
qed

lemma secretsByName_lookup:
  assumes "fmlookup (secretsByName listed) n = Some s"
  shows "s \<in> set listed \<and> dx_Name s = n"
proof -
  have "fmlookup (fold (\<lambda>s m. fmupd (dx_Name s) s m) xs m) n = Some s \<Longrightarrow>
      s \<in> set xs \<and> dx_Name s = n \<or> fmlookup m n = Some s" for xs m
    by (induction xs arbitrary: m) (fastforce split: if_splits)+
  from this [of listed fmempty] show ?thesis using assms by (simp add: secretsByName_def)
qed

lemma sorted_objects_facts:
  "distinct (map fst (sorted_objects m))" "(k, v) \<in> set (sorted_objects m) \<longleftrightarrow> fmlookup m k = Some v"
  by (auto simp: sorted_objects_def has_key_iff o_def)

lemma validated_known:
  assumes "validateSecretOwnership stack objs (secretsByName listed) = None"
  shows "known_secrets env stack objs listed base log (secretsByName listed)"
proof -
  have "listed_owned stack listed (dx_ID s)"
    if "(alias, obj) \<in> set objs" "\<not> cs_External obj" "fmlookup (secretsByName listed) (dockerSecretName stack alias obj) = Some s"
    for "alias" obj s
    using assms that secretsByName_lookup [OF that(3)]
    by (force simp: validateSecretOwnership_def find_None_iff secret_conflict_def listed_owned_def)
  then show ?thesis using secretsByName_lookup unfolding known_secrets_def by blast
qed

lemma reconcileSecrets_cases:
  assumes run: "reconcileSecrets env stack objects payload log = (res, log')"
    and listed: "rv_ListSecrets env (length log) (secretNames stack objects) = Inr listed"
  obtains (nothing) "sorted_objects objects = []" "res = Inr fmempty" "log' = log"
  | (conflict) e where "validateSecretOwnership stack (sorted_objects objects) (secretsByName listed) = Some e" "res = Inl e"
      "log' = SecretList (secretNames stack objects) # log"
  | (run) "validateSecretOwnership stack (sorted_objects objects) (secretsByName listed) = None"
      "secret_loop env stack payload (sorted_objects objects) (secretsByName listed) fmempty
        (SecretList (secretNames stack objects) # log) = (res, log')"
proof (cases "sorted_objects objects = []")
  case True
  then show ?thesis using assms(1) by (intro that(1)) (auto simp: reconcileSecrets_def)
next
  case False
  then show ?thesis using assms conflict that(3)
    by (cases "validateSecretOwnership stack (sorted_objects objects) (secretsByName listed)")
      (auto simp: reconcileSecrets_def Let_def)
qed

lemma reconcileSecrets_facts:
  assumes "reconcileSecrets env stack objects payload log = (res, log')"
    and "rv_ListSecrets env (length log) (secretNames stack objects) = Inr listed"
  shows "calls_ok (secret_call_ok env stack payload (sorted_objects objects) listed (length log)) (length log) log' \<and>
    (\<forall>final. res = Inr final \<longrightarrow> resolved_rightly stack (sorted_objects objects) final) \<and>
    (\<forall>e. validateSecretOwnership stack (sorted_objects objects) (secretsByName listed) = Some e \<longrightarrow>
       res = Inl e \<and> length log' = Suc (length log))"
proof -
  have start: "calls_ok (secret_call_ok env stack payload objs listed (length log)) (length log) (SecretList names # log)" for objs names
    by (simp add: calls_ok_Cons calls_ok_start secret_call_ok_def)
  from assms show ?thesis
  proof (cases rule: reconcileSecrets_cases)
    case nothing
    then show ?thesis by (auto simp: resolved_rightly_def calls_ok_start validateSecretOwnership_def)
  next
    case (conflict e)
    then show ?thesis using start by auto
  next
    case run
    note f = secret_loop_facts [OF run(2) subset_refl, of "[]" "length log" listed, OF _ _ validated_known [OF run(1)] start]
    show ?thesis using f run(1) by (auto simp: sorted_objects_facts resolved_rightly_def)
  qed
qed

lemma conflict_reported:
  assumes "fmlookup objects k = Some obj" "\<not> cs_External obj"
    and "fmlookup existing (dockerSecretName stack k obj) = Some s" "map_str (dx_Labels s) StackNamespace \<noteq> stack"
  shows "\<exists>n. validateSecretOwnership stack (sorted_objects objects) existing = Some (SecretConflict n stack)"
proof -
  have "(k, obj) \<in> set (sorted_objects objects)" using assms(1) by (simp add: sorted_objects_facts)
  moreover have "secret_conflict stack existing (k, obj)" using assms by (simp add: secret_conflict_def)
  ultimately have "find (secret_conflict stack existing) (sorted_objects objects) \<noteq> None" by (auto simp: find_None_iff)
  then show ?thesis by (auto simp: validateSecretOwnership_def)
qed

text \<open>
  C28. A deployment never takes over a secret of somebody else. With the secrets Docker listed: labels are only
  changed on a listed secret that carries the name of the stack, or on one that the same run created;
  secrets are only created for the stack's own objects, under its label and with the payload of their
  alias. If one listed secret that an own object names belongs to someone else, the run fails with the
  conflict, and nothing but the listing was asked of Docker. On success every alias is resolved to a secret
  of its name.
\<close>

theorem secrets_owned:
  assumes run: "reconcileSecrets env stack objects payload log = (res, log')"
    and listed: "rv_ListSecrets env (length log) (secretNames stack objects) = Inr listed"
  shows "(\<forall>later i labels earlier. log' = later @ SecretUpdateLabels i labels # earlier \<and> length log \<le> length earlier \<longrightarrow>
        map_str labels StackNamespace = stack \<and> (listed_owned stack listed i \<or> created_before env (length log) earlier i)) \<and>
    (\<forall>later rq earlier. log' = later @ SecretCreate rq # earlier \<and> length log \<le> length earlier \<longrightarrow>
        own_secret stack payload (sorted_objects objects) rq) \<and>
    ((\<exists>k obj s. fmlookup objects k = Some obj \<and> \<not> cs_External obj \<and>
        fmlookup (secretsByName listed) (dockerSecretName stack k obj) = Some s \<and> map_str (dx_Labels s) StackNamespace \<noteq> stack) \<longrightarrow>
      (\<exists>n. res = Inl (SecretConflict n stack)) \<and> length log' = Suc (length log)) \<and>
    (\<forall>final k obj. res = Inr final \<and> fmlookup objects k = Some obj \<longrightarrow>
      (\<exists>r. fmlookup final k = Some r \<and> rr_Name r = dockerSecretName stack k obj))"
proof (intro conjI allI impI)
  note f = reconcileSecrets_facts [OF run listed]
  have ok: "secret_call_ok env stack payload (sorted_objects objects) listed (length log) c earlier"
    if "log' = later @ c # earlier \<and> length log \<le> length earlier" for later c earlier
    using f that unfolding calls_ok_def by blast
  show "map_str labels StackNamespace = stack" "listed_owned stack listed i \<or> created_before env (length log) earlier i"
    if "log' = later @ SecretUpdateLabels i labels # earlier \<and> length log \<le> length earlier" for later i labels earlier
    using ok [OF that] by (simp_all add: secret_call_ok_def)
  show "own_secret stack payload (sorted_objects objects) rq"
    if "log' = later @ SecretCreate rq # earlier \<and> length log \<le> length earlier" for later rq earlier
    using ok [OF that] by (simp add: secret_call_ok_def)
  assume "\<exists>k obj s. fmlookup objects k = Some obj \<and> \<not> cs_External obj \<and>
        fmlookup (secretsByName listed) (dockerSecretName stack k obj) = Some s \<and> map_str (dx_Labels s) StackNamespace \<noteq> stack"
  then obtain n where "validateSecretOwnership stack (sorted_objects objects) (secretsByName listed) = Some (SecretConflict n stack)"
    using conflict_reported by metis
  then show "\<exists>n. res = Inl (SecretConflict n stack)" "length log' = Suc (length log)" using f by blast+
next
  fix final k obj assume "res = Inr final \<and> fmlookup objects k = Some obj"
  then show "\<exists>r. fmlookup final k = Some r \<and> rr_Name r = dockerSecretName stack k obj"
    using reconcileSecrets_facts [OF run listed] by (fastforce simp: resolved_rightly_def sorted_objects_facts)
qed

definition sample_secret :: compose_secret where
  "sample_secret =
     \<lparr>cs_Name = '''', cs_File = ''token.txt'', cs_Data = Some ''t0p'', cs_Driver = '''', cs_DriverOpts = fmempty,
      cs_TemplateDriver = '''', cs_External = False, cs_Labels = fmempty\<rparr>"

definition foreign_secret :: docker_secret where
  "foreign_secret = \<lparr>dx_ID = ''x9'', dx_Name = ''shop_token'', dx_Labels = fmupd StackNamespace ''bank'' fmempty\<rparr>"

theorem secrets_owned_witness:
  "\<exists>n log'. reconcileSecrets (sample_resource_env\<lparr>rv_ListSecrets := \<lambda>_ _. Inr [foreign_secret]\<rparr>) ''shop''
      (fmupd ''token'' sample_secret fmempty) fmempty [] = (Inl (SecretConflict n ''shop''), log') \<and> length log' = 1"
proof -
  let ?env = "sample_resource_env\<lparr>rv_ListSecrets := \<lambda>_ _. Inr [foreign_secret]\<rparr>" and ?objs = "fmupd ''token'' sample_secret fmempty"
  obtain res log' where r: "reconcileSecrets ?env ''shop'' ?objs fmempty [] = (res, log')" by fastforce
  have l: "rv_ListSecrets ?env (length ([] :: call_log)) (secretNames ''shop'' ?objs) = Inr [foreign_secret]" by simp
  have "fmlookup (secretsByName [foreign_secret]) (dockerSecretName ''shop'' ''token'' sample_secret) = Some foreign_secret \<and>
      \<not> cs_External sample_secret \<and> map_str (dx_Labels foreign_secret) StackNamespace \<noteq> ''shop''" by code_simp
  then have "\<exists>k obj s. fmlookup ?objs k = Some obj \<and> \<not> cs_External obj \<and>
      fmlookup (secretsByName [foreign_secret]) (dockerSecretName ''shop'' k obj) = Some s \<and> map_str (dx_Labels s) StackNamespace \<noteq> ''shop''"
    by (intro exI [of _ "''token''"] exI [of _ sample_secret] exI [of _ foreign_secret]) simp
  with secrets_owned [OF r l] r show ?thesis by auto
qed

end
