(* ===== verification/InitJob.thy ===== *)
theory InitJob
  imports Waiter Drift StackResources
begin

text \<open>
  Init Jobs (\<open>internal/modules/deployments/deployer/initjob\<close>): temporary services that run to completion
  before the services of a stack are applied. The theory holds the name and the specification of such a
  service, the wait for its task, one execution, and the cleanup queue with its worker goroutine.

  Docker's answers are an environment. A wait is given the ticks of its timer; \<open>None\<close> is a wait that has
  not ended yet. Log messages and metrics are left out.
\<close>

section \<open>Names\<close>

text \<open>
  Ranging over a Go string yields runes: the number of continuation bytes of the rune that begins with
  \<open>c\<close>; an invalid byte is a rune of its own.
\<close>

definition continues :: "nat \<Rightarrow> nat \<Rightarrow> string \<Rightarrow> bool" where
  "continues lo hi s \<longleftrightarrow> (case s of [] \<Rightarrow> False | c # _ \<Rightarrow> lo \<le> of_char c \<and> of_char c \<le> hi)"

definition rune_tail :: "char \<Rightarrow> string \<Rightarrow> nat" where
  "rune_tail c s =
     (let n = of_char c :: nat
      in if 0xC2 \<le> n \<and> n \<le> 0xDF \<and> continues 0x80 0xBF s then 1
         else if 0xE0 \<le> n \<and> n \<le> 0xEF \<and>
                 continues (if n = 0xE0 then 0xA0 else 0x80) (if n = 0xED then 0x9F else 0xBF) s \<and>
                 continues 0x80 0xBF (tl s) then 2
         else if 0xF0 \<le> n \<and> n \<le> 0xF4 \<and>
                 continues (if n = 0xF0 then 0x90 else 0x80) (if n = 0xF4 then 0x8F else 0xBF) s \<and>
                 continues 0x80 0xBF (tl s) \<and> continues 0x80 0xBF (tl (tl s)) then 3
         else 0)"

definition name_char :: "char \<Rightarrow> bool" where
  "name_char c \<longleftrightarrow> (CHR ''a'' \<le> c \<and> c \<le> CHR ''z'') \<or> (CHR ''0'' \<le> c \<and> c \<le> CHR ''9'')"

function replace_runes :: "string \<Rightarrow> string" where
  "replace_runes [] = []"
| "replace_runes (c # s) =
     (let l = fst (lower_step c s)
      in (if name_char l then l else CHR ''-'') # replace_runes (drop (rune_tail c s) s))"
  by pat_completeness auto
termination
  by (relation "measure length") auto

definition trim_dashes :: "string \<Rightarrow> string" where
  "trim_dashes s = rev (dropWhile (\<lambda>c. c = CHR ''-'') (rev (dropWhile (\<lambda>c. c = CHR ''-'') s)))"

definition sanitizeForName :: "string \<Rightarrow> string" where
  "sanitizeForName v =
     (if v = '''' then ''job''
      else let r = trim_dashes (replace_runes v) in if r = '''' then ''job'' else r)"

text \<open>The clock is not before 1970, so \<open>UnixNano\<close> is a natural number.\<close>

definition BuildName :: "string \<Rightarrow> nat \<Rightarrow> string" where
  "BuildName jobName nano = sanitizeForName jobName @ ''-'' @ decimal nano"

definition uniqueStrings :: "string list \<Rightarrow> string list" where
  "uniqueStrings values = nub_onto [] (filter (\<lambda>v. v \<noteq> '''') (map TrimSpace values))"

section \<open>The specification of a job\<close>

record object_ref =
  or_Source :: string
  or_Target :: string
  or_Mode :: "nat option"
  or_Gid :: string
  or_Uid :: string

record service_networks =
  sn_Names :: "string list"
  sn_Aliases :: "string list"

record init_job =
  ij_Name :: string
  ij_Image :: string
  ij_Entrypoint :: "string list"
  ij_Command :: "string list"
  ij_Environment :: "(string, string) fmap"
  ij_Networks :: "service_networks option"
  ij_Secrets :: "object_ref list"
  ij_Configs :: "object_ref list"
  ij_Timeout :: duration

record job_request =
  jq_StackName :: string
  jq_ServiceName :: string
  jq_DefaultNetwork :: "string list"
  jq_NetworkTargets :: "(string, string) fmap"
  jq_ServiceSecrets :: "object_ref list"
  jq_ServiceConfigs :: "object_ref list"
  jq_ResolvedSecrets :: "(string, resolved_resource) fmap"
  jq_ResolvedConfigs :: "(string, resolved_resource) fmap"
  jq_Job :: init_job

record file_target =
  ft_Name :: string
  ft_UID :: string
  ft_GID :: string
  ft_Mode :: nat

record mounted_object =
  mo_ID :: string
  mo_Name :: string
  mo_File :: "file_target option"

text \<open>The job service: one replica, never restarted.\<close>

record job_service =
  js_Name :: string
  js_Labels :: "(string, string) fmap"
  js_Image :: string
  js_Command :: "string list"
  js_Args :: "string list"
  js_Env :: "string list"
  js_Networks :: "string list"
  js_Secrets :: "mounted_object list"
  js_Configs :: "mounted_object list"
  js_RestartCondition :: string
  js_Replicas :: "64 word"

datatype job_error =
    ImageRequired
  | NetworkUnresolved string docker_error
  | ObjectUnresolved docker_error
  | OptionsFailed docker_error
  | JobNotCreated string docker_error
  | JobWaitEnded string string
  | JobStatusUnknown string docker_error
  | JobFailed string string string "string list"
  | RunEnded string

record job_create_options =
  jo_EncodedRegistryAuth :: string
  jo_QueryRegistry :: bool

datatype job_event = CtxDone string | Tick "docker_error + (service_task \<times> string) list"

text \<open>
  The environment of one execution. \<open>je_Network\<close> answers \<open>Inr None\<close> for a network that does not exist. A
  listed task comes with its message. \<open>je_CtxErr\<close> is the error of the caller's context after the wait.
\<close>

record job_env =
  je_Network :: "string \<Rightarrow> docker_error + string option"
  je_ResolveSecret :: "string \<Rightarrow> string \<Rightarrow> docker_error + mounted_object"
  je_ResolveConfig :: "string \<Rightarrow> string \<Rightarrow> docker_error + mounted_object"
  je_ResolveImage :: "string \<Rightarrow> docker_error + string"
  je_Create :: "job_service \<Rightarrow> job_create_options \<Rightarrow> docker_error + string"
  je_Events :: "string \<Rightarrow> duration \<Rightarrow> job_event list"
  je_LogTail :: "string \<Rightarrow> docker_error + string \<times> bool"
  je_CtxErr :: "string option"
  je_Nano :: nat

text \<open>Go ranges over the environment in any order; the result is a set of assignments, here sorted by key.\<close>

definition initJobEnvironment :: "(string, string) fmap \<Rightarrow> string list" where
  "initJobEnvironment e = map (\<lambda>k. k @ ''='' @ map_str e k) (sorted_keys e)"

definition GetAliases :: "service_networks option \<Rightarrow> string list" where
  "GetAliases n = (case n of None \<Rightarrow> [] | Some n \<Rightarrow> sn_Aliases n)"

definition networkAliases :: "service_networks option \<Rightarrow> string list" where
  "networkAliases n = (case n of None \<Rightarrow> [] | Some s \<Rightarrow> if sn_Aliases s \<noteq> [] then sn_Aliases s else sn_Names s)"

fun first_network :: "job_env \<Rightarrow> string \<Rightarrow> string list \<Rightarrow> job_error + string" where
  "first_network env network [] = Inr network"
| "first_network env network (c # cs) =
     (case je_Network env c of
        Inl e \<Rightarrow> Inl (NetworkUnresolved c e)
      | Inr (Some i) \<Rightarrow> Inr i
      | Inr None \<Rightarrow> first_network env network cs)"

definition resolveNetworkTarget :: "job_env \<Rightarrow> string \<Rightarrow> string \<Rightarrow> job_error + string" where
  "resolveNetworkTarget env stack network =
     first_network env network (uniqueStrings
       ([network] @ (if HasPrefix network (stack @ ''_'') then [] else [stack @ ''_'' @ network]) @
        (if network = ''default'' then [stack @ ''_default''] else [])))"

fun attach_networks :: "job_env \<Rightarrow> job_request \<Rightarrow> string list \<Rightarrow> string list \<Rightarrow> job_error + string list" where
  "attach_networks env rq [] acc = Inr acc"
| "attach_networks env rq (n # ns) acc =
     (case (if map_str (jq_NetworkTargets rq) n \<noteq> '''' then Inr (map_str (jq_NetworkTargets rq) n)
            else resolveNetworkTarget env (jq_StackName rq) n) of
        Inl e \<Rightarrow> Inl e
      | Inr target \<Rightarrow> attach_networks env rq ns (if target \<noteq> '''' then acc @ [target] else acc))"

definition initJobNetworks :: "job_env \<Rightarrow> job_request \<Rightarrow> job_error + string list" where
  "initJobNetworks env rq =
     (let ns = networkAliases (ij_Networks (jq_Job rq))
      in attach_networks env rq (uniqueStrings (if ns = [] then jq_DefaultNetwork rq else ns)) [])"

definition objectMode :: "nat option \<Rightarrow> nat" where
  "objectMode m = (case m of None \<Rightarrow> 0x124 | Some m \<Rightarrow> m)"

definition objectOwner :: "object_ref \<Rightarrow> string \<times> string" where
  "objectOwner r = ((if or_Uid r = '''' then ''0'' else or_Uid r), (if or_Gid r = '''' then ''0'' else or_Gid r))"

definition file_of :: "object_ref \<Rightarrow> string \<Rightarrow> file_target" where
  "file_of r target =
     \<lparr>ft_Name = target, ft_UID = fst (objectOwner r), ft_GID = snd (objectOwner r), ft_Mode = objectMode (or_Mode r)\<rparr>"

definition resolvedSecretReference :: "object_ref \<Rightarrow> (string, resolved_resource) fmap \<Rightarrow> mounted_object option" where
  "resolvedSecretReference r resolved =
     map_option (\<lambda>x. \<lparr>mo_ID = rr_ID x, mo_Name = rr_Name x,
       mo_File = Some (file_of r (if or_Target r = '''' then ''/run/secrets/'' @ or_Source r else or_Target r))\<rparr>)
       (fmlookup resolved (or_Source r))"

definition resolvedConfigReference :: "object_ref \<Rightarrow> (string, resolved_resource) fmap \<Rightarrow> mounted_object option" where
  "resolvedConfigReference r resolved =
     map_option (\<lambda>x. \<lparr>mo_ID = rr_ID x, mo_Name = rr_Name x,
       mo_File = (if or_Target r = '''' then None else Some (file_of r (or_Target r)))\<rparr>)
       (fmlookup resolved (or_Source r))"

definition ref_key :: "object_ref \<Rightarrow> string" where
  "ref_key r = or_Source r @ ''|'' @ or_Target r"

fun merge_onto :: "object_ref list \<Rightarrow> object_ref list \<Rightarrow> object_ref list" where
  "merge_onto acc [] = acc"
| "merge_onto acc (r # rs) =
     merge_onto (if or_Source r = '''' \<or> ref_key r \<in> set (map ref_key acc) then acc else acc @ [r]) rs"

definition mergeObjectRefs :: "object_ref list \<Rightarrow> object_ref list \<Rightarrow> object_ref list" where
  "mergeObjectRefs a b = merge_onto [] (a @ b)"

fun mount_objects ::
    "(object_ref \<Rightarrow> mounted_object option) \<Rightarrow> (string \<Rightarrow> string \<Rightarrow> docker_error + mounted_object) \<Rightarrow> object_ref list \<Rightarrow>
     job_error + mounted_object list" where
  "mount_objects known ask [] = Inr []"
| "mount_objects known ask (r # rs) =
     (case (case known r of Some m \<Rightarrow> Inr m | None \<Rightarrow> ask (or_Source r) (or_Target r)) of
        Inl e \<Rightarrow> Inl (ObjectUnresolved e)
      | Inr m \<Rightarrow> (case mount_objects known ask rs of Inl e \<Rightarrow> Inl e | Inr ms \<Rightarrow> Inr (m # ms)))"

definition addInitJobObjects :: "job_env \<Rightarrow> job_request \<Rightarrow> job_error + mounted_object list \<times> mounted_object list" where
  "addInitJobObjects env rq =
     (case mount_objects (\<lambda>r. resolvedSecretReference r (jq_ResolvedSecrets rq)) (je_ResolveSecret env)
             (mergeObjectRefs (jq_ServiceSecrets rq) (ij_Secrets (jq_Job rq))) of
        Inl e \<Rightarrow> Inl e
      | Inr secrets \<Rightarrow>
          (case mount_objects (\<lambda>r. resolvedConfigReference r (jq_ResolvedConfigs rq)) (je_ResolveConfig env)
                  (mergeObjectRefs (jq_ServiceConfigs rq) (ij_Configs (jq_Job rq))) of
             Inl e \<Rightarrow> Inl e | Inr configs \<Rightarrow> Inr (secrets, configs)))"

definition buildInitServiceSpec :: "job_env \<Rightarrow> job_request \<Rightarrow> string \<Rightarrow> job_error + job_service" where
  "buildInitServiceSpec env rq name =
     (case initJobNetworks env rq of
        Inl e \<Rightarrow> Inl e
      | Inr networks \<Rightarrow>
          (case addInitJobObjects env rq of
             Inl e \<Rightarrow> Inl e
           | Inr (secrets, configs) \<Rightarrow>
               Inr \<lparr>js_Name = name,
                 js_Labels = fmupd ''org.swarm-deploy.init-job.service'' (jq_ServiceName rq)
                   (fmupd ''org.swarm-deploy.init-job.stack'' (jq_StackName rq)
                     (fmupd ''org.swarm-deploy.init-job.name'' name fmempty)),
                 js_Image = ij_Image (jq_Job rq), js_Command = ij_Entrypoint (jq_Job rq), js_Args = ij_Command (jq_Job rq),
                 js_Env = initJobEnvironment (ij_Environment (jq_Job rq)), js_Networks = networks,
                 js_Secrets = secrets, js_Configs = configs, js_RestartCondition = ''none'', js_Replicas = 1\<rparr>))"

definition buildInitServiceCreateOptions :: "job_env \<Rightarrow> string \<Rightarrow> docker_error + job_create_options" where
  "buildInitServiceCreateOptions env img =
     (case je_ResolveImage env img of
        Inl e \<Rightarrow> Inl e
      | Inr auth \<Rightarrow> Inr \<lparr>jo_EncodedRegistryAuth = auth, jo_QueryRegistry = (auth \<noteq> '''')\<rparr>)"

section \<open>One execution\<close>

text \<open>The newest task; \<open>sort.Slice\<close> keeps the order of equal elements up to twelve, beyond it is open.\<close>

definition newest_listed :: "(service_task \<times> string) list \<Rightarrow> (service_task \<times> string) option" where
  "newest_listed tasks =
     (case SortStableFunc (cmp_of_less (\<lambda>a b. st_UpdatedAt (fst b) < st_UpdatedAt (fst a))) tasks of
        [] \<Rightarrow> None | t # _ \<Rightarrow> Some t)"

fun state_name :: "task_state \<Rightarrow> string" where
  "state_name TaskStateFailed = ''failed''"
| "state_name TaskStateRejected = ''rejected''"
| "state_name TaskStateShutdown = ''shutdown''"
| "state_name TaskStateOrphaned = ''orphaned''"
| "state_name TaskStateRemove = ''remove''"
| "state_name _ = ''''"

definition failure_reason :: "service_task \<Rightarrow> string \<Rightarrow> string" where
  "failure_reason t msg =
     (if TrimSpace (st_Error t) \<noteq> '''' then TrimSpace (st_Error t)
      else if TrimSpace msg \<noteq> '''' then TrimSpace msg
      else state_name (st_CurrentState t))"

fun waitJob :: "string \<Rightarrow> job_event list \<Rightarrow> job_error option option" where
  "waitJob name [] = None"
| "waitJob name (CtxDone e # _) = Some (Some (JobWaitEnded name e))"
| "waitJob name (Tick (Inl e) # _) = Some (Some (JobStatusUnknown name e))"
| "waitJob name (Tick (Inr tasks) # rest) =
     (case newest_listed tasks of
        None \<Rightarrow> waitJob name rest
      | Some (t, msg) \<Rightarrow>
          if st_CurrentState t = TaskStateComplete then Some None
          else if st_CurrentState t \<in> {TaskStateFailed, TaskStateRejected, TaskStateShutdown, TaskStateOrphaned, TaskStateRemove}
          then Some (Some (JobFailed (st_ID t) name (failure_reason t msg) []))
          else waitJob name rest)"

datatype job_status = Succeeded | Failed | Interrupted

record job_result =
  jr_ServiceName :: string
  jr_JobName :: string
  jr_Status :: job_status
  jr_Logs :: string
  jr_LogsAvailable :: bool
  jr_LogsTruncated :: bool

definition initJobExecutionStatus :: "job_error option \<Rightarrow> job_status" where
  "initJobExecutionStatus e = (case e of None \<Rightarrow> Succeeded | Some (JobFailed _ _ _ _) \<Rightarrow> Failed | Some _ \<Rightarrow> Interrupted)"

definition loadServiceLogs :: "job_env \<Rightarrow> string \<Rightarrow> (string \<times> bool) option" where
  "loadServiceLogs env i =
     (if je_CtxErr env \<noteq> None then None
      else case je_LogTail env i of Inl _ \<Rightarrow> None | Inr (logs, truncated) \<Rightarrow> Some (logs, truncated))"

fun split_lines :: "string \<Rightarrow> string \<Rightarrow> string list" where
  "split_lines acc [] = [acc]"
| "split_lines acc (c # s) = (if c = CHR 0x0A then acc # split_lines [] s else split_lines (acc @ [c]) s)"

definition initJobDiagnosticLogLines :: "string \<Rightarrow> string list" where
  "initJobDiagnosticLogLines logs = (if TrimSpace logs = '''' then [] else split_lines [] (TrimSpace logs))"

definition attach_logs :: "(string \<times> bool) option \<Rightarrow> job_error option \<Rightarrow> job_error option" where
  "attach_logs logs e =
     (case (logs, e) of
        (Some (text, _), Some (JobFailed i name reason _)) \<Rightarrow> Some (JobFailed i name reason (initJobDiagnosticLogLines text))
      | _ \<Rightarrow> e)"

definition job_timeout :: "duration \<Rightarrow> duration \<Rightarrow> duration" where
  "job_timeout configured own = (if 0 < own then own else configured)"

record delete_task =
  dt_serviceID :: string
  dt_serviceName :: string

text \<open>
  One execution: the result, which Go leaves zero unless the service was created, the error, and the task
  that the deferred call hands to the cleanup.
\<close>

definition Run ::
    "job_env \<Rightarrow> duration \<Rightarrow> job_request \<Rightarrow> (job_result option \<times> job_error option \<times> delete_task option) option" where
  "Run env timeout rq =
     (let job = jq_Job rq; name = jq_StackName rq @ ''_'' @ BuildName (ij_Name job) (je_Nano env)
      in if ij_Image job = '''' then Some (None, Some ImageRequired, None)
         else case buildInitServiceSpec env rq name of
           Inl e \<Rightarrow> Some (None, Some e, None)
         | Inr spec \<Rightarrow>
             (case buildInitServiceCreateOptions env (ij_Image job) of
                Inl e \<Rightarrow> Some (None, Some (OptionsFailed e), None)
              | Inr opts \<Rightarrow>
                  (case je_Create env spec opts of
                     Inl e \<Rightarrow> Some (None, Some (JobNotCreated name e), None)
                   | Inr i \<Rightarrow>
                       (case waitJob name (je_Events env i (job_timeout timeout (ij_Timeout job))) of
                          None \<Rightarrow> None
                        | Some waited \<Rightarrow>
                            let logs = loadServiceLogs env i;
                                err = (case waited of None \<Rightarrow> map_option RunEnded (je_CtxErr env) | Some e \<Rightarrow> Some e)
                            in Some (Some \<lparr>jr_ServiceName = jq_ServiceName rq, jr_JobName = ij_Name job,
                                       jr_Status = initJobExecutionStatus err,
                                       jr_Logs = (case logs of None \<Rightarrow> '''' | Some (text, _) \<Rightarrow> text),
                                       jr_LogsAvailable = (logs \<noteq> None),
                                       jr_LogsTruncated = (case logs of None \<Rightarrow> False | Some (_, shortened) \<Rightarrow> shortened)\<rparr>,
                                     attach_logs logs err, Some \<lparr>dt_serviceID = i, dt_serviceName = name\<rparr>)))))"

section \<open>Cleanup\<close>

definition initJobDeleteTasksBuffer :: nat where
  "initJobDeleteTasksBuffer = 128"

definition initJobDeleteRetryAttempts :: nat where
  "initJobDeleteRetryAttempts = 5"

text \<open>
  The retry library is a parameter: allowed a number of attempts, it is given what the attempts in turn
  return, true for no error, and tells whether it returns without an error.
\<close>

type_synonym retry_library = "nat \<Rightarrow> bool list \<Rightarrow> bool"

definition removal_done :: "docker_fault option \<Rightarrow> bool" where
  "removal_done answer \<longleftrightarrow> answer = None \<or> answer = Some ServiceNotFound"

definition removeServiceWithRetry :: "retry_library \<Rightarrow> docker_fault option list \<Rightarrow> bool" where
  "removeServiceWithRetry retry as = retry initJobDeleteRetryAttempts (map removal_done as)"

text \<open>
  The queue: the buffered channel, the wake channel of capacity one, the overflow list, and where the
  goroutines are: the worker, the callers that remove a service themselves because the channel was full,
  and the number of callers that have put a task in the overflow and not yet signalled it. What was handed
  over and what was dealt with, with the answers of Docker, is recorded. The channel is never closed.
\<close>

datatype worker_place = Receiving | Removing delete_task | Draining

record cleaner =
  cl_deleteTasks :: "delete_task list"
  cl_deleteWake :: bool
  cl_deleteOverflow :: "delete_task list"
  cl_worker :: worker_place
  cl_fallback :: "delete_task list"
  cl_waking :: nat
  cl_enqueued :: "delete_task list"
  cl_settled :: "(delete_task \<times> docker_fault option list) list"

definition new_cleaner :: cleaner where
  "new_cleaner =
     \<lparr>cl_deleteTasks = [], cl_deleteWake = False, cl_deleteOverflow = [], cl_worker = Receiving, cl_fallback = [],
      cl_waking = 0, cl_enqueued = [], cl_settled = []\<rparr>"

definition enqueueDeleteTask :: "delete_task \<Rightarrow> cleaner \<Rightarrow> cleaner" where
  "enqueueDeleteTask t c =
     (let c = c\<lparr>cl_enqueued := cl_enqueued c @ [t]\<rparr>
      in if length (cl_deleteTasks c) < initJobDeleteTasksBuffer
         then c\<lparr>cl_deleteTasks := cl_deleteTasks c @ [t]\<rparr>
         else c\<lparr>cl_fallback := cl_fallback c @ [t]\<rparr>)"

definition fallback_removed :: "retry_library \<Rightarrow> delete_task \<Rightarrow> docker_fault option list \<Rightarrow> cleaner \<Rightarrow> cleaner" where
  "fallback_removed retry t as c =
     (let c = c\<lparr>cl_fallback := remove1 t (cl_fallback c)\<rparr>
      in if removeServiceWithRetry retry as then c\<lparr>cl_settled := cl_settled c @ [(t, as)]\<rparr>
         else c\<lparr>cl_deleteOverflow := cl_deleteOverflow c @ [t], cl_waking := Suc (cl_waking c)\<rparr>)"

definition wake_worker :: "cleaner \<Rightarrow> cleaner" where
  "wake_worker c = c\<lparr>cl_deleteWake := True, cl_waking := cl_waking c - 1\<rparr>"

text \<open>
  The next step of the worker, \<open>None\<close> if it blocks. The select takes the wake channel if \<open>woken\<close>; \<open>as\<close> are
  the answers to its removal.
\<close>

definition runDeleteWorker :: "bool \<Rightarrow> docker_fault option list \<Rightarrow> cleaner \<Rightarrow> cleaner option" where
  "runDeleteWorker woken as c =
     (case cl_worker c of
        Receiving \<Rightarrow>
          if woken then (if cl_deleteWake c then Some (c\<lparr>cl_deleteWake := False, cl_worker := Draining\<rparr>) else None)
          else (case cl_deleteTasks c of [] \<Rightarrow> None | t # ts \<Rightarrow> Some (c\<lparr>cl_deleteTasks := ts, cl_worker := Removing t\<rparr>))
      | Removing t \<Rightarrow> Some (c\<lparr>cl_settled := cl_settled c @ [(t, as)], cl_worker := Draining\<rparr>)
      | Draining \<Rightarrow>
          (case cl_deleteOverflow c of
             [] \<Rightarrow> Some (c\<lparr>cl_worker := Receiving\<rparr>)
           | t # ts \<Rightarrow> Some (c\<lparr>cl_deleteOverflow := ts, cl_worker := Removing t\<rparr>)))"

text \<open>The worker's context never ends: the library only stops without an error or after the last attempt.\<close>

inductive cleanup_step :: "retry_library \<Rightarrow> cleaner \<Rightarrow> cleaner \<Rightarrow> bool" for retry where
  fallback: "t \<in> set (cl_fallback c) \<Longrightarrow> cleanup_step retry c (fallback_removed retry t as c)"
| wake: "0 < cl_waking c \<Longrightarrow> cleanup_step retry c (wake_worker c)"
| worker: "removeServiceWithRetry retry as \<or> length as = initJobDeleteRetryAttempts \<Longrightarrow>
    runDeleteWorker woken as c = Some c' \<Longrightarrow> cleanup_step retry c c'"

inductive cleaner_step :: "retry_library \<Rightarrow> cleaner \<Rightarrow> cleaner \<Rightarrow> bool" for retry where
  enqueue: "cleaner_step retry c (enqueueDeleteTask t c)"
| cleanup: "cleanup_step retry c c' \<Longrightarrow> cleaner_step retry c c'"

section \<open>The cleanup loses no service\<close>

definition held :: "worker_place \<Rightarrow> delete_task multiset" where
  "held w = (case w of Removing t \<Rightarrow> {#t#} | _ \<Rightarrow> {#})"

definition open_tasks :: "cleaner \<Rightarrow> delete_task multiset" where
  "open_tasks c = mset (cl_deleteTasks c) + mset (cl_deleteOverflow c) + held (cl_worker c) + mset (cl_fallback c)"

definition settled_rightly :: "retry_library \<Rightarrow> delete_task \<times> docker_fault option list \<Rightarrow> bool" where
  "settled_rightly retry x \<longleftrightarrow> removeServiceWithRetry retry (snd x) \<or> length (snd x) = initJobDeleteRetryAttempts"

definition cleaner_inv :: "retry_library \<Rightarrow> cleaner \<Rightarrow> bool" where
  "cleaner_inv retry c \<longleftrightarrow>
     length (cl_deleteTasks c) \<le> initJobDeleteTasksBuffer \<and>
     mset (cl_enqueued c) = open_tasks c + mset (map fst (cl_settled c)) \<and>
     list_all (settled_rightly retry) (cl_settled c) \<and>
     (cl_deleteOverflow c \<noteq> [] \<and> cl_worker c = Receiving \<longrightarrow> cl_deleteWake c \<or> 0 < cl_waking c)"

lemma runDeleteWorker_inv:
  assumes "cleaner_inv retry c" "runDeleteWorker woken as c = Some c'" "settled_rightly retry (undefined, as)"
  shows "cleaner_inv retry c'"
  using assms
  by (auto simp: cleaner_inv_def runDeleteWorker_def open_tasks_def held_def settled_rightly_def
      split: worker_place.splits list.splits if_splits)

lemma cleanup_step_inv: "cleanup_step retry c c' \<Longrightarrow> cleaner_inv retry c \<Longrightarrow> cleaner_inv retry c'"
proof (induction rule: cleanup_step.induct)
  case (fallback t c as)
  then have "mset (cl_fallback c) = add_mset t (mset (remove1 t (cl_fallback c)))" by simp
  then show ?case using fallback
    by (auto simp: cleaner_inv_def fallback_removed_def open_tasks_def settled_rightly_def Let_def)
next
  case (wake c)
  then show ?case by (auto simp: cleaner_inv_def wake_worker_def open_tasks_def)
next
  case (worker as woken c c')
  then show ?case using runDeleteWorker_inv by (auto simp: settled_rightly_def)
qed

lemma cleaner_step_inv: "cleaner_step retry c c' \<Longrightarrow> cleaner_inv retry c \<Longrightarrow> cleaner_inv retry c'"
proof (induction rule: cleaner_step.induct)
  case (enqueue c t)
  then show ?case by (auto simp: cleaner_inv_def enqueueDeleteTask_def open_tasks_def Let_def)
qed (rule cleanup_step_inv)

interpretation cleaning: inductive_invariant "(=) new_cleaner" "cleaner_step retry" "cleaner_inv retry" for retry
  by unfold_locales
    (auto simp: cleaner_step_inv, simp add: cleaner_inv_def new_cleaner_def open_tasks_def held_def)

text \<open>Every step of the cleanup makes progress.\<close>

definition worker_effort :: "worker_place \<Rightarrow> nat" where
  "worker_effort w = (case w of Receiving \<Rightarrow> 0 | Draining \<Rightarrow> 1 | Removing _ \<Rightarrow> 2)"

definition effort :: "cleaner \<Rightarrow> nat" where
  "effort c = 3 * length (cl_deleteTasks c) + 2 * length (cl_deleteOverflow c) + 6 * length (cl_fallback c) +
     3 * cl_waking c + (if cl_deleteWake c then 2 else 0) + worker_effort (cl_worker c)"

lemma cleanup_step_effort: "cleanup_step retry c c' \<Longrightarrow> effort c' < effort c"
proof (induction rule: cleanup_step.induct)
  case (fallback t c as)
  then have "length (cl_fallback c) = Suc (length (remove1 t (cl_fallback c)))"
    by (metis length_Cons length_remove1 One_nat_def Suc_pred length_pos_if_in_set)
  then show ?case by (simp add: effort_def fallback_removed_def Let_def)
next
  case (wake c)
  then show ?case by (cases "cl_waking c") (auto simp: effort_def wake_worker_def)
next
  case (worker as woken c c')
  then show ?case
    by (auto simp: effort_def worker_effort_def runDeleteWorker_def split: worker_place.splits list.splits if_splits)
qed

text \<open>The cleanup only stands still when there is nothing left.\<close>

lemma worker_idle:
  assumes "\<And>c'. \<not> cleanup_step retry c c'"
  shows "cl_worker c = Receiving \<and> cl_deleteTasks c = [] \<and> \<not> cl_deleteWake c"
proof -
  let ?as = "replicate 5 (Some ServiceConflict)"
  have "runDeleteWorker woken ?as c = None" for woken
    using assms worker [of retry ?as woken c] by (cases "runDeleteWorker woken ?as c") (auto simp: initJobDeleteRetryAttempts_def)
  from this [of True] this [of False] show ?thesis
    by (auto simp: runDeleteWorker_def split: worker_place.splits list.splits if_splits)
qed

lemma idle_settled:
  assumes "\<And>c'. \<not> cleanup_step retry c c'" "cleaner_inv retry c"
  shows "open_tasks c = {#}"
proof -
  have "cl_fallback c = []" using assms(1) fallback [of _ c retry] by (cases "cl_fallback c") auto
  moreover have "cl_waking c = 0" using assms(1) wake [of c retry] by auto
  ultimately show ?thesis using worker_idle [OF assms(1)] assms(2) by (auto simp: cleaner_inv_def open_tasks_def held_def)
qed

lemma cleanup_keeps_enqueued: "(cleanup_step retry)\<^sup>*\<^sup>* c c' \<Longrightarrow> cl_enqueued c' = cl_enqueued c"
proof (induction rule: rtranclp_induct)
  case (step d e)
  from step(2) have "cl_enqueued e = cl_enqueued d"
    by cases (auto simp: fallback_removed_def wake_worker_def runDeleteWorker_def Let_def
        split: worker_place.splits list.splits if_splits)
  with step show ?case by simp
qed simp


lemma comes_to_rest:
  assumes "wfp (\<lambda>d' d. r d d')"
  shows "\<exists>c'. r\<^sup>*\<^sup>* c c' \<and> (\<nexists>d. r c' d)"
  using assms
proof (induction c rule: wfp_induct_rule)
  case (less c)
  show ?case
  proof (cases "\<exists>d. r c d")
    case True
    then obtain d where d: "r c d" by blast
    from less [OF d] obtain c' where "r\<^sup>*\<^sup>* d c'" "\<nexists>d. r c' d" by blast
    with d show ?thesis by (meson converse_rtranclp_into_rtranclp)
  qed blast
qed

definition sample_delete :: delete_task where
  "sample_delete = \<lparr>dt_serviceID = ''j1'', dt_serviceName = ''shop_migrate-1''\<rparr>"

text \<open>A retry library that stops at the first success and gives up after the allowed attempts.\<close>

definition first_success :: retry_library where
  "first_success n as \<longleftrightarrow> True \<in> set (take n as)"


section \<open>The outcome of an execution\<close>

lemma SortStableFunc_head:
  assumes "SortStableFunc cmp xs = y # ys"
  shows "y \<in> set xs"
  using set_SortStableFunc [of cmp xs] assms by (metis list.set_intros(1))

lemma newest_listed_in: "newest_listed tasks = Some t \<Longrightarrow> t \<in> set tasks"
  by (auto simp: newest_listed_def split: list.splits dest: SortStableFunc_head)

lemma waitJob_completed:
  assumes "waitJob name evs = Some None"
  shows "\<exists>tasks t msg. Tick (Inr tasks) \<in> set evs \<and> newest_listed tasks = Some (t, msg) \<and> st_CurrentState t = TaskStateComplete"
  using assms
proof (induction name evs rule: waitJob.induct)
  case (4 name tasks rest)
  show ?case
  proof (cases "newest_listed tasks")
    case None
    then show ?thesis using 4 by (simp, blast)
  next
    case (Some x)
    show ?thesis
    proof (cases "st_CurrentState (fst x) = TaskStateComplete")
      case True
      with Some show ?thesis by (cases x) auto
    next
      case False
      then have "waitJob name rest = Some None" using 4(3) Some by (auto split: if_splits prod.splits)
      moreover from this have "\<exists>tasks t msg. Tick (Inr tasks) \<in> set rest \<and> newest_listed tasks = Some (t, msg) \<and>
          st_CurrentState t = TaskStateComplete"
        using 4(2) [OF Some, of "fst x" "snd x"] 4(3) Some False by (auto split: if_splits prod.splits)
      ultimately show ?thesis by auto
    qed
  qed
qed simp_all

lemma waitJob_ends: "CtxDone e \<in> set evs \<Longrightarrow> \<exists>r. waitJob name evs = Some r"
  by (induction name evs rule: waitJob.induct) (auto split: option.splits prod.splits)

lemma attach_logs_None [simp]: "attach_logs logs e = None \<longleftrightarrow> e = None"
  by (auto simp: attach_logs_def split: option.splits job_error.splits prod.splits)

lemma status_attach_logs: "initJobExecutionStatus (attach_logs logs e) = initJobExecutionStatus e"
  by (auto simp: attach_logs_def initJobExecutionStatus_def split: option.splits job_error.splits prod.splits)

lemma status_succeeded: "initJobExecutionStatus e = Succeeded \<longleftrightarrow> e = None"
  by (auto simp: initJobExecutionStatus_def split: option.splits job_error.splits)

definition job_service_name :: "job_env \<Rightarrow> job_request \<Rightarrow> string" where
  "job_service_name env rq = jq_StackName rq @ ''_'' @ BuildName (ij_Name (jq_Job rq)) (je_Nano env)"

text \<open>What an execution has done when it returns.\<close>

lemma Run_cases:
  assumes "Run env timeout rq = Some (res, err, del)"
  obtains (refused) e where "res = None" "err = Some e" "del = None"
  | (ran) spec opts i waited x where
      "buildInitServiceSpec env rq (job_service_name env rq) = Inr spec" "je_Create env spec opts = Inr i"
      "waitJob (job_service_name env rq) (je_Events env i (job_timeout timeout (ij_Timeout (jq_Job rq)))) = Some waited"
      "del = Some \<lparr>dt_serviceID = i, dt_serviceName = job_service_name env rq\<rparr>"
      "res = Some x" "jr_Status x = initJobExecutionStatus err"
      "err = None \<longleftrightarrow> waited = None \<and> je_CtxErr env = None"
      "jr_ServiceName x = jq_ServiceName rq" "jr_JobName x = ij_Name (jq_Job rq)"
  using assms
  by (auto simp: Run_def Let_def job_service_name_def status_attach_logs split: if_splits sum.splits option.splits prod.splits)

lemma Run_outcome:
  assumes "Run env timeout rq = Some (res, err, del)"
  shows "(res = None \<longleftrightarrow> del = None) \<and> (res = None \<longrightarrow> err \<noteq> None) \<and>
    (\<forall>x. res = Some x \<longrightarrow> (jr_Status x = Succeeded \<longleftrightarrow> err = None)) \<and>
    (err = None \<longrightarrow> (\<exists>spec opts i tasks t msg d. je_Create env spec opts = Inr i \<and> Tick (Inr tasks) \<in> set (je_Events env i d) \<and>
       newest_listed tasks = Some (t, msg) \<and> st_CurrentState t = TaskStateComplete))"
  using assms
proof (cases rule: Run_cases)
  case (ran spec opts i waited x)
  have "\<exists>tasks t msg d. Tick (Inr tasks) \<in> set (je_Events env i d) \<and> newest_listed tasks = Some (t, msg) \<and>
      st_CurrentState t = TaskStateComplete" if "err = None"
    using waitJob_completed ran that by blast
  then have "err = None \<longrightarrow> (\<exists>spec opts i tasks t msg d. je_Create env spec opts = Inr i \<and> Tick (Inr tasks) \<in> set (je_Events env i d) \<and>
       newest_listed tasks = Some (t, msg) \<and> st_CurrentState t = TaskStateComplete)" using ran(2) by metis
  then show ?thesis using ran(4-6) by (simp add: status_succeeded)
qed simp

section \<open>Valid names\<close>

lemma name_char_digit: "(n :: nat) < 10 \<Longrightarrow> name_char (char_of (48 + n))"
proof -
  assume "n < 10"
  then have "n \<in> {0, 1, 2, 3, 4, 5, 6, 7, 8, 9}" by auto
  then show ?thesis by (auto simp: name_char_def less_eq_char_def)
qed

lemma decimal_digits: "decimal n \<noteq> [] \<and> list_all name_char (decimal n)"
proof (induction n rule: less_induct)
  case (less n)
  then show ?case using name_char_digit [of n] name_char_digit [of "n mod 10"]
    by (subst (1 2) decimal.simps) (cases "n < 10"; simp)
qed

lemma dash_no_name: "name_char c \<Longrightarrow> c \<noteq> CHR ''-''"
  by (auto simp: name_char_def less_eq_char_def)

definition dns_char :: "char \<Rightarrow> bool" where
  "dns_char c \<longleftrightarrow> name_char c \<or> c = CHR ''-''"

lemma replace_runes_chars: "list_all dns_char (replace_runes s)"
  by (induction s rule: replace_runes.induct) (auto simp: dns_char_def Let_def)

text \<open>A label that a service name can begin with: it consists of lower case letters, digits and inner dashes.\<close>

definition label :: "string \<Rightarrow> bool" where
  "label s \<longleftrightarrow> s \<noteq> [] \<and> list_all dns_char s \<and> name_char (hd s) \<and> name_char (last s)"

lemma trim_dashes_label:
  assumes "list_all dns_char s" "trim_dashes s \<noteq> []"
  shows "label (trim_dashes s)"
proof -
  let ?d = "\<lambda>c. c = CHR ''-''"
  let ?a = "dropWhile ?d s"
  let ?b = "dropWhile ?d (rev ?a)"
  have b: "?b \<noteq> []" using assms(2) by (simp add: trim_dashes_def)
  have a: "?a \<noteq> []" using b by (metis dropWhile.simps(1) rev.simps(1))
  have chars: "list_all dns_char ?b"
    using assms(1) unfolding list_all_iff by (metis set_dropWhileD set_rev)
  have "hd ?b \<noteq> CHR ''-''" using hd_dropWhile [OF b] by simp
  moreover have "last ?b = hd ?a"
  proof -
    obtain us where "rev ?a = us @ ?b" by (metis takeWhile_dropWhile_id)
    then have "last ?b = last (rev ?a)" using b by (metis last_appendR)
    then show ?thesis using a by (simp add: last_rev)
  qed
  moreover have "hd ?a \<noteq> CHR ''-''" using hd_dropWhile [OF a] by simp
  moreover have "dns_char (hd ?b)" "dns_char (last ?b)" using chars b by (simp_all add: list_all_iff)
  ultimately show ?thesis using chars b by (simp add: label_def trim_dashes_def hd_rev last_rev list_all_iff dns_char_def)
qed

lemma sanitizeForName_label: "label (sanitizeForName v)"
proof -
  have "label ''job''" by (simp add: label_def dns_char_def name_char_def less_eq_char_def)
  then show ?thesis using trim_dashes_label [OF replace_runes_chars, of v] by (simp add: sanitizeForName_def Let_def)
qed

lemma dns_code:
  assumes "dns_char c"
  shows "(of_char c :: nat) < 128 \<and> \<not> (65 \<le> (of_char c :: nat) \<and> (of_char c :: nat) \<le> 90)"
proof -
  have "(97 \<le> (of_char c :: nat) \<and> (of_char c :: nat) \<le> 122) \<or> (48 \<le> (of_char c :: nat) \<and> (of_char c :: nat) \<le> 57) \<or> c = CHR ''-''"
    using assms by (simp add: dns_char_def name_char_def less_eq_char_def)
  then show ?thesis by (elim disjE) simp_all
qed

lemma lower_name:
  assumes "dns_char c"
  shows "lower_step c s = (c, s) \<and> rune_tail c s = 0"
proof -
  note n = dns_code [OF assms]
  have "c \<noteq> CHR 0xE2" "c \<noteq> CHR 0xC4" using n by auto
  then have "lower_step c s = (lower_char c, s)" by (simp add: lower_step_def)
  moreover have "lower_char c = c" using n unfolding lower_char_def by presburger
  moreover have "rune_tail c s = 0" using n by (simp add: rune_tail_def Let_def)
  ultimately show ?thesis by simp
qed

lemma replace_runes_name: "list_all dns_char s \<Longrightarrow> replace_runes s = s"
proof (induction s)
  case (Cons c s)
  then show ?case using lower_name [of c s] by (auto simp: dns_char_def Let_def)
qed simp

lemma trim_dashes_id: "label s \<Longrightarrow> trim_dashes s = s"
proof -
  assume "label s"
  then have "s \<noteq> []" "hd s \<noteq> CHR ''-''" "last s \<noteq> CHR ''-''" by (auto simp: label_def dest: dash_no_name)
  then have "dropWhile (\<lambda>c. c = CHR ''-'') s = s" "dropWhile (\<lambda>c. c = CHR ''-'') (rev s) = rev s"
    by (cases s, simp_all, metis dropWhile_eq_self_iff hd_rev)
  then show ?thesis by (simp add: trim_dashes_def)
qed

text \<open>
  C17. Every job name becomes a valid service name: whatever bytes it contains, the name that is built has
  only lower case letters, digits and dashes and neither begins nor ends with a dash. A job name of that
  form is kept as it is.
\<close>

theorem job_name_valid:
  "label (BuildName name nano) \<and> (label name \<longrightarrow> sanitizeForName name = name)"
proof -
  have d: "decimal nano \<noteq> []" "list_all dns_char (decimal nano)" "name_char (last (decimal nano))"
    using decimal_digits [of nano] by (auto simp: list_all_iff dns_char_def)
  have "sanitizeForName name = name" if "label name"
    using that replace_runes_name [of name] trim_dashes_id [of name] by (simp add: sanitizeForName_def label_def)
  then show ?thesis using sanitizeForName_label [of name] d
    by (auto simp: label_def BuildName_def dns_char_def last_append)
qed

theorem job_name_valid_witness:
  "sanitizeForName ''db-migrate2'' = ''db-migrate2'' \<and> label (BuildName ''DB Migrate!'' 17) \<and>
   BuildName ''DB Migrate!'' 17 = ''db-migrate-17''"
proof -
  have "label ''db-migrate2''" by (simp add: label_def dns_char_def name_char_def less_eq_char_def)
  moreover have "BuildName ''DB Migrate!'' 17 = ''db-migrate-17''" by code_simp
  ultimately show ?thesis using job_name_valid by blast
qed

end
