(* ===== verification/Deployer.thy ===== *)
theory Deployer
  imports InitJob
begin

text \<open>
  The deployment pipelines (\<open>internal/modules/deployments/deployer/pipeline.go\<close>, \<open>deployer.go\<close>, \<open>payload.go\<close>)
  and the selection of one service (\<open>deployer/stack/compose.go\<close>): validation, networks, configs and secrets,
  conversion, Init Jobs, a baseline of the services, the apply and the wait, composed from their models.

  The converter is a parameter: what it accepts, which networks it plans and which specifications it
  makes. So is the pipeline library, with what it documents as \<open>runs_in_order\<close>. \<open>None\<close> is a deployment that is still waiting. The
  log lines that decorate errors, deadlines and spans are left out.
\<close>

section \<open>One service of a Compose file\<close>

record desired_service =
  dsv_Name :: string
  dsv_InitJobs :: "init_job list"
  dsv_Networks :: "service_networks option"
  dsv_Secrets :: "object_ref list"
  dsv_Configs :: "object_ref list"
  dsv_CredentialConfig :: string
  dsv_Volumes :: "(string \<times> string) list"
  dsv_Other :: string

record stack_compose =
  scp_Services :: "desired_service list"
  scp_Networks :: "(string, string) fmap"
  scp_Configs :: "(string, compose_config) fmap"
  scp_Secrets :: "(string, compose_secret) fmap"
  scp_Volumes :: "(string, string) fmap"

definition add_key :: "(string, 'a) fmap \<Rightarrow> string \<Rightarrow> (string, 'a) fmap \<Rightarrow> (string, 'a) fmap" where
  "add_key objects k selected = (case fmlookup objects k of None \<Rightarrow> selected | Some v \<Rightarrow> fmupd k v selected)"

definition select_keys :: "(string, 'a) fmap \<Rightarrow> string list \<Rightarrow> (string, 'a) fmap" where
  "select_keys objects keys = fold (add_key objects) keys fmempty"

definition selectNetworks :: "(string, string) fmap \<Rightarrow> desired_service \<Rightarrow> (string, string) fmap" where
  "selectNetworks networks service =
     select_keys networks
       ((if GetAliases (dsv_Networks service) = [] then [''default''] else GetAliases (dsv_Networks service)) @
        concat (map (\<lambda>job. GetAliases (ij_Networks job)) (dsv_InitJobs service)))"

definition selectObjects :: "(string, 'a) fmap \<Rightarrow> object_ref list \<Rightarrow> (string, 'a) fmap" where
  "selectObjects objects refs = select_keys objects (map or_Source refs)"

definition EffectiveType :: "string \<Rightarrow> string" where
  "EffectiveType t = (if t = '''' then ''volume'' else t)"

definition selectVolumes :: "(string, string) fmap \<Rightarrow> (string \<times> string) list \<Rightarrow> (string, string) fmap" where
  "selectVolumes volumes refs = select_keys volumes (map snd (filter (\<lambda>r. EffectiveType (fst r) = ''volume'') refs))"

definition credential_ref :: "desired_service \<Rightarrow> object_ref list" where
  "credential_ref service =
     (if dsv_CredentialConfig service = '''' then []
      else [\<lparr>or_Source = dsv_CredentialConfig service, or_Target = '''', or_Mode = None, or_Gid = '''', or_Uid = ''''\<rparr>])"

definition SingleServiceCompose :: "stack_compose \<Rightarrow> string \<Rightarrow> stack_compose option" where
  "SingleServiceCompose desired name =
     (case find (\<lambda>s. dsv_Name s = name) (scp_Services desired) of
        None \<Rightarrow> None
      | Some service \<Rightarrow>
          Some (desired\<lparr>scp_Services := [service], scp_Networks := selectNetworks (scp_Networks desired) service,
            scp_Secrets := selectObjects (scp_Secrets desired) (dsv_Secrets service),
            scp_Configs := selectObjects (scp_Configs desired) (dsv_Configs service @ credential_ref service),
            scp_Volumes := selectVolumes (scp_Volumes desired) (dsv_Volumes service)\<rparr>))"

section \<open>Environment, payload and errors\<close>

record converted_stack =
  cv_Services :: "service_spec list"
  cv_Networks :: "planned_network list"

datatype step_error =
    ServiceNotInCompose string
  | ValidationFailed string
  | PlanFailed string
  | NetworksFailed resource_error
  | SecretsUnresolved resource_error
  | ResourcesFailed resource_error
  | ConversionFailed string
  | InitJobStopped string string job_error
  | BaselineFailed string docker_error
  | ApplyStopped "apply_error list"
  | WaitFailed string "wait_error list"

record deploy_result =
  dr_SpecificationOnlyServices :: "string list"
  dr_Known :: bool
  dr_UnresolvedServices :: "string list"
  dr_InitJobs :: "job_result list"

text \<open>
  The payload of a pipeline, with the state of what it drives: the calls for networks, configs and
  secrets, the state of the applier, the tasks handed to the cleanup of Init Jobs and their number.
\<close>

record deploy_state =
  pl_baseline :: "stack_service list"
  pl_changed :: "string list"
  pl_updateGenerations :: "(string, update_generation) fmap"
  pl_converted :: converted_stack
  pl_resolved :: resolved_objects
  pl_prepared :: stack_compose
  pl_result :: deploy_result
  pl_calls :: call_log
  pl_apply :: apply_state
  pl_deletes :: "delete_task list"
  pl_jobs :: nat

type_synonym deploy_step = "deploy_state \<Rightarrow> (step_error option \<times> deploy_state) option"

record deploy_env =
  dv_RunPipeline :: "(string \<times> bool \<times> deploy_step) list \<Rightarrow> deploy_state \<Rightarrow> ((string \<times> step_error) option \<times> deploy_state) option"
  dv_Ops :: spec_ops
  dv_Apply :: apply_env
  dv_Resources :: resource_env
  dv_Decoders :: "secret_decoder list"
  dv_Job :: "nat \<Rightarrow> job_env"
  dv_JobTimeout :: duration
  dv_Validate :: "string \<Rightarrow> stack_compose \<Rightarrow> string option"
  dv_PlanNetworks :: "string \<Rightarrow> stack_compose \<Rightarrow> string + planned_network list"
  dv_Convert :: "string \<Rightarrow> stack_compose \<Rightarrow> string + converted_stack"
  dv_Snapshot :: "docker_error + stack_service list"
  dv_Polls :: "poll_answer list"

text \<open>
  What the pipeline library documents: it runs the steps in order, each with its name and the value of its
  condition, skips a step whose condition is false, and stops at the first error, which carries the name
  of its step.
\<close>

fun run_pipeline :: "(string \<times> bool \<times> deploy_step) list \<Rightarrow> deploy_state \<Rightarrow> ((string \<times> step_error) option \<times> deploy_state) option" where
  "run_pipeline [] st = Some (None, st)"
| "run_pipeline ((name, enabled, step) # steps) st =
     (if \<not> enabled then run_pipeline steps st
      else case step st of
             None \<Rightarrow> None
           | Some (Some e, st) \<Rightarrow> Some (Some (name, e), st)
           | Some (None, st) \<Rightarrow> run_pipeline steps st)"

definition runs_in_order :: "deploy_env \<Rightarrow> bool" where
  "runs_in_order env \<longleftrightarrow> (\<forall>steps st. dv_RunPipeline env steps st = run_pipeline steps st)"

record stack_request =
  srq_StackName :: string
  srq_SourceComposePath :: string
  srq_Desired :: stack_compose
  srq_UnresolvedServices :: "string list"
  srq_UpdateGenerations :: "(string, update_generation) fmap"
  srq_RetryFailedUpdates :: bool
  srq_RecordsUpdates :: bool

section \<open>Steps\<close>

definition validate_step :: "deploy_env \<Rightarrow> string \<Rightarrow> (deploy_state \<Rightarrow> stack_compose) \<Rightarrow> deploy_step" where
  "validate_step env stack desired st = Some (map_option ValidationFailed (dv_Validate env stack (desired st)), st)"

definition networks_step :: "deploy_env \<Rightarrow> string \<Rightarrow> (deploy_state \<Rightarrow> stack_compose) \<Rightarrow> deploy_step" where
  "networks_step env stack desired st =
     Some (case dv_PlanNetworks env stack (desired st) of
        Inl e \<Rightarrow> (Some (PlanFailed e), st)
      | Inr planned \<Rightarrow>
          (case ReconcileNetworks (dv_Resources env) stack planned (pl_calls st) of
             (err, log) \<Rightarrow> (map_option NetworksFailed err, st\<lparr>pl_calls := log\<rparr>)))"

definition no_resources :: resolved_objects where
  "no_resources = \<lparr>rs_Configs = fmempty, rs_Secrets = fmempty\<rparr>"

definition resources_step :: "deploy_env \<Rightarrow> string \<Rightarrow> string \<Rightarrow> (deploy_state \<Rightarrow> stack_compose) \<Rightarrow> deploy_step" where
  "resources_step env stack path desired st =
     (let c = desired st
      in Some (if scp_Configs c = fmempty \<and> scp_Secrets c = fmempty then (None, st\<lparr>pl_resolved := no_resources\<rparr>)
         else case ResolveSecrets (dv_Decoders env) stack path (scp_Secrets c) of
           Inl e \<Rightarrow> (Some (SecretsUnresolved e), st\<lparr>pl_resolved := no_resources\<rparr>)
         | Inr payload \<Rightarrow>
             (case ReconcileResources (dv_Resources env) stack (scp_Configs c) (scp_Secrets c) payload (pl_calls st) of
                (Inl e, log) \<Rightarrow> (Some (ResourcesFailed e), st\<lparr>pl_resolved := no_resources, pl_calls := log\<rparr>)
              | (Inr resolved, log) \<Rightarrow> (None, st\<lparr>pl_resolved := resolved, pl_calls := log\<rparr>))))"

definition convert_step :: "deploy_env \<Rightarrow> string \<Rightarrow> (deploy_state \<Rightarrow> stack_compose) \<Rightarrow> deploy_step" where
  "convert_step env stack desired st =
     Some (case dv_Convert env stack (desired st) of
        Inl e \<Rightarrow> (Some (ConversionFailed e), st) | Inr c \<Rightarrow> (None, st\<lparr>pl_converted := c\<rparr>))"

definition job_request_of :: "string \<Rightarrow> desired_service \<Rightarrow> resolved_objects \<Rightarrow> (string, string) fmap \<Rightarrow> init_job \<Rightarrow> job_request" where
  "job_request_of stack service resolved targets job =
     \<lparr>jq_StackName = stack, jq_ServiceName = dsv_Name service,
      jq_DefaultNetwork = (if GetAliases (dsv_Networks service) = [] then [''default''] else GetAliases (dsv_Networks service)),
      jq_NetworkTargets = targets, jq_ServiceSecrets = dsv_Secrets service, jq_ServiceConfigs = dsv_Configs service,
      jq_ResolvedSecrets = rs_Secrets resolved, jq_ResolvedConfigs = rs_Configs resolved, jq_Job = job\<rparr>"

fun run_jobs ::
    "deploy_env \<Rightarrow> string \<Rightarrow> resolved_objects \<Rightarrow> (string, string) fmap \<Rightarrow> (desired_service \<times> init_job) list \<Rightarrow> job_result list \<Rightarrow>
     deploy_state \<Rightarrow> (job_result list \<times> step_error option \<times> deploy_state) option" where
  "run_jobs env stack resolved targets [] results st = Some (results, None, st)"
| "run_jobs env stack resolved targets ((service, job) # jobs) results st =
     (case Run (dv_Job env (pl_jobs st)) (dv_JobTimeout env) (job_request_of stack service resolved targets job) of
        None \<Rightarrow> None
      | Some (res, err, del) \<Rightarrow>
          let results = results @ (case res of None \<Rightarrow> [] | Some r \<Rightarrow> [r]);
              st = st\<lparr>pl_jobs := Suc (pl_jobs st), pl_deletes := pl_deletes st @ (case del of None \<Rightarrow> [] | Some d \<Rightarrow> [d])\<rparr>
          in case err of
               Some e \<Rightarrow> Some (results, Some (InitJobStopped (dsv_Name service) (ij_Name job) e), st)
             | None \<Rightarrow> run_jobs env stack resolved targets jobs results st)"

definition runInitJobs ::
    "deploy_env \<Rightarrow> string \<Rightarrow> desired_service list \<Rightarrow> resolved_objects \<Rightarrow> planned_network list \<Rightarrow> deploy_state \<Rightarrow>
     (job_result list \<times> step_error option \<times> deploy_state) option" where
  "runInitJobs env stack services resolved networks st =
     run_jobs env stack resolved (fold (\<lambda>n. fmupd (pn_Alias n) (pn_ID n)) networks fmempty)
       (concat (map (\<lambda>s. map (\<lambda>j. (s, j)) (dsv_InitJobs s)) services)) [] st"

definition runStackInitJobs :: "deploy_env \<Rightarrow> string \<Rightarrow> stack_compose \<Rightarrow> deploy_step" where
  "runStackInitJobs env stack desired st =
     map_option (\<lambda>(results, err, st). (err, st\<lparr>pl_result := (pl_result st)\<lparr>dr_InitJobs := results\<rparr>\<rparr>))
       (runInitJobs env stack (scp_Services desired) (pl_resolved st) (cv_Networks (pl_converted st)) st)"

definition captureBaseline :: "deploy_env \<Rightarrow> string \<Rightarrow> deploy_step" where
  "captureBaseline env stack st =
     Some (case dv_Snapshot env of
        Inl e \<Rightarrow> (Some (BaselineFailed stack e), st\<lparr>pl_baseline := []\<rparr>)
      | Inr services \<Rightarrow> (None, st\<lparr>pl_baseline := services\<rparr>))"

section \<open>Apply and wait\<close>

text \<open>\<open>ServiceUpdateRejected\<close> looks through the wrapped errors; the final version conflict wraps a conflict.\<close>

fun apply_rejected :: "apply_error \<Rightarrow> bool" where
  "apply_rejected (AuthFailed _ e) = ServiceUpdateRejected e"
| "apply_rejected (InspectFailed _ e) = ServiceUpdateRejected e"
| "apply_rejected (CreateFailed _ e) = ServiceUpdateRejected e"
| "apply_rejected (TasksFailed _ e) = ServiceUpdateRejected e"
| "apply_rejected (RecordFailed _ e) = ServiceUpdateRejected e"
| "apply_rejected (UpdateFailedWith _ e) = ServiceUpdateRejected e"
| "apply_rejected (RestoreFailed _ e x) = (ServiceUpdateRejected e \<or> ServiceUpdateRejected x)"
| "apply_rejected (VersionConflict _) = True"
| "apply_rejected _ = False"

definition outcome_errors :: "apply_outcome \<Rightarrow> apply_error list" where
  "outcome_errors out = (case out of Applied \<Rightarrow> [] | Deferred es \<Rightarrow> es | ApplyFailed es \<Rightarrow> es)"

definition outcome_error :: "apply_outcome \<Rightarrow> step_error option" where
  "outcome_error out = (if out = Applied then None else Some (ApplyStopped (outcome_errors out)))"

definition set_verification :: "bool \<Rightarrow> string list \<Rightarrow> deploy_state \<Rightarrow> deploy_state" where
  "set_verification known unresolved st =
     st\<lparr>pl_result := (pl_result st)\<lparr>dr_Known := known, dr_UnresolvedServices := unresolved\<rparr>\<rparr>"

definition applied_state :: "string list \<Rightarrow> apply_state \<Rightarrow> deploy_state \<Rightarrow> deploy_state" where
  "applied_state changed a st =
     st\<lparr>pl_changed := changed, pl_apply := a, pl_updateGenerations := pl_updateGenerations st ++\<^sub>f as_Generations a\<rparr>"

text \<open>Go ranges over the generations in any order; the names are stored sorted and without repetition later.\<close>

definition applyStack :: "deploy_env \<Rightarrow> stack_request \<Rightarrow> deploy_step" where
  "applyStack env rq st =
     (let st = set_verification False [] st
      in case Apply (dv_Ops env) (dv_Apply env) (srq_StackName rq) (cv_Services (pl_converted st))
                \<lparr>ao_RetryFailedUpdates = srq_RetryFailedUpdates rq, ao_RecordsUpdates = srq_RecordsUpdates rq\<rparr>
                ((pl_apply st)\<lparr>as_Generations := pl_updateGenerations st\<rparr>) of
           (out, changed, a) \<Rightarrow>
             let st = applied_state changed a st
             in Some (outcome_error out,
                  if list_ex apply_rejected (outcome_errors out)
                  then set_verification True (srq_UnresolvedServices rq @ sorted_keys (as_Generations a)) st
                  else st))"

definition convertedServiceNames :: "string \<Rightarrow> service_spec list \<Rightarrow> string list" where
  "convertedServiceNames stack specs = map (\<lambda>s. TrimPrefix (sp_Name s) (stack @ ''_'')) specs"

definition expectedServiceSpecs :: "string \<Rightarrow> service_spec list \<Rightarrow> (string, service_spec) fmap" where
  "expectedServiceSpecs stack specs = fold (\<lambda>s. fmupd (TrimPrefix (sp_Name s) (stack @ ''_'')) s) specs fmempty"

definition still_updating :: "stack_service \<Rightarrow> bool" where
  "still_updating s \<longleftrightarrow> (case srv_UpdateStatus s of None \<Rightarrow> False | Some u \<Rightarrow> us_State u = ''updating'')"

definition verificationServiceNames :: "string \<Rightarrow> service_spec list \<Rightarrow> string list \<Rightarrow> stack_service list \<Rightarrow> string list" where
  "verificationServiceNames stack specs changed services =
     fold (\<lambda>s names.
        if still_updating s \<and> srv_Name s \<in> set (convertedServiceNames stack specs) \<and> srv_Name s \<notin> set names
        then names @ [srv_Name s] else names) services changed"

definition expected_spec :: "(string, service_spec) fmap \<Rightarrow> string \<Rightarrow> service_spec" where
  "expected_spec expected name = (case fmlookup expected name of None \<Rightarrow> zero_spec | Some s \<Rightarrow> s)"

text \<open>\<open>managed, _ := ReplicasManaged(spec)\<close>: an invalid policy comes with the value false.\<close>

definition externally_managed :: "service_spec \<Rightarrow> bool" where
  "externally_managed spec \<longleftrightarrow> ReplicasManaged spec \<noteq> Inr True"

definition wait_names :: "stack_request \<Rightarrow> deploy_state \<Rightarrow> string list" where
  "wait_names rq st =
     (let specs = cv_Services (pl_converted st);
          names = (if srq_RetryFailedUpdates rq then convertedServiceNames (srq_StackName rq) specs
                   else verificationServiceNames (srq_StackName rq) specs (pl_changed st) (pl_baseline st));
          names = nub_onto names (srq_UnresolvedServices rq);
          expected = expectedServiceSpecs (srq_StackName rq) specs
      in filter (\<lambda>n. \<not> (externally_managed (expected_spec expected n) \<and> n \<notin> set (pl_changed st) \<and>
                        n \<notin> set (srq_UnresolvedServices rq))) names)"

definition waiting :: "deploy_env \<Rightarrow> wait_request \<Rightarrow> deploy_step" where
  "waiting env wq st =
     map_option (\<lambda>(err, w).
       (if err = [] then None else Some (WaitFailed (wq_StackName wq) err),
        set_verification True (wr_UnresolvedServices (result w))
          (st\<lparr>pl_result := (pl_result st)\<lparr>dr_SpecificationOnlyServices := wr_SpecificationOnlyServices (result w)\<rparr>\<rparr>)))
       (Wait (dv_Ops env) wq (dv_Polls env))"

definition stack_wait_request :: "stack_request \<Rightarrow> deploy_state \<Rightarrow> wait_request" where
  "stack_wait_request rq st =
     \<lparr>wq_StackName = srq_StackName rq, wq_ServiceNames = wait_names rq st, wq_Baseline = pl_baseline st,
      wq_AppliedServices = pl_changed st, wq_UnresolvedServices = srq_UnresolvedServices rq,
      wq_ExpectedSpecs = expectedServiceSpecs (srq_StackName rq) (cv_Services (pl_converted st)),
      wq_UpdateGenerations = pl_updateGenerations st\<rparr>"

definition waitForStack :: "deploy_env \<Rightarrow> stack_request \<Rightarrow> deploy_step" where
  "waitForStack env rq st =
     (if cv_Services (pl_converted st) = [] then Some (None, st) else waiting env (stack_wait_request rq st) st)"

section \<open>The stack pipeline\<close>

definition start_state :: "deploy_result \<Rightarrow> (string, update_generation) fmap \<Rightarrow> call_log \<Rightarrow> apply_state \<Rightarrow> deploy_state" where
  "start_state res generations log a =
     \<lparr>pl_baseline = [], pl_changed = [], pl_updateGenerations = generations,
      pl_converted = \<lparr>cv_Services = [], cv_Networks = []\<rparr>, pl_resolved = no_resources,
      pl_prepared = \<lparr>scp_Services = [], scp_Networks = fmempty, scp_Configs = fmempty, scp_Secrets = fmempty, scp_Volumes = fmempty\<rparr>,
      pl_result = res, pl_calls = log, pl_apply = a, pl_deletes = [], pl_jobs = 0\<rparr>"

definition before_apply :: "deploy_env \<Rightarrow> stack_request \<Rightarrow> (string \<times> bool \<times> deploy_step) list" where
  "before_apply env rq =
     (let stack = srq_StackName rq; desired = (\<lambda>_. srq_Desired rq)
      in [(''validate desired state'', True, validate_step env stack desired),
          (''reconcile networks'', True, networks_step env stack desired),
          (''reconcile resources'', True, resources_step env stack (srq_SourceComposePath rq) desired),
          (''convert stack'', True, convert_step env stack desired),
          (''run init jobs'', True, runStackInitJobs env stack (srq_Desired rq)),
          (''capture service baseline'', True, captureBaseline env stack)])"

definition newDeployStackPipeline :: "deploy_env \<Rightarrow> stack_request \<Rightarrow> (string \<times> bool \<times> deploy_step) list" where
  "newDeployStackPipeline env rq =
     before_apply env rq @
     [(''apply stack'', True, applyStack env rq), (''wait for service convergence'', True, waitForStack env rq)]"

definition DeployStack ::
    "deploy_env \<Rightarrow> stack_request \<Rightarrow> call_log \<Rightarrow> apply_state \<Rightarrow> (deploy_result \<times> (string \<times> step_error) option \<times> deploy_state) option" where
  "DeployStack env rq log a =
     map_option (\<lambda>(err, st). (pl_result st, err, st))
       (dv_RunPipeline env (newDeployStackPipeline env rq)
         (start_state \<lparr>dr_SpecificationOnlyServices = [], dr_Known = True, dr_UnresolvedServices = [], dr_InitJobs = []\<rparr>
           (srq_UpdateGenerations rq) log a))"

section \<open>The service pipeline\<close>

record service_request =
  vrq_VerifyOnly :: bool
  vrq_StackName :: string
  vrq_SourceComposePath :: string
  vrq_ServiceName :: string
  vrq_Desired :: stack_compose

definition prepareService :: "service_request \<Rightarrow> deploy_step" where
  "prepareService rq st =
     Some (case SingleServiceCompose (vrq_Desired rq) (vrq_ServiceName rq) of
        None \<Rightarrow> (Some (ServiceNotInCompose (vrq_ServiceName rq)), st)
      | Some c \<Rightarrow> (None, st\<lparr>pl_prepared := c\<rparr>))"

definition applyService :: "deploy_env \<Rightarrow> service_request \<Rightarrow> deploy_step" where
  "applyService env rq st =
     (case Apply (dv_Ops env) (dv_Apply env) (vrq_StackName rq) (cv_Services (pl_converted st))
             \<lparr>ao_RetryFailedUpdates = False, ao_RecordsUpdates = False\<rparr> ((pl_apply st)\<lparr>as_Generations := fmempty\<rparr>) of
        (out, changed, a) \<Rightarrow> Some (outcome_error out, applied_state changed a st))"

definition service_wait_request :: "service_request \<Rightarrow> deploy_state \<Rightarrow> wait_request" where
  "service_wait_request rq st =
     \<lparr>wq_StackName = vrq_StackName rq,
      wq_ServiceNames = convertedServiceNames (vrq_StackName rq) (cv_Services (pl_converted st)),
      wq_Baseline = pl_baseline st, wq_AppliedServices = pl_changed st, wq_UnresolvedServices = [],
      wq_ExpectedSpecs = expectedServiceSpecs (vrq_StackName rq) (cv_Services (pl_converted st)),
      wq_UpdateGenerations = pl_updateGenerations st\<rparr>"

definition waitForService :: "deploy_env \<Rightarrow> service_request \<Rightarrow> deploy_step" where
  "waitForService env rq st =
     (if cv_Services (pl_converted st) = [] then Some (None, st) else waiting env (service_wait_request rq st) st)"

definition newDeployServicePipeline :: "deploy_env \<Rightarrow> service_request \<Rightarrow> (string \<times> bool \<times> deploy_step) list" where
  "newDeployServicePipeline env rq =
     (let stack = vrq_StackName rq; apply = \<not> vrq_VerifyOnly rq
      in [(''prepare single-service compose'', True, prepareService rq),
          (''validate desired state'', True, validate_step env stack pl_prepared),
          (''reconcile networks'', apply, networks_step env stack pl_prepared),
          (''reconcile resources'', apply, resources_step env stack (vrq_SourceComposePath rq) pl_prepared),
          (''convert stack'', True, convert_step env stack pl_prepared),
          (''capture service baseline'', True, captureBaseline env stack),
          (''apply service'', apply, applyService env rq),
          (''wait for service convergence'', True, waitForService env rq)])"

definition DeployService ::
    "deploy_env \<Rightarrow> service_request \<Rightarrow> call_log \<Rightarrow> apply_state \<Rightarrow> (deploy_result \<times> (string \<times> step_error) option \<times> deploy_state) option" where
  "DeployService env rq log a =
     map_option (\<lambda>(err, st). (pl_result st, err, st))
       (dv_RunPipeline env (newDeployServicePipeline env rq)
         (start_state \<lparr>dr_SpecificationOnlyServices = [], dr_Known = False, dr_UnresolvedServices = [], dr_InitJobs = []\<rparr> fmempty log a))"

definition DeployerRefreshRegistryAuth :: "deploy_env \<Rightarrow> stack_request \<Rightarrow> apply_state \<Rightarrow> (string + apply_error list) \<times> apply_state" where
  "DeployerRefreshRegistryAuth env rq a =
     (case dv_Convert env (srq_StackName rq) (srq_Desired rq) of
        Inl e \<Rightarrow> (Inl e, a)
      | Inr c \<Rightarrow>
          (case RefreshRegistryAuth (dv_Ops env) (dv_Apply env) (srq_StackName rq) (cv_Services c) a of
             (errs, a) \<Rightarrow> (Inr errs, a)))"

definition FailedStep :: "(string \<times> step_error) option \<Rightarrow> string" where
  "FailedStep e = (case e of None \<Rightarrow> '''' | Some (name, _) \<Rightarrow> name)"

definition InitJobsFailed :: "(string \<times> step_error) option \<Rightarrow> bool" where
  "InitJobsFailed e \<longleftrightarrow> FailedStep e = ''run init jobs''"

definition WaitStepFailed :: "(string \<times> step_error) option \<Rightarrow> bool" where
  "WaitStepFailed e \<longleftrightarrow> FailedStep e = ''wait for service convergence''"

end
