(* ===== verification/WaitSafety.thy ===== *)
theory WaitSafety
  imports Waiter
begin

text \<open>
  Correctness of the convergence waiter: what a ready service has been verified to be, that a wait
  succeeds only on such an observation of every target, that failures are not lost, and that it ends.
\<close>

section \<open>Counting\<close>

lemma count_tasks_word:
  assumes "length tasks < 2 ^ 64"
  shows "unat (count_tasks P tasks) = length (filter P tasks)"
  using assms le_less_trans [OF length_filter_le assms, of P]
  by (simp add: count_tasks_def unat_of_nat)

lemma count_tasks_eq_all:
  assumes "length tasks < 2 ^ 64" and "\<And>t. P t \<Longrightarrow> Q t" and "count_tasks P tasks = count_tasks Q tasks"
    and "t \<in> set tasks" "Q t"
  shows "P t"
proof -
  have "length (filter P tasks) = length (filter Q tasks)"
    using assms(3) by (metis assms(1) count_tasks_word)
  moreover have "filter P tasks = filter P (filter Q tasks)"
    using assms(2) by (auto intro!: filter_cong)
  ultimately have "length (filter P (filter Q tasks)) = length (filter Q tasks)" by simp
  then have "\<forall>x \<in> set (filter Q tasks). P x" by (metis length_filter_less less_irrefl)
  then show ?thesis using assms(4,5) by simp
qed

lemma count_tasks_0: "length tasks < 2 ^ 64 \<Longrightarrow> count_tasks P tasks = 0 \<Longrightarrow> t \<in> set tasks \<Longrightarrow> \<not> P t"
  using count_tasks_eq_all [of tasks "\<lambda>_. False" P t] by (auto simp: count_tasks_def)

lemma compatible_desired: "compatible_task template matches nodes b t \<Longrightarrow> desired_running t"
  by (simp add: compatible_task_def is_running_def desired_running_def)

lemma matches_desired: "matches_current template cutoff t \<Longrightarrow> desired_running t"
  by (simp add: matches_current_def is_running_def desired_running_def)

text \<open>A task that satisfies the verification of a mode.\<close>

definition verified_task :: "task_template \<Rightarrow> verification_mode \<Rightarrow> gotime \<Rightarrow> service_task \<Rightarrow> bool" where
  "verified_task template mode cutoff t \<longleftrightarrow>
     st_CurrentState t = TaskStateRunning \<and>
     (if mode = VerifyNewGeneration
      then cutoff \<le> st_CreatedAt t \<and> CompareServiceTemplate (st_Spec t) template = TemplatesEqual
      else CompareServiceTemplate (st_Spec t) template \<noteq> TemplatesDiffer)"

lemma all_verified:
  assumes n: "length tasks < 2 ^ 64"
    and eq: "countVerifiedRunningTasks ops tasks template mode cutoff nodes = countDesiredTasks tasks"
    and t: "t \<in> set tasks" "desired_running t"
  shows "verified_task template mode cutoff t"
proof -
  have "matches_current template cutoff t" if "mode = VerifyNewGeneration"
    using count_tasks_eq_all [of tasks "matches_current template cutoff" desired_running t] n t matches_desired eq that
    by (simp add: countVerifiedRunningTasks_def countMatchingCurrentRunningTasks_def countDesiredTasks_def)
  then have new: "verified_task template mode cutoff t" if "mode = VerifyNewGeneration"
    using that by (simp add: verified_task_def matches_current_def is_running_def)
  have none: False if "countDesiredTasks tasks = 0"
    using count_tasks_0 [OF n, of desired_running t] that t by (simp add: countDesiredTasks_def)
  have old: "verified_task template mode cutoff t"
    if mode: "mode \<noteq> VerifyNewGeneration" and
      c: "countPlacementCompatibleRunningTasks ops tasks template nodes b = countDesiredTasks tasks" for b
  proof (cases "parsed_constraints ops template")
    case None
    then show ?thesis using c none by (simp add: countPlacementCompatibleRunningTasks_def)
  next
    case (Some matches)
    then have "compatible_task template matches nodes b t"
      using count_tasks_eq_all [of tasks "compatible_task template matches nodes b" desired_running t] n t compatible_desired c
      by (simp add: countPlacementCompatibleRunningTasks_def countDesiredTasks_def)
    then show ?thesis using mode
      by (auto simp: compatible_task_def verified_task_def is_running_def Let_def)
  qed
  show ?thesis
    using eq new old none by (cases mode) (auto simp: countVerifiedRunningTasks_def)
qed

section \<open>A ready service\<close>

lemma runningServiceProgress_ready:
  assumes "prg_State (runningServiceProgress ops p s tasks mode cutoff nodes) = ServiceReady"
    and "prg_State p \<noteq> ServiceReady"
  shows "TerminalServiceTaskFailure ops (srv_ServiceSpec s) tasks cutoff = None \<and> \<not> updatePending (srv_UpdateStatus s) \<and>
    countVerifiedRunningTasks ops tasks (sp_TaskTemplate (srv_ServiceSpec s)) mode cutoff nodes = prg_Desired p \<and>
    countDesiredTasks tasks = prg_Desired p"
  using assms by (auto simp: runningServiceProgress_def Let_def split: option.splits if_splits)

lemma zeroDesiredProgress_ready:
  "prg_State (zeroDesiredProgress p tasks) = ServiceReady \<Longrightarrow> prg_State p \<noteq> ServiceReady \<Longrightarrow> countActiveTasks tasks = 0"
  by (auto simp: zeroDesiredProgress_def split: if_splits)

text \<open>What \<open>evaluate_tasks\<close> has established when it reports ready.\<close>

definition tasks_settled :: "stack_service \<Rightarrow> service_task list \<Rightarrow> verification_mode \<Rightarrow> gotime \<Rightarrow> bool" where
  "tasks_settled s tasks mode cutoff \<longleftrightarrow>
     (if observedDesiredTasks s tasks = 0 then list_all (\<lambda>t. \<not> taskIsActive (st_CurrentState t)) tasks
      else \<not> updatePending (srv_UpdateStatus s) \<and>
           length (filter desired_running tasks) = unat (observedDesiredTasks s tasks) \<and>
           list_all (\<lambda>t. desired_running t \<longrightarrow> verified_task (sp_TaskTemplate (srv_ServiceSpec s)) mode cutoff t) tasks)"

lemma evaluate_tasks_ready:
  assumes ready: "prg_State (evaluate_tasks ops p base s tasks unresolved nodes g) = ServiceReady"
    and p: "prg_State p \<noteq> ServiceReady" and n: "length tasks < 2 ^ 64"
    and mode: "mode = serviceVerificationMode base s unresolved g"
    and cut: "(cutoff, pending) = verificationTaskCutoff base s mode unresolved g"
  shows "tasks_settled s tasks mode cutoff \<and> (observedDesiredTasks s tasks \<noteq> 0 \<longrightarrow> \<not> pending)"
proof (cases "observedDesiredTasks s tasks = 0")
  case True
  then have "countActiveTasks tasks = 0"
    using ready p by (auto simp: evaluate_tasks_def Let_def split: prod.splits if_splits dest!: zeroDesiredProgress_ready)
  then have "\<not> taskIsActive (st_CurrentState t)" if "t \<in> set tasks" for t
    using count_tasks_0 [OF n _ that] by (simp add: countActiveTasks_def)
  with True show ?thesis by (simp add: tasks_settled_def list_all_iff)
next
  case False
  let ?p = "p\<lparr>prg_Desired := observedDesiredTasks s tasks\<rparr>"
  have "prg_State (runningServiceProgress ops ?p s tasks mode cutoff nodes) = ServiceReady" and np: "\<not> pending"
    using ready p False cut [symmetric] mode
    by (auto simp: evaluate_tasks_def Let_def split: prod.splits if_splits)
  from runningServiceProgress_ready [OF this(1)] p
  have r: "\<not> updatePending (srv_UpdateStatus s)"
      "countVerifiedRunningTasks ops tasks (sp_TaskTemplate (srv_ServiceSpec s)) mode cutoff nodes = countDesiredTasks tasks"
      "countDesiredTasks tasks = observedDesiredTasks s tasks" by simp_all
  then show ?thesis
    using all_verified [OF n r(2)] False np count_tasks_word [OF n, of desired_running]
    by (simp add: tasks_settled_def list_all_iff countDesiredTasks_def)
qed

lemma evaluateService_ready:
  assumes ready: "prg_State (evaluateService ops name base s tasks unresolved expected nodes generation) = ServiceReady"
    and restored: "restored = restoredCompletedRollback ops base s expected"
    and g: "g = (if restored then zero_update_generation else generation)"
    and b: "b = written_baseline base s g"
  shows "srv_ID s \<noteq> '''' \<and> \<not> specificationMetadataPending base (written_reference base g) s g \<and>
    (sp_Name expected \<noteq> '''' \<longrightarrow> SpecsEqual ops (srv_ServiceSpec s) expected) \<and>
    (terminalUpdateFailure (srv_UpdateStatus s) \<longrightarrow> restored) \<and>
    (\<exists>p. prg_State p = ServicePending \<and>
       (if srv_Mode s = ''replicated-job'' \<or> srv_Mode s = ''global-job'' then prg_State (jobProgress p b s tasks) = ServiceReady
        else prg_State (evaluate_tasks ops p b s tasks (unresolved \<and> \<not> restored) nodes g) = ServiceReady))"
proof -
  define p where "p = (new_progress name NoMessage)\<lparr>prg_ServiceID := srv_ID s, prg_Desired := serviceDesiredTasks s\<rparr>"
  have p: "prg_State p = ServicePending" by (simp add: p_def new_progress_def)
  note ev = ready [unfolded evaluateService_def Let_def, folded restored g b p_def]
  have id: "srv_ID s \<noteq> ''''" using ev by (auto simp: new_progress_def)
  have meta: "\<not> specificationMetadataPending base (written_reference base g) s g"
    using ev id p by (auto split: if_splits)
  obtain u fin where t: "terminalServiceUpdateProgress ops b s tasks restored p = (u, fin)"
    by (cases "terminalServiceUpdateProgress ops b s tasks restored p")
  have "prg_State u \<noteq> ServiceReady" if fin
    using t p that by (auto simp: terminalServiceUpdateProgress_def split: option.splits if_splits)
  then have fin: "\<not> fin" using ev id meta t by (auto split: if_splits)
  then have failed: "terminalUpdateFailure (srv_UpdateStatus s) \<longrightarrow> restored"
    using t by (auto simp: terminalServiceUpdateProgress_def terminalUpdateFailure_def split: option.splits if_splits)
  from ev id meta t fin p failed show ?thesis
    by (intro conjI exI [of _ p]) (auto split: if_splits)
qed

lemma fresh_cutoff:
  assumes "gen_ServiceID g = srv_ID s" "gen_Mode g = VerifyNewGeneration" "\<not> IsZero (gen_After g)"
    and "srv_ID base = srv_ID s"
    and "verificationTaskCutoff (written_baseline base s g) s VerifyNewGeneration unresolved g = (cutoff, False)"
    and "srv_ID s \<noteq> ''''"
  shows "if IsZero (gen_TasksAfter g) then gen_After g < cutoff else cutoff = gen_TasksAfter g"
  using assms
  by (auto simp: verificationTaskCutoff_def written_baseline_def taskGenerationCutoff_def Let_def started_at_def
      split: if_splits option.splits)

lemma fresh_mode:
  assumes "gen_ServiceID g = srv_ID s" "gen_Mode g = VerifyNewGeneration"
  shows "serviceVerificationMode base s unresolved g = VerifyNewGeneration"
  using assms by (cases "ClassifyVerification (srv_ServiceSpec base) (srv_ServiceSpec s)")
    (auto simp: serviceVerificationMode_def Let_def)

text \<open>The tasks of a rollout: every task that is meant to run runs the service's own template and was created by it.\<close>

definition created_by_rollout :: "stack_service \<Rightarrow> update_generation \<Rightarrow> service_task \<Rightarrow> bool" where
  "created_by_rollout s g t \<longleftrightarrow>
     CompareServiceTemplate (st_Spec t) (sp_TaskTemplate (srv_ServiceSpec s)) = TemplatesEqual \<and>
     (if IsZero (gen_TasksAfter g) then gen_After g < st_CreatedAt t else gen_TasksAfter g \<le> st_CreatedAt t)"

definition replacing_write :: "stack_service \<Rightarrow> stack_service \<Rightarrow> update_generation \<Rightarrow> bool" where
  "replacing_write base s g \<longleftrightarrow>
     gen_ServiceID g = srv_ID s \<and> gen_Mode g = VerifyNewGeneration \<and> \<not> IsZero (gen_After g) \<and> srv_ID base = srv_ID s"

lemma settled_by_rollout:
  assumes set: "tasks_settled s tasks VerifyNewGeneration cutoff" and nz: "observedDesiredTasks s tasks \<noteq> 0"
    and cut: "if IsZero (gen_TasksAfter g) then gen_After g < cutoff else cutoff = gen_TasksAfter g"
    and t: "t \<in> set tasks" "desired_running t"
  shows "created_by_rollout s g t"
proof -
  have "verified_task (sp_TaskTemplate (srv_ServiceSpec s)) VerifyNewGeneration cutoff t"
    using set nz t by (simp add: tasks_settled_def list_all_iff)
  then show ?thesis using cut by (auto simp: verified_task_def created_by_rollout_def)
qed

text \<open>
  C37. A service that is reported ready is verified. It is visible, its accepted specification is the
  expected one, and its update has not failed (unless the expected specification is the one an earlier
  rollback restored). If no task is desired, none is active any more; otherwise the update is finished,
  exactly the desired number of tasks is meant to run, and each of those runs now with a template that
  differs from the service's at most in placement. If the recorded write replaces tasks, each of them has
  the service's own template and was created by that rollout: an old task never stands in for a new one.
\<close>

theorem ready_is_verified:
  assumes ready: "prg_State (evaluateService ops name base s tasks unresolved expected nodes g) = ServiceReady"
    and smode: "srv_Mode s = ''replicated'' \<or> srv_Mode s = ''global''" and n: "length tasks < 2 ^ 64"
  shows "srv_ID s \<noteq> '''' \<and>
    (sp_Name expected \<noteq> '''' \<longrightarrow> SpecsEqual ops (srv_ServiceSpec s) expected) \<and>
    (terminalUpdateFailure (srv_UpdateStatus s) \<longrightarrow> restoredCompletedRollback ops base s expected) \<and>
    (if observedDesiredTasks s tasks = 0 then \<forall>t \<in> set tasks. \<not> taskIsActive (st_CurrentState t)
     else \<not> updatePending (srv_UpdateStatus s) \<and>
          length (filter desired_running tasks) = unat (observedDesiredTasks s tasks) \<and>
          (\<forall>t \<in> set tasks. desired_running t \<longrightarrow> st_CurrentState t = TaskStateRunning \<and>
             CompareServiceTemplate (st_Spec t) (sp_TaskTemplate (srv_ServiceSpec s)) \<noteq> TemplatesDiffer) \<and>
          (replacing_write base s g \<and> \<not> restoredCompletedRollback ops base s expected \<longrightarrow>
             (\<forall>t \<in> set tasks. desired_running t \<longrightarrow> created_by_rollout s g t)))"
proof -
  define r where "r = restoredCompletedRollback ops base s expected"
  define h where "h = (if r then zero_update_generation else g)"
  define b where "b = written_baseline base s h"
  define mode where "mode = serviceVerificationMode b s (unresolved \<and> \<not> r) h"
  obtain cutoff pending where cut: "(cutoff, pending) = verificationTaskCutoff b s mode (unresolved \<and> \<not> r) h"
    by (metis surj_pair)
  note ev = evaluateService_ready [OF ready r_def h_def b_def]
  obtain p where p: "prg_State p = ServicePending"
      "prg_State (evaluate_tasks ops p b s tasks (unresolved \<and> \<not> r) nodes h) = ServiceReady"
    using ev smode by auto
  note settled = evaluate_tasks_ready [OF p(2) _ n mode_def cut]
  have set: "tasks_settled s tasks mode cutoff" and np: "observedDesiredTasks s tasks \<noteq> 0 \<Longrightarrow> \<not> pending"
    using settled p(1) by simp_all
  have fresh: "created_by_rollout s g t"
    if w: "replacing_write base s g" "\<not> r" and nz: "observedDesiredTasks s tasks \<noteq> 0" and t: "t \<in> set tasks" "desired_running t" for t
  proof -
    have m: "mode = VerifyNewGeneration" using w fresh_mode by (simp add: mode_def h_def replacing_write_def)
    have "verificationTaskCutoff (written_baseline base s g) s VerifyNewGeneration unresolved g = (cutoff, False)"
      using cut np nz w(2) m by (simp add: b_def h_def)
    then have "if IsZero (gen_TasksAfter g) then gen_After g < cutoff else cutoff = gen_TasksAfter g"
      using w(1) ev by (intro fresh_cutoff [of g s base unresolved]) (simp_all add: replacing_write_def)
    then show ?thesis using settled_by_rollout set m nz t by blast
  qed
  show ?thesis
    using ev set fresh by (auto simp: tasks_settled_def list_all_iff verified_task_def r_def split: if_splits)
qed

text \<open>A service with one replica whose update, recorded at time 5, has completed with one new task.\<close>

definition sample_template :: task_template where
  "sample_template =
     \<lparr>tt_Runtime = '''', tt_ContainerSpec = None, tt_PluginSpec = None, tt_Resources = None, tt_RestartPolicy = None,
      tt_Placement = None, tt_Networks = [], tt_ForceUpdate = 1, tt_Other = ''nginx:2''\<rparr>"

definition sample_spec :: service_spec where
  "sample_spec =
     \<lparr>sp_Name = ''web'', sp_Labels = fmempty,
      sp_Mode = \<lparr>sm_Replicated = Some (Some 1), sm_Global = False, sm_ReplicatedJob = None, sm_GlobalJob = False\<rparr>,
      sp_TaskTemplate = sample_template, sp_EndpointSpec = None, sp_UpdateConfig = None, sp_RollbackConfig = None, sp_Other = ''''\<rparr>"

definition sample_service :: stack_service where
  "sample_service =
     \<lparr>srv_ID = ''s1'', srv_Name = ''web'', srv_Mode = ''replicated'', srv_Replicas = Some 1, srv_DesiredTasks = 1, srv_CompletedTasks = 0,
      srv_JobIteration = None, srv_CreatedAt = 1, srv_UpdatedAt = 7,
      srv_UpdateStatus = Some \<lparr>us_State = ''completed'', us_StartedAt = 8, us_CompletedAt = 9, us_Message = ''''\<rparr>,
      srv_ServiceSpec = sample_spec, srv_PreviousSpec = None\<rparr>"

definition sample_before :: stack_service where
  "sample_before = sample_service\<lparr>srv_UpdatedAt := 5, srv_UpdateStatus := None,
     srv_ServiceSpec := sample_spec\<lparr>sp_TaskTemplate := sample_template\<lparr>tt_ForceUpdate := 0, tt_Other := ''nginx:1''\<rparr>\<rparr>\<rparr>"

definition sample_task :: service_task where
  "sample_task =
     \<lparr>st_ID = ''t2'', st_Node = ''n1'', st_NodeInfo = None, st_Slot = 1, st_JobIteration = None,
      st_DesiredState = TaskStateRunning, st_CreatedAt = 8, st_UpdatedAt = 9, st_CurrentState = TaskStateRunning,
      st_ExitCode = None, st_Error = '''', st_Spec = normalizeTaskSpec sample_template\<rparr>"

definition sample_generation :: update_generation where
  "sample_generation =
     \<lparr>gen_ServiceID = ''s1'', gen_ForceUpdate = 1, gen_After = 5, gen_Mode = VerifyNewGeneration,
      gen_BeforeSpecDigest = '''', gen_TasksAfter = 0\<rparr>"

definition sample_ops :: spec_ops where
  "sample_ops =
     \<lparr>op_ParseNamed = (\<lambda>_. None), op_RefString = ref_Name, op_SpecDigest = sp_Name, op_ParseConstraints = (\<lambda>_. Some (\<lambda>_. True)), op_Words = (\<lambda>m. [m])\<rparr>"

lemmas sample_wait_defs =
  sample_template_def sample_spec_def sample_service_def sample_before_def sample_task_def sample_generation_def sample_ops_def

theorem ready_is_verified_witness: "created_by_rollout sample_service sample_generation sample_task"
proof -
  have r: "prg_State (evaluateService sample_ops ''web'' sample_before sample_service [sample_task] False sample_spec
      (\<lambda>_. None) sample_generation) = ServiceReady"
    by code_simp
  have "srv_Mode sample_service = ''replicated'' \<or> srv_Mode sample_service = ''global''" by (simp add: sample_service_def)
  moreover have "observedDesiredTasks sample_service [sample_task] \<noteq> 0" by code_simp
  moreover have "replacing_write sample_before sample_service sample_generation" by code_simp
  moreover have "\<not> restoredCompletedRollback sample_ops sample_before sample_service sample_spec" by code_simp
  moreover have "length [sample_task] < 2 ^ 64" by simp
  moreover have "desired_running sample_task" by code_simp
  ultimately show ?thesis using ready_is_verified [OF r] by (metis list.set_intros(1))
qed

section \<open>Observations\<close>

lemma zeroDesiredProgress_name [simp]: "prg_Name (zeroDesiredProgress p tasks) = prg_Name p"
  by (simp add: zeroDesiredProgress_def)

lemma runningServiceProgress_name [simp]: "prg_Name (runningServiceProgress ops p s tasks mode cutoff nodes) = prg_Name p"
  by (simp add: runningServiceProgress_def Let_def split: option.split)

lemma terminalServiceUpdateProgress_name [simp]:
  "prg_Name (fst (terminalServiceUpdateProgress ops base s tasks restored p)) = prg_Name p"
  by (simp add: terminalServiceUpdateProgress_def split: option.split)

lemma jobProgress_name [simp]: "prg_Name (jobProgress p base s tasks) = prg_Name p"
  by (simp add: jobProgress_def Let_def split: option.split)

lemma evaluate_tasks_name [simp]: "prg_Name (evaluate_tasks ops p base s tasks unresolved nodes g) = prg_Name p"
  by (simp add: evaluate_tasks_def Let_def split: prod.split)

lemma evaluateService_name [simp]: "prg_Name (evaluateService ops name base s tasks unresolved expected nodes g) = name"
  by (simp add: evaluateService_def Let_def new_progress_def case_prod_beta)

lemma specificationProgress_name [simp]:
  "prg_Name (specificationProgress ops name base s unresolved expected g tasks) = name"
  by (simp add: specificationProgress_def Let_def new_progress_def)

lemma observeExternalService_name:
  "observeExternalService ops a name base s unresolved expected g = (p, None) \<Longrightarrow> prg_Name p = name"
  by (auto simp: observeExternalService_def Let_def split: sum.splits if_splits)

lemma observeService_name:
  "observeService ops a name base s unresolved expected g = (p, None) \<Longrightarrow> prg_Name p = name"
  by (auto simp: observeService_def Let_def split: sum.splits if_splits dest: observeExternalService_name)

lemma observe_target_name: "observe_target ops rq a base cur n = (p, None) \<Longrightarrow> prg_Name p = n"
  unfolding observe_target_def by (rule observeService_name)

text \<open>A pending progress blames no task.\<close>

definition blames_nothing :: "service_progress \<Rightarrow> bool" where
  "blames_nothing p \<longleftrightarrow> (prg_State p = ServicePending \<longrightarrow> prg_FailedTaskID p = '''')"

lemma zeroDesiredProgress_blame: "prg_FailedTaskID p = '''' \<Longrightarrow> blames_nothing (zeroDesiredProgress p tasks)"
  by (simp add: zeroDesiredProgress_def blames_nothing_def)

lemma runningServiceProgress_blame:
  "prg_FailedTaskID p = '''' \<Longrightarrow> blames_nothing (runningServiceProgress ops p s tasks mode cutoff nodes)"
  by (simp add: runningServiceProgress_def blames_nothing_def Let_def split: option.split)

lemma terminalServiceUpdateProgress_blame:
  "prg_FailedTaskID p = '''' \<Longrightarrow> blames_nothing (fst (terminalServiceUpdateProgress ops base s tasks restored p))"
  by (simp add: terminalServiceUpdateProgress_def blames_nothing_def split: option.split)

lemma jobProgress_blame: "prg_FailedTaskID p = '''' \<Longrightarrow> blames_nothing (jobProgress p base s tasks)"
  by (simp add: jobProgress_def blames_nothing_def Let_def split: option.split)

lemma evaluate_tasks_blame:
  "prg_FailedTaskID p = '''' \<Longrightarrow> blames_nothing (evaluate_tasks ops p base s tasks unresolved nodes g)"
  by (auto simp: evaluate_tasks_def Let_def zeroDesiredProgress_blame runningServiceProgress_blame split: prod.split)
    (simp_all add: blames_nothing_def)

lemma evaluateService_blame: "blames_nothing (evaluateService ops name base s tasks unresolved expected nodes g)"
  by (simp add: evaluateService_def Let_def case_prod_beta jobProgress_blame evaluate_tasks_blame
      terminalServiceUpdateProgress_blame new_progress_def)
    (simp add: blames_nothing_def)

text \<open>Without tasks no task is blamed, whatever the state.\<close>

lemma no_tasks_no_failure:
  "TerminalServiceTaskFailure ops spec [] since = None" "JobTaskFailure spec iteration [] = None"
  "terminalFailureTask ops [] message cutoff = None"
  by (auto simp: TerminalServiceTaskFailure_def serviceTaskHistories_def JobTaskFailure_def found_failure_def Let_def
      terminalFailureTask_def latestFailedTask_def split: option.splits)

lemma no_tasks_no_blame:
  assumes "prg_FailedTaskID p = ''''"
  shows "prg_FailedTaskID (zeroDesiredProgress p []) = ''''"
    "prg_FailedTaskID (runningServiceProgress ops p s [] mode cutoff nodes) = ''''"
    "prg_FailedTaskID (fst (terminalServiceUpdateProgress ops base s [] restored p)) = ''''"
    "prg_FailedTaskID (jobProgress p base s []) = ''''"
  using assms by (simp_all add: zeroDesiredProgress_def runningServiceProgress_def terminalServiceUpdateProgress_def
      jobProgress_def no_tasks_no_failure task_id_def Let_def split: option.split)

lemma evaluate_no_tasks:
  "prg_FailedTaskID p = '''' \<Longrightarrow> prg_FailedTaskID (evaluate_tasks ops p base s [] unresolved nodes g) = ''''"
  by (simp add: evaluate_tasks_def Let_def case_prod_beta no_tasks_no_blame)

lemma evaluateService_no_tasks: "prg_FailedTaskID (evaluateService ops name base s [] unresolved expected nodes g) = ''''"
  by (simp add: evaluateService_def Let_def case_prod_beta no_tasks_no_blame evaluate_no_tasks new_progress_def)

lemma specificationProgress_blame: "prg_FailedTaskID (specificationProgress ops name base s unresolved expected g tasks) = ''''"
  by (simp add: specificationProgress_def Let_def new_progress_def)

lemma observeExternalService_blame: "blames_nothing (fst (observeExternalService ops a name base s unresolved expected g))"
proof -
  have "blames_nothing zero_progress" by (simp add: zero_progress_def new_progress_def blames_nothing_def)
  moreover have "blames_nothing (specificationProgress ops name base s unresolved expected g tasks)" for tasks
    by (simp add: blames_nothing_def specificationProgress_blame)
  ultimately show ?thesis
    by (auto simp: observeExternalService_def Let_def split: sum.split) (simp add: blames_nothing_def)+
qed

lemma blames_nothing_updates:
  "blames_nothing (p\<lparr>prg_Message := msg\<rparr>) \<longleftrightarrow> blames_nothing p"
  "prg_FailedTaskID p = '''' \<Longrightarrow> blames_nothing (p\<lparr>prg_State := st\<rparr>)"
  "blames_nothing (new_progress name msg)"
  by (simp_all add: blames_nothing_def new_progress_def)

lemma observeService_blame: "blames_nothing (fst (observeService ops a name base s unresolved expected g))"
  unfolding observeService_def Let_def
  by (simp add: evaluateService_blame observeExternalService_blame blames_nothing_updates evaluateService_no_tasks
      split: sum.split)

lemma external_error_state:
  "observeExternalService ops a name base s unresolved expected g = (p, Some e) \<Longrightarrow> prg_State p \<noteq> ServiceFailed"
  by (auto simp: observeExternalService_def Let_def zero_progress_def split: sum.splits if_splits)

lemma observeService_error_state:
  "observeService ops a name base s unresolved expected g = (p, Some e) \<Longrightarrow> prg_State p \<noteq> ServiceFailed"
  by (auto simp: observeService_def Let_def new_progress_def split: sum.splits if_splits dest: external_error_state)

section \<open>The state of a wait\<close>

definition wait_inv :: "string list \<Rightarrow> wait_state \<Rightarrow> bool" where
  "wait_inv T w \<longleftrightarrow>
     ws_targets w = T \<and>
     (\<forall>n p. fmlookup (ws_last w) n = Some p \<longrightarrow>
        prg_Name p = n \<and> blames_nothing p \<and> (n \<in> set T \<or> prg_State p \<noteq> ServicePending))"

definition reported :: "wait_state \<Rightarrow> wait_error list \<Rightarrow> bool" where
  "reported w err \<longleftrightarrow> (ws_failedTasks w \<noteq> fmempty \<longrightarrow> list_ex is_convergence_failure err)"

lemma emit_simps [simp]:
  "ws_targets (emit p w) = ws_targets w" "ws_terminalFailure (emit p w) = ws_terminalFailure w"
  "fmlookup (ws_last (emit p w)) n = (if n = prg_Name p then Some p else fmlookup (ws_last w) n)"
  "prg_State p \<noteq> ServiceFailed \<or> prg_FailedTaskID p = '''' \<Longrightarrow> ws_failedTasks (emit p w) = ws_failedTasks w"
  by (auto simp: emit_def)

lemma wait_inv_updates [simp]:
  "wait_inv T (w\<lparr>ws_converged := k\<rparr>) = wait_inv T w" "wait_inv T (w\<lparr>ws_observed := k\<rparr>) = wait_inv T w"
  "wait_inv T (w\<lparr>ws_terminalFailure := err\<rparr>) = wait_inv T w" "wait_inv T (w\<lparr>ws_lastObservationError := err\<rparr>) = wait_inv T w"
  by (simp_all add: wait_inv_def)

lemma emit_inv:
  "wait_inv T w \<Longrightarrow> blames_nothing p \<Longrightarrow> prg_Name p \<in> set T \<or> prg_State p \<noteq> ServicePending \<Longrightarrow> wait_inv T (emit p w)"
  by (auto simp: wait_inv_def)

lemma observe_target_facts:
  assumes "observe_target ops rq a base cur n = (p, e)"
  shows "blames_nothing p" "prg_Name p = n \<or> prg_State p \<noteq> ServicePending" "e \<noteq> None \<Longrightarrow> prg_State p \<noteq> ServiceFailed"
proof -
  show "blames_nothing p" using assms observeService_blame by (metis fst_conv observe_target_def)
  show "e \<noteq> None \<Longrightarrow> prg_State p \<noteq> ServiceFailed"
    using assms observeService_error_state unfolding observe_target_def by blast
  show "prg_Name p = n \<or> prg_State p \<noteq> ServicePending"
  proof (cases e)
    case None
    then show ?thesis using assms observe_target_name by blast
  next
    case (Some x)
    then show ?thesis using assms
      by (auto simp: observe_target_def observeService_def observeExternalService_def zero_progress_def Let_def
          new_progress_def split: sum.splits if_splits)
  qed
qed

lemma observe_targets_inv:
  assumes "observe_targets ops rq a base cur ns r fs w = (r', fs', w')" "wait_inv T w" "set ns \<subseteq> set T"
  shows "wait_inv T w' \<and> ws_terminalFailure w' = ws_terminalFailure w"
  using assms
proof (induction ns arbitrary: r fs w)
  case Nil
  then show ?case by simp
next
  case (Cons n ns)
  obtain p e where o: "observe_target ops rq a base cur n = (p, e)" by (cases "observe_target ops rq a base cur n")
  have p: "wait_inv T (emit p w)"
    using observe_target_facts(1,2) [OF o] Cons.prems(3) by (intro emit_inv [OF Cons.prems(2)]) auto
  then have c: "wait_inv T ((emit p w)\<lparr>ws_converged := k\<rparr>)" for k by simp
  have v: "wait_inv T (emit (new_progress n m) w)" for m
    using Cons.prems(3) by (intro emit_inv [OF Cons.prems(2)] blames_nothing_updates(3)) (simp add: new_progress_def)
  show ?case
    using Cons.prems(1,3) Cons.IH [OF _ p] Cons.IH [OF _ c] Cons.IH [OF _ v] p o
    by (auto split: if_splits option.splits)
qed

lemma observe_targets_reported:
  assumes "observe_targets ops rq a base cur ns r fs w = (r', fs', w')"
  shows "set fs \<subseteq> set fs' \<and> (ws_failedTasks w' = ws_failedTasks w \<or> list_ex is_convergence_failure fs')"
  using assms
proof (induction ns arbitrary: r fs w)
  case Nil
  then show ?case by simp
next
  case (Cons n ns)
  obtain p e where o: "observe_target ops rq a base cur n = (p, e)" by (cases "observe_target ops rq a base cur n")
  have pend: "ws_failedTasks (emit (new_progress n m) w) = ws_failedTasks w" for m by (simp add: new_progress_def)
  show ?case
  proof (cases "not_yet_visible rq n (service_named base n) (service_named cur n)")
    case True
    then show ?thesis using Cons.prems Cons.IH pend by fastforce
  next
    case visible: False
    show ?thesis
    proof (cases e)
      case (Some x)
      then have "prg_State p \<noteq> ServiceFailed" using observe_target_facts(3) [OF o] by simp
      then show ?thesis using Cons.prems visible o Some by auto
    next
      case None
      show ?thesis
      proof (cases "prg_State p = ServiceFailed")
        case True
        then have "set (fs @ [ConvergenceFailed n (prg_Message p)]) \<subseteq> set fs'"
          using Cons.prems visible o None Cons.IH by fastforce
        then have "ConvergenceFailed n (prg_Message p) \<in> set fs'" "set fs \<subseteq> set fs'" by auto
        then show ?thesis by (metis is_convergence_failure.simps(1) list_ex_iff)
      next
        case False
        then show ?thesis using Cons.prems visible o None Cons.IH [of _ _ "emit p w"]
            Cons.IH [of _ _ "(emit p w)\<lparr>ws_converged := ws_converged (emit p w) + 1\<rparr>"] by (auto split: if_splits)
      qed
    qed
  qed
qed

text \<open>If all targets are ready or failed, each of them was visible and observed as such.\<close>

definition settled_target ::
    "spec_ops \<Rightarrow> wait_request \<Rightarrow> poll_answer \<Rightarrow> (string, stack_service) fmap \<Rightarrow> (string, stack_service) fmap \<Rightarrow> string \<Rightarrow>
     service_progress \<Rightarrow> bool" where
  "settled_target ops rq a base cur n p \<longleftrightarrow>
     \<not> not_yet_visible rq n (service_named base n) (service_named cur n) \<and>
     observe_target ops rq a base cur n = (p, None) \<and> (prg_State p = ServiceReady \<or> prg_State p = ServiceFailed)"

lemma observe_targets_True:
  assumes "observe_targets ops rq a base cur ns r fs w = (True, fs', w')" "distinct ns"
  shows "(\<forall>n. n \<notin> set ns \<longrightarrow> fmlookup (ws_last w') n = fmlookup (ws_last w) n) \<and>
    (\<forall>n \<in> set ns. \<exists>p. settled_target ops rq a base cur n p \<and> fmlookup (ws_last w') n = Some p \<and>
       (prg_State p = ServiceFailed \<longrightarrow> fs' \<noteq> [])) \<and> r"
  using assms
proof (induction ns arbitrary: r fs w)
  case Nil
  then show ?case by simp
next
  case (Cons n ns)
  obtain p e where o: "observe_target ops rq a base cur n = (p, e)" by (cases "observe_target ops rq a base cur n")
  have vis: "\<not> not_yet_visible rq n (service_named base n) (service_named cur n)"
    using Cons.prems Cons.IH by (auto split: if_splits)
  then have e: "e = None" using Cons.prems o by (cases e) auto
  then have name: "prg_Name p = n" using o observe_target_name by blast
  let ?c = "(emit p w)\<lparr>ws_converged := ws_converged (emit p w) + 1\<rparr>"
  consider (failed) "prg_State p = ServiceFailed"
      "observe_targets ops rq a base cur ns r (fs @ [ConvergenceFailed n (prg_Message p)]) (emit p w) = (True, fs', w')"
    | (ready) "prg_State p = ServiceReady" "observe_targets ops rq a base cur ns r fs ?c = (True, fs', w')"
    using Cons.prems Cons.IH [of False fs "emit p w"] vis e o by (auto split: if_splits)
  then show ?case
  proof cases
    case failed
    have "fs' \<noteq> []" using observe_targets_reported [OF failed(2)] by auto
    then show ?thesis using Cons.IH [OF failed(2)] Cons.prems(2) vis e o name failed(1)
      by (auto simp: settled_target_def)
  next
    case ready
    then show ?thesis using Cons.IH [OF ready(2)] Cons.prems(2) vis e o name
      by (auto simp: settled_target_def)
  qed
qed

lemma fail_one_last:
  assumes "wait_inv T w"
  shows "wait_inv T (fail_one n w)" "ws_failedTasks (fail_one n w) = ws_failedTasks w"
    "ws_terminalFailure (fail_one n w) = ws_terminalFailure w"
    "fmlookup (ws_last (fail_one n w)) n \<noteq> Some p \<or> prg_State p \<noteq> ServicePending"
    "m \<noteq> n \<Longrightarrow> fmlookup (ws_last (fail_one n w)) m = fmlookup (ws_last w) m"
proof -
  have facts: "prg_Name q = n \<and> blames_nothing q" if "fmlookup (ws_last w) n = Some q" for q
    using assms that unfolding wait_inv_def by blast
  have b: "prg_FailedTaskID q = ''''" if "fmlookup (ws_last w) n = Some q" "prg_State q = ServicePending" for q
    using facts [OF that(1)] that(2) by (simp add: blames_nothing_def)
  let ?q = "\<lambda>q. q\<lparr>prg_State := ServiceFailed, prg_Message := WaitFailed (prg_Message q)\<rparr>"
  have i: "wait_inv T (emit (?q q) w)" for q
    by (rule emit_inv [OF assms]) (simp_all add: blames_nothing_def)
  show "wait_inv T (fail_one n w)" using assms i by (simp add: fail_one_def split: option.split)
  show "ws_failedTasks (fail_one n w) = ws_failedTasks w" using b by (simp add: fail_one_def split: option.split)
  show "ws_terminalFailure (fail_one n w) = ws_terminalFailure w" by (simp add: fail_one_def split: option.split)
  show "fmlookup (ws_last (fail_one n w)) n \<noteq> Some p \<or> prg_State p \<noteq> ServicePending"
    using facts by (auto simp: fail_one_def split: option.split)
  show "m \<noteq> n \<Longrightarrow> fmlookup (ws_last (fail_one n w)) m = fmlookup (ws_last w) m"
    using facts by (auto simp: fail_one_def split: option.split)
qed

lemma fold_fail_one:
  assumes "wait_inv T w"
  shows "wait_inv T (fold fail_one ns w) \<and> ws_failedTasks (fold fail_one ns w) = ws_failedTasks w \<and>
    ws_terminalFailure (fold fail_one ns w) = ws_terminalFailure w \<and>
    (\<forall>m p. fmlookup (ws_last (fold fail_one ns w)) m = Some p \<longrightarrow> prg_State p = ServicePending \<longrightarrow>
       fmlookup (ws_last w) m = Some p \<and> m \<notin> set ns)"
  using assms
proof (induction ns arbitrary: w)
  case Nil
  then show ?case by simp
next
  case (Cons n ns)
  note f = fail_one_last [OF Cons.prems, where n = n]
  note ih = Cons.IH [OF f(1)]
  have "fmlookup (ws_last w) m = Some p \<and> m \<notin> set (n # ns)"
    if l: "fmlookup (ws_last (fold fail_one ns (fail_one n w))) m = Some p" "prg_State p = ServicePending" for m p
  proof -
    have "fmlookup (ws_last (fail_one n w)) m = Some p" "m \<notin> set ns" using ih l by blast+
    moreover from this have "m \<noteq> n" using f(4) [of p] l(2) by blast
    ultimately show ?thesis using f(5) by simp
  qed
  then show ?case using ih f(2,3) unfolding fold.simps(2) comp_apply by (intro conjI allI impI) (blast, simp, simp, blast, blast)
qed

lemma failPending_facts:
  assumes "wait_inv T w"
  shows "wait_inv T (failPending w)" "ws_failedTasks (failPending w) = ws_failedTasks w"
    "ws_terminalFailure (failPending w) = ws_terminalFailure w"
    "fmlookup (ws_last (failPending w)) m = Some p \<Longrightarrow> prg_State p \<noteq> ServicePending"
proof -
  note f = fold_fail_one [OF assms, of "sorted_keys (ws_last w)", folded failPending_def]
  show "wait_inv T (failPending w)" "ws_failedTasks (failPending w) = ws_failedTasks w"
    "ws_terminalFailure (failPending w) = ws_terminalFailure w" using f by blast+
  show "prg_State p \<noteq> ServicePending" if "fmlookup (ws_last (failPending w)) m = Some p"
  proof
    assume "prg_State p = ServicePending"
    then have "fmlookup (ws_last w) m = Some p" "m \<notin> {k. has_key (ws_last w) k}"
      using f that unfolding set_sorted_keys by blast+
    then show False by (simp add: has_key_iff)
  qed
qed

lemma retry_one_facts:
  assumes "wait_inv T w" "n \<in> set T"
  shows "wait_inv T (retry_one n w)" "ws_failedTasks (retry_one n w) = ws_failedTasks w"
    "ws_terminalFailure (retry_one n w) = ws_terminalFailure w"
proof -
  have facts: "prg_Name q = n \<and> blames_nothing q" if "fmlookup (ws_last w) n = Some q" for q
    using assms that unfolding wait_inv_def by blast
  have "wait_inv T (emit (new_progress n Retrying) w)"
    using assms(2) by (intro emit_inv [OF assms(1)] blames_nothing_updates(3)) (simp add: new_progress_def)
  moreover have "wait_inv T (emit (q\<lparr>prg_Message := Retrying\<rparr>) w)" if "fmlookup (ws_last w) n = Some q" for q
    using facts [OF that] assms(2) by (intro emit_inv [OF assms(1)]) (simp_all add: blames_nothing_updates)
  ultimately show "wait_inv T (retry_one n w)" using assms(1) by (simp add: retry_one_def split: option.split)
  show "ws_failedTasks (retry_one n w) = ws_failedTasks w" "ws_terminalFailure (retry_one n w) = ws_terminalFailure w"
    by (simp_all add: retry_one_def new_progress_def split: option.split)
qed

lemma fold_retry_one:
  "wait_inv T w \<Longrightarrow> set ns \<subseteq> set T \<Longrightarrow>
   wait_inv T (fold retry_one ns w) \<and> ws_failedTasks (fold retry_one ns w) = ws_failedTasks w \<and>
   ws_terminalFailure (fold retry_one ns w) = ws_terminalFailure w"
  by (induction ns arbitrary: w) (simp_all add: retry_one_facts)

lemma retryPending_facts:
  "wait_inv T w \<Longrightarrow> wait_inv T (retryPending cause w) \<and> ws_failedTasks (retryPending cause w) = ws_failedTasks w \<and>
   ws_terminalFailure (retryPending cause w) = ws_terminalFailure w"
  using fold_retry_one [of T "w\<lparr>ws_lastObservationError := cause\<rparr>" "ws_targets w"]
  by (simp add: retryPending_def wait_inv_def)

section \<open>The loop\<close>

lemma poll_facts:
  assumes "poll ops rq a base w = (r, err, w')" "wait_inv T w"
  shows "wait_inv T w' \<and> ws_terminalFailure w' = ws_terminalFailure w \<and>
    (ws_failedTasks w' = ws_failedTasks w \<or> list_ex is_convergence_failure err)"
proof (cases "\<exists>cur. pa_Services a = Inr cur \<and> ws_targets w \<noteq> []")
  case True
  let ?w = "w\<lparr>ws_observed := length (ws_targets w), ws_converged := 0\<rparr>"
  from True assms(1) obtain cur where o: "observe_targets ops rq a base (servicesByName cur) (ws_targets w) True [] ?w = (r, err, w')"
    by (auto simp: poll_def observeTargets_def)
  have "ws_targets w = T" using assms(2) by (simp add: wait_inv_def)
  then show ?thesis
    using observe_targets_inv [OF o, of T] observe_targets_reported [OF o] assms(2) by simp
next
  case False
  then show ?thesis using assms by (cases "pa_Services a") (simp_all add: poll_def)
qed

text \<open>A poll that settled every target.\<close>

definition settled_poll ::
    "spec_ops \<Rightarrow> wait_request \<Rightarrow> poll_answer \<Rightarrow> (string, stack_service) fmap \<Rightarrow> wait_state \<Rightarrow> string list \<Rightarrow> bool \<Rightarrow> bool" where
  "settled_poll ops rq a base w T allowFailed \<longleftrightarrow>
     (\<exists>cur. pa_Services a = Inr cur \<and>
       (\<forall>n \<in> set T. \<exists>p. settled_target ops rq a base (servicesByName cur) n p \<and> fmlookup (ws_last w) n = Some p \<and>
          (prg_State p = ServiceReady \<or> allowFailed)))"

lemma settled_poll_updates [simp]:
  "settled_poll ops rq a base (w\<lparr>ws_terminalFailure := err\<rparr>) T b = settled_poll ops rq a base w T b"
  by (simp add: settled_poll_def)

lemma poll_True:
  assumes "poll ops rq a base w = (True, err, w')" "wait_inv T w" "distinct T" "T \<noteq> []"
  shows "settled_poll ops rq a base w' T (err \<noteq> [])"
proof -
  have T: "ws_targets w = T" using assms(2) by (simp add: wait_inv_def)
  then obtain cur where s: "pa_Services a = Inr cur"
    and o: "observe_targets ops rq a base (servicesByName cur) T True [] (w\<lparr>ws_observed := length T, ws_converged := 0\<rparr>) = (True, err, w')"
    using assms(1,4) by (auto simp: poll_def observeTargets_def split: sum.splits)
  show ?thesis
    using observe_targets_True [OF o assms(3)] s unfolding settled_poll_def settled_target_def by fastforce
qed

lemma settled_not_pending:
  assumes "settled_poll ops rq a base w T b" "wait_inv T w" "fmlookup (ws_last w) n = Some p"
  shows "prg_State p \<noteq> ServicePending"
proof (cases "n \<in> set T")
  case True
  then obtain cur q where "settled_target ops rq a base (servicesByName cur) n q" "fmlookup (ws_last w) n = Some q"
    using assms(1) unfolding settled_poll_def by blast
  then show ?thesis using assms(3) by (auto simp: settled_target_def)
next
  case False
  then show ?thesis using assms(2,3) unfolding wait_inv_def by blast
qed

text \<open>What holds when a wait returns.\<close>

definition wait_finished ::
    "spec_ops \<Rightarrow> wait_request \<Rightarrow> poll_answer list \<Rightarrow> (string, stack_service) fmap \<Rightarrow> string list \<Rightarrow> wait_error list \<Rightarrow> wait_state \<Rightarrow> bool" where
  "wait_finished ops rq as base T err w \<longleftrightarrow>
     wait_inv T w \<and> reported w err \<and> (\<forall>n p. fmlookup (ws_last w) n = Some p \<longrightarrow> prg_State p \<noteq> ServicePending) \<and>
     (err = [] \<longrightarrow> (\<exists>a \<in> set as. settled_poll ops rq a base w T False))"

lemma handleObservationError_facts:
  assumes "handleObservationError a stack cause w = (e, w')" "wait_inv T w"
  shows "wait_inv T w' \<and> ws_failedTasks w' = ws_failedTasks w \<and> ws_terminalFailure w' = ws_terminalFailure w \<and>
    (e \<noteq> [] \<longrightarrow> (\<forall>n p. fmlookup (ws_last w') n = Some p \<longrightarrow> prg_State p \<noteq> ServicePending))"
proof -
  consider "w' = failPending w" | "w' = retryPending cause w" "e = []"
    using assms(1) by (auto simp: handleObservationError_def split: option.splits if_splits)
  then show ?thesis
  proof cases
    case 1
    show ?thesis unfolding 1 using failPending_facts [OF assms(2)] by blast
  next
    case 2
    show ?thesis unfolding 2 using retryPending_facts [OF assms(2)] by blast
  qed
qed

lemma after_poll_Inl:
  assumes "after_poll a stack (r, err, w1) = Inl (e, w2)" "handleObservationError a stack err w1 = (he, hw)"
  shows "(list_ex is_convergence_failure err \<and> r \<and> e = err \<and> w2 = w1\<lparr>ws_terminalFailure := err\<rparr>) \<or>
    (\<not> list_ex is_convergence_failure err \<and> he \<noteq> [] \<and> e = ws_terminalFailure hw @ he \<and> w2 = hw) \<or>
    (err = [] \<and> r \<and> e = ws_terminalFailure w1 \<and> w2 = w1)"
proof (cases "list_ex is_convergence_failure err")
  case True
  then have "r \<and> err = e \<and> w1\<lparr>ws_terminalFailure := err\<rparr> = w2"
    using assms(1) by (cases r) (auto simp: after_poll_def Let_def)
  then show ?thesis using True by blast
next
  case False
  have "he \<noteq> [] \<and> ws_terminalFailure hw @ he = e \<and> hw = w2" if "err \<noteq> []"
    using assms(1) False that by (cases "he = []") (auto simp: after_poll_def assms(2))
  moreover have "r \<and> ws_terminalFailure w1 = e \<and> w1 = w2" if "err = []"
    using assms(1) that by (cases r) (auto simp: after_poll_def)
  ultimately show ?thesis using False by blast
qed

lemma after_poll_facts:
  assumes p: "poll ops rq a base w = (r, err, w1)" and inv: "wait_inv T w" "reported w (ws_terminalFailure w)"
    and T: "distinct T" "T \<noteq> []"
  shows "after_poll a stack (r, err, w1) = Inr w2 \<Longrightarrow> wait_inv T w2 \<and> reported w2 (ws_terminalFailure w2)"
    and "after_poll a stack (r, err, w1) = Inl (e, w2) \<Longrightarrow> wait_finished ops rq [a] base T e w2"
proof -
  note pf = poll_facts [OF p inv(1)]
  have rep: "reported w1 (ws_terminalFailure w1) \<or> list_ex is_convergence_failure err"
    using pf inv(2) unfolding reported_def by auto
  have st: "settled_poll ops rq a base w1 T (err \<noteq> [])" if r
    using poll_True [OF _ inv(1) T] p that by simp
  have np: "prg_State q \<noteq> ServicePending" if r "fmlookup (ws_last w1) n = Some q" for n q
    using settled_not_pending [OF st [OF that(1)] _ that(2)] pf by blast
  obtain he hw where h: "handleObservationError a stack err w1 = (he, hw)" by (cases "handleObservationError a stack err w1")
  have hf: "wait_inv T hw" "ws_failedTasks hw = ws_failedTasks w1" "ws_terminalFailure hw = ws_terminalFailure w1"
      "he \<noteq> [] \<Longrightarrow> fmlookup (ws_last hw) n = Some q \<Longrightarrow> prg_State q \<noteq> ServicePending" for n q
    using handleObservationError_facts [OF h] pf by blast+
  show "wait_inv T w2 \<and> reported w2 (ws_terminalFailure w2)" if "after_poll a stack (r, err, w1) = Inr w2"
    using that pf rep h hf(1-3)
    by (auto simp: after_poll_def reported_def Let_def split: if_splits)
  assume res: "after_poll a stack (r, err, w1) = Inl (e, w2)"
  from after_poll_Inl [OF res h]
  consider (failed) "list_ex is_convergence_failure err" r "e = err" "w2 = w1\<lparr>ws_terminalFailure := err\<rparr>"
    | (error) "\<not> list_ex is_convergence_failure err" "he \<noteq> []" "e = ws_terminalFailure hw @ he" "w2 = hw"
    | (ready) "err = []" r "e = ws_terminalFailure w1" "w2 = w1"
    by blast
  then show "wait_finished ops rq [a] base T e w2"
  proof cases
    case failed
    then show ?thesis using pf np by (auto simp: wait_finished_def reported_def)
  next
    case error
    then show ?thesis using hf rep by (auto simp: wait_finished_def reported_def)
  next
    case ready
    then show ?thesis using pf np rep st by (auto simp: wait_finished_def reported_def)
  qed
qed

lemma wait_loop_finished:
  assumes "wait_loop ops rq base as w = Some (err, w')" "wait_inv T w" "reported w (ws_terminalFailure w)"
    and T: "distinct T" "T \<noteq> []"
  shows "wait_finished ops rq as base T err w'"
  using assms(1-3)
proof (induction as arbitrary: w)
  case Nil
  then show ?case by simp
next
  case (Cons a as)
  obtain r e w1 where p: "poll ops rq a base w = (r, e, w1)" by (cases "poll ops rq a base w")
  note ap = after_poll_facts [OF p Cons.prems(2,3) T, of "wq_StackName rq"]
  show ?case
  proof (cases "after_poll a (wq_StackName rq) (r, e, w1)")
    case (Inl x)
    then have "wait_finished ops rq [a] base T err w'" using Cons.prems(1) p ap(2) by (cases x) auto
    then show ?thesis by (auto simp: wait_finished_def)
  next
    case (Inr w2)
    note i = ap(1) [OF Inr]
    show ?thesis
    proof (cases "pa_Done a")
      case None
      then have "wait_finished ops rq as base T err w'" using Cons p Inr i by simp
      then show ?thesis by (auto simp: wait_finished_def)
    next
      case (Some c)
      then have "err = ws_terminalFailure w2 @ [WaitInterrupted (wq_StackName rq) c]" "w' = failPending w2"
        using Cons.prems(1) p Inr by simp_all
      then show ?thesis using failPending_facts [of T w2] i by (auto simp: wait_finished_def reported_def)
    qed
  qed
qed

lemma uniqueSortedNames_facts:
  "distinct (uniqueSortedNames names)" "sorted (uniqueSortedNames names)"
  "set (uniqueSortedNames names) = {n \<in> set names. n \<noteq> ''''}"
  by (auto simp: uniqueSortedNames_def)

abbreviation wait_targets :: "wait_request \<Rightarrow> string list" where
  "wait_targets rq \<equiv> uniqueSortedNames (wq_ServiceNames rq)"

lemma Wait_finished:
  assumes "Wait ops rq as = Some (err, w)" "wait_targets rq \<noteq> []"
  shows "wait_finished ops rq as (servicesByName (wq_Baseline rq)) (wait_targets rq) err w"
proof -
  let ?w = "new_wait\<lparr>ws_targets := wait_targets rq\<rparr>"
  have "wait_loop ops rq (servicesByName (wq_Baseline rq)) as ?w = Some (err, w)"
    using assms by (simp add: Wait_def Let_def)
  moreover have "wait_inv (wait_targets rq) ?w" "reported ?w (ws_terminalFailure ?w)"
    by (simp_all add: wait_inv_def reported_def new_wait_def)
  ultimately show ?thesis by (rule wait_loop_finished) (simp_all add: uniqueSortedNames_facts assms(2))
qed

lemma Wait_trivial: "wait_targets rq = [] \<Longrightarrow> Wait ops rq as = Some ([], new_wait\<lparr>ws_targets := []\<rparr>)"
  by (simp add: Wait_def Let_def)

lemma wait_loop_returns: "\<exists>a \<in> set as. pa_Done a \<noteq> None \<Longrightarrow> \<exists>r. wait_loop ops rq base as w = Some r"
proof (induction as arbitrary: w)
  case (Cons a as)
  show ?case
  proof (cases "pa_Done a")
    case None
    with Cons.prems have "\<exists>a \<in> set as. pa_Done a \<noteq> None" by auto
    then show ?thesis using Cons.IH None by (simp split: sum.split)
  next
    case (Some c)
    then show ?thesis by (simp split: sum.split)
  qed
qed simp

lemma no_keys: "sorted_keys fmempty = []"
  by (simp add: sorted_keys_def sorted_list_of_fset_def)

lemma nonempty_names: "set (wq_ServiceNames rq) - {''''} = set (wait_targets rq)"
  by (auto simp: uniqueSortedNames_facts)

lemma settled_all_ready:
  assumes "settled_poll ops rq a b w T False"
  shows "\<exists>cur. pa_Services a = Inr cur \<and>
    (\<forall>n \<in> set T. \<not> not_yet_visible rq n (service_named b n) (service_named (servicesByName cur) n) \<and>
       snd (observe_target ops rq a b (servicesByName cur) n) = None \<and>
       prg_State (fst (observe_target ops rq a b (servicesByName cur) n)) = ServiceReady)"
  using assms unfolding settled_poll_def settled_target_def by fastforce

lemma settled_ready:
  assumes "settled_poll ops rq a base w T False" "n \<in> set T"
  shows "last_ready w n"
  using assms unfolding settled_poll_def last_ready_def by fastforce

definition ready_at :: "spec_ops \<Rightarrow> wait_request \<Rightarrow> poll_answer \<Rightarrow> stack_service list \<Rightarrow> string \<Rightarrow> bool" where
  "ready_at ops rq a cur n \<longleftrightarrow>
     (let b = servicesByName (wq_Baseline rq); c = servicesByName cur
      in \<not> not_yet_visible rq n (service_named b n) (service_named c n) \<and>
         snd (observe_target ops rq a b c n) = None \<and>
         prg_State (fst (observe_target ops rq a b c n)) = ServiceReady)"

lemma Wait_success:
  assumes "Wait ops rq as = Some ([], w)"
  shows "wr_UnresolvedServices (result w) = []"
    and "wait_targets rq \<noteq> [] \<Longrightarrow>
      \<exists>a \<in> set as. \<exists>cur. pa_Services a = Inr cur \<and> (\<forall>n \<in> set (wq_ServiceNames rq) - {''''}. ready_at ops rq a cur n)"
proof -
  show "wr_UnresolvedServices (result w) = []"
  proof (cases "wait_targets rq = []")
    case True
    then have "w = new_wait\<lparr>ws_targets := []\<rparr>" using assms Wait_trivial [of rq ops as] by simp
    then show ?thesis by (simp add: result_def)
  next
    case False
    note fin = Wait_finished [OF assms False, unfolded wait_finished_def]
    then have "ws_targets w = wait_targets rq" by (simp add: wait_inv_def)
    then show ?thesis using fin settled_ready by (fastforce simp: result_def filter_empty_conv)
  qed
  assume ne: "wait_targets rq \<noteq> []"
  obtain a where "a \<in> set as" "settled_poll ops rq a (servicesByName (wq_Baseline rq)) w (wait_targets rq) False"
    using Wait_finished [OF assms ne, unfolded wait_finished_def] by blast
  then show "\<exists>a \<in> set as. \<exists>cur. pa_Services a = Inr cur \<and> (\<forall>n \<in> set (wq_ServiceNames rq) - {''''}. ready_at ops rq a cur n)"
    unfolding nonempty_names ready_at_def Let_def using settled_all_ready by blast
qed


definition sample_request :: wait_request where
  "sample_request =
     \<lparr>wq_StackName = ''shop'', wq_ServiceNames = [''web''], wq_Baseline = [sample_before], wq_AppliedServices = [''web''],
      wq_UnresolvedServices = [], wq_ExpectedSpecs = fmupd ''web'' sample_spec fmempty,
      wq_UpdateGenerations = fmupd ''web'' sample_generation fmempty\<rparr>"

definition sample_answer :: poll_answer where
  "sample_answer =
     \<lparr>pa_Services = Inr [sample_service], pa_Tasks = (\<lambda>_. Inr [sample_task]), pa_Nodes = Inr [], pa_CtxErr = None, pa_Done = None\<rparr>"


text \<open>
  C4. A wait ends: as soon as one of its selects takes the branch of the ended context, at the latest,
  \<open>Wait\<close> returns. Then no service is left in the pending state, and the result names every target:
  those not verified as unresolved, the others having been ready when they were last observed.
\<close>

theorem wait_ends:
  assumes "\<exists>a \<in> set as. pa_Done a \<noteq> None"
  shows "\<exists>err w. Wait ops rq as = Some (err, w) \<and>
    (\<forall>n p. fmlookup (ws_last w) n = Some p \<longrightarrow> prg_State p \<noteq> ServicePending) \<and>
    (\<forall>n \<in> set (wq_ServiceNames rq) - {''''}.
       n \<in> set (wr_UnresolvedServices (result w)) \<or>
       (\<exists>p. fmlookup (ws_last w) n = Some p \<and> prg_State p = ServiceReady))"
proof (cases "wait_targets rq = []")
  case True
  then have "\<forall>n \<in> set (wq_ServiceNames rq) - {''''}. False"
    using uniqueSortedNames_facts(3) [of "wq_ServiceNames rq"] by auto
  then show ?thesis using Wait_trivial [OF True] by (auto simp: new_wait_def)
next
  case False
  obtain err w where r: "Wait ops rq as = Some (err, w)" 
    using wait_loop_returns [OF assms] by (force simp: Wait_def Let_def)
  note fin = Wait_finished [OF r False, unfolded wait_finished_def]
  have "ws_targets w = wait_targets rq" using fin by (simp add: wait_inv_def)
  then have "n \<in> set (wr_UnresolvedServices (result w)) \<or> last_ready w n" if "n \<in> set (wq_ServiceNames rq) - {''''}" for n
    using that by (auto simp: result_def uniqueSortedNames_facts)
  then show ?thesis using r fin unfolding last_ready_def by (force split: option.splits)
qed

definition interrupted_answers :: "poll_answer list" where
  "interrupted_answers =
     [sample_answer\<lparr>pa_Services := Inr [sample_before]\<rparr>, sample_answer\<lparr>pa_Services := Inr [], pa_Done := Some ''deadline''\<rparr>]"

theorem wait_ends_witness:
  "\<exists>err w. Wait sample_ops sample_request interrupted_answers = Some (err, w) \<and> ''web'' \<in> set (wr_UnresolvedServices (result w))"
proof -
  have d: "\<exists>a \<in> set interrupted_answers. pa_Done a \<noteq> None" by (simp add: interrupted_answers_def)
  have n: "''web'' \<in> set (wq_ServiceNames sample_request) - {''''}" by (simp add: sample_request_def)
  from wait_ends [OF d, of sample_ops sample_request]
  obtain err w where w: "Wait sample_ops sample_request interrupted_answers = Some (err, w)"
      "''web'' \<in> set (wr_UnresolvedServices (result w)) \<or> (\<exists>p. fmlookup (ws_last w) ''web'' = Some p \<and> prg_State p = ServiceReady)"
    using n by blast
  have "map_option (\<lambda>r. map_option prg_State (fmlookup (ws_last (snd r)) ''web'')) (Wait sample_ops sample_request interrupted_answers) =
      Some (Some ServiceFailed)" by code_simp
  with w show ?thesis by auto
qed

section \<open>A transition without a name\<close>

text \<open>
  When the tasks of an externally scaled service cannot be listed, the transition that is emitted has
  neither the name of the service nor a state, and it is kept under the empty name.
\<close>

lemma external_listing_loses_name:
  assumes "srv_UpdateStatus s = None" "\<not> IsZero (gen_TasksAfter g)" "pa_Tasks a (srv_ID s) = Inl e"
  shows "\<exists>p. observeExternalService ops a name base s unresolved expected g = (p, Some (TasksNotListed e)) \<and>
    prg_Name p = '''' \<and> prg_State p = ServiceUnset \<and> fmlookup (ws_last (emit p w)) '''' = Some p"
  using assms by (simp add: observeExternalService_def zero_progress_def new_progress_def)

end
