(* ===== verification/ApplySafety.thy ===== *)
theory ApplySafety
  imports Applier
begin

text \<open>
  Correctness of the service applier. The specification it prepares satisfies the comparison that decides
  whether another update is needed; every write goes to an inspected service of the stack, at the inspected
  version and after its intent was recorded; an externally scaled service is only touched when idle.

  The proofs about the log of calls use triples \<open>triple I P m Q\<close>: from a state in \<open>P\<close> the operation ends
  in \<open>Q\<close> with its value, or fails in a state of the invariant \<open>I\<close>.
\<close>

section \<open>The prepared specification is the desired one\<close>

lemma copy_image_self: "copy_image t t = t"
proof -
  have "(case (tt_ContainerSpec t, tt_ContainerSpec t) of (Some c, Some d) \<Rightarrow> Some (d\<lparr>con_Image := con_Image c\<rparr>) | _ \<Rightarrow> tt_ContainerSpec t) =
      tt_ContainerSpec t" by (cases "tt_ContainerSpec t") simp_all
  moreover have "Some (with_platforms (platforms t) (tt_Placement t)) = tt_Placement t" if "platforms t \<noteq> []"
    using that by (cases "tt_Placement t") (simp_all add: platforms_def with_platforms_def)
  ultimately show ?thesis by (simp add: copy_image_def)
qed

lemma platforms_copy: "platforms (copy_image c d) = (if platforms c = [] then platforms d else platforms c)"
  by (cases "tt_Placement d") (simp_all add: copy_image_def platforms_def [of "d\<lparr>tt_ContainerSpec := _, tt_Placement := _\<rparr>"]
      with_platforms_def platforms_def [of d])

lemma copy_image_twice: "copy_image (copy_image c d) d = copy_image c d"
proof (cases "platforms c = []")
  case True
  have "Some (with_platforms (platforms d) (tt_Placement d)) = tt_Placement d" if "platforms d \<noteq> []"
    using that by (cases "tt_Placement d") (simp_all add: platforms_def with_platforms_def)
  then show ?thesis using True
    by (cases "tt_ContainerSpec c"; cases "tt_ContainerSpec d")
      (simp_all add: copy_image_def [of "copy_image c d"] platforms_copy, simp_all add: copy_image_def)
next
  case False
  then show ?thesis
    by (cases "tt_ContainerSpec c"; cases "tt_ContainerSpec d")
      (simp_all add: copy_image_def [of "copy_image c d"] platforms_copy, simp_all add: copy_image_def)
qed

lemma copy_image_simps [simp]: "tt_ForceUpdate (copy_image c d) = tt_ForceUpdate d"
  by (simp add: copy_image_def)

lemma set_simps [simp]:
  "sp_TaskTemplate (set_replicas r d) = sp_TaskTemplate d" "sp_Labels (set_replicas r d) = sp_Labels d"
  "sp_TaskTemplate (set_template t d) = t" "sp_Labels (set_template t d) = sp_Labels d"
  "sp_Mode (set_template t d) = sp_Mode d" "set_template t (set_template u d) = set_template t d"
  "set_replicas r (set_template t d) = set_template t (set_replicas r d)" "set_replicas r (set_replicas q d) = set_replicas r d"
  "sm_Replicated (sp_Mode (set_replicas r d)) = r" "set_template (sp_TaskTemplate d) d = d"
  by (simp_all add: set_replicas_def set_template_def)

lemma set_replicas_same: "set_replicas (sm_Replicated (sp_Mode d)) d = d"
  by (simp add: set_replicas_def)

lemma resolution_idem:
  assumes a: "a = set_replicas r (fst (normalizeImageResolution ops cur (set_force_update f desired)))"
  shows "fst (normalizeImageResolution ops a (set_force_update f (set_replicas r desired))) = a \<and>
    tt_ForceUpdate (sp_TaskTemplate a) = f"
proof (cases "resolved_image ops cur (set_force_update f desired)")
  case True
  let ?d = "(sp_TaskTemplate desired)\<lparr>tt_ForceUpdate := f\<rparr>"
  let ?t = "copy_image (sp_TaskTemplate cur) ?d"
  have a': "a = set_template ?t (set_replicas r desired)"
    using True by (simp add: a normalizeImageResolution_def set_force_update_def)
  have "resolved_image ops a (set_force_update f (set_replicas r desired))"
    using True unfolding a' by (auto simp: resolved_image_def set_force_update_def copy_image_def split: option.splits)
  then show ?thesis unfolding a' by (simp add: normalizeImageResolution_def set_force_update_def copy_image_twice)
next
  case False
  then have "a = set_force_update f (set_replicas r desired)"
    by (simp add: a normalizeImageResolution_def set_force_update_def)
  then show ?thesis by (simp add: normalizeImageResolution_def set_force_update_def copy_image_self)
qed

lemma unmanaged_replicated: "ReplicasManaged desired = Inr False \<Longrightarrow> sm_Replicated (sp_Mode desired) \<noteq> None"
  by (auto simp: ReplicasManaged_def split: sum.splits prod.splits if_splits)

lemma SpecsEqual_prepared:
  assumes m: "ReplicasManaged desired = Inr m"
    and a: "a = set_replicas r (fst (normalizeImageResolution ops cur (set_force_update f desired)))"
    and r: "m \<Longrightarrow> r = sm_Replicated (sp_Mode desired)" "\<not> m \<Longrightarrow> r \<noteq> None"
  shows "SpecsEqual ops a desired"
proof -
  note i = resolution_idem [OF a]
  have mode: "sm_Replicated (sp_Mode a) = r" by (simp add: a)
  have "(if m then desired else preserveReplicas a desired) = set_replicas r desired"
    using r mode unmanaged_replicated [of desired] m by (simp add: preserveReplicas_def set_replicas_same)
  then show ?thesis using i m by (simp add: SpecsEqual_def Let_def)
qed

section \<open>Operations that succeed\<close>

lemma andThen_Inr:
  "andThen m f s = (Inr y, s') \<longleftrightarrow> (\<exists>x t. m s = (Inr x, t) \<and> f x t = (Inr y, s'))"
  by (auto simp: andThen_def split: prod.splits sum.splits)

lemma op_simps [simp]:
  "returning x s = (Inr y, s') \<longleftrightarrow> y = x \<and> s' = s" "failing e s = (Inr y, s') \<longleftrightarrow> False"
  "calling c answer s = (Inr y, s') \<longleftrightarrow> y = answer (length (as_Calls s)) \<and> s' = s\<lparr>as_Calls := c # as_Calls s\<rparr>"
  by (auto simp: returning_def failing_def calling_def)

lemma retryRequired_keeps: "retryRequired ops env cur enabled s = (Inr y, s') \<Longrightarrow> length (as_Calls s) \<le> length (as_Calls s')"
  by (auto simp: retryRequired_def Let_def andThen_Inr split: if_splits option.splits sum.splits)

section \<open>Externally scaled services\<close>

lemma active_task_Settled: "active_task tasks = Settled \<longleftrightarrow> (\<forall>t \<in> set tasks. \<not> taskActive (st_CurrentState t))"
  by (auto simp: active_task_def find_None_iff find_Some_iff split: option.split)

definition slot_settled :: "task_template \<Rightarrow> service_task list \<Rightarrow> int \<Rightarrow> bool" where
  "slot_settled template tasks slot \<longleftrightarrow>
     (\<exists>t. newest_in_slot tasks slot = Some t \<and> st_DesiredState t \<noteq> TaskStateRemove \<and>
          CompareServiceTemplate (st_Spec t) template = TemplatesEqual)"

lemma settle_slots_Settled:
  "settle_slots template tasks acc slots = Settled \<longleftrightarrow> acc = Settled \<and> (\<forall>slot \<in> set slots. slot_settled template tasks slot)"
  by (induction slots arbitrary: acc) (auto simp: slot_settled_def split: option.splits)

lemma executionSettled_Settled:
  "executionSettled template replicas tasks = Settled \<longleftrightarrow>
     (\<forall>t \<in> set tasks. \<not> taskActive (st_CurrentState t)) \<and> (\<forall>slot \<in> {1..uint replicas}. slot_settled template tasks slot)"
proof -
  have "set (slots_of replicas) = {1..uint replicas}"
  proof -
    have "set (slots_of replicas) = int ` {1..unat replicas}"
      by (auto simp: slots_of_def)
    also have "\<dots> = {1..int (unat replicas)}" by (simp add: image_int_atLeastAtMost)
    finally show ?thesis by simp
  qed
  then show ?thesis
    using active_task_Settled [of tasks]
    by (auto simp: executionSettled_def settle_slots_Settled split: settlement.split)
qed

text \<open>A listing of the tasks that an operation obtained.\<close>

definition listed :: "apply_env \<Rightarrow> string \<Rightarrow> apply_state \<Rightarrow> apply_state \<Rightarrow> service_task list \<Rightarrow> bool" where
  "listed env i s s' tasks \<longleftrightarrow>
     (\<exists>n. length (as_Calls s) \<le> n \<and> n < length (as_Calls s') \<and> en_ListTasks env n i = Inr tasks)"

lemmas recheck_simps = recheckTemplateMismatch.simps
declare recheckTemplateMismatch.simps [simp del]

lemma listed_mono: "listed env i t s' ts \<Longrightarrow> length (as_Calls s) \<le> length (as_Calls t) \<Longrightarrow> listed env i s s' ts"
  by (auto simp: listed_def intro: order_trans)

lemma recheck_length:
  "recheckTemplateMismatch env name cur replicas left st s = (Inr y, s') \<Longrightarrow> length (as_Calls s) < length (as_Calls s')"
proof (induction left arbitrary: st s)
  case 0
  then show ?case by (auto simp: recheck_simps [of env name cur replicas 0] andThen_Inr split: sum.splits if_splits)
next
  case (Suc k)
  from Suc.prems consider "s' = s\<lparr>as_Calls := CallInspect (ds_ID cur) # as_Calls s\<rparr>"
    | tasks where "recheckTemplateMismatch env name cur replicas k (executionSettled (sp_TaskTemplate (ds_Spec cur)) replicas tasks)
        (s\<lparr>as_Calls := CallListTasks (ds_ID cur) # CallInspect (ds_ID cur) # as_Calls s\<rparr>) = (Inr y, s')"
    by (auto simp: andThen_Inr simp: recheck_simps [of env name cur replicas "Suc k"] split: sum.splits if_splits)
  then show ?case by cases (use Suc.IH in force)+
qed

lemma recheck_Settled:
  assumes "recheckTemplateMismatch env name cur replicas left st s = (Inr Settled, s')" "st \<noteq> Settled"
  shows "\<exists>tasks. listed env (ds_ID cur) s s' tasks \<and> executionSettled (sp_TaskTemplate (ds_Spec cur)) replicas tasks = Settled"
  using assms
proof (induction left arbitrary: st s)
  case 0
  then show ?case by (auto simp: recheck_simps [of env name cur replicas 0] andThen_Inr split: sum.splits if_splits)
next
  case (Suc k)
  let ?s = "\<lambda>s. s\<lparr>as_Calls := CallListTasks (ds_ID cur) # CallInspect (ds_ID cur) # as_Calls s\<rparr>"
  from Suc.prems obtain tasks where t: "en_ListTasks env (Suc (length (as_Calls s))) (ds_ID cur) = Inr tasks"
    and r: "recheckTemplateMismatch env name cur replicas k (executionSettled (sp_TaskTemplate (ds_Spec cur)) replicas tasks) (?s s) = (Inr Settled, s')"
    by (auto simp: andThen_Inr simp: recheck_simps [of env name cur replicas "Suc k"] split: sum.splits if_splits)
  have len: "length (as_Calls (?s s)) \<le> length (as_Calls s')"
    using recheck_length [OF r] by simp
  show ?case
  proof (cases "executionSettled (sp_TaskTemplate (ds_Spec cur)) replicas tasks = Settled")
    case True
    then show ?thesis using t len by (auto simp: listed_def intro!: exI [of _ tasks] exI [of _ "Suc (length (as_Calls s))"])
  next
    case False
    have "length (as_Calls s) \<le> length (as_Calls (?s s))" by simp
    with Suc.IH [OF r False] show ?thesis using listed_mono by blast
  qed
qed


text \<open>
  C27. An update of an externally scaled service never disturbs or triggers an execution. If the check
  lets an update through that may recreate tasks, then a listing of the tasks made by this very check
  shows none of them active, and either no replica is requested, or the service never restarts tasks, the
  newest task of every requested slot is a finished one of the inspected template that is not being
  removed, and the update sets the replicas to zero, so that it starts nothing by itself.
\<close>

theorem external_update_safe:
  assumes ok: "checkUpdateSafety ops env name cur desired s = (Inr applied, s')"
    and recreating: "taskRecreatingUpdate ops (ds_Spec cur) desired"
  shows "\<exists>tasks replicas. listed env (ds_ID cur) s s' tasks \<and> currentReplicas (ds_Spec cur) = Some replicas \<and>
    (\<forall>t \<in> set tasks. \<not> taskActive (st_CurrentState t)) \<and>
    (if replicas = 0 then applied = desired
     else restartDisabled (ds_Spec cur) \<and> applied = set_replicas (Some (Some 0)) desired \<and>
       (\<forall>slot \<in> {1..uint replicas}. slot_settled (sp_TaskTemplate (ds_Spec cur)) tasks slot))"
proof -
  let ?park = "parking (ds_Spec cur) desired"
  let ?s = "s\<lparr>as_Calls := CallListTasks (ds_ID cur) # as_Calls s\<rparr>"
  obtain replicas where r: "currentReplicas (ds_Spec cur) = Some replicas" "replicas = 0 \<or> ?park"
    using ok recreating by (auto simp: checkUpdateSafety_def Let_def split: if_splits option.splits)
  have nb: "\<not> (replicas \<noteq> 0 \<and> \<not> ?park)" using r(2) by blast
  have pk: "?park \<Longrightarrow> replicas \<noteq> 0 \<and> restartDisabled (ds_Spec cur)" using r(1) by (simp add: parking_def)
  define settle where "settle = (\<lambda>ts. if ?park then executionSettled (sp_TaskTemplate (ds_Spec cur)) replicas ts else active_task ts)"
  let ?after = "\<lambda>st. case st of Unsettled r \<Rightarrow> failing (UpdateBlocked name r)
      | Settled \<Rightarrow> returning (if ?park then set_replicas (Some (Some 0)) desired else desired)"
  have "andThen (calling (CallListTasks (ds_ID cur)) (\<lambda>n. en_ListTasks env n (ds_ID cur))) (\<lambda>answer.
      case answer of
        Inl e \<Rightarrow> failing (TasksFailed name e)
      | Inr tasks \<Rightarrow>
          andThen (if is_mismatch (settle tasks) then recheckTemplateMismatch env name cur replicas templateMismatchRechecks (settle tasks)
                   else returning (settle tasks)) ?after) s = (Inr applied, s')"
    using ok recreating nb unfolding checkUpdateSafety_def settle_def Let_def r(1) option.case by simp
  then obtain tasks where t: "en_ListTasks env (length (as_Calls s)) (ds_ID cur) = Inr tasks"
    and run: "andThen (if is_mismatch (settle tasks) then recheckTemplateMismatch env name cur replicas templateMismatchRechecks (settle tasks)
        else returning (settle tasks)) ?after ?s = (Inr applied, s')"
    by (auto simp: andThen_Inr [of "calling c g" for c g] split: sum.splits)
  then obtain st t where st: "(if is_mismatch (settle tasks) then recheckTemplateMismatch env name cur replicas templateMismatchRechecks (settle tasks)
        else returning (settle tasks)) ?s = (Inr st, t)" and "?after st t = (Inr applied, s')"
    unfolding andThen_Inr by blast
  then have fin: "st = Settled" "s' = t" "applied = (if ?park then set_replicas (Some (Some 0)) desired else desired)"
    by (auto split: settlement.splits)
  obtain ts where ts: "listed env (ds_ID cur) s s' ts" "settle ts = Settled"
  proof (cases "is_mismatch (settle tasks)")
    case False
    then show ?thesis using that [of tasks] t st fin by (auto simp: listed_def)
  next
    case True
    then have ne: "settle tasks \<noteq> Settled" by (auto simp: is_mismatch_def)
    have park: ?park using True by (auto simp: settle_def is_mismatch_def active_task_def split: if_splits option.splits)
    from recheck_Settled [of env name cur replicas templateMismatchRechecks "settle tasks" ?s s'] True st fin ne
    obtain us where "listed env (ds_ID cur) ?s s' us" "executionSettled (sp_TaskTemplate (ds_Spec cur)) replicas us = Settled" by auto
    then show ?thesis using that [of us] park by (auto simp: listed_def settle_def intro: Suc_leD)
  qed
  then show ?thesis using r pk fin(3)
    by (auto simp: settle_def executionSettled_Settled active_task_Settled split: if_splits)
qed

section \<open>Prepared updates\<close>

lemma preserved_replicas:
  "preserveReplicas cur a = set_replicas (if sm_Replicated (sp_Mode cur) \<noteq> None \<and> sm_Replicated (sp_Mode a) \<noteq> None
     then sm_Replicated (sp_Mode cur) else sm_Replicated (sp_Mode a)) a"
  unfolding preserveReplicas_def by (simp only: set_replicas_same split: if_split) blast

lemma resolution_mode [simp]:
  "sp_Mode (fst (normalizeImageResolution ops cur d)) = sp_Mode d" "sp_Mode (set_force_update f d) = sp_Mode d"
  by (simp_all add: normalizeImageResolution_def set_force_update_def)

lemma checkUpdateSafety_result:
  "checkUpdateSafety ops env name cur a s = (Inr b, s') \<Longrightarrow> b = a \<or> b = set_replicas (Some (Some 0)) a"
  by (auto simp: checkUpdateSafety_def Let_def andThen_Inr split: if_splits sum.splits settlement.splits option.splits)
    (metis settlement.exhaust)+

lemma prepared_matches:
  assumes "prepareUpdate ops env name desired cur retryFailed s = (Inr (applied, reused), s')"
    and m: "ReplicasManaged desired = Inr m"
  shows "SpecsEqual ops applied desired"
proof -
  have mm: "managed_replicas desired = m" using m by (simp add: managed_replicas_def)
  let ?force = "tt_ForceUpdate (sp_TaskTemplate (ds_Spec cur))"
  from assms(1) obtain retry t where run: "(if \<not> retry \<and> SpecsEqual ops (ds_Spec cur) desired then returning (ds_Spec cur, True)
      else case normalizeImageResolution ops (ds_Spec cur) (set_force_update (if retry then ?force + 1 else ?force) desired) of
        (a, reused) \<Rightarrow> if m then returning (a, reused)
          else andThen (checkUpdateSafety ops env name cur (preserveReplicas (ds_Spec cur) a)) (\<lambda>a. returning (a, reused))) t
      = (Inr (applied, reused), s')"
    unfolding prepareUpdate_def Let_def mm andThen_Inr by blast
  define f where "f = (if retry then ?force + 1 else ?force)"
  define a where "a = fst (normalizeImageResolution ops (ds_Spec cur) (set_force_update f desired))"
  have mode: "sm_Replicated (sp_Mode a) = sm_Replicated (sp_Mode desired)" by (simp add: a_def)
  consider (same) "applied = ds_Spec cur" "SpecsEqual ops (ds_Spec cur) desired" | (managed) m "applied = a"
    | (external) q where "\<not> m" "checkUpdateSafety ops env name cur (preserveReplicas (ds_Spec cur) a) t = (Inr applied, q)"
    using run by (auto simp: f_def [symmetric] a_def andThen_Inr split: if_splits prod.splits)
  then show ?thesis
  proof cases
    case same
    then show ?thesis by simp
  next
    case managed
    then have "applied = set_replicas (sm_Replicated (sp_Mode desired)) a" by (metis mode set_replicas_same)
    then show ?thesis using SpecsEqual_prepared [OF m _ refl, of applied ops "ds_Spec cur" f] managed(1) by (simp add: a_def)
  next
    case external
    then have ne: "sm_Replicated (sp_Mode desired) \<noteq> None" using m unmanaged_replicated by simp
    from checkUpdateSafety_result [OF external(2)] obtain r where "applied = set_replicas r a" "r \<noteq> None"
      using ne mode by (auto simp: preserved_replicas split: if_splits)
    then show ?thesis using SpecsEqual_prepared [OF m, of applied r ops "ds_Spec cur" f] external(1) by (simp add: a_def)
  qed
qed

section \<open>Triples\<close>

definition triple :: "(apply_state \<Rightarrow> bool) \<Rightarrow> (apply_state \<Rightarrow> bool) \<Rightarrow> 'a apply_op \<Rightarrow> ('a \<Rightarrow> apply_state \<Rightarrow> bool) \<Rightarrow> bool" where
  "triple I P m Q \<longleftrightarrow> (\<forall>s. P s \<longrightarrow> (case m s of (Inl e, s') \<Rightarrow> I s' | (Inr x, s') \<Rightarrow> Q x s'))"

lemma triple_returning: "(\<And>s. P s \<Longrightarrow> Q x s) \<Longrightarrow> triple I P (returning x) Q"
  by (simp add: triple_def returning_def)

lemma triple_failing: "(\<And>s. P s \<Longrightarrow> I s) \<Longrightarrow> triple I P (failing e) Q"
  by (simp add: triple_def failing_def)

lemma triple_andThen: "triple I P m Q \<Longrightarrow> (\<And>x. triple I (Q x) (f x) R) \<Longrightarrow> triple I P (andThen m f) R"
  unfolding triple_def andThen_def by (fastforce split: prod.splits sum.splits)

lemma triple_calling:
  "(\<And>s. P s \<Longrightarrow> Q (answer (length (as_Calls s))) (s\<lparr>as_Calls := c # as_Calls s\<rparr>)) \<Longrightarrow> triple I P (calling c answer) Q"
  by (simp add: triple_def calling_def)

lemma triple_if: "(b \<Longrightarrow> triple I P m Q) \<Longrightarrow> (\<not> b \<Longrightarrow> triple I P n Q) \<Longrightarrow> triple I P (if b then m else n) Q"
  by simp

lemma triple_weaken: "triple I P' m Q' \<Longrightarrow> (\<And>s. P s \<Longrightarrow> P' s) \<Longrightarrow> (\<And>x s. Q' x s \<Longrightarrow> Q x s) \<Longrightarrow> triple I P m Q"
  unfolding triple_def by (fastforce split: prod.splits sum.splits)

lemma triple_pure: "(p \<Longrightarrow> triple I P m Q) \<Longrightarrow> triple I (\<lambda>s. p \<and> P s) m Q"
  by (auto simp: triple_def)

lemma triple_result:
  "triple I P m Q \<Longrightarrow> (\<And>s x s'. m s = (Inr x, s') \<Longrightarrow> R x) \<Longrightarrow> triple I P m (\<lambda>x s. R x \<and> Q x s)"
  unfolding triple_def by (fastforce split: prod.splits sum.splits)

section \<open>The log of calls\<close>

definition owned :: "string \<Rightarrow> service_spec \<Rightarrow> docker_service \<Rightarrow> bool" where
  "owned stack d cur \<longleftrightarrow>
     ds_ID cur \<noteq> '''' \<and> sp_Name (ds_Spec cur) = sp_Name d \<and> map_str (sp_Labels (ds_Spec cur)) StackNamespace = stack"

text \<open>Docker returned \<open>cur\<close> to an earlier inspection; the oldest call is the last of the log.\<close>

definition inspected :: "apply_env \<Rightarrow> service_spec \<Rightarrow> docker_service \<Rightarrow> docker_call list \<Rightarrow> bool" where
  "inspected env d cur calls \<longleftrightarrow>
     (\<exists>later earlier. calls = later @ CallInspect (sp_Name d) # earlier \<and> en_Inspect env (length earlier) (sp_Name d) = Inr cur)"

definition justified_call ::
    "spec_ops \<Rightarrow> apply_env \<Rightarrow> string \<Rightarrow> service_spec list \<Rightarrow> bool \<Rightarrow> docker_call \<Rightarrow> docker_call list \<Rightarrow> bool" where
  "justified_call ops env stack specs records c earlier \<longleftrightarrow>
     (case c of
        CallUpdate i v spec opts \<Rightarrow>
          (\<exists>d \<in> set specs. \<exists>cur. inspected env d cur earlier \<and> owned stack d cur \<and> ds_ID cur = i \<and> ds_Version cur = v \<and>
             SpecsEqual ops spec d \<and>
             (records \<longrightarrow> (\<exists>g rest. earlier = CallBeforeUpdate (serviceName stack (sp_Name d)) g # rest \<and> gen_ServiceID g = i)))
      | CallCreate spec auth \<Rightarrow> spec \<in> set specs
      | _ \<Rightarrow> True)"

fun justified ::
    "spec_ops \<Rightarrow> apply_env \<Rightarrow> string \<Rightarrow> service_spec list \<Rightarrow> bool \<Rightarrow> docker_call list \<Rightarrow> bool" where
  "justified ops env stack specs records [] = True"
| "justified ops env stack specs records (c # earlier) =
     (justified_call ops env stack specs records c earlier \<and> justified ops env stack specs records earlier)"

lemma inspected_later: "inspected env d cur calls \<Longrightarrow> inspected env d cur (c # calls)"
  unfolding inspected_def by (metis append_Cons)

lemma inspected_now: "en_Inspect env (length calls) (sp_Name d) = Inr cur \<Longrightarrow> inspected env d cur (CallInspect (sp_Name d) # calls)"
  unfolding inspected_def by (metis append_Nil)

definition log_inv :: "spec_ops \<Rightarrow> apply_env \<Rightarrow> string \<Rightarrow> service_spec list \<Rightarrow> bool \<Rightarrow> apply_state \<Rightarrow> bool" where
  "log_inv ops env stack specs records s \<longleftrightarrow> justified ops env stack specs records (as_Calls s)"

text \<open>Holding a service that was inspected and is owned by the stack.\<close>

definition holds ::
    "spec_ops \<Rightarrow> apply_env \<Rightarrow> string \<Rightarrow> service_spec list \<Rightarrow> bool \<Rightarrow> service_spec \<Rightarrow> docker_service \<Rightarrow> apply_state \<Rightarrow> bool" where
  "holds ops env stack specs records d cur s \<longleftrightarrow>
     log_inv ops env stack specs records s \<and> inspected env d cur (as_Calls s) \<and> owned stack d cur"

text \<open>Calls that write nothing to a service.\<close>

fun harmless :: "docker_call \<Rightarrow> bool" where
  "harmless (CallUpdate _ _ _ _) = False"
| "harmless (CallCreate _ _) = False"
| "harmless _ = True"

lemma harmless_justified: "harmless c \<Longrightarrow> justified_call ops env stack specs records c earlier"
  by (cases c) (simp_all add: justified_call_def)

text \<open>Operations that keep a predicate.\<close>

definition keeps :: "(apply_state \<Rightarrow> bool) \<Rightarrow> (apply_state \<Rightarrow> bool) \<Rightarrow> 'a apply_op \<Rightarrow> bool" where
  "keeps I P m \<longleftrightarrow> triple I P m (\<lambda>_. P)"

lemma keeps_returning: "keeps I P (returning x)"
  by (auto simp: keeps_def intro: triple_returning)

lemma keeps_andThen: "keeps I P m \<Longrightarrow> (\<And>x. keeps I P (f x)) \<Longrightarrow> keeps I P (andThen m f)"
  by (auto simp: keeps_def intro: triple_andThen)

lemma keeps_if: "(b \<Longrightarrow> keeps I P m) \<Longrightarrow> (\<not> b \<Longrightarrow> keeps I P n) \<Longrightarrow> keeps I P (if b then m else n)"
  by simp

lemma keeps_option: "keeps I P m \<Longrightarrow> (\<And>x. keeps I P (f x)) \<Longrightarrow> keeps I P (case y of None \<Rightarrow> m | Some x \<Rightarrow> f x)"
  by (simp split: option.split)

lemma keeps_sum: "(\<And>x. keeps I P (f x)) \<Longrightarrow> (\<And>x. keeps I P (g x)) \<Longrightarrow> keeps I P (case y of Inl x \<Rightarrow> f x | Inr x \<Rightarrow> g x)"
  by (simp split: sum.split)

lemma keeps_settlement:
  "keeps I P m \<Longrightarrow> (\<And>r. keeps I P (f r)) \<Longrightarrow> keeps I P (case st of Settled \<Rightarrow> m | Unsettled r \<Rightarrow> f r)"
  by (simp split: settlement.split)

lemmas keeps_structure = keeps_returning keeps_andThen keeps_if keeps_option keeps_sum keeps_settlement

lemma keeps_triple: "keeps I P m \<Longrightarrow> triple I P m (\<lambda>_. P)"
  by (simp add: keeps_def)

lemmas seq = triple_andThen [OF keeps_triple]

lemma validateOwnership_owned: "validateOwnership stack (sp_Name d) cur s = (Inr x, s') \<Longrightarrow> owned stack d cur"
  by (auto simp: validateOwnership_def owned_def split: if_splits)

section \<open>Predicates that outlast harmless calls\<close>

text \<open>
  The contract of a predicate of the applier's state that the operations which do not write keep: it
  survives harmless calls and remembered credentials, and it implies the invariant in which an operation
  may fail.
\<close>

locale growing =
  fixes I P :: "apply_state \<Rightarrow> bool"
  assumes harmless_calls: "P s \<Longrightarrow> harmless c \<Longrightarrow> P (s\<lparr>as_Calls := c # as_Calls s\<rparr>)"
    and credentials: "P s \<Longrightarrow> P (s\<lparr>as_Auth := a\<rparr>)"
    and failure: "P s \<Longrightarrow> I s"
begin

lemma kept_failing: "keeps I P (failing e)"
  by (auto simp: keeps_def intro: triple_failing failure)

lemma kept_calling: "harmless c \<Longrightarrow> keeps I P (calling c answer)"
  by (auto simp: keeps_def intro: triple_calling harmless_calls)

lemma kept_basic:
  "keeps I P (resolveAuth env name spec)" "keeps I P (asking_auth env i auth)" "keeps I P (rememberAuth env i auth)"
  "keeps I P (generation_of name)" "keeps I P (validateOwnership stack n cur)"
  by (auto simp: keeps_def triple_def resolveAuth_def asking_auth_def rememberAuth_def generation_of_def
      validateOwnership_def failing_def returning_def credentials failure split: option.splits sum.splits)

lemmas kept = keeps_structure kept_failing kept_calling kept_basic

lemma kept_retryRequired: "keeps I P (retryRequired ops env cur enabled)"
  unfolding retryRequired_def Let_def by (intro kept; simp)

lemma kept_recheck: "keeps I P (recheckTemplateMismatch env name cur replicas left st)"
proof (induction left arbitrary: st)
  case 0
  show ?case by (subst recheck_simps, unfold nat.case) (intro kept; simp)
next
  case (Suc k)
  have ended: "keeps I P (\<lambda>s. (Inr (en_ContextDone env (length (as_Calls s))), s))" by (simp add: keeps_def triple_def)
  show ?case by (subst recheck_simps, unfold nat.case) (intro kept ended Suc; simp)
qed

lemma kept_checkUpdateSafety: "keeps I P (checkUpdateSafety ops env name cur desired)"
  unfolding checkUpdateSafety_def Let_def by (intro kept kept_recheck; simp)

lemma kept_prepareUpdate: "keeps I P (prepareUpdate ops env name desired cur retryFailed)"
  unfolding prepareUpdate_def Let_def case_prod_beta by (intro kept kept_retryRequired kept_checkUpdateSafety)

lemma kept_updateOptions: "keeps I P (updateOptions env name i spec)"
  unfolding updateOptions_def by (intro kept)

lemma kept_updateRequired: "keeps I P (updateRequired ops env name d cur retry)"
  unfolding updateRequired_def by (intro kept kept_retryRequired)

lemma kept_recording: "keeps I P (recording env options name g)"
  unfolding recording_def by (intro kept; simp)

lemma recorded_first:
  "triple I P (recording env options name g) (\<lambda>_ s. P s \<and>
     (ao_RecordsUpdates options \<longrightarrow> (\<exists>rest. as_Calls s = CallBeforeUpdate name g # rest)))"
proof -
  have "triple I P (calling (CallBeforeUpdate name g) (\<lambda>n. en_BeforeUpdate env n name g))
      (\<lambda>_ s. P s \<and> (\<exists>rest. as_Calls s = CallBeforeUpdate name g # rest))"
    by (rule triple_calling) (simp add: harmless_calls)
  then show ?thesis using failure unfolding recording_def
    by (auto intro!: triple_if triple_returning triple_andThen triple_failing split: option.split)
qed

lemma owner_checked: "triple I P (validateOwnership stack (sp_Name d) cur) (\<lambda>_ s. owned stack d cur \<and> P s)"
  by (rule triple_result [OF keeps_triple [OF kept_basic(5)]]) (auto intro: validateOwnership_owned)

end

text \<open>The contract of a predicate that does not depend on the recorded generations either.\<close>

locale steady = growing +
  assumes generations: "P s \<Longrightarrow> P (s\<lparr>as_Generations := g\<rparr>)"
begin

lemma kept_set_generation: "keeps I P (set_generation name g)"
  by (simp add: keeps_def triple_def set_generation_def generations)

lemma kept_restore_generation: "keeps I P (restore_generation env options name g previous e)"
  unfolding restore_generation_def by (intro kept kept_set_generation; simp)

lemma kept_refresh: "keeps I P (refreshConcurrentUpdate ops env stack name d after options)"
  unfolding refreshConcurrentUpdate_def Let_def by (intro kept kept_retryRequired kept_recording kept_set_generation; simp)

end

section \<open>Every operation keeps the log justified\<close>

interpretation logged: steady "log_inv ops env stack specs records" "log_inv ops env stack specs records" for ops env stack specs records
  by unfold_locales (simp_all add: log_inv_def harmless_justified)

interpretation held: steady "log_inv ops env stack specs records" "holds ops env stack specs records d cur" for ops env stack specs records d cur
  by unfold_locales (simp_all add: holds_def inspected_later logged.harmless_calls logged.credentials logged.generations)

interpretation seen: growing "log_inv ops env stack specs records"
    "\<lambda>s. log_inv ops env stack specs records s \<and> inspected env d cur (as_Calls s)" for ops env stack specs records d cur
  by unfold_locales (simp_all add: inspected_later logged.harmless_calls logged.credentials)

text \<open>An inspection returns a service that is held once its owner is checked.\<close>

lemma triple_inspecting:
  fixes ops env stack specs records
  defines "I \<equiv> log_inv ops env stack specs records"
  assumes f: "\<And>cur. triple I (\<lambda>s. I s \<and> inspected env d cur (as_Calls s)) (f (Inr cur)) Q" "\<And>e. triple I I (f (Inl e)) Q"
  shows "triple I I (andThen (calling (CallInspect (sp_Name d)) (\<lambda>n. en_Inspect env n (sp_Name d))) f) Q"
proof (rule triple_andThen)
  show "triple I I (calling (CallInspect (sp_Name d)) (\<lambda>n. en_Inspect env n (sp_Name d)))
      (\<lambda>x s. I s \<and> (case x of Inl e \<Rightarrow> True | Inr cur \<Rightarrow> inspected env d cur (as_Calls s)))"
    by (intro triple_calling) (auto simp: I_def logged.harmless_calls intro: inspected_now split: sum.split)
  show "triple I (\<lambda>s. I s \<and> (case x of Inl e \<Rightarrow> True | Inr cur \<Rightarrow> inspected env d cur (as_Calls s))) (f x) Q" for x
    using f by (cases x) simp_all
qed

lemma triple_owner:
  assumes "triple (log_inv ops env stack specs records) (holds ops env stack specs records d cur) m Q"
  shows "triple (log_inv ops env stack specs records)
    (\<lambda>s. log_inv ops env stack specs records s \<and> inspected env d cur (as_Calls s))
    (andThen (validateOwnership stack (sp_Name d) cur) (\<lambda>_. m)) Q"
  by (rule triple_andThen [OF seen.owner_checked])
    (auto intro: triple_weaken [OF assms] simp: holds_def)

lemma triple_refreshConcurrentUpdate:
  "triple (log_inv ops env stack specs records) (log_inv ops env stack specs records)
     (refreshConcurrentUpdate ops env stack name d after options) (\<lambda>r. holds ops env stack specs records d (fst r))"
  unfolding refreshConcurrentUpdate_def
proof (rule triple_inspecting, goal_cases)
  case (1 cur)
  let ?I = "log_inv ops env stack specs records" and ?H = "holds ops env stack specs records d cur"
  have k: "keeps ?I ?H (if authOnlyUpdateSafe (ds_Spec cur)
      then andThen (resolveAuth env name d) (asking_auth env (ds_ID cur)) else returning False)"
    by (intro held.kept)
  show ?case unfolding sum.case Let_def
    by (intro triple_owner seq [OF held.kept_retryRequired] seq [OF k] triple_if seq [OF held.kept_basic(4)]
        seq [OF held.kept_set_generation] seq [OF held.kept_recording] triple_returning) simp_all
next
  case (2 e)
  then show ?case by (auto intro: triple_failing)
qed

lemma updateGeneration_service: "gen_ServiceID (updateGeneration ops spec cur previous) = ds_ID cur"
  by (simp add: updateGeneration_def Let_def split: verification_mode.split)

lemma triple_writing:
  assumes "d \<in> set specs" "SpecsEqual ops spec d" "gen_ServiceID g = ds_ID cur"
  shows "triple (log_inv ops env stack specs records)
    (\<lambda>s. holds ops env stack specs records d cur s \<and>
       (records \<longrightarrow> (\<exists>rest. as_Calls s = CallBeforeUpdate (serviceName stack (sp_Name d)) g # rest)))
    (calling (CallUpdate (ds_ID cur) (ds_Version cur) spec opts) answer) (\<lambda>_. holds ops env stack specs records d cur)"
proof (rule triple_calling, elim conjE)
  fix s
  assume h: "holds ops env stack specs records d cur s"
    and r: "records \<longrightarrow> (\<exists>rest. as_Calls s = CallBeforeUpdate (serviceName stack (sp_Name d)) g # rest)"
  have "justified_call ops env stack specs records (CallUpdate (ds_ID cur) (ds_Version cur) spec opts) (as_Calls s)"
    unfolding justified_call_def docker_call.case
    by (intro bexI [OF _ assms(1)] exI [of _ cur]) (use h r assms in \<open>auto simp: holds_def\<close>)
  with h show "holds ops env stack specs records d cur (s\<lparr>as_Calls := CallUpdate (ds_ID cur) (ds_Version cur) spec opts # as_Calls s\<rparr>)"
    by (simp add: holds_def log_inv_def inspected_later)
qed

lemma triple_write_update:
  assumes d: "d \<in> set specs" "SpecsEqual ops applied d" and n: "name = serviceName stack (sp_Name d)"
    and records: "records = ao_RecordsUpdates options"
  shows "triple (log_inv ops env stack specs records) (holds ops env stack specs records d cur)
    (write_update ops env stack name d cur options applied reused) (\<lambda>r. holds ops env stack specs records d (fst r))"
proof -
  let ?I = "log_inv ops env stack specs records" and ?H = "holds ops env stack specs records d cur"
  let ?rec = "\<lambda>g s. ?H s \<and> (records \<longrightarrow> (\<exists>rest. as_Calls s = CallBeforeUpdate (serviceName stack (sp_Name d)) g # rest))"
  have recording: "triple ?I ?H (recording env options name g) (\<lambda>_. ?rec g)" for g
    unfolding n records by (rule held.recorded_first)
  have setting: "triple ?I (?rec g) (set_generation name x) (\<lambda>_. ?rec g)" for g x
    by (simp add: triple_def set_generation_def held.generations)
  have refreshing: "triple ?I ?H (refreshConcurrentUpdate ops env stack name d after options) (\<lambda>r. holds ops env stack specs records d (fst r))" for after
    by (rule triple_weaken [OF triple_refreshConcurrentUpdate]) (auto dest: held.failure)
  have answered: "triple ?I ?H (case answer of
        None \<Rightarrow> andThen (rememberAuth env (ds_ID cur) auth) (\<lambda>_. returning (cur, True))
      | Some e \<Rightarrow> andThen (restore_generation env options name g previous e) (\<lambda>_.
          if e \<noteq> ServiceConflict then failing (UpdateFailedWith name e)
          else refreshConcurrentUpdate ops env stack name d (ds_UpdatedAt cur) options)) (\<lambda>r. holds ops env stack specs records d (fst r))"
    for answer auth g previous
  proof (cases answer)
    case None
    then show ?thesis unfolding option.case
      by (auto intro!: seq [OF held.kept_basic(3)] triple_returning)
  next
    case (Some e)
    then show ?thesis unfolding option.case
      by (auto intro!: seq [OF held.kept_restore_generation] triple_if triple_failing refreshing dest: held.failure)
  qed
  show ?thesis unfolding write_update_def Let_def case_prod_beta
    by (intro seq [OF held.kept_updateOptions] seq [OF held.kept_basic(4)] triple_andThen [OF recording] triple_andThen [OF setting]
        triple_andThen [OF triple_writing [OF d(1,2) updateGeneration_service]] answered)
qed

lemma triple_attempt:
  assumes prepare: "triple J P (prepareUpdate ops env name d cur (ao_RetryFailedUpdates options)) (\<lambda>_. P)"
    and refresh: "triple I J (refreshConcurrentUpdate ops env stack name d (ds_UpdatedAt cur) options) Q" and J: "\<And>s. J s \<Longrightarrow> I s"
    and writing: "\<And>applied reused s t. prepareUpdate ops env name d cur (ao_RetryFailedUpdates options) s = (Inr (applied, reused), t) \<Longrightarrow>
      triple I P (write_update ops env stack name d cur options applied reused) Q"
  shows "triple I P (updateAttempt ops env stack name d cur options) Q"
  unfolding triple_def
proof (intro allI impI)
  let ?p = "prepareUpdate ops env name d cur (ao_RetryFailedUpdates options)"
  fix s assume "P s"
  then have p: "case ?p s of (Inl e, s') \<Rightarrow> J s' | (Inr x, s') \<Rightarrow> P s'" using prepare by (simp add: triple_def)
  obtain r t where rt: "?p s = (r, t)" by (cases "?p s")
  show "case updateAttempt ops env stack name d cur options s of (Inl e, s') \<Rightarrow> I s' | (Inr x, s') \<Rightarrow> Q x s'"
  proof (cases r)
    case (Inl e)
    then have "J t" using p rt by simp
    then show ?thesis using refresh J rt Inl by (simp add: updateAttempt_def triple_def)
  next
    case (Inr ar)
    obtain applied reused where "ar = (applied, reused)" by (cases ar)
    then show ?thesis using writing [of s applied reused t] p rt Inr by (simp add: updateAttempt_def triple_def)
  qed
qed

lemma triple_updateAttempt:
  assumes d: "d \<in> set specs" "ReplicasManaged d = Inr m" and n: "name = serviceName stack (sp_Name d)"
    and records: "records = ao_RecordsUpdates options"
  shows "triple (log_inv ops env stack specs records) (holds ops env stack specs records d cur)
    (updateAttempt ops env stack name d cur options) (\<lambda>r. holds ops env stack specs records d (fst r))"
proof (rule triple_attempt [OF _ triple_refreshConcurrentUpdate])
  show "triple (log_inv ops env stack specs records) (holds ops env stack specs records d cur)
      (prepareUpdate ops env name d cur (ao_RetryFailedUpdates options)) (\<lambda>_. holds ops env stack specs records d cur)"
    by (rule keeps_triple [OF held.kept_prepareUpdate])
qed (auto intro: triple_write_update [OF d(1) prepared_matches n records] d(2))

lemma triple_update_service:
  assumes d: "d \<in> set specs" "ReplicasManaged d = Inr m" and n: "name = serviceName stack (sp_Name d)"
    and records: "records = ao_RecordsUpdates options"
  shows "triple (log_inv ops env stack specs records) (holds ops env stack specs records d cur)
    (update_service ops env stack name d cur options k) (\<lambda>_. log_inv ops env stack specs records)"
proof (induction k arbitrary: cur)
  case 0
  show ?case by (auto intro: triple_failing dest: held.failure)
next
  case (Suc k)
  show ?case unfolding update_service.simps case_prod_beta
    by (intro triple_andThen [OF triple_updateAttempt [OF assms]] triple_if triple_returning Suc) (rule held.failure)
qed

lemma triple_inspectOrCreate:
  assumes "d \<in> set specs"
  shows "triple (log_inv ops env stack specs records) (log_inv ops env stack specs records) (inspectOrCreate env stack name d)
    (\<lambda>r s. log_inv ops env stack specs records s \<and> (\<not> snd r \<longrightarrow> holds ops env stack specs records d (fst r) s))"
proof -
  let ?I = "log_inv ops env stack specs records"
  let ?Q = "\<lambda>r s. ?I s \<and> (\<not> snd r \<longrightarrow> holds ops env stack specs records d (fst r) s)"
  define existing where "existing = (\<lambda>answer. case answer of
      Inl e \<Rightarrow> failing (InspectFailed name e)
    | Inr cur \<Rightarrow> andThen (validateOwnership stack (sp_Name d) cur) (\<lambda>_. returning (cur, False)))"
  have ex: "triple ?I (\<lambda>s. ?I s \<and> inspected env d cur (as_Calls s)) (existing (Inr cur)) ?Q" for cur
    unfolding existing_def sum.case by (intro triple_owner triple_returning) (simp add: holds_def)
  have er: "triple ?I ?I (existing (Inl e)) ?Q" for e
    unfolding existing_def sum.case by (rule triple_failing)
  have creating: "triple ?I ?I (calling (CallCreate d auth) answer) (\<lambda>_. ?I)" for auth answer
    by (rule triple_calling) (use assms in \<open>simp add: log_inv_def justified_call_def\<close>)
  have again: "triple ?I ?I (andThen (calling (CallInspect (sp_Name d)) (\<lambda>n. en_Inspect env n (sp_Name d))) existing) ?Q"
    by (rule triple_inspecting [OF ex er])
  have created: "triple ?I ?I (case answer of
        Inr i \<Rightarrow> andThen (rememberAuth env i auth) (\<lambda>_. returning (new i, True))
      | Inl e \<Rightarrow> if e \<noteq> ServiceConflict then failing (CreateFailed name e)
          else andThen (calling (CallInspect (sp_Name d)) (\<lambda>n. en_Inspect env n (sp_Name d))) existing) ?Q" for answer auth new
  proof (cases answer)
    case (Inl e)
    then show ?thesis using again by (auto intro: triple_failing)
  next
    case (Inr i)
    show ?thesis unfolding Inr sum.case by (rule seq [OF logged.kept_basic(3)]) (rule triple_returning, simp)
  qed
  have missing: "triple ?I ?I (andThen (resolveAuth env name d) (\<lambda>auth.
      andThen (calling (CallCreate d auth) (\<lambda>n. en_Create env n d)) (\<lambda>answer. case answer of
        Inr i \<Rightarrow> andThen (rememberAuth env i auth) (\<lambda>_. returning (new i, True))
      | Inl e \<Rightarrow> if e \<noteq> ServiceConflict then failing (CreateFailed name e)
          else andThen (calling (CallInspect (sp_Name d)) (\<lambda>n. en_Inspect env n (sp_Name d))) existing))) ?Q" for new
    by (rule seq [OF logged.kept_basic(1)]) (rule triple_andThen [OF creating], rule created)
  show ?thesis unfolding inspectOrCreate_def Let_def existing_def [symmetric]
  proof (rule triple_inspecting, goal_cases)
    case (1 cur)
    show ?case using ex by simp
  next
    case (2 e)
    show ?case by (rule triple_if [OF er missing])
  qed
qed

lemma triple_apply_service:
  assumes d: "d \<in> set specs" and records: "records = ao_RecordsUpdates options"
  shows "triple (log_inv ops env stack specs records) (log_inv ops env stack specs records)
    (apply_service ops env stack d options) (\<lambda>_. log_inv ops env stack specs records)"
proof (cases "ReplicasManaged d")
  case (Inl e)
  then show ?thesis by (auto simp: apply_service_def intro: triple_failing)
next
  case (Inr m)
  let ?I = "log_inv ops env stack specs records"
  let ?o = "options\<lparr>ao_RetryFailedUpdates := ao_RetryFailedUpdates options \<and> m\<rparr>" and ?n = "serviceName stack (sp_Name d)"
  have update: "triple ?I (holds ops env stack specs records d cur) (update_service ops env stack ?n d cur ?o serviceUpdateAttempts) (\<lambda>_. ?I)" for cur
    by (rule triple_update_service [OF d Inr refl]) (simp add: records)
  have existing: "triple ?I (holds ops env stack specs records d cur)
      (andThen (updateRequired ops env ?n d cur (ao_RetryFailedUpdates ?o)) (\<lambda>required.
        if \<not> required then returning False
        else andThen (update_service ops env stack ?n d cur ?o serviceUpdateAttempts) (\<lambda>_. returning True))) (\<lambda>_. ?I)" for cur
    by (intro seq [OF held.kept_updateRequired] triple_if triple_andThen [OF update] triple_returning)
      (auto dest: held.failure)
  have created: "triple ?I ?I (andThen (set_generation ?n g) (\<lambda>_. returning True)) (\<lambda>_. ?I)" for g
    by (intro seq [OF logged.kept_set_generation] triple_returning)
  show ?thesis unfolding apply_service_def Let_def Inr sum.case case_prod_beta
  proof (rule triple_andThen [OF triple_inspectOrCreate [OF d]], rule triple_if, goal_cases)
    case (1 r)
    then show ?case by (intro triple_weaken [OF created]) auto
  next
    case (2 r)
    then show ?case by (intro triple_weaken [OF existing]) auto
  qed
qed

lemma apply_all_log:
  "set ds \<subseteq> set specs \<Longrightarrow> log_inv ops env stack specs (ao_RecordsUpdates options) s \<Longrightarrow>
   apply_all ops env stack options ds changed blocked s = (out, changed', s') \<Longrightarrow>
   log_inv ops env stack specs (ao_RecordsUpdates options) s'"
proof (induction ds arbitrary: changed blocked s)
  case Nil
  then show ?case by simp
next
  case (Cons d ds)
  obtain r t where rt: "apply_service ops env stack d options s = (r, t)" by (cases "apply_service ops env stack d options s")
  have "log_inv ops env stack specs (ao_RecordsUpdates options) t"
    using triple_apply_service [of d specs _ options ops env stack, OF _ refl] Cons.prems(1,2) rt
    by (cases r) (auto simp: triple_def)
  with Cons.IH Cons.prems rt show ?case by (auto split: sum.splits apply_error.splits)
qed

lemma justified_split: "justified ops env stack specs records (later @ c # earlier) \<Longrightarrow> justified_call ops env stack specs records c earlier"
  by (induction later) auto

section \<open>The number of writes\<close>

definition writes :: "apply_state \<Rightarrow> nat" where
  "writes s = length (filter (\<lambda>c. case c of CallUpdate _ _ _ _ \<Rightarrow> True | _ \<Rightarrow> False) (as_Calls s))"

abbreviation at_most :: "nat \<Rightarrow> apply_state \<Rightarrow> bool" where
  "at_most k \<equiv> (\<lambda>s. writes s \<le> k)"

lemma writes_harmless: "harmless c \<Longrightarrow> writes (s\<lparr>as_Calls := c # as_Calls s\<rparr>) = writes s"
  by (cases c) (simp_all add: writes_def)

lemma writes_simps [simp]: "writes (s\<lparr>as_Auth := a\<rparr>) = writes s" "writes (s\<lparr>as_Generations := g\<rparr>) = writes s"
  by (simp_all add: writes_def)

interpretation counted: steady "at_most k" "at_most k" for k
  by unfold_locales (simp_all add: writes_harmless)

interpretation one_left: steady "at_most (Suc k)" "at_most k" for k
  by unfold_locales (simp_all add: writes_harmless)

lemma writes_attempt:
  "triple (at_most (Suc k)) (at_most k) (updateAttempt ops env stack name d cur options) (\<lambda>_. at_most (Suc k))"
proof -
  let ?I = "at_most (Suc k)" and ?P = "at_most k"
  have calling: "triple ?I ?P (calling c answer) (\<lambda>_. ?I)" for c :: docker_call and answer :: "nat \<Rightarrow> docker_fault option"
    by (rule triple_calling) (auto simp: writes_def split: docker_call.split)
  have after: "keeps ?I ?I (case answer of
        None \<Rightarrow> andThen (rememberAuth env (ds_ID cur) auth) (\<lambda>_. returning (cur, True))
      | Some e \<Rightarrow> andThen (restore_generation env options name g previous e) (\<lambda>_.
          if e \<noteq> ServiceConflict then failing (UpdateFailedWith name e)
          else refreshConcurrentUpdate ops env stack name d (ds_UpdatedAt cur) options))" for answer auth g previous
    by (intro counted.kept counted.kept_restore_generation counted.kept_refresh)
  have writing: "triple ?I ?P (write_update ops env stack name d cur options applied reused) (\<lambda>_. ?I)" for applied reused
    unfolding write_update_def Let_def case_prod_beta
    by (intro seq [OF one_left.kept_updateOptions] seq [OF one_left.kept_basic(4)] seq [OF one_left.kept_recording]
        seq [OF one_left.kept_set_generation] triple_andThen [OF calling] keeps_triple [OF after])
  show ?thesis by (rule triple_attempt [OF keeps_triple [OF one_left.kept_prepareUpdate] keeps_triple [OF counted.kept_refresh] _ writing])
qed

lemma writes_update_service:
  "triple (at_most (n + k)) (at_most n) (update_service ops env stack name d cur options k) (\<lambda>_. at_most (n + k))"
proof (induction k arbitrary: cur n)
  case 0
  show ?case by (auto intro: triple_failing)
next
  case (Suc k)
  have "triple (at_most (n + Suc k)) (at_most n) (updateAttempt ops env stack name d cur options) (\<lambda>_. at_most (Suc n))"
    using writes_attempt [of n ops env stack name d cur options] unfolding triple_def by (fastforce split: prod.splits sum.splits)
  then show ?case unfolding update_service.simps case_prod_beta
    using Suc [where n = "Suc n"] by (intro triple_andThen [where Q = "\<lambda>_. at_most (Suc n)"] triple_if triple_returning) auto
qed

lemma writes_inspectOrCreate: "keeps (at_most k) (at_most k) (inspectOrCreate env stack name d)"
proof -
  have "keeps (at_most k) (at_most k) (calling (CallCreate d auth) (\<lambda>n. en_Create env n d))" for auth
    unfolding keeps_def by (rule triple_calling) (simp add: writes_def)
  then show ?thesis unfolding inspectOrCreate_def Let_def
    by (intro keeps_structure counted.kept_failing counted.kept_calling [of "CallInspect (sp_Name d)"] counted.kept_basic; simp)
qed

lemma writes_apply_service:
  "triple (at_most (n + 3)) (at_most n) (apply_service ops env stack d options) (\<lambda>_. at_most (n + 3))"
proof (cases "ReplicasManaged d")
  case (Inl e)
  then show ?thesis by (auto simp: apply_service_def intro: triple_failing)
next
  case (Inr m)
  let ?I = "at_most (n + 3)" and ?P = "at_most n" and ?n = "serviceName stack (sp_Name d)"
  have up: "triple ?I ?P p Q" if "keeps ?P ?P p" "\<And>x s. ?P s \<Longrightarrow> Q x s" for p :: "'x apply_op" and Q
    using that unfolding keeps_def triple_def by (fastforce split: prod.splits sum.splits)
  have inspecting: "triple ?I ?P (inspectOrCreate env stack ?n d) (\<lambda>_. ?P)"
    by (rule up [OF writes_inspectOrCreate])
  have required: "triple ?I ?P (updateRequired ops env ?n d cur retry) (\<lambda>_. ?P)" for cur retry
    by (rule up [OF counted.kept_updateRequired])
  have setting: "triple ?I ?P (set_generation ?n g) (\<lambda>_. ?P)" for g
    by (rule up [OF counted.kept_set_generation])
  have update: "triple ?I ?P (update_service ops env stack ?n d cur o' serviceUpdateAttempts) (\<lambda>_. ?I)" for cur o'
    using writes_update_service [of n 3 ops env stack ?n d cur o'] by (simp add: serviceUpdateAttempts_def)
  show ?thesis unfolding apply_service_def Let_def Inr sum.case case_prod_beta
    by (intro triple_andThen [OF inspecting] triple_if triple_andThen [OF setting] triple_andThen [OF required]
        triple_andThen [OF update] triple_returning) auto
qed

lemma writes_apply_all:
  "apply_all ops env stack options ds changed blocked s = (out, changed', s') \<Longrightarrow> writes s' \<le> writes s + 3 * length ds"
proof (induction ds arbitrary: changed blocked s)
  case Nil
  then show ?case by simp
next
  case (Cons d ds)
  obtain r t where rt: "apply_service ops env stack d options s = (r, t)" by (cases "apply_service ops env stack d options s")
  have "writes t \<le> writes s + 3"
    using writes_apply_service [of "writes s" ops env stack d options] rt by (cases r) (auto simp: triple_def)
  with Cons.IH Cons.prems rt show ?case by (fastforce split: sum.splits apply_error.splits)
qed

section \<open>Properties\<close>

text \<open>
  C39. Applying a stack only makes justified writes. Whatever Docker answers, and whoever else writes: every
  update goes to a service that Docker returned to an earlier inspection under the desired name and as one
  of this stack, at the version of that inspection; what is written satisfies the comparison with the
  desired specification, so that, once accepted, the next apply has nothing to change; and if updates are
  recorded, the intent to update this very service was recorded by the call before. Only desired
  specifications are created, and at most three updates are tried per service.
\<close>

theorem apply_writes_justified:
  assumes run: "Apply ops env stack specs options s = (out, changed, s')" and start: "as_Calls s = []"
  shows "(\<forall>later i v spec opts earlier. as_Calls s' = later @ CallUpdate i v spec opts # earlier \<longrightarrow>
      (\<exists>d \<in> set specs. \<exists>cur. inspected env d cur earlier \<and> owned stack d cur \<and> ds_ID cur = i \<and> ds_Version cur = v \<and>
         SpecsEqual ops spec d \<and>
         (ao_RecordsUpdates options \<longrightarrow>
            (\<exists>g rest. earlier = CallBeforeUpdate (serviceName stack (sp_Name d)) g # rest \<and> gen_ServiceID g = i)))) \<and>
    (\<forall>later spec auth earlier. as_Calls s' = later @ CallCreate spec auth # earlier \<longrightarrow> spec \<in> set specs) \<and>
    writes s' \<le> 3 * length specs"
proof -
  have "log_inv ops env stack specs (ao_RecordsUpdates options) s" by (simp add: log_inv_def start)
  then have j: "justified ops env stack specs (ao_RecordsUpdates options) (as_Calls s')"
    using apply_all_log [of "sort_key sp_Name specs" specs ops env stack options s "[]" "[]" out changed s'] run
    by (simp add: Apply_def log_inv_def)
  have "writes s' \<le> 3 * length specs"
    using writes_apply_all [OF run [unfolded Apply_def]] start by (simp add: writes_def)
  moreover have "justified_call ops env stack specs (ao_RecordsUpdates options) c earlier"
    if "as_Calls s' = later @ c # earlier" for later c earlier
    using justified_split j that by metis
  note j = this
  have "\<exists>d \<in> set specs. \<exists>cur. inspected env d cur earlier \<and> owned stack d cur \<and> ds_ID cur = i \<and> ds_Version cur = v \<and>
         SpecsEqual ops spec d \<and>
         (ao_RecordsUpdates options \<longrightarrow>
            (\<exists>g rest. earlier = CallBeforeUpdate (serviceName stack (sp_Name d)) g # rest \<and> gen_ServiceID g = i))"
    if "as_Calls s' = later @ CallUpdate i v spec opts # earlier" for later i v spec opts earlier
    using j [OF that] by (simp add: justified_call_def)
  moreover have "spec \<in> set specs" if "as_Calls s' = later @ CallCreate spec auth # earlier" for later spec auth earlier
    using j [OF that] by (simp add: justified_call_def)
  ultimately show ?thesis by blast
qed

text \<open>A service of the stack that runs an old image, and an environment that accepts everything.\<close>

definition sample_desired :: service_spec where
  "sample_desired =
     \<lparr>sp_Name = ''shop_web'', sp_Labels = fmupd StackNamespace ''shop'' fmempty,
      sp_Mode = \<lparr>sm_Replicated = Some (Some 2), sm_Global = False, sm_ReplicatedJob = None, sm_GlobalJob = False\<rparr>,
      sp_TaskTemplate = \<lparr>tt_Runtime = '''', tt_ContainerSpec = None, tt_PluginSpec = None, tt_Resources = None,
        tt_RestartPolicy = None, tt_Placement = None, tt_Networks = [], tt_ForceUpdate = 0, tt_Other = ''new''\<rparr>,
      sp_EndpointSpec = None, sp_UpdateConfig = None, sp_RollbackConfig = None, sp_Other = ''''\<rparr>"

definition sample_current :: docker_service where
  "sample_current =
     \<lparr>ds_ID = ''s1'', ds_Version = 7, ds_CreatedAt = 1, ds_UpdatedAt = 4,
      ds_Spec = sample_desired\<lparr>sp_TaskTemplate := (sp_TaskTemplate sample_desired)\<lparr>tt_Other := ''old'', tt_ForceUpdate := 5\<rparr>\<rparr>,
      ds_PreviousSpec = None, ds_UpdateStatus = None, ds_JobIteration = None\<rparr>"

definition sample_env :: apply_env where
  "sample_env =
     \<lparr>en_Inspect = (\<lambda>_ _. Inr sample_current), en_ListTasks = (\<lambda>_ _. Inr []), en_Create = (\<lambda>_ _. Inr ''s2''),
      en_Update = (\<lambda>_ _ _ _. None), en_BeforeUpdate = (\<lambda>_ _ _. None), en_Restore = (\<lambda>_ _ _. None),
      en_ResolveImage = (\<lambda>_ _. Inr ''''), en_AnonymousAuth = Inr '''', en_Sum256 = (\<lambda>a. a), en_ContextDone = (\<lambda>_. False)\<rparr>"

definition sample_apply_ops :: spec_ops where
  "sample_apply_ops =
     \<lparr>op_ParseNamed = (\<lambda>_. None), op_RefString = ref_Name, op_SpecDigest = sp_Name, op_ParseConstraints = (\<lambda>_. None), op_Words = (\<lambda>m. [m])\<rparr>"

definition sample_start :: apply_state where
  "sample_start = \<lparr>as_Calls = [], as_Auth = fmempty, as_Generations = fmempty\<rparr>"

definition sample_run :: "apply_outcome \<times> string list \<times> apply_state" where
  "sample_run = Apply sample_apply_ops sample_env ''shop'' [sample_desired]
     \<lparr>ao_RetryFailedUpdates = False, ao_RecordsUpdates = True\<rparr> sample_start"

theorem apply_writes_justified_witness:
  "\<exists>spec opts g earlier. as_Calls (snd (snd sample_run)) = CallUpdate ''s1'' 7 spec opts # CallBeforeUpdate ''web'' g # earlier \<and>
     SpecsEqual sample_apply_ops spec sample_desired \<and> gen_ServiceID g = ''s1''"
proof -
  have r: "Apply sample_apply_ops sample_env ''shop'' [sample_desired] \<lparr>ao_RetryFailedUpdates = False, ao_RecordsUpdates = True\<rparr> sample_start =
      (fst sample_run, fst (snd sample_run), snd (snd sample_run))" by (simp add: sample_run_def)
  have s: "as_Calls sample_start = []" by (simp add: sample_start_def)
  have u: "case as_Calls (snd (snd sample_run)) of CallUpdate i v _ _ # _ \<Rightarrow> i = ''s1'' \<and> v = 7 | _ \<Rightarrow> False" by code_simp
  have n: "serviceName ''shop'' (sp_Name sample_desired) = ''web''" by code_simp
  from u obtain spec opts rest where c: "as_Calls (snd (snd sample_run)) = [] @ CallUpdate ''s1'' 7 spec opts # rest"
    by (auto split: list.splits docker_call.splits)
  from apply_writes_justified [OF r s, THEN conjunct1, rule_format, OF c] n
  obtain g earlier where "rest = CallBeforeUpdate ''web'' g # earlier" "gen_ServiceID g = ''s1''"
      "SpecsEqual sample_apply_ops spec sample_desired" by auto
  with c show ?thesis by simp
qed

text \<open>A scheduled service that ran once in its only slot and never restarts.\<close>

definition sample_scheduled :: docker_service where
  "sample_scheduled = sample_current\<lparr>ds_Spec := (set_replicas (Some (Some 1)) sample_desired)\<lparr>sp_TaskTemplate :=
     (sp_TaskTemplate sample_desired)\<lparr>tt_Other := ''old'', tt_RestartPolicy :=
       Some \<lparr>rp_Condition = ''none'', rp_Delay = None, rp_MaxAttempts = None, rp_Window = None\<rparr>\<rparr>\<rparr>\<rparr>"

definition sample_finished :: service_task where
  "sample_finished =
     \<lparr>st_ID = ''t1'', st_Node = ''n1'', st_NodeInfo = None, st_Slot = 1, st_JobIteration = None, st_DesiredState = TaskStateShutdown,
      st_CreatedAt = 5, st_UpdatedAt = 6, st_CurrentState = TaskStateComplete, st_ExitCode = Some 0, st_Error = '''',
      st_Spec = normalizeTaskSpec (sp_TaskTemplate (ds_Spec sample_scheduled))\<rparr>"

theorem external_update_safe_witness:
  "\<exists>s'. checkUpdateSafety sample_apply_ops (sample_env\<lparr>en_ListTasks := \<lambda>_ _. Inr [sample_finished]\<rparr>) ''web'' sample_scheduled
      sample_desired sample_start = (Inr (set_replicas (Some (Some 0)) sample_desired), s')"
proof -
  let ?env = "sample_env\<lparr>en_ListTasks := \<lambda>_ _. Inr [sample_finished]\<rparr>"
  have "(case fst (checkUpdateSafety sample_apply_ops ?env ''web'' sample_scheduled sample_desired sample_start) of Inr _ \<Rightarrow> True | Inl _ \<Rightarrow> False)"
    by code_simp
  then obtain applied s' where ok: "checkUpdateSafety sample_apply_ops ?env ''web'' sample_scheduled sample_desired sample_start = (Inr applied, s')"
    by (cases "checkUpdateSafety sample_apply_ops ?env ''web'' sample_scheduled sample_desired sample_start") (auto split: sum.splits)
  have rec: "taskRecreatingUpdate sample_apply_ops (ds_Spec sample_scheduled) sample_desired" by code_simp
  have "currentReplicas (ds_Spec sample_scheduled) = Some 1" by code_simp
  with external_update_safe [OF ok rec] ok show ?thesis by auto
qed

section \<open>A change that is not noticed\<close>

text \<open>
  The canonical form drops the empty structures \<open>Global\<close> and \<open>GlobalJob\<close>, so that changing a global
  service to a global job, and nothing else, compares as equal: the applier sees nothing to update.
\<close>

lemma global_to_job_unnoticed:
  assumes m: "ReplicasManaged desired = Inr m"
    and mode: "sp_Mode desired = \<lparr>sm_Replicated = None, sm_Global = False, sm_ReplicatedJob = None, sm_GlobalJob = True\<rparr>"
  shows "SpecsEqual ops (desired\<lparr>sp_Mode := \<lparr>sm_Replicated = None, sm_Global = True, sm_ReplicatedJob = None, sm_GlobalJob = False\<rparr>\<rparr>) desired"
proof -
  let ?cur = "desired\<lparr>sp_Mode := \<lparr>sm_Replicated = None, sm_Global = True, sm_ReplicatedJob = None, sm_GlobalJob = False\<rparr>\<rparr>"
  have m: "ReplicasManaged desired = Inr True" using m unmanaged_replicated [of desired] mode by (cases m) simp_all
  have "set_force_update (tt_ForceUpdate (sp_TaskTemplate ?cur)) desired = desired"
    by (simp add: set_force_update_def)
  moreover have "fst (normalizeImageResolution ops ?cur desired) = desired"
    by (simp add: normalizeImageResolution_def copy_image_self)
  moreover have "comparable ops ?cur = comparable ops desired"
    by (simp add: comparable_def canonicalSpec_def normalizeServiceSets_def normalizeDockerDefaults_def
        normalizeUnresolvedImageReference_def set_template_def default_mode_def mode Let_def)
  ultimately show ?thesis by (simp add: SpecsEqual_def m Let_def)
qed

end
