(* ===== verification/ApplyGenerations.thy ===== *)
theory ApplyGenerations
  imports ApplySafety
begin

text \<open>
  The update generations that an apply returns: an operation on a service only touches the generation of
  that service, and a service that is reported as changed has one. So a later refusal cannot make the
  deployment forget an accepted write.
\<close>

section \<open>The generations of other services\<close>

abbreviation gen_at :: "string \<Rightarrow> update_generation option \<Rightarrow> apply_state \<Rightarrow> bool" where
  "gen_at k v \<equiv> (\<lambda>s. fmlookup (as_Generations s) k = v)"

interpretation other: growing "gen_at k v" "gen_at k v" for k v
  by unfold_locales simp_all

lemma other_calling: "keeps (gen_at k v) (gen_at k v) (calling c answer)"
  by (simp add: keeps_def triple_def calling_def)

lemma other_set: "k \<noteq> name \<Longrightarrow> keeps (gen_at k v) (gen_at k v) (set_generation name g)"
  by (simp add: keeps_def triple_def set_generation_def split: option.split)

lemmas other_kept = keeps_structure other.kept_failing other_calling other.kept_basic

lemma other_restore: "k \<noteq> name \<Longrightarrow> keeps (gen_at k v) (gen_at k v) (restore_generation env options name g previous e)"
  unfolding restore_generation_def by (intro other_kept other_set)

lemma other_refresh: "k \<noteq> name \<Longrightarrow> keeps (gen_at k v) (gen_at k v) (refreshConcurrentUpdate ops env stack name d after options)"
  unfolding refreshConcurrentUpdate_def Let_def
  by (intro other_kept other.kept_retryRequired other.kept_recording other_set)

lemma other_write: "k \<noteq> name \<Longrightarrow> keeps (gen_at k v) (gen_at k v) (write_update ops env stack name d cur options applied reused)"
  unfolding write_update_def Let_def case_prod_beta
  by (intro other_kept other.kept_updateOptions other.kept_recording other_set other_restore other_refresh)

lemma other_attempt: "k \<noteq> name \<Longrightarrow> keeps (gen_at k v) (gen_at k v) (updateAttempt ops env stack name d cur options)"
  unfolding keeps_def
  by (rule triple_attempt [OF keeps_triple [OF other.kept_prepareUpdate] keeps_triple [OF other_refresh]])
    (auto intro: keeps_triple [OF other_write])

lemma other_update: "k \<noteq> name \<Longrightarrow> keeps (gen_at k v) (gen_at k v) (update_service ops env stack name d cur options n)"
proof (induction n arbitrary: cur)
  case 0
  show ?case by (simp add: other.kept_failing)
next
  case (Suc n)
  then show ?case unfolding update_service.simps case_prod_beta by (intro other_kept other_attempt)
qed

lemma other_inspectOrCreate: "keeps (gen_at k v) (gen_at k v) (inspectOrCreate env stack name d)"
  unfolding inspectOrCreate_def Let_def by (intro other_kept)

lemma other_apply:
  "k \<noteq> serviceName stack (sp_Name d) \<Longrightarrow> keeps (gen_at k v) (gen_at k v) (apply_service ops env stack d options)"
  unfolding apply_service_def Let_def case_prod_beta
  by (intro other_kept other_inspectOrCreate other_set other.kept_updateRequired other_update)

section \<open>The generation of a changed service\<close>

abbreviation always :: "apply_state \<Rightarrow> bool" where
  "always \<equiv> (\<lambda>_. True)"

abbreviation recorded :: "string \<Rightarrow> apply_state \<Rightarrow> bool" where
  "recorded name \<equiv> (\<lambda>s. has_key (as_Generations s) name)"

interpretation anything: steady always always
  by unfold_locales simp_all

interpretation known: growing always "recorded name" for name
  by unfold_locales simp_all

lemma recorded_set: "triple always always (set_generation name (Some g)) (\<lambda>_. recorded name)"
  by (simp add: triple_def set_generation_def)

lemma recorded_remember: "triple always (recorded name) (rememberAuth env i auth) (\<lambda>_. recorded name)"
  by (rule keeps_triple [OF known.kept_basic(3)])

lemma recorded_calling: "triple always (recorded name) (calling c answer) (\<lambda>_. recorded name)"
  by (simp add: triple_def calling_def)

lemma triple_trivial: "(\<And>x s. Q x s) \<Longrightarrow> triple always P m Q"
  by (simp add: triple_def split: prod.split sum.split)

lemma recorded_refresh:
  "triple always always (refreshConcurrentUpdate ops env stack name d after options) (\<lambda>r s. snd r \<longrightarrow> recorded name s)"
proof -
  have found: "triple always always (case answer of Inl e \<Rightarrow> failing (InspectFailed name e) | Inr cur \<Rightarrow> f cur) (\<lambda>r s. snd r \<longrightarrow> recorded name s)"
    if "\<And>cur. triple always always (f cur) (\<lambda>r s. snd r \<longrightarrow> recorded name s)"
    for answer :: "docker_fault + docker_service" and f :: "docker_service \<Rightarrow> (docker_service \<times> bool) apply_op"
    using that by (cases answer) (simp_all add: triple_failing)
  have final: "triple always (recorded name) (returning (cur, True)) (\<lambda>r s. snd r \<longrightarrow> recorded name s)" for cur :: docker_service
    by (simp add: triple_returning)
  show ?thesis unfolding refreshConcurrentUpdate_def Let_def
    by (intro triple_andThen [where Q = "\<lambda>_. always"] found triple_if triple_trivial triple_andThen [OF recorded_set] final triple_returning)
      simp_all
qed

lemma recorded_write:
  "triple always always (write_update ops env stack name d cur options applied reused) (\<lambda>r s. snd r \<longrightarrow> recorded name s)"
proof -
  let ?Q = "\<lambda>r s. snd r \<longrightarrow> recorded name s"
  have refused: "triple always (recorded name) (andThen (restore_generation env options name g previous e) (\<lambda>_.
      if e \<noteq> ServiceConflict then failing (UpdateFailedWith name e)
      else refreshConcurrentUpdate ops env stack name d (ds_UpdatedAt cur) options)) ?Q" for g previous e
    by (intro triple_andThen [where Q = "\<lambda>_. always"] triple_trivial triple_if triple_failing recorded_refresh) simp_all
  have "triple always (recorded name) (case answer of
      None \<Rightarrow> andThen (rememberAuth env (ds_ID cur) auth) (\<lambda>_. returning (cur, True))
    | Some e \<Rightarrow> andThen (restore_generation env options name g previous e) (\<lambda>_.
        if e \<noteq> ServiceConflict then failing (UpdateFailedWith name e)
        else refreshConcurrentUpdate ops env stack name d (ds_UpdatedAt cur) options)) ?Q" for answer auth g previous
    using refused by (cases answer) (auto intro!: triple_andThen [OF recorded_remember] triple_returning)
  then show ?thesis unfolding write_update_def Let_def case_prod_beta
    by (intro seq [OF anything.kept_updateOptions] seq [OF anything.kept_basic(4)] seq [OF anything.kept_recording]
        triple_andThen [OF recorded_set] triple_andThen [OF recorded_calling])
qed

lemma recorded_attempt:
  "triple always always (updateAttempt ops env stack name d cur options) (\<lambda>r s. snd r \<longrightarrow> recorded name s)"
  by (rule triple_attempt [OF keeps_triple [OF anything.kept_prepareUpdate] recorded_refresh _ recorded_write])

lemma recorded_update:
  "triple always always (update_service ops env stack name d cur options n) (\<lambda>_. recorded name)"
proof (induction n arbitrary: cur)
  case 0
  show ?case by (simp add: triple_failing)
next
  case (Suc n)
  have again: "triple always (\<lambda>s. snd r \<longrightarrow> recorded name s)
      (if snd r then returning () else update_service ops env stack name d (fst r) options n) (\<lambda>_. recorded name)" for r
    using Suc [of "fst r"] by (intro triple_if triple_returning) (auto intro: triple_weaken)
  show ?case unfolding update_service.simps case_prod_beta by (rule triple_andThen [OF recorded_attempt again])
qed

lemma recorded_apply:
  "triple always always (apply_service ops env stack d options) (\<lambda>c s. c \<longrightarrow> recorded (serviceName stack (sp_Name d)) s)"
proof (cases "ReplicasManaged d")
  case (Inl e)
  then show ?thesis by (simp add: apply_service_def triple_failing)
next
  case (Inr m)
  show ?thesis unfolding apply_service_def Let_def Inr sum.case case_prod_beta
    by (intro triple_andThen [OF triple_trivial, where Q = "\<lambda>_. always"] triple_if triple_andThen [OF recorded_set]
        triple_andThen [OF recorded_update] triple_returning) simp_all
qed

section \<open>A whole apply\<close>

definition names_of :: "string \<Rightarrow> service_spec list \<Rightarrow> string list" where
  "names_of stack specs = map (\<lambda>d. serviceName stack (sp_Name d)) specs"

lemma apply_all_recorded:
  assumes "apply_all ops env stack options specs changed blocked s = (out, changed', s')"
    and "distinct (names_of stack specs)" "set changed \<inter> set (names_of stack specs) = {}" "\<forall>n \<in> set changed. recorded n s"
  shows "\<forall>n \<in> set changed'. recorded n s'"
  using assms
proof (induction specs arbitrary: changed blocked s)
  case Nil
  then show ?case by simp
next
  case (Cons d specs)
  let ?n = "serviceName stack (sp_Name d)"
  obtain r t where rt: "apply_service ops env stack d options s = (r, t)" by (cases "apply_service ops env stack d options s")
  have kept: "recorded n t" if "n \<in> set changed" for n
  proof -
    have "n \<noteq> ?n" using that Cons.prems(3) by (auto simp: names_of_def)
    then have "gen_at n (fmlookup (as_Generations s) n) t"
      using other_apply [of n stack d "fmlookup (as_Generations s) n" ops env options] rt
      by (cases r) (auto simp: keeps_def triple_def)
    then show ?thesis using Cons.prems(4) that by (simp add: has_key_iff)
  qed
  have new: "recorded ?n t" if "r = Inr True"
    using recorded_apply [of ops env stack d options] rt that by (fastforce simp: triple_def split: prod.splits)
  have d: "distinct (names_of stack specs)" "?n \<notin> set (names_of stack specs)" "set changed \<inter> set (names_of stack specs) = {}"
    using Cons.prems(2,3) by (auto simp: names_of_def)
  consider (blocked) n b where "r = Inl (UpdateBlocked n b)" | (failed) e where "r = Inl e" "\<And>n b. e \<noteq> UpdateBlocked n b"
    | (applied) c where "r = Inr c"
    by (cases r) blast+
  then show ?case
  proof cases
    case blocked
    then have "apply_all ops env stack options specs changed (blocked @ [UpdateBlocked n b]) t = (out, changed', s')"
      using Cons.prems(1) rt by simp
    then show ?thesis using Cons.IH d kept by blast
  next
    case failed
    then have "changed' = changed \<and> s' = t" using Cons.prems(1) rt by (cases e) auto
    then show ?thesis using kept by simp
  next
    case applied
    then have "apply_all ops env stack options specs (if c then changed @ [?n] else changed) blocked t = (out, changed', s')"
      using Cons.prems(1) rt by simp
    moreover have "set (if c then changed @ [?n] else changed) \<inter> set (names_of stack specs) = {}" using d by auto
    moreover have "\<forall>n \<in> set (if c then changed @ [?n] else changed). recorded n t" using kept new applied by auto
    ultimately show ?thesis using Cons.IH d(1) by blast
  qed
qed

lemma Apply_recorded:
  assumes "Apply ops env stack specs options s = (out, changed, s')" "distinct (names_of stack specs)"
  shows "\<forall>n \<in> set changed. recorded n s'"
proof -
  have "mset (names_of stack (sort_key sp_Name specs)) = mset (names_of stack specs)" by (simp add: names_of_def)
  then have "distinct (names_of stack (sort_key sp_Name specs))" using assms(2) by (metis mset_eq_imp_distinct_iff)
  then show ?thesis using apply_all_recorded [OF assms(1) [unfolded Apply_def]] by simp
qed

end
