(* ===== verification/DeployerSafety.thy ===== *)
theory DeployerSafety
  imports Deployer WaitSafety ApplyGenerations
begin

text \<open>
  Correctness of the deployment pipelines: a deployment that reports success has verified every service it
  changed and every one that was still owed a verification; nothing is written to a service before all
  earlier stages have succeeded; an observation without apply changes nothing.
\<close>

section \<open>Pipelines\<close>

lemma run_pipeline_append:
  "run_pipeline (xs @ ys) st =
     (case run_pipeline xs st of
        None \<Rightarrow> None | Some (Some e, st') \<Rightarrow> Some (Some e, st') | Some (None, st') \<Rightarrow> run_pipeline ys st')"
  by (induction xs st rule: run_pipeline.induct) (auto split: option.splits)

lemma run_pipeline_success:
  "run_pipeline ((name, True, step) # steps) st = Some (None, st') \<longleftrightarrow>
     (\<exists>st1. step st = Some (None, st1) \<and> run_pipeline steps st1 = Some (None, st'))"
  by (auto split: option.splits)

lemma run_pipeline_relation:
  assumes "run_pipeline steps st = Some (err, st')" and "\<And>s. R s s" and "\<And>s t u. R s t \<Longrightarrow> R t u \<Longrightarrow> R s u"
    and "\<And>name step s e t. (name, True, step) \<in> set steps \<Longrightarrow> step s = Some (e, t) \<Longrightarrow> R s t"
  shows "R st st'"
  using assms(1,4)
proof (induction steps arbitrary: st)
  case Nil
  then show ?case using assms(2) by simp
next
  case (Cons x steps)
  obtain name enabled step where x: "x = (name, enabled, step)" by (cases x)
  have rest: "R s t" if "(n, True, f) \<in> set steps" "f s = Some (e, t)" for n f s e t
    using Cons.prems(2) that by (meson list.set_intros(2))
  show ?case
  proof (cases enabled)
    case False
    then have "run_pipeline steps st = Some (err, st')" using Cons.prems(1) x by simp
    then show ?thesis using Cons.IH rest by blast
  next
    case True
    obtain e t where s: "step st = Some (e, t)" using Cons.prems(1) x True by (auto split: option.splits)
    have R: "R st t" using Cons.prems(2) [of name step st e t] x True s by simp
    show ?thesis
    proof (cases e)
      case None
      then have "run_pipeline steps t = Some (err, st')" using Cons.prems(1) x True s by simp
      then have "R t st'" using Cons.IH rest by blast
      with R show ?thesis by (rule assms(3))
    next
      case (Some y)
      then show ?thesis using Cons.prems(1) x True s R by simp
    qed
  qed
qed

lemma run_pipeline_error_name:
  assumes "run_pipeline steps st = Some (Some (name, e), st')"
  shows "name \<in> fst ` set steps"
  using assms
proof (induction steps arbitrary: st)
  case (Cons x steps)
  obtain n enabled step where x: "x = (n, enabled, step)" by (cases x)
  show ?case
  proof (cases "enabled \<and> (\<exists>y t. step st = Some (Some y, t))")
    case True
    then show ?thesis using Cons.prems x by auto
  next
    case False
    then obtain t where "run_pipeline steps t = Some (Some (name, e), st')"
      using Cons.prems x by (cases enabled) (auto split: option.splits)
    then show ?thesis using Cons.IH by auto
  qed
qed simp

section \<open>Before the apply\<close>

text \<open>What a step does not touch: the services, and what is known about their verification.\<close>

definition quiet :: "deploy_state \<Rightarrow> deploy_state \<Rightarrow> bool" where
  "quiet st st' \<longleftrightarrow>
     pl_apply st' = pl_apply st \<and> pl_updateGenerations st' = pl_updateGenerations st \<and> pl_changed st' = pl_changed st \<and>
     dr_Known (pl_result st') = dr_Known (pl_result st) \<and>
     dr_UnresolvedServices (pl_result st') = dr_UnresolvedServices (pl_result st)"

lemma quiet_refl: "quiet st st"
  by (simp add: quiet_def)

lemma quiet_trans: "quiet s t \<Longrightarrow> quiet t u \<Longrightarrow> quiet s u"
  by (simp add: quiet_def)

lemma run_jobs_quiet:
  "run_jobs env stack resolved targets jobs results st = Some (results', err, st') \<Longrightarrow> quiet st st'"
proof (induction jobs arbitrary: results st)
  case (Cons x jobs)
  obtain service job where x: "x = (service, job)" by (cases x)
  obtain res e del where r: "Run (dv_Job env (pl_jobs st)) (dv_JobTimeout env) (job_request_of stack service resolved targets job) =
      Some (res, e, del)" using Cons.prems x by (auto split: option.splits)
  let ?st = "st\<lparr>pl_jobs := Suc (pl_jobs st), pl_deletes := pl_deletes st @ (case del of None \<Rightarrow> [] | Some d \<Rightarrow> [d])\<rparr>"
  have "quiet st ?st" by (simp add: quiet_def)
  moreover have "quiet ?st st'"
    using Cons.prems Cons.IH [of "results @ (case res of None \<Rightarrow> [] | Some r \<Rightarrow> [r])" ?st] x r
    by (cases e) (auto simp: Let_def quiet_refl)
  ultimately show ?case by (rule quiet_trans)
qed (simp add: quiet_refl)

lemma steps_quiet:
  "validate_step env stack d st = Some (e, st') \<Longrightarrow> quiet st st'"
  "networks_step env stack d st = Some (e, st') \<Longrightarrow> quiet st st'"
  "resources_step env stack path d st = Some (e, st') \<Longrightarrow> quiet st st'"
  "convert_step env stack d st = Some (e, st') \<Longrightarrow> quiet st st'"
  "captureBaseline env stack st = Some (e, st') \<Longrightarrow> quiet st st'"
  "prepareService srq st = Some (e, st') \<Longrightarrow> quiet st st'"
  by (auto simp: validate_step_def networks_step_def resources_step_def convert_step_def captureBaseline_def prepareService_def
      quiet_def Let_def split: sum.splits prod.splits if_splits option.splits)

lemma runStackInitJobs_quiet:
  assumes "runStackInitJobs env stack desired st = Some (e, st')"
  shows "quiet st st'"
  using assms run_jobs_quiet [of env stack "pl_resolved st"]
  by (fastforce simp: runStackInitJobs_def runInitJobs_def quiet_def)

lemma before_apply_quiet:
  assumes "run_pipeline (before_apply env rq) st = Some (err, st')"
  shows "quiet st st'"
proof (rule run_pipeline_relation [where R = quiet, OF assms quiet_refl quiet_trans])
  fix name step s e t assume "(name, True, step) \<in> set (before_apply env rq)" and run: "step s = Some (e, t)"
  then consider "step = validate_step env (srq_StackName rq) (\<lambda>_. srq_Desired rq)"
    | "step = networks_step env (srq_StackName rq) (\<lambda>_. srq_Desired rq)"
    | "step = resources_step env (srq_StackName rq) (srq_SourceComposePath rq) (\<lambda>_. srq_Desired rq)"
    | "step = convert_step env (srq_StackName rq) (\<lambda>_. srq_Desired rq)"
    | "step = runStackInitJobs env (srq_StackName rq) (srq_Desired rq)"
    | "step = captureBaseline env (srq_StackName rq)"
    by (auto simp: before_apply_def Let_def)
  then show "quiet s t"
  proof cases
    case 1
    show ?thesis using run unfolding 1 by (rule steps_quiet)
  next
    case 2
    show ?thesis using run unfolding 2 by (rule steps_quiet)
  next
    case 3
    show ?thesis using run unfolding 3 by (rule steps_quiet)
  next
    case 4
    show ?thesis using run unfolding 4 by (rule steps_quiet)
  next
    case 5
    show ?thesis using run unfolding 5 by (rule runStackInitJobs_quiet)
  next
    case 6
    show ?thesis using run unfolding 6 by (rule steps_quiet)
  qed
qed

section \<open>Init Jobs\<close>

definition jobs_of :: "stack_compose \<Rightarrow> (desired_service \<times> init_job) list" where
  "jobs_of desired = concat (map (\<lambda>s. map (\<lambda>j. (s, j)) (dsv_InitJobs s)) (scp_Services desired))"

lemma Run_succeeded:
  assumes "Run env timeout rq = Some (res, None, del)"
  shows "\<exists>x. res = Some x \<and> jr_Status x = Succeeded \<and> jr_ServiceName x = jq_ServiceName rq \<and> jr_JobName x = ij_Name (jq_Job rq)"
  using assms by (cases rule: Run_cases) (auto simp: initJobExecutionStatus_def)

lemma run_jobs_succeeded:
  assumes "run_jobs env stack resolved targets jobs results st = Some (results', None, st')"
  shows "\<exists>rs. results' = results @ rs \<and> list_all (\<lambda>r. jr_Status r = Succeeded) rs \<and>
    map (\<lambda>r. (jr_ServiceName r, jr_JobName r)) rs = map (\<lambda>(s, j). (dsv_Name s, ij_Name j)) jobs"
  using assms
proof (induction jobs arbitrary: results st)
  case (Cons x jobs)
  obtain service job where x: "x = (service, job)" by (cases x)
  obtain res e del where r: "Run (dv_Job env (pl_jobs st)) (dv_JobTimeout env) (job_request_of stack service resolved targets job) =
      Some (res, e, del)" using Cons.prems x by (auto split: option.splits)
  then have "e = None" using Cons.prems x by (cases e) (auto simp: Let_def)
  with r obtain y where y: "res = Some y" "jr_Status y = Succeeded" "jr_ServiceName y = dsv_Name service" "jr_JobName y = ij_Name job"
    using Run_succeeded by (fastforce simp: job_request_of_def)
  obtain st1 where "run_jobs env stack resolved targets jobs (results @ [y]) st1 = Some (results', None, st')"
    using Cons.prems x r y \<open>e = None\<close> by (auto simp: Let_def)
  from Cons.IH [OF this] obtain rs where "results' = (results @ [y]) @ rs" "list_all (\<lambda>r. jr_Status r = Succeeded) rs"
      "map (\<lambda>r. (jr_ServiceName r, jr_JobName r)) rs = map (\<lambda>(s, j). (dsv_Name s, ij_Name j)) jobs" by blast
  then show ?case using x y by (intro exI [of _ "y # rs"]) simp
qed simp

section \<open>What is applied is waited for\<close>

lemma apply_all_changed:
  assumes "apply_all ops env stack options specs changed blocked s = (out, changed', s')"
  shows "set changed' \<subseteq> set changed \<union> (\<lambda>d. serviceName stack (sp_Name d)) ` set specs"
  using assms
proof (induction specs arbitrary: changed blocked s)
  case (Cons d specs)
  obtain r t where rt: "apply_service ops env stack d options s = (r, t)" by (cases "apply_service ops env stack d options s")
  show ?case
  proof (cases r)
    case (Inl e)
    show ?thesis
    proof (cases "\<exists>n b. e = UpdateBlocked n b")
      case True
      then obtain n b where "e = UpdateBlocked n b" by blast
      then show ?thesis using Cons.IH [of changed "blocked @ [e]" t] Cons.prems rt Inl by auto
    next
      case False
      then have "changed' = changed" using Cons.prems rt Inl by (cases e) auto
      then show ?thesis by auto
    qed
  next
    case (Inr c)
    then show ?thesis using Cons.IH [of "if c then changed @ [serviceName stack (sp_Name d)] else changed" blocked t] Cons.prems rt
      by (auto split: if_splits)
  qed
qed simp

lemma serviceName_TrimPrefix: "full \<noteq> stack @ ''_'' \<Longrightarrow> serviceName stack full = TrimPrefix full (stack @ ''_'')"
proof (cases "strip_prefix (stack @ ''_'') full")
  case None
  then show ?thesis by (simp add: serviceName_def TrimPrefix_def HasPrefix_def Let_def)
next
  case (Some r)
  moreover assume "full \<noteq> stack @ ''_''"
  moreover have "full = (stack @ ''_'') @ r" using Some by (simp add: strip_prefix_Some)
  ultimately show ?thesis by (cases r) (simp_all add: serviceName_def TrimPrefix_def HasPrefix_def Let_def)
qed

lemma Apply_changed:
  assumes "Apply ops env stack specs options s = (out, changed, s')" and "stack @ ''_'' \<notin> sp_Name ` set specs"
  shows "set changed \<subseteq> set (convertedServiceNames stack specs)"
proof -
  have "set changed \<subseteq> (\<lambda>d. serviceName stack (sp_Name d)) ` set specs"
    using apply_all_changed [OF assms(1) [unfolded Apply_def]] by simp
  also have "\<dots> = (\<lambda>d. TrimPrefix (sp_Name d) (stack @ ''_'')) ` set specs"
  proof (rule image_cong [OF refl])
    fix d assume "d \<in> set specs"
    then have "sp_Name d \<noteq> stack @ ''_''" using assms(2) by (metis imageI)
    then show "serviceName stack (sp_Name d) = TrimPrefix (sp_Name d) (stack @ ''_'')" by (rule serviceName_TrimPrefix)
  qed
  also have "\<dots> = set (convertedServiceNames stack specs)" by (simp add: convertedServiceNames_def)
  finally show ?thesis .
qed

lemma fold_adding: "set names \<subseteq> set (fold (\<lambda>s names. if P s names then names @ [f s] else names) xs names)"
proof (induction xs arbitrary: names)
  case (Cons x xs)
  have "set names \<subseteq> set (if P x names then names @ [f x] else names)" by auto
  also have "\<dots> \<subseteq> set (fold (\<lambda>s names. if P s names then names @ [f s] else names) (x # xs) names)"
    using Cons.IH by simp
  finally show ?case .
qed simp

lemma verificationServiceNames_changed: "set changed \<subseteq> set (verificationServiceNames stack specs changed services)"
  unfolding verificationServiceNames_def by (rule fold_adding)

lemma wait_names_complete:
  assumes "set (pl_changed st) \<subseteq> set (convertedServiceNames (srq_StackName rq) (cv_Services (pl_converted st)))"
  shows "set (pl_changed st) \<union> set (srq_UnresolvedServices rq) \<subseteq> set (wait_names rq st)"
  using assms verificationServiceNames_changed [of "pl_changed st" "srq_StackName rq" "cv_Services (pl_converted st)" "pl_baseline st"]
  by (auto simp: wait_names_def Let_def)

section \<open>Success\<close>

text \<open>The stages of a deployment that has come to its end without an error.\<close>

lemma deploy_stages:
  assumes "runs_in_order env" "DeployStack env rq log a = Some (res, None, st)"
  obtains st0 st1 where
    "run_pipeline (before_apply env rq)
       (start_state \<lparr>dr_SpecificationOnlyServices = [], dr_Known = True, dr_UnresolvedServices = [], dr_InitJobs = []\<rparr>
         (srq_UpdateGenerations rq) log a) = Some (None, st0)"
    "applyStack env rq st0 = Some (None, st1)" "waitForStack env rq st1 = Some (None, st)" "res = pl_result st"
  using assms
  by (auto simp: runs_in_order_def DeployStack_def newDeployStackPipeline_def run_pipeline_append run_pipeline_success split: option.splits)

lemma applyStack_success:
  assumes "applyStack env rq st = Some (None, st')"
  shows "Apply (dv_Ops env) (dv_Apply env) (srq_StackName rq) (cv_Services (pl_converted st))
      \<lparr>ao_RetryFailedUpdates = srq_RetryFailedUpdates rq, ao_RecordsUpdates = srq_RecordsUpdates rq\<rparr>
      ((pl_apply st)\<lparr>as_Generations := pl_updateGenerations st\<rparr>) = (Applied, pl_changed st', pl_apply st') \<and>
    pl_converted st' = pl_converted st \<and> dr_InitJobs (pl_result st') = dr_InitJobs (pl_result st)"
  using assms
  by (auto simp: applyStack_def Let_def set_verification_def applied_state_def outcome_error_def outcome_errors_def
      split: prod.splits if_splits)

lemma waiting_success:
  assumes "waiting env wq st = Some (None, st')"
  shows "\<exists>w. Wait (dv_Ops env) wq (dv_Polls env) = Some ([], w) \<and> dr_Known (pl_result st') \<and>
    dr_UnresolvedServices (pl_result st') = wr_UnresolvedServices (result w)"
  using assms by (auto simp: waiting_def set_verification_def split: if_splits)

lemma waiting_keeps:
  assumes "waiting env wq st = Some (e, st')"
  shows "pl_changed st' = pl_changed st \<and> pl_converted st' = pl_converted st \<and> pl_baseline st' = pl_baseline st \<and>
    pl_updateGenerations st' = pl_updateGenerations st \<and> pl_apply st' = pl_apply st \<and>
    dr_InitJobs (pl_result st') = dr_InitJobs (pl_result st)"
  using assms by (auto simp: waiting_def set_verification_def)

lemma waitForStack_success:
  assumes "waitForStack env rq st = Some (None, st')" and "cv_Services (pl_converted st) \<noteq> []"
  shows "\<exists>w. Wait (dv_Ops env) (stack_wait_request rq st') (dv_Polls env) = Some ([], w) \<and>
    dr_Known (pl_result st') \<and> dr_UnresolvedServices (pl_result st') = []"
proof -
  have r: "waiting env (stack_wait_request rq st) st = Some (None, st')" using assms by (simp add: waitForStack_def)
  have "stack_wait_request rq st' = stack_wait_request rq st"
    using waiting_keeps [OF r] by (simp add: stack_wait_request_def wait_names_def Let_def)
  then show ?thesis using waiting_success [OF r] Wait_success(1) by fastforce
qed

lemma run_jobs_converted:
  "run_jobs env stack resolved targets jobs results st = Some (results', err, st') \<Longrightarrow> pl_converted st' = pl_converted st"
proof (induction jobs arbitrary: results st)
  case (Cons x jobs)
  obtain service job where x: "x = (service, job)" by (cases x)
  obtain res e del where r: "Run (dv_Job env (pl_jobs st)) (dv_JobTimeout env) (job_request_of stack service resolved targets job) =
      Some (res, e, del)" using Cons.prems x by (auto split: option.splits)
  then show ?case
    using Cons.prems x Cons.IH [of "results @ (case res of None \<Rightarrow> [] | Some r \<Rightarrow> [r])"
        "st\<lparr>pl_jobs := Suc (pl_jobs st), pl_deletes := pl_deletes st @ (case del of None \<Rightarrow> [] | Some d \<Rightarrow> [d])\<rparr>"]
    by (cases e) (auto simp: Let_def)
qed simp

text \<open>What the stages before the apply have established.\<close>

lemma before_apply_success:
  assumes "run_pipeline (before_apply env rq) st = Some (None, st')"
  shows "dv_Validate env (srq_StackName rq) (srq_Desired rq) = None \<and>
    (\<exists>planned log. dv_PlanNetworks env (srq_StackName rq) (srq_Desired rq) = Inr planned \<and>
       ReconcileNetworks (dv_Resources env) (srq_StackName rq) planned (pl_calls st) = (None, log)) \<and>
    dv_Convert env (srq_StackName rq) (srq_Desired rq) = Inr (pl_converted st') \<and>
    list_all (\<lambda>r. jr_Status r = Succeeded) (dr_InitJobs (pl_result st')) \<and>
    map (\<lambda>r. (jr_ServiceName r, jr_JobName r)) (dr_InitJobs (pl_result st')) =
      map (\<lambda>(s, j). (dsv_Name s, ij_Name j)) (jobs_of (srq_Desired rq))"
proof -
  let ?stack = "srq_StackName rq" and ?d = "\<lambda>_. srq_Desired rq"
  obtain s1 s2 s3 s4 s5 where
    s: "validate_step env ?stack ?d st = Some (None, s1)" "networks_step env ?stack ?d s1 = Some (None, s2)"
      "resources_step env ?stack (srq_SourceComposePath rq) ?d s2 = Some (None, s3)" "convert_step env ?stack ?d s3 = Some (None, s4)"
      "runStackInitJobs env ?stack (srq_Desired rq) s4 = Some (None, s5)" "captureBaseline env ?stack s5 = Some (None, st')"
    using assms by (auto simp: before_apply_def Let_def run_pipeline_success simp del: run_pipeline.simps(2))
  have v: "dv_Validate env ?stack (srq_Desired rq) = None" "s1 = st" using s(1) by (auto simp: validate_step_def)
  have n: "\<exists>planned log. dv_PlanNetworks env ?stack (srq_Desired rq) = Inr planned \<and>
       ReconcileNetworks (dv_Resources env) ?stack planned (pl_calls st) = (None, log)"
    using s(2) v(2) by (auto simp: networks_step_def split: sum.splits prod.splits)
  have c: "dv_Convert env ?stack (srq_Desired rq) = Inr (pl_converted s4)" using s(4) by (auto simp: convert_step_def split: sum.splits)
  obtain results t where j: "runInitJobs env ?stack (scp_Services (srq_Desired rq)) (pl_resolved s4) (cv_Networks (pl_converted s4)) s4 =
      Some (results, None, t)" "s5 = t\<lparr>pl_result := (pl_result t)\<lparr>dr_InitJobs := results\<rparr>\<rparr>"
    using s(5) by (auto simp: runStackInitJobs_def)
  from run_jobs_succeeded [OF j(1) [unfolded runInitJobs_def]]
  have r: "list_all (\<lambda>r. jr_Status r = Succeeded) results"
      "map (\<lambda>r. (jr_ServiceName r, jr_JobName r)) results = map (\<lambda>(s, j). (dsv_Name s, ij_Name j)) (jobs_of (srq_Desired rq))"
    by (auto simp: jobs_of_def)
  have "pl_converted t = pl_converted s4"
    using run_jobs_converted [OF j(1) [unfolded runInitJobs_def]] .
  moreover have "pl_converted st' = pl_converted s5" "pl_result st' = pl_result s5"
    using s(6) by (auto simp: captureBaseline_def split: sum.splits)
  ultimately show ?thesis using v n c r j(2) by simp
qed

text \<open>
  C13. A successful deployment is a verified one. If a stack deployment ends without an error, the desired
  state was validated and converted, its networks were reconciled, every Init Job of every service ran and
  succeeded, in the order of the file, and every converted service was applied. Unless there is no
  service, nothing is left unresolved; and every service that was changed and every one that was still
  owed a verification has been observed ready, all of them by one poll.
\<close>

theorem deploy_verified:
  assumes lib: "runs_in_order env"
    and run: "DeployStack env rq log a = Some (res, None, st)"
    and names: "srq_StackName rq @ ''_'' \<notin> sp_Name ` set (cv_Services (pl_converted st))"
  shows "dv_Validate env (srq_StackName rq) (srq_Desired rq) = None \<and>
    dv_Convert env (srq_StackName rq) (srq_Desired rq) = Inr (pl_converted st) \<and>
    (\<exists>planned log1. dv_PlanNetworks env (srq_StackName rq) (srq_Desired rq) = Inr planned \<and>
       ReconcileNetworks (dv_Resources env) (srq_StackName rq) planned log = (None, log1)) \<and>
    list_all (\<lambda>r. jr_Status r = Succeeded) (dr_InitJobs res) \<and>
    map (\<lambda>r. (jr_ServiceName r, jr_JobName r)) (dr_InitJobs res) =
      map (\<lambda>(s, j). (dsv_Name s, ij_Name j)) (jobs_of (srq_Desired rq)) \<and>
    Apply (dv_Ops env) (dv_Apply env) (srq_StackName rq) (cv_Services (pl_converted st))
      \<lparr>ao_RetryFailedUpdates = srq_RetryFailedUpdates rq, ao_RecordsUpdates = srq_RecordsUpdates rq\<rparr>
      (a\<lparr>as_Generations := srq_UpdateGenerations rq\<rparr>) = (Applied, pl_changed st, pl_apply st) \<and>
    (cv_Services (pl_converted st) \<noteq> [] \<longrightarrow> dr_Known res \<and> dr_UnresolvedServices res = [] \<and>
       (set (pl_changed st) \<union> set (srq_UnresolvedServices rq) - {''''} \<noteq> {} \<longrightarrow>
         (\<exists>p \<in> set (dv_Polls env). \<exists>cur. pa_Services p = Inr cur \<and>
            (\<forall>n \<in> set (pl_changed st) \<union> set (srq_UnresolvedServices rq) - {''''}.
               ready_at (dv_Ops env) (stack_wait_request rq st) p cur n))))"
proof -
  from deploy_stages [OF lib run] obtain st0 st1 where s:
    "run_pipeline (before_apply env rq)
       (start_state \<lparr>dr_SpecificationOnlyServices = [], dr_Known = True, dr_UnresolvedServices = [], dr_InitJobs = []\<rparr>
         (srq_UpdateGenerations rq) log a) = Some (None, st0)"
    "applyStack env rq st0 = Some (None, st1)" "waitForStack env rq st1 = Some (None, st)" and res: "res = pl_result st" by metis
  note b = before_apply_success [OF s(1)] and q = before_apply_quiet [OF s(1), unfolded quiet_def] and ap = applyStack_success [OF s(2)]
  have w: "pl_changed st = pl_changed st1" "pl_converted st = pl_converted st1" "pl_apply st = pl_apply st1"
      "dr_InitJobs (pl_result st) = dr_InitJobs (pl_result st1)"
    using s(3) waiting_keeps [of env "stack_wait_request rq st1" st1 None st] by (auto simp: waitForStack_def split: if_splits)
  have app: "Apply (dv_Ops env) (dv_Apply env) (srq_StackName rq) (cv_Services (pl_converted st))
      \<lparr>ao_RetryFailedUpdates = srq_RetryFailedUpdates rq, ao_RecordsUpdates = srq_RecordsUpdates rq\<rparr>
      (a\<lparr>as_Generations := srq_UpdateGenerations rq\<rparr>) = (Applied, pl_changed st, pl_apply st)"
    using ap q w by (simp add: start_state_def)
  let ?ns = "set (pl_changed st) \<union> set (srq_UnresolvedServices rq) - {''''}"
  have verified: "dr_Known res \<and> dr_UnresolvedServices res = [] \<and>
      (?ns \<noteq> {} \<longrightarrow> (\<exists>p \<in> set (dv_Polls env). \<exists>cur. pa_Services p = Inr cur \<and>
         (\<forall>n \<in> ?ns. ready_at (dv_Ops env) (stack_wait_request rq st) p cur n)))"
    if ne: "cv_Services (pl_converted st) \<noteq> []"
  proof -
    obtain x where x: "Wait (dv_Ops env) (stack_wait_request rq st) (dv_Polls env) = Some ([], x)" "dr_Known res" "dr_UnresolvedServices res = []"
      using waitForStack_success [OF s(3)] ne w(2) res by auto
    have sub: "?ns \<subseteq> set (wq_ServiceNames (stack_wait_request rq st)) - {''''}"
      using wait_names_complete [OF Apply_changed [OF app names]] by (auto simp: stack_wait_request_def)
    then have "wait_targets (stack_wait_request rq st) \<noteq> []" if "?ns \<noteq> {}"
      using that uniqueSortedNames_facts(3) [of "wq_ServiceNames (stack_wait_request rq st)"] by auto
    then show ?thesis using Wait_success(2) [OF x(1)] sub x(2,3) by blast
  qed
  show ?thesis using b ap w app verified res by (simp add: start_state_def)
qed

section \<open>Failure\<close>

lemma before_apply_names:
  assumes "run_pipeline (before_apply env rq) st = Some (Some (step, e), st')"
  shows "step \<noteq> ''apply stack'' \<and> step \<noteq> ''wait for service convergence''"
  using run_pipeline_error_name [OF assms] by (auto simp: before_apply_def Let_def)

lemma deploy_failure:
  assumes "runs_in_order env" "DeployStack env rq log a = Some (res, Some (step, e), st)"
  obtains (early) "run_pipeline (before_apply env rq)
       (start_state \<lparr>dr_SpecificationOnlyServices = [], dr_Known = True, dr_UnresolvedServices = [], dr_InitJobs = []\<rparr>
         (srq_UpdateGenerations rq) log a) = Some (Some (step, e), st)" "res = pl_result st"
  | (applying) st0 where "step = ''apply stack''" "applyStack env rq st0 = Some (Some e, st)" "res = pl_result st"
  | (observing) st0 st1 where "step = ''wait for service convergence''" "applyStack env rq st0 = Some (None, st1)"
      "waitForStack env rq st1 = Some (Some e, st)" "res = pl_result st"
  using assms
  by (auto simp: runs_in_order_def DeployStack_def newDeployStackPipeline_def run_pipeline_append split: option.splits)

lemma applyStack_failure:
  assumes "applyStack env rq st = Some (Some e, st')" and "distinct (names_of (srq_StackName rq) (cv_Services (pl_converted st')))"
  shows "\<exists>errs. e = ApplyStopped errs \<and> (dr_Known (pl_result st') \<longleftrightarrow> list_ex apply_rejected errs) \<and>
    (dr_Known (pl_result st') \<longrightarrow>
       set (pl_changed st') \<union> set (srq_UnresolvedServices rq) \<subseteq> set (dr_UnresolvedServices (pl_result st')))"
proof -
  let ?a = "Apply (dv_Ops env) (dv_Apply env) (srq_StackName rq) (cv_Services (pl_converted st))
      \<lparr>ao_RetryFailedUpdates = srq_RetryFailedUpdates rq, ao_RecordsUpdates = srq_RecordsUpdates rq\<rparr>
      ((pl_apply st)\<lparr>as_Generations := pl_updateGenerations st\<rparr>)"
  obtain out changed a where a: "?a = (out, changed, a)" by (cases ?a)
  let ?errs = "outcome_errors out"
  have st': "st' = (if list_ex apply_rejected ?errs
      then set_verification True (srq_UnresolvedServices rq @ sorted_keys (as_Generations a))
             (applied_state changed a (set_verification False [] st))
      else applied_state changed a (set_verification False [] st))" and e: "e = ApplyStopped ?errs"
    using assms(1) a by (auto simp: applyStack_def Let_def set_verification_def outcome_error_def split: if_splits)
  then have c: "cv_Services (pl_converted st') = cv_Services (pl_converted st)" "pl_changed st' = changed"
    by (simp_all add: set_verification_def applied_state_def)
  have "\<forall>n \<in> set changed. recorded n a" using Apply_recorded [OF a] assms(2) c(1) by simp
  then show ?thesis using e c(2) by (intro exI [of _ ?errs]) (auto simp: st' set_verification_def applied_state_def)
qed

lemma observed_or_unresolved:
  assumes "Wait ops wq polls = Some (err, w)" "n \<in> set (wq_ServiceNames wq) - {''''}"
  shows "n \<in> set (wr_UnresolvedServices (result w)) \<or> last_ready w n"
proof -
  have T: "n \<in> set (wait_targets wq)" using assms(2) by (simp add: uniqueSortedNames_facts)
  then have "wait_targets wq \<noteq> []" by auto
  then have "ws_targets w = wait_targets wq" using Wait_finished [OF assms(1)] by (simp add: wait_finished_def wait_inv_def)
  then show ?thesis using T by (auto simp: result_def)
qed

lemma waitForStack_failure:
  assumes "waitForStack env rq st = Some (Some e, st')"
    and "set (pl_changed st) \<subseteq> set (convertedServiceNames (srq_StackName rq) (cv_Services (pl_converted st)))"
  shows "dr_Known (pl_result st') \<and> (\<exists>errs w. Wait (dv_Ops env) (stack_wait_request rq st') (dv_Polls env) = Some (errs, w) \<and> errs \<noteq> [] \<and>
    (\<forall>n \<in> set (pl_changed st') \<union> set (srq_UnresolvedServices rq) - {''''}.
       n \<in> set (dr_UnresolvedServices (pl_result st')) \<or> last_ready w n))"
proof -
  have r: "waiting env (stack_wait_request rq st) st = Some (Some e, st')"
    using assms(1) by (auto simp: waitForStack_def split: if_splits)
  note k = waiting_keeps [OF r]
  have rq': "stack_wait_request rq st' = stack_wait_request rq st"
    using k by (simp add: stack_wait_request_def wait_names_def Let_def)
  obtain errs w where w: "Wait (dv_Ops env) (stack_wait_request rq st) (dv_Polls env) = Some (errs, w)" "errs \<noteq> []"
      "dr_Known (pl_result st')" "dr_UnresolvedServices (pl_result st') = wr_UnresolvedServices (result w)"
    using r by (auto simp: waiting_def set_verification_def split: if_splits)
  have "set (pl_changed st') \<union> set (srq_UnresolvedServices rq) \<subseteq> set (wq_ServiceNames (stack_wait_request rq st))"
    using wait_names_complete [OF assms(2)] k by (simp add: stack_wait_request_def)
  then show ?thesis using w rq' observed_or_unresolved [OF w(1)] by auto
qed

text \<open>
  C15. A failed deployment tells what is still owed. If a stage before the apply fails, nothing was asked of the
  services and no obligation arises. If the apply fails, the obligations are known exactly if Docker
  definitely refused a write, and then every write it had accepted before is one of them, with all that
  were inherited; otherwise they are reported as unknown. If the wait fails, each changed and each
  inherited service is reported unresolved or had last been observed ready.
\<close>

theorem failed_deployment:
  assumes lib: "runs_in_order env"
    and run: "DeployStack env rq log a = Some (res, Some (step, e), st)"
    and names: "distinct (names_of (srq_StackName rq) (cv_Services (pl_converted st)))"
      "srq_StackName rq @ ''_'' \<notin> sp_Name ` set (cv_Services (pl_converted st))"
  shows "(step \<noteq> ''apply stack'' \<and> step \<noteq> ''wait for service convergence'' \<longrightarrow>
        pl_apply st = a \<and> dr_Known res \<and> dr_UnresolvedServices res = []) \<and>
    (step = ''apply stack'' \<longrightarrow> (\<exists>errs. e = ApplyStopped errs \<and> (dr_Known res \<longleftrightarrow> list_ex apply_rejected errs) \<and>
        (dr_Known res \<longrightarrow> set (pl_changed st) \<union> set (srq_UnresolvedServices rq) \<subseteq> set (dr_UnresolvedServices res)))) \<and>
    (step = ''wait for service convergence'' \<longrightarrow> dr_Known res \<and>
        (\<exists>errs w. Wait (dv_Ops env) (stack_wait_request rq st) (dv_Polls env) = Some (errs, w) \<and> errs \<noteq> [] \<and>
          (\<forall>n \<in> set (pl_changed st) \<union> set (srq_UnresolvedServices rq) - {''''}.
             n \<in> set (dr_UnresolvedServices res) \<or> last_ready w n)))"
  using lib run
proof (cases rule: deploy_failure)
  case early
  then show ?thesis using before_apply_quiet [OF early(1), unfolded quiet_def] before_apply_names [OF early(1)]
    by (simp add: start_state_def)
next
  case (applying st0)
  then show ?thesis using applyStack_failure [OF applying(2) names(1)] by simp
next
  case (observing st0 st1)
  have w: "pl_changed st = pl_changed st1" "pl_converted st = pl_converted st1"
    using observing(3) waiting_keeps [of env "stack_wait_request rq st1" st1 "Some e" st] by (auto simp: waitForStack_def split: if_splits)
  have "set (pl_changed st1) \<subseteq> set (convertedServiceNames (srq_StackName rq) (cv_Services (pl_converted st1)))"
    using applyStack_success [OF observing(2)] Apply_changed names(2) w(2) by metis
  then show ?thesis using waitForStack_failure [OF observing(3)] observing(1,4) by simp
qed

section \<open>A deployment that succeeds, and one that is refused\<close>

definition demo_spec :: service_spec where
  "demo_spec = sample_spec\<lparr>sp_Name := ''shop_web'', sp_Labels := fmupd StackNamespace ''shop'' fmempty\<rparr>"

definition demo_old_spec :: service_spec where
  "demo_old_spec = demo_spec\<lparr>sp_TaskTemplate := sample_template\<lparr>tt_Other := ''nginx:1''\<rparr>\<rparr>"

definition demo_apply_env :: apply_env where
  "demo_apply_env = sample_env\<lparr>en_Inspect := \<lambda>_ _. Inr
     \<lparr>ds_ID = ''s1'', ds_Version = 3, ds_CreatedAt = 1, ds_UpdatedAt = 5, ds_Spec = demo_old_spec, ds_PreviousSpec = None,
      ds_UpdateStatus = None, ds_JobIteration = None\<rparr>\<rparr>"

definition demo_job :: init_job where
  "demo_job =
     \<lparr>ij_Name = ''migrate'', ij_Image = ''shop/migrate'', ij_Entrypoint = [], ij_Command = [''up''], ij_Environment = fmempty,
      ij_Networks = None, ij_Secrets = [], ij_Configs = [], ij_Timeout = 0\<rparr>"

definition demo_compose :: stack_compose where
  "demo_compose =
     \<lparr>scp_Services = [\<lparr>dsv_Name = ''web'', dsv_InitJobs = [demo_job], dsv_Networks = None, dsv_Secrets = [], dsv_Configs = [],
        dsv_CredentialConfig = '''', dsv_Volumes = [], dsv_Other = ''''\<rparr>],
      scp_Networks = fmempty, scp_Configs = fmempty, scp_Secrets = fmempty, scp_Volumes = fmempty\<rparr>"

definition demo_env :: deploy_env where
  "demo_env =
     \<lparr>dv_RunPipeline = run_pipeline, dv_Ops = sample_ops, dv_Apply = demo_apply_env, dv_Resources = sample_resource_env, dv_Decoders = [],
      dv_Job = (\<lambda>_. \<lparr>je_Network = (\<lambda>_. Inr (Some ''n1'')), je_ResolveSecret = (\<lambda>_ _. Inl \<lparr>de_Text = '''', de_Transient = False\<rparr>),
        je_ResolveConfig = (\<lambda>_ _. Inl \<lparr>de_Text = '''', de_Transient = False\<rparr>), je_ResolveImage = (\<lambda>_. Inr ''''),
        je_Create = (\<lambda>_ _. Inr ''j1''),
        je_Events = (\<lambda>_ _. [Tick (Inr []), Tick (Inr [(WaitSafety.sample_task\<lparr>st_CurrentState := TaskStateComplete\<rparr>, '''')])]),
        je_LogTail = (\<lambda>_. Inr (''ok'', False)), je_CtxErr = None, je_Nano = 7\<rparr>),
      dv_JobTimeout = 60, dv_Validate = (\<lambda>_ _. None), dv_PlanNetworks = (\<lambda>_ _. Inr [sample_network]),
      dv_Convert = (\<lambda>_ _. Inr \<lparr>cv_Services = [demo_spec], cv_Networks = [sample_network\<lparr>pn_ID := ''n1''\<rparr>]\<rparr>),
      dv_Snapshot = Inr [sample_before\<lparr>srv_ServiceSpec := demo_old_spec\<rparr>],
      dv_Polls = [sample_answer\<lparr>pa_Services := Inr [sample_service\<lparr>srv_ServiceSpec := demo_spec, srv_PreviousSpec := Some demo_old_spec\<rparr>]\<rparr>]\<rparr>"

definition demo_request :: stack_request where
  "demo_request =
     \<lparr>srq_StackName = ''shop'', srq_SourceComposePath = ''shop.yaml'', srq_Desired = demo_compose, srq_UnresolvedServices = [],
      srq_UpdateGenerations = fmempty, srq_RetryFailedUpdates = False, srq_RecordsUpdates = True\<rparr>"

theorem deploy_verified_witness:
  "\<exists>res st p cur. DeployStack demo_env demo_request [] sample_start = Some (res, None, st) \<and> dr_UnresolvedServices res = [] \<and>
     map jr_JobName (dr_InitJobs res) = [''migrate''] \<and> ready_at (dv_Ops demo_env) (stack_wait_request demo_request st) p cur ''web''"
proof -
  have "map_option (\<lambda>(res, err, st). (err = None, map jr_JobName (dr_InitJobs res), pl_changed st, map sp_Name (cv_Services (pl_converted st))))
      (DeployStack demo_env demo_request [] sample_start) = Some (True, [''migrate''], [''web''], [''shop_web''])" by code_simp
  then obtain res st where r: "DeployStack demo_env demo_request [] sample_start = Some (res, None, st)"
      "map jr_JobName (dr_InitJobs res) = [''migrate'']" "pl_changed st = [''web'']" "map sp_Name (cv_Services (pl_converted st)) = [''shop_web'']"
    by auto
  have n: "srq_StackName demo_request @ ''_'' \<notin> sp_Name ` set (cv_Services (pl_converted st))"
    using arg_cong [OF r(4), of set] by (simp add: demo_request_def)
  have lib: "runs_in_order demo_env" by (simp add: runs_in_order_def demo_env_def)
  note t = deploy_verified [OF lib r(1) n]
  have "cv_Services (pl_converted st) \<noteq> []" "''web'' \<in> set (pl_changed st) \<union> set (srq_UnresolvedServices demo_request) - {''''}"
    using r(3,4) by auto
  then obtain p cur where "dr_UnresolvedServices res = []" "ready_at (dv_Ops demo_env) (stack_wait_request demo_request st) p cur ''web''"
    using t by blast
  with r(1,2) show ?thesis by (intro exI conjI)
qed

text \<open>The second service is refused after the write to the first was accepted.\<close>

definition refused_env :: deploy_env where
  "refused_env = demo_env\<lparr>
     dv_Convert := \<lambda>_ _. Inr \<lparr>cv_Services = [demo_spec, demo_spec\<lparr>sp_Name := ''shop_worker''\<rparr>], cv_Networks = [sample_network\<lparr>pn_ID := ''n1''\<rparr>]\<rparr>,
     dv_Apply := demo_apply_env\<lparr>en_Inspect := \<lambda>_ name. if name = ''shop_web'' then en_Inspect demo_apply_env 0 name
       else Inl ServiceNotFound, en_Create := \<lambda>_ _. Inl (WriteRefused ''invalid'')\<rparr>\<rparr>"

theorem failed_deployment_witness:
  "\<exists>res e st. DeployStack refused_env demo_request [] sample_start = Some (res, Some (''apply stack'', e), st) \<and>
     dr_Known res \<and> ''web'' \<in> set (dr_UnresolvedServices res)"
proof -
  have "map_option (\<lambda>(res, err, st). (map_option fst err, dr_Known res, pl_changed st, map sp_Name (cv_Services (pl_converted st))))
      (DeployStack refused_env demo_request [] sample_start) =
      Some (Some ''apply stack'', True, [''web''], [''shop_web'', ''shop_worker''])" by code_simp
  then obtain res e st where r: "DeployStack refused_env demo_request [] sample_start = Some (res, Some (''apply stack'', e), st)"
      "dr_Known res" "pl_changed st = [''web'']" "map sp_Name (cv_Services (pl_converted st)) = [''shop_web'', ''shop_worker'']"
    by auto
  have n: "names_of (srq_StackName demo_request) (cv_Services (pl_converted st)) =
      map (serviceName ''shop'') (map sp_Name (cv_Services (pl_converted st)))" by (simp add: names_of_def demo_request_def)
  have "map (serviceName ''shop'') [''shop_web'', ''shop_worker''] = [''web'', ''worker'']" by code_simp
  then have "distinct (names_of (srq_StackName demo_request) (cv_Services (pl_converted st)))" unfolding n r(4) by simp
  moreover have "srq_StackName demo_request @ ''_'' \<notin> sp_Name ` set (cv_Services (pl_converted st))"
    using arg_cong [OF r(4), of set] by (simp add: demo_request_def)
  moreover have "runs_in_order refused_env" by (simp add: runs_in_order_def refused_env_def demo_env_def)
  ultimately show ?thesis using failed_deployment [OF _ r(1)] r by auto
qed

section \<open>Deployments of one service\<close>

lemma select_keys_lookup:
  "fmlookup (select_keys objects keys) k = (if k \<in> set keys then fmlookup objects k else None)"
proof -
  have "fmlookup (fold (add_key objects) keys m) k =
      (if k \<in> set keys \<and> fmlookup objects k \<noteq> None then fmlookup objects k else fmlookup m k)" for m
    by (induction keys arbitrary: m) (auto simp: add_key_def split: option.splits if_splits)
  from this [of fmempty] show ?thesis by (auto simp: select_keys_def)
qed

text \<open>A single-service Compose file holds that service and exactly the objects it refers to.\<close>

lemma SingleServiceCompose_selects:
  assumes "SingleServiceCompose desired name = Some c"
  obtains service where "service \<in> set (scp_Services desired)" "dsv_Name service = name" "scp_Services c = [service]"
    "\<And>k. fmlookup (scp_Secrets c) k = (if k \<in> or_Source ` set (dsv_Secrets service) then fmlookup (scp_Secrets desired) k else None)"
    "\<And>k. fmlookup (scp_Configs c) k =
      (if k \<in> or_Source ` set (dsv_Configs service) \<or> k = dsv_CredentialConfig service \<and> k \<noteq> ''''
       then fmlookup (scp_Configs desired) k else None)"
proof -
  obtain service where s: "find (\<lambda>s. dsv_Name s = name) (scp_Services desired) = Some service"
      "scp_Services c = [service]" "scp_Secrets c = selectObjects (scp_Secrets desired) (dsv_Secrets service)"
      "scp_Configs c = selectObjects (scp_Configs desired) (dsv_Configs service @ credential_ref service)"
    using assms by (auto simp: SingleServiceCompose_def split: option.splits)
  from s(1) have "service \<in> set (scp_Services desired)" "dsv_Name service = name" by (auto simp: find_Some_iff)
  then show ?thesis
    by (rule that) (auto simp: s(2-4) selectObjects_def select_keys_lookup credential_ref_def)
qed

text \<open>An observation without apply reconciles no network, config or secret and asks nothing of the applier.\<close>

lemma verify_only_reads:
  assumes "DeployService env rq log a = Some (res, err, st)" "vrq_VerifyOnly rq" "runs_in_order env"
  shows "pl_calls st = log \<and> pl_apply st = a"
proof -
  let ?R = "\<lambda>s t. pl_calls t = pl_calls s \<and> pl_apply t = pl_apply s"
  obtain e where run: "run_pipeline (newDeployServicePipeline env rq)
      (start_state \<lparr>dr_SpecificationOnlyServices = [], dr_Known = False, dr_UnresolvedServices = [], dr_InitJobs = []\<rparr> fmempty log a) =
      Some (e, st)" using assms(1,3) by (auto simp: DeployService_def runs_in_order_def)
  have "?R (start_state \<lparr>dr_SpecificationOnlyServices = [], dr_Known = False, dr_UnresolvedServices = [], dr_InitJobs = []\<rparr> fmempty log a) st"
  proof (rule run_pipeline_relation [where R = ?R, OF run])
    fix name step s e t assume "(name, True, step) \<in> set (newDeployServicePipeline env rq)" and r: "step s = Some (e, t)"
    then consider "step = prepareService rq" | "step = validate_step env (vrq_StackName rq) pl_prepared"
      | "step = convert_step env (vrq_StackName rq) pl_prepared" | "step = captureBaseline env (vrq_StackName rq)" | "step = waitForService env rq"
      using assms(2) by (auto simp: newDeployServicePipeline_def Let_def)
    then show "?R s t"
      by cases (use r in \<open>auto simp: prepareService_def validate_step_def convert_step_def captureBaseline_def waitForService_def
        waiting_def set_verification_def split: option.splits sum.splits if_splits\<close>)
  qed simp_all
  then show ?thesis by (simp add: start_state_def)
qed

end
