(* ===== verification/ResourceRotation.thy ===== *)
theory ResourceRotation
  imports StackResources
begin

text \<open>
  Rotation of configs and secrets: their names are derived from their content
  (\<open>internal/modules/gitops/controller/stackloop/rotator.go\<close>), and versions that are no longer needed are
  removed (\<open>rotated_resource_cleaner.go\<close>, \<open>Reconciler.cleanRotatedResources\<close> and \<open>Reconciler.Cleanup\<close>).

  Configs and secrets share the fields that rotation reads and writes. SHA-256 with hexadecimal output is a
  parameter, Docker's answers are an environment. Loops over Go maps go through the keys in sorted order; the
  order matters only when an error stops the loop. Log lines are left out.
\<close>

section \<open>Names\<close>

definition RotatedManagedKey :: string where
  "RotatedManagedKey = ''org.swarm-deploy.rotation.managed''"

definition RotatedManagedValue :: string where
  "RotatedManagedValue = ''true''"

definition RotatedLogicalNameKey :: string where
  "RotatedLogicalNameKey = ''org.swarm-deploy.rotation.logical-name''"

record rotated_object =
  ob_Name :: string
  ob_File :: string
  ob_Data :: "string option"
  ob_Labels :: labels
  ob_External :: bool

record compose_objects =
  co_Configs :: "(string, rotated_object) gomap"
  co_Secrets :: "(string, rotated_object) gomap"

record rotation_spec =
  ro_Enabled :: bool
  ro_HashLength :: int
  ro_IncludePath :: bool

type_synonym digest = "string \<Rightarrow> string"

datatype rotation_error = ContentNotLoaded string | InConfigs rotation_error | InSecrets rotation_error

definition buildRotatedObjectName :: "digest \<Rightarrow> rotation_spec \<Rightarrow> string \<Rightarrow> string \<Rightarrow> string \<Rightarrow> string \<Rightarrow> string" where
  "buildRotatedObjectName sha spec stack name file bytes =
     (let full = sha bytes @ (if ro_IncludePath spec then sha file else []);
          hash = (if 0 < ro_HashLength spec \<and> ro_HashLength spec < int (length full) then take (nat (ro_HashLength spec)) full else full)
      in stack @ ''-'' @ name @ ''-'' @ hash)"

definition isManagedRotatedResource :: "string \<Rightarrow> string \<Rightarrow> labels \<Rightarrow> bool" where
  "isManagedRotatedResource name objectName ls \<longleftrightarrow>
     name \<noteq> '''' \<and> map_str ls RotatedManagedKey = RotatedManagedValue \<and> map_str ls RotatedLogicalNameKey = objectName"

text \<open>\<open>Labels.Add\<close>; the result tells whether the labels changed.\<close>

definition labels_add :: "string \<Rightarrow> string \<Rightarrow> labels \<Rightarrow> bool \<times> labels" where
  "labels_add k v ls = (fmlookup ls k \<noteq> Some v, fmupd k v ls)"

definition apply_rotation :: "string \<Rightarrow> string \<Rightarrow> rotated_object \<Rightarrow> rotated_object" where
  "apply_rotation name objectName obj =
     obj\<lparr>ob_Name := name,
         ob_Labels := snd (labels_add RotatedLogicalNameKey objectName
                       (snd (labels_add RotatedManagedKey RotatedManagedValue (ob_Labels obj))))\<rparr>"

text \<open>One iteration: an error, or the changed object if there is one.\<close>

definition rotate_object ::
    "digest \<Rightarrow> rotation_spec \<Rightarrow> string \<Rightarrow> string \<Rightarrow> rotated_object \<Rightarrow> rotation_error + rotated_object option" where
  "rotate_object sha spec stack objectName obj =
     (if ob_External obj \<or> ob_File obj = '''' then Inr None
      else case ob_Data obj of
             None \<Rightarrow> Inl (ContentNotLoaded (ob_File obj))
           | Some bytes \<Rightarrow>
               let name = buildRotatedObjectName sha spec stack objectName (ob_File obj) bytes
               in if ob_File obj = name then Inr None else Inr (Some (apply_rotation name objectName obj)))"

fun rotate_loop ::
    "digest \<Rightarrow> rotation_spec \<Rightarrow> string \<Rightarrow> string list \<Rightarrow> (string, rotated_object) gomap \<Rightarrow> bool \<Rightarrow>
     rotation_error option \<times> bool \<times> (string, rotated_object) gomap" where
  "rotate_loop sha spec stack [] objects changed = (None, changed, objects)"
| "rotate_loop sha spec stack (k # ks) objects changed =
     (case fmlookup objects k of
        None \<Rightarrow> rotate_loop sha spec stack ks objects changed
      | Some obj \<Rightarrow>
          (case rotate_object sha spec stack k obj of
             Inl e \<Rightarrow> (Some e, False, objects)
           | Inr None \<Rightarrow> rotate_loop sha spec stack ks objects changed
           | Inr (Some obj') \<Rightarrow> rotate_loop sha spec stack ks (fmupd k obj' objects) True))"

definition applyObjectTypeRotation where
  "applyObjectTypeRotation sha spec stack objects = rotate_loop sha spec stack (sorted_keys objects) objects False"

definition Rotate ::
    "digest \<Rightarrow> rotation_spec \<Rightarrow> string \<Rightarrow> compose_objects \<Rightarrow> rotation_error option \<times> bool \<times> compose_objects" where
  "Rotate sha spec stack file =
     (case applyObjectTypeRotation sha spec stack (co_Configs file) of
        (Some e, _, configs) \<Rightarrow> (Some (InConfigs e), False, file\<lparr>co_Configs := configs\<rparr>)
      | (None, changed, configs) \<Rightarrow>
          (case applyObjectTypeRotation sha spec stack (co_Secrets file) of
             (Some e, _, secrets) \<Rightarrow> (Some (InSecrets e), changed, file\<lparr>co_Configs := configs, co_Secrets := secrets\<rparr>)
           | (None, changed', secrets) \<Rightarrow> (None, changed \<or> changed', file\<lparr>co_Configs := configs, co_Secrets := secrets\<rparr>)))"

fun resolve_loop ::
    "digest \<Rightarrow> rotation_spec \<Rightarrow> string \<Rightarrow> (string, rotated_object) gomap \<Rightarrow> string list \<Rightarrow> (string, string) gomap \<Rightarrow>
     rotation_error + (string, string) gomap" where
  "resolve_loop sha spec stack objects [] resolved = Inr resolved"
| "resolve_loop sha spec stack objects (k # ks) resolved =
     (case fmlookup objects k of
        None \<Rightarrow> resolve_loop sha spec stack objects ks resolved
      | Some obj \<Rightarrow>
          if ob_External obj \<or> ob_File obj = '''' then resolve_loop sha spec stack objects ks resolved
          else if isManagedRotatedResource (ob_Name obj) k (ob_Labels obj)
          then resolve_loop sha spec stack objects ks (fmupd k (ob_Name obj) resolved)
          else case ob_Data obj of
                 None \<Rightarrow> Inl (ContentNotLoaded (ob_File obj))
               | Some bytes \<Rightarrow>
                   resolve_loop sha spec stack objects ks
                     (fmupd k (buildRotatedObjectName sha spec stack k (ob_File obj) bytes) resolved))"

definition resolveDesiredResourceNames where
  "resolveDesiredResourceNames sha spec stack objects = resolve_loop sha spec stack objects (sorted_keys objects) fmempty"

definition DesiredResourceNames ::
    "digest \<Rightarrow> rotation_spec \<Rightarrow> string \<Rightarrow> compose_objects \<Rightarrow> rotation_error + (string, string) gomap \<times> (string, string) gomap" where
  "DesiredResourceNames sha spec stack file =
     (case resolveDesiredResourceNames sha spec stack (co_Configs file) of
        Inl e \<Rightarrow> Inl (InConfigs e)
      | Inr configs \<Rightarrow>
          (case resolveDesiredResourceNames sha spec stack (co_Secrets file) of
             Inl e \<Rightarrow> Inl (InSecrets e)
           | Inr secrets \<Rightarrow> Inr (configs, secrets)))"

section \<open>Live resources and references\<close>

record live_config =
  lc_ID :: string
  lc_Name :: string
  lc_CreatedAt :: gotime
  lc_Labels :: labels

record live_secret = live_config +
  lc_Driver :: string

record rotated_resource =
  rz_id :: string
  rz_name :: string
  rz_createdAt :: gotime
  rz_labels :: labels

definition to_resource :: "'a live_config_scheme \<Rightarrow> rotated_resource" where
  "to_resource c = \<lparr>rz_id = lc_ID c, rz_name = lc_Name c, rz_createdAt = lc_CreatedAt c, rz_labels = lc_Labels c\<rparr>"

definition mapConfigResources :: "live_config list \<Rightarrow> rotated_resource list" where
  "mapConfigResources configs = map to_resource configs"

definition mapSecretResources :: "live_secret list \<Rightarrow> rotated_resource list" where
  "mapSecretResources secrets = map to_resource (filter (\<lambda>s. lc_Driver s = '''') secrets)"

text \<open>
  The references of a container specification; \<open>None\<close> in a list is a nil pointer. A service without a container
  specification, or without a previous specification, has none.
\<close>

record container_refs =
  cr_Secrets :: "string option list"
  cr_Configs :: "string option list"

record live_refs =
  lr_Name :: string
  lr_FullName :: string
  lr_Spec :: "container_refs option"
  lr_PreviousSpec :: "container_refs option"

datatype cleanup_error =
    MissingReferenceID string string
  | UnexpectedNamespace string
  | IncompleteMetadata string

fun add_ids :: "(string \<Rightarrow> cleanup_error) \<Rightarrow> string \<Rightarrow> string option list \<Rightarrow> string list \<Rightarrow> cleanup_error + string list" where
  "add_ids err service [] ids = Inr ids"
| "add_ids err service (None # refs) ids = add_ids err service refs ids"
| "add_ids err service (Some i # refs) ids = (if i = '''' then Inl (err service) else add_ids err service refs (i # ids))"

definition addServiceSpecResourceRefs ::
    "string \<Rightarrow> container_refs option \<Rightarrow> string list \<times> string list \<Rightarrow> cleanup_error + string list \<times> string list" where
  "addServiceSpecResourceRefs service spec acc =
     (case spec of
        None \<Rightarrow> Inr acc
      | Some c \<Rightarrow>
          (case add_ids (MissingReferenceID ''secret'') service (cr_Secrets c) (fst acc) of
             Inl e \<Rightarrow> Inl e
           | Inr secrets \<Rightarrow>
               (case add_ids (MissingReferenceID ''config'') service (cr_Configs c) (snd acc) of
                  Inl e \<Rightarrow> Inl e
                | Inr configs \<Rightarrow> Inr (secrets, configs))))"

fun reference_loop :: "live_refs list \<Rightarrow> string list \<times> string list \<Rightarrow> cleanup_error + string list \<times> string list" where
  "reference_loop [] acc = Inr acc"
| "reference_loop (s # ss) acc =
     (case addServiceSpecResourceRefs (lr_FullName s) (lr_Spec s) acc of
        Inl e \<Rightarrow> Inl e
      | Inr acc1 \<Rightarrow>
          (case addServiceSpecResourceRefs (lr_FullName s @ '' previous spec'') (lr_PreviousSpec s) acc1 of
             Inl e \<Rightarrow> Inl e
           | Inr acc2 \<Rightarrow> reference_loop ss acc2))"

definition referencedResourceIDs :: "live_refs list \<Rightarrow> cleanup_error + string list \<times> string list" where
  "referencedResourceIDs services = reference_loop services ([], [])"

definition liveServicesAfterPrune :: "live_refs list \<Rightarrow> string list \<Rightarrow> live_refs list" where
  "liveServicesAfterPrune services pruned =
     (if pruned = [] then services else filter (\<lambda>s. lr_Name s \<notin> set pruned) services)"

section \<open>The cleaner\<close>

record cleanup_policy =
  cp_KeepLast :: int
  cp_MinAge :: duration

record cleanup_result =
  cx_Removed :: nat
  cx_Failed :: nat
  cx_Skipped :: nat

record resource_removal =
  rm_typeName :: string
  rm_resource :: rotated_resource

text \<open>\<open>Time.Sub\<close> saturates at the ends of a 64-bit duration.\<close>

definition time_sub :: "gotime \<Rightarrow> gotime \<Rightarrow> duration" where
  "time_sub t u = max (- (2 ^ 63)) (min (2 ^ 63 - 1) (t - u))"

definition logical_name :: "rotated_resource \<Rightarrow> string" where
  "logical_name r = TrimSpace (map_str (rz_labels r) RotatedLogicalNameKey)"

definition managed_resource :: "rotated_resource \<Rightarrow> bool" where
  "managed_resource r \<longleftrightarrow> map_str (rz_labels r) RotatedManagedKey = RotatedManagedValue"

definition generations_of :: "(string, rotated_resource list) gomap \<Rightarrow> string \<Rightarrow> rotated_resource list" where
  "generations_of groups l = (case fmlookup groups l of None \<Rightarrow> [] | Some rs \<Rightarrow> rs)"

fun group_loop ::
    "string \<Rightarrow> rotated_resource list \<Rightarrow> (string, rotated_resource list) gomap \<Rightarrow>
     cleanup_error + (string, rotated_resource list) gomap" where
  "group_loop stack [] groups = Inr groups"
| "group_loop stack (r # rs) groups =
     (if \<not> managed_resource r then group_loop stack rs groups
      else if map_str (rz_labels r) StackNamespace \<noteq> stack then Inl (UnexpectedNamespace (rz_name r))
      else if logical_name r = '''' \<or> rz_id r = '''' \<or> rz_name r = '''' \<or> IsZero (rz_createdAt r)
      then Inl (IncompleteMetadata (rz_name r))
      else group_loop stack rs (fmupd (logical_name r) (generations_of groups (logical_name r) @ [r]) groups))"

definition groupManagedResources where
  "groupManagedResources stack resources = group_loop stack resources fmempty"

text \<open>The newest generation first.\<close>

definition newer_generation :: "rotated_resource \<Rightarrow> rotated_resource \<Rightarrow> bool" where
  "newer_generation a b \<longleftrightarrow>
     (if rz_createdAt a = rz_createdAt b then rz_id b < rz_id a else rz_createdAt b < rz_createdAt a)"

definition protected_generation ::
    "cleanup_policy \<Rightarrow> gotime \<Rightarrow> string option \<Rightarrow> string list \<Rightarrow> nat \<times> rotated_resource \<Rightarrow> bool" where
  "protected_generation policy now desired referenced x \<longleftrightarrow>
     (case x of
        (i, r) \<Rightarrow>
          (desired \<noteq> None \<and> int i < cp_KeepLast policy) \<or>
          desired = Some (rz_name r) \<or>
          rz_id r \<in> set referenced \<or>
          time_sub now (rz_createdAt r) < cp_MinAge policy)"

definition expiredGenerations ::
    "cleanup_policy \<Rightarrow> gotime \<Rightarrow> string \<Rightarrow> rotated_resource list \<Rightarrow> (string, string) gomap \<Rightarrow> string list \<Rightarrow> rotated_resource list" where
  "expiredGenerations policy now l generations desired referenced =
     map snd (filter (\<lambda>x. \<not> protected_generation policy now (fmlookup desired l) referenced x)
               (enumerate 0 (SortStableFunc (cmp_of_less newer_generation) generations)))"

definition cleanup_plan ::
    "cleanup_policy \<Rightarrow> (string \<Rightarrow> gotime) \<Rightarrow> string \<Rightarrow> rotated_resource list \<Rightarrow> (string, string) gomap \<Rightarrow> string list \<Rightarrow>
     cleanup_error + rotated_resource list" where
  "cleanup_plan policy now stack resources desired referenced =
     (case groupManagedResources stack resources of
        Inl e \<Rightarrow> Inl e
      | Inr groups \<Rightarrow>
          Inr (concat (map (\<lambda>l. expiredGenerations policy (now l) l (generations_of groups l) desired referenced) (sorted_keys groups))))"

text \<open>The plan of one type and whether the type was skipped.\<close>

definition planType where
  "planType policy now stack resources desired referenced =
     (case cleanup_plan policy now stack resources desired referenced of Inl _ \<Rightarrow> ([], True) | Inr p \<Rightarrow> (p, False))"

text \<open>Removals in turn; the answer to a removal may depend on the number of removals before it.\<close>

fun execute_removals :: "(nat \<Rightarrow> resource_removal \<Rightarrow> string option) \<Rightarrow> nat \<Rightarrow> resource_removal list \<Rightarrow> cleanup_result \<Rightarrow> cleanup_result" where
  "execute_removals remove n [] res = res"
| "execute_removals remove n (x # xs) res =
     execute_removals remove (Suc n) xs
       (case remove n x of
          Some e \<Rightarrow> res\<lparr>cx_Failed := cx_Failed res + 1\<rparr>
        | None \<Rightarrow> res\<lparr>cx_Removed := cx_Removed res + 1\<rparr>)"

definition removal_before :: "resource_removal \<Rightarrow> resource_removal \<Rightarrow> bool" where
  "removal_before a b \<longleftrightarrow>
     (if rm_typeName a \<noteq> rm_typeName b then rm_typeName a < rm_typeName b
      else rz_id (rm_resource a) < rz_id (rm_resource b))"

definition no_cleanup :: cleanup_result where
  "no_cleanup = \<lparr>cx_Removed = 0, cx_Failed = 0, cx_Skipped = 0\<rparr>"

definition add_skipped :: "bool \<Rightarrow> cleanup_result \<Rightarrow> cleanup_result" where
  "add_skipped b res = (if b then res\<lparr>cx_Skipped := cx_Skipped res + 1\<rparr> else res)"

record cleanup_env =
  ce_Remove :: "nat \<Rightarrow> resource_removal \<Rightarrow> string option"
  ce_Now :: "string \<Rightarrow> string \<Rightarrow> gotime"
  ce_ListConfigs :: "string + live_config list"
  ce_ListSecrets :: "string + live_secret list"

text \<open>The result together with the removals that were attempted, in order.\<close>

definition clean ::
    "cleanup_env \<Rightarrow> cleanup_policy \<Rightarrow> string \<Rightarrow> (string, string) gomap \<Rightarrow> (string, string) gomap \<Rightarrow> live_refs list \<Rightarrow>
     live_config list \<Rightarrow> live_secret list \<Rightarrow> cleanup_result \<times> resource_removal list" where
  "clean env policy stack desiredConfigs desiredSecrets services configs secrets =
     (case referencedResourceIDs services of
        Inl e \<Rightarrow> (no_cleanup\<lparr>cx_Skipped := 1\<rparr>, [])
      | Inr (secretRefs, configRefs) \<Rightarrow>
          let (configPlan, configSkipped) =
                planType policy (ce_Now env ''config'') stack (mapConfigResources configs) desiredConfigs configRefs;
              (secretPlan, secretSkipped) =
                planType policy (ce_Now env ''secret'') stack (mapSecretResources secrets) desiredSecrets secretRefs;
              removals = SortStableFunc (cmp_of_less removal_before)
                (map (\<lambda>r. \<lparr>rm_typeName = ''config'', rm_resource = r\<rparr>) configPlan @
                 map (\<lambda>r. \<lparr>rm_typeName = ''secret'', rm_resource = r\<rparr>) secretPlan)
          in (add_skipped secretSkipped (add_skipped configSkipped (execute_removals (ce_Remove env) 0 removals no_cleanup)),
              removals))"

text \<open>A listing that fails leaves an empty list and counts as skipped.\<close>

definition listed_or_none :: "string + 'a list \<Rightarrow> 'a list \<times> bool" where
  "listed_or_none answer = (case answer of Inl e \<Rightarrow> ([], True) | Inr xs \<Rightarrow> (xs, False))"

definition cleanRotatedResources ::
    "digest \<Rightarrow> cleanup_env \<Rightarrow> rotation_spec \<Rightarrow> cleanup_policy \<Rightarrow> string \<Rightarrow> compose_objects \<Rightarrow> live_refs list \<Rightarrow> string list \<Rightarrow>
     cleanup_result \<times> resource_removal list" where
  "cleanRotatedResources sha env spec policy stack file services pruned =
     (case DesiredResourceNames sha spec stack file of
        Inl e \<Rightarrow> (add_skipped True no_cleanup, [])
      | Inr (desiredConfigs, desiredSecrets) \<Rightarrow>
          let (configs, noConfigs) = listed_or_none (ce_ListConfigs env);
              (secrets, noSecrets) = listed_or_none (ce_ListSecrets env);
              before = add_skipped noSecrets (add_skipped noConfigs no_cleanup);
              (res, removals) = clean env policy stack desiredConfigs desiredSecrets
                (liveServicesAfterPrune services pruned) configs secrets
          in (before\<lparr>cx_Removed := cx_Removed before + cx_Removed res, cx_Failed := cx_Failed before + cx_Failed res,
                     cx_Skipped := cx_Skipped before + cx_Skipped res\<rparr>, removals))"

datatype cleanup_failure = LoadCompose string | ListStackServices string | CleanupIncomplete cleanup_result

text \<open>\<open>Reconciler.Cleanup\<close>: it loads the definition as it is in the repository, without preparing it.\<close>

definition CleanupStack ::
    "digest \<Rightarrow> cleanup_env \<Rightarrow> rotation_spec \<Rightarrow> cleanup_policy \<Rightarrow> string \<Rightarrow> string + compose_objects \<Rightarrow> string + live_refs list \<Rightarrow>
     cleanup_failure option \<times> resource_removal list" where
  "CleanupStack sha env spec policy stack loaded services =
     (case loaded of
        Inl e \<Rightarrow> (Some (LoadCompose e), [])
      | Inr file \<Rightarrow>
          (case services of
             Inl e \<Rightarrow> (Some (ListStackServices e), [])
           | Inr live \<Rightarrow>
               (case cleanRotatedResources sha env spec policy stack file live [] of
                  (res, removals) \<Rightarrow>
                    (if 0 < cx_Failed res \<or> 0 < cx_Skipped res then Some (CleanupIncomplete res) else None, removals))))"

section \<open>Rotation and the desired names\<close>

definition rotated_object_of :: "digest \<Rightarrow> rotation_spec \<Rightarrow> string \<Rightarrow> string \<Rightarrow> rotated_object \<Rightarrow> rotated_object" where
  "rotated_object_of sha spec stack k obj = (case rotate_object sha spec stack k obj of Inr (Some obj') \<Rightarrow> obj' | _ \<Rightarrow> obj)"

definition desired_name :: "digest \<Rightarrow> rotation_spec \<Rightarrow> string \<Rightarrow> string \<Rightarrow> rotated_object \<Rightarrow> string option" where
  "desired_name sha spec stack k obj =
     (if ob_External obj \<or> ob_File obj = '''' then None
      else if isManagedRotatedResource (ob_Name obj) k (ob_Labels obj) then Some (ob_Name obj)
      else map_option (buildRotatedObjectName sha spec stack k (ob_File obj)) (ob_Data obj))"

lemma rotate_loop_lookup:
  assumes "rotate_loop sha spec stack ks objects changed = (None, changed', objects')" "distinct ks"
  shows "fmlookup objects' k =
    (if k \<in> set ks then map_option (rotated_object_of sha spec stack k) (fmlookup objects k) else fmlookup objects k)"
  using assms
proof (induction ks arbitrary: objects changed)
  case (Cons a ks)
  show ?case
  proof (cases "fmlookup objects a")
    case None
    with Cons show ?thesis by auto
  next
    case (Some obj)
    show ?thesis
    proof (cases "rotate_object sha spec stack a obj")
      case (Inr r)
      then have "rotated_object_of sha spec stack a obj = (case r of None \<Rightarrow> obj | Some obj' \<Rightarrow> obj')"
        by (simp add: rotated_object_of_def split: option.split)
      with Cons Some Inr show ?thesis by (cases r) auto
    qed (use Cons Some in auto)
  qed
qed simp

lemma resolve_loop_lookup:
  assumes "resolve_loop sha spec stack objects ks resolved = Inr names" "distinct ks"
  shows "fmlookup names k =
    (case (if k \<in> set ks then Option.bind (fmlookup objects k) (desired_name sha spec stack k) else None) of
       Some n \<Rightarrow> Some n | None \<Rightarrow> fmlookup resolved k)"
  using assms
proof (induction ks arbitrary: resolved)
  case (Cons a ks)
  show ?case
  proof (cases "fmlookup objects a")
    case None
    with Cons show ?thesis by auto
  next
    case (Some obj)
    show ?thesis
    proof (cases "desired_name sha spec stack a obj")
      case None
      then have "resolve_loop sha spec stack objects ks resolved = Inr names"
        using Cons.prems(1) Some by (auto simp: desired_name_def split: if_splits option.splits)
      then show ?thesis using Cons.IH [of resolved] Cons.prems(2) Some None by auto
    next
      case (Some n)
      then have "resolve_loop sha spec stack objects ks (fmupd a n resolved) = Inr names"
        using Cons.prems(1) \<open>fmlookup objects a = Some obj\<close> by (auto simp: desired_name_def split: if_splits option.splits)
      then show ?thesis using Cons.IH [of "fmupd a n resolved"] Cons.prems(2) \<open>fmlookup objects a = Some obj\<close> Some
        by (cases "k = a") (auto split: option.split)
    qed
  qed
qed simp

lemma resolve_loop_defined:
  assumes "resolve_loop sha spec stack objects ks resolved = Inr names" "k \<in> set ks" "fmlookup objects k = Some obj"
    and "\<not> ob_External obj" "ob_File obj \<noteq> ''''"
  shows "desired_name sha spec stack k obj \<noteq> None"
  using assms
  by (induction ks arbitrary: resolved) (auto simp: desired_name_def split: option.splits if_splits)

lemma applyObjectTypeRotation_lookup:
  assumes "applyObjectTypeRotation sha spec stack objects = (None, changed, objects')"
  shows "fmlookup objects' k = map_option (rotated_object_of sha spec stack k) (fmlookup objects k)"
  using rotate_loop_lookup [OF assms [unfolded applyObjectTypeRotation_def]]
  by (auto simp: has_key_iff)

lemma resolveDesired_lookup:
  assumes "resolveDesiredResourceNames sha spec stack objects = Inr names"
  shows "fmlookup names k = Option.bind (fmlookup objects k) (desired_name sha spec stack k)"
  using resolve_loop_lookup [OF assms [unfolded resolveDesiredResourceNames_def]]
  by (auto simp: has_key_iff split: option.splits)

definition unmanaged_source :: "(string, rotated_object) gomap \<Rightarrow> bool" where
  "unmanaged_source objects \<longleftrightarrow>
     (\<forall>k obj. fmlookup objects k = Some obj \<longrightarrow> \<not> isManagedRotatedResource (ob_Name obj) k (ob_Labels obj))"

lemma rotated_is_managed:
  assumes "rotate_object sha spec stack k obj = Inr (Some obj')"
  shows "isManagedRotatedResource (ob_Name obj') k (ob_Labels obj') \<and> ob_External obj' = ob_External obj \<and>
    ob_File obj' = ob_File obj \<and> ob_Data obj' = ob_Data obj"
  using assms
  by (auto simp: rotate_object_def apply_rotation_def isManagedRotatedResource_def labels_add_def map_str_def Let_def
      buildRotatedObjectName_def RotatedManagedKey_def RotatedLogicalNameKey_def split: if_splits option.splits)

text \<open>The name that cleanup computes for an object is the same before and after the rotation.\<close>

lemma desired_name_rotated:
  assumes "\<not> isManagedRotatedResource (ob_Name obj) k (ob_Labels obj)"
  shows "desired_name sha spec stack k (rotated_object_of sha spec stack k obj) = desired_name sha spec stack k obj"
proof (cases "rotate_object sha spec stack k obj")
  case (Inr r)
  show ?thesis
  proof (cases r)
    case (Some obj')
    have "desired_name sha spec stack k obj' = Some (ob_Name obj')"
      using rotated_is_managed [OF Inr [unfolded Some]] Inr Some by (auto simp: desired_name_def rotate_object_def)
    moreover have "desired_name sha spec stack k obj = Some (ob_Name obj')"
      using Inr Some assms
      by (auto simp: desired_name_def rotate_object_def apply_rotation_def Let_def split: if_splits option.splits)
    ultimately show ?thesis using Inr Some by (simp add: rotated_object_of_def)
  qed (simp add: Inr rotated_object_of_def)
qed (simp add: rotated_object_of_def)

lemma desired_names_rotated:
  assumes "applyObjectTypeRotation sha spec stack objects = (None, changed, objects')" "unmanaged_source objects"
    and "resolveDesiredResourceNames sha spec stack ds = Inr names" "ds = objects \<or> ds = objects'"
  shows "fmlookup names k = Option.bind (fmlookup objects' k) (desired_name sha spec stack k)"
proof -
  have "Option.bind (fmlookup objects' k) (desired_name sha spec stack k) = Option.bind (fmlookup objects k) (desired_name sha spec stack k)"
    using applyObjectTypeRotation_lookup [OF assms(1)] assms(2) desired_name_rotated
    by (cases "fmlookup objects k") (auto simp: unmanaged_source_def)
  with resolveDesired_lookup [OF assms(3)] assms(4) show ?thesis by auto
qed

section \<open>The plan\<close>

text \<open>A stable sort by a strict weak order puts no element before a smaller one.\<close>

lemma sorted_insert_stable:
  assumes "sorted_wrt (\<lambda>a b. \<not> lt b a) xs"
    and "\<And>a b. lt a b \<Longrightarrow> \<not> lt b a" and "\<And>a b c. \<not> lt b a \<Longrightarrow> \<not> lt c b \<Longrightarrow> \<not> lt c a"
  shows "sorted_wrt (\<lambda>a b. \<not> lt b a) (insert_stable (cmp_of_less lt) x xs)"
proof -
  have set: "set (insert_stable cmp x ys) = insert x (set ys)" for cmp ys by (induction ys) auto
  show ?thesis using assms(1)
  proof (induction xs)
    case (Cons y ys)
    show ?case
    proof (cases "cmp_of_less lt x y \<le> 0")
      case True
      then have "\<not> lt y x" using assms(2) by (auto simp: cmp_of_less_def split: if_splits)
      then show ?thesis using True Cons.prems assms(3) [of y x] by auto
    next
      case False
      then have "\<not> lt x y" by (auto simp: cmp_of_less_def split: if_splits)
      then show ?thesis using False Cons set [of _ ys] by auto
    qed
  qed simp
qed

lemma sorted_SortStableFunc:
  assumes "\<And>a b. lt a b \<Longrightarrow> \<not> lt b a" and "\<And>a b c. \<not> lt b a \<Longrightarrow> \<not> lt c b \<Longrightarrow> \<not> lt c a"
  shows "sorted_wrt (\<lambda>a b. \<not> lt b a) (SortStableFunc (cmp_of_less lt) xs)"
  unfolding SortStableFunc_def by (induction xs) (auto intro: sorted_insert_stable [OF _ assms])

lemma group_loop_facts:
  assumes "group_loop stack rs groups = Inr final"
  shows "generations_of final l = generations_of groups l @ filter (\<lambda>r. managed_resource r \<and> logical_name r = l) rs \<and>
    (\<forall>r \<in> set rs. managed_resource r \<longrightarrow> map_str (rz_labels r) StackNamespace = stack)"
  using assms
  by (induction rs arbitrary: groups) (auto simp: generations_of_def Let_def split: if_splits)

lemma expired_facts:
  assumes "x \<in> set (expiredGenerations policy now l gens desired refs)"
  obtains i where "i < length gens" "x = SortStableFunc (cmp_of_less newer_generation) gens ! i" "x \<in> set gens"
    "\<not> protected_generation policy now (fmlookup desired l) refs (i, x)"
proof -
  from assms obtain i where i: "i < length gens" "x = SortStableFunc (cmp_of_less newer_generation) gens ! i"
      "\<not> protected_generation policy now (fmlookup desired l) refs (i, x)"
    by (auto simp: expiredGenerations_def in_set_enumerate_eq)
  moreover have "x \<in> set gens" using i(1,2) set_SortStableFunc [of "cmp_of_less newer_generation" gens] nth_mem
    by (metis length_SortStableFunc)
  ultimately show ?thesis using that by blast
qed

lemma newest_kept:
  assumes "distinct gens" "x \<in> set (expiredGenerations policy now l gens desired refs)" "fmlookup desired l \<noteq> None"
  shows "\<exists>kept. distinct kept \<and> set kept \<subseteq> set gens \<and> cp_KeepLast policy \<le> int (length kept) \<and>
    (\<forall>g \<in> set kept. rz_createdAt x \<le> rz_createdAt g \<and> g \<notin> set (expiredGenerations policy now l gens desired refs))"
proof -
  let ?s = "SortStableFunc (cmp_of_less newer_generation) gens" and ?n = "nat (cp_KeepLast policy)"
  from expired_facts [OF assms(2)] obtain i where i: "i < length gens" "x = ?s ! i"
      "\<not> protected_generation policy now (fmlookup desired l) refs (i, x)" by blast
  then have n: "?n \<le> i" using assms(3) by (auto simp: protected_generation_def)
  have d: "distinct ?s" using assms(1) by (metis distinct_count_atmost_1 mset_SortStableFunc set_SortStableFunc)
  have s: "sorted_wrt (\<lambda>a b. \<not> newer_generation b a) ?s"
    by (rule sorted_SortStableFunc) (auto simp: newer_generation_def split: if_splits)
  have k: "rz_createdAt x \<le> rz_createdAt (?s ! j) \<and> ?s ! j \<notin> set (expiredGenerations policy now l gens desired refs)"
    if j: "j < ?n" for j
  proof
    have "\<not> newer_generation x (?s ! j)" using s i j n by (auto simp: sorted_wrt_iff_nth_less)
    then show "rz_createdAt x \<le> rz_createdAt (?s ! j)" by (auto simp: newer_generation_def split: if_splits)
    show "?s ! j \<notin> set (expiredGenerations policy now l gens desired refs)"
    proof
      assume "?s ! j \<in> set (expiredGenerations policy now l gens desired refs)"
      from expired_facts [OF this] obtain m where m: "m < length gens" "?s ! j = ?s ! m"
          "\<not> protected_generation policy now (fmlookup desired l) refs (m, ?s ! j)" by blast
      then have "m = j" using d i j n by (simp add: nth_eq_iff_index_eq)
      with m(3) j assms(3) show False by (auto simp: protected_generation_def)
    qed
  qed
  show ?thesis
  proof (intro exI conjI ballI)
    show "distinct (take ?n ?s)" using d by simp
    show "set (take ?n ?s) \<subseteq> set gens" using set_take_subset [of ?n ?s] by simp
    show "cp_KeepLast policy \<le> int (length (take ?n ?s))" using n i by simp
  qed (use k in \<open>auto simp: in_set_conv_nth\<close>)
qed

section \<open>What cleanup removes\<close>

definition objects_of :: "string \<Rightarrow> compose_objects \<Rightarrow> (string, rotated_object) gomap" where
  "objects_of t file = (if t = ''config'' then co_Configs file else co_Secrets file)"

definition listed_resources :: "cleanup_env \<Rightarrow> string \<Rightarrow> rotated_resource list" where
  "listed_resources env t =
     (if t = ''config'' then mapConfigResources (fst (listed_or_none (ce_ListConfigs env)))
      else mapSecretResources (fst (listed_or_none (ce_ListSecrets env))))"

text \<open>The references of a service, of its specification and the one it may be rolled back to.\<close>

definition refs_of :: "string \<Rightarrow> container_refs option \<Rightarrow> string option list" where
  "refs_of t spec = (case spec of None \<Rightarrow> [] | Some c \<Rightarrow> if t = ''config'' then cr_Configs c else cr_Secrets c)"

definition service_refs :: "string \<Rightarrow> live_refs \<Rightarrow> string option list" where
  "service_refs t s = refs_of t (lr_Spec s) @ refs_of t (lr_PreviousSpec s)"

definition referenced_of :: "string \<Rightarrow> string list \<times> string list \<Rightarrow> string list" where
  "referenced_of t refs = (if t = ''config'' then snd refs else fst refs)"

lemma add_ids_facts: "add_ids err service refs ids = Inr ids' \<Longrightarrow> set ids' = set ids \<union> {i. Some i \<in> set refs}"
  by (induction err service refs ids rule: add_ids.induct) (auto split: if_splits)

lemma addServiceSpecResourceRefs_facts:
  assumes "addServiceSpecResourceRefs service spec acc = Inr acc'"
  shows "set (referenced_of t acc') = set (referenced_of t acc) \<union> {i. Some i \<in> set (refs_of t spec)}"
  using assms
  by (auto simp: addServiceSpecResourceRefs_def referenced_of_def refs_of_def dest!: add_ids_facts split: option.splits sum.splits)

lemma reference_loop_facts:
  assumes "reference_loop services acc = Inr refs"
  shows "set (referenced_of t refs) = set (referenced_of t acc) \<union> {i. \<exists>s \<in> set services. Some i \<in> set (service_refs t s)}"
  using assms
proof (induction services arbitrary: acc)
  case (Cons s ss)
  from Cons.prems obtain acc1 acc2 where
      "addServiceSpecResourceRefs (lr_FullName s) (lr_Spec s) acc = Inr acc1"
      "addServiceSpecResourceRefs (lr_FullName s @ '' previous spec'') (lr_PreviousSpec s) acc1 = Inr acc2"
      "reference_loop ss acc2 = Inr refs"
    by (auto split: sum.splits)
  then show ?case using Cons.IH [of acc2] by (auto simp: service_refs_def dest!: addServiceSpecResourceRefs_facts [of _ _ _ _ t])
qed simp

text \<open>A removal comes from the plan of its type.\<close>

definition plan_of ::
    "cleanup_env \<Rightarrow> cleanup_policy \<Rightarrow> string \<Rightarrow> string \<Rightarrow> (string, string) gomap \<Rightarrow> string list \<Rightarrow> rotated_resource list" where
  "plan_of env policy stack t desired refs = fst (planType policy (ce_Now env t) stack (listed_resources env t) desired refs)"

lemma execute_removals_counts:
  "cx_Removed (execute_removals remove n xs res) + cx_Failed (execute_removals remove n xs res) =
    cx_Removed res + cx_Failed res + length xs"
  by (induction xs arbitrary: n res) (auto split: option.splits)

lemma add_skipped_simps [simp]:
  "cx_Removed (add_skipped b res) = cx_Removed res" "cx_Failed (add_skipped b res) = cx_Failed res"
  by (simp_all add: add_skipped_def)

lemma removal_planned:
  assumes run: "cleanRotatedResources sha env spec policy stack file services pruned = (res, removals)"
    and x: "\<lparr>rm_typeName = t, rm_resource = r\<rparr> \<in> set removals"
  obtains names refs where "resolveDesiredResourceNames sha spec stack (objects_of t file) = Inr names"
    "reference_loop (liveServicesAfterPrune services pruned) ([], []) = Inr refs"
    "\<And>g. \<lparr>rm_typeName = t, rm_resource = g\<rparr> \<in> set removals \<longleftrightarrow> g \<in> set (plan_of env policy stack t names (referenced_of t refs))"
    "r \<in> set (plan_of env policy stack t names (referenced_of t refs))"
proof -
  from run x obtain configs secrets where n:
      "resolveDesiredResourceNames sha spec stack (co_Configs file) = Inr configs"
      "resolveDesiredResourceNames sha spec stack (co_Secrets file) = Inr secrets"
    by (auto simp: cleanRotatedResources_def DesiredResourceNames_def split: sum.splits)
  from run x n obtain refs where refs: "reference_loop (liveServicesAfterPrune services pruned) ([], []) = Inr refs"
    by (auto simp: cleanRotatedResources_def DesiredResourceNames_def clean_def referencedResourceIDs_def Let_def
        split: sum.splits prod.splits)
  have "set removals = (\<lambda>g. \<lparr>rm_typeName = ''config'', rm_resource = g\<rparr>) ` set (plan_of env policy stack ''config'' configs (snd refs)) \<union>
      (\<lambda>g. \<lparr>rm_typeName = ''secret'', rm_resource = g\<rparr>) ` set (plan_of env policy stack ''secret'' secrets (fst refs))"
    using run n refs
    by (auto simp: cleanRotatedResources_def DesiredResourceNames_def clean_def referencedResourceIDs_def Let_def plan_of_def
        listed_resources_def split: sum.splits prod.splits)
  then have "\<lparr>rm_typeName = t, rm_resource = g\<rparr> \<in> set removals \<longleftrightarrow>
      g \<in> set (plan_of env policy stack t (if t = ''config'' then configs else secrets) (referenced_of t refs))" for g
    using x by (auto simp: referenced_of_def)
  with x n refs that [of "if t = ''config'' then configs else secrets" refs] show ?thesis by (auto simp: objects_of_def)
qed

lemma cleanup_counts:
  assumes "cleanRotatedResources sha env spec policy stack file services pruned = (res, removals)"
  shows "cx_Removed res + cx_Failed res = length removals"
  using assms execute_removals_counts [of "ce_Remove env" 0 removals no_cleanup]
  by (auto simp: cleanRotatedResources_def clean_def Let_def no_cleanup_def split: sum.splits prod.splits)

lemma planned_facts:
  assumes "r \<in> set (plan_of env policy stack t names refs)"
  shows "r \<in> set (listed_resources env t) \<and> managed_resource r \<and> map_str (rz_labels r) StackNamespace = stack \<and>
    r \<in> set (expiredGenerations policy (ce_Now env t (logical_name r)) (logical_name r)
      (filter (\<lambda>g. managed_resource g \<and> logical_name g = logical_name r) (listed_resources env t)) names refs)"
proof -
  from assms obtain groups l where g: "groupManagedResources stack (listed_resources env t) = Inr groups"
      "r \<in> set (expiredGenerations policy (ce_Now env t l) l (generations_of groups l) names refs)"
    by (auto simp: plan_of_def planType_def cleanup_plan_def split: sum.splits)
  have f: "generations_of groups l = filter (\<lambda>r. managed_resource r \<and> logical_name r = l) (listed_resources env t)"
      "\<forall>r \<in> set (listed_resources env t). managed_resource r \<longrightarrow> map_str (rz_labels r) StackNamespace = stack"
    using group_loop_facts [OF g(1) [unfolded groupManagedResources_def], of l] by (simp_all add: generations_of_def)
  from expired_facts [OF g(2)] have "r \<in> set (generations_of groups l)" by blast
  then show ?thesis using f g(2) by auto
qed

definition rotated_version :: "string \<Rightarrow> rotated_object \<Rightarrow> bool" where
  "rotated_version l obj \<longleftrightarrow>
     \<not> ob_External obj \<and> ob_File obj \<noteq> '''' \<and> isManagedRotatedResource (ob_Name obj) l (ob_Labels obj)"

lemma Rotate_objects:
  assumes "Rotate sha spec stack file = (None, changed, rotated)"
  shows "\<exists>ch. applyObjectTypeRotation sha spec stack (objects_of t file) = (None, ch, objects_of t rotated)"
  using assms by (auto simp: Rotate_def objects_of_def split: prod.splits option.splits)

lemma kept_generations:
  assumes r: "r \<in> set (plan_of env policy stack t names refs)" and l: "fmlookup names (logical_name r) \<noteq> None"
    and ids: "distinct (map rz_id (listed_resources env t))"
  shows "\<exists>kept. distinct kept \<and> set kept \<subseteq> set (listed_resources env t) \<and> cp_KeepLast policy \<le> int (length kept) \<and>
    (\<forall>g \<in> set kept. logical_name g = logical_name r \<and> rz_createdAt r \<le> rz_createdAt g \<and>
       g \<notin> set (plan_of env policy stack t names refs))"
proof -
  let ?gens = "filter (\<lambda>g. managed_resource g \<and> logical_name g = logical_name r) (listed_resources env t)"
  let ?expired = "expiredGenerations policy (ce_Now env t (logical_name r)) (logical_name r) ?gens names refs"
  have "distinct ?gens" using ids by (simp add: distinct_map)
  moreover have "r \<in> set ?expired" using planned_facts [OF r] by blast
  ultimately obtain kept where k: "distinct kept" "set kept \<subseteq> set ?gens" "cp_KeepLast policy \<le> int (length kept)"
      "\<forall>g \<in> set kept. rz_createdAt r \<le> rz_createdAt g \<and> g \<notin> set ?expired"
    using newest_kept [of ?gens r policy _ "logical_name r" names refs] l by blast
  have "g \<notin> set (plan_of env policy stack t names refs)" if "g \<in> set kept" for g
  proof
    assume "g \<in> set (plan_of env policy stack t names refs)"
    from planned_facts [OF this] have "logical_name g = logical_name r \<Longrightarrow> g \<in> set ?expired" by auto
    with that k(2,4) show False by auto
  qed
  with k show ?thesis by (intro exI [of _ kept]) auto
qed

text \<open>
  C23. Cleanup never removes a config or secret that is needed. Let a definition be rotated, and let cleanup
  run on the rotated definition (after a deployment) or on the definition as loaded from Git (periodically).
  Then every resource it tries to remove is a listed one that rotation created for this stack; no live
  service refers to it, neither in its specification nor in the one Docker may roll it back to, except services
  that were pruned just before; it has the minimal age; it is not the version that the rotated
  definition names; and while the definition has the object, the configured number of versions that are not
  older than the removed one stay. Every attempt is counted as removed or failed.
\<close>

theorem cleanup_protects:
  assumes rot: "Rotate sha spec stack file = (None, changed, rotated)"
    and src: "unmanaged_source (objects_of t file)" "desired = file \<or> desired = rotated"
    and ids: "distinct (map rz_id (listed_resources env t))"
    and run: "cleanRotatedResources sha env spec policy stack desired services pruned = (res, removals)"
    and x: "\<lparr>rm_typeName = t, rm_resource = r\<rparr> \<in> set removals"
  shows "r \<in> set (listed_resources env t) \<and> managed_resource r \<and> map_str (rz_labels r) StackNamespace = stack \<and>
    (\<forall>s \<in> set services. Some (rz_id r) \<in> set (service_refs t s) \<longrightarrow> lr_Name s \<in> set pruned) \<and>
    cp_MinAge policy \<le> time_sub (ce_Now env t (logical_name r)) (rz_createdAt r) \<and>
    cx_Removed res + cx_Failed res = length removals \<and>
    (\<forall>obj. fmlookup (objects_of t rotated) (logical_name r) = Some obj \<and> rotated_version (logical_name r) obj \<longrightarrow>
       rz_name r \<noteq> ob_Name obj \<and>
       (\<exists>kept. distinct kept \<and> set kept \<subseteq> set (listed_resources env t) \<and> cp_KeepLast policy \<le> int (length kept) \<and>
          (\<forall>g \<in> set kept. logical_name g = logical_name r \<and> rz_createdAt r \<le> rz_createdAt g \<and>
             \<lparr>rm_typeName = t, rm_resource = g\<rparr> \<notin> set removals)))"
proof -
  from removal_planned [OF run x] obtain names refs where
      n: "resolveDesiredResourceNames sha spec stack (objects_of t desired) = Inr names"
      "reference_loop (liveServicesAfterPrune services pruned) ([], []) = Inr refs"
      "\<And>g. \<lparr>rm_typeName = t, rm_resource = g\<rparr> \<in> set removals \<longleftrightarrow> g \<in> set (plan_of env policy stack t names (referenced_of t refs))"
    and r: "r \<in> set (plan_of env policy stack t names (referenced_of t refs))" by blast
  note p = planned_facts [OF r]
  from expired_facts [OF p [THEN conjunct2, THEN conjunct2, THEN conjunct2]]
  obtain i where "\<not> protected_generation policy (ce_Now env t (logical_name r)) (fmlookup names (logical_name r)) (referenced_of t refs) (i, r)"
    by blast
  then have prot: "fmlookup names (logical_name r) \<noteq> Some (rz_name r)" "rz_id r \<notin> set (referenced_of t refs)"
      "cp_MinAge policy \<le> time_sub (ce_Now env t (logical_name r)) (rz_createdAt r)"
    by (auto simp: protected_generation_def)
  from Rotate_objects [OF rot] obtain ch where
    "applyObjectTypeRotation sha spec stack (objects_of t file) = (None, ch, objects_of t rotated)" by blast
  from desired_names_rotated [OF this src(1) n(1)] src(2)
  have names: "fmlookup names l = Option.bind (fmlookup (objects_of t rotated) l) (desired_name sha spec stack l)" for l by auto
  have named: "fmlookup names l = Some (ob_Name obj)"
    if "fmlookup (objects_of t rotated) l = Some obj" "rotated_version l obj" for l obj
    using names that by (simp add: rotated_version_def desired_name_def)
  have "lr_Name s \<in> set pruned" if "s \<in> set services" "Some (rz_id r) \<in> set (service_refs t s)" for s
    using prot(2) that reference_loop_facts [OF n(2), of t] by (auto simp: liveServicesAfterPrune_def split: if_splits)
  then show ?thesis
    using p prot named [of "logical_name r"] cleanup_counts [OF run] kept_generations [OF r _ ids] n(3) by auto
qed

section \<open>An example\<close>

definition demo_digest :: digest where
  "demo_digest s = s @ ''0''"

definition demo_rotation :: rotation_spec where
  "demo_rotation = \<lparr>ro_Enabled = True, ro_HashLength = 8, ro_IncludePath = False\<rparr>"

definition demo_objects :: compose_objects where
  "demo_objects =
     \<lparr>co_Configs = fmupd ''app'' \<lparr>ob_Name = '''', ob_File = ''app.conf'', ob_Data = Some ''v3'', ob_Labels = fmempty, ob_External = False\<rparr> fmempty,
      co_Secrets = fmempty\<rparr>"

definition demo_version :: "string \<Rightarrow> gotime \<Rightarrow> live_config" where
  "demo_version v t =
     \<lparr>lc_ID = ''id-'' @ v, lc_Name = ''shop-app-'' @ v @ ''0'', lc_CreatedAt = t,
      lc_Labels = fmupd RotatedManagedKey ''true'' (fmupd RotatedLogicalNameKey ''app'' (fmupd StackNamespace ''shop'' fmempty))\<rparr>"

definition demo_cleanup :: cleanup_env where
  "demo_cleanup =
     \<lparr>ce_Remove = (\<lambda>_ _. None), ce_Now = (\<lambda>_ _. 1000),
      ce_ListConfigs = Inr [demo_version ''v1'' 100, demo_version ''v2'' 200, demo_version ''v3'' 300, demo_version ''v0'' 50],
      ce_ListSecrets = Inr []\<rparr>"

definition demo_service :: live_refs where
  "demo_service =
     \<lparr>lr_Name = ''web'', lr_FullName = ''shop_web'', lr_Spec = Some \<lparr>cr_Secrets = [], cr_Configs = [Some ''id-v3'']\<rparr>,
      lr_PreviousSpec = Some \<lparr>cr_Secrets = [], cr_Configs = [Some ''id-v1'']\<rparr>\<rparr>"

theorem cleanup_protects_witness:
  "\<exists>changed rotated obj res kept.
     Rotate demo_digest demo_rotation ''shop'' demo_objects = (None, changed, rotated) \<and>
     cleanRotatedResources demo_digest demo_cleanup demo_rotation \<lparr>cp_KeepLast = 2, cp_MinAge = 500\<rparr> ''shop'' demo_objects [demo_service] [] =
       (res, [\<lparr>rm_typeName = ''config'', rm_resource = to_resource (demo_version ''v0'' 50)\<rparr>]) \<and>
     fmlookup (co_Configs rotated) ''app'' = Some obj \<and> ob_Name obj = ''shop-app-v30'' \<and>
     distinct kept \<and> set kept \<subseteq> set (listed_resources demo_cleanup ''config'') \<and> 2 \<le> length kept"
proof -
  let ?policy = "\<lparr>cp_KeepLast = 2, cp_MinAge = 500\<rparr>" and ?old = "to_resource (demo_version ''v0'' 50)"
  obtain rotated changed err where rot: "Rotate demo_digest demo_rotation ''shop'' demo_objects = (err, changed, rotated)"
    by (metis prod_cases3)
  have "fst (Rotate demo_digest demo_rotation ''shop'' demo_objects) = None \<and>
      map_option (\<lambda>obj. (ob_Name obj, rotated_version ''app'' obj)) (fmlookup (co_Configs (snd (snd (Rotate demo_digest demo_rotation ''shop'' demo_objects)))) ''app'')
        = Some (''shop-app-v30'', True)" by code_simp
  with rot obtain obj where obj: "err = None" "fmlookup (co_Configs rotated) ''app'' = Some obj" "ob_Name obj = ''shop-app-v30''"
      "rotated_version ''app'' obj" by auto
  obtain res where run: "cleanRotatedResources demo_digest demo_cleanup demo_rotation ?policy ''shop'' demo_objects [demo_service] [] =
      (res, [\<lparr>rm_typeName = ''config'', rm_resource = ?old\<rparr>])"
  proof -
    have "snd (cleanRotatedResources demo_digest demo_cleanup demo_rotation ?policy ''shop'' demo_objects [demo_service] []) =
      [\<lparr>rm_typeName = ''config'', rm_resource = ?old\<rparr>]" by code_simp
    then show ?thesis using that by (metis prod.collapse)
  qed
  have src: "unmanaged_source (objects_of ''config'' demo_objects)"
    by (simp add: unmanaged_source_def objects_of_def demo_objects_def isManagedRotatedResource_def)
  have ids: "distinct (map rz_id (listed_resources demo_cleanup ''config''))" by code_simp
  have l: "logical_name ?old = ''app''" by code_simp
  have "\<exists>kept. distinct kept \<and> set kept \<subseteq> set (listed_resources demo_cleanup ''config'') \<and> 2 \<le> length kept"
    using cleanup_protects [OF rot [unfolded obj(1)] src disjI1 [OF refl] ids run list.set_intros(1)] obj(2,4) l
    by (auto simp: objects_of_def)
  with rot run obj show ?thesis by blast
qed

end
