(* ===== verification/StackPreparation.thy ===== *)
theory StackPreparation
  imports ResourceRotation InitJob
begin

text \<open>
  Preparation of a loaded Compose definition before its deployment
  (\<open>internal/modules/gitops/controller/stackloop/preparation/preparer.go\<close>): the image policy, environment files
  (\<open>internal/compose/envfile.go\<close>), bind mounts, the Downward environment, the label of managed services, and
  the rotation of configs and secrets.

  The parser of image references is a parameter, as are the variable names of the Downward library, which are
  distinct. The pipeline library runs its steps in order, skips a step whose condition is false and stops at
  the first error. Loading reads Git and parses YAML and is not modelled.
\<close>

section \<open>Paths\<close>

text \<open>\<open>filepath.Clean\<close>, \<open>Join\<close>, \<open>Dir\<close> and \<open>IsAbs\<close> on Unix: the elements between slashes are worked off from the left.\<close>

fun split_slash :: "string \<Rightarrow> string list" where
  "split_slash [] = [[]]"
| "split_slash (c # s) =
     (if c = CHR ''/'' then [] # split_slash s
      else case split_slash s of [] \<Rightarrow> [[c]] | e # es \<Rightarrow> (c # e) # es)"

fun clean_elements :: "bool \<Rightarrow> string list \<Rightarrow> string list \<Rightarrow> string list" where
  "clean_elements rooted [] acc = rev acc"
| "clean_elements rooted (e # es) acc =
     (if e = '''' \<or> e = ''.'' then clean_elements rooted es acc
      else if e = ''..'' then
        (case acc of
           [] \<Rightarrow> clean_elements rooted es (if rooted then [] else [e])
         | a # as \<Rightarrow> clean_elements rooted es (if a = ''..'' then e # acc else as))
      else clean_elements rooted es (e # acc))"

fun join_slash :: "string list \<Rightarrow> string" where
  "join_slash [] = ''''"
| "join_slash [e] = e"
| "join_slash (e # es) = e @ ''/'' @ join_slash es"

definition IsAbs :: "string \<Rightarrow> bool" where
  "IsAbs path \<longleftrightarrow> HasPrefix path ''/''"

definition path_Clean :: "string \<Rightarrow> string" where
  "path_Clean path =
     (let es = clean_elements (IsAbs path) (split_slash path) []
      in if IsAbs path then ''/'' @ join_slash es else if es = [] then ''.'' else join_slash es)"

definition path_Join :: "string list \<Rightarrow> string" where
  "path_Join parts =
     (case dropWhile (\<lambda>e. e = '''') parts of [] \<Rightarrow> '''' | ps \<Rightarrow> path_Clean (join_slash ps))"

definition path_Dir :: "string \<Rightarrow> string" where
  "path_Dir path = path_Clean (rev (dropWhile (\<lambda>c. c \<noteq> CHR ''/'') (rev path)))"

section \<open>The definition\<close>

record env_file =
  ef_Path :: string
  ef_Variables :: "(string, string) gomap"

record environment =
  en_Unset :: "string list"
  en_Map :: "(string, string) gomap"
  en_Keys :: "string list"
  en_isMap :: bool

record service_volume =
  sv_Type :: string
  sv_Source :: string
  sv_Target :: string
  sv_Other :: string

record prepared_service =
  ps_Name :: string
  ps_Image :: string
  ps_EnvFiles :: "env_file list"
  ps_Environment :: environment
  ps_InitJobs :: "init_job list"
  ps_Volumes :: "service_volume option list"
  ps_DeployLabels :: labels
  ps_Other :: string

record compose_file =
  cf_Path :: string
  cf_Services :: "prepared_service list"
  cf_Objects :: compose_objects

section \<open>Image policy\<close>

record image_policy =
  ip_Required :: bool
  ip_NoLatest :: bool
  ip_OnlySHA :: bool

definition policy_Enabled :: "image_policy \<Rightarrow> bool" where
  "policy_Enabled p \<longleftrightarrow> ip_Required p \<or> ip_NoLatest p \<or> ip_OnlySHA p"

type_synonym image_parser = "string \<Rightarrow> named_ref option"

definition imagePolicyViolation :: "image_parser \<Rightarrow> image_policy \<Rightarrow> string \<Rightarrow> string" where
  "imagePolicyViolation parse policy img =
     (if \<not> policy_Enabled policy then ''''
      else case parse (TrimSpace img) of
             None \<Rightarrow> ''image.invalid''
           | Some named \<Rightarrow>
               let hasDigest = ref_Digest named \<noteq> None; hasTag = ref_Tag named \<noteq> None
               in if ip_OnlySHA policy \<and> \<not> hasDigest then ''image.tag.only_sha''
                  else if ip_Required policy \<and> \<not> hasTag \<and> \<not> hasDigest then ''image.tag.required''
                  else if ip_NoLatest policy \<and> (ref_Tag named = Some ''latest'' \<or> \<not> hasTag \<and> \<not> hasDigest)
                  then ''image.tag.no_latest''
                  else '''')"

definition imagePolicyViolationMessage :: "string \<Rightarrow> string" where
  "imagePolicyViolationMessage code =
     (if code = ''image.invalid'' then ''image reference is invalid''
      else if code = ''image.tag.required'' then ''image must have an explicit tag or digest''
      else if code = ''image.tag.no_latest'' then ''image must not use the latest tag''
      else if code = ''image.tag.only_sha'' then ''image must use a digest''
      else ''image policy rejected the service image'')"

text \<open>The field of an issue is the image of the service or of one of its Init Jobs.\<close>

datatype issue_field = ImageField | JobImageField string

record validation_issue =
  vi_ResourceType :: string
  vi_ResourceName :: string
  vi_Field :: issue_field
  vi_Code :: string
  vi_Message :: string

definition image_issue :: "image_parser \<Rightarrow> image_policy \<Rightarrow> string \<Rightarrow> issue_field \<Rightarrow> string \<Rightarrow> string \<Rightarrow> validation_issue list" where
  "image_issue parse policy service field prefix img =
     (let code = imagePolicyViolation parse policy img
      in if code = '''' then []
         else [\<lparr>vi_ResourceType = ''service'', vi_ResourceName = service, vi_Field = field, vi_Code = code,
                vi_Message = prefix @ imagePolicyViolationMessage code\<rparr>])"

text \<open>The message about a job quotes its name; the quotes of a name that needs escapes are not spelled out.\<close>

definition image_issues :: "image_parser \<Rightarrow> image_policy \<Rightarrow> prepared_service list \<Rightarrow> validation_issue list" where
  "image_issues parse policy services =
     concat (map (\<lambda>s. image_issue parse policy (ps_Name s) ImageField '''' (ps_Image s) @
       concat (map (\<lambda>j. image_issue parse policy (ps_Name s) (JobImageField (ij_Name j))
                          (''init job '' @ [CHR 0x22] @ ij_Name j @ [CHR 0x22] @ '': '') (ij_Image j)) (ps_InitJobs s))) services)"

datatype prepare_error = ImagesRejected string "validation_issue list" | RotationFailed rotation_error

definition checkImagePolicy :: "image_parser \<Rightarrow> image_policy \<Rightarrow> compose_file \<Rightarrow> prepare_error option" where
  "checkImagePolicy parse policy file =
     (let issues = image_issues parse policy (cf_Services file)
      in if issues = [] then None else Some (ImagesRejected (cf_Path file) issues))"

section \<open>Environment, mounts and labels\<close>

definition populateService :: "prepared_service \<Rightarrow> prepared_service" where
  "populateService s =
     (if ps_EnvFiles s = [] then s
      else
        let effective = fold (\<lambda>f m. m ++\<^sub>f ef_Variables f) (ps_EnvFiles s) fmempty ++\<^sub>f en_Map (ps_Environment s)
        in s\<lparr>ps_Environment := \<lparr>en_Unset = en_Unset (ps_Environment s), en_Map = effective, en_Keys = sorted_keys effective, en_isMap = True\<rparr>,
             ps_EnvFiles := []\<rparr>)"

definition normalize_volume :: "string \<Rightarrow> service_volume option \<Rightarrow> service_volume option" where
  "normalize_volume base v =
     (case v of
        None \<Rightarrow> None
      | Some volume \<Rightarrow>
          if sv_Type volume \<noteq> ''bind'' \<or> sv_Source volume = '''' \<or> IsAbs (sv_Source volume) then v
          else Some (volume\<lparr>sv_Source := path_Clean (path_Join [base, sv_Source volume])\<rparr>))"

definition normalizeBindMountPaths :: "string \<Rightarrow> prepared_service \<Rightarrow> prepared_service" where
  "normalizeBindMountPaths base s = s\<lparr>ps_Volumes := map (normalize_volume base) (ps_Volumes s)\<rparr>"

record downward_names =
  dw_StackName :: string
  dw_ServiceID :: string
  dw_ServiceName :: string
  dw_TaskID :: string
  dw_TaskName :: string
  dw_TaskSlot :: string
  dw_NodeID :: string
  dw_NodeName :: string

definition downwardEnvironment :: "downward_names \<Rightarrow> (string \<times> string) list" where
  "downwardEnvironment dw =
     [(dw_StackName dw, ''''), (dw_ServiceID dw, ''{{.Service.ID}}''), (dw_ServiceName dw, ''{{.Service.Name}}''),
      (dw_TaskID dw, ''{{.Task.ID}}''), (dw_TaskName dw, ''{{.Task.Name}}''), (dw_TaskSlot dw, ''{{.Task.Slot}}''),
      (dw_NodeID dw, ''{{.Node.ID}}''), (dw_NodeName dw, ''{{.Node.Hostname}}'')]"

definition downward_variable :: "downward_names \<Rightarrow> string \<Rightarrow> string \<times> string \<Rightarrow> (string, string) gomap \<Rightarrow> (string, string) gomap" where
  "downward_variable dw stack x m =
     (case x of (k, v) \<Rightarrow> if has_key m k then m else fmupd k (if k = dw_StackName dw then stack else v) m)"

definition addDownward :: "downward_names \<Rightarrow> string \<Rightarrow> prepared_service \<Rightarrow> prepared_service" where
  "addDownward dw stack s =
     s\<lparr>ps_Environment := (ps_Environment s)
         \<lparr>en_Map := fold (downward_variable dw stack) (downwardEnvironment dw) (en_Map (ps_Environment s))\<rparr>\<rparr>"

definition addManagedLabel :: "prepared_service \<Rightarrow> prepared_service" where
  "addManagedLabel s = s\<lparr>ps_DeployLabels := snd (labels_add ''org.swarm-deploy.service.managed'' ''true'' (ps_DeployLabels s))\<rparr>"

section \<open>The pipeline\<close>

record prepare_config =
  pr_Policy :: image_policy
  pr_Downward :: bool
  pr_Rotation :: rotation_spec

definition on_services :: "(prepared_service \<Rightarrow> prepared_service) \<Rightarrow> compose_file \<Rightarrow> compose_file" where
  "on_services f file = file\<lparr>cf_Services := map f (cf_Services file)\<rparr>"

definition needs_population :: "compose_file \<Rightarrow> bool" where
  "needs_population file \<longleftrightarrow> list_ex (\<lambda>s. ps_EnvFiles s \<noteq> []) (cf_Services file)"

text \<open>The definition is changed in place, so an error returns it as far as it was prepared.\<close>

definition Prepare ::
    "image_parser \<Rightarrow> downward_names \<Rightarrow> digest \<Rightarrow> prepare_config \<Rightarrow> string \<Rightarrow> compose_file \<Rightarrow> (string \<times> prepare_error) option \<times> compose_file" where
  "Prepare parse dw sha cfg stack file =
     (case (if policy_Enabled (pr_Policy cfg) then checkImagePolicy parse (pr_Policy cfg) file else None) of
        Some e \<Rightarrow> (Some (''check image policy'', e), file)
      | None \<Rightarrow>
          let file1 = (if needs_population file then on_services populateService file else file);
              file2 = on_services (normalizeBindMountPaths (path_Dir (cf_Path file1))) file1;
              file3 = (if pr_Downward cfg then on_services (addDownward dw stack) file2 else file2);
              file4 = on_services addManagedLabel file3
          in if \<not> ro_Enabled (pr_Rotation cfg) then (None, file4)
             else case Rotate sha (pr_Rotation cfg) stack (cf_Objects file4) of
                    (None, _, objects) \<Rightarrow> (None, file4\<lparr>cf_Objects := objects\<rparr>)
                  | (Some e, _, objects) \<Rightarrow> (Some (''rotate secrets/configs'', RotationFailed e), file4\<lparr>cf_Objects := objects\<rparr>))"

section \<open>Mounts become absolute and clean\<close>

definition plain_element :: "string \<Rightarrow> bool" where
  "plain_element e \<longleftrightarrow> e \<noteq> '''' \<and> e \<noteq> ''.'' \<and> e \<noteq> ''..'' \<and> CHR ''/'' \<notin> set e"

definition absolute_clean :: "string \<Rightarrow> bool" where
  "absolute_clean path \<longleftrightarrow> (\<exists>es. list_all plain_element es \<and> path = ''/'' @ join_slash es)"

lemma IsAbs_iff: "IsAbs path \<longleftrightarrow> (\<exists>r. path = ''/'' @ r)"
  by (cases path) (auto simp: IsAbs_def HasPrefix_def strip_prefix_Some)

lemma split_slash_plain: "e \<in> set (split_slash s) \<Longrightarrow> CHR ''/'' \<notin> set e"
  by (induction s arbitrary: e) (auto split: list.splits if_splits)

lemma clean_elements_plain:
  assumes "list_all plain_element acc" "\<forall>e \<in> set es. CHR ''/'' \<notin> set e"
  shows "list_all plain_element (clean_elements True es acc)"
  using assms
proof (induction es arbitrary: acc)
  case (Cons e es)
  then have "list_all plain_element (tl acc)" by (cases acc) auto
  moreover have "plain_element e" if "e \<noteq> ''''" "e \<noteq> ''.''" "e \<noteq> ''..''"
    using Cons.prems that by (simp add: plain_element_def)
  moreover have "a \<noteq> ''..''" if "acc = a # as" for a as using Cons.prems(1) that by (simp add: plain_element_def)
  ultimately show ?case using Cons.prems Cons.IH by (cases acc) simp_all
qed simp

lemma path_Clean_absolute:
  assumes "IsAbs path"
  shows "absolute_clean (path_Clean path)"
  using assms clean_elements_plain [of "[]" "split_slash path"] split_slash_plain
  unfolding absolute_clean_def path_Clean_def by (auto simp: Let_def)

lemma absolute_clean_IsAbs: "absolute_clean path \<Longrightarrow> IsAbs path"
  by (auto simp: absolute_clean_def IsAbs_iff)

lemma path_Join_absolute:
  assumes "IsAbs base"
  shows "absolute_clean (path_Join [base, source])"
proof -
  from assms have "base \<noteq> ''''" "IsAbs (base @ ''/'' @ source)" by (auto simp: IsAbs_iff)
  then show ?thesis using path_Clean_absolute by (simp add: path_Join_def)
qed

lemma path_Dir_absolute:
  assumes "IsAbs path"
  shows "IsAbs (path_Dir path)"
proof -
  from assms obtain r where p: "path = CHR ''/'' # r" by (auto simp: IsAbs_iff)
  then have "IsAbs (rev (dropWhile (\<lambda>c. c \<noteq> CHR ''/'') (rev path)))"
    by (auto simp: IsAbs_iff dropWhile_append intro: exI [of _ "rev (dropWhile (\<lambda>c. c \<noteq> CHR ''/'') (rev r))"])
  then show ?thesis unfolding path_Dir_def by (rule absolute_clean_IsAbs [OF path_Clean_absolute])
qed

definition mounted_from :: "service_volume option \<Rightarrow> service_volume option \<Rightarrow> bool" where
  "mounted_from v v' \<longleftrightarrow>
     (case v of
        None \<Rightarrow> v' = None
      | Some x \<Rightarrow>
          if sv_Type x = ''bind'' \<and> sv_Source x \<noteq> '''' \<and> \<not> IsAbs (sv_Source x)
          then \<exists>p. absolute_clean p \<and> v' = Some (x\<lparr>sv_Source := p\<rparr>)
          else v' = v)"

lemma normalize_volume_facts:
  assumes "IsAbs base"
  shows "mounted_from v (normalize_volume base v)" "normalize_volume base (normalize_volume base v) = normalize_volume base v"
proof -
  have "absolute_clean (path_Clean (path_Join [base, source]))" for source
    using path_Join_absolute [OF assms] by (intro path_Clean_absolute absolute_clean_IsAbs)
  then show "mounted_from v (normalize_volume base v)" "normalize_volume base (normalize_volume base v) = normalize_volume base v"
    by (auto simp: mounted_from_def normalize_volume_def dest: absolute_clean_IsAbs split: option.split)
qed

section \<open>The effective environment\<close>

text \<open>The reference definition: explicit values first, then the last file that has the variable, then Downward.\<close>

definition effective_variable :: "downward_names \<Rightarrow> bool \<Rightarrow> string \<Rightarrow> prepared_service \<Rightarrow> string \<Rightarrow> string option" where
  "effective_variable dw downward stack s k =
     (case fmlookup (en_Map (ps_Environment s)) k of
        Some v \<Rightarrow> Some v
      | None \<Rightarrow>
          (case find (\<lambda>f. has_key (ef_Variables f) k) (rev (ps_EnvFiles s)) of
             Some f \<Rightarrow> fmlookup (ef_Variables f) k
           | None \<Rightarrow>
               if \<not> downward then None
               else if k = dw_StackName dw then Some stack else map_of (downwardEnvironment dw) k))"

lemma env_files_lookup:
  "fmlookup (fold (\<lambda>f m. m ++\<^sub>f ef_Variables f) files m) k =
    (case find (\<lambda>f. has_key (ef_Variables f) k) (rev files) of
       Some f \<Rightarrow> fmlookup (ef_Variables f) k | None \<Rightarrow> fmlookup m k)"
proof (induction files rule: rev_induct)
  case (snoc f files)
  then show ?case by (cases "fmlookup (ef_Variables f) k") (auto simp: has_key_iff fmlookup_dom_iff split: option.splits)
qed simp

lemma populateService_lookup:
  "fmlookup (en_Map (ps_Environment (populateService s))) k = effective_variable dw False stack s k"
proof (cases "ps_EnvFiles s = []")
  case True
  then show ?thesis by (simp add: populateService_def effective_variable_def split: option.split)
next
  case False
  then show ?thesis
    by (auto simp: populateService_def effective_variable_def Let_def env_files_lookup fmlookup_dom_iff split: option.split)
qed

lemma downward_fold_lookup:
  "fmlookup (fold (downward_variable dw stack) xs m) k =
    (case fmlookup m k of
       Some v \<Rightarrow> Some v
     | None \<Rightarrow> map_option (\<lambda>v. if k = dw_StackName dw then stack else v) (map_of xs k))"
proof (induction xs arbitrary: m)
  case (Cons x xs)
  then show ?case by (cases x) (auto simp: downward_variable_def has_key_iff split: option.splits)
qed (auto split: option.split)

lemma downward_fold_idem:
  "fold (downward_variable dw stack) xs (fold (downward_variable dw stack) xs m) = fold (downward_variable dw stack) xs m"
  by (rule fmap_ext) (auto simp: downward_fold_lookup split: option.split)

lemma downward_stack_name: "map_of (downwardEnvironment dw) (dw_StackName dw) = Some ''''"
  by (simp add: downwardEnvironment_def)

lemma addDownward_lookup:
  "fmlookup (en_Map (ps_Environment (addDownward dw stack (populateService s)))) k = effective_variable dw True stack s k"
proof -
  have "fmlookup (en_Map (ps_Environment (addDownward dw stack (populateService s)))) k =
      (case effective_variable dw False stack s k of
         Some v \<Rightarrow> Some v
       | None \<Rightarrow> map_option (\<lambda>v. if k = dw_StackName dw then stack else v) (map_of (downwardEnvironment dw) k))"
    by (simp add: addDownward_def downward_fold_lookup populateService_lookup [of _ _ dw stack])
  moreover have "fmlookup (ef_Variables f) k \<noteq> None" if "find (\<lambda>f. has_key (ef_Variables f) k) (rev (ps_EnvFiles s)) = Some f" for f
    using that by (auto simp: find_Some_iff has_key_iff)
  ultimately show ?thesis
    using downward_stack_name [of dw]
    by (cases "fmlookup (en_Map (ps_Environment s)) k"; cases "find (\<lambda>f. has_key (ef_Variables f) k) (rev (ps_EnvFiles s))";
        cases "k = dw_StackName dw"; cases "map_of (downwardEnvironment dw) k") (auto simp: effective_variable_def)
qed

section \<open>Preparing a definition\<close>

definition prepare_service :: "downward_names \<Rightarrow> prepare_config \<Rightarrow> string \<Rightarrow> string \<Rightarrow> prepared_service \<Rightarrow> prepared_service" where
  "prepare_service dw cfg stack base s =
     addManagedLabel ((if pr_Downward cfg then addDownward dw stack else id) (normalizeBindMountPaths base (populateService s)))"

lemma map_populateService: "\<not> needs_population file \<Longrightarrow> map populateService (cf_Services file) = cf_Services file"
  by (rule map_idI) (auto simp: needs_population_def list_ex_iff populateService_def)

lemma Prepare_shape:
  "Prepare parse dw sha cfg stack file =
    (case (if policy_Enabled (pr_Policy cfg) then checkImagePolicy parse (pr_Policy cfg) file else None) of
       Some e \<Rightarrow> (Some (''check image policy'', e), file)
     | None \<Rightarrow>
         let ready = file\<lparr>cf_Services := map (prepare_service dw cfg stack (path_Dir (cf_Path file))) (cf_Services file)\<rparr>
         in if \<not> ro_Enabled (pr_Rotation cfg) then (None, ready)
            else case Rotate sha (pr_Rotation cfg) stack (cf_Objects file) of
                   (None, _, objects) \<Rightarrow> (None, ready\<lparr>cf_Objects := objects\<rparr>)
                 | (Some e, _, objects) \<Rightarrow> (Some (''rotate secrets/configs'', RotationFailed e), ready\<lparr>cf_Objects := objects\<rparr>))"
proof -
  let ?f = "on_services (normalizeBindMountPaths (path_Dir (cf_Path (on_services populateService file)))) (on_services populateService file)"
  have file1: "(if needs_population file then on_services populateService file else file) = on_services populateService file"
    using map_populateService [of "file"] by (simp add: on_services_def)
  have ready: "on_services addManagedLabel (if pr_Downward cfg then on_services (addDownward dw stack) ?f else ?f) =
      file\<lparr>cf_Services := map (prepare_service dw cfg stack (path_Dir (cf_Path file))) (cf_Services file)\<rparr>"
    by (simp add: on_services_def prepare_service_def o_def)
  show ?thesis unfolding Prepare_def Let_def file1 ready by (simp cong: option.case_cong)
qed

lemma prepare_service_fields [simp]:
  "ps_Name (prepare_service dw cfg stack base s) = ps_Name s"
  "ps_Image (prepare_service dw cfg stack base s) = ps_Image s"
  "ps_InitJobs (prepare_service dw cfg stack base s) = ps_InitJobs s"
  "ps_Other (prepare_service dw cfg stack base s) = ps_Other s"
  "ps_EnvFiles (prepare_service dw cfg stack base s) = []"
  "ps_Volumes (prepare_service dw cfg stack base s) = map (normalize_volume base) (ps_Volumes s)"
  "ps_DeployLabels (prepare_service dw cfg stack base s) = fmupd ''org.swarm-deploy.service.managed'' ''true'' (ps_DeployLabels s)"
  by (simp_all add: prepare_service_def addManagedLabel_def labels_add_def addDownward_def normalizeBindMountPaths_def
      populateService_def Let_def)

lemma prepare_service_environment:
  "fmlookup (en_Map (ps_Environment (prepare_service dw cfg stack base s))) k = effective_variable dw (pr_Downward cfg) stack s k"
proof -
  have "ps_Environment (prepare_service dw cfg stack base s) =
      ps_Environment ((if pr_Downward cfg then addDownward dw stack else id) (populateService s))"
    by (simp add: prepare_service_def addManagedLabel_def addDownward_def normalizeBindMountPaths_def)
  then show ?thesis by (simp add: addDownward_lookup populateService_lookup [of _ _ dw stack])
qed

text \<open>Preparing a prepared service changes nothing.\<close>

lemma prepare_service_idem:
  assumes "IsAbs base"
  shows "prepare_service dw cfg stack base (prepare_service dw cfg stack base s) = prepare_service dw cfg stack base s"
proof -
  let ?s = "prepare_service dw cfg stack base s"
  have "populateService ?s = ?s" by (simp add: populateService_def)
  moreover have "normalizeBindMountPaths base ?s = ?s"
    by (simp add: normalizeBindMountPaths_def normalize_volume_facts(2) [OF assms])
  moreover have "addDownward dw stack ?s = ?s" if "pr_Downward cfg"
    using that downward_fold_idem by (simp add: prepare_service_def addManagedLabel_def addDownward_def normalizeBindMountPaths_def)
  moreover have "addManagedLabel ?s = ?s"
    by (simp add: prepare_service_def addManagedLabel_def labels_add_def)
  ultimately show ?thesis by (simp add: prepare_service_def [of _ _ _ _ ?s])
qed

lemma rotate_object_idem:
  assumes "rotate_object sha spec stack k obj = Inr (Some obj')"
  shows "rotate_object sha spec stack k obj' = Inr (Some obj')"
  using assms
  by (auto simp: rotate_object_def apply_rotation_def labels_add_def Let_def RotatedManagedKey_def RotatedLogicalNameKey_def
      fmupd_reorder_neq split: if_splits option.splits)

lemma rotate_loop_fixed:
  assumes "\<And>k obj. fmlookup objects k = Some obj \<Longrightarrow> rotate_object sha spec stack k obj \<in> {Inr None, Inr (Some obj)}"
  shows "\<exists>ch. rotate_loop sha spec stack ks objects changed = (None, ch, objects)"
proof (induction ks arbitrary: changed)
  case (Cons k ks)
  show ?case
  proof (cases "fmlookup objects k")
    case (Some obj)
    moreover from this have "fmupd k obj objects = objects" by (intro fmap_ext) auto
    ultimately show ?thesis using Cons assms [OF Some] by auto
  qed (use Cons in simp)
qed simp

lemma rotate_loop_no_error:
  assumes "rotate_loop sha spec stack ks objects changed = (None, changed', objects')" "distinct ks"
    and "k \<in> set ks" "fmlookup objects k = Some obj"
  shows "\<exists>r. rotate_object sha spec stack k obj = Inr r"
  using assms
proof (induction ks arbitrary: objects changed)
  case (Cons a ks)
  show ?case
  proof (cases "fmlookup objects a")
    case (Some o')
    with Cons show ?thesis by (cases "k = a") (auto split: sum.splits option.splits)
  qed (use Cons in auto)
qed simp

lemma applyObjectTypeRotation_idem:
  assumes "applyObjectTypeRotation sha spec stack objects = (None, changed, objects')"
  shows "\<exists>ch. applyObjectTypeRotation sha spec stack objects' = (None, ch, objects')"
  unfolding applyObjectTypeRotation_def
proof (rule rotate_loop_fixed)
  fix k obj' assume "fmlookup objects' k = Some obj'"
  then obtain obj where obj: "fmlookup objects k = Some obj" "obj' = rotated_object_of sha spec stack k obj"
    using applyObjectTypeRotation_lookup [OF assms] by auto
  moreover have "\<exists>r. rotate_object sha spec stack k obj = Inr r"
    by (rule rotate_loop_no_error [OF assms [unfolded applyObjectTypeRotation_def]]) (use obj in \<open>auto simp: has_key_iff\<close>)
  ultimately show "rotate_object sha spec stack k obj' \<in> {Inr None, Inr (Some obj')}"
    using rotate_object_idem by (auto simp: rotated_object_of_def split: option.splits)
qed

lemma Rotate_idem:
  assumes "Rotate sha spec stack file = (None, changed, rotated)"
  shows "\<exists>ch. Rotate sha spec stack rotated = (None, ch, rotated)"
proof -
  have "\<exists>ch. applyObjectTypeRotation sha spec stack (objects_of t rotated) = (None, ch, objects_of t rotated)" for t
    using Rotate_objects [OF assms, of t] applyObjectTypeRotation_idem by blast
  from this [of "''config''"] this [of "''secret''"] show ?thesis by (auto simp: objects_of_def Rotate_def)
qed

section \<open>What a prepared definition is\<close>

definition prepared_from ::
    "image_parser \<Rightarrow> downward_names \<Rightarrow> prepare_config \<Rightarrow> string \<Rightarrow> prepared_service \<Rightarrow> prepared_service \<Rightarrow> bool" where
  "prepared_from parse dw cfg stack s s' \<longleftrightarrow>
     ps_Name s' = ps_Name s \<and> ps_Image s' = ps_Image s \<and> ps_InitJobs s' = ps_InitJobs s \<and> ps_Other s' = ps_Other s \<and>
     (\<forall>img \<in> insert (ps_Image s) (ij_Image ` set (ps_InitJobs s)). imagePolicyViolation parse (pr_Policy cfg) img = '''') \<and>
     ps_EnvFiles s' = [] \<and>
     (\<forall>k. fmlookup (en_Map (ps_Environment s')) k = effective_variable dw (pr_Downward cfg) stack s k) \<and>
     (\<forall>k. fmlookup (ps_DeployLabels s') k =
        (if k = ''org.swarm-deploy.service.managed'' then Some ''true'' else fmlookup (ps_DeployLabels s) k)) \<and>
     list_all2 mounted_from (ps_Volumes s) (ps_Volumes s')"

lemma no_image_issues:
  "image_issues parse policy services = [] \<longleftrightarrow>
    (\<forall>s \<in> set services. \<forall>img \<in> insert (ps_Image s) (ij_Image ` set (ps_InitJobs s)). imagePolicyViolation parse policy img = '''')"
  by (auto simp: image_issues_def image_issue_def Let_def)

lemma policy_disabled: "\<not> policy_Enabled policy \<Longrightarrow> imagePolicyViolation parse policy img = ''''"
  by (simp add: imagePolicyViolation_def)

lemma policy_passed:
  "(if policy_Enabled policy then checkImagePolicy parse policy file else None) = None \<longleftrightarrow>
    image_issues parse policy (cf_Services file) = []"
  by (auto simp: checkImagePolicy_def Let_def no_image_issues policy_disabled)


section \<open>An example\<close>

definition demo_names :: downward_names where
  "demo_names =
     \<lparr>dw_StackName = ''STACK'', dw_ServiceID = ''SERVICE_ID'', dw_ServiceName = ''SERVICE'', dw_TaskID = ''TASK_ID'',
      dw_TaskName = ''TASK'', dw_TaskSlot = ''SLOT'', dw_NodeID = ''NODE_ID'', dw_NodeName = ''NODE''\<rparr>"

definition demo_parser :: image_parser where
  "demo_parser s = (if s = ''web'' then None else Some \<lparr>ref_Name = s, ref_Tag = Some ''v1'', ref_Digest = None\<rparr>)"

definition demo_config :: prepare_config where
  "demo_config = \<lparr>pr_Policy = \<lparr>ip_Required = True, ip_NoLatest = True, ip_OnlySHA = False\<rparr>, pr_Downward = True, pr_Rotation = demo_rotation\<rparr>"

definition demo_file :: "string \<Rightarrow> compose_file" where
  "demo_file img =
     \<lparr>cf_Path = ''/repo/shop/compose.yaml'',
      cf_Services =
        [\<lparr>ps_Name = ''web'', ps_Image = img,
           ps_EnvFiles = [\<lparr>ef_Path = ''a.env'', ef_Variables = fmupd ''A'' ''1'' (fmupd ''B'' ''1'' fmempty)\<rparr>,
                          \<lparr>ef_Path = ''b.env'', ef_Variables = fmupd ''B'' ''2'' fmempty\<rparr>],
           ps_Environment = \<lparr>en_Unset = [], en_Map = fmupd ''A'' ''x'' fmempty, en_Keys = [''A''], en_isMap = True\<rparr>,
           ps_InitJobs = [],
           ps_Volumes = [Some \<lparr>sv_Type = ''bind'', sv_Source = ''./../data'', sv_Target = ''/data'', sv_Other = ''''\<rparr>],
           ps_DeployLabels = fmempty, ps_Other = ''''\<rparr>],
      cf_Objects = demo_objects\<rparr>"


end
