(* ===== verification/Spec2Isabelle.thy ===== *)
theory Spec2Isabelle
  imports StackQueue StackPlan Dispatcher DeploymentController Scheduler StackLoop Projection AlertSafety DeployerSafety
    StackPreparation
begin

text \<open>
  A verification development for swarm-deploy, a GitOps operator for Docker Swarm. The program pulls a Git
  repository with Compose files, decides which stacks a change touches, deploys them one after another per
  stack, waits until Docker has really started the desired containers, and keeps deployments, drift and alerts
  in a SQLite database, from which durable events feed projections and notifications.

  This theory only holds the overview; the definitions and theorems are in the theories it imports. A property
  is a theorem directly after a text block that starts with its number (\<open>C1\<close> to \<open>C40\<close>). All paths below are
  under \<open>src/internal\<close>.

  \<^bold>\<open>How the parts interact\<close>

  The scheduler runs one synchronization at a time: for every trigger (ticker, webhook, manual request) it pulls
  Git, reloads the configuration, plans the stacks and hands them to the stack queue. Workers take stacks from
  the queue; one operation reconciles one stack: it prepares the desired state, asks the deployment controller
  for a deployment, self-heals drift and prunes removed services. The deployment controller records an attempt,
  calls the deployer and stores its outcome. The deployer reconciles networks, configs and secrets, runs Init
  Jobs, applies the services and waits for their convergence. Every completed deployment and every pull
  publishes an event in the transaction that stores its result; the outbox delivers it to the projection of the
  GitOps state and to the alert subscriber.

  \<^bold>\<open>Theories and sources\<close>

  Shared:
  \<^item> \<open>Prelude\<close>: Go values (a Go map is an \<open>fmap\<close>, a missing key its zero value), SQLite transactions
    (\<open>within_tx\<close>: a body that fails leaves the database as it was), string functions of the Go library, the
    locales \<open>atomic_unit\<close> (transactional operations) and \<open>inductive_invariant\<close> (reachable states).
  \<^item> \<open>GitOpsConfig\<close>: \<open>config/config.go\<close>, \<open>modules/gitops/git/git.go\<close>, \<open>modules/gitops/reconciliation.go\<close>.
  \<^item> \<open>EventTypes\<close>: \<open>modules/event/events/types.go\<close>.

  Synchronization (\<open>modules/gitops\<close>):
  \<^item> \<open>StackPlan\<close>: \<open>controller/stackplan/planner.go\<close>.
  \<^item> \<open>StackQueue\<close>: \<open>controller/stackqueue/queue.go\<close>; the record \<open>queue\<close> has the fields of \<open>Queue\<close>, every method is a
    function, and \<open>qstep\<close> interleaves callers with the goroutines of the workers.
  \<^item> \<open>GitOpsRuntime\<close>: \<open>model\<close> with \<open>modelstore/sqlite.go\<close> and \<open>configstore\<close>.
  \<^item> \<open>GitPull\<close>: \<open>controller/gitpull\<close>. \<open>NetworkLoop\<close>: \<open>controller/networkloop\<close>.
  \<^item> \<open>SyncRun\<close>, \<open>SyncSafety\<close>: \<open>controller/syncrun/runner.go\<close>; the second has the interleavings with workers, writes
    of stack results and shutdown.
  \<^item> \<open>Scheduler\<close>: \<open>controller/scheduler/scheduler.go\<close> and \<open>controller/controller.go\<close>.
  \<^item> \<open>Drift\<close>: \<open>controller/stackloop/drift\<close>, the sync policies of services and the service pruner.
  \<^item> \<open>StackLoop\<close>: \<open>controller/stackloop\<close>, the reconciliation of one stack.
  \<^item> \<open>StackPreparation\<close>: \<open>controller/stackloop/preparation/preparer.go\<close> and \<open>compose/envfile.go\<close>, the effective definition.
  \<^item> \<open>ResourceRotation\<close>: \<open>controller/stackloop/rotator.go\<close> and \<open>rotated_resource_cleaner.go\<close>, the names of configs and
    secrets and the removal of their old versions.
  \<^item> \<open>Projection\<close>: \<open>deployment/projection.go\<close>.

  Deployments (\<open>modules/deployments\<close>):
  \<^item> \<open>DeploymentStore\<close>: \<open>model/model.go\<close>, \<open>modelstore/sqlite.go\<close>; rows as records, tables as lists, and every
    constraint of the schema the code relies on as part of the statement that would violate it.
  \<^item> \<open>DeploymentService\<close>: \<open>service.go\<close>, \<open>completion.go\<close>, \<open>verification.go\<close>. \<open>DeploymentLifecycle\<close> and \<open>DeploymentSafety\<close>
    hold the invariant of the tables and the properties.
  \<^item> \<open>DeploymentController\<close>: \<open>controller.go\<close>.
  \<^item> \<open>Deployer\<close>, \<open>DeployerSafety\<close>: \<open>deployer/pipeline.go\<close>, \<open>deployer.go\<close>, \<open>payload.go\<close> and the selection of one service in
    \<open>stack/compose.go\<close>.
  \<^item> \<open>StackResources\<close>: \<open>deployer/networks/reconciler.go\<close>, \<open>deployer/secrets/resolver.go\<close>,
    \<open>deployer/resources/reconciler.go\<close>.
  \<^item> \<open>InitJob\<close>: \<open>deployer/initjob\<close>.
  \<^item> \<open>SwarmSpec\<close>: \<open>deployer/services/verification.go\<close>, \<open>comparison.go\<close>, \<open>defaults.go\<close> and \<open>swarm/task_spec.go\<close>.
  \<^item> \<open>TaskFailure\<close>: \<open>deployer/services/task_failure.go\<close>, \<open>job_failure.go\<close>.
  \<^item> \<open>Waiter\<close>, \<open>WaitSafety\<close>: \<open>deployer/waiter\<close>.
  \<^item> \<open>Applier\<close>, \<open>ApplySafety\<close>, \<open>ApplyGenerations\<close>: \<open>deployer/services/applier.go\<close>, \<open>replicas.go\<close>.

  Events and alerts:
  \<^item> \<open>Outbox\<close>: \<open>modules/event/outbox\<close>. \<open>Dispatcher\<close>: \<open>modules/event/dispatcher\<close>.
  \<^item> \<open>AlertStore\<close>, \<open>AlertSubscriber\<close>, \<open>AlertSafety\<close>: \<open>modules/alertmanagement\<close>.

  State is a record of the fields of the Go struct (or of the tables a component owns) and is passed
  explicitly. Errors are values of a sum or of an error datatype, one constructor per origin. Where goroutines
  or callers interleave, the entry points are the steps of an inductive relation and the properties hold in
  every reachable state.

  \<^bold>\<open>What the theorems show\<close>

  \<^item> Queue and planning (C1, C2, C3, C6, C8, C9): no two operations of a stack run at once in any interleaving;
    the ready list is exact; replacing the work keeps manual requests; a stopped or paused queue starts nothing;
    workers drain it; the deployment order is the documented one.
  \<^item> Synchronization (C34 to C36, C38, C40): only stacks of the last accepted configuration start, the stored pull
    failure and the drift flags replay the published events, repeating a network reconciliation changes
    nothing, and the controller refines the synchronization runs.
  \<^item> Preparation and rotation (C14, C23): a prepared definition has the reference environment, absolute mounts and
    accepted images, and preparing it again changes nothing; cleanup removes no version of a config or secret that is
    in use, named by the definition, too young, or among those to keep.
  \<^item> Durable events (C10 to C12, C16): the tables of the outbox stay consistent under every operation and fault,
    events of a subscription are delivered in order, no delivery is lost, and the projection does not depend on the order or repetition of its events.
  \<^item> Deployment lifecycle (C21, C22, C24, C29, C31 to C33): attempts are gapless and only the newest runs, completing
    commits everything together, obligations to verify survive a
    replacement, and an outcome the store refused is remembered and stored before anything else starts.
  \<^item> Deployer (C13, C15, C17, C19, C26, C28): success means that every stage ran and one poll saw every changed and
    inherited service ready; a failure reports what is owed; networks are created at most once each; secrets
    of other owners are not touched; the cleanup of Init Jobs deals with every service exactly once.
  \<^item> Verification of services (C4, C18, C25, C27, C37, C39): the waiter ends, reports success only on an observation that
    shows the expected specification running, and keeps failures; every write was justified, based on the
    inspected version, and preceded by its record; an externally scaled service is only touched when idle.
  \<^item> Alerts (C5, C7, C20, C30): one open alert per fingerprint, delayed events are ignored, failures open and
    recoveries close exactly the incident of their resource.

  \<^bold>\<open>Locales\<close>

  \<open>atomic_unit\<close> states what a transaction promises; it is interpreted on \<open>within_tx\<close>, in which the stores of
  events, deployments, alerts and runtime state run. \<open>inductive_invariant\<close> turns an initial state and a preserved
  predicate into a property of every reachable state; it is interpreted on the steps of the outbox, the
  deployments, the alerts, the scheduler, the stack queue, the synchronization runs, the pull state and the
  Init Job cleanup. \<open>dispatch_queue\<close> (\<open>SyncRun\<close>) is what a synchronization run asks of its queue, interpreted on
  \<open>StackQueue\<close>. \<open>growing\<close> and \<open>steady\<close> (\<open>ApplySafety\<close>) lift a fact that every call to Docker keeps to the whole applier;
  their interpretations are the facts about logs, credentials and generations behind C27, C39 and C13.

  \<^bold>\<open>Bounds and termination\<close>

  The attempts of the code are constants of the model: three writes of a service update, three checks of a
  template mismatch, forty inspections of a created network, five attempts to delete a job service, a channel
  of 128 cleanup entries. \<open>TrimSpace\<close> and similar loops run at most once per character. A wait is a function of
  the list of answers of Docker to its polls; a list that ends before a decision gives \<open>None\<close> (still waiting), and C4
  shows that an answer with an ended context always ends it. Worker loops recurse on the work that is left.

  \<^bold>\<open>Parameters\<close>

  What is not code of the repository, and the answers of the outside world, are arguments: Docker answers
  (\<open>poll_answer\<close>, \<open>apply_env\<close>, \<open>resource_env\<close>, \<open>job_env\<close>) may differ at every call; digests and the image parser are in
  \<open>spec_ops\<close>; the converter and the pipeline library are in \<open>deploy_env\<close>, where \<open>runs_in_order\<close> states the documented
  behaviour of the library (stages in order, stop at the first error); the retry library of the cleanup, Git, SHA-256,
  the variable names of the Downward library, the accepted configuration, the event codec and the regular expressions that mask error texts are functions.
  The theorems hold for all of them; the witnesses use concrete ones.

  \<^bold>\<open>Not modelled\<close>

  \<^item> Generated code: the ogen server of the web API. It is most of the lines of the repository and has no logic
    of its own.
  \<^item> HTTP and process plumbing: web handlers and middlewares, the webhook and health servers, the command line,
    the file lock of the controller.
  \<^item> Clients of outside services: the image registry, the wrappers of the Docker API, secret stores, go-git,
    notification senders, the language model of the assistant.
  \<^item> Parsing: configuration and Compose files are decoded by library parsers; the models take the result. The
    converter to Docker specifications copies fields.
  \<^item> Display: inventories, recommendations, event history, live differences, commit links.
  \<^item> Metrics, spans, log lines and the wording of errors everywhere; lengths of time except where the code
    compares them; the JSON text of stored rows.
\<close>

end
